(* ===== verification/Prelude.thy ===== *)
theory Prelude
  imports Main "HOL-Library.AList" "HOL-Library.Char_ord" "HOL-Library.List_Lexorder"
    "HOL-Library.Product_Lexorder" "HOL-Library.Sublist"
begin

text \<open>
  Shared vocabulary of the development: Go maps as association lists with the laws every client
  relies on (locale \<open>go_dict\<close>), the string functions of Go's \<open>strings\<close> package that the sources
  call, \<open>errors\<close> as sum values, and clock values.

  A Go \<open>string\<close> is a sequence of bytes; here it is HOL's \<open>string\<close>, whose characters are the 256
  byte values.  A \<open>time.Time\<close> is the number of nanoseconds since Go's zero time (so \<open>IsZero\<close> is
  \<open>t = 0\<close>), a \<open>time.Duration\<close> a number of nanoseconds; both are unbounded integers here, since
  no addition of the sources comes near the range of either Go type.
\<close>

type_synonym gotime = int
type_synonym duration = int

abbreviation second :: duration where "second \<equiv> 1000000000"

named_theorems dict_simps "lookups and lengths after an update of a Go map"
named_theorems string_defs "definitions of the modelled string functions"


section \<open>Results\<close>

text \<open>A fallible call: \<open>Inl\<close> carries the error, \<open>Inr\<close> the value.\<close>

definition bindE :: "'e + 'a \<Rightarrow> ('a \<Rightarrow> 'e + 'b) \<Rightarrow> 'e + 'b" where
  "bindE r f = (case r of Inl e \<Rightarrow> Inl e | Inr x \<Rightarrow> f x)"

definition guardE :: "bool \<Rightarrow> 'e \<Rightarrow> 'e + unit" where
  "guardE ok e = (if ok then Inr () else Inl e)"

lemma bindE_simps [simp]:
  "bindE (Inl e) f = Inl e"
  "bindE (Inr x) f = f x"
  by (simp_all add: bindE_def)

lemma bindE_Inr_iff: "bindE r f = Inr y \<longleftrightarrow> (\<exists>x. r = Inr x \<and> f x = Inr y)"
  by (cases r) auto

lemma bindE_Inl_iff: "bindE r f = Inl e \<longleftrightarrow> r = Inl e \<or> (\<exists>x. r = Inr x \<and> f x = Inl e)"
  by (cases r) auto

lemma guardE_Inr_iff [simp]: "guardE ok e = Inr u \<longleftrightarrow> ok"
  by (simp add: guardE_def)

lemma guardE_Inl_iff [simp]: "guardE ok e = Inl e' \<longleftrightarrow> \<not> ok \<and> e' = e"
  by (auto simp: guardE_def)

text \<open>A loop that validates the elements of a slice and stops at the first error.\<close>

fun mapE :: "('a \<Rightarrow> 'e + 'b) \<Rightarrow> 'a list \<Rightarrow> 'e + 'b list" where
  "mapE f [] = Inr []"
| "mapE f (x # xs) = bindE (f x) (\<lambda>y. bindE (mapE f xs) (\<lambda>ys. Inr (y # ys)))"

lemma mapE_Inr_iff: "mapE f xs = Inr ys \<longleftrightarrow> list_all2 (\<lambda>x y. f x = Inr y) xs ys"
  by (induction xs arbitrary: ys) (auto simp: bindE_Inr_iff list_all2_Cons1)

lemma mapE_Inr_length: "mapE f xs = Inr ys \<Longrightarrow> length ys = length xs"
  by (auto simp: mapE_Inr_iff dest: list_all2_lengthD)

text \<open>A loop that threads a state through the elements and stops at the first error.\<close>

fun foldE :: "('s \<Rightarrow> 'a \<Rightarrow> 'e + 's) \<Rightarrow> 's \<Rightarrow> 'a list \<Rightarrow> 'e + 's" where
  "foldE f s [] = Inr s"
| "foldE f s (x # xs) = bindE (f s x) (\<lambda>s'. foldE f s' xs)"

definition is_ok :: "'e + 'a \<Rightarrow> bool" where
  "is_ok r = (case r of Inl _ \<Rightarrow> False | Inr _ \<Rightarrow> True)"

lemma is_ok_simps [simp]: "is_ok (Inl e) = False" "is_ok (Inr x) = True"
  by (simp_all add: is_ok_def)


section \<open>Go maps\<close>

text \<open>
  What the clients of a Go map rely on.  \<open>get\<close> is the two-value lookup \<open>v, ok := m[k]\<close>, \<open>put\<close> the
  assignment \<open>m[k] = v\<close>, \<open>del\<close> the builtin \<open>delete(m, k)\<close> and \<open>len\<close> the builtin \<open>len(m)\<close>.
\<close>

locale go_dict =
  fixes get :: "'m \<Rightarrow> 'k \<Rightarrow> 'v option"
    and put :: "'m \<Rightarrow> 'k \<Rightarrow> 'v \<Rightarrow> 'm"
    and del :: "'m \<Rightarrow> 'k \<Rightarrow> 'm"
    and len :: "'m \<Rightarrow> nat"
    and wf :: "'m \<Rightarrow> bool"
  assumes get_put: "wf m \<Longrightarrow> get (put m k v) j = (if j = k then Some v else get m j)"
    and get_del: "wf m \<Longrightarrow> get (del m k) j = (if j = k then None else get m j)"
    and wf_put: "wf m \<Longrightarrow> wf (put m k v)"
    and wf_del: "wf m \<Longrightarrow> wf (del m k)"
    and finite_get: "wf m \<Longrightarrow> finite (dom (get m))"
    and len_card: "wf m \<Longrightarrow> len m = card (dom (get m))"
begin

lemma len_put: "wf m \<Longrightarrow> len (put m k v) = (if get m k = None then Suc (len m) else len m)"
proof -
  assume wf: "wf m"
  have "dom (get (put m k v)) = insert k (dom (get m))"
    using wf by (auto simp: get_put split: if_splits)
  then show ?thesis
    using wf by (simp add: len_card wf_put card_insert_if finite_get domIff)
qed

lemma len_del: "wf m \<Longrightarrow> len (del m k) = (if get m k = None then len m else len m - 1)"
proof -
  assume wf: "wf m"
  have "dom (get (del m k)) = dom (get m) - {k}"
    using wf by (auto simp: get_del split: if_splits)
  then show ?thesis
    using wf by (simp add: len_card wf_del card_Diff_singleton_if domIff)
qed

lemma len_del_le: "wf m \<Longrightarrow> len (del m k) \<le> len m"
  by (simp add: len_del)

lemma len_pos: "wf m \<Longrightarrow> get m k = Some v \<Longrightarrow> 0 < len m"
  by (auto simp: len_card card_gt_0_iff finite_get)

lemma del_put_same: "wf m \<Longrightarrow> get m k = None \<Longrightarrow> get (del (put m k v) k) j = get m j"
  by (auto simp: get_put get_del wf_put)

end

type_synonym ('k, 'v) gomap = "('k \<times> 'v) list"

definition gm_get :: "('k, 'v) gomap \<Rightarrow> 'k \<Rightarrow> 'v option" where
  "gm_get m k = map_of m k"

definition gm_put :: "('k, 'v) gomap \<Rightarrow> 'k \<Rightarrow> 'v \<Rightarrow> ('k, 'v) gomap" where
  "gm_put m k v = AList.update k v m"

definition gm_del :: "('k, 'v) gomap \<Rightarrow> 'k \<Rightarrow> ('k, 'v) gomap" where
  "gm_del m k = AList.delete k m"

definition gm_wf :: "('k, 'v) gomap \<Rightarrow> bool" where
  "gm_wf m = distinct (map fst m)"

abbreviation gm_has :: "('k, 'v) gomap \<Rightarrow> 'k \<Rightarrow> bool" where
  "gm_has m k \<equiv> gm_get m k \<noteq> None"

lemma gm_dom: "dom (gm_get m) = fst ` set m"
  by (simp add: gm_get_def [abs_def] dom_map_of_conv_image_fst)

interpretation gm: go_dict gm_get gm_put gm_del length gm_wf
proof unfold_locales
  fix m :: "('k, 'v) gomap" and k j v
  show "gm_get (gm_put m k v) j = (if j = k then Some v else gm_get m j)"
    by (simp add: gm_get_def gm_put_def update_conv)
  show "gm_get (gm_del m k) j = (if j = k then None else gm_get m j)"
    by (simp add: gm_get_def gm_del_def delete_conv)
  show "gm_wf (gm_put m k v)" if "gm_wf m"
    using that by (simp add: gm_wf_def gm_put_def distinct_update)
  show "gm_wf (gm_del m k)" if "gm_wf m"
    using that by (simp add: gm_wf_def gm_del_def distinct_delete)
  show "finite (dom (gm_get m))"
    by (simp add: gm_dom)
  show "length m = card (dom (gm_get m))" if "gm_wf m"
    using that by (metis distinct_card gm_dom gm_wf_def image_set length_map)
qed

text \<open>On association lists the lookup laws hold of every list, distinct keys or not.\<close>

lemma gm_get_put [simp, dict_simps]: "gm_get (gm_put m k v) j = (if j = k then Some v else gm_get m j)"
  by (simp add: gm_get_def gm_put_def update_conv)

lemma gm_get_del [simp, dict_simps]: "gm_get (gm_del m k) j = (if j = k then None else gm_get m j)"
  by (simp add: gm_get_def gm_del_def delete_conv)

lemma gm_get_Nil [simp, dict_simps]: "gm_get [] k = None"
  by (simp add: gm_get_def)

lemma gm_get_Cons: "gm_get ((k, v) # m) j = (if j = k then Some v else gm_get m j)"
  by (simp add: gm_get_def)

lemma gm_wf_Nil [simp]: "gm_wf []"
  by (simp add: gm_wf_def)

lemmas gm_wf_intros [simp, intro] = gm.wf_put gm.wf_del

lemma gm_get_in_set: "gm_get m k = Some v \<Longrightarrow> (k, v) \<in> set m"
  by (simp add: gm_get_def map_of_SomeD)

lemma gm_in_set_get: "gm_wf m \<Longrightarrow> (k, v) \<in> set m \<Longrightarrow> gm_get m k = Some v"
  by (simp add: gm_get_def gm_wf_def)

lemma gm_in_set_iff: "gm_wf m \<Longrightarrow> (k, v) \<in> set m \<longleftrightarrow> gm_get m k = Some v"
  by (auto intro: gm_in_set_get gm_get_in_set)

lemma gm_get_eq_imp_len_eq:
  "gm_wf m \<Longrightarrow> gm_wf m' \<Longrightarrow> dom (gm_get m) = dom (gm_get m') \<Longrightarrow>
   length m = length m'"
  by (simp add: gm.len_card)

lemma gm_keys_fst [simp]: "k \<in> fst ` set m \<longleftrightarrow> gm_get m k \<noteq> None"
  using gm_dom [of m] by (auto simp: domIff)


section \<open>Byte strings\<close>

abbreviation byte :: "char \<Rightarrow> nat" where
  "byte c \<equiv> of_char c"

definition lower_byte :: "char \<Rightarrow> char" where
  "lower_byte c = (if 65 \<le> byte c \<and> byte c \<le> 90 then char_of (byte c + 32 :: nat) else c)"

text \<open>
  \<open>strings.ToLower\<close>.  ASCII letters are lowered.  Of the code points above ASCII exactly two have an
  ASCII lower case: U+0130 (bytes C4 B0) becomes \<open>i\<close> and U+212A (bytes E2 84 AA) becomes \<open>k\<close>; both
  encodings start with a lead byte, so they are recognised the same way in any byte sequence.
  Every other byte above 127 belongs to a rune whose lower case is again outside ASCII (or to an
  invalid sequence, which becomes U+FFFD); the model leaves those bytes as they are.  Each caller
  only asks afterwards whether the result consists of given ASCII characters, which this decides
  as the Go function does.
\<close>

fun to_lower :: "string \<Rightarrow> string" where
  "to_lower [] = []"
| "to_lower (c # s) =
     (if byte c = 196 \<and> map byte (take 1 s) = [176] then CHR ''i'' # to_lower (drop 1 s)
      else if byte c = 226 \<and> map byte (take 2 s) = [132, 170] then CHR ''k'' # to_lower (drop 2 s)
      else lower_byte c # to_lower s)"

text \<open>
  The encodings of the code points \<open>unicode.IsSpace\<close> accepts: the ASCII blanks, U+0085, U+00A0,
  U+1680, U+2000 to U+200A, U+2028, U+2029, U+202F, U+205F and U+3000.
\<close>

definition space_codes :: "nat list list" where
  "space_codes =
     [[9], [10], [11], [12], [13], [32], [194, 133], [194, 160], [225, 154, 128],
      [226, 128, 128], [226, 128, 129], [226, 128, 130], [226, 128, 131], [226, 128, 132],
      [226, 128, 133], [226, 128, 134], [226, 128, 135], [226, 128, 136], [226, 128, 137],
      [226, 128, 138], [226, 128, 168], [226, 128, 169], [226, 128, 175], [226, 129, 159],
      [227, 128, 128]]"

definition space_width :: "nat list list \<Rightarrow> string \<Rightarrow> nat" where
  "space_width codes s =
     (case find (\<lambda>w. map byte (take (length w) s) = w) codes of None \<Rightarrow> 0 | Some w \<Rightarrow> length w)"

function trim_front :: "nat list list \<Rightarrow> string \<Rightarrow> string" where
  "trim_front codes s =
     (let n = space_width codes s
      in if n = 0 \<or> s = [] then s else trim_front codes (drop n s))"
  by pat_completeness auto
termination
  by (relation "measure (\<lambda>(codes, s). length s)") auto

declare trim_front.simps [simp del]

definition trim_space :: "string \<Rightarrow> string" where
  "trim_space s =
     rev (trim_front (map rev space_codes) (rev (trim_front space_codes s)))"

definition has_prefix :: "string \<Rightarrow> string \<Rightarrow> bool" where
  "has_prefix s p = (take (length p) s = p)"

definition has_suffix :: "string \<Rightarrow> string \<Rightarrow> bool" where
  "has_suffix s p = (length p \<le> length s \<and> drop (length s - length p) s = p)"

definition trim_prefix :: "string \<Rightarrow> string \<Rightarrow> string" where
  "trim_prefix s p = (if has_prefix s p then drop (length p) s else s)"

definition trim_suffix :: "string \<Rightarrow> string \<Rightarrow> string" where
  "trim_suffix s p = (if has_suffix s p then take (length s - length p) s else s)"

text \<open>\<open>strings.Split\<close> with a one-byte separator.\<close>

fun split_on :: "char \<Rightarrow> string \<Rightarrow> string list" where
  "split_on d [] = [[]]"
| "split_on d (c # s) =
     (if c = d then [] # split_on d s
      else (case split_on d s of [] \<Rightarrow> [[c]] | w # ws \<Rightarrow> (c # w) # ws))"

definition index_of :: "char \<Rightarrow> string \<Rightarrow> nat option" where
  "index_of c s = (let n = length (takeWhile (\<lambda>x. x \<noteq> c) s) in if n < length s then Some n else None)"

definition last_index_of :: "char \<Rightarrow> string \<Rightarrow> nat option" where
  "last_index_of c s =
     (case index_of c (rev s) of None \<Rightarrow> None | Some n \<Rightarrow> Some (length s - 1 - n))"

definition is_digit :: "char \<Rightarrow> bool" where
  "is_digit c = (48 \<le> byte c \<and> byte c \<le> 57)"

definition is_lower :: "char \<Rightarrow> bool" where
  "is_lower c = (97 \<le> byte c \<and> byte c \<le> 122)"

definition is_upper :: "char \<Rightarrow> bool" where
  "is_upper c = (65 \<le> byte c \<and> byte c \<le> 90)"

text \<open>A non-empty run of decimal digits, as \<open>strconv.ParseUint(s, 10, _)\<close> reads it.\<close>

definition digits_value :: "string \<Rightarrow> nat" where
  "digits_value s = foldl (\<lambda>a c. 10 * a + (byte c - 48)) 0 s"

definition parse_uint :: "nat \<Rightarrow> string \<Rightarrow> nat option" where
  "parse_uint limit s =
     (if s \<noteq> [] \<and> list_all is_digit s \<and> digits_value s < limit then Some (digits_value s) else None)"

text \<open>Decimal rendering of a natural number, as \<open>strconv.Itoa\<close>.\<close>

fun dec_digits :: "nat \<Rightarrow> string" where
  "dec_digits n =
     (if n < 10 then [char_of (48 + n)] else dec_digits (n div 10) @ [char_of (48 + n mod 10)])"

declare dec_digits.simps [simp del]

lemmas [string_defs] = has_prefix_def has_suffix_def trim_prefix_def trim_suffix_def index_of_def
  last_index_of_def is_digit_def is_lower_def is_upper_def

lemma has_suffix_iff_suffix: "has_suffix s p \<longleftrightarrow> suffix p s"
proof
  assume "has_suffix s p"
  then show "suffix p s" by (metis has_suffix_def suffix_drop)
next
  assume "suffix p s"
  then show "has_suffix s p" by (auto simp: has_suffix_def suffix_def)
qed

lemma has_prefix_iff_prefix: "has_prefix s p \<longleftrightarrow> prefix p s"
  by (metis has_prefix_def append_eq_conv_conj prefix_def)

lemma split_on_ne [simp]: "split_on d s \<noteq> []"
  by (cases s) (auto split: list.splits)

lemma split_on_chars: "set s \<subseteq> insert d (\<Union> (set ` set (split_on d s)))"
proof (induction s)
  case Nil
  then show ?case by simp
next
  case (Cons c s)
  then show ?case by (cases "split_on d s") auto
qed

lemma split_on_last_empty: "split_on d (s @ [d]) = split_on d s @ [[]]"
proof (induction s)
  case Nil
  then show ?case by simp
next
  case (Cons c s)
  then show ?case by (auto split: list.splits)
qed

lemma split_on_append: "split_on d (xs @ d # ys) = split_on d xs @ split_on d ys"
proof (induction xs)
  case Nil
  then show ?case by simp
next
  case (Cons c xs)
  then show ?case by (cases "split_on d xs") auto
qed

lemma split_on_plain: "d \<notin> set s \<Longrightarrow> split_on d s = [s]"
  by (induction s) auto

lemma byte_char_of: "n < 256 \<Longrightarrow> byte (char_of n) = (n :: nat)"
  by simp

lemma digits_value_snoc: "digits_value (s @ [c]) = 10 * digits_value s + (byte c - 48)"
  by (simp add: digits_value_def)

lemma dec_digits_ne [simp]: "dec_digits n \<noteq> []"
  by (subst dec_digits.simps) simp

lemma is_digit_char_of: "d < (10 :: nat) \<Longrightarrow> is_digit (char_of (48 + d))"
  by (simp add: is_digit_def byte_char_of)

lemma dec_digits_digit: "list_all is_digit (dec_digits n)"
proof (induction n rule: dec_digits.induct)
  case (1 n)
  then show ?case
    by (subst dec_digits.simps) (auto simp: is_digit_char_of)
qed

lemma digits_value_dec_digits: "digits_value (dec_digits n) = n"
proof (induction n rule: dec_digits.induct)
  case (1 n)
  show ?case
  proof (cases "n < 10")
    case True
    then show ?thesis by (subst dec_digits.simps) (simp add: digits_value_def byte_char_of)
  next
    case False
    with 1 have "digits_value (dec_digits (n div 10)) = n div 10" by simp
    with False show ?thesis
      by (subst dec_digits.simps) (simp add: digits_value_snoc byte_char_of)
  qed
qed

lemma parse_uint_dec_digits: "n < limit \<Longrightarrow> parse_uint limit (dec_digits n) = Some n"
  by (simp add: parse_uint_def dec_digits_digit digits_value_dec_digits)

lemma to_lower_byte_lower: "lower_byte (lower_byte c) = lower_byte c"
  by (simp add: lower_byte_def byte_char_of)


section \<open>Paths\<close>

text \<open>
  \<open>filepath.IsAbs\<close> and \<open>filepath.Clean\<close> on Unix.  \<open>Clean\<close> is only consulted for paths that are
  absolute, and there it drops empty and \<open>.\<close> elements and lets \<open>..\<close> remove the element before it
  (nothing at the root).
\<close>

definition path_is_abs :: "string \<Rightarrow> bool" where
  "path_is_abs p = has_prefix p ''/''"

fun clean_elements :: "string list \<Rightarrow> string list \<Rightarrow> string list" where
  "clean_elements acc [] = rev acc"
| "clean_elements acc (e # es) =
     (if e = [] \<or> e = ''.'' then clean_elements acc es
      else if e = ''..'' then clean_elements (tl acc) es
      else clean_elements (e # acc) es)"

definition path_clean_abs :: "string \<Rightarrow> string" where
  "path_clean_abs p =
     (case clean_elements [] (split_on (CHR ''/'') p) of
        [] \<Rightarrow> ''/''
      | es \<Rightarrow> concat (map (\<lambda>e. CHR ''/'' # e) es))"

definition clean_absolute_path :: "string \<Rightarrow> bool" where
  "clean_absolute_path p = (path_is_abs p \<and> path_clean_abs p = p)"

end
