(* ===== verification/Netip.thy ===== *)
theory Netip
  imports Prelude "HOL-Library.Word" "HOL-Library.Code_Target_Nat"
begin

text \<open>
  The part of Go's \<open>net/netip\<close> the program uses: addresses of both families at their machine width,
  prefixes, address-and-port pairs, their textual forms and their order.  \<open>NoAddr\<close> and \<open>NoPrefix\<close> are
  the zero values \<open>netip.Addr{}\<close> and \<open>netip.Prefix{}\<close>; an IPv6 address carries its zone.
\<close>

unbundle bit_operations_syntax

datatype addr = NoAddr | V4 "32 word" | V6 "128 word" string

datatype ipprefix = NoPrefix | Pfx (pfx_addr: addr) (pfx_bits: nat)
  where "pfx_addr NoPrefix = NoAddr" | "pfx_bits NoPrefix = 0"

record addrport =
  ap_addr :: addr
  ap_port :: nat


section \<open>Classification\<close>

fun is_valid :: "addr \<Rightarrow> bool" where
  "is_valid NoAddr = False" | "is_valid _ = True"

fun is4 :: "addr \<Rightarrow> bool" where
  "is4 (V4 _) = True" | "is4 _ = False"

fun is6 :: "addr \<Rightarrow> bool" where
  "is6 (V6 _ _) = True" | "is6 _ = False"

fun is4in6 :: "addr \<Rightarrow> bool" where
  "is4in6 (V6 w _) = (drop_bit 32 w = 0xffff)" | "is4in6 _ = False"

fun bit_len :: "addr \<Rightarrow> nat" where
  "bit_len NoAddr = 0" | "bit_len (V4 _) = 32" | "bit_len (V6 _ _) = 128"

fun addr_val :: "addr \<Rightarrow> nat" where
  "addr_val NoAddr = 0" | "addr_val (V4 w) = unat w" | "addr_val (V6 w _) = unat w"

fun addr_zone :: "addr \<Rightarrow> string" where
  "addr_zone (V6 _ z) = z" | "addr_zone _ = []"

fun unmap :: "addr \<Rightarrow> addr" where
  "unmap (V6 w z) = (if is4in6 (V6 w z) then V4 (ucast w) else V6 w z)"
| "unmap a = a"

text \<open>\<open>IsUnspecified\<close> compares with \<open>0.0.0.0\<close> and with \<open>::\<close> without a zone.\<close>

fun is_unspecified :: "addr \<Rightarrow> bool" where
  "is_unspecified (V4 w) = (w = 0)"
| "is_unspecified (V6 w z) = (w = 0 \<and> z = [])"
| "is_unspecified NoAddr = False"

text \<open>Since Go 1.22 \<open>IsLoopback\<close> looks through the IPv4-mapped form.\<close>

fun is_loopback :: "addr \<Rightarrow> bool" where
  "is_loopback (V4 w) = (drop_bit 24 w = 127)"
| "is_loopback (V6 w z) =
     (if drop_bit 32 w = 0xffff then drop_bit 24 (ucast w :: 32 word) = 127 else w = 1)"
| "is_loopback NoAddr = False"

fun is_multicast :: "addr \<Rightarrow> bool" where
  "is_multicast (V4 w) = (drop_bit 28 w = 0xe)"
| "is_multicast (V6 w z) =
     (if drop_bit 32 w = 0xffff then drop_bit 28 (ucast w :: 32 word) = 0xe
      else drop_bit 120 w = 0xff)"
| "is_multicast NoAddr = False"

fun is_private :: "addr \<Rightarrow> bool" where
  "is_private (V4 w) =
     (drop_bit 24 w = 10 \<or> drop_bit 20 w = 0xac1 \<or> drop_bit 16 w = 0xc0a8)"
| "is_private (V6 w z) =
     (if drop_bit 32 w = 0xffff
      then (let v = ucast w :: 32 word
            in drop_bit 24 v = 10 \<or> drop_bit 20 v = 0xac1 \<or> drop_bit 16 v = 0xc0a8)
      else drop_bit 121 w = 0x7e)"
| "is_private NoAddr = False"

text \<open>\<open>Next\<close> is the following address of the family, or the zero address after the last one.\<close>

fun addr_next :: "addr \<Rightarrow> addr" where
  "addr_next NoAddr = NoAddr"
| "addr_next (V4 w) = (if w + 1 = 0 then NoAddr else V4 (w + 1))"
| "addr_next (V6 w z) = (if w + 1 = 0 then NoAddr else V6 (w + 1) z)"


section \<open>Order\<close>

text \<open>\<open>Compare\<close> orders by bit length, then by value, then by zone.\<close>

definition addr_key :: "addr \<Rightarrow> nat \<times> nat \<times> string" where
  "addr_key a = (bit_len a, addr_val a, addr_zone a)"

lemma addr_key_inj: "addr_key a = addr_key b \<Longrightarrow> a = b"
  by (cases a; cases b) (auto simp: addr_key_def dest: word_unat_eq_iff [THEN iffD2])

instantiation addr :: linorder
begin

definition less_eq_addr :: "addr \<Rightarrow> addr \<Rightarrow> bool" where
  "less_eq_addr a b = (addr_key a \<le> addr_key b)"

definition less_addr :: "addr \<Rightarrow> addr \<Rightarrow> bool" where
  "less_addr a b = (addr_key a < addr_key b)"

instance
  by standard (auto simp: less_eq_addr_def less_addr_def addr_key_inj)

end


section \<open>Prefixes\<close>

fun pfx_valid :: "ipprefix \<Rightarrow> bool" where
  "pfx_valid NoPrefix = False" | "pfx_valid (Pfx _ _) = True"

fun addr_mask :: "nat \<Rightarrow> addr \<Rightarrow> addr" where
  "addr_mask b NoAddr = NoAddr"
| "addr_mask b (V4 w) = V4 (push_bit (32 - b) (drop_bit (32 - b) w))"
| "addr_mask b (V6 w z) = V6 (push_bit (128 - b) (drop_bit (128 - b) w)) []"

fun pfx_masked :: "ipprefix \<Rightarrow> ipprefix" where
  "pfx_masked NoPrefix = NoPrefix"
| "pfx_masked (Pfx a b) = Pfx (addr_mask b a) b"

fun same_net :: "nat \<Rightarrow> addr \<Rightarrow> addr \<Rightarrow> bool" where
  "same_net b (V4 v) (V4 w) = (drop_bit (32 - b) (v XOR w) = 0)"
| "same_net b (V6 v y) (V6 w z) = (drop_bit (128 - b) (v XOR w) = 0)"
| "same_net b _ _ = False"

definition pfx_contains :: "ipprefix \<Rightarrow> addr \<Rightarrow> bool" where
  "pfx_contains p a = (pfx_valid p \<and> addr_zone a = [] \<and> same_net (pfx_bits p) (pfx_addr p) a)"

text \<open>A prefix as \<open>ParsePrefix\<close> builds it: a zone-free address and a length within its family.\<close>

definition pfx_wf :: "ipprefix \<Rightarrow> bool" where
  "pfx_wf p = (p \<noteq> NoPrefix \<and> is_valid (pfx_addr p) \<and> addr_zone (pfx_addr p) = [] \<and>
               pfx_bits p \<le> bit_len (pfx_addr p))"

definition host_bits :: "ipprefix \<Rightarrow> nat" where
  "host_bits p = bit_len (pfx_addr p) - pfx_bits p"


section \<open>Text\<close>

text \<open>
  \<open>parseIPv4Fields\<close> on a whole string: four decimal fields separated by dots, each of one to three
  digits without a leading zero and at most 255.
\<close>

definition parse_field4 :: "string \<Rightarrow> nat option" where
  "parse_field4 f =
     (if 1 < length f \<and> hd f = CHR ''0'' then None else parse_uint 256 f)"

definition parse_fields4 :: "string \<Rightarrow> (nat \<times> nat \<times> nat \<times> nat) option" where
  "parse_fields4 s =
     (case map parse_field4 (split_on (CHR ''.'') s) of
        [Some a, Some b, Some c, Some d] \<Rightarrow> Some (a, b, c, d)
      | _ \<Rightarrow> None)"

definition word_of_fields4 :: "nat \<times> nat \<times> nat \<times> nat \<Rightarrow> 32 word" where
  "word_of_fields4 = (\<lambda>(a, b, c, d). word_of_nat (((a * 256 + b) * 256 + c) * 256 + d))"

definition parse_ipv4 :: "string \<Rightarrow> addr option" where
  "parse_ipv4 s = map_option (\<lambda>f. V4 (word_of_fields4 f)) (parse_fields4 s)"

definition hex_digit :: "char \<Rightarrow> nat option" where
  "hex_digit c =
     (if is_digit c then Some (byte c - 48)
      else if 97 \<le> byte c \<and> byte c \<le> 102 then Some (byte c - 87)
      else if 65 \<le> byte c \<and> byte c \<le> 70 then Some (byte c - 55)
      else None)"

definition hex_value :: "string \<Rightarrow> nat" where
  "hex_value s = foldl (\<lambda>a c. 16 * a + (case hex_digit c of None \<Rightarrow> 0 | Some d \<Rightarrow> d)) 0 s"

lemma length_drop_cons_le: "drop n s = c # tail \<Longrightarrow> length tail < length s"
  by (metis diff_le_self length_Cons length_drop lessI order_less_le_trans)

text \<open>
  The loop of \<open>parseIPv6\<close>.  \<open>gs\<close> holds the 16-bit groups read so far (the code's \<open>ip[0:i]\<close>, two bytes
  a group), \<open>ell\<close> the group position of \<open>::\<close>, \<open>s\<close> the text left.  The result is the groups and the
  position of the ellipsis once the text is used up.
\<close>

function parse6_loop ::
  "nat list \<Rightarrow> nat option \<Rightarrow> string \<Rightarrow> (nat list \<times> nat option) option" where
  "parse6_loop gs ell s =
     (if 8 \<le> length gs then (if s = [] then Some (gs, ell) else None)
      else
        (let ds = takeWhile (\<lambda>c. hex_digit c \<noteq> None) s; rest = drop (length ds) s
         in if 4 < length ds \<or> ds = [] then None
            else case rest of
                [] \<Rightarrow> Some (gs @ [hex_value ds], ell)
              | c # tail \<Rightarrow>
                  if c = CHR ''.'' then
                    (if (ell = None \<and> length gs \<noteq> 6) \<or> 8 < length gs + 2 then None
                     else case parse_fields4 s of
                         None \<Rightarrow> None
                       | Some (p, q, u, v) \<Rightarrow> Some (gs @ [p * 256 + q, u * 256 + v], ell))
                  else if c \<noteq> CHR '':'' \<or> tail = [] then None
                  else if hd tail = CHR '':'' then
                    (if ell \<noteq> None then None
                     else if tl tail = [] then Some (gs @ [hex_value ds], Some (Suc (length gs)))
                     else parse6_loop (gs @ [hex_value ds]) (Some (Suc (length gs))) (tl tail))
                  else parse6_loop (gs @ [hex_value ds]) ell tail))"
  by pat_completeness auto
termination
  by (relation "measure (\<lambda>(gs, ell, s). length s)")
     (auto dest!: length_drop_cons_le [OF sym])

declare parse6_loop.simps [simp del]

definition expand_groups :: "nat list \<Rightarrow> nat option \<Rightarrow> nat list option" where
  "expand_groups gs ell =
     (if length gs < 8 then
        (case ell of None \<Rightarrow> None
         | Some e \<Rightarrow> Some (take e gs @ replicate (8 - length gs) 0 @ drop e gs))
      else if ell \<noteq> None then None else Some gs)"

definition word_of_groups :: "nat list \<Rightarrow> 128 word" where
  "word_of_groups gs = word_of_nat (foldl (\<lambda>a g. a * 65536 + g) 0 gs)"

definition parse_ipv6 :: "string \<Rightarrow> addr option" where
  "parse_ipv6 s =
     (let body = takeWhile (\<lambda>c. c \<noteq> CHR ''%'') s;
          zone = drop (Suc (length body)) s
      in if length body < length s \<and> zone = [] then None
         else if body = ''::'' then Some (V6 0 zone)
         else
           (let r = (if has_prefix body ''::'' then parse6_loop [] (Some 0) (drop 2 body)
                     else parse6_loop [] None body)
            in case r of None \<Rightarrow> None
               | Some (gs, ell) \<Rightarrow>
                   map_option (\<lambda>g. V6 (word_of_groups g) zone) (expand_groups gs ell)))"

definition parse_addr :: "string \<Rightarrow> addr option" where
  "parse_addr s =
     (case find (\<lambda>c. c = CHR ''.'' \<or> c = CHR '':'' \<or> c = CHR ''%'') s of
        None \<Rightarrow> None
      | Some c \<Rightarrow>
          if c = CHR ''.'' then parse_ipv4 s
          else if c = CHR '':'' then parse_ipv6 s
          else None)"

definition parse_prefix :: "string \<Rightarrow> ipprefix option" where
  "parse_prefix s =
     (case last_index_of (CHR ''/'') s of
        None \<Rightarrow> None
      | Some i \<Rightarrow>
          (case parse_addr (take i s) of
             None \<Rightarrow> None
           | Some a \<Rightarrow>
               if addr_zone a \<noteq> [] then None
               else
                 (let bs = drop (Suc i) s
                  in if 1 < length bs \<and> \<not> (49 \<le> byte (hd bs) \<and> byte (hd bs) \<le> 57) then None
                     else map_option (Pfx a) (parse_uint (Suc (bit_len a)) bs))))"

definition parse_addrport :: "string \<Rightarrow> addrport option" where
  "parse_addrport s =
     (case last_index_of (CHR '':'') s of
        None \<Rightarrow> None
      | Some i \<Rightarrow>
          (let ip = take i s; port = drop (Suc i) s;
               bracket = (ip \<noteq> [] \<and> hd ip = CHR ''['')
           in if ip = [] \<or> port = [] then None
              else if bracket \<and> (length ip < 2 \<or> last ip \<noteq> CHR '']'') then None
              else
                (case (parse_uint 65536 port,
                       parse_addr (if bracket then butlast (tl ip) else ip)) of
                   (Some n, Some a) \<Rightarrow>
                     if bracket \<longleftrightarrow> is6 a then Some \<lparr>ap_addr = a, ap_port = n\<rparr> else None
                 | _ \<Rightarrow> None)))"

definition string4 :: "32 word \<Rightarrow> string" where
  "string4 w =
     (let n = unat w
      in dec_digits (n div 16777216) @ ''.'' @ dec_digits (n div 65536 mod 256) @ ''.'' @
         dec_digits (n div 256 mod 256) @ ''.'' @ dec_digits (n mod 256))"

fun hex_digits :: "nat \<Rightarrow> string" where
  "hex_digits n =
     (let d = (\<lambda>k. char_of ((if k < 10 then 48 else 87) + k))
      in if n < 16 then [d n] else hex_digits (n div 16) @ [d (n mod 16)])"

declare hex_digits.simps [simp del]

definition groups_of :: "128 word \<Rightarrow> nat list" where
  "groups_of w = map (\<lambda>i. unat w div 65536 ^ (7 - i) mod 65536) [0..<8]"

text \<open>The first longest run of at least two zero groups, as a start and an end position.\<close>

definition zero_run :: "nat list \<Rightarrow> nat \<times> nat" where
  "zero_run gs =
     foldl (\<lambda>(zs, ze) i.
       let j = i + length (takeWhile (\<lambda>g. g = 0) (drop i gs))
       in if 2 \<le> j - i \<and> ze - zs < j - i then (i, j) else (zs, ze)) (255, 255) [0..<8]"

definition join_groups :: "nat list \<Rightarrow> string" where
  "join_groups gs = concat (map (\<lambda>(i, g). (if i = 0 then [] else '':'') @ hex_digits g)
     (zip [0..<length gs] gs))"

definition string6 :: "128 word \<Rightarrow> string" where
  "string6 w =
     (let gs = groups_of w; (zs, ze) = zero_run gs
      in if zs = 255 then join_groups gs
         else join_groups (take zs gs) @ ''::'' @ join_groups (drop ze gs))"

fun addr_string :: "addr \<Rightarrow> string" where
  "addr_string NoAddr = ''invalid IP''"
| "addr_string (V4 w) = string4 w"
| "addr_string (V6 w z) =
     (if is4in6 (V6 w z) then ''::ffff:'' @ string4 (ucast w) else string6 w) @
     (if z = [] then [] else CHR ''%'' # z)"

definition pfx_string :: "ipprefix \<Rightarrow> string" where
  "pfx_string p =
     (case p of NoPrefix \<Rightarrow> ''invalid Prefix''
      | Pfx a b \<Rightarrow> addr_string a @ ''/'' @ dec_digits b)"

section \<open>Values\<close>

text \<open>Facts that move masks, host bits and successors to arithmetic on the values.\<close>

lemma unat_clear_low:
  fixes w :: "'a::len word"
  shows "unat (push_bit n (drop_bit n w)) = unat w div 2 ^ n * 2 ^ n"
proof -
  have "unat w div 2 ^ n * 2 ^ n \<le> unat w"
    using div_times_less_eq_dividend by blast
  also have "\<dots> < 2 ^ LENGTH('a)"
    by (rule unsigned_less)
  finally have "unat w div 2 ^ n * 2 ^ n mod 2 ^ LENGTH('a) = unat w div 2 ^ n * 2 ^ n"
    by (rule mod_less)
  moreover have "unat (push_bit n (drop_bit n w)) =
      take_bit LENGTH('a) (push_bit n (drop_bit n (unat w)))"
    by (simp only: unsigned_push_bit_eq unat_drop_bit_eq)
  ultimately show ?thesis
    by (simp add: take_bit_eq_mod push_bit_eq_mult drop_bit_eq_div)
qed

lemma clear_low_div: "push_bit n (drop_bit n w) = word_of_nat (unat w div 2 ^ n * 2 ^ n)"
  for w :: "'a::len word"
  by (simp only: unat_clear_low [symmetric]) simp

text \<open>For evaluation on concrete addresses.\<close>

lemma addr_mask_code [code]:
  "addr_mask b NoAddr = NoAddr"
  "addr_mask b (V4 w) = V4 (word_of_nat (unat w div 2 ^ (32 - b) * 2 ^ (32 - b)))"
  "addr_mask b (V6 x z) = V6 (word_of_nat (unat x div 2 ^ (128 - b) * 2 ^ (128 - b))) []"
  by (simp_all add: clear_low_div)

lemma unat_low_mask: "unat (mask n :: 'a::len word) = mask (min LENGTH('a) n)"
  by (rule bit_eqI) (auto simp: bit_unsigned_iff bit_mask_iff)

lemma clear_low_or_mask:
  fixes w :: "'a::len word"
  assumes "n \<le> LENGTH('a)"
  shows "unat (push_bit n (drop_bit n w) OR mask n) = unat w div 2 ^ n * 2 ^ n + (2 ^ n - 1)"
proof -
  let ?v = "push_bit n (drop_bit n w)"
  have "?v AND mask n = 0"
    by (rule bit_word_eqI) (auto simp: bit_simps)
  then have "?v OR mask n = ?v + mask n"
    by (simp add: disjunctive_add_eq_or)
  moreover have "unat (mask n :: 'a word) = 2 ^ n - 1"
    using assms by (simp only: unat_low_mask) (simp add: min_def mask_eq_exp_minus_1)
  moreover have "unat w div 2 ^ n * 2 ^ n + (2 ^ n - 1) < 2 ^ LENGTH('a)"
  proof -
    have "unat w div 2 ^ n < 2 ^ (LENGTH('a) - n)"
      using assms by (simp add: less_mult_imp_div_less flip: power_add)
    then have "(unat w div 2 ^ n + 1) * 2 ^ n \<le> 2 ^ (LENGTH('a) - n) * 2 ^ n"
      by (intro mult_right_mono) auto
    then have "unat w div 2 ^ n * 2 ^ n + 2 ^ n \<le> 2 ^ LENGTH('a)"
      using assms by (simp add: algebra_simps flip: power_add)
    moreover have "0 < (2::nat) ^ n" by simp
    ultimately show ?thesis by linarith
  qed
  ultimately show ?thesis
    by (simp add: unat_clear_low unat_plus_if')
qed

lemma drop_bit_xor_eq_0:
  fixes v w :: "'a::len word"
  shows "drop_bit n (v XOR w) = 0 \<longleftrightarrow> unat v div 2 ^ n = unat w div 2 ^ n"
proof -
  have "drop_bit n (v XOR w) = 0 \<longleftrightarrow> drop_bit n v = drop_bit n w"
    by (auto simp: bit_eq_iff bit_simps)
  also have "\<dots> \<longleftrightarrow> unat (drop_bit n v) = unat (drop_bit n w)"
    by (simp only: word_unat_eq_iff)
  finally show ?thesis
    by (simp only: unat_drop_bit_eq) (simp add: drop_bit_eq_div)
qed

lemma foldl_set_bits:
  fixes w :: "'a::len word"
  shows "bit (foldl (\<lambda>v b. set_bit (f b) v) w bs) n \<longleftrightarrow>
           bit w n \<or> (n < LENGTH('a) \<and> n \<in> f ` set bs)"
  by (induction bs arbitrary: w) (auto simp: bit_simps)

lemma foldl_set_low_bits:
  fixes w :: "'a::len word"
  assumes "b \<le> LENGTH('a)"
  shows "foldl (\<lambda>v k. set_bit (LENGTH('a) - 1 - k) v) w [b..<LENGTH('a)] = w OR mask (LENGTH('a) - b)"
proof (rule bit_word_eqI)
  fix n assume n: "n < LENGTH('a)"
  have "n \<in> (\<lambda>k. LENGTH('a) - 1 - k) ` set [b..<LENGTH('a)] \<longleftrightarrow> n < LENGTH('a) - b"
  proof
    assume "n < LENGTH('a) - b"
    then show "n \<in> (\<lambda>k. LENGTH('a) - 1 - k) ` set [b..<LENGTH('a)]"
      by (intro image_eqI [of _ _ "LENGTH('a) - 1 - n"]) auto
  qed auto
  then show "bit (foldl (\<lambda>v k. set_bit (LENGTH('a) - 1 - k) v) w [b..<LENGTH('a)]) n \<longleftrightarrow>
             bit (w OR mask (LENGTH('a) - b)) n"
    using n by (simp add: foldl_set_bits bit_simps)
qed

lemma bit_len_mask [simp]: "bit_len (addr_mask b a) = bit_len a"
  by (cases a) auto

lemma addr_val_bound: "is_valid a \<Longrightarrow> addr_val a < 2 ^ bit_len a"
proof (cases a)
  case (V4 w)
  then show ?thesis using unsigned_less [of w, where ?'a = nat] by simp
next
  case (V6 w z)
  then show ?thesis using unsigned_less [of w, where ?'a = nat] by simp
qed simp

lemma bit_len_is_valid: "bit_len a = bit_len b \<Longrightarrow> is_valid a = is_valid b"
  by (cases a; cases b) auto

lemma addr_eqI: "bit_len a = bit_len b \<Longrightarrow> addr_val a = addr_val b \<Longrightarrow> addr_zone a = addr_zone b \<Longrightarrow> a = b"
  by (rule addr_key_inj) (simp add: addr_key_def)

lemma addr_val_mask:
  assumes "b \<le> bit_len a"
  shows "addr_val (addr_mask b a) = addr_val a div 2 ^ (bit_len a - b) * 2 ^ (bit_len a - b)"
  using assms by (cases a) (simp_all add: unat_clear_low)

lemma same_net_val:
  assumes "bit_len a = bit_len c" and "is_valid a" and "b \<le> bit_len a"
  shows "same_net b a c \<longleftrightarrow>
           addr_val a div 2 ^ (bit_len a - b) = addr_val c div 2 ^ (bit_len a - b)"
  using assms by (cases a; cases c) (simp_all add: drop_bit_xor_eq_0 del: drop_bit_xor)

lemma same_net_bit_len: "same_net b a c \<Longrightarrow> bit_len a = bit_len c"
  by (cases a; cases c) auto

lemma addr_next_Suc:
  assumes "is_valid a" and "Suc (addr_val a) < 2 ^ bit_len a"
  shows "bit_len (addr_next a) = bit_len a \<and> addr_val (addr_next a) = Suc (addr_val a) \<and>
         addr_zone (addr_next a) = addr_zone a"
proof (cases a)
  case NoAddr
  with assms show ?thesis by simp
next
  case (V4 w)
  with assms have v: "unat (w + 1) = Suc (unat w)"
    by (simp add: unat_word_ariths)
  then have "w + 1 \<noteq> 0" by (metis Zero_not_Suc unat_0)
  with v V4 show ?thesis by simp
next
  case (V6 w z)
  with assms have v: "unat (w + 1) = Suc (unat w)"
    by (simp add: unat_word_ariths)
  then have "w + 1 \<noteq> 0" by (metis Zero_not_Suc unat_0)
  with v V6 show ?thesis by simp
qed

lemma addr_next_funpow:
  assumes "is_valid a" and "addr_val a + n < 2 ^ bit_len a"
  shows "bit_len ((addr_next ^^ n) a) = bit_len a \<and> addr_val ((addr_next ^^ n) a) = addr_val a + n \<and>
         addr_zone ((addr_next ^^ n) a) = addr_zone a"
  using assms(2)
proof (induction n)
  case 0
  then show ?case by simp
next
  case (Suc n)
  then have IH: "bit_len ((addr_next ^^ n) a) = bit_len a"
      "addr_val ((addr_next ^^ n) a) = addr_val a + n" "addr_zone ((addr_next ^^ n) a) = addr_zone a"
    by auto
  with addr_next_Suc [of "(addr_next ^^ n) a"] Suc.prems bit_len_is_valid [OF IH(1)] assms(1)
  show ?case by simp
qed

lemma addr_less_val:
  assumes "bit_len a = bit_len b" and "addr_zone a = addr_zone b"
  shows "a < b \<longleftrightarrow> addr_val a < addr_val b" "a \<le> b \<longleftrightarrow> addr_val a \<le> addr_val b"
  using assms by (simp_all add: less_addr_def less_eq_addr_def addr_key_def less_prod_def less_eq_prod_def)
     auto

lemma zone_V4: "bit_len a = 32 \<Longrightarrow> addr_zone a = []"
  by (cases a) auto

end
