(* ===== verification/Domainname.thy ===== *)
theory Domainname
  imports Netip
begin

text \<open>
  \<open>internal/domainname/domain.go\<close>: the canonical form of a domain name shared by the configuration,
  Fake DNS, the address pool and the rules, and the patterns of \<open>fake_ip.exclude\<close>.
\<close>

datatype domain_error = InvalidDomain string | IPLiteral string

record pattern =
  Suffix :: bool
  Domain :: string

definition label_char :: "char \<Rightarrow> bool" where
  "label_char c = (is_lower c \<or> is_digit c \<or> c = CHR ''-'' \<or> c = CHR ''_'')"

definition valid_label :: "string \<Rightarrow> bool" where
  "valid_label l =
     (l \<noteq> [] \<and> length l \<le> 63 \<and> hd l \<noteq> CHR ''-'' \<and> last l \<noteq> CHR ''-'' \<and> list_all label_char l)"

definition normalize :: "string \<Rightarrow> domain_error + string" where
  "normalize value =
     (let domain = trim_suffix (to_lower (trim_space value)) ''.''
      in if domain = [] \<or> 253 < length domain then Inl (InvalidDomain value)
         else if parse_addr domain \<noteq> None then Inl (IPLiteral value)
         else if list_all valid_label (split_on (CHR ''.'') domain) then Inr domain
         else Inl (InvalidDomain value))"

definition parse_pattern :: "string \<Rightarrow> domain_error + pattern" where
  "parse_pattern value =
     (let v = trim_space (to_lower value);
          sfx = has_prefix v ''*.'';
          rest = (if sfx then trim_prefix v ''*.'' else v)
      in bindE (normalize rest) (\<lambda>d. Inr \<lparr>Suffix = sfx, Domain = d\<rparr>))"

definition pattern_matches :: "pattern \<Rightarrow> string \<Rightarrow> bool" where
  "pattern_matches p d =
     (if Suffix p then d = Domain p \<or> has_suffix d (CHR ''.'' # Domain p) else d = Domain p)"


section \<open>Canonical names\<close>

definition labels :: "string \<Rightarrow> string list" where
  "labels d = split_on (CHR ''.'') d"

definition canonical :: "string \<Rightarrow> bool" where
  "canonical d = (d \<noteq> [] \<and> length d \<le> 253 \<and> parse_addr d = None \<and> list_all valid_label (labels d))"

definition plain_char :: "char \<Rightarrow> bool" where
  "plain_char c = (label_char c \<or> c = CHR ''.'')"

lemma byte_eq_char: "byte c = byte d \<Longrightarrow> c = d"
  by simp

lemma plain_char_range: "plain_char c \<Longrightarrow> 33 \<le> byte c \<and> byte c \<le> 127"
  by (auto simp: plain_char_def label_char_def is_lower_def is_digit_def)

lemma plain_char_not_upper: "plain_char c \<Longrightarrow> lower_byte c = c"
  by (auto simp: plain_char_def label_char_def is_lower_def is_digit_def lower_byte_def)

lemma valid_labels_plain:
  assumes "list_all valid_label (labels d)"
  shows "list_all plain_char d"
proof -
  have "set d \<subseteq> insert (CHR ''.'') (\<Union> (set ` set (labels d)))"
    using split_on_chars [of d "CHR ''.''"] by (simp add: labels_def)
  with assms show ?thesis
    by (fastforce simp: list_all_iff valid_label_def plain_char_def)
qed

lemma space_width_plain:
  assumes "\<forall>w \<in> set codes. w \<noteq> [] \<and> (hd w < 33 \<or> 127 < hd w)"
    and "list_all plain_char s" and "s \<noteq> []"
  shows "space_width codes s = 0"
proof -
  obtain c t where s: "s = c # t" using assms(3) by (cases s) auto
  have "33 \<le> byte c \<and> byte c \<le> 127" using assms(2) s by (simp add: plain_char_range)
  then have "find (\<lambda>w. map byte (take (length w) s) = w) codes = None"
    using assms(1) s by (fastforce simp: find_None_iff neq_Nil_conv)
  then show ?thesis by (simp add: space_width_def)
qed

lemma trim_front_plain:
  assumes "\<forall>w \<in> set codes. w \<noteq> [] \<and> (hd w < 33 \<or> 127 < hd w)" and "list_all plain_char s"
  shows "trim_front codes s = s"
  using space_width_plain [OF assms] by (subst trim_front.simps) (auto simp: Let_def)

lemma trim_space_plain: "list_all plain_char s \<Longrightarrow> trim_space s = s"
  unfolding trim_space_def
  by (subst trim_front_plain, simp add: space_codes_def, simp)
     (subst trim_front_plain, simp_all add: space_codes_def list_all_iff)

lemma to_lower_plain: "list_all plain_char s \<Longrightarrow> to_lower s = s"
  by (induction s) (auto simp: plain_char_not_upper dest: plain_char_range)

lemma canonical_no_trailing_dot:
  assumes "list_all valid_label (labels d)"
  shows "\<not> has_suffix d ''.''"
proof
  assume "has_suffix d ''.''"
  then obtain s where "d = s @ [CHR ''.'']"
    by (auto simp: has_suffix_iff_suffix suffix_def)
  then have "[] \<in> set (labels d)" by (simp add: labels_def split_on_last_empty)
  with assms show False by (auto simp: list_all_iff valid_label_def)
qed

lemma normalize_canonical: "normalize s = Inr d \<Longrightarrow> canonical d"
  by (auto simp: normalize_def canonical_def labels_def Let_def split: if_splits)

lemma canonical_normalize: "canonical d \<Longrightarrow> normalize d = Inr d"
  using trim_space_plain [of d] to_lower_plain [of d] canonical_no_trailing_dot [of d]
    valid_labels_plain [of d]
  by (simp add: normalize_def canonical_def labels_def Let_def trim_suffix_def)

lemma normalize_fixpoint: "normalize s = Inr d \<Longrightarrow> normalize d = Inr d"
  by (rule canonical_normalize [OF normalize_canonical])

lemma canonical_ne: "canonical d \<Longrightarrow> d \<noteq> []"
  by (simp add: canonical_def)

text \<open>A label-wise reading of the textual suffix test.\<close>

lemma has_suffix_dot_labels:
  assumes "has_suffix d (CHR ''.'' # p)"
  shows "\<exists>ls. ls \<noteq> [] \<and> labels d = ls @ labels p"
proof -
  from assms obtain xs where "d = xs @ CHR ''.'' # p"
    by (auto simp: has_suffix_iff_suffix suffix_def)
  then show ?thesis by (simp add: labels_def split_on_append exI [of _ "split_on (CHR ''.'') xs"])
qed

fun join_labels :: "string list \<Rightarrow> string" where
  "join_labels [] = []"
| "join_labels [l] = l"
| "join_labels (l # ls) = l @ CHR ''.'' # join_labels ls"

lemma join_labels_Cons: "ls \<noteq> [] \<Longrightarrow> join_labels (l # ls) = l @ CHR ''.'' # join_labels ls"
  by (cases ls) auto

lemma join_labels_split [simp]: "join_labels (labels d) = d"
  unfolding labels_def
proof (induction d)
  case Nil
  then show ?case by simp
next
  case (Cons c d)
  show ?case
  proof (cases "split_on (CHR ''.'') d")
    case Nil
    then show ?thesis by simp
  next
    case (Cons w ws)
    with Cons.IH show ?thesis by (cases ws) auto
  qed
qed

lemma join_labels_append:
  "ls \<noteq> [] \<Longrightarrow> ms \<noteq> [] \<Longrightarrow> join_labels (ls @ ms) = join_labels ls @ CHR ''.'' # join_labels ms"
proof (induction ls)
  case Nil
  then show ?case by simp
next
  case (Cons l ls)
  then show ?case by (cases ls) (auto simp: join_labels_Cons)
qed

lemma labels_ne [simp]: "labels d \<noteq> []"
  by (simp add: labels_def)

lemma labels_inj: "labels d = labels p \<Longrightarrow> d = p"
  by (metis join_labels_split)

lemma labels_suffix_has_suffix:
  assumes "labels d = ls @ labels p" and "ls \<noteq> []"
  shows "has_suffix d (CHR ''.'' # p)"
proof -
  have "d = join_labels ls @ CHR ''.'' # p"
    using assms join_labels_append [of ls "labels p"] by (metis join_labels_split labels_ne)
  then show ?thesis by (auto simp: has_suffix_iff_suffix suffix_def)
qed

lemma suffix_test_labels:
  "d = p \<or> has_suffix d (CHR ''.'' # p) \<longleftrightarrow> suffix (labels p) (labels d)"
proof
  assume "d = p \<or> has_suffix d (CHR ''.'' # p)"
  then show "suffix (labels p) (labels d)"
    using has_suffix_dot_labels [of d p] by (auto simp: suffix_def)
next
  assume "suffix (labels p) (labels d)"
  then obtain ls where ls: "labels d = ls @ labels p" by (auto simp: suffix_def)
  then show "d = p \<or> has_suffix d (CHR ''.'' # p)"
    by (cases "ls = []") (auto intro: labels_inj labels_suffix_has_suffix)
qed

section \<open>Properties\<close>

text \<open>
  A name that \<open>Normalize\<close> accepts is canonical (lower-case LDH labels of 1 to 63 bytes, at most
  253 bytes, not an IP literal) and is a fixed point of \<open>Normalize\<close>, so the maps keyed by
  normalized names never see two spellings of one name.
\<close>

lemma normalize_idempotent:
  assumes "normalize s = Inr d"
  shows "canonical d \<and> normalize d = Inr d"
  using assms normalize_canonical canonical_normalize by blast

text \<open>
  A pattern written with \<open>*.\<close> excludes exactly the names whose trailing labels are the
  pattern's labels, the bare name included, and never a name that only ends in the same bytes; a
  pattern without it excludes exactly one name.
\<close>

lemma pattern_matches_labels:
  "pattern_matches p d \<longleftrightarrow>
     (if Suffix p then suffix (labels (Domain p)) (labels d) else d = Domain p)"
  using suffix_test_labels [of d "Domain p"] by (simp add: pattern_matches_def)

end
