(* ===== verification/Fakeip_Pool.thy ===== *)
theory Fakeip_Pool
  imports Domainname "HOL-Library.Multiset"
begin

text \<open>
  \<open>internal/fakeip/pool.go\<close>: the concurrency-safe mapping between domains and Fake IP addresses.

  The two indexes \<open>byDomain\<close> and \<open>byAddress\<close> of the code hold pointers to shared \<open>entry\<close> objects which
  \<open>Acquire\<close>'s release closures keep using after a mapping left the indexes, so entries live in a
  store (\<open>heap\<close>, a pointer is a position) and the indexes hold pointers.  Every operation of the code
  is a sequence of critical sections under \<open>pool.mutex\<close>; each section is one function here.
  \<open>GetOrAllocate\<close> and \<open>flushPersistence\<close> give the mutex up around disk I/O, so they are two sections
  with the I/O in between.  The clock \<open>pool.now()\<close> is an argument.
\<close>

section \<open>State\<close>

record entry =
  e_domain :: string
  e_address :: addr
  e_expiresAt :: gotime
  e_references :: "64 word"

record mapping_rec =
  m_Domain :: string
  m_Address :: string
  m_ExpiresAt :: gotime

record snapshot =
  s_Version :: int
  s_Prefix :: string
  s_SavedAt :: gotime
  s_JournalEpoch :: string
  s_Mappings :: "mapping_rec list"

record persistence_update =
  u_RecordedAt :: gotime
  u_Removed :: "string list"
  u_Mapping :: mapping_rec

type_synonym ptr = nat

record pool =
  p_prefix :: ipprefix
  mappingTTL :: duration
  p_start :: addr
  p_end :: addr
  p_next :: addr
  capacity :: "64 word"
  maxMappings :: int
  byDomain :: "(string, ptr) gomap"
  byAddress :: "(addr, ptr) gomap"
  pendingDeletes :: "(string, unit) gomap"
  persist_set :: bool
  reclaimed :: "64 word"
  exhaustions :: "64 word"
  heap :: "entry list"

record pool_stats =
  st_Capacity :: "64 word"
  st_Limit :: int
  st_Used :: nat
  st_Active :: nat
  st_References :: "64 word"
  st_Reclaimed :: "64 word"
  st_Exhaustions :: "64 word"

datatype pool_error =
    BadPrefix
  | BadTTL
  | BadMaxMappings
  | BadReserve
  | NoCapacity
  | MaxExceedsCapacity
  | ErrExhausted
  | ErrNotFound
  | PoolDomain domain_error
  | PersistFailed
  | RestoreVersion
  | RestorePrefix
  | RestoreEpoch
  | RestoreTooMany
  | RestoreDuplicateDomain nat
  | RestoreDuplicateAddress nat
  | MappingDomain nat domain_error
  | MappingAddress nat
  | MappingOutside nat
  | MappingExpiration nat
  | RemovedDomain nat nat domain_error
  | JournalLimit nat

definition persistenceVersion :: int where
  "persistenceVersion = 1"

definition deref :: "pool \<Rightarrow> ptr \<Rightarrow> entry" where
  "deref p r = heap p ! r"


section \<open>Construction\<close>

definition usable_capacity :: "ipprefix \<Rightarrow> int \<Rightarrow> pool_error + 64 word" where
  "usable_capacity pfx reserveFirst =
     (let hostBits = host_bits pfx; reserved = word_of_int reserveFirst + 1 :: 64 word
      in if 64 < hostBits then Inr (- 1)
         else if hostBits = 64 then Inr (- 1 - word_of_int reserveFirst)
         else
           (let total = push_bit hostBits 1
            in if total \<le> reserved then Inl NoCapacity else Inr (total - reserved)))"

fun set_host_bits :: "nat \<Rightarrow> addr \<Rightarrow> addr" where
  "set_host_bits prefixBits (V4 w) = V4 (foldl (\<lambda>v b. set_bit (31 - b) v) w [prefixBits..<32])"
| "set_host_bits prefixBits (V6 w z) =
     V6 (foldl (\<lambda>v b. set_bit (127 - b) v) w [prefixBits..<128]) []"
| "set_host_bits prefixBits NoAddr = NoAddr"

definition last_address :: "ipprefix \<Rightarrow> addr" where
  "last_address pfx = set_host_bits (pfx_bits pfx) (pfx_addr pfx)"

definition new_pool :: "ipprefix \<Rightarrow> duration \<Rightarrow> int \<Rightarrow> int \<Rightarrow> pool_error + pool" where
  "new_pool pfx0 ttl maxM reserveFirst =
     (if \<not> pfx_valid pfx0 \<or> is4in6 (pfx_addr pfx0) then Inl BadPrefix
      else if ttl \<le> 0 then Inl BadTTL
      else if maxM \<le> 0 then Inl BadMaxMappings
      else if reserveFirst < 1 then Inl BadReserve
      else
        (let pfx = pfx_masked pfx0
         in case usable_capacity pfx reserveFirst of
              Inl e \<Rightarrow> Inl NoCapacity
            | Inr cap \<Rightarrow>
                if cap < word_of_int maxM then Inl MaxExceedsCapacity
                else
                  (let start = (addr_next ^^ nat reserveFirst) (pfx_addr pfx)
                   in Inr \<lparr>p_prefix = pfx, mappingTTL = ttl, p_start = start,
                           p_end = last_address pfx, p_next = start, capacity = cap,
                           maxMappings = maxM, byDomain = [], byAddress = [],
                           pendingDeletes = [], persist_set = False, reclaimed = 0,
                           exhaustions = 0, heap = []\<rparr>)))"


section \<open>Critical sections\<close>

definition delete_untracked :: "ptr \<Rightarrow> pool \<Rightarrow> pool" where
  "delete_untracked r p =
     p\<lparr>byDomain := gm_del (byDomain p) (e_domain (deref p r)),
       byAddress := gm_del (byAddress p) (e_address (deref p r))\<rparr>"

definition delete_locked :: "ptr \<Rightarrow> pool \<Rightarrow> pool" where
  "delete_locked r p =
     delete_untracked r
       (if persist_set p
        then p\<lparr>pendingDeletes := gm_put (pendingDeletes p) (e_domain (deref p r)) ()\<rparr> else p)"

text \<open>The test \<open>!now.Before(expiresAt) && references == 0\<close>.\<close>

definition reclaimable :: "gotime \<Rightarrow> entry \<Rightarrow> bool" where
  "reclaimable now e = (\<not> now < e_expiresAt e \<and> e_references e = 0)"

text \<open>
  \<open>pruneLocked\<close> ranges over \<open>byDomain\<close> while deleting from it: an entry deleted before it is reached is
  not visited.
\<close>

fun prune_keys :: "gotime \<Rightarrow> string list \<Rightarrow> pool \<Rightarrow> pool" where
  "prune_keys now [] p = p"
| "prune_keys now (d # ds) p =
     (case gm_get (byDomain p) d of
        None \<Rightarrow> prune_keys now ds p
      | Some r \<Rightarrow>
          if reclaimable now (deref p r)
          then (let q = delete_locked r p in prune_keys now ds (q\<lparr>reclaimed := reclaimed q + 1\<rparr>))
          else prune_keys now ds p)"

definition prune_locked :: "gotime \<Rightarrow> pool \<Rightarrow> pool" where
  "prune_locked now p = prune_keys now (map fst (byDomain p)) p"

definition prune :: "gotime \<Rightarrow> pool \<Rightarrow> int \<times> pool" where
  "prune now p =
     (let q = prune_locked now p in (int (length (byDomain p)) - int (length (byDomain q)), q))"

definition advance :: "pool \<Rightarrow> addr" where
  "advance p =
     (let n = addr_next (p_next p) in if \<not> is_valid n \<or> n = p_end p then p_start p else n)"

text \<open>The search loop of \<open>GetOrAllocate\<close>: at most \<open>attempts\<close> candidates, round robin.\<close>

fun scan :: "nat \<Rightarrow> pool \<Rightarrow> addr option \<times> pool" where
  "scan 0 p = (None, p)"
| "scan (Suc attempts) p =
     (let candidate = p_next p; q = p\<lparr>p_next := advance p\<rparr>
      in if gm_has (byAddress q) candidate then scan attempts q else (Some candidate, q))"

definition scan_attempts :: "pool \<Rightarrow> 64 word" where
  "scan_attempts p =
     (let attempts = word_of_nat (length (byAddress p) + 1)
      in if capacity p < attempts then capacity p else attempts)"

definition insert_entry :: "string \<Rightarrow> addr \<Rightarrow> gotime \<Rightarrow> pool \<Rightarrow> pool" where
  "insert_entry d a expires p =
     (let r = length (heap p)
      in p\<lparr>heap := heap p @ [\<lparr>e_domain = d, e_address = a, e_expiresAt = expires, e_references = 0\<rparr>],
           byDomain := gm_put (byDomain p) d r, byAddress := gm_put (byAddress p) a r\<rparr>)"

definition sorted_removed :: "pool \<Rightarrow> string list" where
  "sorted_removed p = sort (map fst (pendingDeletes p))"

definition mapping_of :: "entry \<Rightarrow> mapping_rec" where
  "mapping_of e = \<lparr>m_Domain = e_domain e, m_Address = addr_string (e_address e),
                   m_ExpiresAt = e_expiresAt e\<rparr>"

text \<open>
  The first section of \<open>GetOrAllocate\<close> on a normalized domain.  It ends with an answer, or with a
  mapping that is in the indexes and has to be made durable before it may be returned.
\<close>

datatype alloc_outcome =
    Answer addr
  | Fail pool_error
  | NeedPersist ptr persistence_update

definition alloc_begin :: "gotime \<Rightarrow> string \<Rightarrow> pool \<Rightarrow> alloc_outcome \<times> pool" where
  "alloc_begin now d p =
     (case gm_get (byDomain p) d of
        Some r \<Rightarrow>
          (Answer (e_address (deref p r)),
           p\<lparr>heap := (heap p)[r := (deref p r)\<lparr>e_expiresAt := now + mappingTTL p\<rparr>]\<rparr>)
      | None \<Rightarrow>
          (let q = prune_locked now p
           in if maxMappings q \<le> int (length (byDomain q))
              then (Fail ErrExhausted, q\<lparr>exhaustions := exhaustions q + 1\<rparr>)
              else
                (case scan (unat (scan_attempts q)) q of
                   (None, s) \<Rightarrow> (Fail ErrExhausted, s\<lparr>exhaustions := exhaustions s + 1\<rparr>)
                 | (Some candidate, s) \<Rightarrow>
                     (let t = insert_entry d candidate (now + mappingTTL s) s; r = length (heap s)
                      in if \<not> persist_set t then (Answer candidate, t)
                         else (NeedPersist r \<lparr>u_RecordedAt = now, u_Removed = sorted_removed t,
                                              u_Mapping = mapping_of (deref t r)\<rparr>, t)))))"

text \<open>
  The section after the disk write: on failure the new mapping is withdrawn if it is still the
  domain's mapping, on success the deletions that are now durable leave \<open>pendingDeletes\<close>.
\<close>

definition alloc_fail :: "string \<Rightarrow> ptr \<Rightarrow> pool \<Rightarrow> pool" where
  "alloc_fail d r p = (if gm_get (byDomain p) d = Some r then delete_untracked r p else p)"

definition forget_deletes :: "string list \<Rightarrow> pool \<Rightarrow> pool" where
  "forget_deletes ds p = p\<lparr>pendingDeletes := foldl gm_del (pendingDeletes p) ds\<rparr>"

definition lookup :: "gotime \<Rightarrow> addr \<Rightarrow> pool \<Rightarrow> string option \<times> pool" where
  "lookup now a p =
     (case gm_get (byAddress p) a of
        None \<Rightarrow> (None, p)
      | Some r \<Rightarrow>
          if reclaimable now (deref p r) then (None, delete_locked r p)
          else (Some (e_domain (deref p r)), p))"

text \<open>\<open>Acquire\<close> returns the domain and the entry its release closure works on.\<close>

definition acquire :: "gotime \<Rightarrow> addr \<Rightarrow> pool \<Rightarrow> (pool_error + string \<times> ptr) \<times> pool" where
  "acquire now a p =
     (case gm_get (byAddress p) a of
        None \<Rightarrow> (Inl ErrNotFound, p)
      | Some r \<Rightarrow>
          if reclaimable now (deref p r) then (Inl ErrNotFound, delete_locked r p)
          else (Inr (e_domain (deref p r), r),
                p\<lparr>heap := (heap p)[r := (deref p r)\<lparr>e_references := e_references (deref p r) + 1\<rparr>]\<rparr>))"

definition release :: "ptr \<Rightarrow> pool \<Rightarrow> pool" where
  "release r p =
     (if 0 < e_references (deref p r)
      then p\<lparr>heap := (heap p)[r := (deref p r)\<lparr>e_references := e_references (deref p r) - 1\<rparr>]\<rparr>
      else p)"

definition pool_stats :: "pool \<Rightarrow> pool_stats" where
  "pool_stats p =
     (let live = filter (\<lambda>e. 0 < e_references e) (map (\<lambda>(d, r). deref p r) (byDomain p))
      in \<lparr>st_Capacity = capacity p, st_Limit = maxMappings p, st_Used = length (byDomain p),
          st_Active = length live, st_References = sum_list (map e_references live),
          st_Reclaimed = reclaimed p, st_Exhaustions = exhaustions p\<rparr>)"

definition snapshot_locked :: "gotime \<Rightarrow> pool \<Rightarrow> snapshot" where
  "snapshot_locked now p =
     \<lparr>s_Version = persistenceVersion, s_Prefix = pfx_string (p_prefix p), s_SavedAt = now,
      s_JournalEpoch = [],
      s_Mappings = sort_key m_Domain (map (\<lambda>(d, r). mapping_of (deref p r)) (byDomain p))\<rparr>"

definition set_persistence :: "pool \<Rightarrow> pool" where
  "set_persistence p = p\<lparr>persist_set := True\<rparr>"


section \<open>Restoring\<close>

definition valid_journal_epoch :: "string \<Rightarrow> bool" where
  "valid_journal_epoch v = (length v = 32 \<and> list_all (\<lambda>c. hex_digit c \<noteq> None) v)"

text \<open>\<open>validateMapping\<close>; \<open>label\<close> is the position the messages mention.\<close>

definition validate_mapping ::
  "pool \<Rightarrow> mapping_rec \<Rightarrow> gotime \<Rightarrow> nat \<Rightarrow> pool_error + string \<times> addr \<times> gotime" where
  "validate_mapping p item protectedUntil label =
     (case normalize (m_Domain item) of
        Inl e \<Rightarrow> Inl (MappingDomain label e)
      | Inr d \<Rightarrow>
          (case parse_addr (m_Address item) of
             None \<Rightarrow> Inl (MappingAddress label)
           | Some a \<Rightarrow>
               if bit_len a \<noteq> bit_len (pfx_addr (p_prefix p)) \<or> is4in6 a then Inl (MappingAddress label)
               else if a < p_start p \<or> p_end p \<le> a \<or> \<not> pfx_contains (p_prefix p) a
               then Inl (MappingOutside label)
               else if m_ExpiresAt item = 0 then Inl (MappingExpiration label)
               else Inr (d, a, max (m_ExpiresAt item) protectedUntil)))"

text \<open>
  The loops of \<open>restore\<close> and \<open>restoreJournal\<close> build new indexes; the pool only takes them over when the
  whole input was accepted.  They are threaded through a scratch copy of the pool here, whose
  indexes start empty or as a copy of the current ones.
\<close>

fun restore_loop ::
  "gotime \<Rightarrow> nat \<Rightarrow> mapping_rec list \<Rightarrow> pool \<Rightarrow> pool_error + pool" where
  "restore_loop protectedUntil index [] p = Inr p"
| "restore_loop protectedUntil index (item # items) p =
     bindE (validate_mapping p item protectedUntil index) (\<lambda>(d, a, expires).
       if gm_has (byDomain p) d then Inl (RestoreDuplicateDomain index)
       else if gm_has (byAddress p) a then Inl (RestoreDuplicateAddress index)
       else restore_loop protectedUntil (Suc index) items (insert_entry d a expires p))"

definition restore :: "gotime \<Rightarrow> snapshot \<Rightarrow> duration \<Rightarrow> pool \<Rightarrow> pool_error + pool" where
  "restore now s window p =
     (if s_Version s \<noteq> persistenceVersion then Inl RestoreVersion
      else if s_Prefix s \<noteq> pfx_string (p_prefix p) then Inl RestorePrefix
      else if s_JournalEpoch s \<noteq> [] \<and> \<not> valid_journal_epoch (s_JournalEpoch s) then Inl RestoreEpoch
      else if maxMappings p < int (length (s_Mappings s)) then Inl RestoreTooMany
      else restore_loop (now + window) 0 (s_Mappings s) (p\<lparr>byDomain := [], byAddress := []\<rparr>))"

definition drop_domain :: "string \<Rightarrow> pool \<Rightarrow> pool" where
  "drop_domain d p =
     (case gm_get (byDomain p) d of
        None \<Rightarrow> p
      | Some r \<Rightarrow> p\<lparr>byAddress := gm_del (byAddress p) (e_address (deref p r)),
                    byDomain := gm_del (byDomain p) d\<rparr>)"

definition drop_address :: "addr \<Rightarrow> pool \<Rightarrow> pool" where
  "drop_address a p =
     (case gm_get (byAddress p) a of
        None \<Rightarrow> p
      | Some r \<Rightarrow> p\<lparr>byDomain := gm_del (byDomain p) (e_domain (deref p r)),
                    byAddress := gm_del (byAddress p) a\<rparr>)"

fun drop_removed :: "nat \<Rightarrow> nat \<Rightarrow> string list \<Rightarrow> pool \<Rightarrow> pool_error + pool" where
  "drop_removed index i [] p = Inr p"
| "drop_removed index i (d # ds) p =
     (case normalize d of
        Inl e \<Rightarrow> Inl (RemovedDomain index i e)
      | Inr d' \<Rightarrow> drop_removed index (Suc i) ds (drop_domain d' p))"

fun journal_loop ::
  "gotime \<Rightarrow> nat \<Rightarrow> persistence_update list \<Rightarrow> pool \<Rightarrow> pool_error + pool" where
  "journal_loop protectedUntil index [] p = Inr p"
| "journal_loop protectedUntil index (u # us) p =
     bindE (drop_removed index 0 (u_Removed u) p) (\<lambda>q.
     bindE (validate_mapping q (u_Mapping u) protectedUntil index) (\<lambda>(d, a, expires).
       (let q' = drop_address a (drop_domain d q)
        in if maxMappings q' \<le> int (length (byDomain q')) then Inl (JournalLimit index)
           else journal_loop protectedUntil (Suc index) us (insert_entry d a expires q'))))"

definition restore_journal ::
  "gotime \<Rightarrow> persistence_update list \<Rightarrow> duration \<Rightarrow> pool \<Rightarrow> pool_error + pool" where
  "restore_journal now us window p = journal_loop (now + window) 0 us p"

end
