(* ===== verification/Fakeip_Invariant.thy ===== *)
theory Fakeip_Invariant
  imports Fakeip_Pool
begin

text \<open>
  The invariant of the Fake IP pool and its preservation by every critical section: the two indexes
  are inverse to each other, every mapped address lies in the usable range of the prefix, no two
  domains share an address and the configured limit is respected.
\<close>

section \<open>The usable range\<close>

definition in_pool :: "pool \<Rightarrow> addr \<Rightarrow> bool" where
  "in_pool p a =
     (bit_len a = bit_len (p_start p) \<and> addr_zone a = [] \<and>
      addr_val (p_start p) \<le> addr_val a \<and> addr_val a < addr_val (p_end p))"

definition pool_size :: "pool \<Rightarrow> nat" where
  "pool_size p = addr_val (p_end p) - addr_val (p_start p)"

definition pool_static :: "pool \<Rightarrow> bool" where
  "pool_static p =
     (is_valid (p_start p) \<and> addr_zone (p_start p) = [] \<and> addr_zone (p_end p) = [] \<and>
      bit_len (p_end p) = bit_len (p_start p) \<and>
      bit_len (pfx_addr (p_prefix p)) = bit_len (p_start p) \<and>
      addr_val (p_start p) < addr_val (p_end p) \<and>
      unat (capacity p) \<le> pool_size p \<and>
      0 < maxMappings p \<and> maxMappings p \<le> uint (capacity p) \<and>
      0 < mappingTTL p \<and>
      (\<forall>a. in_pool p a \<longrightarrow> pfx_contains (p_prefix p) a))"

text \<open>Addresses of the prefix as an interval of values.\<close>

lemma pfx_contains_interval:
  assumes "pfx_wf (Pfx a b)" and "bit_len c = bit_len a" and "addr_zone c = []"
    and "addr_val (addr_mask b a) \<le> addr_val c" and "addr_val c < addr_val (addr_mask b a) + 2 ^ (bit_len a - b)"
  shows "pfx_contains (pfx_masked (Pfx a b)) c"
proof -
  let ?h = "bit_len a - b" and ?m = "addr_mask b a"
  have va: "is_valid a" and b: "b \<le> bit_len a" using assms(1) by (auto simp: pfx_wf_def)
  have m: "addr_val ?m = addr_val a div 2 ^ ?h * 2 ^ ?h" using b by (rule addr_val_mask)
  have "addr_val c div 2 ^ ?h = addr_val a div 2 ^ ?h"
  proof (rule div_nat_eqI)
    show "2 ^ ?h * (addr_val a div 2 ^ ?h) \<le> addr_val c" using assms(4) m by (simp add: mult.commute)
    show "addr_val c < 2 ^ ?h * Suc (addr_val a div 2 ^ ?h)" using assms(5) m by (simp add: algebra_simps)
  qed
  then have "same_net b ?m c"
    using va b assms(2) m bit_len_is_valid [of ?m a] by (subst same_net_val) auto
  then show ?thesis using assms(3) by (simp add: pfx_contains_def)
qed

lemma set_host_bits_masked:
  assumes "is_valid a" and "b \<le> bit_len a" and "addr_zone a = []"
  shows "bit_len (set_host_bits b (addr_mask b a)) = bit_len a \<and>
         addr_zone (set_host_bits b (addr_mask b a)) = [] \<and>
         addr_val (set_host_bits b (addr_mask b a)) =
           addr_val (addr_mask b a) + (2 ^ (bit_len a - b) - 1)"
proof (cases a)
  case NoAddr
  with assms show ?thesis by simp
next
  case (V4 w)
  with assms have b: "b \<le> LENGTH(32)" by simp
  show ?thesis
    using V4 foldl_set_low_bits [OF b, of "push_bit (32 - b) (drop_bit (32 - b) w)"]
      clear_low_or_mask [of "32 - b" w] by (simp add: unat_clear_low)
next
  case (V6 w z)
  with assms have b: "b \<le> LENGTH(128)" by simp
  show ?thesis
    using V6 foldl_set_low_bits [OF b, of "push_bit (128 - b) (drop_bit (128 - b) w)"]
      clear_low_or_mask [of "128 - b" w] by (simp add: unat_clear_low)
qed

lemma unat_word_of_reserve:
  assumes "1 \<le> reserve" and "reserve < 2 ^ 63"
  shows "unat (word_of_int reserve :: 64 word) = nat reserve"
proof -
  have "take_bit 64 reserve = reserve"
    using assms by (intro take_bit_int_eq_self) auto
  then show ?thesis by (simp add: unsigned_of_int)
qed

lemma usable_capacity_bound:
  assumes "usable_capacity pfx reserve = Inr cap" and "1 \<le> reserve" and "reserve < 2 ^ 63"
  shows "unat cap + nat reserve + 1 \<le> 2 ^ host_bits pfx"
proof -
  let ?r = "word_of_int reserve :: 64 word"
  have r: "unat ?r = nat reserve" using assms(2,3) by (rule unat_word_of_reserve)
  have r63: "nat reserve < 2 ^ 63" using assms(2,3) by (simp add: nat_less_iff)
  have r1: "unat (?r + 1) = nat reserve + 1"
    using r r63 by (simp add: unat_plus_if')
  consider (big) "64 < host_bits pfx" | (mid) "host_bits pfx = 64" | (small) "host_bits pfx < 64"
    by linarith
  then show ?thesis
  proof cases
    case big
    then have "(2::nat) ^ 65 \<le> 2 ^ host_bits pfx" by (intro power_increasing) auto
    moreover have "cap = - 1" using big assms(1) by (simp add: usable_capacity_def Let_def)
    then have "unat cap = 2 ^ 64 - 1" by (simp add: unsigned_minus_1_eq_mask mask_eq_exp_minus_1)
    ultimately show ?thesis using r63 by simp
  next
    case mid
    have "unat (- 1 - ?r) = 2 ^ 64 - 1 - nat reserve"
      using r by (simp add: unat_sub unsigned_minus_1_eq_mask mask_eq_exp_minus_1)
    with mid assms(1) r63 show ?thesis by (simp add: usable_capacity_def Let_def)
  next
    case small
    let ?t = "push_bit (host_bits pfx) 1 :: 64 word"
    have t: "unat ?t = 2 ^ host_bits pfx"
    proof -
      have "(2::nat) ^ host_bits pfx < 2 ^ 64" using small by (intro power_strict_increasing) auto
      moreover have "unat ?t = take_bit 64 (push_bit (host_bits pfx) (unat (1 :: 64 word)))"
        by (simp only: unsigned_push_bit_eq) simp
      ultimately show ?thesis by (simp add: take_bit_eq_mod push_bit_eq_mult)
    qed
    from small assms(1) have lt: "?r + 1 < ?t" and cap: "cap = ?t - (?r + 1)"
      by (auto simp: usable_capacity_def Let_def split: if_splits)
    have "unat cap = 2 ^ host_bits pfx - (nat reserve + 1)"
      unfolding cap using lt t r1 by (subst unat_sub) auto
    moreover have "nat reserve + 1 < 2 ^ host_bits pfx"
      using lt t r1 by (metis word_less_nat_alt)
    ultimately show ?thesis by simp
  qed
qed

lemma new_pool_static:
  assumes "new_pool pfx ttl maxM reserve = Inr p" and "pfx_wf pfx"
    and "maxM < 2 ^ 63" and "reserve < 2 ^ 63"
  shows "pool_static p"
proof -
  obtain a b where pfx: "pfx = Pfx a b" using assms(2) by (cases pfx) (auto simp: pfx_wf_def)
  have va: "is_valid a" and za: "addr_zone a = []" and b: "b \<le> bit_len a"
    using assms(2) pfx by (auto simp: pfx_wf_def)
  let ?m = "addr_mask b a" and ?h = "bit_len a - b"
  from assms(1) pfx obtain cap where ttl: "0 < ttl" and maxM: "0 < maxM" and res: "1 \<le> reserve"
    and cap: "usable_capacity (Pfx ?m b) reserve = Inr cap" and fits: "word_of_int maxM \<le> cap"
    and p: "p = \<lparr>p_prefix = Pfx ?m b, mappingTTL = ttl, p_start = (addr_next ^^ nat reserve) ?m,
                 p_end = last_address (Pfx ?m b), p_next = (addr_next ^^ nat reserve) ?m,
                 capacity = cap, maxMappings = maxM, byDomain = [], byAddress = [],
                 pendingDeletes = [], persist_set = False, reclaimed = 0, exhaustions = 0, heap = []\<rparr>"
    by (auto simp: new_pool_def Let_def split: if_splits sum.splits)
  have capb: "unat cap + nat reserve + 1 \<le> 2 ^ ?h"
    using usable_capacity_bound [OF cap res assms(4)] by (simp add: host_bits_def)
  have vm: "is_valid ?m" using va bit_len_is_valid [of ?m a] by simp
  have zm: "addr_zone ?m = []" by (cases a) auto
  have fin: "bit_len (p_end p) = bit_len a \<and> addr_zone (p_end p) = [] \<and>
             addr_val (p_end p) = addr_val ?m + (2 ^ ?h - 1)"
    using set_host_bits_masked [OF va b za] p by (simp add: last_address_def)
  have "addr_val (p_end p) < 2 ^ bit_len a"
    using fin addr_val_bound [of "p_end p"] va bit_len_is_valid [of "p_end p" a] by simp
  then have bound: "addr_val ?m + nat reserve < 2 ^ bit_len ?m" using fin capb by simp
  have st: "bit_len (p_start p) = bit_len a \<and> addr_zone (p_start p) = [] \<and>
            addr_val (p_start p) = addr_val ?m + nat reserve"
    using addr_next_funpow [OF vm bound] zm p by simp
  have "uint (word_of_int maxM :: 64 word) = maxM"
    using maxM assms(3) by (simp add: unsigned_of_int take_bit_int_eq_self)
  then have limit: "maxM \<le> uint cap" using fits by (simp add: word_le_def)
  then have "0 < nat (uint cap)" using maxM by linarith
  then have "0 < unat cap" by (simp only: unat_eq_nat_uint)
  have contains: "pfx_contains (p_prefix p) c" if "in_pool p c" for c
  proof -
    have c: "bit_len c = bit_len a" "addr_zone c = []" "addr_val ?m \<le> addr_val c"
      "addr_val c < addr_val ?m + 2 ^ ?h"
      using that st fin by (auto simp: in_pool_def)
    show ?thesis
      using pfx_contains_interval [OF _ c] assms(2) pfx p by simp
  qed
  have "addr_val (p_start p) < addr_val (p_end p)" "unat cap \<le> pool_size p"
    using st fin capb \<open>0 < unat cap\<close> by (auto simp: pool_size_def)
  moreover have "capacity p = cap" "maxMappings p = maxM" "mappingTTL p = ttl" "p_prefix p = Pfx ?m b"
    using p by simp_all
  ultimately show ?thesis
    using st fin limit maxM ttl va bit_len_is_valid [of "p_start p" a] contains
    by (simp add: pool_static_def)
qed

section \<open>The invariant\<close>

definition index_inv :: "pool \<Rightarrow> bool" where
  "index_inv p =
     (gm_wf (byDomain p) \<and> gm_wf (byAddress p) \<and>
      (\<forall>d r. gm_get (byDomain p) d = Some r \<longrightarrow>
         r < length (heap p) \<and> e_domain (deref p r) = d \<and> canonical d \<and>
         gm_get (byAddress p) (e_address (deref p r)) = Some r) \<and>
      (\<forall>a r. gm_get (byAddress p) a = Some r \<longrightarrow>
         r < length (heap p) \<and> e_address (deref p r) = a \<and> in_pool p a \<and>
         gm_get (byDomain p) (e_domain (deref p r)) = Some r))"

definition pool_inv :: "pool \<Rightarrow> bool" where
  "pool_inv p =
     (pool_static p \<and> index_inv p \<and> gm_wf (pendingDeletes p) \<and> in_pool p (p_next p) \<and>
      int (length (byDomain p)) \<le> maxMappings p)"

lemma index_inv_domain:
  assumes "index_inv p" and "gm_get (byDomain p) d = Some r"
  shows "r < length (heap p)" "e_domain (deref p r) = d" "canonical d"
    "gm_get (byAddress p) (e_address (deref p r)) = Some r"
  using assms by (auto simp: index_inv_def)

lemma index_inv_address:
  assumes "index_inv p" and "gm_get (byAddress p) a = Some r"
  shows "r < length (heap p)" "e_address (deref p r) = a" "in_pool p a"
    "gm_get (byDomain p) (e_domain (deref p r)) = Some r"
  using assms by (auto simp: index_inv_def)

lemma pool_inv_parts:
  assumes "pool_inv p"
  shows "pool_static p" "index_inv p" "gm_wf (pendingDeletes p)" "in_pool p (p_next p)"
    "int (length (byDomain p)) \<le> maxMappings p"
  using assms by (auto simp: pool_inv_def)

text \<open>The sections leave the fields the range depends on alone.\<close>

definition same_frame :: "pool \<Rightarrow> pool \<Rightarrow> bool" where
  "same_frame p q =
     (p_prefix q = p_prefix p \<and> mappingTTL q = mappingTTL p \<and> p_start q = p_start p \<and>
      p_end q = p_end p \<and> capacity q = capacity p \<and> maxMappings q = maxMappings p)"

lemma same_frame_refl [simp]: "same_frame p p"
  by (simp add: same_frame_def)

lemma same_frame_trans: "same_frame p q \<Longrightarrow> same_frame q s \<Longrightarrow> same_frame p s"
  by (simp add: same_frame_def)

lemma same_frame_in_pool: "same_frame p q \<Longrightarrow> in_pool q a = in_pool p a"
  by (simp add: same_frame_def in_pool_def)

lemma same_frame_static: "same_frame p q \<Longrightarrow> pool_static q = pool_static p"
  by (auto simp: same_frame_def pool_static_def pool_size_def in_pool_def)

lemma pool_inv_frame:
  assumes "pool_inv p" and "same_frame p q" and "index_inv q" and "gm_wf (pendingDeletes q)"
    and "in_pool p (p_next q)" and "int (length (byDomain q)) \<le> maxMappings p"
  shows "pool_inv q"
proof -
  have "maxMappings q = maxMappings p" using assms(2) by (simp add: same_frame_def)
  then show ?thesis
    unfolding pool_inv_def
    using assms same_frame_static [OF assms(2)] same_frame_in_pool [OF assms(2)]
      pool_inv_parts(1) [OF assms(1)] by metis
qed

lemma delete_frame [simp]:
  "same_frame p (delete_untracked r p)" "same_frame p (delete_locked r p)"
  "p_next (delete_untracked r p) = p_next p" "p_next (delete_locked r p) = p_next p"
  "heap (delete_untracked r p) = heap p" "heap (delete_locked r p) = heap p"
  "persist_set (delete_untracked r p) = persist_set p" "persist_set (delete_locked r p) = persist_set p"
  "deref (delete_untracked r p) = deref p" "deref (delete_locked r p) = deref p"
  by (simp_all add: same_frame_def delete_untracked_def delete_locked_def deref_def fun_eq_iff)

lemma delete_index [simp]:
  "byDomain (delete_untracked r p) = gm_del (byDomain p) (e_domain (deref p r))"
  "byAddress (delete_untracked r p) = gm_del (byAddress p) (e_address (deref p r))"
  "byDomain (delete_locked r p) = gm_del (byDomain p) (e_domain (deref p r))"
  "byAddress (delete_locked r p) = gm_del (byAddress p) (e_address (deref p r))"
  by (simp_all add: delete_untracked_def delete_locked_def deref_def)

lemma index_inv_remove:
  assumes inv: "index_inv p" and live: "gm_get (byDomain p) (e_domain (deref p r)) = Some r"
    and fr: "same_frame p q" and hp: "heap q = heap p"
    and bd: "byDomain q = gm_del (byDomain p) (e_domain (deref p r))"
    and ba: "byAddress q = gm_del (byAddress p) (e_address (deref p r))"
  shows "index_inv q"
proof -
  have dr: "deref q = deref p" using hp by (simp add: deref_def fun_eq_iff)
  show ?thesis
    unfolding index_inv_def bd ba dr hp
  proof (intro conjI allI impI)
    show "gm_wf (gm_del (byDomain p) (e_domain (deref p r)))" "gm_wf (gm_del (byAddress p) (e_address (deref p r)))"
      using inv by (auto simp: index_inv_def)
  next
    fix d s assume "gm_get (gm_del (byDomain p) (e_domain (deref p r))) d = Some s"
    then have d: "d \<noteq> e_domain (deref p r)" and s: "gm_get (byDomain p) d = Some s"
      by (auto split: if_splits)
    note facts = index_inv_domain [OF inv s]
    show "s < length (heap p)" "e_domain (deref p s) = d" "canonical d" using facts by auto
    have "e_address (deref p s) \<noteq> e_address (deref p r)"
    proof
      assume "e_address (deref p s) = e_address (deref p r)"
      then have "s = r" using facts(4) index_inv_domain(4) [OF inv live] by (metis option.inject)
      then show False using facts(2) d by simp
    qed
    then show "gm_get (gm_del (byAddress p) (e_address (deref p r))) (e_address (deref p s)) = Some s"
      using facts by simp
  next
    fix a s assume "gm_get (gm_del (byAddress p) (e_address (deref p r))) a = Some s"
    then have a: "a \<noteq> e_address (deref p r)" and s: "gm_get (byAddress p) a = Some s"
      by (auto split: if_splits)
    note facts = index_inv_address [OF inv s]
    show "s < length (heap p)" "e_address (deref p s) = a" using facts by auto
    show "in_pool q a" using facts same_frame_in_pool [OF fr] by simp
    have "e_domain (deref p s) \<noteq> e_domain (deref p r)"
    proof
      assume "e_domain (deref p s) = e_domain (deref p r)"
      then have "s = r" using facts(4) live by (metis option.inject)
      then show False using facts(2) a by simp
    qed
    then show "gm_get (gm_del (byDomain p) (e_domain (deref p r))) (e_domain (deref p s)) = Some s"
      using facts by simp
  qed
qed

lemma index_inv_delete:
  assumes "index_inv p" and "gm_get (byDomain p) (e_domain (deref p r)) = Some r"
  shows "index_inv (delete_untracked r p)" "index_inv (delete_locked r p)"
  by (rule index_inv_remove [OF assms]; simp)+

lemma pool_inv_delete:
  assumes inv: "pool_inv p" and live: "gm_get (byDomain p) (e_domain (deref p r)) = Some r"
  shows "pool_inv (delete_untracked r p)" "pool_inv (delete_locked r p)"
proof -
  have wf: "gm_wf (byDomain p)" using inv by (simp add: pool_inv_def index_inv_def)
  have len: "length (gm_del (byDomain p) (e_domain (deref p r))) \<le> length (byDomain p)"
    using gm.len_del_le [OF wf] .
  have pd: "gm_wf (pendingDeletes (delete_untracked r p))" "gm_wf (pendingDeletes (delete_locked r p))"
    using inv by (auto simp: pool_inv_def delete_untracked_def delete_locked_def)
  have nx: "in_pool p (p_next (delete_untracked r p))" "in_pool p (p_next (delete_locked r p))"
    using pool_inv_parts(4) [OF inv] by simp_all
  have lm: "int (length (byDomain (delete_untracked r p))) \<le> maxMappings p"
    "int (length (byDomain (delete_locked r p))) \<le> maxMappings p"
    using len pool_inv_parts(5) [OF inv] by simp_all
  note ix = index_inv_delete [OF pool_inv_parts(2) [OF inv] live]
  show "pool_inv (delete_untracked r p)"
    by (rule pool_inv_frame [OF inv delete_frame(1) ix(1) pd(1) nx(1) lm(1)])
  show "pool_inv (delete_locked r p)"
    by (rule pool_inv_frame [OF inv delete_frame(2) ix(2) pd(2) nx(2) lm(2)])
qed

lemma counter_updates [simp]:
  "in_pool (p\<lparr>reclaimed := n\<rparr>) a = in_pool p a" "in_pool (p\<lparr>exhaustions := n\<rparr>) a = in_pool p a"
  "index_inv (p\<lparr>reclaimed := n\<rparr>) = index_inv p" "index_inv (p\<lparr>exhaustions := n\<rparr>) = index_inv p"
  "pool_static (p\<lparr>reclaimed := n\<rparr>) = pool_static p" "pool_static (p\<lparr>exhaustions := n\<rparr>) = pool_static p"
  "deref (p\<lparr>reclaimed := n\<rparr>) r = deref p r" "deref (p\<lparr>exhaustions := n\<rparr>) r = deref p r"
  by (simp_all add: index_inv_def deref_def in_pool_def pool_static_def pool_size_def)

lemma pool_inv_counters [simp]:
  "pool_inv (p\<lparr>reclaimed := n\<rparr>) = pool_inv p" "pool_inv (p\<lparr>exhaustions := n\<rparr>) = pool_inv p"
  by (simp_all add: pool_inv_def)

text \<open>Updates of an entry that keep its domain and address.\<close>

lemma deref_heap_update:
  "deref (p\<lparr>heap := (heap p)[s := e]\<rparr>) r = (if r = s \<and> s < length (heap p) then e else deref p r)"
  by (cases "r = s"; cases "s < length (heap p)") (simp_all add: deref_def list_update_beyond)

lemma index_inv_heap_update:
  assumes inv: "index_inv p" and keep: "e_domain e = e_domain (deref p r)" "e_address e = e_address (deref p r)"
  shows "index_inv (p\<lparr>heap := (heap p)[r := e]\<rparr>)"
proof -
  have d: "e_domain (deref (p\<lparr>heap := (heap p)[r := e]\<rparr>) s) = e_domain (deref p s)"
    and a: "e_address (deref (p\<lparr>heap := (heap p)[r := e]\<rparr>) s) = e_address (deref p s)" for s
    using keep by (simp_all add: deref_heap_update)
  show ?thesis using inv by (simp add: index_inv_def d a in_pool_def)
qed

lemma pool_inv_heap_update:
  assumes "pool_inv p" and "e_domain e = e_domain (deref p r)" "e_address e = e_address (deref p r)"
  shows "pool_inv (p\<lparr>heap := (heap p)[r := e]\<rparr>)"
  using pool_inv_parts [OF assms(1)] index_inv_heap_update [OF _ assms(2,3)]
  by (intro pool_inv_frame [OF assms(1)]) (simp_all add: same_frame_def)

lemma index_inv_insert:
  assumes inv: "index_inv p" and d: "gm_get (byDomain p) d = None" and a: "gm_get (byAddress p) a = None"
    and "in_pool p a" and "canonical d"
  shows "index_inv (insert_entry d a t p)"
proof -
  let ?q = "insert_entry d a t p" and ?r = "length (heap p)"
  have new: "e_domain (deref ?q ?r) = d" "e_address (deref ?q ?r) = a"
    by (simp_all add: insert_entry_def deref_def Let_def)
  have old: "deref ?q s = deref p s" if "s < length (heap p)" for s
    using that by (simp add: insert_entry_def deref_def nth_append Let_def)
  have ix: "byDomain ?q = gm_put (byDomain p) d ?r" "byAddress ?q = gm_put (byAddress p) a ?r"
    "length (heap ?q) = Suc ?r" by (simp_all add: insert_entry_def Let_def)
  have pl: "in_pool ?q x = in_pool p x" for x by (simp add: in_pool_def insert_entry_def Let_def)
  show ?thesis
    unfolding index_inv_def ix pl
  proof (intro conjI allI impI)
    show "gm_wf (gm_put (byDomain p) d ?r)" "gm_wf (gm_put (byAddress p) a ?r)"
      using inv by (auto simp: index_inv_def)
  next
    fix d' s assume s: "gm_get (gm_put (byDomain p) d ?r) d' = Some s"
    consider "d' = d" "s = ?r" | "d' \<noteq> d" "gm_get (byDomain p) d' = Some s"
      using s by (auto split: if_splits)
    then have "s < Suc ?r \<and> e_domain (deref ?q s) = d' \<and> canonical d' \<and>
        gm_get (gm_put (byAddress p) a ?r) (e_address (deref ?q s)) = Some s"
    proof cases
      case 1
      with new assms(5) show ?thesis by simp
    next
      case 2
      note f = index_inv_domain [OF inv 2(2)]
      have "e_address (deref p s) \<noteq> a" using f(4) a by auto
      with f old [OF f(1)] show ?thesis by simp
    qed
    then show "s < Suc ?r" "e_domain (deref ?q s) = d'" "canonical d'"
      "gm_get (gm_put (byAddress p) a ?r) (e_address (deref ?q s)) = Some s" by blast+
  next
    fix a' s assume s: "gm_get (gm_put (byAddress p) a ?r) a' = Some s"
    consider "a' = a" "s = ?r" | "a' \<noteq> a" "gm_get (byAddress p) a' = Some s"
      using s by (auto split: if_splits)
    then have "s < Suc ?r \<and> e_address (deref ?q s) = a' \<and> in_pool p a' \<and>
        gm_get (gm_put (byDomain p) d ?r) (e_domain (deref ?q s)) = Some s"
    proof cases
      case 1
      with new assms(4) show ?thesis by simp
    next
      case 2
      note f = index_inv_address [OF inv 2(2)]
      have "e_domain (deref p s) \<noteq> d" using f(4) d by auto
      with f old [OF f(1)] show ?thesis by simp
    qed
    then show "s < Suc ?r" "e_address (deref ?q s) = a'" "in_pool p a'"
      "gm_get (gm_put (byDomain p) d ?r) (e_domain (deref ?q s)) = Some s" by blast+
  qed
qed

lemma insert_entry_frame [simp]:
  "same_frame p (insert_entry d a t p)" "p_next (insert_entry d a t p) = p_next p"
  "pendingDeletes (insert_entry d a t p) = pendingDeletes p"
  "persist_set (insert_entry d a t p) = persist_set p" "maxMappings (insert_entry d a t p) = maxMappings p"
  by (simp_all add: insert_entry_def same_frame_def Let_def)

lemma insert_entry_index [simp]:
  "byDomain (insert_entry d a t p) = gm_put (byDomain p) d (length (heap p))"
  "byAddress (insert_entry d a t p) = gm_put (byAddress p) a (length (heap p))"
  "heap (insert_entry d a t p) =
     heap p @ [\<lparr>e_domain = d, e_address = a, e_expiresAt = t, e_references = 0\<rparr>]"
  by (simp_all add: insert_entry_def Let_def)

lemma pool_inv_insert:
  assumes inv: "pool_inv p" and d: "gm_get (byDomain p) d = None" and a: "gm_get (byAddress p) a = None"
    and rng: "in_pool p a" and can: "canonical d" and lim: "int (length (byDomain p)) < maxMappings p"
  shows "pool_inv (insert_entry d a t p)"
proof -
  have wf: "gm_wf (byDomain p)" using inv by (simp add: pool_inv_def index_inv_def)
  have "length (gm_put (byDomain p) d (length (heap p))) = Suc (length (byDomain p))"
    using gm.len_put [OF wf] d by simp
  then show ?thesis
    using pool_inv_parts [OF inv] lim index_inv_insert [OF _ d a rng can]
    by (intro pool_inv_frame [OF inv]) simp_all
qed

lemma index_lengths:
  assumes "index_inv p"
  shows "length (byAddress p) = length (byDomain p)"
proof -
  let ?f = "\<lambda>d. e_address (deref p (the (gm_get (byDomain p) d)))"
  have "bij_betw ?f (dom (gm_get (byDomain p))) (dom (gm_get (byAddress p)))"
  proof (rule bij_betw_byWitness [where f' = "\<lambda>a. e_domain (deref p (the (gm_get (byAddress p) a)))"])
    show "\<forall>d \<in> dom (gm_get (byDomain p)). e_domain (deref p (the (gm_get (byAddress p) (?f d)))) = d"
      using index_inv_domain [OF assms] by auto
    show "\<forall>a \<in> dom (gm_get (byAddress p)). ?f (e_domain (deref p (the (gm_get (byAddress p) a)))) = a"
      using index_inv_address [OF assms] by auto
    show "?f ` dom (gm_get (byDomain p)) \<subseteq> dom (gm_get (byAddress p))"
      using index_inv_domain [OF assms] by auto
    show "(\<lambda>a. e_domain (deref p (the (gm_get (byAddress p) a)))) ` dom (gm_get (byAddress p))
          \<subseteq> dom (gm_get (byDomain p))"
      using index_inv_address [OF assms] by auto
  qed
  then have "card (dom (gm_get (byDomain p))) = card (dom (gm_get (byAddress p)))"
    by (rule bij_betw_same_card)
  then show ?thesis using assms by (simp add: gm.len_card index_inv_def)
qed

section \<open>Pruning\<close>

lemma index_address_iff:
  assumes "index_inv p"
  shows "gm_get (byAddress p) a = Some r \<longleftrightarrow>
           (\<exists>d. gm_get (byDomain p) d = Some r \<and> e_address (deref p r) = a)"
  using index_inv_address [OF assms] index_inv_domain [OF assms] by metis

text \<open>
  What \<open>prune_keys\<close> does, independently of the order of the keys: the listed domains whose mapping is
  reclaimable lose it, everything else stays.
\<close>

definition pruned :: "gotime \<Rightarrow> string set \<Rightarrow> pool \<Rightarrow> pool \<Rightarrow> bool" where
  "pruned now ds p q =
     (same_frame p q \<and> heap q = heap p \<and> p_next q = p_next p \<and> persist_set q = persist_set p \<and>
      exhaustions q = exhaustions p \<and>
      (\<forall>d. gm_get (byDomain q) d =
         (case gm_get (byDomain p) d of None \<Rightarrow> None
          | Some r \<Rightarrow> if d \<in> ds \<and> reclaimable now (deref p r) then None else Some r)) \<and>
      (\<forall>d. gm_has (pendingDeletes q) d \<longleftrightarrow>
         gm_has (pendingDeletes p) d \<or>
         (persist_set p \<and> gm_has (byDomain p) d \<and> \<not> gm_has (byDomain q) d)))"

lemma pruned_refl: "pruned now {} p p"
  by (auto simp: pruned_def split: option.splits)

lemma pruned_extend:
  assumes "pruned now ds p q" and "gm_get (byDomain p) d = None \<or>
      (\<exists>r. gm_get (byDomain p) d = Some r \<and> \<not> reclaimable now (deref p r))"
  shows "pruned now (insert d ds) p q"
  using assms by (auto simp: pruned_def split: option.splits)

lemma pruned_delete:
  assumes inv: "index_inv p" and r: "gm_get (byDomain p) d = Some r" and rec: "reclaimable now (deref p r)"
    and q: "pruned now ds ((delete_locked r p)\<lparr>reclaimed := n\<rparr>) q"
  shows "pruned now (insert d ds) p q"
proof -
  have dom: "e_domain (deref p r) = d" using index_inv_domain [OF inv r] by simp
  let ?p = "(delete_locked r p)\<lparr>reclaimed := n\<rparr>"
  have bd: "byDomain ?p = gm_del (byDomain p) d" by (simp add: dom)
  have pd: "gm_has (pendingDeletes ?p) x \<longleftrightarrow> gm_has (pendingDeletes p) x \<or> (persist_set p \<and> x = d)" for x
    by (simp add: delete_locked_def delete_untracked_def dom)
  have hp: "heap ?p = heap p" "p_next ?p = p_next p" "persist_set ?p = persist_set p"
      "same_frame p ?p" "deref ?p = deref p" "exhaustions ?p = exhaustions p"
    using delete_frame(2) [of p r]
    by (simp_all add: same_frame_def deref_def fun_eq_iff) (simp add: delete_locked_def delete_untracked_def)
  have look: "gm_get (byDomain q) x =
      (case gm_get (byDomain p) x of None \<Rightarrow> None
       | Some s \<Rightarrow> if x \<in> insert d ds \<and> reclaimable now (deref p s) then None else Some s)" for x
    using q r rec by (cases "x = d") (auto simp: pruned_def bd hp(5) split: option.splits)
  have pend: "gm_has (pendingDeletes q) x \<longleftrightarrow> gm_has (pendingDeletes p) x \<or>
      (persist_set p \<and> gm_has (byDomain p) x \<and> \<not> gm_has (byDomain q) x)" for x
  proof -
    have "gm_has (pendingDeletes q) x \<longleftrightarrow> gm_has (pendingDeletes ?p) x \<or>
        (persist_set ?p \<and> gm_has (byDomain ?p) x \<and> \<not> gm_has (byDomain q) x)"
      using q unfolding pruned_def by blast
    then have "gm_has (pendingDeletes q) x \<longleftrightarrow> (gm_has (pendingDeletes p) x \<or> (persist_set p \<and> x = d)) \<or>
        (persist_set p \<and> gm_has (gm_del (byDomain p) d) x \<and> \<not> gm_has (byDomain q) x)"
      unfolding pd bd hp(3) .
    then show ?thesis using r look [of d] rec by (cases "x = d") simp_all
  qed
  have fr: "same_frame p q" using q hp(4) same_frame_trans by (auto simp: pruned_def)
  show ?thesis
    unfolding pruned_def using q fr look pend hp by (auto simp: pruned_def)
qed

lemma prune_keys_spec:
  "pool_inv p \<Longrightarrow> pruned now (set ds) p (prune_keys now ds p) \<and> pool_inv (prune_keys now ds p)"
proof (induction ds arbitrary: p)
  case Nil
  then show ?case by (simp add: pruned_refl)
next
  case (Cons d ds)
  note inv = pool_inv_parts(2) [OF Cons.prems]
  show ?case
  proof (cases "gm_get (byDomain p) d")
    case None
    with Cons show ?thesis by (auto intro: pruned_extend)
  next
    case (Some r)
    show ?thesis
    proof (cases "reclaimable now (deref p r)")
      case False
      with Some Cons show ?thesis by (auto intro: pruned_extend)
    next
      case True
      have "pool_inv (delete_locked r p)"
        using pool_inv_delete(2) [OF Cons.prems] index_inv_domain(2) [OF inv Some] Some by simp
      then have "pool_inv ((delete_locked r p)\<lparr>reclaimed := reclaimed (delete_locked r p) + 1\<rparr>)"
        by simp
      note IH = Cons.IH [OF this]
      have eq: "prune_keys now (d # ds) p =
          prune_keys now ds ((delete_locked r p)\<lparr>reclaimed := reclaimed (delete_locked r p) + 1\<rparr>)"
        using True Some by (simp add: Let_def)
      show ?thesis
        unfolding eq using pruned_delete [OF inv Some True conjunct1 [OF IH]] conjunct2 [OF IH] by simp
    qed
  qed
qed

lemma prune_locked_spec:
  assumes "pool_inv p"
  shows "pruned now (dom (gm_get (byDomain p))) p (prune_locked now p)" "pool_inv (prune_locked now p)"
  using prune_keys_spec [OF assms, of now "map fst (byDomain p)"]
  by (simp_all add: prune_locked_def gm_dom)

lemma prune_locked_lookup:
  assumes "pool_inv p"
  shows "gm_get (byDomain (prune_locked now p)) d =
    (case gm_get (byDomain p) d of None \<Rightarrow> None
     | Some r \<Rightarrow> if reclaimable now (deref p r) then None else Some r)"
  using prune_locked_spec(1) [OF assms, of now] by (auto simp: pruned_def split: option.splits)

lemma prune_locked_frame:
  assumes "pool_inv p"
  shows "same_frame p (prune_locked now p)" "heap (prune_locked now p) = heap p"
    "deref (prune_locked now p) = deref p" "persist_set (prune_locked now p) = persist_set p"
  using prune_locked_spec(1) [OF assms, of now] by (auto simp: pruned_def deref_def fun_eq_iff)


section \<open>The round-robin search\<close>

abbreviation offset :: "pool \<Rightarrow> addr \<Rightarrow> nat" where
  "offset p a \<equiv> addr_val a - addr_val (p_start p)"

lemma in_pool_start: "pool_static p \<Longrightarrow> in_pool p (p_start p)"
  by (simp add: pool_static_def in_pool_def)

lemma in_pool_eq_iff: "in_pool p a \<Longrightarrow> in_pool p b \<Longrightarrow> a = b \<longleftrightarrow> addr_val a = addr_val b"
  by (auto simp: in_pool_def intro: addr_eqI)

lemma advance_spec:
  assumes st: "pool_static p" and nx: "in_pool p (p_next p)"
  shows "in_pool p (advance p)" "offset p (advance p) = (offset p (p_next p) + 1) mod pool_size p"
proof -
  have valid: "is_valid (p_next p)"
    using st nx bit_len_is_valid [of "p_next p" "p_start p"] by (simp add: pool_static_def in_pool_def)
  have "addr_val (p_end p) < 2 ^ bit_len (p_end p)"
    using st bit_len_is_valid [of "p_end p" "p_start p"] by (intro addr_val_bound) (simp add: pool_static_def)
  then have lt: "Suc (addr_val (p_next p)) < 2 ^ bit_len (p_next p)"
    using st nx by (simp add: pool_static_def in_pool_def)
  note sc = addr_next_Suc [OF valid lt]
  have v: "is_valid (addr_next (p_next p))" using sc bit_len_is_valid valid by blast
  have eq: "addr_next (p_next p) = p_end p \<longleftrightarrow> Suc (addr_val (p_next p)) = addr_val (p_end p)"
    using sc st nx addr_eqI [of "addr_next (p_next p)" "p_end p"]
    by (auto simp: pool_static_def in_pool_def)
  have "in_pool p (advance p) \<and> offset p (advance p) = (offset p (p_next p) + 1) mod pool_size p"
  proof (cases "Suc (addr_val (p_next p)) = addr_val (p_end p)")
    case True
    then have "advance p = p_start p" using eq by (simp add: advance_def Let_def)
    moreover have "offset p (p_next p) + 1 = pool_size p"
      using True nx unfolding pool_size_def in_pool_def by linarith
    ultimately show ?thesis using in_pool_start [OF st] by simp
  next
    case False
    then have "advance p = addr_next (p_next p)" using eq v by (simp add: advance_def Let_def)
    moreover have "offset p (p_next p) + 1 < pool_size p"
      using False nx unfolding pool_size_def in_pool_def by linarith
    moreover have "Suc (addr_val (p_next p)) - addr_val (p_start p) = offset p (p_next p) + 1"
      using nx unfolding in_pool_def by linarith
    ultimately show ?thesis using sc nx False by (simp add: in_pool_def)
  qed
  then show "in_pool p (advance p)" "offset p (advance p) = (offset p (p_next p) + 1) mod pool_size p"
    by blast+
qed

lemma scan_result:
  assumes "pool_static p" and "in_pool p (p_next p)" and "scan n p = (res, q)"
  shows "q = p\<lparr>p_next := p_next q\<rparr> \<and> in_pool p (p_next q) \<and>
         (\<forall>c. res = Some c \<longrightarrow> in_pool p c \<and> gm_get (byAddress p) c = None)"
  using assms
proof (induction n arbitrary: p)
  case 0
  then show ?case by simp
next
  case (Suc n)
  let ?p = "p\<lparr>p_next := advance p\<rparr>"
  have fr: "same_frame p ?p" by (simp add: same_frame_def)
  have st: "pool_static ?p" using Suc.prems(1) same_frame_static [OF fr] by simp
  have nx: "in_pool ?p (p_next ?p)"
    using advance_spec(1) [OF Suc.prems(1,2)] same_frame_in_pool [OF fr] by simp
  show ?case
  proof (cases "gm_get (byAddress p) (p_next p)")
    case None
    with Suc.prems advance_spec(1) [OF Suc.prems(1,2)] show ?thesis
      by (auto simp: Let_def)
  next
    case (Some r)
    with Suc.prems(3) have "scan n ?p = (res, q)" by (simp add: Let_def)
    from Suc.IH [OF st nx this] show ?thesis using same_frame_in_pool [OF fr] by simp
  qed
qed

lemma scan_None_occupied:
  assumes "pool_static p" and "in_pool p (p_next p)" and "scan n p = (None, q)"
  shows "(\<lambda>k. (offset p (p_next p) + k) mod pool_size p) ` {..<n} \<subseteq>
         offset p ` (dom (gm_get (byAddress p)))"
  using assms
proof (induction n arbitrary: p)
  case 0
  then show ?case by simp
next
  case (Suc n)
  let ?p = "p\<lparr>p_next := advance p\<rparr>" and ?j = "offset p (p_next p)" and ?N = "pool_size p"
  have fr: "same_frame p ?p" by (simp add: same_frame_def)
  have st: "pool_static ?p" using Suc.prems(1) same_frame_static [OF fr] by simp
  note adv = advance_spec [OF Suc.prems(1,2)]
  have nx: "in_pool ?p (p_next ?p)" using adv(1) same_frame_in_pool [OF fr] by simp
  have occ: "p_next p \<in> dom (gm_get (byAddress p))" and rest: "scan n ?p = (None, q)"
    using Suc.prems(3) by (auto simp: Let_def split: if_splits)
  have lt: "?j < ?N" using Suc.prems(2) by (auto simp: in_pool_def pool_size_def)
  have IH: "(\<lambda>k. (offset p (advance p) + k) mod ?N) ` {..<n} \<subseteq> offset p ` dom (gm_get (byAddress p))"
    using Suc.IH [OF st nx rest] by (simp add: pool_size_def)
  have "(?j + k) mod ?N \<in> offset p ` dom (gm_get (byAddress p))" if "k < Suc n" for k
  proof (cases k)
    case 0
    then show ?thesis using occ lt by auto
  next
    case (Suc m)
    then have "(offset p (advance p) + m) mod ?N \<in> offset p ` dom (gm_get (byAddress p))"
      using IH that by blast
    moreover have "(offset p (advance p) + m) mod ?N = (?j + k) mod ?N"
      using adv(2) Suc by (simp add: mod_add_left_eq)
    ultimately show ?thesis by simp
  qed
  then show ?case by blast
qed

lemma mod_shift_inj:
  assumes "n \<le> (N::nat)"
  shows "inj_on (\<lambda>k. (j + k) mod N) {..<n}"
proof (rule inj_onI)
  fix a b assume "a \<in> {..<n}" "b \<in> {..<n}" and eq: "(j + a) mod N = (j + b) mod N"
  then have ab: "a < N" "b < N" using assms by auto
  from eq have "int N dvd int (j + a) - int (j + b)"
    by (metis mod_eq_dvd_iff of_nat_mod)
  then have "int N dvd int a - int b" by simp
  moreover have "\<bar>int a - int b\<bar> < int N" using ab by linarith
  ultimately have "int a - int b = 0" by (metis dvd_imp_le_int linorder_not_less abs_of_nat)
  then show "a = b" by simp
qed

text \<open>
  As many candidates as there are mappings plus one contain a free address: the candidates are
  pairwise distinct as long as they do not wrap around completely.
\<close>

lemma scan_finds:
  assumes "pool_static p" and "in_pool p (p_next p)" and "gm_wf (byAddress p)"
    and "length (byAddress p) < n" and "n \<le> pool_size p"
  shows "\<exists>c q. scan n p = (Some c, q)"
proof (rule ccontr)
  assume "\<not> ?thesis"
  then obtain q where none: "scan n p = (None, q)" by (metis option.exhaust prod.exhaust)
  let ?f = "\<lambda>k. (offset p (p_next p) + k) mod pool_size p"
  have fin: "finite (dom (gm_get (byAddress p)))" using gm.finite_get [OF assms(3)] .
  have "n = card (?f ` {..<n})" using mod_shift_inj [OF assms(5)] by (simp add: card_image)
  also have "\<dots> \<le> card (offset p ` dom (gm_get (byAddress p)))"
    using scan_None_occupied [OF assms(1,2) none] fin by (intro card_mono) auto
  also have "\<dots> \<le> length (byAddress p)" using card_image_le [OF fin] gm.len_card [OF assms(3)] by simp
  finally show False using assms(4) by simp
qed

section \<open>Allocation\<close>

lemma scan_attempts_eq:
  assumes inv: "pool_inv p" and lim: "int (length (byDomain p)) < maxMappings p"
  shows "unat (scan_attempts p) = length (byAddress p) + 1" "length (byAddress p) + 1 \<le> pool_size p"
proof -
  have len: "length (byAddress p) = length (byDomain p)" using pool_inv_parts(2) [OF inv] by (rule index_lengths)
  have st: "maxMappings p \<le> uint (capacity p)" "unat (capacity p) \<le> pool_size p"
    using pool_inv_parts(1) [OF inv] by (auto simp: pool_static_def)
  have "int (length (byAddress p) + 1) \<le> int (unat (capacity p))" using st(1) lim len by simp
  then have le: "length (byAddress p) + 1 \<le> unat (capacity p)" by linarith
  then have small: "length (byAddress p) + 1 < 2 ^ 64"
    using unsigned_less [of "capacity p", where ?'a = nat] by simp
  then have w: "unat (word_of_nat (length (byAddress p) + 1) :: 64 word) = length (byAddress p) + 1"
    by (subst unat_of_nat) (simp add: take_bit_nat_eq_self)
  have "\<not> capacity p < word_of_nat (length (byAddress p) + 1)"
    using le w by (simp add: word_less_nat_alt)
  then show "unat (scan_attempts p) = length (byAddress p) + 1" using w by (simp add: scan_attempts_def Let_def)
  show "length (byAddress p) + 1 \<le> pool_size p" using le st(2) by simp
qed

lemma scan_succeeds:
  assumes inv: "pool_inv p" and lim: "int (length (byDomain p)) < maxMappings p"
  obtains c nx where "scan (unat (scan_attempts p)) p = (Some c, p\<lparr>p_next := nx\<rparr>)"
    "in_pool p c" "gm_get (byAddress p) c = None" "in_pool p nx"
proof -
  note parts = pool_inv_parts [OF inv]
  have wf: "gm_wf (byAddress p)" using parts(2) by (simp add: index_inv_def)
  obtain c q where s: "scan (unat (scan_attempts p)) p = (Some c, q)"
    using scan_finds [OF parts(1,4) wf, of "unat (scan_attempts p)"] scan_attempts_eq [OF inv lim] by auto
  with scan_result [OF parts(1,4) s] that show ?thesis by auto
qed

lemma pool_inv_next:
  assumes "pool_inv p" and "in_pool p a"
  shows "pool_inv (p\<lparr>p_next := a\<rparr>)"
proof (rule pool_inv_frame [OF assms(1)])
  show "same_frame p (p\<lparr>p_next := a\<rparr>)" by (simp add: same_frame_def)
  show "index_inv (p\<lparr>p_next := a\<rparr>)" using pool_inv_parts(2) [OF assms(1)]
    by (simp add: index_inv_def deref_def in_pool_def)
qed (use pool_inv_parts [OF assms(1)] assms(2) in simp_all)

text \<open>The shape of every result of the first section.\<close>

definition fresh_alloc :: "gotime \<Rightarrow> string \<Rightarrow> pool \<Rightarrow> addr \<Rightarrow> pool \<Rightarrow> bool" where
  "fresh_alloc now d p a q =
     (\<exists>nx. in_pool p nx \<and> in_pool p a \<and> gm_get (byAddress (prune_locked now p)) a = None \<and>
        q = insert_entry d a (now + mappingTTL p) ((prune_locked now p)\<lparr>p_next := nx\<rparr>))"

lemma alloc_begin_cases:
  assumes inv: "pool_inv p" and can: "canonical d"
  obtains (existing) r where "gm_get (byDomain p) d = Some r"
      "alloc_begin now d p = (Answer (e_address (deref p r)),
         p\<lparr>heap := (heap p)[r := (deref p r)\<lparr>e_expiresAt := now + mappingTTL p\<rparr>]\<rparr>)"
  | (full) "gm_get (byDomain p) d = None"
      "maxMappings p \<le> int (length (byDomain (prune_locked now p)))"
      "alloc_begin now d p = (Fail ErrExhausted,
         (prune_locked now p)\<lparr>exhaustions := exhaustions (prune_locked now p) + 1\<rparr>)"
  | (fresh) a q where "gm_get (byDomain p) d = None"
      "int (length (byDomain (prune_locked now p))) < maxMappings p"
      "fresh_alloc now d p a q" "pool_inv q"
      "alloc_begin now d p =
         (if \<not> persist_set p then Answer a
          else NeedPersist (length (heap p))
            \<lparr>u_RecordedAt = now, u_Removed = sorted_removed q,
             u_Mapping = mapping_of (deref q (length (heap p)))\<rparr>, q)"
proof (cases "gm_get (byDomain p) d")
  case (Some r)
  then show ?thesis by (intro existing) (simp_all add: alloc_begin_def)
next
  case None
  let ?q = "prune_locked now p"
  note fr = prune_locked_frame [OF inv, of now]
  have mx: "maxMappings ?q = maxMappings p" "mappingTTL ?q = mappingTTL p" using fr(1) by (simp_all add: same_frame_def)
  have qinv: "pool_inv ?q" using prune_locked_spec(2) [OF inv] .
  show ?thesis
  proof (cases "maxMappings p \<le> int (length (byDomain ?q))")
    case True
    then show ?thesis using None mx by (intro full) (simp_all add: alloc_begin_def Let_def)
  next
    case False
    then have lim: "int (length (byDomain ?q)) < maxMappings ?q" using mx by simp
    obtain c nx where s: "scan (unat (scan_attempts ?q)) ?q = (Some c, ?q\<lparr>p_next := nx\<rparr>)"
      and c: "in_pool ?q c" "gm_get (byAddress ?q) c = None" and nx: "in_pool ?q nx"
      using scan_succeeds [OF qinv lim] by blast
    let ?s = "?q\<lparr>p_next := nx\<rparr>" and ?t = "insert_entry d c (now + mappingTTL p) (?q\<lparr>p_next := nx\<rparr>)"
    have dq: "gm_get (byDomain ?q) d = None" using prune_locked_lookup [OF inv, of now d] None by simp
    have sinv: "pool_inv ?s" using pool_inv_next [OF qinv nx] .
    have ip: "in_pool ?s x = in_pool ?q x" for x by (simp add: in_pool_def)
    have tinv: "pool_inv ?t"
      by (rule pool_inv_insert [OF sinv]) (use dq c can lim ip in simp_all)
    have "fresh_alloc now d p c ?t"
      using c nx same_frame_in_pool [OF fr(1)] unfolding fresh_alloc_def by blast
    moreover have "alloc_begin now d p =
        (if \<not> persist_set p then Answer c
         else NeedPersist (length (heap p))
            \<lparr>u_RecordedAt = now, u_Removed = sorted_removed ?t,
             u_Mapping = mapping_of (deref ?t (length (heap p)))\<rparr>, ?t)"
      using None False mx s fr(2,4) by (simp add: alloc_begin_def Let_def)
    ultimately show ?thesis using None lim mx tinv by (intro fresh) simp_all
  qed
qed

lemma alloc_begin_inv:
  assumes "pool_inv p" and "canonical d"
  shows "pool_inv (snd (alloc_begin now d p))"
  using assms(1,2)
proof (cases rule: alloc_begin_cases [where now = now])
  case (existing r)
  then show ?thesis using pool_inv_heap_update [OF assms(1), of _ r] by simp
next
  case full
  then show ?thesis using prune_locked_spec(2) [OF assms(1)] by simp
next
  case (fresh a q)
  then show ?thesis by simp
qed

lemma fresh_alloc_result:
  assumes "fresh_alloc now d p a q" and "pool_inv p"
  shows "gm_get (byDomain q) d = Some (length (heap p))" "gm_get (byAddress q) a = Some (length (heap p))"
    "e_address (deref q (length (heap p))) = a" "e_domain (deref q (length (heap p))) = d"
    "e_expiresAt (deref q (length (heap p))) = now + mappingTTL p"
    "e_references (deref q (length (heap p))) = 0"
    "in_pool p a" "same_frame p q" "persist_set q = persist_set p"
    "\<And>d'. d' \<noteq> d \<Longrightarrow> gm_get (byDomain q) d' = gm_get (byDomain (prune_locked now p)) d'"
    "\<And>r. r < length (heap p) \<Longrightarrow> deref q r = deref p r"
proof -
  note fr = prune_locked_frame [OF assms(2), of now]
  obtain nx where q: "q = insert_entry d a (now + mappingTTL p) ((prune_locked now p)\<lparr>p_next := nx\<rparr>)"
    and a: "in_pool p a" using assms(1) by (auto simp: fresh_alloc_def)
  show "gm_get (byDomain q) d = Some (length (heap p))" "gm_get (byAddress q) a = Some (length (heap p))"
    "e_address (deref q (length (heap p))) = a" "e_domain (deref q (length (heap p))) = d"
    "e_expiresAt (deref q (length (heap p))) = now + mappingTTL p"
    "e_references (deref q (length (heap p))) = 0"
    "persist_set q = persist_set p"
    using q fr by (simp_all add: deref_def)
  show "in_pool p a" by (rule a)
  show "same_frame p q" using fr(1) by (simp add: q insert_entry_def same_frame_def Let_def)
  show "gm_get (byDomain q) d' = gm_get (byDomain (prune_locked now p)) d'" if "d' \<noteq> d" for d'
    using that q by simp
  show "deref q r = deref p r" if "r < length (heap p)" for r
    using that q fr by (simp add: deref_def nth_append)
qed


section \<open>The other sections\<close>

lemma alloc_fail_inv:
  assumes "pool_inv p"
  shows "pool_inv (alloc_fail d r p)"
  using assms pool_inv_delete(1) [OF assms, of r] index_inv_domain(2) [OF pool_inv_parts(2) [OF assms], of d r]
  by (auto simp: alloc_fail_def)

lemma foldl_del_wf: "gm_wf m \<Longrightarrow> gm_wf (foldl gm_del m ds)"
  by (induction ds arbitrary: m) auto

lemma foldl_del_get: "gm_get (foldl gm_del m ds) k = (if k \<in> set ds then None else gm_get m k)"
  by (induction ds arbitrary: m) auto

lemma forget_deletes_inv:
  assumes "pool_inv p"
  shows "pool_inv (forget_deletes ds p)"
proof (rule pool_inv_frame [OF assms])
  show "same_frame p (forget_deletes ds p)" by (simp add: same_frame_def forget_deletes_def)
  show "index_inv (forget_deletes ds p)" using pool_inv_parts(2) [OF assms]
    by (simp add: index_inv_def deref_def in_pool_def forget_deletes_def)
qed (use pool_inv_parts [OF assms] in \<open>simp_all add: forget_deletes_def foldl_del_wf\<close>)

lemma lookup_inv:
  assumes "pool_inv p"
  shows "pool_inv (snd (lookup now a p))"
proof (cases "gm_get (byAddress p) a")
  case None
  then show ?thesis using assms by (simp add: lookup_def)
next
  case (Some r)
  then have "gm_get (byDomain p) (e_domain (deref p r)) = Some r"
    using index_inv_address(4) [OF pool_inv_parts(2) [OF assms]] by blast
  then show ?thesis using Some assms pool_inv_delete(2) [OF assms] by (simp add: lookup_def)
qed

lemma acquire_inv:
  assumes "pool_inv p"
  shows "pool_inv (snd (acquire now a p))"
proof (cases "gm_get (byAddress p) a")
  case None
  then show ?thesis using assms by (simp add: acquire_def)
next
  case (Some r)
  then have "gm_get (byDomain p) (e_domain (deref p r)) = Some r"
    using index_inv_address(4) [OF pool_inv_parts(2) [OF assms]] by blast
  then show ?thesis using Some assms pool_inv_delete(2) [OF assms] pool_inv_heap_update [OF assms, of _ r]
    by (simp add: acquire_def)
qed

lemma release_inv: "pool_inv p \<Longrightarrow> pool_inv (release r p)"
  using pool_inv_heap_update [of p _ r] by (simp add: release_def)

lemma set_persistence_inv:
  assumes "pool_inv p"
  shows "pool_inv (set_persistence p)"
proof (rule pool_inv_frame [OF assms])
  show "same_frame p (set_persistence p)" by (simp add: same_frame_def set_persistence_def)
  show "index_inv (set_persistence p)" using pool_inv_parts(2) [OF assms]
    by (simp add: index_inv_def deref_def in_pool_def set_persistence_def)
qed (use pool_inv_parts [OF assms] in \<open>simp_all add: set_persistence_def\<close>)

lemma new_pool_inv:
  assumes "new_pool pfx ttl maxM reserve = Inr p" and "pfx_wf pfx" and "maxM < 2 ^ 63" and "reserve < 2 ^ 63"
  shows "pool_inv p"
proof -
  have st: "pool_static p" using assms by (rule new_pool_static)
  have "byDomain p = []" "byAddress p = []" "pendingDeletes p = []" "p_next p = p_start p"
    using assms(1) by (auto simp: new_pool_def Let_def split: if_splits sum.splits)
  then show ?thesis
    using st in_pool_start [OF st] by (simp add: pool_inv_def index_inv_def) (simp add: pool_static_def)
qed

text \<open>No two domains share an address.\<close>

lemma index_inv_unique:
  assumes "index_inv p" and "gm_get (byDomain p) d = Some r" and "gm_get (byDomain p) d' = Some r'"
    and "e_address (deref p r) = e_address (deref p r')"
  shows "d = d'"
  using index_inv_domain(2,4) [OF assms(1,2)] index_inv_domain(2,4) [OF assms(1,3)] assms(4)
  by (metis option.inject)

end
