(* ===== verification/Fakeip_System.thy ===== *)
theory Fakeip_System
  imports Fakeip_Invariant
begin

text \<open>
  The Fake IP pool under concurrency.  A state holds the pool, the operation that owns
  \<open>persistenceMutex\<close> while its disk write runs, and the multiset of entries acquired by flows whose
  release closure has not run yet (\<open>sync.Once\<close> makes each closure release once).  A step is one
  critical section, at an arbitrary clock value; between the two sections of an allocation or a
  flush any other section may run.  The count of an entry is 64 bits wide and the source does not guard
  it; a step acquires only while fewer than \<open>2 ^ 64 - 1\<close> flows hold entries, which memory bounds.
\<close>

datatype disk_owner =
    Idle
  | Allocating string ptr persistence_update
  | Flushing "string list"

record pool_sys =
  sys_pool :: pool
  owner :: disk_owner
  holds :: "ptr multiset"

fun is_persist :: "alloc_outcome \<Rightarrow> bool" where
  "is_persist (NeedPersist _ _) = True" | "is_persist _ = False"

inductive pool_step :: "gotime \<Rightarrow> pool_sys \<Rightarrow> pool_sys \<Rightarrow> bool" where
  alloc_done: "owner s = Idle \<Longrightarrow> normalize name = Inr d \<Longrightarrow>
     alloc_begin now d (sys_pool s) = (out, q) \<Longrightarrow> \<not> is_persist out \<Longrightarrow>
     pool_step now s (s\<lparr>sys_pool := q\<rparr>)"
| alloc_start: "owner s = Idle \<Longrightarrow> normalize name = Inr d \<Longrightarrow>
     alloc_begin now d (sys_pool s) = (NeedPersist r u, q) \<Longrightarrow>
     pool_step now s (s\<lparr>sys_pool := q, owner := Allocating d r u\<rparr>)"
| persist_ok: "owner s = Allocating d r u \<Longrightarrow>
     pool_step now s (s\<lparr>sys_pool := forget_deletes (u_Removed u) (sys_pool s), owner := Idle\<rparr>)"
| persist_failed: "owner s = Allocating d r u \<Longrightarrow>
     pool_step now s (s\<lparr>sys_pool := alloc_fail d r (sys_pool s), owner := Idle\<rparr>)"
| flush_start: "owner s = Idle \<Longrightarrow> persist_set (sys_pool s) \<Longrightarrow>
     pool_step now s (s\<lparr>owner := Flushing (map fst (pendingDeletes (sys_pool s)))\<rparr>)"
| flush_ok: "owner s = Flushing ds \<Longrightarrow>
     pool_step now s (s\<lparr>sys_pool := forget_deletes ds (sys_pool s), owner := Idle\<rparr>)"
| flush_failed: "owner s = Flushing ds \<Longrightarrow> pool_step now s (s\<lparr>owner := Idle\<rparr>)"
| lookup_step: "pool_step now s (s\<lparr>sys_pool := snd (lookup now a (sys_pool s))\<rparr>)"
| acquire_ok: "acquire now a (sys_pool s) = (Inr (d, r), q) \<Longrightarrow> size (holds s) < 2 ^ 64 - 1 \<Longrightarrow>
     pool_step now s (s\<lparr>sys_pool := q, holds := add_mset r (holds s)\<rparr>)"
| acquire_failed: "acquire now a (sys_pool s) = (Inl e, q) \<Longrightarrow> pool_step now s (s\<lparr>sys_pool := q\<rparr>)"
| release_step: "r \<in># holds s \<Longrightarrow>
     pool_step now s (s\<lparr>sys_pool := release r (sys_pool s), holds := holds s - {#r#}\<rparr>)"
| prune_step: "pool_step now s (s\<lparr>sys_pool := snd (prune now (sys_pool s))\<rparr>)"

inductive reachable :: "pool \<Rightarrow> pool_sys \<Rightarrow> bool" for p0 :: pool where
  start: "reachable p0 \<lparr>sys_pool = p0, owner = Idle, holds = {#}\<rparr>"
| step: "reachable p0 s \<Longrightarrow> pool_step now s t \<Longrightarrow> reachable p0 t"

text \<open>The reference counts are exactly the outstanding acquisitions.\<close>

definition refs_inv :: "pool_sys \<Rightarrow> bool" where
  "refs_inv s =
     (size (holds s) < 2 ^ 64 \<and>
      (\<forall>r \<in># holds s. r < length (heap (sys_pool s))) \<and>
      (\<forall>r < length (heap (sys_pool s)).
         unat (e_references (deref (sys_pool s) r)) = count (holds s) r))"

definition sys_inv :: "pool_sys \<Rightarrow> bool" where
  "sys_inv s = (pool_inv (sys_pool s) \<and> refs_inv s)"

lemma refs_inv_mono:
  assumes "refs_inv s" and "holds t = holds s"
    and "length (heap (sys_pool s)) \<le> length (heap (sys_pool t))"
    and "\<And>r. r < length (heap (sys_pool s)) \<Longrightarrow>
           e_references (deref (sys_pool t) r) = e_references (deref (sys_pool s) r)"
    and "\<And>r. length (heap (sys_pool s)) \<le> r \<Longrightarrow> r < length (heap (sys_pool t)) \<Longrightarrow>
           e_references (deref (sys_pool t) r) = 0"
  shows "refs_inv t"
proof -
  have "count (holds s) r = 0" if "length (heap (sys_pool s)) \<le> r" for r
    using assms(1) that by (force simp: refs_inv_def not_in_iff [symmetric])
  then have "unat (e_references (deref (sys_pool t) r)) = count (holds s) r"
    if "r < length (heap (sys_pool t))" for r
    using assms(1,4,5) that by (cases "r < length (heap (sys_pool s))") (auto simp: refs_inv_def)
  then show ?thesis using assms(1,2,3) by (auto simp: refs_inv_def intro: order_less_le_trans)
qed

lemma alloc_begin_heap:
  assumes inv: "pool_inv p" and can: "canonical d" and out: "alloc_begin now d p = (out, q)"
  shows "length (heap p) \<le> length (heap q)"
    "\<And>r. r < length (heap p) \<Longrightarrow> e_references (deref q r) = e_references (deref p r)"
    "\<And>r. length (heap p) \<le> r \<Longrightarrow> r < length (heap q) \<Longrightarrow> e_references (deref q r) = 0"
proof -
  have "length (heap p) \<le> length (heap q) \<and>
      (\<forall>r < length (heap p). e_references (deref q r) = e_references (deref p r)) \<and>
      (\<forall>r. length (heap p) \<le> r \<and> r < length (heap q) \<longrightarrow> e_references (deref q r) = 0)"
    using inv can
  proof (cases rule: alloc_begin_cases [where now = now])
    case (existing r)
    with out show ?thesis by (auto simp: deref_heap_update)
  next
    case full
    with out prune_locked_frame [OF inv, of now] show ?thesis by auto
  next
    case (fresh a q')
    then have q: "q' = q" using out by auto
    have "length (heap q) = Suc (length (heap p))"
      using fresh(3) prune_locked_frame(2) [OF inv, of now] by (auto simp: q fresh_alloc_def)
    moreover have "e_references (deref q (length (heap p))) = 0"
      "r < length (heap p) \<Longrightarrow> deref q r = deref p r" for r
      using fresh_alloc_result(6,11) [OF fresh(3) inv] by (auto simp: q)
    ultimately show ?thesis by (auto simp: less_Suc_eq dest: le_neq_implies_less)
  qed
  then show "length (heap p) \<le> length (heap q)"
    "\<And>r. r < length (heap p) \<Longrightarrow> e_references (deref q r) = e_references (deref p r)"
    "\<And>r. length (heap p) \<le> r \<Longrightarrow> r < length (heap q) \<Longrightarrow> e_references (deref q r) = 0" by blast+
qed

lemma alloc_step_sys_inv:
  assumes "sys_inv s" and "normalize name = Inr d" and "alloc_begin now d (sys_pool s) = (out, q)"
  shows "sys_inv (s\<lparr>sys_pool := q\<rparr>)"
proof -
  have inv: "pool_inv (sys_pool s)" and rf: "refs_inv s" using assms(1) by (auto simp: sys_inv_def)
  have can: "canonical d" using normalize_canonical [OF assms(2)] .
  have "refs_inv (s\<lparr>sys_pool := q\<rparr>)"
    using alloc_begin_heap [OF inv can assms(3)] by (intro refs_inv_mono [OF rf]) simp_all
  moreover have "pool_inv q" using alloc_begin_inv [OF inv can, of now] assms(3) by simp
  ultimately show ?thesis by (simp add: sys_inv_def)
qed

lemma sys_inv_pool_update:
  assumes "sys_inv s" and "pool_inv q" and "heap q = heap (sys_pool s)"
  shows "sys_inv (s\<lparr>sys_pool := q\<rparr>)"
  using assms by (auto simp: sys_inv_def refs_inv_def deref_def)

lemma sys_inv_owner [simp]: "sys_inv (s\<lparr>owner := x\<rparr>) = sys_inv s"
  by (simp add: sys_inv_def refs_inv_def)

lemma section_heaps [simp]:
  "heap (forget_deletes ds p) = heap p" "heap (alloc_fail d r p) = heap p"
  "heap (snd (lookup now a p)) = heap p"
  by (auto simp: forget_deletes_def alloc_fail_def lookup_def split: option.splits)

lemma acquire_failed_heap: "acquire now a p = (Inl e, q) \<Longrightarrow> heap q = heap p"
  by (auto simp: acquire_def split: option.splits if_splits)

lemma acquire_okD:
  assumes "acquire now a p = (Inr (d, r), q)"
  shows "gm_get (byAddress p) a = Some r" "d = e_domain (deref p r)" "\<not> reclaimable now (deref p r)"
    "q = p\<lparr>heap := (heap p)[r := (deref p r)\<lparr>e_references := e_references (deref p r) + 1\<rparr>]\<rparr>"
  using assms by (auto simp: acquire_def split: option.splits if_splits)

lemma acquire_ok_sys_inv:
  assumes s: "sys_inv s" and acq: "acquire now a (sys_pool s) = (Inr (d, r), q)"
    and room: "size (holds s) < 2 ^ 64 - 1"
  shows "sys_inv (s\<lparr>sys_pool := q, holds := add_mset r (holds s)\<rparr>)"
proof -
  let ?p = "sys_pool s"
  have inv: "pool_inv ?p" and rf: "refs_inv s" using s by (auto simp: sys_inv_def)
  note A = acquire_okD [OF acq]
  have r: "r < length (heap ?p)" using index_inv_address(1) [OF pool_inv_parts(2) [OF inv] A(1)] .
  have qinv: "pool_inv q" using acquire_inv [OF inv, of now a] acq by simp
  have cnt: "unat (e_references (deref ?p r)) = count (holds s) r" using rf r by (simp add: refs_inv_def)
  have "count (holds s) r \<le> size (holds s)" by (rule count_le_size)
  then have "unat (e_references (deref ?p r)) + 1 < 2 ^ 64" using cnt room by simp
  then have inc: "unat (e_references (deref ?p r) + 1) = Suc (count (holds s) r)"
    using cnt by (simp add: unat_plus_if')
  have dq: "deref q x = (if x = r then (deref ?p r)\<lparr>e_references := e_references (deref ?p r) + 1\<rparr> else deref ?p x)"
    if "x < length (heap ?p)" for x
    using that A(4) by (simp add: deref_heap_update)
  have "refs_inv (s\<lparr>sys_pool := q, holds := add_mset r (holds s)\<rparr>)"
    using rf r inc dq room A(4) by (auto simp: refs_inv_def)
  then show ?thesis using qinv by (simp add: sys_inv_def)
qed

lemma release_sys_inv:
  assumes s: "sys_inv s" and r: "r \<in># holds s"
  shows "sys_inv (s\<lparr>sys_pool := release r (sys_pool s), holds := holds s - {#r#}\<rparr>)"
proof -
  let ?p = "sys_pool s"
  have inv: "pool_inv ?p" and rf: "refs_inv s" using s by (auto simp: sys_inv_def)
  have len: "r < length (heap ?p)" using rf r by (auto simp: refs_inv_def)
  have cnt: "unat (e_references (deref ?p r)) = count (holds s) r" using rf len by (simp add: refs_inv_def)
  have pos: "0 < e_references (deref ?p r)"
    using cnt r by (metis count_greater_zero_iff unat_gt_0 word_gt_0)
  then have le: "1 \<le> e_references (deref ?p r)" by (simp add: word_le_nat_alt word_less_nat_alt)
  have dec: "unat (e_references (deref ?p r) - 1) = count (holds s) r - 1"
    using cnt unat_sub [OF le] by simp
  have dq: "deref (release r ?p) x =
      (if x = r then (deref ?p r)\<lparr>e_references := e_references (deref ?p r) - 1\<rparr> else deref ?p x)"
    if "x < length (heap ?p)" for x
    using that pos by (simp add: release_def deref_heap_update)
  have hl: "length (heap (release r ?p)) = length (heap ?p)" by (simp add: release_def)
  have "refs_inv (s\<lparr>sys_pool := release r ?p, holds := holds s - {#r#}\<rparr>)"
    using rf dec dq hl by (auto simp: refs_inv_def size_Diff_singleton r dest: in_diffD)
  then show ?thesis using release_inv [OF inv] by (simp add: sys_inv_def)
qed

lemma pool_step_inv: "pool_step now s t \<Longrightarrow> sys_inv s \<Longrightarrow> sys_inv t"
proof (induction rule: pool_step.induct)
  case (alloc_done s name d now out q)
  then show ?case using alloc_step_sys_inv by blast
next
  case (alloc_start s name d now r u q)
  then have "sys_inv (s\<lparr>sys_pool := q\<rparr>)" using alloc_step_sys_inv by blast
  then show ?case by (simp add: sys_inv_def refs_inv_def)
next
  case (persist_ok s d r u now)
  then have "sys_inv (s\<lparr>sys_pool := forget_deletes (u_Removed u) (sys_pool s)\<rparr>)"
    by (intro sys_inv_pool_update) (auto simp: sys_inv_def forget_deletes_inv)
  then show ?case by (simp add: sys_inv_def refs_inv_def)
next
  case (persist_failed s d r u now)
  then have "sys_inv (s\<lparr>sys_pool := alloc_fail d r (sys_pool s)\<rparr>)"
    by (intro sys_inv_pool_update) (auto simp: sys_inv_def alloc_fail_inv)
  then show ?case by (simp add: sys_inv_def refs_inv_def)
next
  case (flush_start s now)
  then show ?case by simp
next
  case (flush_ok s ds now)
  then have "sys_inv (s\<lparr>sys_pool := forget_deletes ds (sys_pool s)\<rparr>)"
    by (intro sys_inv_pool_update) (auto simp: sys_inv_def forget_deletes_inv)
  then show ?case by (simp add: sys_inv_def refs_inv_def)
next
  case (flush_failed s ds now)
  then show ?case by simp
next
  case (lookup_step now s a)
  then show ?case by (intro sys_inv_pool_update) (auto simp: sys_inv_def lookup_inv)
next
  case (acquire_ok now a s d r q)
  then show ?case by (intro acquire_ok_sys_inv)
next
  case (acquire_failed now a s e q)
  moreover from this have "pool_inv q" using acquire_inv [of "sys_pool s" now a] by (simp add: sys_inv_def)
  ultimately show ?case using acquire_failed_heap by (intro sys_inv_pool_update)
next
  case (release_step r s now)
  then show ?case by (intro release_sys_inv)
next
  case (prune_step now s)
  then show ?case
    using prune_locked_spec(2) prune_locked_frame(2)
    by (intro sys_inv_pool_update) (auto simp: sys_inv_def prune_def Let_def)
qed

lemma reachable_inv:
  assumes "reachable p0 s" and "pool_inv p0" and "\<forall>e \<in> set (heap p0). e_references e = 0"
  shows "sys_inv s"
  using assms(1)
proof (induction rule: reachable.induct)
  case start
  show ?case using assms(2,3) by (simp add: sys_inv_def refs_inv_def deref_def)
next
  case (step s now t)
  then show ?case using pool_step_inv by blast
qed


section \<open>Mappings in use stay\<close>

definition live :: "pool \<Rightarrow> ptr \<Rightarrow> bool" where
  "live p r = (gm_get (byDomain p) (e_domain (deref p r)) = Some r \<and>
               gm_get (byAddress p) (e_address (deref p r)) = Some r)"

definition same_identity :: "pool \<Rightarrow> pool \<Rightarrow> ptr \<Rightarrow> bool" where
  "same_identity p q r =
     (e_domain (deref q r) = e_domain (deref p r) \<and> e_address (deref q r) = e_address (deref p r))"

definition keeps :: "pool \<Rightarrow> pool \<Rightarrow> ptr \<Rightarrow> bool" where
  "keeps p q r = (live q r \<and> same_identity p q r)"

lemma keeps_index:
  assumes "pool_inv q" and "same_identity p q r"
    and "gm_get (byDomain q) (e_domain (deref p r)) = Some r"
  shows "keeps p q r"
  using assms index_inv_domain(4) [OF pool_inv_parts(2) [OF assms(1)], of "e_domain (deref q r)" r]
  by (simp add: keeps_def live_def same_identity_def)

lemma live_len:
  assumes "pool_inv p" and "live p r"
  shows "r < length (heap p)"
  using index_inv_domain(1) [OF pool_inv_parts(2) [OF assms(1)]] assms(2) by (auto simp: live_def)

lemma delete_locked_keeps:
  assumes inv: "pool_inv p" and lr: "live p r" and s: "gm_get (byAddress p) a = Some s" and ne: "s \<noteq> r"
  shows "keeps p (delete_locked s p) r"
proof (rule keeps_index)
  have ls: "gm_get (byDomain p) (e_domain (deref p s)) = Some s"
    using index_inv_address(4) [OF pool_inv_parts(2) [OF inv] s] .
  then show "pool_inv (delete_locked s p)" by (rule pool_inv_delete(2) [OF inv])
  show "same_identity p (delete_locked s p) r" by (simp add: same_identity_def)
  have "e_domain (deref p r) \<noteq> e_domain (deref p s)" using ls lr ne unfolding live_def by (metis option.inject)
  then show "gm_get (byDomain (delete_locked s p)) (e_domain (deref p r)) = Some r"
    using lr by (simp add: live_def)
qed

lemma alloc_begin_keeps:
  assumes inv: "pool_inv p" and can: "canonical d" and lr: "live p r"
    and nr: "\<not> reclaimable now (deref p r)" and out: "alloc_begin now d p = (out, q)"
  shows "keeps p q r"
proof (rule keeps_index)
  show "pool_inv q" using alloc_begin_inv [OF inv can, of now] out by simp
  have len: "r < length (heap p)" using live_len [OF inv lr] .
  have pr: "gm_get (byDomain (prune_locked now p)) (e_domain (deref p r)) = Some r"
    using prune_locked_lookup [OF inv, of now "e_domain (deref p r)"] lr nr by (simp add: live_def)
  have "same_identity p q r \<and> gm_get (byDomain q) (e_domain (deref p r)) = Some r"
    using inv can
  proof (cases rule: alloc_begin_cases [where now = now])
    case (existing s)
    then show ?thesis using out lr by (auto simp: same_identity_def live_def deref_heap_update)
  next
    case full
    then show ?thesis using out pr prune_locked_frame(3) [OF inv, of now] by (auto simp: same_identity_def)
  next
    case (fresh a q')
    then have "q' = q" using out by auto
    moreover have "e_domain (deref p r) \<noteq> d" using fresh(1) lr by (auto simp: live_def)
    ultimately show ?thesis
      using fresh_alloc_result(10,11) [OF fresh(3) inv] len pr by (simp add: same_identity_def)
  qed
  then show "same_identity p q r" "gm_get (byDomain q) (e_domain (deref p r)) = Some r" by blast+
qed

lemma heap_update_keeps:
  assumes "pool_inv p" and "live p r" and "e_domain e = e_domain (deref p s)" "e_address e = e_address (deref p s)"
  shows "keeps p (p\<lparr>heap := (heap p)[s := e]\<rparr>) r"
proof (rule keeps_index)
  show "pool_inv (p\<lparr>heap := (heap p)[s := e]\<rparr>)" using pool_inv_heap_update [OF assms(1,3,4)] .
  show "same_identity p (p\<lparr>heap := (heap p)[s := e]\<rparr>) r"
    using assms(3,4) by (auto simp: same_identity_def deref_heap_update)
qed (use assms(2) in \<open>simp add: live_def\<close>)

lemma forget_deletes_keeps:
  assumes "live p r"
  shows "keeps p (forget_deletes ds p) r"
  using assms by (simp add: keeps_def live_def same_identity_def forget_deletes_def deref_def)

lemma pool_step_keeps:
  assumes "pool_step now s t" and "sys_inv s" and "live (sys_pool s) r"
    and "\<not> reclaimable now (deref (sys_pool s) r)"
    and "\<forall>d u. owner s \<noteq> Allocating d r u"
  shows "keeps (sys_pool s) (sys_pool t) r"
  using assms
proof (induction rule: pool_step.induct)
  case (alloc_done s name d now out q)
  then show ?case using alloc_begin_keeps [OF _ normalize_canonical] by (simp add: sys_inv_def)
next
  case (alloc_start s name d now r' u q)
  then show ?case using alloc_begin_keeps [OF _ normalize_canonical] by (simp add: sys_inv_def)
next
  case (persist_ok s d r' u now)
  then show ?case by (simp add: forget_deletes_keeps)
next
  case (persist_failed s d r' u now)
  let ?p = "sys_pool s"
  have inv: "pool_inv ?p" using persist_failed by (simp add: sys_inv_def)
  have ne: "r' \<noteq> r" using persist_failed by auto
  show ?case
  proof (cases "gm_get (byDomain ?p) d = Some r'")
    case True
    then have dom: "e_domain (deref ?p r') = d" using index_inv_domain(2) [OF pool_inv_parts(2) [OF inv]] by blast
    have "e_domain (deref ?p r) \<noteq> d" using True persist_failed.prems ne by (auto simp: live_def)
    moreover have "pool_inv (delete_untracked r' ?p)" using pool_inv_delete(1) [OF inv] True dom by simp
    ultimately have "keeps ?p (delete_untracked r' ?p) r"
      using persist_failed.prems dom by (intro keeps_index) (simp_all add: same_identity_def live_def)
    then show ?thesis using True by (simp add: alloc_fail_def)
  next
    case False
    then show ?thesis using persist_failed.prems by (simp add: alloc_fail_def keeps_def same_identity_def)
  qed
next
  case (flush_ok s ds now)
  then show ?case by (simp add: forget_deletes_keeps)
next
  case (lookup_step now s a)
  then show ?case
    using delete_locked_keeps [of "sys_pool s" r a]
    by (auto simp: lookup_def sys_inv_def keeps_def same_identity_def split: option.splits)
next
  case (acquire_ok now a s d r' q)
  then show ?case
    using acquire_okD(4) [OF acquire_ok(1)] heap_update_keeps [of "sys_pool s" r _ r'] by (simp add: sys_inv_def)
next
  case (acquire_failed now a s e q)
  then show ?case
    using delete_locked_keeps [of "sys_pool s" r a]
    by (auto simp: acquire_def sys_inv_def keeps_def same_identity_def split: option.splits if_splits)
next
  case (release_step r' s now)
  then show ?case
    using heap_update_keeps [of "sys_pool s" r _ r']
    by (simp add: release_def sys_inv_def keeps_def same_identity_def)
next
  case (prune_step now s)
  let ?p = "sys_pool s"
  have inv: "pool_inv ?p" using prune_step by (simp add: sys_inv_def)
  have "keeps ?p (prune_locked now ?p) r"
    using prune_step prune_locked_spec(2) [OF inv] prune_locked_lookup [OF inv, of now "e_domain (deref ?p r)"]
      prune_locked_frame(3) [OF inv, of now]
    by (intro keeps_index) (simp_all add: same_identity_def live_def)
  then show ?case by (simp add: prune_def Let_def)
qed (simp_all add: keeps_def same_identity_def)

lemma held_not_reclaimable:
  assumes "sys_inv s" and "r \<in># holds s"
  shows "\<not> reclaimable now (deref (sys_pool s) r)"
proof -
  have "r < length (heap (sys_pool s))" using assms by (auto simp: sys_inv_def refs_inv_def)
  then have "unat (e_references (deref (sys_pool s) r)) = count (holds s) r"
    using assms(1) by (simp add: sys_inv_def refs_inv_def)
  then have "e_references (deref (sys_pool s) r) \<noteq> 0"
    using assms(2) by (metis count_greater_zero_iff less_irrefl unsigned_0)
  then show ?thesis by (simp add: reclaimable_def)
qed

end
