(* ===== verification/Netip_Text.thy ===== *)
theory Netip_Text
  imports Netip
begin

text \<open>
  The textual form of an address is read back as the same address: \<open>ParseAddr(a.String()) == a\<close> for
  every IPv4 address and every zone-free IPv6 address that is not IPv4-mapped.  Snapshots and the
  journal of the Fake IP pool rest on it.
\<close>

section \<open>IPv4\<close>

lemma dec_digits_lead: "0 < n \<Longrightarrow> hd (dec_digits n) \<noteq> CHR ''0''"
proof (induction n rule: dec_digits.induct)
  case (1 n)
  show ?case
  proof (cases "n < 10")
    case True
    have "byte (char_of (48 + n)) \<noteq> byte (CHR ''0'')" using True 1(2) by (simp add: byte_char_of)
    then have "char_of (48 + n) \<noteq> CHR ''0''" by metis
    then show ?thesis using True by (subst dec_digits.simps) simp
  next
    case False
    then show ?thesis using 1 by (subst dec_digits.simps) simp
  qed
qed

lemma parse_field4_dec_digits:
  assumes "n < 256"
  shows "parse_field4 (dec_digits n) = Some n"
proof -
  have "dec_digits 0 = ''0''" by code_simp
  then have "\<not> (1 < length (dec_digits n) \<and> hd (dec_digits n) = CHR ''0'')"
    using dec_digits_lead [of n] by (cases "n = 0") auto
  then show ?thesis using parse_uint_dec_digits [OF assms] by (auto simp: parse_field4_def)
qed

lemma dec_digits_no_sep: "c \<in> set (dec_digits n) \<Longrightarrow> is_digit c"
  using dec_digits_digit [of n] by (simp add: list_all_iff)

lemma dec_digits_no_dot: "CHR ''.'' \<notin> set (dec_digits n)"
  using dec_digits_no_sep [of "CHR ''.''" n] by (auto simp: is_digit_def)

lemma split_string4:
  "split_on (CHR ''.'') (dec_digits a @ ''.'' @ dec_digits b @ ''.'' @ dec_digits c @ ''.'' @ dec_digits d) =
   [dec_digits a, dec_digits b, dec_digits c, dec_digits d]"
  by (simp add: split_on_append split_on_plain dec_digits_no_dot)

lemma parse_fields4_string4:
  assumes "a < 256" "b < 256" "c < 256" "d < 256"
  shows "parse_fields4 (dec_digits a @ ''.'' @ dec_digits b @ ''.'' @ dec_digits c @ ''.'' @ dec_digits d) =
         Some (a, b, c, d)"
  unfolding parse_fields4_def split_string4 using assms by (simp add: parse_field4_dec_digits)

lemma fields4_value:
  fixes n :: nat
  shows "((n div 16777216 * 256 + n div 65536 mod 256) * 256 + n div 256 mod 256) * 256 + n mod 256 = n"
proof -
  have "n div 65536 = n div 16777216 * 256 + n div 65536 mod 256"
    using div_mult_mod_eq [of "n div 65536" 256] by (simp add: div_mult2_eq [symmetric])
  moreover have "n div 256 = n div 65536 * 256 + n div 256 mod 256"
    using div_mult_mod_eq [of "n div 256" 256] by (simp add: div_mult2_eq [symmetric])
  ultimately show ?thesis by presburger
qed

lemma find_append_None: "find P xs = None \<Longrightarrow> find P (xs @ ys) = find P ys"
  by (induction xs) (auto split: if_splits)

lemma parse_addr_string4: "parse_addr (string4 w) = Some (V4 w)"
proof -
  let ?n = "unat w"
  have lt: "?n < 4294967296" using unsigned_less [of w, where ?'a = nat] by simp
  then have a: "?n div 16777216 < 256" by (simp add: less_mult_imp_div_less)
  have "find (\<lambda>c. c = CHR ''.'' \<or> c = CHR '':'' \<or> c = CHR ''%'') (dec_digits (?n div 16777216)) = None"
    using dec_digits_no_sep by (fastforce simp: find_None_iff is_digit_def)
  then have "find (\<lambda>c. c = CHR ''.'' \<or> c = CHR '':'' \<or> c = CHR ''%'') (string4 w) = Some (CHR ''.'')"
    by (simp add: string4_def Let_def find_append_None)
  moreover have "word_of_fields4 (?n div 16777216, ?n div 65536 mod 256, ?n div 256 mod 256, ?n mod 256) = w"
    by (simp only: word_of_fields4_def prod.case fields4_value) simp
  then have "parse_ipv4 (string4 w) = Some (V4 w)"
    using parse_fields4_string4 [OF a, of "?n div 65536 mod 256" "?n div 256 mod 256" "?n mod 256"]
    by (simp add: parse_ipv4_def string4_def Let_def)
  ultimately show ?thesis by (simp add: parse_addr_def)
qed


section \<open>IPv6\<close>

definition hex_char :: "nat \<Rightarrow> char" where
  "hex_char k = char_of ((if k < 10 then 48 else 87) + k)"

lemma hex_digit_hex_char: "k < 16 \<Longrightarrow> hex_digit (hex_char k) = Some k"
  by (auto simp: hex_char_def hex_digit_def is_digit_def byte_char_of)

lemma hex_digits_unfold:
  "hex_digits n = (if n < 16 then [hex_char n] else hex_digits (n div 16) @ [hex_char (n mod 16)])"
  by (subst hex_digits.simps) (simp add: hex_char_def Let_def)

lemma hex_digits_ne [simp]: "hex_digits n \<noteq> []"
  by (subst hex_digits_unfold) simp

lemma hex_digits_hex: "c \<in> set (hex_digits n) \<Longrightarrow> hex_digit c \<noteq> None"
proof (induction n rule: hex_digits.induct)
  case (1 n)
  show ?case
  proof (cases "n < 16")
    case True
    then show ?thesis using 1(2) hex_digit_hex_char [of n] by (simp add: hex_digits_unfold [of n])
  next
    case False
    then have "c \<in> set (hex_digits (n div 16)) \<or> c = hex_char (n mod 16)"
      using 1(2) by (auto simp: hex_digits_unfold [of n])
    then show ?thesis using 1(1) [OF refl False] hex_digit_hex_char [of "n mod 16"] by auto
  qed
qed

lemma hex_value_snoc:
  "hex_value (s @ [c]) = 16 * hex_value s + (case hex_digit c of None \<Rightarrow> 0 | Some d \<Rightarrow> d)"
  by (simp add: hex_value_def)

lemma hex_value_hex_digits: "hex_value (hex_digits n) = n"
proof (induction n rule: hex_digits.induct)
  case (1 n)
  show ?case
  proof (cases "n < 16")
    case True
    then show ?thesis by (simp add: hex_digits_unfold [of n] hex_value_def hex_digit_hex_char)
  next
    case False
    then show ?thesis using 1 [OF refl False]
      by (simp add: hex_digits_unfold [of n] hex_value_snoc hex_digit_hex_char)
  qed
qed

lemma length_hex_digits: "n < 16 ^ Suc k \<Longrightarrow> length (hex_digits n) \<le> Suc k"
proof (induction k arbitrary: n)
  case 0
  then show ?case by (simp add: hex_digits_unfold [of n])
next
  case (Suc k)
  show ?case
  proof (cases "n < 16")
    case True
    then show ?thesis by (simp add: hex_digits_unfold [of n])
  next
    case False
    have "n div 16 < 16 ^ Suc k" using Suc.prems by (simp add: less_mult_imp_div_less mult.commute)
    from Suc.IH [OF this] False show ?thesis by (simp add: hex_digits_unfold [of n])
  qed
qed

lemma length_hex_digits_group: "n < 65536 \<Longrightarrow> length (hex_digits n) \<le> 4"
  using length_hex_digits [of n 3] by simp

text \<open>\<open>join_groups\<close> without the positions.\<close>

fun join6 :: "nat list \<Rightarrow> string" where
  "join6 [] = []"
| "join6 [g] = hex_digits g"
| "join6 (g # gs) = hex_digits g @ CHR '':'' # join6 gs"

lemma join_tail:
  "concat (map (\<lambda>(i, g). (if i = 0 then [] else '':'') @ hex_digits g) (zip [Suc k..<Suc k + length gs] gs)) =
   (if gs = [] then [] else CHR '':'' # join6 gs)"
proof (induction gs arbitrary: k)
  case Nil
  then show ?case by simp
next
  case (Cons g gs)
  have "[Suc k..<Suc k + length (g # gs)] = Suc k # [Suc (Suc k)..<Suc (Suc k) + length gs]"
    using upt_conv_Cons [of "Suc k" "Suc k + length (g # gs)"] by simp
  then show ?case using Cons.IH [of "Suc k"] by (cases gs) (simp_all del: upt_Suc)
qed

lemma join_groups_join6: "join_groups gs = join6 gs"
proof (cases gs)
  case Nil
  then show ?thesis by (simp add: join_groups_def)
next
  case (Cons g hs)
  have "[0..<length (g # hs)] = 0 # [Suc 0..<Suc 0 + length hs]"
    using upt_conv_Cons [of 0 "length (g # hs)"] by simp
  then show ?thesis
    using join_tail [of 0 hs] Cons by (cases hs) (simp_all add: join_groups_def del: upt_Suc)
qed

abbreviation groups_ok :: "nat list \<Rightarrow> bool" where
  "groups_ok gs \<equiv> \<forall>g \<in> set gs. g < 65536"

lemma colon_not_hex: "hex_digit (CHR '':'') = None"
  by code_simp

lemma take_hex: "takeWhile (\<lambda>c. hex_digit c \<noteq> None) (hex_digits g @ CHR '':'' # s) = hex_digits g"
  using hex_digits_hex [of _ g] by (subst takeWhile_append2) (auto simp: colon_not_hex)

lemma take_hex_end: "takeWhile (\<lambda>c. hex_digit c \<noteq> None) (hex_digits g) = hex_digits g"
  using hex_digits_hex [of _ g] by simp

lemma join6_hd: "gs \<noteq> [] \<Longrightarrow> join6 gs \<noteq> [] \<and> hex_digit (hd (join6 gs)) \<noteq> None"
  using hex_digits_hex [OF hd_in_set [OF hex_digits_ne]] by (cases gs rule: join6.cases) auto

lemma hex_not_double: "s \<noteq> [] \<Longrightarrow> hex_digit (hd s) \<noteq> None \<Longrightarrow> \<not> has_prefix (s @ t) ''::''"
  using colon_not_hex by (cases s) (auto simp: has_prefix_def)

lemma parse6_last:
  assumes "length acc < 8" and "g < 65536"
  shows "parse6_loop acc ell (hex_digits g) = Some (acc @ [g], ell)"
  using assms length_hex_digits_group [OF assms(2)]
  by (subst parse6_loop.simps) (simp add: Let_def take_hex_end hex_value_hex_digits del: not_None_eq)

lemma parse6_colon:
  assumes "length acc < 8" and "g < 65536" and "s \<noteq> []" and "hd s \<noteq> CHR '':''"
  shows "parse6_loop acc ell (hex_digits g @ CHR '':'' # s) = parse6_loop (acc @ [g]) ell s"
  using assms length_hex_digits_group [OF assms(2)]
  by (subst parse6_loop.simps) (simp add: Let_def take_hex hex_value_hex_digits del: not_None_eq)


lemma parse6_double:
  assumes "length acc < 8" and "g < 65536"
  shows "parse6_loop acc None (hex_digits g @ CHR '':'' # CHR '':'' # s) =
    (if s = [] then Some (acc @ [g], Some (Suc (length acc)))
     else parse6_loop (acc @ [g]) (Some (Suc (length acc))) s)"
  using assms length_hex_digits_group [OF assms(2)]
  by (subst parse6_loop.simps) (simp add: Let_def take_hex hex_value_hex_digits del: not_None_eq)

lemma parse6_join:
  assumes "groups_ok gs" and "gs \<noteq> []" and "length acc + length gs \<le> 8"
  shows "parse6_loop acc ell (join6 gs) = Some (acc @ gs, ell)"
  using assms
proof (induction gs arbitrary: acc rule: join6.induct)
  case 1
  then show ?case by simp
next
  case (2 g)
  then show ?case by (simp add: parse6_last)
next
  case (3 g h gs)
  have "hd (join6 (h # gs)) \<noteq> CHR '':''" using join6_hd [of "h # gs"] colon_not_hex by auto
  then have "parse6_loop acc ell (join6 (g # h # gs)) = parse6_loop (acc @ [g]) ell (join6 (h # gs))"
    using 3 join6_hd [of "h # gs"] parse6_colon [of acc g "join6 (h # gs)" ell] by simp
  then show ?case using 3 by simp
qed

lemma parse6_join_double:
  assumes "groups_ok gs" and "gs \<noteq> []" and "length acc + length gs < 8"
  shows "parse6_loop acc None (join6 gs @ CHR '':'' # CHR '':'' # s) =
    (if s = [] then Some (acc @ gs, Some (length acc + length gs))
     else parse6_loop (acc @ gs) (Some (length acc + length gs)) s)"
  using assms
proof (induction gs arbitrary: acc rule: join6.induct)
  case 1
  then show ?case by simp
next
  case (2 g)
  then show ?case by (simp add: parse6_double)
next
  case (3 g h gs)
  let ?t = "join6 (h # gs) @ CHR '':'' # CHR '':'' # s"
  have "?t \<noteq> []" "hd ?t \<noteq> CHR '':''" using join6_hd [of "h # gs"] colon_not_hex by auto
  then have "parse6_loop acc None (join6 (g # h # gs) @ CHR '':'' # CHR '':'' # s) = parse6_loop (acc @ [g]) None ?t"
    using 3 parse6_colon [of acc g ?t None] by simp
  then show ?case using 3 by simp
qed

text \<open>The run \<open>zero_run\<close> finds consists of zeros.\<close>

definition run_ok :: "nat list \<Rightarrow> nat \<times> nat \<Rightarrow> bool" where
  "run_ok gs = (\<lambda>(zs, ze). (zs = 255 \<and> ze = 255) \<or>
     (zs + 2 \<le> ze \<and> ze \<le> length gs \<and> (\<forall>k. zs \<le> k \<and> k < ze \<longrightarrow> gs ! k = 0)))"

lemma zero_run_step:
  assumes "run_ok gs (zs, ze)"
  shows "run_ok gs (let j = i + length (takeWhile (\<lambda>g. g = 0) (drop i gs))
           in if 2 \<le> j - i \<and> ze - zs < j - i then (i, j) else (zs, ze))"
proof -
  let ?t = "takeWhile (\<lambda>g. g = 0) (drop i gs)"
  have len: "length ?t \<le> length gs - i" by (metis length_drop length_takeWhile_le)
  have zero: "gs ! k = 0" if "i \<le> k" "k < i + length ?t" for k
    using that len nth_mem [of "k - i" ?t] set_takeWhileD [of "?t ! (k - i)" "\<lambda>g. g = 0" "drop i gs"]
      takeWhile_nth [of "k - i" "\<lambda>g. g = 0" "drop i gs"] by (simp add: less_diff_conv2)
  show ?thesis
  proof (cases "2 \<le> length ?t")
    case True
    then have "i + length ?t \<le> length gs" using len by linarith
    then show ?thesis using True zero assms by (auto simp: Let_def run_ok_def)
  next
    case False
    then show ?thesis using assms by (simp add: Let_def)
  qed
qed

lemma foldl_invariant: "I p \<Longrightarrow> (\<And>p i. I p \<Longrightarrow> I (f p i)) \<Longrightarrow> I (foldl f p is)"
  by (induction "is" arbitrary: p) auto

lemma zero_run_ok: "run_ok gs (zero_run gs)"
  unfolding zero_run_def
proof (rule foldl_invariant)
  fix p :: "nat \<times> nat" and i
  assume "run_ok gs p"
  then show "run_ok gs ((\<lambda>(zs, ze) i. let j = i + length (takeWhile (\<lambda>g. g = 0) (drop i gs))
       in if 2 \<le> j - i \<and> ze - zs < j - i then (i, j) else (zs, ze)) p i)"
    using zero_run_step [of gs "fst p" "snd p" i] by (simp only: split_beta prod.collapse)
qed (simp add: run_ok_def)

lemma expand_run:
  assumes "length gs = 8" and "zs + 2 \<le> ze" and "ze \<le> 8" and "\<forall>k. zs \<le> k \<and> k < ze \<longrightarrow> gs ! k = 0"
  shows "expand_groups (take zs gs @ drop ze gs) (Some zs) = Some gs"
proof -
  have "take zs gs @ replicate (ze - zs) 0 @ drop ze gs = gs"
  proof (rule nth_equalityI)
    show "length (take zs gs @ replicate (ze - zs) 0 @ drop ze gs) = length gs" using assms by simp
    show "(take zs gs @ replicate (ze - zs) 0 @ drop ze gs) ! k = gs ! k"
      if "k < length (take zs gs @ replicate (ze - zs) 0 @ drop ze gs)" for k
      using that assms by (auto simp: nth_append not_less)
  qed
  then show ?thesis using assms by (simp add: expand_groups_def)
qed

lemma groups_of_length [simp]: "length (groups_of w) = 8"
  by (simp add: groups_of_def)

lemma groups_of_ok: "groups_ok (groups_of w)"
  by (auto simp: groups_of_def)

lemma groups_fold:
  fixes n :: nat
  shows "foldl (\<lambda>a g. a * 65536 + g) 0 (map (\<lambda>i. n div 65536 ^ (k - i) mod 65536) [0..<Suc k]) =
         n mod 65536 ^ Suc k"
proof (induction k arbitrary: n)
  case 0
  then show ?case by simp
next
  case (Suc k)
  have "map (\<lambda>i. n div 65536 ^ (Suc k - i) mod 65536) [0..<Suc (Suc k)] =
      map (\<lambda>i. n div 65536 div 65536 ^ (k - i) mod 65536) [0..<Suc k] @ [n mod 65536]"
    by (auto simp: Suc_diff_le div_mult2_eq)
  then have "foldl (\<lambda>a g. a * 65536 + g) 0 (map (\<lambda>i. n div 65536 ^ (Suc k - i) mod 65536) [0..<Suc (Suc k)]) =
      n div 65536 mod 65536 ^ Suc k * 65536 + n mod 65536"
    using Suc [of "n div 65536"] by (simp del: upt_Suc)
  also have "\<dots> = n mod 65536 ^ Suc (Suc k)"
    using mod_mult2_eq [of n 65536 "65536 ^ Suc k"] by (simp add: mult.commute)
  finally show ?case .
qed

lemma word_of_groups_of: "word_of_groups (groups_of w) = w"
proof -
  have "unat w < 65536 ^ 8" using unsigned_less [of w, where ?'a = nat] by simp
  then have "foldl (\<lambda>a g. a * 65536 + g) 0 (groups_of w) = unat w"
    using groups_fold [of "unat w" 7] unfolding groups_of_def by simp
  then show ?thesis by (simp add: word_of_groups_def)
qed

lemma parse6_string6:
  "\<exists>gs ell. expand_groups gs ell = Some (groups_of w) \<and>
     (if has_prefix (string6 w) ''::'' then parse6_loop [] (Some 0) (drop 2 (string6 w))
      else parse6_loop [] None (string6 w)) = Some (gs, ell) \<or> string6 w = ''::'' \<and> groups_of w = replicate 8 0"
proof -
  obtain zs ze where z: "zero_run (groups_of w) = (zs, ze)" by (cases "zero_run (groups_of w)")
  have ok: "groups_ok (take zs (groups_of w))" "groups_ok (drop ze (groups_of w))"
    using groups_of_ok [of w] by (auto dest: in_set_takeD in_set_dropD)
  show ?thesis
  proof (cases "zs = 255")
    case True
    have "string6 w = join6 (groups_of w)" using True z by (simp add: string6_def join_groups_join6)
    moreover have "groups_of w \<noteq> []" by (metis groups_of_length list.size(3) zero_neq_numeral)
    moreover from this have "\<not> has_prefix (join6 (groups_of w)) ''::''"
      using join6_hd [of "groups_of w"] hex_not_double [of "join6 (groups_of w)" "[]"] by simp
    ultimately show ?thesis
      using parse6_join [OF groups_of_ok, of w "[]" None] by (auto simp: expand_groups_def)
  next
    case False
    then have run: "zs + 2 \<le> ze" "ze \<le> 8" "\<forall>k. zs \<le> k \<and> k < ze \<longrightarrow> groups_of w ! k = 0"
      using zero_run_ok [of "groups_of w"] z by (auto simp: run_ok_def)
    let ?a = "take zs (groups_of w)" and ?b = "drop ze (groups_of w)"
    have s: "string6 w = join6 ?a @ CHR '':'' # CHR '':'' # join6 ?b"
      using False z by (simp add: string6_def join_groups_join6 Let_def)
    have ex: "expand_groups (?a @ ?b) (Some zs) = Some (groups_of w)" using expand_run [OF _ run] by simp
    have la: "length ?a = zs" "length ?a + length ?b \<le> 8" using run by auto
    have jb: "join6 ?b = [] \<longleftrightarrow> ?b = []" using join6_hd [of ?b] by auto
    show ?thesis
    proof (cases "?a = []")
      case True
      then have zs0: "zs = 0" using la(1) by (metis list.size(3))
      show ?thesis
      proof (cases "?b = []")
        case True
        then have "ze = 8" using run by simp
        then have "groups_of w = replicate 8 0" using run zs0 by (intro nth_equalityI) auto
        moreover have "string6 w = ''::''" using s True \<open>?a = []\<close> by simp
        ultimately show ?thesis by blast
      next
        case False
        then have "parse6_loop [] (Some 0) (join6 ?b) = Some (?a @ ?b, Some zs)"
          using parse6_join [OF ok(2) False, of "[]" "Some 0"] la zs0 \<open>?a = []\<close> by simp
        moreover have "has_prefix (string6 w) ''::''" "drop 2 (string6 w) = join6 ?b"
          using s \<open>?a = []\<close> by (simp_all add: has_prefix_def)
        ultimately show ?thesis using ex by auto
      qed
    next
      case False
      have np: "\<not> has_prefix (string6 w) ''::''"
        using join6_hd [OF False] hex_not_double [of "join6 ?a"] s by simp
      have "parse6_loop [] None (string6 w) =
          (if join6 ?b = [] then Some (?a, Some zs) else parse6_loop ?a (Some zs) (join6 ?b))"
        using parse6_join_double [OF ok(1) False, of "[]" "join6 ?b"] la run s by simp
      also have "\<dots> = Some (?a @ ?b, Some zs)"
        using parse6_join [OF ok(2), of ?a "Some zs"] la(2) jb by (cases "?b = []") simp_all
      finally show ?thesis using np ex by auto
    qed
  qed
qed

lemma string6_chars: "c \<in> set (string6 w) \<Longrightarrow> hex_digit c \<noteq> None \<or> c = CHR '':''"
proof -
  have j: "c \<in> set (join6 gs) \<Longrightarrow> hex_digit c \<noteq> None \<or> c = CHR '':''" for gs
    using hex_digits_hex by (induction gs rule: join6.induct) auto
  assume "c \<in> set (string6 w)"
  then show ?thesis
    using j by (auto simp: string6_def join_groups_join6 Let_def split_beta split: if_splits)
qed

lemma string6_no_percent: "CHR ''%'' \<notin> set (string6 w)" "CHR ''.'' \<notin> set (string6 w)"
proof -
  have "hex_digit (CHR ''%'') = None" "hex_digit (CHR ''.'') = None" by code_simp+
  then show "CHR ''%'' \<notin> set (string6 w)" "CHR ''.'' \<notin> set (string6 w)"
    using string6_chars [of "CHR ''%''" w] string6_chars [of "CHR ''.''" w] by auto
qed

lemma string6_colon: "CHR '':'' \<in> set (string6 w)"
proof (cases "fst (zero_run (groups_of w)) = 255")
  case True
  obtain a b gs where "groups_of w = a # b # gs"
    by (simp add: groups_of_def upt_rec)
  with True show ?thesis by (auto simp: string6_def join_groups_join6 split_beta Let_def)
next
  case False
  then show ?thesis by (simp add: string6_def split_beta Let_def)
qed

lemma zero_groups: "word_of_groups (replicate 8 0) = 0"
  by code_simp

lemma parse_ipv6_string6: "parse_ipv6 (string6 w) = Some (V6 w [])"
proof -
  have tw: "takeWhile (\<lambda>c. c \<noteq> CHR ''%'') (string6 w) = string6 w"
    using string6_no_percent(1) by (intro takeWhile_eq_all_conv [THEN iffD2]) auto
  show ?thesis
  proof (cases "string6 w = ''::''")
    case True
    moreover have "groups_of w = replicate 8 0"
    proof -
      from True have "parse6_loop [] (Some 0) [] = None" by code_simp
      then show ?thesis using parse6_string6 [of w] True by (auto simp: has_prefix_def)
    qed
    then have "w = 0"
      using word_of_groups_of [of w] zero_groups by metis
    ultimately show ?thesis by (simp add: parse_ipv6_def Let_def)
  next
    case False
    then obtain gs ell where "expand_groups gs ell = Some (groups_of w)"
      "(if has_prefix (string6 w) ''::'' then parse6_loop [] (Some 0) (drop 2 (string6 w))
        else parse6_loop [] None (string6 w)) = Some (gs, ell)"
      using parse6_string6 [of w] by blast
    then show ?thesis using False by (simp add: parse_ipv6_def tw Let_def word_of_groups_of)
  qed
qed

lemma parse_addr_string6: "parse_addr (string6 w) = Some (V6 w [])"
proof -
  let ?P = "\<lambda>c. c = CHR ''.'' \<or> c = CHR '':'' \<or> c = CHR ''%''"
  obtain c where c: "find ?P (string6 w) = Some c"
    using string6_colon [of w] by (cases "find ?P (string6 w)") (auto simp: find_None_iff)
  then have "c \<in> set (string6 w) \<and> ?P c" by (auto simp: find_Some_iff in_set_conv_nth)
  then have "c = CHR '':''" using string6_no_percent [of w] by auto
  then show ?thesis using c parse_ipv6_string6 by (simp add: parse_addr_def)
qed

lemma parse_addr_string:
  assumes "is_valid a" and "addr_zone a = []" and "\<not> is4in6 a"
  shows "parse_addr (addr_string a) = Some a"
  using assms parse_addr_string4 parse_addr_string6 by (cases a) auto

end
