(* ===== verification/Fakeip_Restore.thy ===== *)
theory Fakeip_Restore
  imports Fakeip_Invariant Netip_Text
begin

text \<open>
  Restoring a pool from a snapshot and a journal (\<open>restore\<close>, \<open>restoreJournal\<close>), against an abstract
  view of the pool: the partial map from domains to addresses and expiry times.  A snapshot gives
  back exactly the view it was taken from, up to the protection window; a journal record acts on
  the view as one abstract update.
\<close>

section \<open>The view\<close>

type_synonym mview = "string \<Rightarrow> (addr \<times> gotime) option"

definition view :: "pool \<Rightarrow> mview" where
  "view p d = map_option (\<lambda>r. (e_address (deref p r), e_expiresAt (deref p r))) (gm_get (byDomain p) d)"

definition view_put :: "string \<Rightarrow> addr \<Rightarrow> gotime \<Rightarrow> mview \<Rightarrow> mview" where
  "view_put d a x v = v(d \<mapsto> (a, x))"

definition view_drop :: "string set \<Rightarrow> mview \<Rightarrow> mview" where
  "view_drop ds v = (\<lambda>d. if d \<in> ds then None else v d)"

definition view_evict :: "addr \<Rightarrow> mview \<Rightarrow> mview" where
  "view_evict a v = (\<lambda>d. case v d of None \<Rightarrow> None | Some (b, x) \<Rightarrow> if b = a then None else Some (b, x))"

text \<open>A journal record, decoded: the removed domains, then the domain, address and expiry it adds.\<close>

type_synonym mupdate = "string set \<times> string \<times> addr \<times> gotime"

fun view_update :: "mview \<Rightarrow> mupdate \<Rightarrow> mview" where
  "view_update v (ds, d, a, x) = view_put d a x (view_evict a (view_drop (insert d ds) v))"

lemma view_Nil [simp]: "view (p\<lparr>byDomain := [], byAddress := as\<rparr>) = Map.empty"
  by (simp add: view_def fun_eq_iff)

lemma view_insert:
  assumes "index_inv p"
  shows "view (insert_entry d a x p) = view_put d a x (view p)"
proof
  fix e
  have old: "r < length (heap p)" if "gm_get (byDomain p) e = Some r" for r
    using index_inv_domain(1) [OF assms that] .
  show "view (insert_entry d a x p) e = view_put d a x (view p) e"
    using old by (cases "gm_get (byDomain p) e") (auto simp: view_def view_put_def deref_def nth_append)
qed


section \<open>Restoring a snapshot\<close>

lemma validate_mapping_ok:
  assumes st: "pool_static p" and v: "validate_mapping p item t i = Inr (d, a, x)"
  shows "normalize (m_Domain item) = Inr d" "parse_addr (m_Address item) = Some a" "in_pool p a"
    "canonical d" "x = max (m_ExpiresAt item) t"
proof -
  from v show n: "normalize (m_Domain item) = Inr d" and pa: "parse_addr (m_Address item) = Some a"
    and "x = max (m_ExpiresAt item) t"
    by (auto simp: validate_mapping_def split: sum.splits option.splits if_splits)
  show "canonical d" using n by (rule normalize_canonical)
  have b: "bit_len a = bit_len (pfx_addr (p_prefix p))" and lo: "p_start p \<le> a" and hi: "a < p_end p"
    and z: "addr_zone a = []"
    using v n pa by (auto simp: validate_mapping_def pfx_contains_def not_less not_le split: if_splits)
  have "bit_len a = bit_len (p_start p)" "bit_len a = bit_len (p_end p)"
    "addr_zone (p_start p) = addr_zone a" "addr_zone (p_end p) = addr_zone a"
    using st b z by (simp_all add: pool_static_def)
  then show "in_pool p a"
    using lo hi z addr_less_val [of "p_start p" a] addr_less_val [of a "p_end p"] by (simp add: in_pool_def)
qed

lemma validate_mapping_frame:
  assumes "same_frame p q"
  shows "validate_mapping q item t i = validate_mapping p item t i"
  using assms by (auto simp: validate_mapping_def same_frame_def split: sum.splits option.splits)

text \<open>What one accepted item stands for.\<close>

definition decodes :: "gotime \<Rightarrow> mapping_rec \<Rightarrow> string \<times> addr \<times> gotime \<Rightarrow> bool" where
  "decodes t item = (\<lambda>(d, a, x). normalize (m_Domain item) = Inr d \<and>
     parse_addr (m_Address item) = Some a \<and> x = max (m_ExpiresAt item) t)"

definition put_all :: "mview \<Rightarrow> (string \<times> addr \<times> gotime) list \<Rightarrow> mview" where
  "put_all v ms = foldl (\<lambda>v (d, a, x). view_put d a x v) v ms"

lemma put_all_simps [simp]:
  "put_all v [] = v" "put_all v ((d, a, x) # ms) = put_all (view_put d a x v) ms"
  by (simp_all add: put_all_def)

lemma restore_loop_spec:
  assumes "pool_inv p" and "restore_loop t i items p = Inr q"
    and "int (length (byDomain p)) + int (length items) \<le> maxMappings p"
  shows "pool_inv q \<and> same_frame p q \<and> persist_set q = persist_set p \<and> pendingDeletes q = pendingDeletes p \<and>
         length (byDomain q) = length (byDomain p) + length items \<and>
         (\<exists>ms. list_all2 (decodes t) items ms \<and> view q = put_all (view p) ms)"
  using assms
proof (induction items arbitrary: i p)
  case Nil
  then show ?case by simp
next
  case (Cons item items)
  obtain d a x where v: "validate_mapping p item t i = Inr (d, a, x)"
    and free: "gm_get (byDomain p) d = None" "gm_get (byAddress p) a = None"
    and rest: "restore_loop t (Suc i) items (insert_entry d a x p) = Inr q"
    using Cons.prems(2) by (auto simp: bindE_Inr_iff split: if_splits)
  note ok = validate_mapping_ok [OF pool_inv_parts(1) [OF Cons.prems(1)] v]
  have inv: "pool_inv (insert_entry d a x p)"
    using pool_inv_insert [OF Cons.prems(1) free ok(3,4)] Cons.prems(3) by simp
  have len: "length (byDomain (insert_entry d a x p)) = Suc (length (byDomain p))"
    using gm.len_put [of "byDomain p" d] free(1) pool_inv_parts(2) [OF Cons.prems(1)]
    by (simp add: index_inv_def)
  have vw: "view (insert_entry d a x p) = view_put d a x (view p)"
    by (rule view_insert [OF pool_inv_parts(2) [OF Cons.prems(1)]])
  have dec: "decodes t item (d, a, x)" using ok by (simp add: decodes_def)
  obtain ms where IH: "pool_inv q" "same_frame (insert_entry d a x p) q" "persist_set q = persist_set p"
    "pendingDeletes q = pendingDeletes p" "length (byDomain q) = Suc (length (byDomain p)) + length items"
    "list_all2 (decodes t) items ms" "view q = put_all (view_put d a x (view p)) ms"
    using Cons.IH [OF inv rest] Cons.prems(3) len vw by auto
  have "list_all2 (decodes t) (item # items) ((d, a, x) # ms) \<and> view q = put_all (view p) ((d, a, x) # ms)"
    using IH(6,7) dec by simp
  then show ?case using IH(1-5) same_frame_trans [OF insert_entry_frame(1) IH(2)] by auto
qed

lemma pool_inv_clear:
  assumes "pool_inv p"
  shows "pool_inv (p\<lparr>byDomain := [], byAddress := []\<rparr>)"
proof (rule pool_inv_frame [OF assms])
  show "same_frame p (p\<lparr>byDomain := [], byAddress := []\<rparr>)" by (simp add: same_frame_def)
qed (use pool_inv_parts [OF assms] in \<open>auto simp: index_inv_def pool_static_def\<close>)

lemma restore_spec:
  assumes "pool_inv p" and "restore now s w p = Inr q"
  shows "pool_inv q" "same_frame p q"
    "\<exists>ms. list_all2 (decodes (now + w)) (s_Mappings s) ms \<and> view q = put_all Map.empty ms"
    "length (byDomain q) = length (s_Mappings s)"
proof -
  let ?p = "p\<lparr>byDomain := [], byAddress := []\<rparr>"
  have "restore_loop (now + w) 0 (s_Mappings s) ?p = Inr q"
    and "int (length (s_Mappings s)) \<le> maxMappings p"
    using assms(2) by (auto simp: restore_def split: if_splits)
  then have R: "pool_inv q \<and> same_frame ?p q \<and> length (byDomain q) = length (s_Mappings s) \<and>
      (\<exists>ms. list_all2 (decodes (now + w)) (s_Mappings s) ms \<and> view q = put_all (view ?p) ms)"
    using restore_loop_spec [OF pool_inv_clear [OF assms(1)]] by fastforce
  then show "pool_inv q" "length (byDomain q) = length (s_Mappings s)"
    "\<exists>ms. list_all2 (decodes (now + w)) (s_Mappings s) ms \<and> view q = put_all Map.empty ms" by simp_all
  show "same_frame p q" using R by (simp add: same_frame_def)
qed


section \<open>Replaying a journal\<close>

lemma drop_domain_delete:
  assumes "gm_get (byDomain p) d = Some r" and "index_inv p"
  shows "drop_domain d p = delete_untracked r p"
  using assms index_inv_domain(2) [OF assms(2,1)] by (simp add: drop_domain_def delete_untracked_def)

lemma drop_address_delete:
  assumes "gm_get (byAddress p) a = Some r" and "index_inv p"
  shows "drop_address a p = delete_untracked r p"
  using assms index_inv_address(2) [OF assms(2,1)] by (simp add: drop_address_def delete_untracked_def)

lemma drop_domain_inv:
  assumes "pool_inv p"
  shows "pool_inv (drop_domain d p)"
  using assms pool_inv_delete(1) [OF assms] drop_domain_delete [OF _ pool_inv_parts(2) [OF assms], of d]
    index_inv_domain(2) [OF pool_inv_parts(2) [OF assms], of d]
  by (cases "gm_get (byDomain p) d") (auto simp: drop_domain_def)

lemma drop_address_inv:
  assumes "pool_inv p"
  shows "pool_inv (drop_address a p)"
  using assms pool_inv_delete(1) [OF assms] drop_address_delete [OF _ pool_inv_parts(2) [OF assms], of a]
    index_inv_address(4) [OF pool_inv_parts(2) [OF assms], of a]
  by (cases "gm_get (byAddress p) a") (auto simp: drop_address_def)

lemma drop_frame [simp]:
  "same_frame p (drop_domain d p)" "same_frame p (drop_address a p)"
  "heap (drop_domain d p) = heap p" "heap (drop_address a p) = heap p"
  "persist_set (drop_domain d p) = persist_set p" "persist_set (drop_address a p) = persist_set p"
  "maxMappings (drop_domain d p) = maxMappings p" "maxMappings (drop_address a p) = maxMappings p"
  by (auto simp: drop_domain_def drop_address_def same_frame_def split: option.split)

lemma view_drop_domain: "view (drop_domain d p) = view_drop {d} (view p)"
  by (auto simp: fun_eq_iff view_def view_drop_def drop_domain_def deref_def split: option.split)

lemma view_drop_address:
  assumes "index_inv p"
  shows "view (drop_address a p) = view_evict a (view p)"
proof
  fix d
  show "view (drop_address a p) d = view_evict a (view p) d"
  proof (cases "gm_get (byAddress p) a")
    case None
    have "e_address (deref p r) \<noteq> a" if "gm_get (byDomain p) d = Some r" for r
      using index_inv_domain(4) [OF assms that] None by auto
    then show ?thesis
      using None by (cases "gm_get (byDomain p) d") (auto simp: drop_address_def view_def view_evict_def)
  next
    case (Some s)
    have "e_address (deref p r) = a \<longleftrightarrow> d = e_domain (deref p s)" if r: "gm_get (byDomain p) d = Some r" for r
      using index_inv_domain(2,4) [OF assms r] index_inv_address(2,4) [OF assms Some] r Some
      by (metis option.inject)
    then show ?thesis
      using Some
      by (cases "gm_get (byDomain p) d") (auto simp: drop_address_def view_def view_evict_def deref_def)
  qed
qed

lemma drop_removed_spec:
  assumes "pool_inv p" and "drop_removed i j ds p = Inr q"
  shows "pool_inv q \<and> same_frame p q \<and> persist_set q = persist_set p \<and>
         (\<exists>ns. list_all2 (\<lambda>d n. normalize d = Inr n) ds ns \<and> view q = view_drop (set ns) (view p))"
  using assms
proof (induction ds arbitrary: j p)
  case Nil
  then show ?case by (simp add: view_drop_def)
next
  case (Cons d ds)
  obtain n where n: "normalize d = Inr n" and rest: "drop_removed i (Suc j) ds (drop_domain n p) = Inr q"
    using Cons.prems(2) by (auto split: sum.splits)
  obtain ns where IH: "pool_inv q" "same_frame (drop_domain n p) q" "persist_set q = persist_set p"
    "list_all2 (\<lambda>d n. normalize d = Inr n) ds ns" "view q = view_drop (set ns) (view (drop_domain n p))"
    using Cons.IH [OF drop_domain_inv [OF Cons.prems(1)] rest] by auto
  have "view q = view_drop (set (n # ns)) (view p)"
    using IH(5) by (auto simp: view_drop_domain view_drop_def fun_eq_iff)
  moreover have "list_all2 (\<lambda>d n. normalize d = Inr n) (d # ds) (n # ns)" using n IH(4) by simp
  ultimately show ?case using IH(1,3) same_frame_trans [OF drop_frame(1) IH(2)] by blast
qed

text \<open>What one accepted journal record stands for.\<close>

definition decodes_update :: "gotime \<Rightarrow> persistence_update \<Rightarrow> mupdate \<Rightarrow> bool" where
  "decodes_update t u = (\<lambda>(ds, m). decodes t (u_Mapping u) m \<and>
     (\<exists>ns. list_all2 (\<lambda>d n. normalize d = Inr n) (u_Removed u) ns \<and> ds = set ns))"

lemma journal_record_spec:
  assumes inv: "pool_inv p" and dr: "drop_removed i 0 (u_Removed u) p = Inr q"
    and v: "validate_mapping q (u_Mapping u) t i = Inr (d, a, x)"
    and q': "q' = drop_address a (drop_domain d q)"
    and lim: "int (length (byDomain q')) < maxMappings q'"
  shows "pool_inv (insert_entry d a x q')" "same_frame p (insert_entry d a x q')"
    "\<exists>m. decodes_update t u m \<and> view (insert_entry d a x q') = view_update (view p) m"
proof -
  obtain ns where D: "pool_inv q" "same_frame p q"
    "list_all2 (\<lambda>d n. normalize d = Inr n) (u_Removed u) ns" "view q = view_drop (set ns) (view p)"
    using drop_removed_spec [OF inv dr] by blast
  note ok = validate_mapping_ok [OF pool_inv_parts(1) [OF D(1)] v]
  have dinv: "pool_inv (drop_domain d q)" using drop_domain_inv [OF D(1)] .
  have inv': "pool_inv q'" using drop_address_inv [OF dinv] q' by simp
  have vq': "view q' = view_evict a (view_drop (insert d (set ns)) (view p))"
    using view_drop_address [OF pool_inv_parts(2) [OF dinv]] q' D(4)
    by (auto simp: view_drop_domain view_drop_def fun_eq_iff view_evict_def)
  have fr: "same_frame q q'" using q' same_frame_trans [OF drop_frame(1) drop_frame(2)] by simp
  have "gm_get (byAddress q') a = None"
    using q' by (auto simp: drop_address_def split: option.split)
  moreover have "gm_get (byDomain q') d = None"
    using q' by (auto simp: drop_address_def drop_domain_def split: option.split)
  moreover have "in_pool q' a" using ok(3) same_frame_in_pool [OF fr] by simp
  ultimately show "pool_inv (insert_entry d a x q')"
    using pool_inv_insert [OF inv' _ _ _ ok(4) lim] by blast
  show "same_frame p (insert_entry d a x q')"
    using same_frame_trans [OF same_frame_trans [OF D(2) fr] insert_entry_frame(1)] .
  have "decodes_update t u (set ns, d, a, x)" using D(3) ok by (auto simp: decodes_update_def decodes_def)
  then show "\<exists>m. decodes_update t u m \<and> view (insert_entry d a x q') = view_update (view p) m"
    using view_insert [OF pool_inv_parts(2) [OF inv']] vq' by (metis view_update.simps)
qed

lemma journal_loop_spec:
  assumes "pool_inv p" and "journal_loop t i us p = Inr q"
  shows "pool_inv q \<and> same_frame p q \<and>
         (\<exists>ms. list_all2 (decodes_update t) us ms \<and> view q = foldl view_update (view p) ms)"
  using assms
proof (induction us arbitrary: i p)
  case Nil
  then show ?case by simp
next
  case (Cons u us)
  obtain q1 d a x where dr: "drop_removed i 0 (u_Removed u) p = Inr q1"
    and v: "validate_mapping q1 (u_Mapping u) t i = Inr (d, a, x)"
    and lim: "int (length (byDomain (drop_address a (drop_domain d q1)))) <
              maxMappings (drop_address a (drop_domain d q1))"
    and rest: "journal_loop t (Suc i) us (insert_entry d a x (drop_address a (drop_domain d q1))) = Inr q"
    using Cons.prems(2) by (auto simp: bindE_Inr_iff Let_def split: if_splits)
  note rec = journal_record_spec [OF Cons.prems(1) dr v refl lim]
  obtain m where m: "decodes_update t u m"
    "view (insert_entry d a x (drop_address a (drop_domain d q1))) = view_update (view p) m" using rec(3) by blast
  obtain ms where "pool_inv q" "same_frame (insert_entry d a x (drop_address a (drop_domain d q1))) q"
    "list_all2 (decodes_update t) us ms" "view q = foldl view_update (view_update (view p) m) ms"
    using Cons.IH [OF rec(1) rest] m(2) by auto
  then show ?case using m(1) same_frame_trans [OF rec(2)] by (auto intro!: exI [of _ "m # ms"])
qed


section \<open>A snapshot restores the view it was taken from\<close>

lemma insort_key_map: "insort_key f (g x) (map g xs) = map g (insort_key (\<lambda>y. f (g y)) x xs)"
  by (induction xs) auto

lemma sort_key_map: "sort_key f (map g xs) = map g (sort_key (\<lambda>y. f (g y)) xs)"
  by (induction xs) (simp_all add: insort_key_map)

definition sorted_entries :: "pool \<Rightarrow> entry list" where
  "sorted_entries p = sort_key e_domain (map (\<lambda>(d, r). deref p r) (byDomain p))"

lemma snapshot_mappings: "s_Mappings (snapshot_locked now p) = map mapping_of (sorted_entries p)"
proof -
  have "map (\<lambda>(d, r). mapping_of (deref p r)) (byDomain p) =
      map mapping_of (map (\<lambda>(d, r). deref p r) (byDomain p))" by auto
  then show ?thesis
    by (simp only: snapshot_locked_def snapshot.select_convs sort_key_map sorted_entries_def)
       (simp add: mapping_of_def)
qed

lemma sorted_entries_set:
  assumes "pool_inv p"
  shows "set (sorted_entries p) = {deref p r |d r. gm_get (byDomain p) d = Some r}"
proof -
  have wf: "gm_wf (byDomain p)" using pool_inv_parts(2) [OF assms] by (simp add: index_inv_def)
  have "set (sorted_entries p) = {deref p r |d r. (d, r) \<in> set (byDomain p)}"
    by (auto simp: sorted_entries_def image_iff)
  then show ?thesis using gm_in_set_iff [OF wf] by simp
qed

lemma sorted_entries_in:
  assumes "pool_inv p"
  shows "e \<in> set (sorted_entries p) \<longleftrightarrow> (\<exists>r. gm_get (byDomain p) (e_domain e) = Some r \<and> e = deref p r)"
  using index_inv_domain(2) [OF pool_inv_parts(2) [OF assms]] unfolding sorted_entries_set [OF assms] by blast

lemma entry_domains:
  assumes "index_inv p"
  shows "map e_domain (map (\<lambda>(d, r). deref p r) (byDomain p)) = map fst (byDomain p)"
  using assms index_inv_domain(2) [OF assms] by (auto simp: index_inv_def gm_in_set_iff)

lemma distinct_map_sort_key: "distinct (map f (sort_key g xs)) = distinct (map f xs)"
  by (rule mset_eq_imp_distinct_iff) simp

lemma sorted_entries_distinct:
  assumes "pool_inv p"
  shows "distinct (map e_domain (sorted_entries p))" "distinct (map e_address (sorted_entries p))"
proof -
  have inv: "index_inv p" using pool_inv_parts(2) [OF assms] .
  show d: "distinct (map e_domain (sorted_entries p))"
    unfolding sorted_entries_def distinct_map_sort_key entry_domains [OF inv]
    using inv by (simp add: index_inv_def gm_wf_def)
  have "inj_on e_address (set (sorted_entries p))"
  proof (rule inj_onI)
    fix e f assume "e \<in> set (sorted_entries p)" "f \<in> set (sorted_entries p)" and eq: "e_address e = e_address f"
    then obtain r r' where "gm_get (byDomain p) (e_domain e) = Some r" "e = deref p r"
      "gm_get (byDomain p) (e_domain f) = Some r'" "f = deref p r'"
      unfolding sorted_entries_in [OF assms] by blast
    then show "e = f" using index_inv_unique [OF inv] eq by (metis option.inject)
  qed
  then show "distinct (map e_address (sorted_entries p))" using d by (simp add: distinct_map)
qed

text \<open>An entry that can be written and read back.\<close>

definition storable :: "entry \<Rightarrow> bool" where
  "storable e = (e_expiresAt e \<noteq> 0 \<and> \<not> is4in6 (e_address e))"

lemma validate_storable:
  assumes st: "pool_static p" and "canonical (e_domain e)" and ip: "in_pool p (e_address e)" and "storable e"
  shows "validate_mapping p (mapping_of e) t i = Inr (e_domain e, e_address e, max (e_expiresAt e) t)"
proof -
  let ?a = "e_address e"
  have z: "addr_zone ?a = []" and b: "bit_len ?a = bit_len (p_start p)"
    and rng: "addr_val (p_start p) \<le> addr_val ?a" "addr_val ?a < addr_val (p_end p)"
    using ip by (auto simp: in_pool_def)
  have "is_valid ?a" using b st bit_len_is_valid by (metis pool_static_def)
  then have "parse_addr (addr_string ?a) = Some ?a" using parse_addr_string z assms(4) by (simp add: storable_def)
  moreover have "\<not> ?a < p_start p" "\<not> p_end p \<le> ?a"
    using addr_less_val [of "?a" "p_start p"] addr_less_val [of "p_end p" ?a] z b rng st
    by (auto simp: pool_static_def)
  moreover have "pfx_contains (p_prefix p) ?a" "bit_len ?a = bit_len (pfx_addr (p_prefix p))"
    using st ip b by (auto simp: pool_static_def)
  ultimately show ?thesis
    using assms(4) canonical_normalize [OF assms(2)] by (simp add: validate_mapping_def mapping_of_def storable_def)
qed

lemma restore_loop_entries:
  assumes "pool_inv p" and "\<forall>e \<in> set es. canonical (e_domain e) \<and> in_pool p (e_address e) \<and> storable e"
    and "distinct (map e_domain es)" and "distinct (map e_address es)"
    and "\<forall>e \<in> set es. gm_get (byDomain p) (e_domain e) = None \<and> gm_get (byAddress p) (e_address e) = None"
    and "int (length (byDomain p)) + int (length es) \<le> maxMappings p"
  shows "\<exists>q. restore_loop t i (map mapping_of es) p = Inr q"
  using assms
proof (induction es arbitrary: p i)
  case Nil
  then show ?case by simp
next
  case (Cons e es)
  let ?x = "max (e_expiresAt e) t"
  let ?p = "insert_entry (e_domain e) (e_address e) ?x p"
  have v: "validate_mapping p (mapping_of e) t i = Inr (e_domain e, e_address e, ?x)"
    using validate_storable [OF pool_inv_parts(1) [OF Cons.prems(1)]] Cons.prems(2) by simp
  have inv: "pool_inv ?p"
    using Cons.prems by (intro pool_inv_insert) auto
  have len: "length (byDomain ?p) = Suc (length (byDomain p))"
    using gm.len_put [of "byDomain p" "e_domain e"] Cons.prems(5) pool_inv_parts(2) [OF Cons.prems(1)]
    by (simp add: index_inv_def)
  have "\<exists>q. restore_loop t (Suc i) (map mapping_of es) ?p = Inr q"
  proof (rule Cons.IH [OF inv])
    show "\<forall>e \<in> set es. canonical (e_domain e) \<and> in_pool ?p (e_address e) \<and> storable e"
      using Cons.prems(2) same_frame_in_pool [OF insert_entry_frame(1)] by auto
    show "\<forall>f \<in> set es. gm_get (byDomain ?p) (e_domain f) = None \<and> gm_get (byAddress ?p) (e_address f) = None"
      using Cons.prems(3,4,5) by (simp add: image_iff) metis
  qed (use Cons.prems len in auto)
  then show ?case using v Cons.prems(5) by simp
qed

lemma put_all_map_of:
  "distinct (map fst ms) \<Longrightarrow> put_all v ms d = (case map_of ms d of None \<Rightarrow> v d | Some y \<Rightarrow> Some y)"
proof (induction ms arbitrary: v)
  case Nil
  then show ?case by simp
next
  case (Cons m ms)
  obtain e a x where m: "m = (e, a, x)" by (cases m)
  have "d = e \<Longrightarrow> map_of ms d = None" using Cons.prems m by (auto simp: map_of_eq_None_iff)
  then show ?case using Cons m by (auto simp: view_put_def split: option.split)
qed

lemma decodes_unique: "decodes t item m \<Longrightarrow> decodes t item m' \<Longrightarrow> m = m'"
  by (auto simp: decodes_def)

lemma decodes_entries:
  assumes "list_all2 (decodes t) (map mapping_of es) ms"
    and "\<forall>e \<in> set es. canonical (e_domain e) \<and> in_pool p (e_address e) \<and> storable e" and "pool_static p"
  shows "ms = map (\<lambda>e. (e_domain e, e_address e, max (e_expiresAt e) t)) es"
  using assms(1,2)
proof (induction es arbitrary: ms)
  case Nil
  then show ?case by simp
next
  case (Cons e es)
  then obtain m ns where "ms = m # ns" and m: "decodes t (mapping_of e) m"
    and ns: "list_all2 (decodes t) (map mapping_of es) ns"
    by (auto simp: list_all2_Cons1)
  moreover have "decodes t (mapping_of e) (e_domain e, e_address e, max (e_expiresAt e) t)"
    using validate_mapping_ok [OF assms(3) validate_storable [OF assms(3), of e t 0]] Cons.prems(2)
    by (simp add: decodes_def mapping_of_def)
  then have "m = (e_domain e, e_address e, max (e_expiresAt e) t)" by (rule decodes_unique [OF m])
  ultimately show ?case using Cons.IH [OF ns] Cons.prems(2) by simp
qed

lemma snapshot_restore:
  assumes inv: "pool_inv p" and inv0: "pool_inv p0" and fr: "same_frame p p0"
    and stor: "\<forall>d r. gm_get (byDomain p) d = Some r \<longrightarrow> storable (deref p r)"
  shows "\<exists>q. restore now' (snapshot_locked now p) w p0 = Inr q \<and> pool_inv q \<and>
    view q = (\<lambda>d. map_option (\<lambda>(a, x). (a, max x (now' + w))) (view p d))"
proof -
  let ?es = "sorted_entries p" and ?t = "now' + w"
  have ix: "index_inv p" using pool_inv_parts(2) [OF inv] .
  have es: "\<forall>e \<in> set ?es. canonical (e_domain e) \<and> in_pool p0 (e_address e) \<and> storable e"
    using stor index_inv_domain(2,3,4) [OF ix] index_inv_address(3) [OF ix] same_frame_in_pool [OF fr]
    by (fastforce simp: sorted_entries_set [OF inv])
  have len: "length ?es = length (byDomain p)" by (simp add: sorted_entries_def)
  have lim: "int (length ?es) \<le> maxMappings p0"
    using pool_inv_parts(5) [OF inv] fr len by (simp add: same_frame_def)
  let ?p = "p0\<lparr>byDomain := [], byAddress := []\<rparr>"
  obtain q where q: "restore_loop ?t 0 (map mapping_of ?es) ?p = Inr q"
    using restore_loop_entries [OF pool_inv_clear [OF inv0] _ sorted_entries_distinct [OF inv]] es lim
    by (fastforce simp: in_pool_def)
  then have r: "restore now' (snapshot_locked now p) w p0 = Inr q"
    unfolding restore_def snapshot_mappings using fr lim
    by (simp add: snapshot_locked_def same_frame_def)
  obtain ms where ms: "list_all2 (decodes ?t) (map mapping_of ?es) ms" "view q = put_all Map.empty ms"
    using restore_spec(3) [OF inv0 r] by (auto simp: snapshot_mappings)
  have eq: "ms = map (\<lambda>e. (e_domain e, e_address e, max (e_expiresAt e) ?t)) ?es"
    by (rule decodes_entries [OF ms(1) es pool_inv_parts(1) [OF inv0]])
  have dist: "distinct (map fst ms)"
    using sorted_entries_distinct(1) [OF inv] by (simp add: eq comp_def)
  have "view q d = map_option (\<lambda>(a, x). (a, max x ?t)) (view p d)" for d
  proof (cases "gm_get (byDomain p) d")
    case None
    then have "map_of ms d = None"
      using index_inv_domain(2) [OF ix]
      by (auto simp: eq map_of_eq_None_iff sorted_entries_set [OF inv] image_iff)
    then show ?thesis using None put_all_map_of [OF dist, of Map.empty d] by (simp add: ms(2) view_def)
  next
    case (Some r)
    then have "(d, e_address (deref p r), max (e_expiresAt (deref p r)) ?t) \<in> set ms"
      using index_inv_domain(2) [OF ix Some] by (auto simp: eq sorted_entries_set [OF inv] image_iff)
    then have "map_of ms d = Some (e_address (deref p r), max (e_expiresAt (deref p r)) ?t)"
      using dist by simp
    then show ?thesis using Some put_all_map_of [OF dist, of Map.empty d] by (simp add: ms(2) view_def)
  qed
  then show ?thesis using r restore_spec(1) [OF inv0 r] by blast
qed

end
