(* ===== verification/Fakeip_Alloc.thy ===== *)
theory Fakeip_Alloc
  imports Fakeip_Invariant
begin

text \<open>
  \<open>GetOrAllocate\<close> of \<open>internal/fakeip/pool.go\<close> as one call: the two critical sections of
  \<open>Fakeip_Pool\<close> with the journal write between them, whose outcome is the argument \<open>written\<close>.  This is
  the call as its caller sees it when no other section runs in between; \<open>Fakeip_System\<close> covers the
  interleavings.
\<close>

definition get_or_allocate :: "gotime \<Rightarrow> bool \<Rightarrow> string \<Rightarrow> pool \<Rightarrow> (pool_error + addr) \<times> pool" where
  "get_or_allocate now written name p =
     (case normalize name of
        Inl e \<Rightarrow> (Inl (PoolDomain e), p)
      | Inr d \<Rightarrow>
          (case alloc_begin now d p of
             (Answer a, q) \<Rightarrow> (Inr a, q)
           | (Fail e, q) \<Rightarrow> (Inl e, q)
           | (NeedPersist r u, q) \<Rightarrow>
               if written then (Inr (e_address (deref q r)), forget_deletes (u_Removed u) q)
               else (Inl PersistFailed, alloc_fail d r q)))"

text \<open>The entry behind the address an allocation answers with.\<close>

definition maps_to :: "pool \<Rightarrow> addr \<Rightarrow> string \<Rightarrow> gotime \<Rightarrow> bool" where
  "maps_to q a d expires =
     (\<exists>r. gm_get (byDomain q) d = Some r \<and> gm_get (byAddress q) a = Some r \<and> e_domain (deref q r) = d \<and>
          e_address (deref q r) = a \<and> e_expiresAt (deref q r) = expires)"

lemma alloc_begin_maps_to:
  assumes "pool_inv p" and "canonical d" and "alloc_begin now d p = (out, q)"
    and "out = Answer a \<or> (\<exists>r u. out = NeedPersist r u \<and> a = e_address (deref q r))"
  shows "maps_to q a d (now + mappingTTL p)"
  using assms(1,2)
proof (cases rule: alloc_begin_cases [where now = now])
  case (existing r)
  then show ?thesis
    using assms(3,4) index_inv_domain [OF pool_inv_parts(2) [OF assms(1)] existing(1)]
    by (auto simp: maps_to_def deref_heap_update)
next
  case full
  then show ?thesis using assms(3,4) by auto
next
  case (fresh b q')
  note res = fresh_alloc_result(1-5) [OF fresh(3) assms(1)]
  have "q' = q" "b = a" using fresh(5) assms(3,4) res(3) by (auto split: if_splits)
  then show ?thesis using res unfolding maps_to_def by blast
qed

lemma maps_to_lookup:
  assumes "maps_to q a d expires" and "now < expires"
  shows "lookup now a q = (Some d, q)" "fst (alloc_begin now d q) = Answer a"
    "\<exists>r q'. acquire now a q = (Inr (d, r), q')"
  using assms by (auto simp: maps_to_def lookup_def acquire_def reclaimable_def alloc_begin_def)

lemma maps_to_forget [simp]: "maps_to (forget_deletes ds q) a d t = maps_to q a d t"
  by (simp add: maps_to_def forget_deletes_def deref_def)

lemma maps_to_in_pool: "pool_inv q \<Longrightarrow> maps_to q a d t \<Longrightarrow> in_pool q a"
  using index_inv_address(3) [OF pool_inv_parts(2)] by (auto simp: maps_to_def)

lemma get_or_allocate_inv: "pool_inv p \<Longrightarrow> pool_inv (snd (get_or_allocate now written name p))"
  using alloc_begin_inv [of p _ now] alloc_fail_inv forget_deletes_inv normalize_canonical
  by (fastforce simp: get_or_allocate_def split: sum.splits prod.splits alloc_outcome.splits)

lemma alloc_begin_frame:
  assumes "pool_inv p" and "canonical d"
  shows "same_frame p (snd (alloc_begin now d p))"
  using assms(1,2)
proof (cases rule: alloc_begin_cases [where now = now])
  case (existing r)
  then show ?thesis by (simp add: same_frame_def)
next
  case full
  then show ?thesis using prune_locked_frame(1) [OF assms(1), of now] by (simp add: same_frame_def)
next
  case (fresh b q')
  then show ?thesis using fresh_alloc_result(8) [OF fresh(3) assms(1)] by simp
qed

lemma get_or_allocate_frame:
  assumes "pool_inv p"
  shows "same_frame p (snd (get_or_allocate now written name p))"
proof (cases "normalize name")
  case (Inr d)
  then have "same_frame p (snd (alloc_begin now d p))" using alloc_begin_frame [OF assms normalize_canonical] by blast
  then show ?thesis using Inr
    by (auto simp: get_or_allocate_def forget_deletes_def alloc_fail_def delete_untracked_def same_frame_def
        split: alloc_outcome.splits prod.splits)
qed (simp add: get_or_allocate_def)

text \<open>An answer maps back to the domain for a whole lifetime.\<close>

lemma get_or_allocate_maps_to:
  assumes "pool_inv p" and "normalize name = Inr d" and "get_or_allocate now written name p = (Inr a, q)"
  shows "maps_to q a d (now + mappingTTL p)"
proof -
  obtain out q0 where al: "alloc_begin now d p = (out, q0)" by (cases "alloc_begin now d p")
  have q: "q = q0 \<or> (\<exists>ds. q = forget_deletes ds q0)"
    and ans: "out = Answer a \<or> (\<exists>r u. out = NeedPersist r u \<and> a = e_address (deref q0 r))"
    using assms(3) al assms(2) by (auto simp: get_or_allocate_def split: alloc_outcome.splits if_splits)
  show ?thesis
    using alloc_begin_maps_to [OF assms(1) normalize_canonical [OF assms(2)] al ans] q by auto
qed

end
