(* ===== verification/Fakeip_Properties.thy ===== *)
theory Fakeip_Properties
  imports Fakeip_System Fakeip_Restore Fakeip_Alloc
begin

text \<open>
  What the Fake IP pool promises its clients: the properties of \<open>internal/fakeip/pool.go\<close>, each at
  a concrete pool as well.
\<close>

section \<open>A concrete pool\<close>

text \<open>\<open>198.18.0.0/29\<close>, one minute of mapping lifetime, three mappings, one reserved address.\<close>

definition sample_prefix :: ipprefix where
  "sample_prefix = Pfx (V4 3323068416) 29"

definition sample_pool :: pool where
  "sample_pool = \<lparr>p_prefix = sample_prefix, mappingTTL = 60 * second, p_start = V4 3323068417,
     p_end = V4 3323068423, p_next = V4 3323068417, capacity = 6, maxMappings = 3, byDomain = [],
     byAddress = [], pendingDeletes = [], persist_set = False, reclaimed = 0, exhaustions = 0, heap = []\<rparr>"

definition sample_used :: pool where
  "sample_used = sample_pool\<lparr>p_next := V4 3323068418, byDomain := [(''example.com'', 0)],
     byAddress := [(V4 3323068417, 0)],
     heap := [\<lparr>e_domain = ''example.com'', e_address = V4 3323068417, e_expiresAt = 60 * second + 5,
               e_references = 0\<rparr>]\<rparr>"

definition sample_held :: pool_sys where
  "sample_held =
     \<lparr>sys_pool = sample_used\<lparr>heap := [\<lparr>e_domain = ''example.com'', e_address = V4 3323068417,
        e_expiresAt = 60 * second + 5, e_references = 1\<rparr>]\<rparr>, owner = Idle, holds = {#0#}\<rparr>"

lemma sample_new: "new_pool sample_prefix (60 * second) 3 1 = Inr sample_pool"
  by code_simp

lemma sample_prefix_wf: "pfx_wf sample_prefix"
  by code_simp

lemma sample_inv: "pool_inv sample_pool"
  using sample_new sample_prefix_wf by (rule new_pool_inv) simp_all

lemma sample_alloc: "alloc_begin 5 ''example.com'' sample_pool = (Answer (V4 3323068417), sample_used)"
  by code_simp

lemma sample_acquire:
  "acquire 10 (V4 3323068417) sample_used = (Inr (''example.com'', 0), sys_pool sample_held)"
  by code_simp

lemma sample_canonical: "canonical ''example.com''"
  by code_simp

lemma sample_reachable: "reachable sample_pool sample_held"
proof -
  let ?s0 = "\<lparr>sys_pool = sample_pool, owner = Idle, holds = {#}\<rparr>"
  let ?s1 = "\<lparr>sys_pool = sample_used, owner = Idle, holds = {#}\<rparr>"
  have "pool_step 5 ?s0 (?s0\<lparr>sys_pool := sample_used\<rparr>)"
    using alloc_done [of ?s0 "''example.com''" _ 5 "Answer (V4 3323068417)" sample_used]
      canonical_normalize [OF sample_canonical] sample_alloc by simp
  then have "reachable sample_pool ?s1" using reachable.start reachable.step by fastforce
  moreover have "pool_step 10 ?s1 (?s1\<lparr>sys_pool := sys_pool sample_held, holds := add_mset 0 {#}\<rparr>)"
    using sample_acquire acquire_ok [of 10 "V4 3323068417" ?s1 "''example.com''" 0] by simp
  ultimately have "reachable sample_pool (?s1\<lparr>sys_pool := sys_pool sample_held, holds := {#0#}\<rparr>)"
    using reachable.step by fastforce
  then show ?thesis by (simp add: sample_held_def)
qed

lemma sample_used_inv: "pool_inv sample_used"
  using alloc_begin_inv [OF sample_inv sample_canonical, of 5] sample_alloc by simp


section \<open>Properties\<close>

lemma fresh_pool_reachable_inv:
  assumes "new_pool pfx ttl maxM reserve = Inr p0" and "pfx_wf pfx" and "maxM < 2 ^ 63" and "reserve < 2 ^ 63"
    and "p = p0 \<or> p = set_persistence p0" and "reachable p s"
  shows "sys_inv s"
proof (rule reachable_inv [OF assms(6)])
  have p0: "pool_inv p0" "heap p0 = []"
    using new_pool_inv [OF assms(1-4)] assms(1) by (auto simp: new_pool_def Let_def split: if_splits sum.splits)
  then show "pool_inv p" using assms(5) set_persistence_inv by auto
  show "\<forall>e \<in> set (heap p). e_references e = 0" using p0(2) assms(5) by (auto simp: set_persistence_def)
qed

text \<open>
  C1: In every state the pool can reach from its construction, under any interleaving of
  allocations, journal writes that succeed or fail, lookups, acquisitions, releases and prunes,
  with or without persistence: no two domains share an address, the two indexes are inverse to
  each other, every address in use belongs to the prefix and lies in the usable range, and the
  configured number of mappings is not exceeded.
\<close>

theorem pool_addresses_unique:
  assumes "new_pool pfx ttl maxM reserve = Inr p0" and "pfx_wf pfx" and "maxM < 2 ^ 63" and "reserve < 2 ^ 63"
    and "p = p0 \<or> p = set_persistence p0" and "reachable p s"
  shows "(\<forall>d d' r r'. gm_get (byDomain (sys_pool s)) d = Some r \<and> gm_get (byDomain (sys_pool s)) d' = Some r' \<and>
            e_address (deref (sys_pool s) r) = e_address (deref (sys_pool s) r') \<longrightarrow> d = d') \<and>
         (\<forall>a r. gm_get (byAddress (sys_pool s)) a = Some r \<longleftrightarrow>
            (\<exists>d. gm_get (byDomain (sys_pool s)) d = Some r \<and> e_address (deref (sys_pool s) r) = a)) \<and>
         (\<forall>a r. gm_get (byAddress (sys_pool s)) a = Some r \<longrightarrow>
            in_pool (sys_pool s) a \<and> pfx_contains (p_prefix (sys_pool s)) a) \<and>
         int (length (byDomain (sys_pool s))) \<le> maxMappings (sys_pool s)"
proof -
  have inv: "pool_inv (sys_pool s)" using fresh_pool_reachable_inv [OF assms] by (simp add: sys_inv_def)
  note parts = pool_inv_parts [OF inv]
  show ?thesis
    using index_inv_unique [OF parts(2)] index_address_iff [OF parts(2)] index_inv_address(3) [OF parts(2)]
      parts(1,5) unfolding pool_static_def by blast
qed

theorem pool_addresses_unique_witness:
  "gm_get (byAddress (sys_pool sample_held)) (V4 3323068417) = Some 0 \<and>
   in_pool (sys_pool sample_held) (V4 3323068417) \<and> pfx_contains sample_prefix (V4 3323068417) \<and>
   int (length (byDomain (sys_pool sample_held))) \<le> maxMappings (sys_pool sample_held)"
proof -
  have get: "gm_get (byAddress (sys_pool sample_held)) (V4 3323068417) = Some 0"
    and pfx: "p_prefix (sys_pool sample_held) = sample_prefix" by code_simp+
  show ?thesis
    using pool_addresses_unique [OF sample_new sample_prefix_wf _ _ _ sample_reachable, simplified pfx, simplified]
      get by blast
qed

text \<open>
  C29: The reference count of every entry, live or already dropped from the indexes, is the number of
  acquisitions whose release has not run; it never wraps around and never goes below zero.
\<close>

theorem reference_counts_exact:
  assumes "new_pool pfx ttl maxM reserve = Inr p0" and "pfx_wf pfx" and "maxM < 2 ^ 63" and "reserve < 2 ^ 63"
    and "p = p0 \<or> p = set_persistence p0" and "reachable p s" and "r < length (heap (sys_pool s))"
  shows "unat (e_references (deref (sys_pool s) r)) = count (holds s) r"
  using fresh_pool_reachable_inv [OF assms(1-6)] assms(7) by (simp add: sys_inv_def refs_inv_def)

theorem reference_counts_exact_witness:
  "unat (e_references (deref (sys_pool sample_held) 0)) = count (holds sample_held) 0"
  by (rule reference_counts_exact [OF sample_new sample_prefix_wf _ _ _ sample_reachable])
     (simp_all add: sample_held_def)

text \<open>
  C8: A mapping that a flow holds keeps its domain and its address through every further step, at any
  clock value, except the failure of the very journal write that was to make it durable.
\<close>

theorem held_mapping_stays:
  assumes "new_pool pfx ttl maxM reserve = Inr p0" and "pfx_wf pfx" and "maxM < 2 ^ 63" and "reserve < 2 ^ 63"
    and "p = p0 \<or> p = set_persistence p0" and "reachable p s"
    and "r \<in># holds s" and "live (sys_pool s) r" and "\<forall>d u. owner s \<noteq> Allocating d r u"
    and "pool_step now s t"
  shows "live (sys_pool t) r \<and> same_identity (sys_pool s) (sys_pool t) r"
proof -
  have inv: "sys_inv s" using fresh_pool_reachable_inv [OF assms(1-6)] .
  show ?thesis
    using pool_step_keeps [OF assms(10) inv assms(8) held_not_reclaimable [OF inv assms(7)] assms(9)]
    by (simp add: keeps_def)
qed

theorem held_mapping_stays_witness:
  "live (sys_pool (sample_held\<lparr>sys_pool := snd (prune (90 * second) (sys_pool sample_held))\<rparr>)) 0 \<and>
   same_identity (sys_pool sample_held)
     (sys_pool (sample_held\<lparr>sys_pool := snd (prune (90 * second) (sys_pool sample_held))\<rparr>)) 0"
proof (rule held_mapping_stays [OF sample_new sample_prefix_wf _ _ _ sample_reachable])
  show "live (sys_pool sample_held) 0" by code_simp
  show "pool_step (90 * second) sample_held
    (sample_held\<lparr>sys_pool := snd (prune (90 * second) (sys_pool sample_held))\<rparr>)" by (rule prune_step)
qed (simp_all add: sample_held_def)

text \<open>
  C14: An allocation fails exactly when the domain has no mapping yet and the mappings that are in use
  or not yet expired already fill the configured limit; the round-robin search never misses a free
  address, for IPv4 and IPv6 prefixes alike.
\<close>

theorem alloc_fails_iff_full:
  assumes "pool_inv p" and "normalize name = Inr d"
  shows "(\<exists>e. fst (alloc_begin now d p) = Fail e) \<longleftrightarrow>
     gm_get (byDomain p) d = None \<and>
     maxMappings p \<le> int (card {d'. \<exists>r. gm_get (byDomain p) d' = Some r \<and> \<not> reclaimable now (deref p r)})"
proof -
  let ?q = "prune_locked now p"
  have wf: "gm_wf (byDomain ?q)"
    using pool_inv_parts(2) [OF prune_locked_spec(2) [OF assms(1)]] by (simp add: index_inv_def)
  have "dom (gm_get (byDomain ?q)) = {d'. \<exists>r. gm_get (byDomain p) d' = Some r \<and> \<not> reclaimable now (deref p r)}"
    by (auto simp: prune_locked_lookup [OF assms(1)] domIff split: option.splits if_splits)
  then have len: "int (length (byDomain ?q)) =
      int (card {d'. \<exists>r. gm_get (byDomain p) d' = Some r \<and> \<not> reclaimable now (deref p r)})"
    using gm.len_card [OF wf] by simp
  show ?thesis
    using assms(1) normalize_canonical [OF assms(2)]
  proof (cases rule: alloc_begin_cases [where now = now])
    case (existing r)
    then show ?thesis by simp
  next
    case full
    then show ?thesis using len by simp
  next
    case (fresh a q)
    then show ?thesis using len by auto
  qed
qed

theorem alloc_fails_iff_full_witness:
  "(\<exists>e. fst (alloc_begin 7 ''example.com'' sample_used) = Fail e) \<longleftrightarrow>
     gm_get (byDomain sample_used) ''example.com'' = None \<and>
     maxMappings sample_used \<le>
       int (card {d'. \<exists>r. gm_get (byDomain sample_used) d' = Some r \<and> \<not> reclaimable 7 (deref sample_used r)})"
  by (rule alloc_fails_iff_full [OF sample_used_inv canonical_normalize [OF sample_canonical]])

text \<open>
  The address an allocation answers with maps back to the requested domain until a full mapping
  lifetime has passed, for a new mapping and for a renewed one, and a second request for the same
  domain gets the same address.
\<close>

lemma alloc_lookup_roundtrip:
  assumes "pool_inv p" and "normalize name = Inr d" and "alloc_begin now d p = (out, q)"
    and "out = Answer a \<or> (\<exists>r u. out = NeedPersist r u \<and> a = e_address (deref q r))"
    and "now' < now + mappingTTL p"
  shows "lookup now' a q = (Some d, q) \<and> fst (alloc_begin now' d q) = Answer a"
  using maps_to_lookup(1,2) [OF alloc_begin_maps_to [OF assms(1) normalize_canonical [OF assms(2)] assms(3,4)] assms(5)]
  by blast

text \<open>
  A prune removes exactly the mappings that are expired and not held by any flow, reports how
  many they were, and with persistence remembers each removed domain for the next journal record.
\<close>

lemma prune_exact:
  assumes "pool_inv p" and "prune now p = (n, q)"
  shows "(\<forall>d. gm_get (byDomain q) d =
            (case gm_get (byDomain p) d of None \<Rightarrow> None
             | Some r \<Rightarrow> if reclaimable now (deref p r) then None else Some r)) \<and>
         n = int (card {d. \<exists>r. gm_get (byDomain p) d = Some r \<and> reclaimable now (deref p r)}) \<and>
         (\<forall>d. gm_has (pendingDeletes q) d \<longleftrightarrow> gm_has (pendingDeletes p) d \<or>
            (persist_set p \<and> (\<exists>r. gm_get (byDomain p) d = Some r \<and> reclaimable now (deref p r))))"
proof -
  have q: "q = prune_locked now p" "n = int (length (byDomain p)) - int (length (byDomain q))"
    using assms(2) by (auto simp: prune_def Let_def)
  note look = prune_locked_lookup [OF assms(1), of now, folded q(1)]
  have wf: "gm_wf (byDomain p)" "gm_wf (byDomain q)"
    using pool_inv_parts(2) [OF assms(1)] pool_inv_parts(2) [OF prune_locked_spec(2) [OF assms(1)]] q(1)
    by (auto simp: index_inv_def)
  have sub: "dom (gm_get (byDomain q)) \<subseteq> dom (gm_get (byDomain p))"
    by (auto simp: look domIff split: option.splits)
  have "dom (gm_get (byDomain p)) - dom (gm_get (byDomain q)) =
      {d. \<exists>r. gm_get (byDomain p) d = Some r \<and> reclaimable now (deref p r)}"
    by (auto simp: look domIff split: option.splits if_splits)
  moreover have "card (dom (gm_get (byDomain p)) - dom (gm_get (byDomain q))) =
      card (dom (gm_get (byDomain p))) - card (dom (gm_get (byDomain q)))"
    using sub gm.finite_get [OF wf(2)] by (rule card_Diff_subset [OF _ _, rotated])
  moreover have "card (dom (gm_get (byDomain q))) \<le> card (dom (gm_get (byDomain p)))"
    using sub gm.finite_get [OF wf(1)] by (rule card_mono [rotated])
  ultimately have n: "n = int (card {d. \<exists>r. gm_get (byDomain p) d = Some r \<and> reclaimable now (deref p r)})"
    using q(2) gm.len_card [OF wf(1)] gm.len_card [OF wf(2)] by simp
  have "gm_has (pendingDeletes q) d \<longleftrightarrow> gm_has (pendingDeletes p) d \<or>
      (persist_set p \<and> (\<exists>r. gm_get (byDomain p) d = Some r \<and> reclaimable now (deref p r)))" for d
    using prune_locked_spec(1) [OF assms(1), of now] unfolding pruned_def q(1)
    by (auto simp: domIff split: option.splits if_splits)
  then show ?thesis using look n by blast
qed

text \<open>
  C24: Saving a pool and restoring the snapshot into a pool of the same configuration succeeds and
  gives back exactly the same domains and addresses, IPv4 or IPv6; the only change is that expiry
  times earlier than the end of the protection window are moved to it.
\<close>

theorem snapshot_restore_roundtrip:
  assumes "pool_inv p" and "pool_inv p0" and "same_frame p p0"
    and "\<forall>d r. gm_get (byDomain p) d = Some r \<longrightarrow>
           e_expiresAt (deref p r) \<noteq> 0 \<and> \<not> is4in6 (e_address (deref p r))"
  shows "\<exists>q. restore now' (snapshot_locked now p) window p0 = Inr q \<and> pool_inv q \<and>
    view q = (\<lambda>d. map_option (\<lambda>(a, x). (a, max x (now' + window))) (view p d))"
  using snapshot_restore [OF assms(1-3)] assms(4) by (simp add: storable_def)

theorem snapshot_restore_roundtrip_witness:
  "\<exists>q. restore 100 (snapshot_locked 50 sample_used) second sample_pool = Inr q \<and> pool_inv q \<and>
    view q = (\<lambda>d. map_option (\<lambda>(a, x). (a, max x (100 + second))) (view sample_used d))"
proof (rule snapshot_restore_roundtrip [OF sample_used_inv sample_inv])
  show "same_frame sample_used sample_pool" by (simp add: same_frame_def sample_used_def)
  show "\<forall>d r. gm_get (byDomain sample_used) d = Some r \<longrightarrow>
      e_expiresAt (deref sample_used r) \<noteq> 0 \<and> \<not> is4in6 (e_address (deref sample_used r))"
    by (auto simp: sample_used_def gm_get_Cons deref_def split: if_splits)
qed

text \<open>
  C23: An accepted journal keeps every pool invariant and acts on the pool record by record as
  abstract updates of the map from domains to addresses: first the removed domains leave, then the
  new mapping replaces whatever its domain or its address was bound to.
\<close>

theorem journal_refines_updates:
  assumes "pool_inv p" and "restore_journal now us window p = Inr q"
  shows "pool_inv q \<and>
    (\<exists>ms. list_all2 (decodes_update (now + window)) us ms \<and> view q = foldl view_update (view p) ms)"
  using journal_loop_spec [OF assms(1)] assms(2) by (auto simp: restore_journal_def)

definition sample_update :: persistence_update where
  "sample_update = \<lparr>u_RecordedAt = 20, u_Removed = [''example.com''],
     u_Mapping = \<lparr>m_Domain = ''b.example.com'', m_Address = ''198.18.0.1'', m_ExpiresAt = 30\<rparr>\<rparr>"

definition sample_replayed :: pool where
  "sample_replayed = sample_used\<lparr>byDomain := [(''b.example.com'', 1)], byAddress := [(V4 3323068417, 1)],
     heap := heap sample_used @ [\<lparr>e_domain = ''b.example.com'', e_address = V4 3323068417,
               e_expiresAt = 100 + second, e_references = 0\<rparr>]\<rparr>"

theorem journal_refines_updates_witness:
  "pool_inv sample_replayed \<and>
    (\<exists>ms. list_all2 (decodes_update (100 + second)) [sample_update] ms \<and>
          view sample_replayed = foldl view_update (view sample_used) ms)"
  by (rule journal_refines_updates [OF sample_used_inv]) code_simp

end
