(* ===== verification/Config_Model.thy ===== *)
theory Config_Model
  imports Domainname
begin

text \<open>
  The data types of \<open>internal/config/config.go\<close>: the compiled runtime configuration and the raw
  records the YAML decoder fills.  Pointers to optional booleans and sections are options; Go maps
  are association lists.
\<close>

section \<open>Compiled configuration\<close>

record rule =
  rule_ID :: int
  Domains :: "string list"
  DomainSuffixes :: "string list"
  DestinationCIDRs :: "ipprefix list"
  rule_Outbound :: string

definition rule_Default :: "rule \<Rightarrow> bool" where
  "rule_Default r = (Domains r = [] \<and> DomainSuffixes r = [] \<and> DestinationCIDRs r = [])"

record log_cfg =
  Level :: string
  Format :: string

record system_cfg =
  StateFile :: string
  LockFile :: string
  ManageDNS :: bool

record tun_cfg =
  Address :: addr
  Peer :: addr
  IPv6Address :: addr
  IPv6Peer :: addr
  MTU :: int
  PacketQueue :: int
  BufferPool :: int

record fakeip_cfg =
  fip_Prefix :: ipprefix
  DNSTTL :: duration
  MappingTTL :: duration
  fip_MaxMappings :: int
  fip_PersistenceFile :: string
  Exclude :: "pattern list"

record fakeip6_cfg =
  fip6_Prefix :: ipprefix
  fip6_MaxMappings :: int
  fip6_PersistenceFile :: string

record dns_cfg =
  Listen :: addrport
  UDP :: bool
  TCP :: bool
  DefaultOutbound :: string
  dns_MaxConcurrent :: int

record sessions_cfg =
  MaxTCPFlows :: int
  UDPIdleTimeout :: duration
  MaxUDPSessions :: int
  MaxUDPSessionsPerSource :: int

record outbound_cfg =
  ob_Name :: string
  ob_Type :: string
  ob_Interface :: string
  ob_DNSSource :: string
  ob_DNS :: "addrport list"
  ob_ConnectTimeout :: duration
  ob_Fallback :: string

record config =
  cfg_Version :: int
  cfg_Log :: log_cfg
  cfg_System :: system_cfg
  DefaultRoute :: bool
  cfg_TUN :: tun_cfg
  cfg_FakeIP :: fakeip_cfg
  cfg_FakeIPv6 :: "fakeip6_cfg option"
  cfg_DNS :: dns_cfg
  cfg_Sessions :: sessions_cfg
  cfg_Outbounds :: "(string, outbound_cfg) gomap"
  cfg_Rules :: "rule list"

section \<open>Raw configuration\<close>

record raw_log =
  raw_Level :: string
  raw_Format :: string

record raw_system =
  raw_StateFile :: string
  raw_LockFile :: string
  raw_ManageDNS :: "bool option"
  raw_RestoreOnExit :: "bool option"

record raw_tun =
  raw_Address :: string
  raw_Peer :: string
  raw_IPv6Address :: string
  raw_IPv6Peer :: string
  raw_MTU :: int
  raw_PacketQueue :: int
  raw_BufferPool :: int

record raw_fakeip =
  raw_CIDR :: string
  raw_DNSTTL :: string
  raw_MappingTTL :: string
  raw_MaxMappings :: int
  raw_PersistenceFile :: string
  raw_Exclude :: "string list option"

record raw_fakeip6 =
  raw6_CIDR :: string
  raw6_MaxMappings :: int
  raw6_PersistenceFile :: string

record raw_dns =
  raw_Listen :: string
  raw_UDP :: "bool option"
  raw_TCP :: "bool option"
  raw_DefaultOutbound :: string
  raw_MaxConcurrent :: int

record raw_sessions =
  raw_MaxTCPFlows :: int
  raw_UDPIdleTimeout :: string
  raw_MaxUDPSessions :: int
  raw_MaxUDPSessionsPerSource :: int

record raw_outbound =
  raw_Type :: string
  raw_Interface :: string
  raw_DNSSource :: string
  raw_DNS :: "string list"
  raw_ConnectTimeout :: string
  raw_Fallback :: string

record raw_rule =
  raw_Domain :: "string list"
  raw_DomainSuffix :: "string list"
  raw_IPCIDR :: "string list"
  raw_Outbound :: string

record raw_config =
  raw_Version :: int
  raw_cfg_Log :: raw_log
  raw_cfg_System :: raw_system
  raw_DefaultRoute :: "bool option"
  raw_cfg_TUN :: raw_tun
  raw_cfg_FakeIP :: raw_fakeip
  raw_cfg_FakeIPv6 :: "raw_fakeip6 option"
  raw_cfg_DNS :: raw_dns
  raw_cfg_Sessions :: raw_sessions
  raw_cfg_Outbounds :: "(string, raw_outbound) gomap"
  raw_cfg_Rules :: "raw_rule list"

end
