(* ===== verification/Rules.thy ===== *)
theory Rules
  imports Config_Model
begin

text \<open>
  \<open>internal/rules/engine.go\<close>: ordered, side-effect-free matching of flows.  Rules with CIDR predicates
  can only be decided once the destination is resolved; \<open>candidates\<close> lists them up to the first rule
  that decides without addresses, \<open>match_resolved\<close> makes the final choice.
\<close>

record flow_metadata =
  fm_Domain :: string
  fm_FakeIP :: addr
  fm_DestinationIP :: addr
  fm_SourceIP :: addr
  fm_SourcePort :: nat

record decision =
  RuleID :: int
  dec_Outbound :: string

record compiled_rule =
  cr_id :: int
  cr_domains :: "(string, unit) gomap"
  cr_suffixes :: "string list"
  cr_cidrs :: "ipprefix list"
  cr_outbound :: string

record engine =
  eng_rules :: "compiled_rule list"

datatype rules_error =
    NoFinalDefault
  | DomainErr domain_error
  | NoCandidate
  | InvalidResolvedIP
  | NoRuleMatched

definition compile_rule :: "rule \<Rightarrow> compiled_rule" where
  "compile_rule r =
     \<lparr>cr_id = rule_ID r, cr_domains = foldl (\<lambda>m d. gm_put m d ()) [] (Domains r),
      cr_suffixes = DomainSuffixes r, cr_cidrs = DestinationCIDRs r, cr_outbound = rule_Outbound r\<rparr>"

definition new_engine :: "rule list \<Rightarrow> rules_error + engine" where
  "new_engine rs =
     (if rs = [] \<or> \<not> rule_Default (last rs) then Inl NoFinalDefault
      else Inr \<lparr>eng_rules = map compile_rule rs\<rparr>)"

fun matches_any_suffix :: "string \<Rightarrow> string list \<Rightarrow> bool" where
  "matches_any_suffix d [] = False"
| "matches_any_suffix d (s # ss) =
     (if d = s \<or> has_suffix d (CHR ''.'' # s) then True else matches_any_suffix d ss)"

definition matches_any_cidr :: "addr list \<Rightarrow> ipprefix list \<Rightarrow> bool" where
  "matches_any_cidr as ps = list_ex (\<lambda>p. list_ex (\<lambda>a. pfx_contains p a) as) ps"

definition matches_base :: "compiled_rule \<Rightarrow> string \<Rightarrow> bool" where
  "matches_base r d =
     (if cr_domains r \<noteq> [] \<and> \<not> gm_has (cr_domains r) d then False
      else cr_suffixes r = [] \<or> (d \<noteq> [] \<and> matches_any_suffix d (cr_suffixes r)))"

definition normalize_metadata :: "flow_metadata \<Rightarrow> rules_error + string" where
  "normalize_metadata md =
     (if fm_Domain md = [] then Inr []
      else case normalize (fm_Domain md) of Inl e \<Rightarrow> Inl (DomainErr e) | Inr d \<Rightarrow> Inr d)"

definition rule_decision :: "compiled_rule \<Rightarrow> decision" where
  "rule_decision r = \<lparr>RuleID = cr_id r, dec_Outbound = cr_outbound r\<rparr>"

fun candidates_loop :: "compiled_rule list \<Rightarrow> string \<Rightarrow> decision list \<Rightarrow> rules_error + decision list" where
  "candidates_loop [] d acc = Inl NoCandidate"
| "candidates_loop (r # rs) d acc =
     (if \<not> matches_base r d then candidates_loop rs d acc
      else if cr_cidrs r = [] then Inr (acc @ [rule_decision r])
      else candidates_loop rs d (acc @ [rule_decision r]))"

definition candidates :: "engine \<Rightarrow> flow_metadata \<Rightarrow> rules_error + decision list" where
  "candidates eng md = bindE (normalize_metadata md) (\<lambda>d. candidates_loop (eng_rules eng) d [])"

definition engine_match :: "engine \<Rightarrow> flow_metadata \<Rightarrow> rules_error + decision" where
  "engine_match eng md = bindE (candidates eng md) (\<lambda>cs. Inr (last cs))"

fun match_loop ::
  "compiled_rule list \<Rightarrow> string \<Rightarrow> addr list \<Rightarrow> bool \<Rightarrow> rules_error + decision" where
  "match_loop [] d as resolved = Inl NoRuleMatched"
| "match_loop (r # rs) d as resolved =
     (if cr_cidrs r \<noteq> [] \<and> (\<not> resolved \<or> \<not> matches_any_cidr as (cr_cidrs r))
      then match_loop rs d as resolved
      else if \<not> matches_base r d then match_loop rs d as resolved
      else Inr (rule_decision r))"

definition match_with :: "engine \<Rightarrow> flow_metadata \<Rightarrow> addr list \<Rightarrow> bool \<Rightarrow> rules_error + decision" where
  "match_with eng md as resolved =
     bindE (normalize_metadata md) (\<lambda>d. match_loop (eng_rules eng) d as resolved)"

definition match_resolved :: "engine \<Rightarrow> flow_metadata \<Rightarrow> addr list \<Rightarrow> rules_error + decision" where
  "match_resolved eng md as =
     (if list_ex (\<lambda>a. \<not> is_valid a \<or> is4in6 a) as then Inl InvalidResolvedIP
      else match_with eng md as True)"

fun requires_loop :: "compiled_rule list \<Rightarrow> string \<Rightarrow> bool" where
  "requires_loop [] d = False"
| "requires_loop (r # rs) d =
     (if cr_domains r = [] \<and> cr_suffixes r = [] then requires_loop rs d
      else if cr_domains r \<noteq> [] \<and> \<not> gm_has (cr_domains r) d then requires_loop rs d
      else if cr_suffixes r \<noteq> [] \<and> \<not> matches_any_suffix d (cr_suffixes r) then requires_loop rs d
      else True)"

definition requires_fake_ip :: "engine \<Rightarrow> string \<Rightarrow> bool" where
  "requires_fake_ip eng domain =
     (case normalize domain of Inl _ \<Rightarrow> False | Inr d \<Rightarrow> requires_loop (eng_rules eng) d)"


section \<open>Reference semantics\<close>

text \<open>
  What a configured rule says of a canonical domain (empty for a flow without one) and the resolved
  addresses, stated on the configuration rather than on the compiled rules.
\<close>

definition rule_domain_ok :: "rule \<Rightarrow> string \<Rightarrow> bool" where
  "rule_domain_ok r d =
     ((Domains r = [] \<or> d \<in> set (Domains r)) \<and>
      (DomainSuffixes r = [] \<or> (d \<noteq> [] \<and> (\<exists>s \<in> set (DomainSuffixes r). suffix (labels s) (labels d)))))"

definition rule_address_ok :: "rule \<Rightarrow> addr list \<Rightarrow> bool" where
  "rule_address_ok r as =
     (DestinationCIDRs r = [] \<or> (\<exists>p \<in> set (DestinationCIDRs r). \<exists>a \<in> set as. pfx_contains p a))"

lemma foldl_put_get: "gm_get (foldl (\<lambda>m d. gm_put m d ()) m ds) k =
    (if k \<in> set ds then Some () else gm_get m k)"
  by (induction ds arbitrary: m) auto

lemma gm_put_ne: "gm_put m k v \<noteq> []"
  by (cases m) (auto simp: gm_put_def)

lemma foldl_put_ne: "m \<noteq> [] \<Longrightarrow> foldl (\<lambda>m d. gm_put m d ()) m ds \<noteq> []"
  by (induction ds arbitrary: m) (auto simp: gm_put_ne)

lemma foldl_put_Nil: "foldl (\<lambda>m d. gm_put m d ()) [] ds = [] \<longleftrightarrow> ds = []"
  by (cases ds) (auto simp: gm_put_ne foldl_put_ne)

lemma compile_rule_sel [simp]:
  "cr_id (compile_rule r) = rule_ID r" "cr_outbound (compile_rule r) = rule_Outbound r"
  "cr_suffixes (compile_rule r) = DomainSuffixes r" "cr_cidrs (compile_rule r) = DestinationCIDRs r"
  "cr_domains (compile_rule r) = [] \<longleftrightarrow> Domains r = []"
  "gm_get (cr_domains (compile_rule r)) d = (if d \<in> set (Domains r) then Some () else None)"
  by (simp_all add: compile_rule_def foldl_put_Nil foldl_put_get)

lemma matches_any_suffix_iff:
  "matches_any_suffix d ss \<longleftrightarrow> (\<exists>s \<in> set ss. suffix (labels s) (labels d))"
  by (induction ss) (simp_all add: suffix_test_labels)

lemma matches_any_cidr_iff:
  "matches_any_cidr as ps \<longleftrightarrow> (\<exists>p \<in> set ps. \<exists>a \<in> set as. pfx_contains p a)"
  by (simp add: matches_any_cidr_def list_ex_iff)

lemma matches_base_iff: "matches_base (compile_rule r) d \<longleftrightarrow> rule_domain_ok r d"
  by (auto simp: matches_base_def rule_domain_ok_def matches_any_suffix_iff)

lemma new_engine_Inr_iff:
  "new_engine rs = Inr e \<longleftrightarrow> rs \<noteq> [] \<and> rule_Default (last rs) \<and> e = \<lparr>eng_rules = map compile_rule rs\<rparr>"
  by (auto simp: new_engine_def)

lemma rule_decision_compile:
  "rule_decision (compile_rule r) = \<lparr>RuleID = rule_ID r, dec_Outbound = rule_Outbound r\<rparr>"
  by (simp add: rule_decision_def)

abbreviation decision_of :: "rule \<Rightarrow> decision" where
  "decision_of r \<equiv> \<lparr>RuleID = rule_ID r, dec_Outbound = rule_Outbound r\<rparr>"

text \<open>The match loop is the first rule whose predicates hold.\<close>

lemma match_loop_find:
  "match_loop (map compile_rule rs) d as resolved =
     (case find (\<lambda>r. (DestinationCIDRs r = [] \<or> (resolved \<and> rule_address_ok r as)) \<and> rule_domain_ok r d) rs
      of None \<Rightarrow> Inl NoRuleMatched | Some r \<Rightarrow> Inr (decision_of r))"
  by (induction rs)
     (auto simp: matches_base_iff rule_decision_compile rule_address_ok_def matches_any_cidr_iff)

lemma candidates_loop_spec:
  "candidates_loop (map compile_rule rs) d acc =
     (case find (\<lambda>r. DestinationCIDRs r = [] \<and> rule_domain_ok r d) rs of
        None \<Rightarrow> Inl NoCandidate
      | Some r \<Rightarrow>
          Inr (acc @ map decision_of
            (filter (\<lambda>q. rule_domain_ok q d)
              (takeWhile (\<lambda>q. \<not> (DestinationCIDRs q = [] \<and> rule_domain_ok q d)) rs)) @ [decision_of r]))"
proof (induction rs arbitrary: acc)
  case Nil
  then show ?case by simp
next
  case (Cons q rs)
  then show ?case
    by (auto simp: matches_base_iff rule_decision_compile split: option.split)
qed

lemma default_rule_ok [simp]: "rule_Default r \<Longrightarrow> rule_domain_ok r d"
  by (simp add: rule_Default_def rule_domain_ok_def)

lemma default_rule_address_ok [simp]: "rule_Default r \<Longrightarrow> rule_address_ok r as"
  by (simp add: rule_Default_def rule_address_ok_def)

lemma default_rule_no_cidr: "rule_Default r \<Longrightarrow> DestinationCIDRs r = []"
  by (simp add: rule_Default_def)

lemma find_exists: "x \<in> set xs \<Longrightarrow> P x \<Longrightarrow> \<exists>y. find P xs = Some y"
  by (cases "find P xs") (auto simp: find_None_iff)

lemma find_Some_in: "find P xs = Some x \<Longrightarrow> x \<in> set xs \<and> P x"
  by (induction xs) (auto split: if_splits)

lemma find_default_last:
  assumes "rs \<noteq> []" and "P (last rs)"
  shows "\<exists>y. find P rs = Some y"
  using assms find_exists [of "last rs" rs P] by simp

text \<open>A rule that wins against the resolved addresses is a candidate.\<close>

lemma find_weaker:
  assumes "find P xs = Some x" and "find Q xs = Some y" and "\<And>z. Q z \<Longrightarrow> P z"
  shows "x = y \<or> x \<in> set (takeWhile (\<lambda>z. \<not> Q z) xs)"
  using assms(1,2)
proof (induction xs)
  case Nil
  then show ?case by simp
next
  case (Cons z zs)
  then show ?case using assms(3) [of z] by (auto split: if_splits)
qed

lemma requires_loop_iff:
  "requires_loop (map compile_rule rs) d \<longleftrightarrow>
     (\<exists>r \<in> set rs. (Domains r \<noteq> [] \<or> DomainSuffixes r \<noteq> []) \<and>
        (Domains r = [] \<or> d \<in> set (Domains r)) \<and>
        (DomainSuffixes r = [] \<or> (\<exists>s \<in> set (DomainSuffixes r). suffix (labels s) (labels d))))"
  by (induction rs) (auto simp: matches_any_suffix_iff)


lemma winner_among_candidates:
  assumes "new_engine rs = Inr eng" and "match_resolved eng md as = Inr dec"
  shows "\<exists>cs. candidates eng md = Inr cs \<and> cs \<noteq> [] \<and> dec \<in> set cs \<and>
              engine_match eng md = Inr (last cs) \<and> match_with eng md [] False = Inr (last cs)"
proof -
  have eng: "rs \<noteq> []" "rule_Default (last rs)" "eng_rules eng = map compile_rule rs"
    using assms(1) by (auto simp: new_engine_Inr_iff)
  obtain d where d: "normalize_metadata md = Inr d"
    and ml: "match_loop (map compile_rule rs) d as True = Inr dec"
    using assms(2) eng(3)
    by (auto simp: match_resolved_def match_with_def bindE_Inr_iff split: if_splits)
  let ?Q = "\<lambda>q. DestinationCIDRs q = [] \<and> rule_domain_ok q d"
  let ?P = "\<lambda>q. (DestinationCIDRs q = [] \<or> (True \<and> rule_address_ok q as)) \<and> rule_domain_ok q d"
  obtain y where y: "find ?Q rs = Some y"
    using find_default_last [of rs ?Q] eng by (auto simp: default_rule_no_cidr)
  obtain x where x: "find ?P rs = Some x" "dec = decision_of x"
    using ml by (auto simp: match_loop_find split: option.splits)
  let ?cs = "map decision_of (filter (\<lambda>q. rule_domain_ok q d) (takeWhile (\<lambda>q. \<not> ?Q q) rs)) @ [decision_of y]"
  have cs: "candidates eng md = Inr ?cs"
    using d eng(3) y by (simp add: candidates_def candidates_loop_spec)
  have "x = y \<or> x \<in> set (takeWhile (\<lambda>q. \<not> ?Q q) rs)" using find_weaker [OF x(1) y] by blast
  then have "dec \<in> set ?cs" using x find_Some_in [OF x(1)] by auto
  moreover have "match_with eng md [] False = Inr (last ?cs)"
    using d eng(3) y by (simp add: match_with_def match_loop_find)
  ultimately show ?thesis using cs by (auto simp: engine_match_def)
qed

section \<open>Properties\<close>

text \<open>A small policy and flow on which the properties are instantiated.\<close>

definition sample_rules :: "rule list" where
  "sample_rules =
     [\<lparr>rule_ID = 0, Domains = [], DomainSuffixes = [''example.com''],
       DestinationCIDRs = [Pfx (V4 167772160) 8], rule_Outbound = ''lan''\<rparr>,
      \<lparr>rule_ID = 1, Domains = [], DomainSuffixes = [], DestinationCIDRs = [], rule_Outbound = ''wan''\<rparr>]"

definition sample_engine :: engine where
  "sample_engine = \<lparr>eng_rules = map compile_rule sample_rules\<rparr>"

definition sample_flow :: flow_metadata where
  "sample_flow = \<lparr>fm_Domain = ''A.example.com.'', fm_FakeIP = NoAddr, fm_DestinationIP = NoAddr,
                  fm_SourceIP = NoAddr, fm_SourcePort = 0\<rparr>"

lemma sample_engine: "new_engine sample_rules = Inr sample_engine"
  by (simp add: new_engine_Inr_iff sample_engine_def sample_rules_def rule_Default_def)

text \<open>
  C11: Matching against resolved addresses is total and picks the first configured rule whose domain
  predicates accept the canonical domain and whose CIDR predicates (if any) contain one of the
  resolved addresses.
\<close>

theorem match_resolved_first:
  assumes "new_engine rs = Inr eng" and "normalize_metadata md = Inr d"
    and "list_all (\<lambda>a. is_valid a \<and> \<not> is4in6 a) as"
  shows "\<exists>r. find (\<lambda>q. rule_domain_ok q d \<and> rule_address_ok q as) rs = Some r \<and>
             match_resolved eng md as = Inr (decision_of r)"
proof -
  let ?P = "\<lambda>q. (DestinationCIDRs q = [] \<or> (True \<and> rule_address_ok q as)) \<and> rule_domain_ok q d"
  have P: "?P = (\<lambda>q. rule_domain_ok q d \<and> rule_address_ok q as)" by (auto simp: rule_address_ok_def)
  have eng: "rs \<noteq> []" "rule_Default (last rs)" "eng_rules eng = map compile_rule rs"
    using assms(1) by (auto simp: new_engine_Inr_iff)
  then obtain r where r: "find ?P rs = Some r" using find_default_last [of rs ?P] by auto
  have "\<not> list_ex (\<lambda>a. \<not> is_valid a \<or> is4in6 a) as" using assms(3) by (auto simp: list_all_iff list_ex_iff)
  then have "match_resolved eng md as = match_loop (map compile_rule rs) d as True"
    using assms(2) eng(3) by (simp add: match_resolved_def match_with_def)
  then show ?thesis using r P by (simp add: match_loop_find)
qed

theorem match_resolved_first_witness:
  "\<exists>r. find (\<lambda>q. rule_domain_ok q ''a.example.com'' \<and> rule_address_ok q [V4 167772161]) sample_rules = Some r \<and>
       match_resolved sample_engine sample_flow [V4 167772161] = Inr (decision_of r)"
  by (rule match_resolved_first [OF sample_engine]) code_simp+

text \<open>
  C28: Whatever addresses a flow's destination resolves to, the rule that finally wins is one of the
  candidates computed before resolution, and the last candidate, which \<open>Match\<close> returns, is the
  decision made with every CIDR rule left out.
\<close>

theorem match_resolved_candidate:
  assumes "new_engine rs = Inr eng" and "match_resolved eng md as = Inr dec"
  shows "\<exists>cs. candidates eng md = Inr cs \<and> cs \<noteq> [] \<and> dec \<in> set cs \<and>
              engine_match eng md = Inr (last cs) \<and> match_with eng md [] False = Inr (last cs)"
  by (rule winner_among_candidates [OF assms])

theorem match_resolved_candidate_witness:
  "\<exists>cs. candidates sample_engine sample_flow = Inr cs \<and> cs \<noteq> [] \<and>
        \<lparr>RuleID = 0, dec_Outbound = ''lan''\<rparr> \<in> set cs \<and>
        engine_match sample_engine sample_flow = Inr (last cs) \<and>
        match_with sample_engine sample_flow [] False = Inr (last cs)"
  by (rule match_resolved_candidate [OF sample_engine, where as = "[V4 167772161]"]) code_simp

text \<open>
  A domain gets a Fake IP exactly when it is a well-formed name and some rule with domain or
  domain-suffix predicates accepts it; CIDR predicates and the default rule play no part.
\<close>

lemma requires_fake_ip_iff:
  assumes "new_engine rs = Inr eng"
  shows "requires_fake_ip eng s \<longleftrightarrow>
    (\<exists>d. normalize s = Inr d \<and>
       (\<exists>r \<in> set rs. (Domains r \<noteq> [] \<or> DomainSuffixes r \<noteq> []) \<and> rule_domain_ok r d))"
proof (cases "normalize s")
  case (Inl e)
  then show ?thesis by (simp add: requires_fake_ip_def)
next
  case (Inr d)
  then have "d \<noteq> []" using canonical_ne normalize_canonical by blast
  with Inr assms show ?thesis
    by (simp add: requires_fake_ip_def requires_loop_iff new_engine_Inr_iff rule_domain_ok_def)
qed

end
