(* ===== verification/Duration.thy ===== *)
theory Duration
  imports Prelude "HOL-Library.Code_Target_Nat"
begin

text \<open>
  \<open>time.ParseDuration\<close>, with its \<open>uint64\<close> overflow checks.  The fraction of a number is scaled in
  float64 arithmetic, \<open>uint64(float64(f) * (float64(unit) / scale))\<close>: every operation is the exact
  rational result rounded to 53 significant bits, ties to even.  The operands stay far inside the
  exponent range, and \<open>scale\<close> is a power of ten of at most 19 digits, hence exact.
\<close>

section \<open>Rounding to 53 bits\<close>

fun ilog2 :: "nat \<Rightarrow> nat" where
  "ilog2 n = (if n < 2 then 0 else Suc (ilog2 (n div 2)))"

declare ilog2.simps [simp del]

definition round_half_even :: "nat \<Rightarrow> nat \<Rightarrow> nat" where
  "round_half_even n d =
     (let q = n div d; r = n mod d
      in if 2 * r < d then q else if d < 2 * r then Suc q else if even q then q else Suc q)"

text \<open>A positive rational \<open>n / d\<close> rounded to the nearest float64, again as a fraction.\<close>

definition fl :: "nat \<times> nat \<Rightarrow> nat \<times> nat" where
  "fl = (\<lambda>(n, d).
     if d \<le> n then
       (let k = ilog2 (n div d)
        in if k \<le> 52 then (round_half_even (n * 2 ^ (52 - k)) d, 2 ^ (52 - k))
           else (round_half_even n (d * 2 ^ (k - 52)) * 2 ^ (k - 52), 1))
     else
       (let j = Suc (ilog2 ((d - 1) div n))
        in (round_half_even (n * 2 ^ (52 + j)) d, 2 ^ (52 + j))))"

definition scaled_fraction :: "nat \<Rightarrow> nat \<Rightarrow> nat \<Rightarrow> nat" where
  "scaled_fraction f unit scale =
     (let (a, b) = fl (f, 1); (c, d) = fl (unit, scale); (n, m) = fl (a * c, b * d) in n div m)"


section \<open>The parser\<close>

definition pow63 :: nat where
  "pow63 = 2 ^ 63"

text \<open>\<open>leadingInt\<close>: the value of the leading digits and the rest, or an overflow.\<close>

fun leading_int :: "nat \<Rightarrow> string \<Rightarrow> (nat \<times> string) option" where
  "leading_int x [] = Some (x, [])"
| "leading_int x (c # s) =
     (if \<not> is_digit c then Some (x, c # s)
      else if pow63 div 10 < x then None
      else (let y = x * 10 + (byte c - 48) in if pow63 < y then None else leading_int y s))"

text \<open>\<open>leadingFraction\<close>: digits that would overflow are consumed but ignored.\<close>

fun leading_fraction :: "bool \<Rightarrow> nat \<Rightarrow> nat \<Rightarrow> string \<Rightarrow> nat \<times> nat \<times> string" where
  "leading_fraction over x scale [] = (x, scale, [])"
| "leading_fraction over x scale (c # s) =
     (if \<not> is_digit c then (x, scale, c # s)
      else if over then leading_fraction True x scale s
      else if (pow63 - 1) div 10 < x then leading_fraction True x scale s
      else (let y = x * 10 + (byte c - 48)
            in if pow63 < y then leading_fraction True x scale s
               else leading_fraction False y (scale * 10) s))"

definition unit_value :: "string \<Rightarrow> nat option" where
  "unit_value u =
     (if u = ''ns'' then Some 1
      else if u = ''us'' \<or> map byte u = [194, 181, 115] \<or> map byte u = [206, 188, 115] then Some 1000
      else if u = ''ms'' then Some 1000000
      else if u = ''s'' then Some 1000000000
      else if u = ''m'' then Some 60000000000
      else if u = ''h'' then Some 3600000000000
      else None)"

definition unit_char :: "char \<Rightarrow> bool" where
  "unit_char c = (c \<noteq> CHR ''.'' \<and> \<not> is_digit c)"

text \<open>One round of the loop: a number with its unit, and the text left.\<close>

definition duration_item :: "string \<Rightarrow> (nat \<times> string) option" where
  "duration_item s =
     (if \<not> (hd s = CHR ''.'' \<or> is_digit (hd s)) then None
      else case leading_int 0 s of
          None \<Rightarrow> None
        | Some (v, s1) \<Rightarrow>
            (let pre = (length s1 \<noteq> length s);
                 dot = (s1 \<noteq> [] \<and> hd s1 = CHR ''.'');
                 (f, scale, s2) = (if dot then leading_fraction False 0 1 (tl s1) else (0, 1, s1));
                 post = (dot \<and> length s2 \<noteq> length (tl s1));
                 u = takeWhile unit_char s2; s3 = drop (length u) s2
             in if \<not> pre \<and> \<not> post then None
                else if u = [] then None
                else case unit_value u of
                    None \<Rightarrow> None
                  | Some unit \<Rightarrow>
                      if pow63 div unit < v then None
                      else (let w = v * unit + (if 0 < f then scaled_fraction f unit scale else 0)
                            in if pow63 < w then None else Some (w, s3))))"

lemma leading_int_shorter: "leading_int x s = Some (v, t) \<Longrightarrow> length t \<le> length s"
proof (induction x s rule: leading_int.induct)
  case (1 x)
  then show ?case by simp
next
  case (2 x c s)
  then show ?case by (fastforce split: if_splits simp: Let_def)
qed

lemma leading_fraction_shorter: "leading_fraction b x sc s = (f, sc', t) \<Longrightarrow> length t \<le> length s"
proof (induction b x sc s rule: leading_fraction.induct)
  case (1 over x scale)
  then show ?case by simp
next
  case (2 over x scale c s)
  then show ?case by (fastforce split: if_splits simp: Let_def)
qed

lemma duration_item_shorter:
  assumes "duration_item s = Some (w, t)"
  shows "length t < length s"
proof -
  obtain v s1 where li: "leading_int 0 s = Some (v, s1)"
    using assms by (auto simp: duration_item_def split: if_splits option.splits)
  let ?dot = "s1 \<noteq> [] \<and> hd s1 = CHR ''.''"
  obtain f scale s2 where s2: "(if ?dot then leading_fraction False 0 1 (tl s1) else (0, 1, s1)) = (f, scale, s2)"
    by (metis prod_cases3)
  let ?u = "takeWhile unit_char s2"
  have "length s2 \<le> length s1"
    using s2 leading_fraction_shorter [of False 0 1 "tl s1" f scale s2] by (auto split: if_splits)
  then have "length s2 \<le> length s" using leading_int_shorter [OF li] by simp
  moreover have u: "?u \<noteq> []" and t: "t = drop (length ?u) s2"
    using assms li s2 unfolding duration_item_def
    by (auto simp: Let_def split: if_splits option.splits)
  moreover have "length (drop (length ?u) s2) < length s2"
    using u by (cases s2) (auto simp: less_Suc_eq_le split: if_splits)
  ultimately show ?thesis by simp
qed

function duration_loop :: "nat \<Rightarrow> string \<Rightarrow> nat option" where
  "duration_loop d s =
     (if s = [] then Some d
      else case duration_item s of
          None \<Rightarrow> None
        | Some (w, t) \<Rightarrow> if pow63 < d + w then None else duration_loop (d + w) t)"
  by pat_completeness auto
termination
  by (relation "measure (\<lambda>(d, s). length s)") (auto simp: duration_item_shorter)

declare duration_loop.simps [simp del]

definition parse_duration :: "string \<Rightarrow> duration option" where
  "parse_duration s0 =
     (let neg = (s0 \<noteq> [] \<and> hd s0 = CHR ''-'');
          s = (if s0 \<noteq> [] \<and> (hd s0 = CHR ''-'' \<or> hd s0 = CHR ''+'') then tl s0 else s0)
      in if s = ''0'' then Some 0
         else if s = [] then None
         else case duration_loop 0 s of
             None \<Rightarrow> None
           | Some d \<Rightarrow>
               if neg then Some (- int d) else if pow63 - 1 < d then None else Some (int d))"

lemma duration_loop_bound: "duration_loop d s = Some r \<Longrightarrow> d \<le> pow63 \<Longrightarrow> r \<le> pow63"
proof (induction d s rule: duration_loop.induct)
  case (1 d s)
  show ?case
    using 1(2,3) 1(1) by (subst (asm) duration_loop.simps) (auto split: if_splits option.splits)
qed

lemma parse_duration_range:
  assumes "parse_duration s = Some d"
  shows "- (2 ^ 63) \<le> d \<and> d < 2 ^ 63"
  using assms duration_loop_bound [of 0]
  by (auto simp: parse_duration_def Let_def pow63_def split: if_splits option.splits)

end
