(* ===== verification/Config_Compile.thy ===== *)
theory Config_Compile
  imports Config_Model Duration
begin

text \<open>
  \<open>internal/config/config.go\<close>: \<open>compile\<close> and its parts, which turn the decoded YAML document into the
  runtime configuration, and \<open>internal/config/reload.go\<close>.  An error is the name of the field the
  message is about.  \<open>compileSystem\<close> and \<open>validateFallbacks\<close> range over Go maps, whose order is
  unspecified: the association list given here is one such order and every statement covers all.
\<close>

datatype config_error = CfgErr string | CfgDomain string domain_error

type_synonym 'a cfg = "config_error + 'a"

definition cfg_require :: "bool \<Rightarrow> string \<Rightarrow> unit cfg" where
  "cfg_require ok field = guardE ok (CfgErr field)"

definition CurrentVersion :: int where
  "CurrentVersion = 1"

section \<open>Helpers\<close>

definition defaultString :: "string \<Rightarrow> string \<Rightarrow> string" where
  "defaultString v fallback = (if v = [] then fallback else v)"

definition defaultBool :: "bool option \<Rightarrow> bool \<Rightarrow> bool" where
  "defaultBool v fallback = (case v of None \<Rightarrow> fallback | Some b \<Rightarrow> b)"

definition defaultInt :: "int \<Rightarrow> int \<Rightarrow> int" where
  "defaultInt v fallback = (if v = 0 then fallback else v)"

definition oneOf :: "string \<Rightarrow> string list \<Rightarrow> bool" where
  "oneOf v allowed = list_ex (\<lambda>c. v = c) allowed"

definition appendUnique :: "'a list \<Rightarrow> 'a \<Rightarrow> 'a list" where
  "appendUnique vs v = (if list_ex (\<lambda>e. e = v) vs then vs else vs @ [v])"

definition ident_char :: "char \<Rightarrow> bool" where
  "ident_char c = (is_lower c \<or> is_upper c \<or> is_digit c)"

definition validIdentifier :: "string \<Rightarrow> bool" where
  "validIdentifier v =
     (v \<noteq> [] \<and> hd v \<noteq> CHR ''-'' \<and> hd v \<noteq> CHR ''_'' \<and>
      list_all (\<lambda>c. ident_char c \<or> c = CHR ''-'' \<or> c = CHR ''_'') v)"

definition validInterfaceName :: "string \<Rightarrow> bool" where
  "validInterfaceName v =
     (v \<noteq> [] \<and> length v \<le> 15 \<and> list_all (\<lambda>c. ident_char c \<or> c = CHR ''_'') v)"

definition validateAbsolutePath :: "string \<Rightarrow> string \<Rightarrow> unit cfg" where
  "validateAbsolutePath name v = cfg_require (clean_absolute_path v) name"

definition parsePositiveDuration :: "string \<Rightarrow> string \<Rightarrow> duration cfg" where
  "parsePositiveDuration name v =
     (case parse_duration v of
        None \<Rightarrow> Inl (CfgErr name)
      | Some d \<Rightarrow> if d \<le> 0 then Inl (CfgErr name) else Inr d)"

definition parseIPv4 :: "string \<Rightarrow> string \<Rightarrow> addr cfg" where
  "parseIPv4 name v =
     (case parse_addr v of
        None \<Rightarrow> Inl (CfgErr name)
      | Some a \<Rightarrow>
          if \<not> is4 a \<or> is_unspecified a \<or> is_loopback a \<or> is_multicast a then Inl (CfgErr name)
          else Inr a)"

definition parseIPv6 :: "string \<Rightarrow> string \<Rightarrow> addr cfg" where
  "parseIPv6 name v =
     (case parse_addr v of
        None \<Rightarrow> Inl (CfgErr name)
      | Some a \<Rightarrow>
          if \<not> is6 a \<or> is4in6 a \<or> is_unspecified a \<or> is_multicast a then Inl (CfgErr name)
          else Inr a)"


section \<open>Sections of the configuration\<close>

definition compileLog :: "raw_log \<Rightarrow> log_cfg cfg" where
  "compileLog raw =
     (let level = defaultString (to_lower (raw_Level raw)) ''info'';
          format = defaultString (to_lower (raw_Format raw)) ''text''
      in bindE (cfg_require (oneOf level [''debug'', ''info'', ''warn'', ''error'']) ''log.level'') (\<lambda>_.
         bindE (cfg_require (oneOf format [''text'', ''json'']) ''log.format'') (\<lambda>_.
         Inr \<lparr>Level = level, Format = format\<rparr>)))"

definition compileSystem :: "raw_system \<Rightarrow> system_cfg cfg" where
  "compileSystem raw =
     (let state = defaultString (raw_StateFile raw) ''/var/run/tun-proxy/state.json'';
          lock = defaultString (raw_LockFile raw) ''/var/run/tun-proxy/tun-proxy.lock''
      in bindE (cfg_require (raw_RestoreOnExit raw \<noteq> Some False) ''system.restore_on_exit'') (\<lambda>_.
         bindE (validateAbsolutePath ''system.state_file'' state) (\<lambda>_.
         bindE (validateAbsolutePath ''system.lock_file'' lock) (\<lambda>_.
         bindE (cfg_require (state \<noteq> lock) ''system.state_file and system.lock_file'') (\<lambda>_.
         Inr \<lparr>StateFile = state, LockFile = lock, ManageDNS = defaultBool (raw_ManageDNS raw) True\<rparr>)))))"

definition compileTUN6 :: "raw_tun \<Rightarrow> (addr \<times> addr) cfg" where
  "compileTUN6 raw =
     (if raw_IPv6Address raw = [] \<and> raw_IPv6Peer raw = [] then Inr (NoAddr, NoAddr)
      else
        bindE (cfg_require (raw_IPv6Address raw \<noteq> [] \<and> raw_IPv6Peer raw \<noteq> []) ''tun.ipv6_address'') (\<lambda>_.
        bindE (parseIPv6 ''tun.ipv6_address'' (raw_IPv6Address raw)) (\<lambda>a.
        bindE (parseIPv6 ''tun.ipv6_peer'' (raw_IPv6Peer raw)) (\<lambda>b.
        bindE (cfg_require (a \<noteq> b) ''tun.ipv6_peer'') (\<lambda>_. Inr (a, b))))))"

definition compileTUN :: "raw_tun \<Rightarrow> tun_cfg cfg" where
  "compileTUN raw =
     bindE (parseIPv4 ''tun.address'' (defaultString (raw_Address raw) ''10.255.0.2'')) (\<lambda>a.
     bindE (parseIPv4 ''tun.peer'' (defaultString (raw_Peer raw) ''10.255.0.1'')) (\<lambda>p.
     bindE (cfg_require (a \<noteq> p) ''tun.peer'') (\<lambda>_.
     bindE (compileTUN6 raw) (\<lambda>(a6, p6).
       (let mtu = defaultInt (raw_MTU raw) 1400; q = defaultInt (raw_PacketQueue raw) 1024;
            b = defaultInt (raw_BufferPool raw) 128
        in bindE (cfg_require (576 \<le> mtu \<and> mtu \<le> 9000) ''tun.mtu'') (\<lambda>_.
           bindE (cfg_require (64 \<le> q \<and> q \<le> 65536) ''tun.packet_queue'') (\<lambda>_.
           bindE (cfg_require (8 \<le> b \<and> b \<le> 4096) ''tun.buffer_pool'') (\<lambda>_.
           Inr \<lparr>Address = a, Peer = p, IPv6Address = a6, IPv6Peer = p6, MTU = mtu,
                PacketQueue = q, BufferPool = b\<rparr>))))))))"

text \<open>The default and the bounds of \<open>max_mappings\<close>, the same code for both families.\<close>

definition limitMappings :: "string \<Rightarrow> int \<Rightarrow> int \<Rightarrow> int cfg" where
  "limitMappings name raw usable =
     (let n = (if raw = 0 then (if usable < 65536 then usable else 65536) else raw)
      in bindE (cfg_require (0 < n \<and> n \<le> usable) name) (\<lambda>_. Inr n))"

fun compilePatterns :: "string list \<Rightarrow> pattern list \<Rightarrow> pattern list cfg" where
  "compilePatterns [] acc = Inr acc"
| "compilePatterns (v # vs) acc =
     (case parse_pattern v of
        Inl e \<Rightarrow> Inl (CfgDomain ''fake_ip.exclude'' e)
      | Inr p \<Rightarrow> compilePatterns vs (appendUnique acc p))"

definition compileFakeIP :: "raw_fakeip \<Rightarrow> fakeip_cfg cfg" where
  "compileFakeIP raw =
     (case parse_prefix (defaultString (raw_CIDR raw) ''198.18.0.0/15'') of
        None \<Rightarrow> Inl (CfgErr ''fake_ip.cidr'')
      | Some pfx0 \<Rightarrow>
          if \<not> is4 (pfx_addr pfx0) then Inl (CfgErr ''fake_ip.cidr'')
          else
            (let pfx = pfx_masked pfx0; total = 2 ^ (32 - pfx_bits pfx) :: int
             in bindE (cfg_require (11 < total) ''fake_ip.cidr capacity'') (\<lambda>_.
                bindE (parsePositiveDuration ''fake_ip.dns_ttl'' (defaultString (raw_DNSTTL raw) ''1m'')) (\<lambda>dnsTTL.
                bindE (cfg_require (second \<le> dnsTTL) ''fake_ip.dns_ttl'') (\<lambda>_.
                bindE (parsePositiveDuration ''fake_ip.mapping_ttl'' (defaultString (raw_MappingTTL raw) ''24h''))
                  (\<lambda>mappingTTL.
                bindE (cfg_require (dnsTTL < mappingTTL) ''fake_ip.mapping_ttl'') (\<lambda>_.
                bindE (limitMappings ''fake_ip.max_mappings'' (raw_MaxMappings raw) (total - 11)) (\<lambda>n.
                  (let file = defaultString (raw_PersistenceFile raw) ''/var/lib/tun-proxy/fake-ip.yaml'';
                       excludes = (case raw_Exclude raw of
                                     None \<Rightarrow> [''localhost'', ''*.local'', ''*.lan''] | Some es \<Rightarrow> es)
                   in bindE (validateAbsolutePath ''fake_ip.persistence_file'' file) (\<lambda>_.
                      bindE (compilePatterns excludes []) (\<lambda>ps.
                      Inr \<lparr>fip_Prefix = pfx, DNSTTL = dnsTTL, MappingTTL = mappingTTL,
                           fip_MaxMappings = n, fip_PersistenceFile = file, Exclude = ps\<rparr>)))))))))))"

definition usable6 :: "nat \<Rightarrow> int cfg" where
  "usable6 hostBits =
     (if 64 < hostBits then Inr (2 ^ 64 - 1)
      else if hostBits = 64 then Inr (2 ^ 64 - 11)
      else if (2::int) ^ hostBits \<le> 11 then Inl (CfgErr ''fake_ipv6.cidr capacity'')
      else Inr (2 ^ hostBits - 11))"

definition compileFakeIPv6 :: "raw_fakeip6 \<Rightarrow> fakeip6_cfg cfg" where
  "compileFakeIPv6 raw =
     (if raw6_CIDR raw = [] then Inl (CfgErr ''fake_ipv6.cidr'')
      else case parse_prefix (raw6_CIDR raw) of
          None \<Rightarrow> Inl (CfgErr ''fake_ipv6.cidr'')
        | Some pfx0 \<Rightarrow>
            if \<not> is6 (pfx_addr pfx0) \<or> is4in6 (pfx_addr pfx0) then Inl (CfgErr ''fake_ipv6.cidr'')
            else
              (let pfx = pfx_masked pfx0;
                   file = defaultString (raw6_PersistenceFile raw) ''/var/lib/tun-proxy/fake-ipv6.yaml''
               in bindE (cfg_require (is_private (pfx_addr pfx)) ''fake_ipv6.cidr private'') (\<lambda>_.
                  bindE (usable6 (128 - pfx_bits pfx)) (\<lambda>usable.
                  bindE (limitMappings ''fake_ipv6.max_mappings'' (raw6_MaxMappings raw) usable) (\<lambda>n.
                  bindE (validateAbsolutePath ''fake_ipv6.persistence_file'' file) (\<lambda>_.
                  Inr \<lparr>fip6_Prefix = pfx, fip6_MaxMappings = n, fip6_PersistenceFile = file\<rparr>))))))"

definition compileDNS :: "raw_dns \<Rightarrow> dns_cfg cfg" where
  "compileDNS raw =
     (case parse_addrport (defaultString (raw_Listen raw) ''127.0.0.1:53'') of
        None \<Rightarrow> Inl (CfgErr ''dns.listen'')
      | Some listen \<Rightarrow>
          (let udp = defaultBool (raw_UDP raw) True; tcp = defaultBool (raw_TCP raw) True;
               n = defaultInt (raw_MaxConcurrent raw) 256
           in bindE (cfg_require (is4 (ap_addr listen) \<and> is_loopback (ap_addr listen)) ''dns.listen'') (\<lambda>_.
              bindE (cfg_require (ap_port listen \<noteq> 0) ''dns.listen port'') (\<lambda>_.
              bindE (cfg_require (udp \<or> tcp) ''dns.udp or dns.tcp'') (\<lambda>_.
              bindE (cfg_require (raw_DefaultOutbound raw \<noteq> []) ''dns.default_outbound'') (\<lambda>_.
              bindE (cfg_require (1 \<le> n \<and> n \<le> 65536) ''dns.max_concurrent'') (\<lambda>_.
              Inr \<lparr>Listen = listen, UDP = udp, TCP = tcp, DefaultOutbound = raw_DefaultOutbound raw,
                   dns_MaxConcurrent = n\<rparr>)))))))"

definition compileSessions :: "raw_sessions \<Rightarrow> sessions_cfg cfg" where
  "compileSessions raw =
     (let flows = defaultInt (raw_MaxTCPFlows raw) 1024; n = defaultInt (raw_MaxUDPSessions raw) 4096;
          per = defaultInt (raw_MaxUDPSessionsPerSource raw) 256
      in bindE (cfg_require (1 \<le> flows \<and> flows \<le> 1000000) ''sessions.max_tcp_flows'') (\<lambda>_.
         bindE (parsePositiveDuration ''sessions.udp_idle_timeout''
                 (defaultString (raw_UDPIdleTimeout raw) ''2m'')) (\<lambda>idle.
         bindE (cfg_require (1 \<le> n \<and> n \<le> 1000000) ''sessions.max_udp_sessions'') (\<lambda>_.
         bindE (cfg_require (1 \<le> per \<and> per \<le> n) ''sessions.max_udp_sessions_per_source'') (\<lambda>_.
         Inr \<lparr>MaxTCPFlows = flows, UDPIdleTimeout = idle, MaxUDPSessions = n,
              MaxUDPSessionsPerSource = per\<rparr>)))))"


section \<open>Outbounds and their fallbacks\<close>

definition compileServer :: "string \<Rightarrow> string \<Rightarrow> addrport cfg" where
  "compileServer name server =
     (case parse_addrport server of
        None \<Rightarrow> Inl (CfgErr name)
      | Some a \<Rightarrow>
          if ap_port a = 0 \<or> is_unspecified (ap_addr a) \<or> is_loopback (ap_addr a) \<or> is4in6 (ap_addr a)
          then Inl (CfgErr name) else Inr a)"

definition compileDirect :: "string \<Rightarrow> raw_outbound \<Rightarrow> outbound_cfg cfg" where
  "compileDirect name v =
     (let source = to_lower (defaultString (raw_DNSSource v) ''dhcp'')
      in bindE (cfg_require (validInterfaceName (raw_Interface v)) ''outbound.interface'') (\<lambda>_.
         bindE (cfg_require (raw_DNS v \<noteq> []) ''outbound.dns'') (\<lambda>_.
         bindE (cfg_require (oneOf source [''dhcp'', ''static'']) ''outbound.dns_source'') (\<lambda>_.
         bindE (mapE (compileServer ''outbound.dns'') (raw_DNS v)) (\<lambda>servers.
         bindE (parsePositiveDuration ''outbound.connect_timeout''
                 (defaultString (raw_ConnectTimeout v) ''10s'')) (\<lambda>timeout.
         Inr \<lparr>ob_Name = name, ob_Type = ''direct'', ob_Interface = raw_Interface v,
              ob_DNSSource = source, ob_DNS = servers, ob_ConnectTimeout = timeout,
              ob_Fallback = raw_Fallback v\<rparr>))))))"

definition compileOutbound :: "string \<Rightarrow> raw_outbound \<Rightarrow> outbound_cfg cfg" where
  "compileOutbound name v =
     bindE (cfg_require (validIdentifier name) ''outbound name'') (\<lambda>_.
       (let kind = to_lower (raw_Type v)
        in if \<not> oneOf kind [''direct'', ''reject''] then Inl (CfgErr ''outbound.type'')
           else if kind = ''reject'' then
             (if raw_Interface v \<noteq> [] \<or> raw_DNSSource v \<noteq> [] \<or> raw_DNS v \<noteq> [] \<or>
                 raw_ConnectTimeout v \<noteq> [] \<or> raw_Fallback v \<noteq> []
              then Inl (CfgErr ''reject outbound'')
              else Inr \<lparr>ob_Name = name, ob_Type = kind, ob_Interface = [], ob_DNSSource = [],
                        ob_DNS = [], ob_ConnectTimeout = 0, ob_Fallback = []\<rparr>)
           else compileDirect name v))"

fun outbounds_loop ::
  "string list \<Rightarrow> (string, raw_outbound) gomap \<Rightarrow> (string, outbound_cfg) gomap \<Rightarrow>
   (string, outbound_cfg) gomap cfg" where
  "outbounds_loop [] raw acc = Inr acc"
| "outbounds_loop (name # names) raw acc =
     bindE (compileOutbound name (the (gm_get raw name))) (\<lambda>ob.
       outbounds_loop names raw (gm_put acc name ob))"

definition compileOutbounds ::
  "(string, raw_outbound) gomap \<Rightarrow> (string, outbound_cfg) gomap cfg" where
  "compileOutbounds raw =
     (if raw = [] then Inl (CfgErr ''outbounds'')
      else outbounds_loop (sort (map fst raw)) raw [])"

datatype visit_state = Visiting | Done

definition fallback_of :: "(string, outbound_cfg) gomap \<Rightarrow> string \<Rightarrow> string" where
  "fallback_of obs name = (case gm_get obs name of None \<Rightarrow> [] | Some ob \<Rightarrow> ob_Fallback ob)"

function visit ::
  "(string, outbound_cfg) gomap \<Rightarrow> (string, visit_state) gomap \<Rightarrow> string \<Rightarrow>
   (string, visit_state) gomap cfg" where
  "visit obs states name =
     (case gm_get states name of
        Some Visiting \<Rightarrow> Inl (CfgErr ''fallback cycle'')
      | Some Done \<Rightarrow> Inr states
      | None \<Rightarrow>
          (let st = gm_put states name Visiting; nxt = fallback_of obs name
           in bindE (if nxt = [] then Inr st else visit obs st nxt) (\<lambda>st'.
                Inr (gm_put st' name Done))))"
  by pat_completeness auto
termination
proof (relation "measure (\<lambda>(obs, states, name). card (fst ` set obs - dom (gm_get states)))")
  fix obs :: "(string, outbound_cfg) gomap" and states :: "(string, visit_state) gomap" and name st nxt
  assume new: "gm_get states name = None" and st: "st = gm_put states name Visiting"
    and nxt: "nxt = fallback_of obs name" and ne: "nxt \<noteq> []"
  have "gm_has obs name" using nxt ne by (auto simp: fallback_of_def split: option.splits)
  then have "name \<in> fst ` set obs - dom (gm_get states)" using new by (simp add: domIff)
  moreover have "fst ` set obs - dom (gm_get st) = (fst ` set obs - dom (gm_get states)) - {name}"
    using st by (auto simp: domIff split: if_splits)
  ultimately have "card (fst ` set obs - dom (gm_get st)) < card (fst ` set obs - dom (gm_get states))"
    by (metis card_Diff1_less finite_Diff finite_imageI finite_set)
  then show "((obs, st, nxt), (obs, states, name)) \<in>
      measure (\<lambda>(obs, states, name). card (fst ` set obs - dom (gm_get states)))" by simp
qed simp

declare visit.simps [simp del]

definition visit_all ::
  "(string, outbound_cfg) gomap \<Rightarrow> (string, visit_state) gomap \<Rightarrow> string list \<Rightarrow>
   (string, visit_state) gomap cfg" where
  "visit_all obs states names = foldE (visit obs) states names"

fun check_fallbacks :: "(string, outbound_cfg) gomap \<Rightarrow> (string, outbound_cfg) gomap \<Rightarrow> unit cfg" where
  "check_fallbacks obs [] = Inr ()"
| "check_fallbacks obs ((name, ob) # rest) =
     (if ob_Fallback ob = [] then check_fallbacks obs rest
      else if \<not> gm_has obs (ob_Fallback ob) then Inl (CfgErr ''fallback undefined'')
      else if ob_Fallback ob = name then Inl (CfgErr ''fallback to itself'')
      else check_fallbacks obs rest)"

definition validateFallbacks :: "(string, outbound_cfg) gomap \<Rightarrow> unit cfg" where
  "validateFallbacks obs =
     bindE (check_fallbacks obs obs) (\<lambda>_.
     bindE (visit_all obs [] (map fst obs)) (\<lambda>_. Inr ()))"


section \<open>Rules\<close>

fun compileNames :: "string \<Rightarrow> string list \<Rightarrow> string list \<Rightarrow> string list cfg" where
  "compileNames field [] acc = Inr acc"
| "compileNames field (d # ds) acc =
     (case normalize d of
        Inl e \<Rightarrow> Inl (CfgDomain field e)
      | Inr n \<Rightarrow> compileNames field ds (appendUnique acc n))"

fun compileCIDRs :: "string list \<Rightarrow> ipprefix list \<Rightarrow> ipprefix list cfg" where
  "compileCIDRs [] acc = Inr acc"
| "compileCIDRs (s # ss) acc =
     (case parse_prefix s of
        None \<Rightarrow> Inl (CfgErr ''rule.ip_cidr'')
      | Some p \<Rightarrow>
          if is4in6 (pfx_addr p) then Inl (CfgErr ''rule.ip_cidr'')
          else if p \<noteq> pfx_masked p then Inl (CfgErr ''rule.ip_cidr not canonical'')
          else compileCIDRs ss (appendUnique acc p))"

definition compileRule :: "(string, outbound_cfg) gomap \<Rightarrow> nat \<Rightarrow> raw_rule \<Rightarrow> rule cfg" where
  "compileRule obs index v =
     bindE (cfg_require (gm_has obs (raw_Outbound v)) ''rule.outbound'') (\<lambda>_.
     bindE (compileNames ''rule.domain'' (raw_Domain v) []) (\<lambda>ds.
     bindE (compileNames ''rule.domain_suffix'' (raw_DomainSuffix v) []) (\<lambda>ss.
     bindE (compileCIDRs (raw_IPCIDR v) []) (\<lambda>cs.
     Inr \<lparr>rule_ID = int index + 1, Domains = ds, DomainSuffixes = ss, DestinationCIDRs = cs,
          rule_Outbound = raw_Outbound v\<rparr>))))"

text \<open>The loop over the rules; \<open>len\<close> is the number of raw rules and \<open>defaults\<close> the default count.\<close>

fun rules_loop ::
  "(string, outbound_cfg) gomap \<Rightarrow> nat \<Rightarrow> nat \<Rightarrow> nat \<Rightarrow> raw_rule list \<Rightarrow> rule list \<Rightarrow> (nat \<times> rule list) cfg"
  where
  "rules_loop obs len index defaults [] acc = Inr (defaults, acc)"
| "rules_loop obs len index defaults (v # vs) acc =
     bindE (compileRule obs index v) (\<lambda>r.
       if rule_Default r then
         (if index \<noteq> len - 1 then Inl (CfgErr ''default rule must be last'')
          else rules_loop obs len (Suc index) (Suc defaults) vs (acc @ [r]))
       else rules_loop obs len (Suc index) defaults vs (acc @ [r]))"

definition compileRules :: "raw_rule list \<Rightarrow> (string, outbound_cfg) gomap \<Rightarrow> rule list cfg" where
  "compileRules raw obs =
     (if raw = [] then Inl (CfgErr ''rules'')
      else bindE (rules_loop obs (length raw) 0 0 raw []) (\<lambda>(defaults, rs).
        if defaults \<noteq> 1 then Inl (CfgErr ''rules default count'') else Inr rs))"


section \<open>The whole document\<close>

definition compileIPv6 :: "raw_config \<Rightarrow> tun_cfg \<Rightarrow> fakeip_cfg \<Rightarrow> fakeip6_cfg option cfg" where
  "compileIPv6 raw tun fip =
     (case raw_cfg_FakeIPv6 raw of
        Some r6 \<Rightarrow>
          bindE (compileFakeIPv6 r6) (\<lambda>f6.
          bindE (cfg_require (fip6_PersistenceFile f6 \<noteq> fip_PersistenceFile fip)
                  ''fake_ipv6.persistence_file'') (\<lambda>_.
          bindE (cfg_require (is_valid (IPv6Address tun) \<and> is_valid (IPv6Peer tun)) ''tun.ipv6_address'') (\<lambda>_.
          bindE (cfg_require (\<not> pfx_contains (fip6_Prefix f6) (IPv6Address tun) \<and>
                              \<not> pfx_contains (fip6_Prefix f6) (IPv6Peer tun)) ''fake_ipv6.cidr'') (\<lambda>_.
          Inr (Some f6)))))
      | None \<Rightarrow>
          bindE (cfg_require (\<not> is_valid (IPv6Address tun) \<and> \<not> is_valid (IPv6Peer tun))
                  ''tun.ipv6_address'') (\<lambda>_. Inr None))"

definition config_compile :: "raw_config \<Rightarrow> config cfg" where
  "config_compile raw =
     bindE (cfg_require (raw_Version raw = CurrentVersion) ''version'') (\<lambda>_.
     bindE (compileLog (raw_cfg_Log raw)) (\<lambda>log.
     bindE (compileSystem (raw_cfg_System raw)) (\<lambda>sys.
     bindE (compileTUN (raw_cfg_TUN raw)) (\<lambda>tun.
     bindE (compileFakeIP (raw_cfg_FakeIP raw)) (\<lambda>fip.
     bindE (compileIPv6 raw tun fip) (\<lambda>fip6.
     bindE (compileDNS (raw_cfg_DNS raw)) (\<lambda>dns.
     bindE (compileSessions (raw_cfg_Sessions raw)) (\<lambda>sess.
     bindE (cfg_require (\<not> pfx_contains (fip_Prefix fip) (Address tun) \<and>
                         \<not> pfx_contains (fip_Prefix fip) (Peer tun)) ''fake_ip.cidr'') (\<lambda>_.
     bindE (compileOutbounds (raw_cfg_Outbounds raw)) (\<lambda>obs.
     bindE (cfg_require (gm_has obs (DefaultOutbound dns)) ''dns.default_outbound undefined'') (\<lambda>_.
     bindE (cfg_require (ob_Type (the (gm_get obs (DefaultOutbound dns))) \<noteq> ''reject'')
             ''dns.default_outbound'') (\<lambda>_.
     bindE (validateFallbacks obs) (\<lambda>_.
     bindE (compileRules (raw_cfg_Rules raw) obs) (\<lambda>rs.
     Inr \<lparr>cfg_Version = raw_Version raw, cfg_Log = log, cfg_System = sys,
          DefaultRoute = defaultBool (raw_DefaultRoute raw) False, cfg_TUN = tun, cfg_FakeIP = fip,
          cfg_FakeIPv6 = fip6, cfg_DNS = dns, cfg_Sessions = sess, cfg_Outbounds = obs,
          cfg_Rules = rs\<rparr>))))))))))))))"


section \<open>Reload\<close>

definition differs :: "string \<Rightarrow> 'a \<Rightarrow> 'a \<Rightarrow> string list" where
  "differs name l r = (if l = r then [] else [name])"

text \<open>\<open>reflect.DeepEqual\<close> of the outbound maps: the same keys with the same values.\<close>

definition same_map :: "('k, 'v) gomap \<Rightarrow> ('k, 'v) gomap \<Rightarrow> bool" where
  "same_map a b =
     (length a = length b \<and> list_all (\<lambda>(k, v). gm_get b k = gm_get a k) a)"

definition reload_failures :: "config \<Rightarrow> config \<Rightarrow> string list" where
  "reload_failures c n =
     differs ''version'' (cfg_Version c) (cfg_Version n) @
     differs ''system.state_file'' (StateFile (cfg_System c)) (StateFile (cfg_System n)) @
     differs ''system.lock_file'' (LockFile (cfg_System c)) (LockFile (cfg_System n)) @
     differs ''system.manage_dns'' (ManageDNS (cfg_System c)) (ManageDNS (cfg_System n)) @
     differs ''capture.default_route'' (DefaultRoute c) (DefaultRoute n) @
     differs ''tun.address'' (Address (cfg_TUN c)) (Address (cfg_TUN n)) @
     differs ''tun.peer'' (Peer (cfg_TUN c)) (Peer (cfg_TUN n)) @
     differs ''tun.ipv6_address'' (IPv6Address (cfg_TUN c)) (IPv6Address (cfg_TUN n)) @
     differs ''tun.ipv6_peer'' (IPv6Peer (cfg_TUN c)) (IPv6Peer (cfg_TUN n)) @
     differs ''tun.mtu'' (MTU (cfg_TUN c)) (MTU (cfg_TUN n)) @
     differs ''tun.packet_queue'' (PacketQueue (cfg_TUN c)) (PacketQueue (cfg_TUN n)) @
     differs ''tun.buffer_pool'' (BufferPool (cfg_TUN c)) (BufferPool (cfg_TUN n)) @
     differs ''fake_ip.cidr'' (fip_Prefix (cfg_FakeIP c)) (fip_Prefix (cfg_FakeIP n)) @
     differs ''fake_ip.mapping_ttl'' (MappingTTL (cfg_FakeIP c)) (MappingTTL (cfg_FakeIP n)) @
     differs ''fake_ip.max_mappings'' (fip_MaxMappings (cfg_FakeIP c)) (fip_MaxMappings (cfg_FakeIP n)) @
     differs ''fake_ip.persistence_file'' (fip_PersistenceFile (cfg_FakeIP c)) (fip_PersistenceFile (cfg_FakeIP n)) @
     (case (cfg_FakeIPv6 c, cfg_FakeIPv6 n) of
        (None, None) \<Rightarrow> []
      | (Some a, Some b) \<Rightarrow>
          differs ''fake_ipv6.cidr'' (fip6_Prefix a) (fip6_Prefix b) @
          differs ''fake_ipv6.max_mappings'' (fip6_MaxMappings a) (fip6_MaxMappings b) @
          differs ''fake_ipv6.persistence_file'' (fip6_PersistenceFile a) (fip6_PersistenceFile b)
      | _ \<Rightarrow> [''fake_ipv6'']) @
     differs ''dns.listen'' (Listen (cfg_DNS c)) (Listen (cfg_DNS n)) @
     differs ''dns.udp'' (UDP (cfg_DNS c)) (UDP (cfg_DNS n)) @
     differs ''dns.tcp'' (TCP (cfg_DNS c)) (TCP (cfg_DNS n)) @
     differs ''dns.max_concurrent'' (dns_MaxConcurrent (cfg_DNS c)) (dns_MaxConcurrent (cfg_DNS n)) @
     differs ''sessions.max_tcp_flows'' (MaxTCPFlows (cfg_Sessions c)) (MaxTCPFlows (cfg_Sessions n)) @
     differs ''sessions.max_udp_sessions'' (MaxUDPSessions (cfg_Sessions c)) (MaxUDPSessions (cfg_Sessions n)) @
     differs ''sessions.max_udp_sessions_per_source''
       (MaxUDPSessionsPerSource (cfg_Sessions c)) (MaxUDPSessionsPerSource (cfg_Sessions n)) @
     (if DefaultRoute c \<and> \<not> same_map (cfg_Outbounds c) (cfg_Outbounds n) then [''outbounds''] else [])"

definition validate_reload :: "config option \<Rightarrow> config option \<Rightarrow> string list + unit" where
  "validate_reload c n =
     (case (c, n) of
        (Some c', Some n') \<Rightarrow>
          (let fs = reload_failures c' n' in if fs = [] then Inr () else Inl fs)
      | _ \<Rightarrow> Inl [''configuration required''])"

end
