(* ===== verification/Chain.thy ===== *)
theory Chain
  imports Prelude
begin

text \<open>
  Chains of fallbacks.  A configuration gives every outbound at most one fallback, so \<open>fb\<close> maps a name
  to the next one, or to the empty string at the end of the chain.  Shared by the configuration,
  which rejects cycles, and the sessions, whose loops follow the chains.
\<close>

section \<open>Chains\<close>

inductive chain_ends :: "(string \<Rightarrow> string) \<Rightarrow> string \<Rightarrow> bool" for fb where
  last_link: "fb x = [] \<Longrightarrow> chain_ends fb x"
| next_link: "fb x \<noteq> [] \<Longrightarrow> chain_ends fb (fb x) \<Longrightarrow> chain_ends fb x"

inductive_cases chain_endsE: "chain_ends fb x"

definition link :: "(string \<Rightarrow> string) \<Rightarrow> string \<Rightarrow> string \<Rightarrow> bool" where
  "link fb x y = (y \<noteq> [] \<and> fb x = y)"

lemma chain_ends_next: "chain_ends fb x \<Longrightarrow> link fb x y \<Longrightarrow> chain_ends fb y"
  by (erule chain_endsE) (auto simp: link_def)

lemma cycle_rotate:
  assumes "(link fb)\<^sup>+\<^sup>+ x x" and "link fb x y"
  shows "(link fb)\<^sup>+\<^sup>+ y y"
proof -
  obtain z where "link fb x z" "(link fb)\<^sup>*\<^sup>* z x"
    using assms(1) by (metis tranclpD)
  moreover have "z = y" using calculation(1) assms(2) by (simp add: link_def)
  ultimately show ?thesis using assms(2) by (simp add: rtranclp_into_tranclp1)
qed

lemma chain_ends_acyclic: "chain_ends fb x \<Longrightarrow> \<not> (link fb)\<^sup>+\<^sup>+ x x"
proof (induction rule: chain_ends.induct)
  case (last_link x)
  then show ?case by (metis link_def tranclpD)
next
  case (next_link x)
  have "link fb x (fb x)" using next_link(1) by (simp add: link_def)
  then show ?case using cycle_rotate next_link(3) by blast
qed


section \<open>Length of a chain\<close>

text \<open>\<open>chain_within n x\<close>: the chain from \<open>x\<close> has at most \<open>n\<close> outbounds.\<close>

fun chain_within :: "(string \<Rightarrow> string) \<Rightarrow> nat \<Rightarrow> string \<Rightarrow> bool" where
  "chain_within fb 0 x = False"
| "chain_within fb (Suc n) x = (fb x = [] \<or> chain_within fb n (fb x))"

lemma chain_within_mono: "chain_within fb n x \<Longrightarrow> n \<le> m \<Longrightarrow> chain_within fb m x"
proof (induction n arbitrary: x m)
  case 0
  then show ?case by simp
next
  case (Suc n)
  then show ?case by (cases m) auto
qed

definition onward :: "(string \<Rightarrow> string) \<Rightarrow> string \<Rightarrow> string set" where
  "onward fb x = {y. (link fb)\<^sup>*\<^sup>* x y \<and> fb y \<noteq> []}"

lemma onward_support: "onward fb x \<subseteq> {y. fb y \<noteq> []}"
  by (auto simp: onward_def)

lemma chain_within_onward:
  assumes fin: "finite {y. fb y \<noteq> []}"
  shows "chain_ends fb x \<Longrightarrow> chain_within fb (Suc (card (onward fb x))) x"
proof (induction rule: chain_ends.induct)
  case (last_link x)
  then show ?case by simp
next
  case (next_link x)
  let ?y = "fb x"
  have lk: "link fb x ?y" using next_link(1) by (simp add: link_def)
  have sub: "onward fb ?y \<subseteq> onward fb x"
    using lk by (auto simp: onward_def intro: converse_rtranclp_into_rtranclp)
  have "x \<notin> onward fb ?y"
  proof
    assume "x \<in> onward fb ?y"
    then have "(link fb)\<^sup>+\<^sup>+ x x" using lk by (simp add: onward_def rtranclp_into_tranclp2)
    moreover have "chain_ends fb x" using next_link by (rule_tac chain_ends.next_link)
    ultimately show False using chain_ends_acyclic by blast
  qed
  moreover have "x \<in> onward fb x" using next_link(1) by (simp add: onward_def)
  ultimately have "card (onward fb ?y) < card (onward fb x)"
    using sub finite_subset [OF onward_support fin] psubset_card_mono by (metis psubsetI)
  then have "chain_within fb (card (onward fb x)) ?y" using chain_within_mono [OF next_link(3)] by simp
  then show ?case by simp
qed

lemma chain_length_bound:
  assumes "chain_ends fb x" and "{y. fb y \<noteq> []} \<subseteq> set ks"
  shows "chain_within fb (Suc (length ks)) x"
proof -
  have fin: "finite {y. fb y \<noteq> []}" by (rule finite_subset [OF assms(2)]) simp
  have "onward fb x \<subseteq> set ks" using onward_support assms(2) by blast
  then have "card (onward fb x) \<le> card (set ks)" by (rule card_mono [rotated]) simp
  also have "\<dots> \<le> length ks" by (rule card_length)
  finally show ?thesis by (intro chain_within_mono [OF chain_within_onward [OF fin assms(1)]]) simp
qed

end
