(* ===== verification/Config_Fallback.thy ===== *)
theory Config_Fallback
  imports Config_Compile Chain
begin

text \<open>
  \<open>validateFallbacks\<close> accepts exactly the configurations in which every fallback is defined and every
  chain of fallbacks ends.
\<close>

section \<open>The depth-first search\<close>

text \<open>
  The configuration and the sessions search the chains of fallbacks with the same three-colour visit; the
  sessions also check on the way that each fallback is \<open>known\<close>.  The locale holds what both rely on.
\<close>

locale fallback_search =
  fixes vis :: "(string, visit_state) gomap \<Rightarrow> string \<Rightarrow> 'e + (string, visit_state) gomap"
    and fb :: "string \<Rightarrow> string"
    and known :: "string \<Rightarrow> bool"
  assumes support: "finite {x. fb x \<noteq> []}"
    and visiting: "gm_get st n = Some Visiting \<Longrightarrow> \<exists>e. vis st n = Inl e"
    and finished: "gm_get st n = Some Done \<Longrightarrow> vis st n = Inr st"
    and leaf: "gm_get st n = None \<Longrightarrow> fb n = [] \<Longrightarrow> vis st n = Inr (gm_put (gm_put st n Visiting) n Done)"
    and unknown: "gm_get st n = None \<Longrightarrow> fb n \<noteq> [] \<Longrightarrow> \<not> known (fb n) \<Longrightarrow> \<exists>e. vis st n = Inl e"
    and inner: "gm_get st n = None \<Longrightarrow> fb n \<noteq> [] \<Longrightarrow> known (fb n) \<Longrightarrow>
      vis st n = bindE (vis (gm_put st n Visiting) (fb n)) (\<lambda>st'. Inr (gm_put st' n Done))"
begin

definition done_ok :: "(string, visit_state) gomap \<Rightarrow> bool" where
  "done_ok st = (\<forall>n. gm_get st n = Some Done \<longrightarrow> chain_ends fb n \<and> (fb n \<noteq> [] \<longrightarrow> known (fb n)))"

definition fresh :: "(string, visit_state) gomap \<Rightarrow> string set" where
  "fresh st = {x. fb x \<noteq> [] \<and> gm_get st x = None}"

lemma fresh_less: "gm_get st n = None \<Longrightarrow> fb n \<noteq> [] \<Longrightarrow> card (fresh (gm_put st n Visiting)) < card (fresh st)"
  by (rule psubset_card_mono) (auto simp: fresh_def intro: finite_subset [OF _ support])

lemma vis_sound:
  assumes "vis st n = Inr st'" and "done_ok st"
  shows "done_ok st' \<and> gm_get st' n = Some Done \<and>
         (\<forall>m. gm_get st' m = Some Visiting \<longrightarrow> gm_get st m = Some Visiting)"
  using assms
proof (induction "card (fresh st)" arbitrary: st n st' rule: less_induct)
  case less
  let ?st = "gm_put st n Visiting"
  consider (finished) "gm_get st n = Some Done" | (leaf) "gm_get st n = None" "fb n = []"
    | (inner) "gm_get st n = None" "fb n \<noteq> []" "known (fb n)"
    using less.prems(1) visiting [of st n] unknown [of st n]
    by (cases "gm_get st n") (auto, metis visit_state.exhaust)
  then show ?case
  proof cases
    case finished
    then show ?thesis using less.prems fallback_search.finished [OF fallback_search_axioms] by simp
  next
    case leaf
    then show ?thesis
      using less.prems fallback_search.leaf [OF fallback_search_axioms leaf] last_link [of fb n] by (auto simp: done_ok_def split: if_splits)
  next
    case inner
    then obtain st2 where st2: "vis ?st (fb n) = Inr st2" and st': "st' = gm_put st2 n Done"
      using less.prems(1) fallback_search.inner [OF fallback_search_axioms inner] by (auto simp: bindE_Inr_iff)
    have "done_ok ?st" using less.prems(2) by (auto simp: done_ok_def)
    then have "done_ok st2 \<and> gm_get st2 (fb n) = Some Done \<and>
        (\<forall>m. gm_get st2 m = Some Visiting \<longrightarrow> gm_get ?st m = Some Visiting)"
      using less.hyps [OF fresh_less [OF inner(1,2)] st2] by blast
    then show ?thesis using st' inner next_link [of fb n] by (auto simp: done_ok_def split: if_splits)
  qed
qed

lemma vis_complete:
  assumes "vis st n = Inl e" and "\<forall>m. gm_get st m = Some Visiting \<longrightarrow> (link fb)\<^sup>+\<^sup>+ m n"
  shows "(\<exists>x. (link fb)\<^sup>+\<^sup>+ x x) \<or> (\<exists>x. fb x \<noteq> [] \<and> \<not> known (fb x))"
  using assms
proof (induction "card (fresh st)" arbitrary: st n e rule: less_induct)
  case less
  consider (visiting) "gm_get st n = Some Visiting" | (unknown) "fb n \<noteq> []" "\<not> known (fb n)"
    | (inner) "gm_get st n = None" "fb n \<noteq> []" "known (fb n)"
    using less.prems(1) finished [of st n] leaf [of st n]
    by (cases "gm_get st n") (auto, metis visit_state.exhaust)
  then show ?case
  proof cases
    case inner
    have fail: "vis (gm_put st n Visiting) (fb n) = Inl e"
      using less.prems(1) fallback_search.inner [OF fallback_search_axioms inner] by (auto simp: bindE_Inl_iff)
    have "link fb n (fb n)" using inner(2) by (simp add: link_def)
    then have "\<forall>m. gm_get (gm_put st n Visiting) m = Some Visiting \<longrightarrow> (link fb)\<^sup>+\<^sup>+ m (fb n)"
      using less.prems(2) by (auto intro: tranclp.trancl_into_trancl split: if_splits)
    then show ?thesis using less.hyps [OF fresh_less [OF inner(1,2)] fail] by blast
  qed (use less.prems(2) in blast)+
qed

lemma all_sound:
  assumes "foldE vis st ns = Inr st'" and "done_ok st"
  shows "\<forall>n \<in> set ns. chain_ends fb n \<and> (fb n \<noteq> [] \<longrightarrow> known (fb n))"
  using assms
proof (induction ns arbitrary: st)
  case (Cons n ns)
  obtain st1 where v: "vis st n = Inr st1" and rest: "foldE vis st1 ns = Inr st'"
    using Cons.prems(1) by (auto simp: bindE_Inr_iff)
  note S = vis_sound [OF v Cons.prems(2)]
  then have "chain_ends fb n \<and> (fb n \<noteq> [] \<longrightarrow> known (fb n))" unfolding done_ok_def by blast
  then show ?case using Cons.IH [OF rest] S by simp
qed simp

lemma all_complete:
  assumes "foldE vis st ns = Inl e" and "\<forall>m. gm_get st m \<noteq> Some Visiting" and "done_ok st"
  shows "(\<exists>x. (link fb)\<^sup>+\<^sup>+ x x) \<or> (\<exists>x. fb x \<noteq> [] \<and> \<not> known (fb x))"
  using assms
proof (induction ns arbitrary: st)
  case (Cons n ns)
  show ?case
  proof (cases "vis st n")
    case (Inl e')
    then show ?thesis using vis_complete [OF Inl] Cons.prems(2) by blast
  next
    case (Inr st1)
    then have "\<forall>m. gm_get st1 m \<noteq> Some Visiting" "done_ok st1"
      using vis_sound [OF Inr Cons.prems(3)] Cons.prems(2) by blast+
    then show ?thesis using Cons.IH [of st1] Cons.prems(1) Inr by simp
  qed
qed simp

text \<open>Searching from every name that has a fallback succeeds exactly when the chains end among known names.\<close>

lemma search_iff:
  assumes "{x. fb x \<noteq> []} \<subseteq> set ns"
  shows "(\<exists>st. foldE vis [] ns = Inr st) \<longleftrightarrow> (\<forall>n \<in> set ns. chain_ends fb n \<and> (fb n \<noteq> [] \<longrightarrow> known (fb n)))"
proof
  assume "\<exists>st. foldE vis [] ns = Inr st"
  then show "\<forall>n \<in> set ns. chain_ends fb n \<and> (fb n \<noteq> [] \<longrightarrow> known (fb n))"
    using all_sound [of "[]"] by (auto simp: done_ok_def)
next
  assume R: "\<forall>n \<in> set ns. chain_ends fb n \<and> (fb n \<noteq> [] \<longrightarrow> known (fb n))"
  have "\<not> (link fb)\<^sup>+\<^sup>+ x x" for x
  proof
    assume c: "(link fb)\<^sup>+\<^sup>+ x x"
    then have "fb x \<noteq> []" by (metis link_def tranclpD)
    then show False using R assms chain_ends_acyclic [of fb x] c by blast
  qed
  then show "\<exists>st. foldE vis [] ns = Inr st"
    using all_complete [of "[]" ns] R assms
    by (cases "foldE vis [] ns") (auto simp: done_ok_def subset_iff)
qed

end

lemma fallback_support: "{y. fallback_of obs y \<noteq> []} \<subseteq> set (map fst obs)"
  by (auto simp: fallback_of_def split: option.splits)

interpretation cfg_search: fallback_search "visit obs" "fallback_of obs" "\<lambda>_. True" for obs
proof
  show "finite {x. fallback_of obs x \<noteq> []}" by (rule finite_subset [OF fallback_support]) simp
qed (subst visit.simps, simp add: Let_def)+

lemma check_fallbacks_iff:
  "check_fallbacks obs l = Inr () \<longleftrightarrow>
     (\<forall>(n, ob) \<in> set l. ob_Fallback ob = [] \<or> (gm_has obs (ob_Fallback ob) \<and> ob_Fallback ob \<noteq> n))"
  by (induction l rule: check_fallbacks.induct) auto

text \<open>Accepted means: every fallback is defined and every chain ends.\<close>

lemma validateFallbacks_iff:
  assumes wf: "gm_wf obs"
  shows "validateFallbacks obs = Inr () \<longleftrightarrow>
    (\<forall>n. gm_has obs n \<longrightarrow> (fallback_of obs n = [] \<or> gm_has obs (fallback_of obs n)) \<and> chain_ends (fallback_of obs) n)"
proof -
  have search: "(\<exists>st. visit_all obs [] (map fst obs) = Inr st) \<longleftrightarrow> (\<forall>n. gm_has obs n \<longrightarrow> chain_ends (fallback_of obs) n)"
    unfolding visit_all_def using cfg_search.search_iff [OF fallback_support, of obs] by (metis gm_keys_fst set_map)
  have check: "check_fallbacks obs obs = Inr () \<longleftrightarrow>
      (\<forall>n. gm_has obs n \<longrightarrow> fallback_of obs n = [] \<or> (gm_has obs (fallback_of obs n) \<and> fallback_of obs n \<noteq> n))"
    unfolding check_fallbacks_iff using gm_in_set_iff [OF wf] by (fastforce simp: fallback_of_def)
  have "fallback_of obs n \<noteq> n" if "chain_ends (fallback_of obs) n" "fallback_of obs n \<noteq> []" for n
  proof
    assume "fallback_of obs n = n"
    then have "link (fallback_of obs) n n" using that(2) by (simp add: link_def)
    then show False using chain_ends_acyclic [OF that(1)] by blast
  qed
  moreover have "validateFallbacks obs = Inr () \<longleftrightarrow>
      check_fallbacks obs obs = Inr () \<and> (\<exists>st. visit_all obs [] (map fst obs) = Inr st)"
    by (auto simp: validateFallbacks_def bindE_Inr_iff)
  ultimately show ?thesis unfolding search check by blast
qed

end
