(* ===== verification/Config_Properties.thy ===== *)
theory Config_Properties
  imports Config_Fallback Rules Fakeip_Invariant
begin

text \<open>
  What a configuration that \<open>compile\<close> accepts guarantees the rest of the program: the Fake IP pools
  and the rule engine can be built from it, every reference to an outbound is defined and every
  fallback chain ends, the sizes are within their bounds; and what a reload may change.
\<close>

section \<open>A concrete document\<close>

definition sample_raw :: raw_config where
  "sample_raw =
     \<lparr>raw_Version = 1,
      raw_cfg_Log = \<lparr>raw_Level = ''INFO'', raw_Format = []\<rparr>,
      raw_cfg_System = \<lparr>raw_StateFile = [], raw_LockFile = [], raw_ManageDNS = None, raw_RestoreOnExit = None\<rparr>,
      raw_DefaultRoute = None,
      raw_cfg_TUN = \<lparr>raw_Address = [], raw_Peer = [], raw_IPv6Address = ''fd01::2'', raw_IPv6Peer = ''fd01::1'',
                     raw_MTU = 0, raw_PacketQueue = 0, raw_BufferPool = 0\<rparr>,
      raw_cfg_FakeIP = \<lparr>raw_CIDR = [], raw_DNSTTL = [], raw_MappingTTL = [], raw_MaxMappings = 0,
                        raw_PersistenceFile = [], raw_Exclude = None\<rparr>,
      raw_cfg_FakeIPv6 = Some \<lparr>raw6_CIDR = ''fd00::/64'', raw6_MaxMappings = 0, raw6_PersistenceFile = []\<rparr>,
      raw_cfg_DNS = \<lparr>raw_Listen = [], raw_UDP = None, raw_TCP = None, raw_DefaultOutbound = ''wan'',
                     raw_MaxConcurrent = 0\<rparr>,
      raw_cfg_Sessions = \<lparr>raw_MaxTCPFlows = 0, raw_UDPIdleTimeout = [], raw_MaxUDPSessions = 0,
                          raw_MaxUDPSessionsPerSource = 0\<rparr>,
      raw_cfg_Outbounds =
        [(''wan'', \<lparr>raw_Type = ''direct'', raw_Interface = ''en0'', raw_DNSSource = [], raw_DNS = [''1.1.1.1:53''],
                   raw_ConnectTimeout = ''5s'', raw_Fallback = ''lan''\<rparr>),
         (''lan'', \<lparr>raw_Type = ''Direct'', raw_Interface = ''en1'', raw_DNSSource = ''static'',
                   raw_DNS = [''[fd02::1]:53''], raw_ConnectTimeout = [], raw_Fallback = []\<rparr>)],
      raw_cfg_Rules =
        [\<lparr>raw_Domain = [''Intranet.example.com''], raw_DomainSuffix = [], raw_IPCIDR = [''10.0.0.0/8''],
          raw_Outbound = ''lan''\<rparr>,
         \<lparr>raw_Domain = [], raw_DomainSuffix = [], raw_IPCIDR = [], raw_Outbound = ''wan''\<rparr>]\<rparr>"

definition sample_config :: config where
  "sample_config =
     \<lparr>cfg_Version = 1, cfg_Log = \<lparr>Level = ''info'', Format = ''text''\<rparr>,
      cfg_System = \<lparr>StateFile = ''/var/run/tun-proxy/state.json'',
                    LockFile = ''/var/run/tun-proxy/tun-proxy.lock'', ManageDNS = True\<rparr>,
      DefaultRoute = False,
      cfg_TUN = \<lparr>Address = V4 184483842, Peer = V4 184483841,
                 IPv6Address = V6 336299875230442250672291716747256397826 [],
                 IPv6Peer = V6 336299875230442250672291716747256397825 [],
                 MTU = 1400, PacketQueue = 1024, BufferPool = 128\<rparr>,
      cfg_FakeIP = \<lparr>fip_Prefix = Pfx (V4 3323068416) 15, DNSTTL = 60000000000,
                    MappingTTL = 86400000000000, fip_MaxMappings = 65536,
                    fip_PersistenceFile = ''/var/lib/tun-proxy/fake-ip.yaml'',
                    Exclude = [\<lparr>Suffix = False, Domain = ''localhost''\<rparr>,
                               \<lparr>Suffix = True, Domain = ''local''\<rparr>, \<lparr>Suffix = True, Domain = ''lan''\<rparr>]\<rparr>,
      cfg_FakeIPv6 = Some \<lparr>fip6_Prefix = Pfx (V6 336294682933583715844663186250927177728 []) 64,
                           fip6_MaxMappings = 65536,
                           fip6_PersistenceFile = ''/var/lib/tun-proxy/fake-ipv6.yaml''\<rparr>,
      cfg_DNS = \<lparr>Listen = \<lparr>ap_addr = V4 2130706433, ap_port = 53\<rparr>, UDP = True, TCP = True,
                 DefaultOutbound = ''wan'', dns_MaxConcurrent = 256\<rparr>,
      cfg_Sessions = \<lparr>MaxTCPFlows = 1024, UDPIdleTimeout = 120000000000, MaxUDPSessions = 4096,
                      MaxUDPSessionsPerSource = 256\<rparr>,
      cfg_Outbounds =
        [(''lan'', \<lparr>ob_Name = ''lan'', ob_Type = ''direct'', ob_Interface = ''en1'', ob_DNSSource = ''static'',
                   ob_DNS = [\<lparr>ap_addr = V6 336305067527300785499920247243585617921 [], ap_port = 53\<rparr>],
                   ob_ConnectTimeout = 10000000000, ob_Fallback = []\<rparr>),
         (''wan'', \<lparr>ob_Name = ''wan'', ob_Type = ''direct'', ob_Interface = ''en0'', ob_DNSSource = ''dhcp'',
                   ob_DNS = [\<lparr>ap_addr = V4 16843009, ap_port = 53\<rparr>], ob_ConnectTimeout = 5000000000,
                   ob_Fallback = ''lan''\<rparr>)],
      cfg_Rules =
        [\<lparr>rule_ID = 1, Domains = [''intranet.example.com''], DomainSuffixes = [],
          DestinationCIDRs = [Pfx (V4 167772160) 8], rule_Outbound = ''lan''\<rparr>,
         \<lparr>rule_ID = 2, Domains = [], DomainSuffixes = [], DestinationCIDRs = [], rule_Outbound = ''wan''\<rparr>]\<rparr>"

lemma sample_version: "raw_Version sample_raw = CurrentVersion"
  by code_simp

lemma sample_log: "compileLog (raw_cfg_Log sample_raw) = Inr (cfg_Log sample_config)"
  by code_simp

lemma sample_system: "compileSystem (raw_cfg_System sample_raw) = Inr (cfg_System sample_config)"
  by code_simp

lemma sample_tun_text:
  "parse_addr ''fd01::2'' = Some (V6 336299875230442250672291716747256397826 [])"
  "parse_addr ''fd01::1'' = Some (V6 336299875230442250672291716747256397825 [])"
  "parse_addr ''10.255.0.2'' = Some (V4 184483842)" "parse_addr ''10.255.0.1'' = Some (V4 184483841)"
  by code_simp+

lemma sample_tun_addresses:
  "parseIPv4 ''tun.address'' ''10.255.0.2'' = Inr (V4 184483842)"
  "parseIPv4 ''tun.peer'' ''10.255.0.1'' = Inr (V4 184483841)"
  "parseIPv6 ''tun.ipv6_address'' ''fd01::2'' = Inr (V6 336299875230442250672291716747256397826 [])"
  "parseIPv6 ''tun.ipv6_peer'' ''fd01::1'' = Inr (V6 336299875230442250672291716747256397825 [])"
  by (simp_all add: parseIPv4_def parseIPv6_def sample_tun_text)

lemma sample_tun: "compileTUN (raw_cfg_TUN sample_raw) = Inr (cfg_TUN sample_config)"
  by (simp add: compileTUN_def compileTUN6_def sample_raw_def sample_config_def sample_tun_addresses
      defaultString_def defaultInt_def cfg_require_def guardE_def)

lemma sample_fakeip: "compileFakeIP (raw_cfg_FakeIP sample_raw) = Inr (cfg_FakeIP sample_config)"
  by code_simp

lemma sample_dns: "compileDNS (raw_cfg_DNS sample_raw) = Inr (cfg_DNS sample_config)"
  by code_simp

lemma sample_sessions: "compileSessions (raw_cfg_Sessions sample_raw) = Inr (cfg_Sessions sample_config)"
  by code_simp

lemma sample_outbounds: "compileOutbounds (raw_cfg_Outbounds sample_raw) = Inr (cfg_Outbounds sample_config)"
  by code_simp

lemmas sample_sections = sample_version sample_log sample_system sample_tun sample_fakeip sample_dns sample_sessions sample_outbounds

lemma sample_ipv6:
  "compileIPv6 sample_raw (cfg_TUN sample_config) (cfg_FakeIP sample_config) = Inr (cfg_FakeIPv6 sample_config)"
  by code_simp

lemma sample_rest:
  "validateFallbacks (cfg_Outbounds sample_config) = Inr ()"
  "compileRules (raw_cfg_Rules sample_raw) (cfg_Outbounds sample_config) = Inr (cfg_Rules sample_config)"
  "\<not> pfx_contains (fip_Prefix (cfg_FakeIP sample_config)) (Address (cfg_TUN sample_config))"
  "\<not> pfx_contains (fip_Prefix (cfg_FakeIP sample_config)) (Peer (cfg_TUN sample_config))"
  "gm_get (cfg_Outbounds sample_config) (DefaultOutbound (cfg_DNS sample_config)) =
     Some (snd (last (cfg_Outbounds sample_config)))"
  "ob_Type (snd (last (cfg_Outbounds sample_config))) = ''direct''"
  by code_simp+

lemma sample_compile: "config_compile sample_raw = Inr sample_config"
proof -
  have "raw_Version sample_raw = cfg_Version sample_config"
    "defaultBool (raw_DefaultRoute sample_raw) False = DefaultRoute sample_config" by code_simp+
  then show ?thesis
    by (simp add: config_compile_def sample_sections sample_ipv6 sample_rest cfg_require_def guardE_def)
qed


section \<open>Inversion\<close>

lemma cfg_require_Inr [simp]: "cfg_require ok f = Inr u \<longleftrightarrow> ok"
  by (simp add: cfg_require_def)

text \<open>Everything \<open>compile\<close> established by the time it returns a configuration.\<close>

lemma config_compileD:
  assumes "config_compile raw = Inr cfg"
  shows "compileTUN (raw_cfg_TUN raw) = Inr (cfg_TUN cfg)"
    "compileFakeIP (raw_cfg_FakeIP raw) = Inr (cfg_FakeIP cfg)"
    "compileIPv6 raw (cfg_TUN cfg) (cfg_FakeIP cfg) = Inr (cfg_FakeIPv6 cfg)"
    "compileDNS (raw_cfg_DNS raw) = Inr (cfg_DNS cfg)"
    "compileSessions (raw_cfg_Sessions raw) = Inr (cfg_Sessions cfg)"
    "compileOutbounds (raw_cfg_Outbounds raw) = Inr (cfg_Outbounds cfg)"
    "\<exists>ob. gm_get (cfg_Outbounds cfg) (DefaultOutbound (cfg_DNS cfg)) = Some ob \<and> ob_Type ob \<noteq> ''reject''"
    "validateFallbacks (cfg_Outbounds cfg) = Inr ()"
    "compileRules (raw_cfg_Rules raw) (cfg_Outbounds cfg) = Inr (cfg_Rules cfg)"
    "\<not> pfx_contains (fip_Prefix (cfg_FakeIP cfg)) (Address (cfg_TUN cfg))"
    "\<not> pfx_contains (fip_Prefix (cfg_FakeIP cfg)) (Peer (cfg_TUN cfg))"
  using assms by (auto simp: config_compile_def bindE_Inr_iff)

lemma limitMappings_ok:
  "limitMappings f raw usable = Inr n \<Longrightarrow> 0 < n \<and> n \<le> usable \<and> (raw < 2 ^ 63 \<longrightarrow> n < 2 ^ 63)"
  by (auto simp: limitMappings_def bindE_Inr_iff Let_def split: if_splits)

lemma parsePositiveDuration_ok: "parsePositiveDuration f v = Inr d \<Longrightarrow> 0 < d \<and> d < 2 ^ 63"
  using parse_duration_range [of v d] by (auto simp: parsePositiveDuration_def split: option.splits if_splits)

lemma parse_addr_valid: "parse_addr s = Some a \<Longrightarrow> is_valid a"
proof -
  assume "parse_addr s = Some a"
  then have "parse_ipv4 s = Some a \<or> parse_ipv6 s = Some a"
    by (auto simp: parse_addr_def split: option.splits if_splits)
  moreover have "is_valid a" if "parse_ipv4 s = Some a" using that by (auto simp: parse_ipv4_def)
  moreover have "is_valid a" if "parse_ipv6 s = Some a"
    using that unfolding parse_ipv6_def Let_def by (auto split: option.splits if_splits)
  ultimately show ?thesis by blast
qed

lemma parse_prefix_wf:
  assumes "parse_prefix s = Some p"
  shows "pfx_wf p"
proof -
  obtain i a where "last_index_of (CHR ''/'') s = Some i" and a: "parse_addr (take i s) = Some a"
    and z: "addr_zone a = []" and p: "map_option (Pfx a) (parse_uint (Suc (bit_len a)) (drop (Suc i) s)) = Some p"
    using assms unfolding parse_prefix_def Let_def by (auto split: option.splits if_splits)
  from p obtain n where "p = Pfx a n" "n < Suc (bit_len a)" by (auto simp: parse_uint_def split: if_splits)
  then show ?thesis using z parse_addr_valid [OF a] by (simp add: pfx_wf_def)
qed

lemma addr_mask_zone [simp]: "addr_zone (addr_mask b a) = []"
  by (cases a) auto

lemma addr_mask_valid [simp]: "is_valid (addr_mask b a) = is_valid a"
  by (cases a) auto

lemma pfx_masked_wf: "pfx_wf p \<Longrightarrow> pfx_wf (pfx_masked p)"
  by (cases p) (auto simp: pfx_wf_def)

lemma addr_mask_4in6: "is4in6 (addr_mask b a) \<Longrightarrow> is4in6 a"
proof (cases a)
  case (V6 w z)
  assume m: "is4in6 (addr_mask b a)"
  let ?n = "128 - b"
  have eq: "drop_bit 32 (push_bit ?n (drop_bit ?n w)) = 0xffff" using m V6 by simp
  have "?n \<le> 32"
  proof (rule ccontr)
    assume "\<not> ?n \<le> 32"
    then have "\<not> bit (drop_bit 32 (push_bit ?n (drop_bit ?n w))) 0" by (simp add: bit_simps)
    then show False using eq by (simp add: bit_0)
  qed
  then have "drop_bit 32 (push_bit ?n (drop_bit ?n w)) = drop_bit 32 w"
    by (intro bit_word_eqI) (auto simp: bit_simps dest: bit_imp_le_length)
  then show ?thesis using eq V6 by simp
qed simp_all


section \<open>The pools\<close>

lemma usable_capacity_small:
  assumes "host_bits pfx < 64" and "11 < (2::int) ^ host_bits pfx"
  shows "\<exists>cap. usable_capacity pfx 10 = Inr cap \<and> uint cap = 2 ^ host_bits pfx - 11"
proof -
  let ?h = "host_bits pfx"
  have hp: "(2::int) ^ ?h < 2 ^ 64" using assms(1) by (intro power_strict_increasing) auto
  have t: "uint (push_bit ?h 1 :: 64 word) = 2 ^ ?h"
    unfolding unsigned_push_bit_eq using hp by (simp add: push_bit_eq_mult take_bit_eq_mod)
  have lt: "(11 :: 64 word) < push_bit ?h 1" using assms(2) t by (simp add: word_less_def)
  then have "uint (push_bit ?h 1 - 11 :: 64 word) = 2 ^ ?h - 11"
    using t by (simp add: uint_minus_simple_alt [THEN iffD1] less_imp_le)
  moreover have "usable_capacity pfx 10 = Inr (push_bit ?h 1 - 11)"
    using assms(1) lt by (simp add: usable_capacity_def Let_def not_le)
  ultimately show ?thesis by blast
qed

lemma usable_capacity_big:
  assumes "64 \<le> host_bits pfx"
  shows "\<exists>cap. usable_capacity pfx 10 = Inr cap \<and> uint cap = (if host_bits pfx = 64 then 2 ^ 64 - 11 else 2 ^ 64 - 1)"
  using assms by (auto simp: usable_capacity_def Let_def unsigned_minus_1_eq_mask mask_eq_exp_minus_1)

lemma new_pool_succeeds:
  assumes wf: "pfx_wf pfx" and n4: "\<not> is4in6 (pfx_addr pfx)" and ttl: "0 < ttl" and n: "0 < n" "n < 2 ^ 64"
    and cap: "usable_capacity (pfx_masked pfx) 10 = Inr cap" and le: "n \<le> uint cap"
  shows "\<exists>p. new_pool pfx ttl n 10 = Inr p"
proof -
  obtain a b where "pfx = Pfx a b" using wf by (cases pfx) (auto simp: pfx_wf_def)
  moreover have "uint (word_of_int n :: 64 word) = n"
    using n by (simp add: uint_word_of_int take_bit_eq_mod)
  then have "\<not> cap < word_of_int n" using le by (simp add: word_less_def)
  ultimately show ?thesis using n4 ttl n(1) cap by (simp add: new_pool_def Let_def)
qed

lemma host_bits_masked [simp]: "host_bits (pfx_masked p) = host_bits p"
  by (cases p) (auto simp: host_bits_def)

lemma compileFakeIP_pool:
  assumes "compileFakeIP raw = Inr fip"
  shows "pfx_wf (fip_Prefix fip)" "0 < MappingTTL fip" "fip_MaxMappings fip < 2 ^ 63"
    "\<exists>p. new_pool (fip_Prefix fip) (MappingTTL fip) (fip_MaxMappings fip) 10 = Inr p"
proof -
  obtain pfx0 where pp: "parse_prefix (defaultString (raw_CIDR raw) ''198.18.0.0/15'') = Some pfx0"
    and i4: "is4 (pfx_addr pfx0)" and pfx: "fip_Prefix fip = pfx_masked pfx0"
    and cap: "11 < (2::int) ^ (32 - pfx_bits (pfx_masked pfx0))"
    and lim: "limitMappings ''fake_ip.max_mappings'' (raw_MaxMappings raw)
                (2 ^ (32 - pfx_bits (pfx_masked pfx0)) - 11) = Inr (fip_MaxMappings fip)"
    and ttl: "parsePositiveDuration ''fake_ip.mapping_ttl'' (defaultString (raw_MappingTTL raw) ''24h'') =
                Inr (MappingTTL fip)"
    using assms by (auto simp: compileFakeIP_def bindE_Inr_iff Let_def split: option.splits if_splits
        simp del: compilePatterns.simps)
  have wf0: "pfx_wf pfx0" using parse_prefix_wf [OF pp] .
  then show wf: "pfx_wf (fip_Prefix fip)" using pfx pfx_masked_wf by simp
  show t: "0 < MappingTTL fip" using ttl parsePositiveDuration_ok by blast
  have h: "host_bits (fip_Prefix fip) = 32 - pfx_bits (pfx_masked pfx0)"
    using i4 pfx by (cases pfx0; cases "pfx_addr pfx0") (auto simp: host_bits_def)
  have n: "0 < fip_MaxMappings fip" "fip_MaxMappings fip \<le> 2 ^ (32 - pfx_bits (pfx_masked pfx0)) - 11"
    using limitMappings_ok [OF lim] by auto
  have "(2::int) ^ (32 - pfx_bits (pfx_masked pfx0)) \<le> 2 ^ 32" by (intro power_increasing) auto
  then show b: "fip_MaxMappings fip < 2 ^ 63" using n(2) by simp
  have n4: "\<not> is4in6 (pfx_addr (fip_Prefix fip))"
    using i4 pfx by (cases pfx0; cases "pfx_addr pfx0") auto
  have "host_bits (pfx_masked (fip_Prefix fip)) < 64" using h by simp
  then obtain c where "usable_capacity (pfx_masked (fip_Prefix fip)) 10 = Inr c"
    "uint c = 2 ^ (32 - pfx_bits (pfx_masked pfx0)) - 11"
    using usable_capacity_small [of "pfx_masked (fip_Prefix fip)"] h cap by auto
  then show "\<exists>p. new_pool (fip_Prefix fip) (MappingTTL fip) (fip_MaxMappings fip) 10 = Inr p"
    using new_pool_succeeds [OF wf n4 t n(1)] b n(2) by simp
qed

lemma compileFakeIPv6_pool:
  assumes "compileFakeIPv6 raw = Inr fip" and "0 < ttl"
  shows "pfx_wf (fip6_Prefix fip)" "raw6_MaxMappings raw < 2 ^ 63 \<Longrightarrow> fip6_MaxMappings fip < 2 ^ 63"
    "\<exists>p. new_pool (fip6_Prefix fip) ttl (fip6_MaxMappings fip) 10 = Inr p"
proof -
  obtain pfx0 usable where pp: "parse_prefix (raw6_CIDR raw) = Some pfx0"
    and i6: "is6 (pfx_addr pfx0)" and n46: "\<not> is4in6 (pfx_addr pfx0)" and pfx: "fip6_Prefix fip = pfx_masked pfx0"
    and us: "usable6 (128 - pfx_bits (pfx_masked pfx0)) = Inr usable"
    and lim: "limitMappings ''fake_ipv6.max_mappings'' (raw6_MaxMappings raw) usable = Inr (fip6_MaxMappings fip)"
    using assms(1) by (auto simp: compileFakeIPv6_def bindE_Inr_iff Let_def split: option.splits if_splits)
  show wf: "pfx_wf (fip6_Prefix fip)" using pfx pfx_masked_wf parse_prefix_wf [OF pp] by simp
  show "raw6_MaxMappings raw < 2 ^ 63 \<Longrightarrow> fip6_MaxMappings fip < 2 ^ 63" using limitMappings_ok [OF lim] by simp
  let ?m = "pfx_masked (fip6_Prefix fip)"
  have h: "host_bits (fip6_Prefix fip) = 128 - pfx_bits (pfx_masked pfx0)"
    using i6 pfx by (cases pfx0; cases "pfx_addr pfx0") (auto simp: host_bits_def)
  have n: "0 < fip6_MaxMappings fip" "fip6_MaxMappings fip \<le> usable" using limitMappings_ok [OF lim] by auto
  have "\<exists>c. usable_capacity ?m 10 = Inr c \<and> uint c = usable"
  proof (cases "host_bits ?m < 64")
    case True
    then have "11 < (2::int) ^ host_bits ?m" "usable = 2 ^ host_bits ?m - 11"
      using us by (auto simp: usable6_def h split: if_splits)
    then show ?thesis using usable_capacity_small [OF True] by simp
  next
    case False
    then show ?thesis using usable_capacity_big [of ?m] us by (auto simp: usable6_def h split: if_splits)
  qed
  then obtain c where c: "usable_capacity ?m 10 = Inr c" "uint c = usable" by blast
  have n4: "\<not> is4in6 (pfx_addr (fip6_Prefix fip))"
    using n46 pfx addr_mask_4in6 by (cases pfx0) auto
  have "fip6_MaxMappings fip < 2 ^ 64" using n(2) c(2) uint_lt2p [of c] by simp
  then show "\<exists>p. new_pool (fip6_Prefix fip) ttl (fip6_MaxMappings fip) 10 = Inr p"
    using new_pool_succeeds [OF wf n4 assms(2) n(1) _ c(1)] n(2) c(2) by simp
qed


section \<open>References\<close>

text \<open>What \<open>compileOutbound\<close> guarantees: a direct outbound has an interface, usable servers and a timeout.\<close>

definition server_ok :: "addrport \<Rightarrow> bool" where
  "server_ok a = (is_valid (ap_addr a) \<and> ap_port a \<noteq> 0 \<and> \<not> is_unspecified (ap_addr a) \<and>
     \<not> is_loopback (ap_addr a) \<and> \<not> is4in6 (ap_addr a))"

definition outbound_ok :: "string \<Rightarrow> outbound_cfg \<Rightarrow> bool" where
  "outbound_ok n ob =
     (n \<noteq> [] \<and> ob_Name ob = n \<and>
      (if ob_Type ob = ''reject'' then ob_Fallback ob = []
       else validInterfaceName (ob_Interface ob) \<and> ob_DNS ob \<noteq> [] \<and> (\<forall>s \<in> set (ob_DNS ob). server_ok s) \<and> 0 < ob_ConnectTimeout ob))"

lemma compileServer_ok: "compileServer f s = Inr a \<Longrightarrow> server_ok a"
  by (auto simp: compileServer_def server_ok_def parse_addrport_def Let_def parse_addr_valid
      split: option.splits if_splits)

lemma compileServers_ok:
  assumes "mapE (compileServer f) ss = Inr as" and "ss \<noteq> []"
  shows "as \<noteq> [] \<and> (\<forall>a \<in> set as. server_ok a)"
  using assms by (auto simp: mapE_Inr_iff list_all2_conv_all_nth in_set_conv_nth) (metis compileServer_ok)

lemma compileDirect_ok: "compileDirect n v = Inr ob \<Longrightarrow> n \<noteq> [] \<Longrightarrow> outbound_ok n ob"
  using compileServers_ok [of "''outbound.dns''" "raw_DNS v"] parsePositiveDuration_ok
  by (fastforce simp: outbound_ok_def compileDirect_def Let_def bindE_Inr_iff split: if_splits)

lemma compileOutbound_ok: "compileOutbound n v = Inr ob \<Longrightarrow> outbound_ok n ob"
  using compileDirect_ok [of n v ob]
  by (auto simp: outbound_ok_def compileOutbound_def validIdentifier_def Let_def bindE_Inr_iff split: if_splits)

lemma outbounds_loop_ok:
  assumes "outbounds_loop names raw acc = Inr obs" and "gm_wf acc" and "\<And>n ob. gm_get acc n = Some ob \<Longrightarrow> outbound_ok n ob"
  shows "gm_wf obs \<and> (\<forall>n. gm_has obs n \<longleftrightarrow> gm_has acc n \<or> n \<in> set names) \<and>
    (\<forall>n ob. gm_get obs n = Some ob \<longrightarrow> outbound_ok n ob)"
  using assms
proof (induction names arbitrary: acc)
  case Nil
  then show ?case by simp
next
  case (Cons n ns)
  obtain ob where ob: "compileOutbound n (the (gm_get raw n)) = Inr ob"
    and rest: "outbounds_loop ns raw (gm_put acc n ob) = Inr obs"
    using Cons.prems(1) by (auto simp: bindE_Inr_iff)
  have "gm_wf (gm_put acc n ob)" using Cons.prems(2) by blast
  moreover have "outbound_ok m o'" if "gm_get (gm_put acc n ob) m = Some o'" for m o'
    using that compileOutbound_ok [OF ob] Cons.prems(3) by (simp split: if_splits)
  ultimately have "gm_wf obs \<and> (\<forall>m. gm_has obs m \<longleftrightarrow> gm_has (gm_put acc n ob) m \<or> m \<in> set ns) \<and>
      (\<forall>m o'. gm_get obs m = Some o' \<longrightarrow> outbound_ok m o')"
    by (rule Cons.IH [OF rest])
  then show ?case by (simp add: disj_commute)
qed

lemma compileOutbounds_ok:
  assumes "compileOutbounds raw = Inr obs"
  shows "gm_wf obs" "\<And>n. gm_has obs n \<longleftrightarrow> gm_has raw n" "\<And>n ob. gm_get obs n = Some ob \<Longrightarrow> outbound_ok n ob"
proof -
  have loop: "outbounds_loop (sort (map fst raw)) raw [] = Inr obs"
    using assms by (simp add: compileOutbounds_def split: if_splits)
  have R: "gm_wf obs \<and> (\<forall>n. gm_has obs n \<longleftrightarrow> gm_has ([] :: (string, outbound_cfg) gomap) n \<or> n \<in> set (sort (map fst raw))) \<and>
    (\<forall>n ob. gm_get obs n = Some ob \<longrightarrow> outbound_ok n ob)"
    by (rule outbounds_loop_ok [OF loop]) simp_all
  then show "gm_wf obs" "\<And>n. gm_has obs n \<longleftrightarrow> gm_has raw n" "\<And>n ob. gm_get obs n = Some ob \<Longrightarrow> outbound_ok n ob"
    using gm_keys_fst [of _ raw] by simp_all
qed

lemma appendUnique_set [simp]: "set (appendUnique vs v) = insert v (set vs)"
  by (auto simp: appendUnique_def list_ex_iff)

lemma compileNames_canonical:
  "compileNames f ds acc = Inr ns \<Longrightarrow> \<forall>d \<in> set acc. canonical d \<Longrightarrow> \<forall>d \<in> set ns. canonical d"
  by (induction f ds acc rule: compileNames.induct)
     (auto split: sum.splits dest: normalize_canonical)

text \<open>What \<open>compileRule\<close> guarantees of one rule.\<close>

definition rule_ok :: "(string, outbound_cfg) gomap \<Rightarrow> rule \<Rightarrow> bool" where
  "rule_ok obs r = (gm_has obs (rule_Outbound r) \<and> (\<forall>d \<in> set (Domains r @ DomainSuffixes r). canonical d) \<and>
     (\<forall>p \<in> set (DestinationCIDRs r). pfx_wf p \<and> pfx_masked p = p \<and> \<not> is4in6 (pfx_addr p)))"

lemma compileCIDRs_ok:
  "compileCIDRs ss acc = Inr ps \<Longrightarrow> \<forall>p \<in> set acc. pfx_wf p \<and> pfx_masked p = p \<and> \<not> is4in6 (pfx_addr p) \<Longrightarrow>
   \<forall>p \<in> set ps. pfx_wf p \<and> pfx_masked p = p \<and> \<not> is4in6 (pfx_addr p)"
  by (induction ss acc rule: compileCIDRs.induct)
     (auto split: option.splits if_splits simp: parse_prefix_wf)

lemma compileRule_ok:
  assumes "compileRule obs i v = Inr r"
  shows "rule_ID r = int i + 1 \<and> rule_ok obs r"
proof -
  obtain ds ss cs where "gm_has obs (raw_Outbound v)" and n: "compileNames ''rule.domain'' (raw_Domain v) [] = Inr ds"
    "compileNames ''rule.domain_suffix'' (raw_DomainSuffix v) [] = Inr ss" and c: "compileCIDRs (raw_IPCIDR v) [] = Inr cs"
    and "r = \<lparr>rule_ID = int i + 1, Domains = ds, DomainSuffixes = ss, DestinationCIDRs = cs,
              rule_Outbound = raw_Outbound v\<rparr>"
    using assms by (auto simp: compileRule_def bindE_Inr_iff)
  then show ?thesis
    using compileNames_canonical [OF n(1)] compileNames_canonical [OF n(2)] compileCIDRs_ok [OF c]
    by (auto simp: rule_ok_def)
qed

lemma rules_loop_ok:
  assumes "rules_loop obs len i k vs acc = Inr (defaults, rs)" and "len = i + length vs" and "length acc = i"
  shows "\<exists>new. rs = acc @ new \<and> length new = length vs \<and> (\<forall>r \<in> set new. rule_ok obs r) \<and>
     map rule_ID new = map (\<lambda>j. int j + 1) [i..<len] \<and>
     defaults = k + length (filter rule_Default new) \<and> (\<forall>r \<in> set (butlast new). \<not> rule_Default r)"
  using assms
proof (induction vs arbitrary: i k acc)
  case Nil
  then show ?case by simp
next
  case (Cons v vs)
  obtain r where r: "compileRule obs i v = Inr r" using Cons.prems(1) by (auto simp: bindE_Inr_iff)
  note ok = compileRule_ok [OF r]
  let ?k = "if rule_Default r then Suc k else k"
  have def: "rule_Default r \<Longrightarrow> vs = []" and
    rest: "rules_loop obs len (Suc i) ?k vs (acc @ [r]) = Inr (defaults, rs)"
    using Cons.prems r by (auto split: if_splits)
  obtain new where N: "rs = (acc @ [r]) @ new" "length new = length vs" "\<forall>q \<in> set new. rule_ok obs q"
    "map rule_ID new = map (\<lambda>j. int j + 1) [Suc i..<len]" "defaults = ?k + length (filter rule_Default new)"
    "\<forall>q \<in> set (butlast new). \<not> rule_Default q"
    using Cons.IH [OF rest] Cons.prems(2,3) by auto
  have "[i..<len] = i # [Suc i..<len]" using Cons.prems(2) upt_conv_Cons [of i len] by simp
  moreover have "new = [] \<longleftrightarrow> vs = []" using N(2) by (metis length_0_conv)
  then have "\<forall>q \<in> set (butlast (r # new)). \<not> rule_Default q" using N(6) def by auto
  ultimately show ?case using N ok by (intro exI [of _ "r # new"]) auto
qed

lemma compileRules_ok:
  assumes "compileRules raw obs = Inr rs"
  shows "rs \<noteq> []" "rule_Default (last rs)" "\<forall>r \<in> set (butlast rs). \<not> rule_Default r"
    "\<forall>r \<in> set rs. rule_ok obs r" "map rule_ID rs = map (\<lambda>j. int j + 1) [0..<length raw]"
proof -
  have loop: "rules_loop obs (length raw) 0 0 raw [] = Inr (1, rs)" and ne: "raw \<noteq> []"
    using assms by (auto simp: compileRules_def bindE_Inr_iff split: if_splits)
  have R: "length rs = length raw" "\<forall>r \<in> set rs. rule_ok obs r"
    "map rule_ID rs = map (\<lambda>j. int j + 1) [0..<length raw]" "length (filter rule_Default rs) = 1"
    "\<forall>r \<in> set (butlast rs). \<not> rule_Default r"
    using rules_loop_ok [OF loop] by auto
  show "rs \<noteq> []" using R(1) ne by auto
  then have "rs = butlast rs @ [last rs]" by simp
  then have "filter rule_Default rs = filter rule_Default [last rs]"
    using R(5) by (metis append_Nil filter_append filter_False)
  then show "rule_Default (last rs)" using R(4) by (auto split: if_splits)
  show "\<forall>r \<in> set (butlast rs). \<not> rule_Default r" "\<forall>r \<in> set rs. rule_ok obs r"
    "map rule_ID rs = map (\<lambda>j. int j + 1) [0..<length raw]" using R by blast+
qed


section \<open>Reload\<close>

text \<open>The part of a configuration a running process cannot change.\<close>

definition frozen_pools :: "config \<Rightarrow>
  ipprefix \<times> duration \<times> int \<times> string \<times> (ipprefix \<times> int \<times> string) option" where
  "frozen_pools c =
     (fip_Prefix (cfg_FakeIP c), MappingTTL (cfg_FakeIP c), fip_MaxMappings (cfg_FakeIP c),
      fip_PersistenceFile (cfg_FakeIP c),
      map_option (\<lambda>f. (fip6_Prefix f, fip6_MaxMappings f, fip6_PersistenceFile f)) (cfg_FakeIPv6 c))"

definition frozen_host :: "config \<Rightarrow> int \<times> system_cfg \<times> bool \<times> tun_cfg \<times> addrport \<times> bool \<times> bool" where
  "frozen_host c = (cfg_Version c, cfg_System c, DefaultRoute c, cfg_TUN c, Listen (cfg_DNS c), UDP (cfg_DNS c), TCP (cfg_DNS c))"

definition frozen_limits :: "config \<Rightarrow> int \<times> int \<times> int \<times> int" where
  "frozen_limits c = (dns_MaxConcurrent (cfg_DNS c), MaxTCPFlows (cfg_Sessions c), MaxUDPSessions (cfg_Sessions c),
     MaxUDPSessionsPerSource (cfg_Sessions c))"

definition frozen_outbounds :: "config \<Rightarrow> (string \<rightharpoonup> outbound_cfg) option" where
  "frozen_outbounds c = (if DefaultRoute c then Some (gm_get (cfg_Outbounds c)) else None)"

lemma differs_Nil [simp]: "differs n l r = [] \<longleftrightarrow> l = r"
  by (simp add: differs_def)

lemma same_map_iff:
  assumes "gm_wf a" and "gm_wf b"
  shows "same_map a b \<longleftrightarrow> gm_get a = gm_get b"
proof
  assume sm: "same_map a b"
  have in_b: "gm_get b k = Some v" if "gm_get a k = Some v" for k v
    using sm that gm_get_in_set [OF that] by (auto simp: same_map_def list_all_iff)
  then have "dom (gm_get a) \<subseteq> dom (gm_get b)" by (auto simp: domIff)
  moreover have "card (dom (gm_get a)) = card (dom (gm_get b))"
    using sm gm.len_card [OF assms(1)] gm.len_card [OF assms(2)] by (simp add: same_map_def)
  ultimately have "dom (gm_get a) = dom (gm_get b)"
    using card_subset_eq [OF gm.finite_get [OF assms(2)]] by blast
  then have "gm_get a k = gm_get b k" for k
    using in_b [of k] by (cases "gm_get a k") (simp_all, metis domIff)
  then show "gm_get a = gm_get b" by blast
next
  assume "gm_get a = gm_get b"
  then show "same_map a b"
    using gm.len_card [OF assms(1)] gm.len_card [OF assms(2)] by (simp add: same_map_def list_all_iff)
qed

lemma record_splits:
  "(a :: system_cfg) = b \<longleftrightarrow> StateFile a = StateFile b \<and> LockFile a = LockFile b \<and> ManageDNS a = ManageDNS b"
  "(t :: tun_cfg) = u \<longleftrightarrow> Address t = Address u \<and> Peer t = Peer u \<and> IPv6Address t = IPv6Address u \<and>
     IPv6Peer t = IPv6Peer u \<and> MTU t = MTU u \<and> PacketQueue t = PacketQueue u \<and> BufferPool t = BufferPool u"
  by (cases a; cases b; simp) (cases t; cases u; simp)


section \<open>Bounds of the sections\<close>

lemma compileIPv6_Some:
  "compileIPv6 raw tun fip = Inr (Some f6) \<Longrightarrow> \<exists>r6. raw_cfg_FakeIPv6 raw = Some r6 \<and> compileFakeIPv6 r6 = Inr f6"
  by (auto simp: compileIPv6_def bindE_Inr_iff split: option.splits)

lemma compileTUN_bounds:
  "compileTUN raw = Inr t \<Longrightarrow> 576 \<le> MTU t \<and> MTU t \<le> 9000 \<and> 64 \<le> PacketQueue t \<and> PacketQueue t \<le> 65536 \<and>
   8 \<le> BufferPool t \<and> BufferPool t \<le> 4096"
  by (auto simp: compileTUN_def bindE_Inr_iff Let_def)

lemma compileFakeIP_bounds:
  "compileFakeIP raw = Inr f \<Longrightarrow> second \<le> DNSTTL f \<and> DNSTTL f < MappingTTL f \<and> MappingTTL f < 2 ^ 63"
  using parsePositiveDuration_ok
  by (fastforce simp: compileFakeIP_def bindE_Inr_iff Let_def split: option.splits if_splits
      simp del: compilePatterns.simps)

lemma compileSessions_bounds:
  "compileSessions raw = Inr s \<Longrightarrow> 0 < UDPIdleTimeout s \<and> UDPIdleTimeout s < 2 ^ 63 \<and>
   1 \<le> MaxUDPSessionsPerSource s \<and> MaxUDPSessionsPerSource s \<le> MaxUDPSessions s \<and> MaxUDPSessions s \<le> 1000000"
  using parsePositiveDuration_ok by (fastforce simp: compileSessions_def bindE_Inr_iff Let_def)

lemma compileDNS_bounds:
  "compileDNS raw = Inr d \<Longrightarrow> is_loopback (ap_addr (Listen d)) \<and> 0 < ap_port (Listen d)"
  by (auto simp: compileDNS_def bindE_Inr_iff Let_def split: option.splits)


section \<open>TUN addresses with a zone\<close>

text \<open>
  \<open>netip.Prefix.Contains\<close> is false of every address with a zone, so a TUN address inside
  \<open>fake_ipv6.cidr\<close> passes the overlap test of \<open>compile\<close> when it is written with a zone.
\<close>

definition zoned_tun :: "tun_cfg" where
  "zoned_tun = (cfg_TUN sample_config)\<lparr>IPv6Address := V6 336294682933583715844663186250927177730 ''en0''\<rparr>"

lemma zoned_tun_address_accepted:
  "parse_addr ''fd00::2%en0'' = Some (IPv6Address zoned_tun)"
  "is_ok (compileIPv6 sample_raw zoned_tun (cfg_FakeIP sample_config))"
  "pfx_contains (fip6_Prefix (the (cfg_FakeIPv6 sample_config))) (V6 336294682933583715844663186250927177730 [])"
  by code_simp+


section \<open>Properties\<close>

text \<open>
  From a configuration that \<open>compile\<close> accepts both Fake IP pools can always be constructed with
  the ten reserved addresses the program asks for, and they start in a state that satisfies the
  pool invariant; the capacity check of the configuration and the one of the pool agree.
\<close>

lemma compiled_pools_start:
  assumes "config_compile raw = Inr cfg"
    and "\<And>r6. raw_cfg_FakeIPv6 raw = Some r6 \<Longrightarrow> raw6_MaxMappings r6 < 2 ^ 63"
  shows "(\<exists>p. new_pool (fip_Prefix (cfg_FakeIP cfg)) (MappingTTL (cfg_FakeIP cfg))
                (fip_MaxMappings (cfg_FakeIP cfg)) 10 = Inr p \<and> pool_inv p) \<and>
         (\<forall>f6. cfg_FakeIPv6 cfg = Some f6 \<longrightarrow>
            (\<exists>p. new_pool (fip6_Prefix f6) (MappingTTL (cfg_FakeIP cfg)) (fip6_MaxMappings f6) 10 = Inr p \<and>
                 pool_inv p))"
proof -
  note F = compileFakeIP_pool [OF config_compileD(2) [OF assms(1)]]
  have "\<exists>p. new_pool (fip6_Prefix f6) (MappingTTL (cfg_FakeIP cfg)) (fip6_MaxMappings f6) 10 = Inr p \<and> pool_inv p"
    if f6: "cfg_FakeIPv6 cfg = Some f6" for f6
  proof -
    obtain r6 where r6: "raw_cfg_FakeIPv6 raw = Some r6" "compileFakeIPv6 r6 = Inr f6"
      using compileIPv6_Some config_compileD(3) [OF assms(1)] f6 by metis
    note G = compileFakeIPv6_pool [OF r6(2) F(2)]
    show ?thesis using G(3) new_pool_inv [OF _ G(1) G(2) [OF assms(2) [OF r6(1)]]] by fastforce
  qed
  moreover have "\<exists>p. new_pool (fip_Prefix (cfg_FakeIP cfg)) (MappingTTL (cfg_FakeIP cfg))
      (fip_MaxMappings (cfg_FakeIP cfg)) 10 = Inr p \<and> pool_inv p"
    using F(4) new_pool_inv [OF _ F(1,3)] by fastforce
  ultimately show ?thesis by blast
qed

text \<open>
  C25: \<open>validateFallbacks\<close> accepts a set of outbounds exactly when every configured fallback is defined
  and following fallbacks from any outbound comes to an end, whatever the order in which the map
  is visited.
\<close>

theorem fallbacks_valid_iff:
  assumes "gm_wf obs"
  shows "validateFallbacks obs = Inr () \<longleftrightarrow>
    (\<forall>n. gm_has obs n \<longrightarrow> (fallback_of obs n = [] \<or> gm_has obs (fallback_of obs n)) \<and> chain_ends (fallback_of obs) n)"
  by (rule validateFallbacks_iff [OF assms])

theorem fallbacks_valid_iff_witness:
  "validateFallbacks (cfg_Outbounds sample_config) = Inr () \<longleftrightarrow>
    (\<forall>n. gm_has (cfg_Outbounds sample_config) n \<longrightarrow>
      (fallback_of (cfg_Outbounds sample_config) n = [] \<or>
       gm_has (cfg_Outbounds sample_config) (fallback_of (cfg_Outbounds sample_config) n)) \<and>
      chain_ends (fallback_of (cfg_Outbounds sample_config)) n)"
  by (rule fallbacks_valid_iff) (simp add: sample_config_def gm_wf_def)

text \<open>
  C30: Every name a compiled configuration refers to is defined: the DNS default outbound is a direct
  outbound, rules and fallbacks name defined outbounds, a fallback chain visits at most as many
  outbounds as there are; the rules end in the only default rule, are numbered from one, carry
  canonical domains and masked prefixes, and the rule engine accepts them.
\<close>

theorem compiled_references_closed:
  assumes "config_compile raw = Inr cfg"
  shows "(\<exists>ob. gm_get (cfg_Outbounds cfg) (DefaultOutbound (cfg_DNS cfg)) = Some ob \<and> ob_Type ob \<noteq> ''reject'') \<and>
    (\<forall>n. gm_has (cfg_Outbounds cfg) n \<longrightarrow>
       chain_within (fallback_of (cfg_Outbounds cfg)) (Suc (length (cfg_Outbounds cfg))) n \<and>
       (fallback_of (cfg_Outbounds cfg) n = [] \<or> gm_has (cfg_Outbounds cfg) (fallback_of (cfg_Outbounds cfg) n))) \<and>
    (\<forall>r \<in> set (cfg_Rules cfg). rule_ok (cfg_Outbounds cfg) r) \<and>
    (\<forall>r \<in> set (butlast (cfg_Rules cfg)). \<not> rule_Default r) \<and>
    map rule_ID (cfg_Rules cfg) = map (\<lambda>j. int j + 1) [0..<length (raw_cfg_Rules raw)] \<and>
    (\<exists>eng. new_engine (cfg_Rules cfg) = Inr eng)"
proof -
  note D = config_compileD [OF assms]
  have wf: "gm_wf (cfg_Outbounds cfg)" using compileOutbounds_ok(1) [OF D(6)] .
  note R = compileRules_ok [OF D(9)]
  have "\<exists>eng. new_engine (cfg_Rules cfg) = Inr eng" using R(1,2) by (simp add: new_engine_Inr_iff)
  moreover have "\<forall>n. gm_has (cfg_Outbounds cfg) n \<longrightarrow>
       chain_within (fallback_of (cfg_Outbounds cfg)) (Suc (length (cfg_Outbounds cfg))) n \<and>
       (fallback_of (cfg_Outbounds cfg) n = [] \<or> gm_has (cfg_Outbounds cfg) (fallback_of (cfg_Outbounds cfg) n))"
    using D(8) chain_length_bound [OF _ fallback_support [of "cfg_Outbounds cfg"]]
    unfolding validateFallbacks_iff [OF wf] length_map by blast
  ultimately show ?thesis using D(7) R(3,4,5) by blast
qed

theorem compiled_references_closed_witness:
  "(\<exists>eng. new_engine (cfg_Rules sample_config) = Inr eng) \<and>
   rule_ok (cfg_Outbounds sample_config) (hd (cfg_Rules sample_config)) \<and>
   chain_within (fallback_of (cfg_Outbounds sample_config)) 3 ''wan''"
proof -
  have "hd (cfg_Rules sample_config) \<in> set (cfg_Rules sample_config)"
    "gm_has (cfg_Outbounds sample_config) ''wan''" "Suc (length (cfg_Outbounds sample_config)) = 3"
    by (simp_all add: sample_config_def gm_get_Cons)
  then show ?thesis using compiled_references_closed [OF sample_compile] by metis
qed

text \<open>
  C31: The sizes of a compiled configuration are within the bounds the rest of the program relies on:
  an MTU of 576 to 9000, queues and pools of bounded size, positive timeouts that fit a
  \<open>time.Duration\<close>, a DNS time to live of at least a second and below the mapping lifetime, a
  per-source session limit within the total, a loopback listener with a port, and a Fake IP
  prefix that does not contain the TUN addresses.
\<close>

theorem compiled_bounds:
  assumes "config_compile raw = Inr cfg"
  shows "576 \<le> MTU (cfg_TUN cfg) \<and> MTU (cfg_TUN cfg) \<le> 9000 \<and>
    64 \<le> PacketQueue (cfg_TUN cfg) \<and> PacketQueue (cfg_TUN cfg) \<le> 65536 \<and>
    8 \<le> BufferPool (cfg_TUN cfg) \<and> BufferPool (cfg_TUN cfg) \<le> 4096 \<and>
    second \<le> DNSTTL (cfg_FakeIP cfg) \<and> DNSTTL (cfg_FakeIP cfg) < MappingTTL (cfg_FakeIP cfg) \<and>
    MappingTTL (cfg_FakeIP cfg) < 2 ^ 63 \<and>
    0 < UDPIdleTimeout (cfg_Sessions cfg) \<and> UDPIdleTimeout (cfg_Sessions cfg) < 2 ^ 63 \<and>
    1 \<le> MaxUDPSessionsPerSource (cfg_Sessions cfg) \<and>
    MaxUDPSessionsPerSource (cfg_Sessions cfg) \<le> MaxUDPSessions (cfg_Sessions cfg) \<and>
    MaxUDPSessions (cfg_Sessions cfg) \<le> 1000000 \<and>
    is_loopback (ap_addr (Listen (cfg_DNS cfg))) \<and> 0 < ap_port (Listen (cfg_DNS cfg)) \<and>
    \<not> pfx_contains (fip_Prefix (cfg_FakeIP cfg)) (Address (cfg_TUN cfg)) \<and>
    \<not> pfx_contains (fip_Prefix (cfg_FakeIP cfg)) (Peer (cfg_TUN cfg))"
proof -
  note D = config_compileD [OF assms]
  show ?thesis
    using compileTUN_bounds [OF D(1)] compileFakeIP_bounds [OF D(2)] compileSessions_bounds [OF D(5)]
      compileDNS_bounds [OF D(4)] D(10,11) by blast
qed

theorem compiled_bounds_witness:
  "MTU (cfg_TUN sample_config) \<le> 9000 \<and> DNSTTL (cfg_FakeIP sample_config) < MappingTTL (cfg_FakeIP sample_config) \<and>
   MaxUDPSessionsPerSource (cfg_Sessions sample_config) \<le> MaxUDPSessions (cfg_Sessions sample_config)"
  using compiled_bounds [OF sample_compile] by blast

text \<open>
  C32: A reload is accepted exactly when it keeps everything that host state and the shared pools
  depend on: the host settings, the pool parameters of both families, the concurrency limits, and,
  while the default route is captured, the outbounds as a map, independently of their order.
\<close>

theorem reload_accepts_iff:
  assumes "gm_wf (cfg_Outbounds c)" and "gm_wf (cfg_Outbounds n)"
  shows "validate_reload (Some c) (Some n) = Inr () \<longleftrightarrow>
    frozen_host c = frozen_host n \<and> frozen_pools c = frozen_pools n \<and> frozen_limits c = frozen_limits n \<and>
    frozen_outbounds c = frozen_outbounds n"
  using same_map_iff [OF assms]
  by (auto simp: validate_reload_def reload_failures_def Let_def frozen_host_def frozen_pools_def
      frozen_limits_def frozen_outbounds_def record_splits split: option.splits)

theorem reload_accepts_iff_witness:
  "validate_reload (Some sample_config) (Some (sample_config\<lparr>cfg_Rules := []\<rparr>)) = Inr () \<longleftrightarrow>
    frozen_host sample_config = frozen_host (sample_config\<lparr>cfg_Rules := []\<rparr>) \<and>
    frozen_pools sample_config = frozen_pools (sample_config\<lparr>cfg_Rules := []\<rparr>) \<and>
    frozen_limits sample_config = frozen_limits (sample_config\<lparr>cfg_Rules := []\<rparr>) \<and>
    frozen_outbounds sample_config = frozen_outbounds (sample_config\<lparr>cfg_Rules := []\<rparr>)"
  by (rule reload_accepts_iff) (simp_all add: sample_config_def gm_wf_def)

end
