(* ===== verification/Outbound.thy ===== *)
theory Outbound
  imports Netip
begin

text \<open>
  \<open>internal/outbound\<close>: the classification of dial and resolve failures (\<open>errors.go\<close>) and the direct
  dialer (\<open>dial_darwin.go\<close>).  A Go \<open>error\<close> is a tree: wrapping with \<open>%w\<close>, joining with \<open>errors.Join\<close>,
  and leaves.  The leaves the sources tell apart are constructors; any other one is \<open>Opaque\<close>.
\<close>

datatype goerr =
    Opaque string
  | Canceled                     \<comment> \<open>\<open>context.Canceled\<close>\<close>
  | DeadlineExceeded             \<comment> \<open>\<open>context.DeadlineExceeded\<close>, a \<open>net.Error\<close> with \<open>Timeout\<close>\<close>
  | ErrRejected
  | Errno nat                    \<comment> \<open>\<open>syscall.Errno\<close> on Darwin\<close>
  | InterfaceUnavailable string goerr
  | NetError bool "goerr option" \<comment> \<open>a \<open>net.Error\<close>: its \<open>Timeout()\<close> and what it unwraps to\<close>
  | ResponseError string nat     \<comment> \<open>\<open>resolver.ResponseError\<close>\<close>
  | ErrNoIPv4Address
  | ErrNoIPv6Address
  | Wrapped string goerr         \<comment> \<open>\<open>fmt.Errorf\<close> with \<open>%w\<close>\<close>
  | Joined "goerr list"          \<comment> \<open>\<open>errors.Join\<close>\<close>

section \<open>The \<open>errors\<close> package\<close>

text \<open>\<open>errors.Is\<close> with a comparable target: some error of the tree is the target.\<close>

fun errors_is :: "goerr \<Rightarrow> goerr \<Rightarrow> bool" where
  "errors_is target (InterfaceUnavailable i e) = (target = InterfaceUnavailable i e \<or> errors_is target e)"
| "errors_is target (NetError t None) = (target = NetError t None)"
| "errors_is target (NetError t (Some e)) = (target = NetError t (Some e) \<or> errors_is target e)"
| "errors_is target (Wrapped m e) = (target = Wrapped m e \<or> errors_is target e)"
| "errors_is target (Joined es) = (target = Joined es \<or> (\<exists>e \<in> set es. errors_is target e))"
| "errors_is target e = (target = e)"

text \<open>\<open>errors.Unwrap\<close>: the single wrapped error, if there is one; a joined error has none.\<close>

fun errors_unwrap :: "goerr \<Rightarrow> goerr option" where
  "errors_unwrap (InterfaceUnavailable _ e) = Some e"
| "errors_unwrap (NetError _ e) = e"
| "errors_unwrap (Wrapped _ e) = Some e"
| "errors_unwrap _ = None"

text \<open>\<open>err.(net.Error)\<close> succeeds and \<open>Timeout()\<close> holds; \<open>Errno\<close> reports \<open>EAGAIN\<close> and \<open>ETIMEDOUT\<close>.\<close>

fun net_timeout :: "goerr \<Rightarrow> bool" where
  "net_timeout (NetError t _) = t"
| "net_timeout DeadlineExceeded = True"
| "net_timeout (Errno n) = (n = 35 \<or> n = 60)"
| "net_timeout _ = False"

text \<open>\<open>errors.As(err, &responseErr)\<close>: the first \<open>ResponseError\<close> in depth-first order.\<close>

fun as_response :: "goerr \<Rightarrow> nat option" and as_response_list :: "goerr list \<Rightarrow> nat option" where
  "as_response (ResponseError d c) = Some c"
| "as_response (InterfaceUnavailable _ e) = as_response e"
| "as_response (NetError _ (Some e)) = as_response e"
| "as_response (Wrapped _ e) = as_response e"
| "as_response (Joined es) = as_response_list es"
| "as_response _ = None"
| "as_response_list [] = None"
| "as_response_list (e # es) =
     (case as_response e of None \<Rightarrow> as_response_list es | Some c \<Rightarrow> Some c)"


section \<open>Recoverable failures\<close>

text \<open>\<open>ENETDOWN\<close>, \<open>ENETUNREACH\<close>, \<open>EHOSTUNREACH\<close>, \<open>ETIMEDOUT\<close>, \<open>ENXIO\<close>, \<open>EADDRNOTAVAIL\<close> on Darwin.\<close>

definition recoverable_errno :: "nat \<Rightarrow> bool" where
  "recoverable_errno n = (n = 50 \<or> n = 51 \<or> n = 65 \<or> n = 60 \<or> n = 6 \<or> n = 49)"

function is_recoverable :: "goerr \<Rightarrow> bool" where
  "is_recoverable e =
     (if errors_is Canceled e \<or> errors_is ErrRejected e then False
      else case e of
          Joined es \<Rightarrow> es \<noteq> [] \<and> (\<forall>c \<in> set es. is_recoverable c)
        | InterfaceUnavailable _ _ \<Rightarrow> True
        | _ \<Rightarrow>
            if net_timeout e then True
            else case errors_unwrap e of
                Some c \<Rightarrow> is_recoverable c
              | None \<Rightarrow> (case e of Errno n \<Rightarrow> recoverable_errno n | _ \<Rightarrow> False))"
  by pat_completeness auto
termination
proof (relation "measure size")
  show "wf (measure size)" by simp
next
  fix e es c assume "e = Joined es" and "c \<in> set es"
  then show "(c, e) \<in> measure size" by (simp add: less_Suc_eq_le size_list_estimation')
qed (auto elim: errors_unwrap.elims)

declare is_recoverable.simps [simp del]

text \<open>The environment failures a fallback is meant for.\<close>

fun environment_failure :: "goerr \<Rightarrow> bool" where
  "environment_failure (InterfaceUnavailable _ _) = True"
| "environment_failure (NetError t e) = (t \<or> (case e of None \<Rightarrow> False | Some c \<Rightarrow> environment_failure c))"
| "environment_failure DeadlineExceeded = True"
| "environment_failure (Errno n) = (n = 35 \<or> recoverable_errno n)"
| "environment_failure (Wrapped _ e) = environment_failure e"
| "environment_failure (Joined es) = (es \<noteq> [] \<and> (\<forall>e \<in> set es. environment_failure e))"
| "environment_failure _ = False"

lemma is_recoverable_clean: "is_recoverable e \<Longrightarrow> \<not> errors_is Canceled e \<and> \<not> errors_is ErrRejected e"
  by (subst (asm) is_recoverable.simps) (simp split: if_splits)

lemma is_recoverable_parts:
  "is_recoverable (Joined es) \<Longrightarrow> es \<noteq> [] \<and> (\<forall>c \<in> set es. is_recoverable c)"
  "is_recoverable (NetError t w) \<Longrightarrow> t \<or> (\<exists>c. w = Some c \<and> is_recoverable c)"
  "is_recoverable (Wrapped m c) \<Longrightarrow> is_recoverable c"
  "is_recoverable (Errno n) \<Longrightarrow> n = 35 \<or> recoverable_errno n"
  "\<not> is_recoverable (Opaque m)" "\<not> is_recoverable Canceled" "\<not> is_recoverable ErrRejected"
  "\<not> is_recoverable (ResponseError d k)" "\<not> is_recoverable ErrNoIPv4Address" "\<not> is_recoverable ErrNoIPv6Address"
proof -
  show "is_recoverable (Joined es) \<Longrightarrow> es \<noteq> [] \<and> (\<forall>c \<in> set es. is_recoverable c)"
    by (subst (asm) is_recoverable.simps) (simp split: if_splits)
  show "is_recoverable (NetError t w) \<Longrightarrow> t \<or> (\<exists>c. w = Some c \<and> is_recoverable c)"
    by (subst (asm) is_recoverable.simps) (simp split: if_splits option.splits)
  show "is_recoverable (Wrapped m c) \<Longrightarrow> is_recoverable c"
    by (subst (asm) is_recoverable.simps) (simp split: if_splits)
  show "is_recoverable (Errno n) \<Longrightarrow> n = 35 \<or> recoverable_errno n"
    by (subst (asm) is_recoverable.simps) (auto simp: recoverable_errno_def split: if_splits)
qed (subst is_recoverable.simps, simp)+

lemma is_recoverable_environment: "is_recoverable e \<Longrightarrow> environment_failure e"
proof (induction e)
  case (NetError t w)
  then show ?case using is_recoverable_parts(2) [OF NetError.prems] by auto
next
  case (Joined es)
  then show ?case using is_recoverable_parts(1) [OF Joined.prems] by auto
next
  case (Wrapped m c)
  then show ?case using is_recoverable_parts(3) by simp
qed (use is_recoverable_parts(4-) in auto)


section \<open>The direct dialer\<close>

record direct =
  d_name :: string
  d_interface :: string
  d_timeout :: duration

definition new_direct :: "string \<Rightarrow> string \<Rightarrow> duration \<Rightarrow> goerr + direct" where
  "new_direct name interfaceName connectTimeout =
     (if name = [] then Inl (Opaque ''direct outbound name is required'')
      else if interfaceName = [] then Inl (Opaque ''direct outbound interface is required'')
      else if connectTimeout \<le> 0 then Inl (Opaque ''direct outbound connect timeout must be positive'')
      else Inr \<lparr>d_name = name, d_interface = interfaceName, d_timeout = connectTimeout\<rparr>)"

text \<open>\<open>netip.AddrPort.IsValid\<close> is that of its address.\<close>

definition dialable :: "addrport \<Rightarrow> bool" where
  "dialable dst = (is_valid (ap_addr dst) \<and> ap_port dst \<noteq> 0 \<and> \<not> is4in6 (ap_addr dst))"

text \<open>
  The operating system's part, \<open>net.Dialer.DialContext\<close> on a socket bound to an interface, is the
  argument \<open>dial\<close>: interface, network and destination to a connection or an error.
\<close>

definition dial_context ::
  "(string \<Rightarrow> string \<Rightarrow> addrport \<Rightarrow> goerr + 'c) \<Rightarrow> direct \<Rightarrow> string \<Rightarrow> addrport \<Rightarrow> goerr + 'c" where
  "dial_context dial d network dst =
     (if \<not> dialable dst then Inl (Opaque ''invalid IP destination'')
      else if network \<noteq> (if is6 (ap_addr dst) then ''tcp6'' else ''tcp4'')
      then Inl (Opaque ''network mismatch'')
      else case dial (d_interface d) network dst of
          Inl e \<Rightarrow> Inl (Wrapped ''direct outbound'' e)
        | Inr c \<Rightarrow> Inr c)"

definition dial_packet ::
  "(string \<Rightarrow> string \<Rightarrow> addrport \<Rightarrow> goerr + 'c) \<Rightarrow> direct \<Rightarrow> addrport \<Rightarrow> goerr + 'c" where
  "dial_packet dial d dst =
     (if \<not> dialable dst then Inl (Opaque ''invalid IP UDP destination'')
      else case dial (d_interface d) (if is6 (ap_addr dst) then ''udp6'' else ''udp4'') dst of
          Inl e \<Rightarrow> Inl (Wrapped ''direct outbound UDP'' e)
        | Inr c \<Rightarrow> Inr c)"

text \<open>\<open>Reject.DialContext\<close>.\<close>

definition reject_dial :: "string \<Rightarrow> addrport \<Rightarrow> goerr + 'c" where
  "reject_dial network dst = Inl ErrRejected"


section \<open>Properties\<close>

text \<open>
  A failure is recoverable only if every joined part of it is an environment failure (interface
  gone, network or host unreachable, address not available, timeout) and neither a cancellation nor a
  policy rejection occurs anywhere in it, however deeply it is wrapped.
\<close>

lemma recoverable_is_environmental:
  assumes "is_recoverable e"
  shows "environment_failure e \<and> \<not> errors_is Canceled e \<and> \<not> errors_is ErrRejected e"
  using is_recoverable_environment [OF assms] is_recoverable_clean [OF assms] by blast

end
