(* ===== verification/Resolver.thy ===== *)
theory Resolver
  imports Domainname Outbound "HOL-Library.Signed_Division"
begin

text \<open>
  \<open>internal/resolver\<close>: DNS queries through explicit upstream servers (\<open>upstream.go\<close>) and the
  per-outbound lookup with its cache (\<open>lookup.go\<close>).

  The DNS library is not part of the repository: \<open>dns.Fqdn\<close> is the argument \<open>fqdn\<close>, and one exchange
  with one server (\<open>dns.Client.ExchangeContext\<close>) the argument \<open>one\<close>.  A message carries the fields
  the code reads; the bytes of an address record are kept as the library delivers them.
\<close>

section \<open>Messages\<close>

datatype rr_data =
    RR_A "nat list"
  | RR_AAAA "nat list"
  | RR_CNAME string
  | RR_Other

record dns_rr =
  rr_Name :: string
  rr_Ttl :: nat
  rr_Data :: rr_data

record dns_msg =
  msg_Rcode :: nat
  msg_Truncated :: bool
  msg_Answer :: "dns_rr list"

datatype qtype = TypeA | TypeAAAA

definition RcodeSuccess :: nat where
  "RcodeSuccess = 0"

text \<open>\<open>SERVFAIL\<close>, \<open>REFUSED\<close> and \<open>NOTIMP\<close>.\<close>

definition isRetryableRCode :: "nat \<Rightarrow> bool" where
  "isRetryableRCode c = (c = 2 \<or> c = 5 \<or> c = 4)"

text \<open>\<open>net.IP.To4\<close> and \<open>netip.AddrFromSlice\<close>.\<close>

definition ip_to4 :: "nat list \<Rightarrow> nat list" where
  "ip_to4 bs =
     (if length bs = 4 then bs
      else if length bs = 16 \<and> take 12 bs = replicate 10 0 @ [255, 255] then drop 12 bs
      else [])"

definition bytes_value :: "nat list \<Rightarrow> nat" where
  "bytes_value bs = foldl (\<lambda>v b. v * 256 + b) 0 bs"

definition addr_from_slice :: "nat list \<Rightarrow> addr option" where
  "addr_from_slice bs =
     (if length bs = 4 then Some (V4 (word_of_nat (bytes_value bs)))
      else if length bs = 16 then Some (V6 (word_of_nat (bytes_value bs)) [])
      else None)"


section \<open>The client\<close>

record cache_entry =
  ce_addresses :: "addr list"
  ce_expiresAt :: gotime

type_synonym cache_key = "string \<times> qtype"

record rclient =
  servers :: "addrport list"
  interfaceName :: string
  rc_timeout :: duration
  sem_capacity :: nat
  sem_used :: nat
  next_server :: "64 word"
  cache :: "(cache_key, cache_entry) gomap"

definition maxCacheEntries :: nat where
  "maxCacheEntries = 1024"

definition valid_server :: "bool \<Rightarrow> addrport \<Rightarrow> bool" where
  "valid_server allowLoopback s =
     (is_valid (ap_addr s) \<and> ap_port s \<noteq> 0 \<and> \<not> is_unspecified (ap_addr s) \<and> \<not> is4in6 (ap_addr s) \<and>
      (allowLoopback \<or> \<not> is_loopback (ap_addr s)))"

definition new_client ::
  "string \<Rightarrow> addrport list \<Rightarrow> duration \<Rightarrow> int \<Rightarrow> bool \<Rightarrow> goerr + rclient" where
  "new_client interface srv timeout maxConcurrent allowLoopback =
     (if interface = [] then Inl (Opaque ''resolver interface is required'')
      else if srv = [] then Inl (Opaque ''resolver requires explicit upstream servers'')
      else if timeout \<le> 0 then Inl (Opaque ''resolver timeout must be positive'')
      else if maxConcurrent \<le> 0 \<or> 65536 < maxConcurrent then Inl (Opaque ''resolver max concurrency'')
      else if \<not> list_all (valid_server allowLoopback) srv then Inl (Opaque ''resolver upstream'')
      else Inr \<lparr>servers = srv, interfaceName = interface, rc_timeout = timeout,
                sem_capacity = nat maxConcurrent, sem_used = 0, next_server = 0, cache = []\<rparr>)"


section \<open>Exchange\<close>

text \<open>
  The \<open>select\<close> at the start: with room in the semaphore and a finished context Go may take either
  branch, decided by \<open>pick\<close>.
\<close>

definition exchange_enter :: "goerr option \<Rightarrow> bool \<Rightarrow> rclient \<Rightarrow> goerr + unit" where
  "exchange_enter ctx_err pick c =
     (if sem_used c < sem_capacity c then
        (case ctx_err of Some e \<Rightarrow> if pick then Inl e else Inr () | None \<Rightarrow> Inr ())
      else (case ctx_err of Some e \<Rightarrow> Inl e
            | None \<Rightarrow> Inl (Opaque ''resolver concurrency limit reached'')))"

text \<open>
  \<open>int(client.next.Add(1)-1) % len\<close>: the counter is read as a signed integer, and a negative
  remainder makes the index expression panic (\<open>None\<close>).
\<close>

definition start_index :: "64 word \<Rightarrow> nat \<Rightarrow> nat option" where
  "start_index n len =
     (let r = sint n smod int len in if r < 0 then None else Some (nat r))"

text \<open>The servers in the order the loop tries them.\<close>

fun exchange_loop ::
  "(addrport \<Rightarrow> string \<Rightarrow> goerr + dns_msg) \<Rightarrow> addrport list \<Rightarrow> goerr list \<Rightarrow> dns_msg option \<Rightarrow> goerr + dns_msg"
  where
  "exchange_loop one [] failures lastReply =
     (case lastReply of
        Some r \<Rightarrow> Inr r
      | None \<Rightarrow> Inl (Wrapped ''all explicit DNS upstreams failed'' (Joined failures)))"
| "exchange_loop one (server # rest) failures lastReply =
     (let six = is6 (ap_addr server)
      in case one server (if six then ''udp6'' else ''udp4'') of
          Inl e \<Rightarrow> exchange_loop one rest (failures @ [Wrapped ''UDP'' e]) lastReply
        | Inr reply0 \<Rightarrow>
            (case (if msg_Truncated reply0 then one server (if six then ''tcp6'' else ''tcp4'') else Inr reply0) of
               Inl e \<Rightarrow> exchange_loop one rest (failures @ [Wrapped ''TCP fallback'' e]) lastReply
             | Inr reply \<Rightarrow>
                 if isRetryableRCode (msg_Rcode reply)
                 then exchange_loop one rest (failures @ [Opaque ''DNS returned'']) (Some reply)
                 else Inr reply))"

datatype 'a call_result = Returned 'a | Panicked

definition exchange ::
  "goerr option \<Rightarrow> bool \<Rightarrow> (addrport \<Rightarrow> string \<Rightarrow> goerr + dns_msg) \<Rightarrow> rclient \<Rightarrow>
   (goerr + dns_msg) call_result \<times> rclient" where
  "exchange ctx_err pick one c =
     (case exchange_enter ctx_err pick c of
        Inl e \<Rightarrow> (Returned (Inl e), c)
      | Inr _ \<Rightarrow>
          (let c' = c\<lparr>next_server := next_server c + 1\<rparr>
           in case start_index (next_server c) (length (servers c)) of
                None \<Rightarrow> (Panicked, c')
              | Some start \<Rightarrow>
                  (Returned (exchange_loop one (rotate start (servers c)) [] None), c')))"


section \<open>Following CNAME records\<close>

record cname_record =
  cn_target :: string
  cn_ttl :: nat
  cn_conflict :: bool

definition canonicalDNSName :: "(string \<Rightarrow> string) \<Rightarrow> string \<Rightarrow> string" where
  "canonicalDNSName fqdn name = to_lower (fqdn name)"

definition minimumTTL :: "nat \<Rightarrow> bool \<Rightarrow> nat \<Rightarrow> nat \<times> bool" where
  "minimumTTL current have_current candidate =
     (if \<not> have_current \<or> candidate < current then (candidate, True) else (current, True))"

definition add_cname ::
  "(string \<Rightarrow> string) \<Rightarrow> (string, cname_record) gomap \<Rightarrow> dns_rr \<Rightarrow> (string, cname_record) gomap" where
  "add_cname fqdn m rr =
     (case rr_Data rr of
        RR_CNAME t \<Rightarrow>
          (let own = canonicalDNSName fqdn (rr_Name rr); target = canonicalDNSName fqdn t
           in case gm_get m own of
                Some existing \<Rightarrow>
                  gm_put m own \<lparr>cn_target = cn_target existing,
                                cn_ttl = fst (minimumTTL (cn_ttl existing) True (rr_Ttl rr)),
                                cn_conflict = (cn_conflict existing \<or> cn_target existing \<noteq> target)\<rparr>
              | None \<Rightarrow> gm_put m own \<lparr>cn_target = target, cn_ttl = rr_Ttl rr, cn_conflict = False\<rparr>)
      | _ \<Rightarrow> m)"

function chase ::
  "(string, cname_record) gomap \<Rightarrow> string list \<Rightarrow> string \<Rightarrow> nat \<Rightarrow> bool \<Rightarrow> goerr + string \<times> nat \<times> bool" where
  "chase m visited current ttl haveTTL =
     (if current \<in> set visited then Inl (Opaque ''CNAME loop'')
      else case gm_get m current of
          None \<Rightarrow> Inr (current, ttl, haveTTL)
        | Some r \<Rightarrow>
            if cn_conflict r then Inl (Opaque ''conflicting CNAME targets'')
            else (let (t, h) = minimumTTL ttl haveTTL (cn_ttl r)
                  in chase m (current # visited) (cn_target r) t h))"
  by pat_completeness auto
termination
proof (relation "measure (\<lambda>(m, visited, current, ttl, h). card (fst ` set m - set visited))")
  fix m :: "(string, cname_record) gomap" and visited current ttl haveTTL r p t h
  assume "current \<notin> set visited" and "gm_get m current = Some r"
  then have "current \<in> fst ` set m - set visited" by simp
  moreover have "fst ` set m - set (current # visited) = (fst ` set m - set visited) - {current}" by auto
  ultimately have "card (fst ` set m - set (current # visited)) < card (fst ` set m - set visited)"
    by (metis card_Diff1_less finite_Diff finite_imageI finite_set)
  then show "((m, current # visited, cn_target r, t, h), (m, visited, current, ttl, haveTTL)) \<in>
      measure (\<lambda>(m, visited, current, ttl, h). card (fst ` set m - set visited))" by simp
qed simp

declare chase.simps [simp del]

definition answer_target ::
  "(string \<Rightarrow> string) \<Rightarrow> dns_rr list \<Rightarrow> string \<Rightarrow> goerr + string \<times> nat \<times> bool" where
  "answer_target fqdn answers domain =
     chase (foldl (add_cname fqdn) [] answers) [] (canonicalDNSName fqdn domain) 0 False"


section \<open>Lookup\<close>

definition record_address :: "qtype \<Rightarrow> rr_data \<Rightarrow> addr option" where
  "record_address q data =
     (case (q, data) of
        (TypeA, RR_A bs) \<Rightarrow>
          (case addr_from_slice (ip_to4 bs) of Some a \<Rightarrow> if is4 a then Some a else None | None \<Rightarrow> None)
      | (TypeAAAA, RR_AAAA bs) \<Rightarrow>
          (case addr_from_slice bs of
             Some a \<Rightarrow> if is6 a \<and> \<not> is4in6 a then Some a else None | None \<Rightarrow> None)
      | _ \<Rightarrow> None)"

fun collect ::
  "(string \<Rightarrow> string) \<Rightarrow> qtype \<Rightarrow> string \<Rightarrow> dns_rr list \<Rightarrow> nat \<Rightarrow> bool \<Rightarrow> addr list \<Rightarrow> addr list \<times> nat \<times> bool"
  where
  "collect fqdn q target [] ttl haveTTL acc = (acc, ttl, haveTTL)"
| "collect fqdn q target (rr # rrs) ttl haveTTL acc =
     (case record_address q (rr_Data rr) of
        None \<Rightarrow> collect fqdn q target rrs ttl haveTTL acc
      | Some a \<Rightarrow>
          if canonicalDNSName fqdn (rr_Name rr) \<noteq> target then collect fqdn q target rrs ttl haveTTL acc
          else (let (t, h) = minimumTTL ttl haveTTL (rr_Ttl rr)
                in collect fqdn q target rrs t h (if a \<in> set acc then acc else acc @ [a])))"

definition cached :: "string \<Rightarrow> qtype \<Rightarrow> gotime \<Rightarrow> rclient \<Rightarrow> addr list \<times> rclient" where
  "cached domain q now c =
     (case gm_get (cache c) (domain, q) of
        None \<Rightarrow> ([], c)
      | Some e \<Rightarrow>
          if \<not> now < ce_expiresAt e then ([], c\<lparr>cache := gm_del (cache c) (domain, q)\<rparr>)
          else (ce_addresses e, c))"

text \<open>The scan for the entry that expires first; it keeps the first one it meets among equals.\<close>

fun oldest :: "(cache_key, cache_entry) gomap \<Rightarrow> (cache_key \<times> gotime) option \<Rightarrow> (cache_key \<times> gotime) option" where
  "oldest [] best = best"
| "oldest ((k, e) # rest) best =
     oldest rest
       (case best of
          None \<Rightarrow> Some (k, ce_expiresAt e)
        | Some (b, t) \<Rightarrow> if ce_expiresAt e < t then Some (k, ce_expiresAt e) else Some (b, t))"

definition store :: "string \<Rightarrow> qtype \<Rightarrow> addr list \<Rightarrow> gotime \<Rightarrow> rclient \<Rightarrow> rclient" where
  "store domain q as expiresAt c =
     (let m = (if maxCacheEntries \<le> length (cache c)
               then (case oldest (cache c) None of None \<Rightarrow> cache c | Some (k, _) \<Rightarrow> gm_del (cache c) k)
               else cache c)
      in c\<lparr>cache := gm_put m (domain, q) \<lparr>ce_addresses = as, ce_expiresAt = expiresAt\<rparr>\<rparr>)"

text \<open>
  \<open>LookupIPv4\<close> and \<open>LookupIPv6\<close>, which differ in the record type only.  \<open>ask\<close> is the exchange of the
  question for the fully qualified name; the clock is read before the cache and before storing.
\<close>

definition lookup_ip ::
  "(string \<Rightarrow> string) \<Rightarrow> (string \<Rightarrow> qtype \<Rightarrow> rclient \<Rightarrow> (goerr + dns_msg) \<times> rclient) \<Rightarrow> gotime \<Rightarrow> gotime \<Rightarrow>
   qtype \<Rightarrow> string \<Rightarrow> rclient \<Rightarrow> (goerr + addr list) \<times> rclient" where
  "lookup_ip fqdn ask now later q domain c0 =
     (case normalize domain of
        Inl e \<Rightarrow> (Inl (Opaque ''domain''), c0)
      | Inr d \<Rightarrow>
          (case cached d q now c0 of
             (a # as, c) \<Rightarrow> (Inr (a # as), c)
           | ([], c1) \<Rightarrow>
               (case ask (fqdn d) q c1 of
                  (Inl e, c) \<Rightarrow> (Inl e, c)
                | (Inr reply, c) \<Rightarrow>
                    if msg_Rcode reply \<noteq> RcodeSuccess then (Inl (ResponseError d (msg_Rcode reply)), c)
                    else
                      (case answer_target fqdn (msg_Answer reply) d of
                         Inl e \<Rightarrow> (Inl e, c)
                       | Inr (target, ttl0, have0) \<Rightarrow>
                           (case collect fqdn q target (msg_Answer reply) ttl0 have0 [] of
                              (as, ttl, haveTTL) \<Rightarrow>
                                if as = [] then
                                  (Inl (Wrapped d (case q of TypeA \<Rightarrow> ErrNoIPv4Address
                                                         | TypeAAAA \<Rightarrow> ErrNoIPv6Address)), c)
                                else
                                  (Inr as,
                                   if haveTTL \<and> 0 < ttl then store d q as (later + int ttl * second) c
                                   else c))))))"

definition isBusinessError :: "goerr \<Rightarrow> bool" where
  "isBusinessError e =
     (case as_response e of
        Some c \<Rightarrow> \<not> isRetryableRCode c
      | None \<Rightarrow> errors_is ErrNoIPv4Address e \<or> errors_is ErrNoIPv6Address e)"

end
