(* ===== verification/Resolver_Properties.thy ===== *)
theory Resolver_Properties
  imports Resolver
begin

text \<open>
  Correctness of the resolver: which reply an exchange returns, where a CNAME chain ends, and what
  the per-outbound cache may hold.  The lookup is proved once against any upstream that leaves the
  cache alone (locale \<open>upstream\<close>), and the exchange of the client is one.
\<close>

section \<open>Exchange\<close>

text \<open>The reply one server gives: over UDP, or over TCP when the UDP reply is truncated.\<close>

definition server_reply :: "(addrport \<Rightarrow> string \<Rightarrow> goerr + dns_msg) \<Rightarrow> addrport \<Rightarrow> dns_msg option" where
  "server_reply one s =
     (let six = is6 (ap_addr s)
      in case one s (if six then ''udp6'' else ''udp4'') of
           Inl _ \<Rightarrow> None
         | Inr r \<Rightarrow>
             if msg_Truncated r
             then (case one s (if six then ''tcp6'' else ''tcp4'') of Inl _ \<Rightarrow> None | Inr r' \<Rightarrow> Some r')
             else Some r)"

definition conclusive :: "(addrport \<Rightarrow> string \<Rightarrow> goerr + dns_msg) \<Rightarrow> addrport \<Rightarrow> bool" where
  "conclusive one s = (\<exists>r. server_reply one s = Some r \<and> \<not> isRetryableRCode (msg_Rcode r))"

lemma exchange_loop_None:
  "server_reply one s = None \<Longrightarrow> \<exists>f. exchange_loop one (s # rest) fs lr = exchange_loop one rest (fs @ [f]) lr"
  by (auto simp: server_reply_def Let_def split: sum.splits if_splits)

lemma exchange_loop_Some:
  "server_reply one s = Some r \<Longrightarrow>
   exchange_loop one (s # rest) fs lr =
     (if isRetryableRCode (msg_Rcode r) then exchange_loop one rest (fs @ [Opaque ''DNS returned'']) (Some r)
      else Inr r)"
  by (auto simp: server_reply_def Let_def split: sum.splits if_splits)

lemma exchange_loop_result:
  "case exchange_loop one srv fs lr of
     Inl e \<Rightarrow> lr = None \<and> (\<forall>s \<in> set srv. server_reply one s = None)
   | Inr r \<Rightarrow>
       (case find (conclusive one) srv of
          Some s \<Rightarrow> server_reply one s = Some r
        | None \<Rightarrow> (\<exists>s \<in> set srv. server_reply one s = Some r) \<or>
                   (lr = Some r \<and> (\<forall>s \<in> set srv. server_reply one s = None)))"
proof (induction srv arbitrary: fs lr)
  case Nil
  then show ?case by (auto split: option.splits)
next
  case (Cons s srv)
  show ?case
  proof (cases "server_reply one s")
    case None
    obtain f where f: "exchange_loop one (s # srv) fs lr = exchange_loop one srv (fs @ [f]) lr"
      using exchange_loop_None [OF None] by blast
    have "\<not> conclusive one s" using None by (simp add: conclusive_def)
    then show ?thesis using Cons.IH [of lr "fs @ [f]"] None unfolding f by (auto split: sum.splits option.splits)
  next
    case (Some r)
    show ?thesis
    proof (cases "isRetryableRCode (msg_Rcode r)")
      case True
      then have "\<not> conclusive one s" using Some by (simp add: conclusive_def)
      then show ?thesis
        using Cons.IH [of "Some r" "fs @ [Opaque ''DNS returned'']"] Some True
        unfolding exchange_loop_Some [OF Some] by (auto split: sum.splits option.splits)
    next
      case False
      then have "conclusive one s" using Some by (simp add: conclusive_def)
      then show ?thesis using Some False unfolding exchange_loop_Some [OF Some] by simp
    qed
  qed
qed

lemma start_index_some:
  assumes "n < 2 ^ 63" and "0 < len"
  shows "start_index n len = Some (unat n mod len)"
proof -
  have "uint n < 2 ^ 63" using assms(1) by (simp add: word_less_def)
  moreover have "- (2 ^ 63) \<le> uint n" by (rule order_trans [OF _ uint_ge_0]) simp
  ultimately have s: "sint n = uint n" by (simp add: sint_uint signed_take_bit_int_eq_self)
  have "k smod int len = k mod int len" if "0 \<le> k" for k
    using that by (auto simp: smod_int_alt_def sgn_if)
  then have "sint n smod int len = sint n mod int len" by (simp add: s)
  moreover have "nat (uint n mod int len) = unat n mod len" by (simp add: nat_mod_distrib)
  moreover have "0 \<le> uint n mod int len" using assms(2) by simp
  ultimately show ?thesis by (simp add: start_index_def Let_def s)
qed


section \<open>CNAME chains\<close>

inductive cname_path :: "(string, cname_record) gomap \<Rightarrow> string \<Rightarrow> cname_record list \<Rightarrow> string \<Rightarrow> bool" for m where
  path_nil: "cname_path m x [] x"
| path_cons: "gm_get m x = Some r \<Longrightarrow> \<not> cn_conflict r \<Longrightarrow> cname_path m (cn_target r) rs y \<Longrightarrow>
    cname_path m x (r # rs) y"

definition min_ttl :: "nat \<times> bool \<Rightarrow> cname_record list \<Rightarrow> nat \<times> bool" where
  "min_ttl = foldl (\<lambda>(t, h) r. minimumTTL t h (cn_ttl r))"

lemma chase_path:
  assumes "chase m visited current ttl h = Inr (target, t', h')"
  shows "\<exists>rs. cname_path m current rs target \<and> gm_get m target = None \<and> (t', h') = min_ttl (ttl, h) rs"
  using assms
proof (induction m visited current ttl h rule: chase.induct)
  case (1 m visited current ttl h)
  show ?case
  proof (cases "gm_get m current")
    case None
    then have "target = current" "t' = ttl" "h' = h"
      using "1.prems" by (subst (asm) chase.simps, simp split: if_splits)+
    then show ?thesis using None path_nil by (intro exI [of _ "[]"]) (simp add: min_ttl_def path_nil)
  next
    case (Some r)
    let ?p = "minimumTTL ttl h (cn_ttl r)"
    have nv: "current \<notin> set visited" and nc: "\<not> cn_conflict r"
      and rest: "chase m (current # visited) (cn_target r) (fst ?p) (snd ?p) = Inr (target, t', h')"
      using "1.prems" Some by (subst (asm) chase.simps, simp add: split_beta Let_def split: if_splits)+
    obtain rs where "cname_path m (cn_target r) rs target" "gm_get m target = None" "(t', h') = min_ttl ?p rs"
      using "1.IH" [OF nv Some nc refl _ rest] by auto
    then show ?thesis
      using path_cons [OF Some nc] by (intro exI [of _ "r # rs"]) (simp add: min_ttl_def split_beta)
  qed
qed

lemma minimumTTL_fst: "h \<Longrightarrow> fst (minimumTTL t h c) = min t c" "snd (minimumTTL t h c)"
  by (auto simp: minimumTTL_def)


section \<open>Addresses of a reply\<close>

definition of_family :: "qtype \<Rightarrow> addr \<Rightarrow> bool" where
  "of_family q a = (case q of TypeA \<Rightarrow> is4 a | TypeAAAA \<Rightarrow> is6 a \<and> \<not> is4in6 a)"

lemma record_address_family: "record_address q d = Some a \<Longrightarrow> of_family q a"
  by (auto simp: record_address_def of_family_def split: qtype.splits rr_data.splits option.splits if_splits)

definition answers_at :: "(string \<Rightarrow> string) \<Rightarrow> qtype \<Rightarrow> string \<Rightarrow> dns_rr list \<Rightarrow> addr set" where
  "answers_at fqdn q target rrs =
     {a. \<exists>rr \<in> set rrs. canonicalDNSName fqdn (rr_Name rr) = target \<and> record_address q (rr_Data rr) = Some a}"

lemma collect_spec:
  assumes "collect fqdn q target rrs ttl h acc = (as, t', h')" and "distinct acc"
  shows "set as = set acc \<union> answers_at fqdn q target rrs \<and> distinct as"
  using assms
proof (induction fqdn q target rrs ttl h acc rule: collect.induct)
  case (1 fqdn q target ttl h acc)
  then show ?case by (simp add: answers_at_def)
next
  case (2 fqdn q target rr rrs ttl h acc)
  show ?case
  proof (cases "record_address q (rr_Data rr) = None \<or> canonicalDNSName fqdn (rr_Name rr) \<noteq> target")
    case True
    then have "answers_at fqdn q target (rr # rrs) = answers_at fqdn q target rrs"
      by (auto simp: answers_at_def)
    moreover have "collect fqdn q target rrs ttl h acc = (as, t', h')"
      using True "2.prems"(1) by (auto split: option.splits)
    ultimately show ?thesis using "2.IH"(1,2) "2.prems"(2) True
      by (cases "record_address q (rr_Data rr)") auto
  next
    case False
    then obtain a where a: "record_address q (rr_Data rr) = Some a" and tgt: "canonicalDNSName fqdn (rr_Name rr) = target"
      by auto
    let ?acc = "if a \<in> set acc then acc else acc @ [a]" and ?p = "minimumTTL ttl h (rr_Ttl rr)"
    have "collect fqdn q target rrs (fst ?p) (snd ?p) ?acc = (as, t', h')"
      using "2.prems"(1) a tgt by (simp add: split_beta Let_def)
    moreover have "distinct ?acc" using "2.prems"(2) by simp
    ultimately have "set as = set ?acc \<union> answers_at fqdn q target rrs \<and> distinct as"
      using "2.IH"(3) [OF a _ refl, of "fst ?p" "snd ?p"] tgt by simp
    moreover have "answers_at fqdn q target (rr # rrs) = insert a (answers_at fqdn q target rrs)"
      using a tgt by (auto simp: answers_at_def)
    ultimately show ?thesis by auto
  qed
qed


section \<open>The cache\<close>

definition entry_ok :: "qtype \<Rightarrow> cache_entry \<Rightarrow> bool" where
  "entry_ok q e =
     (ce_addresses e \<noteq> [] \<and> distinct (ce_addresses e) \<and> (\<forall>a \<in> set (ce_addresses e). of_family q a))"

definition cache_inv :: "rclient \<Rightarrow> bool" where
  "cache_inv c =
     (gm_wf (cache c) \<and> length (cache c) \<le> maxCacheEntries \<and>
      (\<forall>k e. gm_get (cache c) k = Some e \<longrightarrow> entry_ok (snd k) e))"

lemma oldest_key:
  "oldest m best = Some (k, t) \<Longrightarrow> k \<in> fst ` set m \<or> best = Some (k, t)"
  by (induction m best rule: oldest.induct) (fastforce split: option.splits if_splits)+

lemma oldest_ne: "m \<noteq> [] \<Longrightarrow> oldest m best \<noteq> None"
proof (induction m best rule: oldest.induct)
  case (2 k e rest best)
  then show ?case
    by (cases rest) (auto split: option.splits)
qed simp

lemma store_inv:
  assumes "cache_inv c" and "as \<noteq> []" and "distinct as" and "\<forall>a \<in> set as. of_family q a"
  shows "cache_inv (store d q as t c)"
proof -
  have wf: "gm_wf (cache c)" and len: "length (cache c) \<le> maxCacheEntries"
    using assms(1) by (auto simp: cache_inv_def)
  define m where "m = (if maxCacheEntries \<le> length (cache c)
    then (case oldest (cache c) None of None \<Rightarrow> cache c | Some (k, _) \<Rightarrow> gm_del (cache c) k) else cache c)"
  have sub: "gm_get m k = Some e \<Longrightarrow> gm_get (cache c) k = Some e" for k e
    by (auto simp: m_def split: if_splits option.splits)
  have m: "gm_wf m \<and> length m < maxCacheEntries"
  proof (cases "maxCacheEntries \<le> length (cache c)")
    case True
    then have "cache c \<noteq> []" by (auto simp: maxCacheEntries_def)
    then obtain k t where k: "oldest (cache c) None = Some (k, t)" using oldest_ne by fastforce
    then have "gm_has (cache c) k" using oldest_key [OF k] by simp
    then show ?thesis
      using True wf len k gm.len_del [OF wf, of k] by (auto simp: m_def maxCacheEntries_def)
  next
    case False
    then show ?thesis using wf by (simp add: m_def)
  qed
  have st: "cache (store d q as t c) = gm_put m (d, q) \<lparr>ce_addresses = as, ce_expiresAt = t\<rparr>"
    by (simp add: store_def m_def Let_def)
  have "length (gm_put m (d, q) \<lparr>ce_addresses = as, ce_expiresAt = t\<rparr>) \<le> maxCacheEntries"
    using m gm.len_put [of m "(d, q)"] by simp
  moreover have "entry_ok (snd k) e" if "gm_get (cache (store d q as t c)) k = Some e" for k e
  proof (cases "k = (d, q)")
    case True
    then have "e = \<lparr>ce_addresses = as, ce_expiresAt = t\<rparr>" using that st by simp
    then show ?thesis using True assms(2-4) by (simp add: entry_ok_def)
  next
    case False
    then have "gm_get (cache c) k = Some e" using that sub [of k e] st by simp
    then show ?thesis using assms(1) unfolding cache_inv_def by blast
  qed
  ultimately show ?thesis using m unfolding cache_inv_def st by auto
qed

lemma cached_inv: "cache_inv c \<Longrightarrow> cache_inv (snd (cached d q now c))"
  using gm.len_del_le [of "cache c"]
  by (auto simp: cached_def cache_inv_def intro: order_trans split: option.splits if_splits)

lemma cached_result:
  assumes "cache_inv c" and "cached d q now c = (as, c')" and "as \<noteq> []"
  shows "c' = c \<and> distinct as \<and> (\<forall>a \<in> set as. of_family q a) \<and>
         (\<exists>e. gm_get (cache c) (d, q) = Some e \<and> now < ce_expiresAt e \<and> as = ce_addresses e)"
  using assms by (auto simp: cached_def cache_inv_def entry_ok_def split: option.splits if_splits)


section \<open>Lookup against any upstream\<close>

locale upstream =
  fixes ask :: "string \<Rightarrow> qtype \<Rightarrow> rclient \<Rightarrow> (goerr + dns_msg) \<times> rclient"
  assumes ask_cache: "cache (snd (ask n q c)) = cache c"
begin

lemma ask_inv: "cache_inv c \<Longrightarrow> cache_inv (snd (ask n q c))"
  by (simp add: cache_inv_def ask_cache)

text \<open>Where the addresses of a successful lookup come from.\<close>

definition answered :: "(string \<Rightarrow> string) \<Rightarrow> qtype \<Rightarrow> string \<Rightarrow> rclient \<Rightarrow> addr list \<Rightarrow> bool" where
  "answered fqdn q d c as =
     (\<exists>reply target t h. fst (ask (fqdn d) q c) = Inr reply \<and> msg_Rcode reply = RcodeSuccess \<and>
        answer_target fqdn (msg_Answer reply) d = Inr (target, t, h) \<and>
        set as = answers_at fqdn q target (msg_Answer reply))"

lemma lookup_spec:
  assumes inv: "cache_inv c" and res: "lookup_ip fqdn ask now later q domain c = (Inr as, c')"
  shows "cache_inv c' \<and> as \<noteq> [] \<and> distinct as \<and> (\<forall>a \<in> set as. of_family q a) \<and>
    (\<exists>d. normalize domain = Inr d \<and>
       ((\<exists>e. gm_get (cache c) (d, q) = Some e \<and> now < ce_expiresAt e \<and> as = ce_addresses e) \<or>
        answered fqdn q d (snd (cached d q now c)) as))"
proof -
  obtain d where d: "normalize domain = Inr d" using res by (auto simp: lookup_ip_def split: sum.splits)
  obtain as0 c1 where ca: "cached d q now c = (as0, c1)" by (cases "cached d q now c")
  show ?thesis
  proof (cases as0)
    case (Cons a0 rest)
    then have "as = as0" "c' = c1" using res d ca by (auto simp: lookup_ip_def)
    then show ?thesis using cached_result [OF inv ca] Cons inv d by auto
  next
    case Nil
    obtain r c2 where ask: "ask (fqdn d) q c1 = (r, c2)" by (cases "ask (fqdn d) q c1")
    obtain reply where reply: "r = Inr reply" "msg_Rcode reply = RcodeSuccess"
      using res d ca Nil ask by (auto simp: lookup_ip_def split: sum.splits if_splits)
    obtain target t0 h0 where tgt: "answer_target fqdn (msg_Answer reply) d = Inr (target, t0, h0)"
      using res d ca Nil ask reply by (auto simp: lookup_ip_def split: sum.splits)
    obtain as1 t h where col: "collect fqdn q target (msg_Answer reply) t0 h0 [] = (as1, t, h)"
      by (cases "collect fqdn q target (msg_Answer reply) t0 h0 []")
    have as: "as1 \<noteq> []" "as = as1" "c' = (if h \<and> 0 < t then store d q as1 (later + int t * second) c2 else c2)"
      using res d ca Nil ask reply tgt col by (auto simp: lookup_ip_def split: if_splits)
    have set: "set as1 = answers_at fqdn q target (msg_Answer reply)" "distinct as1"
      using collect_spec [OF col] by simp_all
    have fam: "\<forall>a \<in> set as1. of_family q a"
      using set(1) record_address_family by (auto simp: answers_at_def)
    have c1: "cache_inv c1" using cached_inv [OF inv, of d q now] ca by simp
    have "cache_inv c2" using ask_inv [OF c1, of "fqdn d" q] ask by simp
    then have "cache_inv c'" using as(1,3) set(2) fam store_inv by simp
    moreover have "answered fqdn q d (snd (cached d q now c)) as"
      using ask reply tgt set(1) as(2) ca by (auto simp: answered_def)
    ultimately show ?thesis using as(1,2) set(2) fam d by auto
  qed
qed

lemma lookup_cache_inv:
  assumes inv: "cache_inv c"
  shows "cache_inv (snd (lookup_ip fqdn ask now later q domain c))"
proof (cases "fst (lookup_ip fqdn ask now later q domain c)")
  case (Inr as)
  then have "lookup_ip fqdn ask now later q domain c = (Inr as, snd (lookup_ip fqdn ask now later q domain c))"
    by (metis prod.collapse)
  then show ?thesis using lookup_spec [OF inv] by blast
next
  case (Inl e)
  have step: "cache_inv (snd (ask n q (snd (cached d q now c))))" for n d
    using ask_inv [OF cached_inv [OF inv]] .
  show ?thesis
    using Inl inv cached_inv [OF inv] step
    by (auto simp: lookup_ip_def split: sum.splits list.splits prod.splits if_splits) (metis snd_conv)+
qed

end

text \<open>
  The client's own exchange is such an upstream.  Its one panic, an index into an empty list of servers that
  \<open>NewClient\<close> refuses, counts as an error here.
\<close>

definition exchange_ask ::
  "goerr option \<Rightarrow> bool \<Rightarrow> (string \<Rightarrow> qtype \<Rightarrow> addrport \<Rightarrow> string \<Rightarrow> goerr + dns_msg) \<Rightarrow>
   string \<Rightarrow> qtype \<Rightarrow> rclient \<Rightarrow> (goerr + dns_msg) \<times> rclient" where
  "exchange_ask ctx_err pick one n q c =
     (case exchange ctx_err pick (one n q) c of
        (Returned r, c') \<Rightarrow> (r, c')
      | (Panicked, c') \<Rightarrow> (Inl (Opaque ''panic''), c'))"

interpretation client_upstream: upstream "exchange_ask ctx_err pick one"
  by unfold_locales
     (auto simp: exchange_ask_def exchange_def Let_def split: sum.splits option.splits)


section \<open>Properties\<close>

text \<open>A client with one server, a library whose \<open>Fqdn\<close> appends the final dot, and a reply with a CNAME.\<close>

definition sample_fqdn :: "string \<Rightarrow> string" where
  "sample_fqdn s = (if has_suffix s ''.'' then s else s @ ''.'')"

definition sample_server :: addrport where
  "sample_server = \<lparr>ap_addr = V4 16843009, ap_port = 53\<rparr>"

definition sample_client :: rclient where
  "sample_client = \<lparr>servers = [sample_server], interfaceName = ''en0'', rc_timeout = 5 * second,
     sem_capacity = 64, sem_used = 0, next_server = 0, cache = []\<rparr>"

definition sample_reply :: dns_msg where
  "sample_reply = \<lparr>msg_Rcode = 0, msg_Truncated = False, msg_Answer =
     [\<lparr>rr_Name = ''A.example.com.'', rr_Ttl = 300, rr_Data = RR_CNAME ''b.example.com.''\<rparr>,
      \<lparr>rr_Name = ''b.example.com.'', rr_Ttl = 60, rr_Data = RR_A [10, 0, 0, 1]\<rparr>,
      \<lparr>rr_Name = ''c.example.com.'', rr_Ttl = 60, rr_Data = RR_A [10, 0, 0, 2]\<rparr>]\<rparr>"

definition sample_one :: "string \<Rightarrow> qtype \<Rightarrow> addrport \<Rightarrow> string \<Rightarrow> goerr + dns_msg" where
  "sample_one n q s network = Inr sample_reply"

text \<open>
  C33: An exchange that is admitted returns the reply of the first server, in round-robin order from
  the next one, that gives a conclusive answer; without one it returns a retryable reply some
  server gave, and it fails only when no server could be reached over UDP or, after a truncated
  reply, over TCP.  Below \<open>2^63\<close> queries it never indexes out of range.
\<close>

theorem exchange_first_conclusive:
  assumes "exchange_enter ctx_err pick c = Inr ()" and "servers c \<noteq> []" and "next_server c < 2 ^ 63"
  shows "\<exists>r. fst (exchange ctx_err pick one c) = Returned r \<and>
    (case r of
       Inl e \<Rightarrow> (\<forall>s \<in> set (servers c). server_reply one s = None)
     | Inr reply \<Rightarrow>
         (case find (conclusive one) (rotate (unat (next_server c) mod length (servers c)) (servers c)) of
            Some s \<Rightarrow> server_reply one s = Some reply
          | None \<Rightarrow> (\<exists>s \<in> set (servers c). server_reply one s = Some reply)))"
proof -
  let ?start = "unat (next_server c) mod length (servers c)"
  have "fst (exchange ctx_err pick one c) = Returned (exchange_loop one (rotate ?start (servers c)) [] None)"
    using assms(1) start_index_some [OF assms(3), of "length (servers c)"] assms(2)
    by (simp add: exchange_def Let_def)
  then show ?thesis
    using exchange_loop_result [where one = one and srv = "rotate ?start (servers c)" and fs = "[]" and lr = None]
    by (auto split: sum.splits option.splits)
qed

theorem exchange_first_conclusive_witness:
  "\<exists>r. fst (exchange None False (sample_one ''a.'' TypeA) sample_client) = Returned r \<and>
    (case r of
       Inl e \<Rightarrow> (\<forall>s \<in> set (servers sample_client). server_reply (sample_one ''a.'' TypeA) s = None)
     | Inr reply \<Rightarrow>
         (case find (conclusive (sample_one ''a.'' TypeA))
             (rotate (unat (next_server sample_client) mod length (servers sample_client)) (servers sample_client)) of
            Some s \<Rightarrow> server_reply (sample_one ''a.'' TypeA) s = Some reply
          | None \<Rightarrow> (\<exists>s \<in> set (servers sample_client). server_reply (sample_one ''a.'' TypeA) s = Some reply)))"
  by (rule exchange_first_conclusive) (simp_all add: sample_client_def exchange_enter_def)

text \<open>
  The name whose address records are used is the end of the CNAME chain from the queried name:
  every step follows a record without conflicting targets, the last name has no CNAME record, and
  the time to live is the smallest one along the chain; the search always ends, in an error when
  the chain loops.
\<close>

lemma answer_target_chain:
  assumes "answer_target fqdn answers domain = Inr (target, ttl, haveTTL)"
  shows "\<exists>rs. cname_path (foldl (add_cname fqdn) [] answers) (canonicalDNSName fqdn domain) rs target \<and>
              gm_get (foldl (add_cname fqdn) [] answers) target = None \<and> (ttl, haveTTL) = min_ttl (0, False) rs"
  using chase_path assms unfolding answer_target_def by blast

text \<open>
  C34: A successful lookup returns distinct addresses of the requested family only, either from an
  unexpired cache entry for exactly that name and family, or all and only the address records at
  the end of the CNAME chain of a successful reply; and the cache keeps its bound of 1024 entries and
  never mixes families, on every outcome.
\<close>

theorem lookup_sound:
  assumes "cache_inv c" and "lookup_ip fqdn (exchange_ask ctx_err pick one) now later q domain c = (Inr as, c')"
  shows "cache_inv c' \<and> as \<noteq> [] \<and> distinct as \<and> (\<forall>a \<in> set as. of_family q a) \<and>
    (\<exists>d. normalize domain = Inr d \<and>
       ((\<exists>e. gm_get (cache c) (d, q) = Some e \<and> now < ce_expiresAt e \<and> as = ce_addresses e) \<or>
        (\<exists>reply target t h. fst (exchange_ask ctx_err pick one (fqdn d) q (snd (cached d q now c))) = Inr reply \<and>
           msg_Rcode reply = RcodeSuccess \<and> answer_target fqdn (msg_Answer reply) d = Inr (target, t, h) \<and>
           set as = answers_at fqdn q target (msg_Answer reply))))"
  using client_upstream.lookup_spec [OF assms] unfolding client_upstream.answered_def .

theorem lookup_sound_witness:
  "let as = [V4 167772161];
       c' = snd (lookup_ip sample_fqdn (exchange_ask None False sample_one) 5 6 TypeA ''a.example.com'' sample_client)
   in cache_inv c' \<and> distinct as \<and> of_family TypeA (hd as)"
proof -
  let ?l = "lookup_ip sample_fqdn (exchange_ask None False sample_one) 5 6 TypeA ''a.example.com'' sample_client"
  have "cache_inv sample_client" by (simp add: cache_inv_def sample_client_def)
  moreover have "fst ?l = Inr [V4 167772161]" by code_simp
  then have "?l = (Inr [V4 167772161], snd ?l)" by (metis prod.collapse)
  ultimately show ?thesis using lookup_sound by (fastforce simp: Let_def)
qed

text \<open>
  Every lookup, successful or not, keeps the cache within its bound and its families apart.
\<close>

lemma lookup_keeps_cache:
  assumes "cache_inv c"
  shows "cache_inv (snd (lookup_ip fqdn (exchange_ask ctx_err pick one) now later q domain c))"
  using client_upstream.lookup_cache_inv [OF assms] .

end
