(* ===== verification/Session.thy ===== *)
theory Session
  imports Rules Resolver Config_Compile "HOL-Library.Word"
begin

text \<open>
  \<open>internal/session\<close>: how one flow is decided, resolved and connected (\<open>decision.go\<close>, the connect
  loops of \<open>tcp.go\<close> and \<open>udp.go\<close>) and how routes are built and validated (\<open>routes_darwin.go\<close>,
  \<open>NewTCP\<close>, \<open>NewUDPWithLimiter\<close>, \<open>validateFallbacks\<close>).

  Resolvers, dialers and connections are the interfaces of the source.  Their calls are answered by
  an environment that sees everything the flow did before, so it may answer the same call
  differently every time; what a flow does is recorded in its trace, newest event first.
\<close>

section \<open>Routes\<close>

record ('r, 'd) route =
  r_Name :: string
  r_Reject :: bool
  r_Resolver :: "'r option"
  r_Dialer :: "'d option"
  r_PacketDialer :: "'d option"
  r_Fallback :: string

type_synonym ('r, 'd) routes = "(string, ('r, 'd) route) gomap"

definition route_fallback :: "('r, 'd) routes \<Rightarrow> string \<Rightarrow> string" where
  "route_fallback routes name = (case gm_get routes name of None \<Rightarrow> [] | Some r \<Rightarrow> r_Fallback r)"

text \<open>The session's own \<open>validateFallbacks\<close>; unlike the one of the configuration it also checks, on the
  way, that every fallback is configured.\<close>

function route_visit ::
  "('r, 'd) routes \<Rightarrow> (string, visit_state) gomap \<Rightarrow> string \<Rightarrow> goerr + (string, visit_state) gomap" where
  "route_visit routes states name =
     (case gm_get states name of
        Some Visiting \<Rightarrow> Inl (Opaque ''outbound fallback cycle'')
      | Some Done \<Rightarrow> Inr states
      | None \<Rightarrow>
          (let st = gm_put states name Visiting; nxt = route_fallback routes name
           in bindE (if nxt = [] then Inr st
                     else if \<not> gm_has routes nxt then Inl (Opaque ''fallback is not configured'')
                     else route_visit routes st nxt) (\<lambda>st'.
                Inr (gm_put st' name Done))))"
  by pat_completeness auto
termination
proof (relation "measure (\<lambda>(routes, states, name). card (fst ` set routes - dom (gm_get states)))")
  fix routes :: "('r, 'd) routes" and states :: "(string, visit_state) gomap" and name st nxt
  assume new: "gm_get states name = None" and st: "st = gm_put states name Visiting"
    and nxt: "nxt = route_fallback routes name" and ne: "nxt \<noteq> []"
  have "gm_has routes name" using nxt ne by (auto simp: route_fallback_def split: option.splits)
  then have "name \<in> fst ` set routes - dom (gm_get states)" using new by (simp add: domIff)
  moreover have "fst ` set routes - dom (gm_get st) = (fst ` set routes - dom (gm_get states)) - {name}"
    using st by (auto simp: domIff split: if_splits)
  ultimately have "card (fst ` set routes - dom (gm_get st)) < card (fst ` set routes - dom (gm_get states))"
    by (metis card_Diff1_less finite_Diff finite_imageI finite_set)
  then show "((routes, st, nxt), (routes, states, name)) \<in>
      measure (\<lambda>(routes, states, name). card (fst ` set routes - dom (gm_get states)))" by simp
qed simp

declare route_visit.simps [simp del]

definition route_visit_all ::
  "('r, 'd) routes \<Rightarrow> (string, visit_state) gomap \<Rightarrow> string list \<Rightarrow> goerr + (string, visit_state) gomap" where
  "route_visit_all routes states names = foldE (route_visit routes) states names"

definition route_validateFallbacks :: "('r, 'd) routes \<Rightarrow> goerr + unit" where
  "route_validateFallbacks routes = bindE (route_visit_all routes [] (map fst routes)) (\<lambda>_. Inr ())"

text \<open>The loop over the routes in \<open>NewTCP\<close> and in \<open>NewUDPWithLimiter\<close>.\<close>

definition tcp_route_ok :: "string \<Rightarrow> ('r, 'd) route \<Rightarrow> bool" where
  "tcp_route_ok name r =
     (name \<noteq> [] \<and> r_Name r = name \<and>
      (if r_Reject r then r_Resolver r = None \<and> r_Dialer r = None \<and> r_Fallback r = []
       else r_Resolver r \<noteq> None \<and> r_Dialer r \<noteq> None))"

definition udp_route_ok :: "string \<Rightarrow> ('r, 'd) route \<Rightarrow> bool" where
  "udp_route_ok name r =
     (name \<noteq> [] \<and> r_Name r = name \<and>
      (if r_Reject r
       then r_Resolver r = None \<and> r_Dialer r = None \<and> r_PacketDialer r = None \<and> r_Fallback r = []
       else r_Resolver r \<noteq> None \<and> r_PacketDialer r \<noteq> None))"

text \<open>
  The checks of \<open>NewTCP\<close>; a session keeps the routes it accepted.  A missing pool or matcher is a
  nil interface, which these arguments tell.
\<close>

definition new_tcp :: "bool \<Rightarrow> bool \<Rightarrow> ('r, 'd) routes \<Rightarrow> duration \<Rightarrow> goerr + ('r, 'd) routes" where
  "new_tcp has_pool has_matcher routes relayTimeout =
     (if \<not> has_pool \<or> \<not> has_matcher then Inl (Opaque ''TCP session requires a Fake IP pool and rules matcher'')
      else if routes = [] then Inl (Opaque ''TCP session requires at least one outbound route'')
      else if relayTimeout \<le> 0 then Inl (Opaque ''TCP session relay timeout must be positive'')
      else if \<not> list_all (\<lambda>(n, r). tcp_route_ok n r) routes then Inl (Opaque ''outbound route'')
      else bindE (route_validateFallbacks routes) (\<lambda>_. Inr routes))"

definition resolverMaxConcurrent :: int where
  "resolverMaxConcurrent = 64"

text \<open>\<open>BuildRoutes\<close>: one resolver with its own cache and one dialer per direct outbound.\<close>

definition build_route :: "string \<Rightarrow> outbound_cfg \<Rightarrow> goerr + (rclient, direct) route" where
  "build_route name item =
     (if ob_Type item = ''reject''
      then Inr \<lparr>r_Name = name, r_Reject = True, r_Resolver = None, r_Dialer = None, r_PacketDialer = None,
                r_Fallback = []\<rparr>
      else case new_client (ob_Interface item) (ob_DNS item) (ob_ConnectTimeout item) resolverMaxConcurrent False of
          Inl e \<Rightarrow> Inl (Wrapped ''build resolver'' e)
        | Inr client \<Rightarrow>
            (case new_direct name (ob_Interface item) (ob_ConnectTimeout item) of
               Inl e \<Rightarrow> Inl (Wrapped ''build dialer'' e)
             | Inr dialer \<Rightarrow>
                 Inr \<lparr>r_Name = name, r_Reject = False, r_Resolver = Some client, r_Dialer = Some dialer,
                      r_PacketDialer = Some dialer, r_Fallback = ob_Fallback item\<rparr>))"

fun build_routes_loop ::
  "(string, outbound_cfg) gomap \<Rightarrow> (rclient, direct) routes \<Rightarrow> goerr + (rclient, direct) routes" where
  "build_routes_loop [] acc = Inr acc"
| "build_routes_loop ((name, item) # rest) acc =
     bindE (build_route name item) (\<lambda>r. build_routes_loop rest (gm_put acc name r))"

definition build_routes :: "(string, outbound_cfg) gomap \<Rightarrow> goerr + (rclient, direct) routes" where
  "build_routes configured = build_routes_loop configured []"


section \<open>The environment of a flow\<close>

datatype event =
    Looked string bool string "goerr + addr list"   \<comment> \<open>outbound, IPv6, domain, answer\<close>
  | Dialed string addrport "goerr + nat"            \<comment> \<open>outbound, destination, connection\<close>
  | Wrote nat string "goerr option"                 \<comment> \<open>connection, payload, failure\<close>
  | Closed nat
  | FellBack string string                          \<comment> \<open>from, to\<close>
  | Relayed nat
  | Released

record ('r, 'd) env =
  env_lookup :: "event list \<Rightarrow> 'r \<Rightarrow> bool \<Rightarrow> string \<Rightarrow> goerr + addr list"
  env_dial :: "event list \<Rightarrow> 'd \<Rightarrow> string \<Rightarrow> addrport \<Rightarrow> goerr + nat"
  env_packet :: "event list \<Rightarrow> 'd \<Rightarrow> addrport \<Rightarrow> goerr + nat"
  env_write :: "event list \<Rightarrow> nat \<Rightarrow> string \<Rightarrow> nat \<times> goerr option"

text \<open>The trace of the flow and the session's \<open>fallbackAttempts\<close> counter.\<close>

record flow_st =
  tr :: "event list"
  fallbackAttempts :: "64 word"

definition emit :: "event \<Rightarrow> flow_st \<Rightarrow> flow_st" where
  "emit ev st = st\<lparr>tr := ev # tr st\<rparr>"

definition fall_back :: "string \<Rightarrow> string \<Rightarrow> flow_st \<Rightarrow> flow_st" where
  "fall_back from to st = emit (FellBack from to) (st\<lparr>fallbackAttempts := fallbackAttempts st + 1\<rparr>)"

text \<open>\<open>errors.Join\<close> of no errors is nil.\<close>

definition errors_join :: "goerr list \<Rightarrow> goerr option" where
  "errors_join es = (if es = [] then None else Some (Joined es))"

text \<open>
  A call ends in a value, in a panic (a nil interface or an index out of range), or, as \<open>None\<close>, not
  within the fuel it was given.
\<close>

type_synonym 'a run = "('a call_result \<times> flow_st) option"

text \<open>\<open>lookupAddresses\<close>; calling a method of a nil resolver panics.\<close>

definition lookup_addresses ::
  "('r, 'd) env \<Rightarrow> string \<Rightarrow> 'r option \<Rightarrow> string \<Rightarrow> bool \<Rightarrow> flow_st \<Rightarrow> (goerr + addr list) call_result \<times> flow_st"
  where
  "lookup_addresses env o_name res domain ipv6 st =
     (case res of
        None \<Rightarrow> (Panicked, st)
      | Some c \<Rightarrow>
          (let a = env_lookup env (tr st) c ipv6 domain
           in (Returned a, emit (Looked o_name ipv6 domain a) st)))"

text \<open>The condition under which both loops stop instead of following a fallback.\<close>

definition terminal_failure :: "goerr \<Rightarrow> bool" where
  "terminal_failure e = (isBusinessError e \<or> \<not> is_recoverable e)"


section \<open>Resolving for a decision\<close>

record resolution =
  res_Outbound :: string
  res_Addresses :: "addr list"

text \<open>
  \<open>resolveForDecision\<close>.  The result is the error, or the resolution pointer, which is nil when the loop
  body never runs.
\<close>

fun resolve_loop ::
  "('r, 'd) env \<Rightarrow> ('r, 'd) routes \<Rightarrow> string \<Rightarrow> bool \<Rightarrow> nat \<Rightarrow> string \<Rightarrow> goerr list \<Rightarrow> flow_st \<Rightarrow>
   (goerr + resolution option) run" where
  "resolve_loop env routes domain ipv6 0 current failures st = None"
| "resolve_loop env routes domain ipv6 (Suc fuel) current failures st =
     (if current = []
      then Some (Returned (case errors_join failures of None \<Rightarrow> Inr None | Some e \<Rightarrow> Inl e), st)
      else case gm_get routes current of
          None \<Rightarrow> Some (Returned (Inl (Opaque ''outbound is not configured'')), st)
        | Some r \<Rightarrow>
            if r_Reject r
            then Some (Returned (Inl (Joined (failures @ [Wrapped ''outbound'' ErrRejected]))), st)
            else
              (case lookup_addresses env current (r_Resolver r) domain ipv6 st of
                 (Panicked, st') \<Rightarrow> Some (Panicked, st')
               | (Returned (Inr (a # as)), st') \<Rightarrow>
                   Some (Returned (Inr (Some \<lparr>res_Outbound = current, res_Addresses = a # as\<rparr>)), st')
               | (Returned ans, st') \<Rightarrow>
                   (let e = (case ans of Inl e \<Rightarrow> e | Inr _ \<Rightarrow> Opaque ''resolver returned no addresses'');
                        failures' = failures @ [Wrapped ''outbound resolve'' e]
                    in if terminal_failure e \<or> r_Fallback r = []
                       then Some (Returned (Inl (Joined failures')), st')
                       else resolve_loop env routes domain ipv6 fuel (r_Fallback r) failures'
                              (fall_back current (r_Fallback r) st'))))"

definition resolve_for_decision ::
  "('r, 'd) env \<Rightarrow> ('r, 'd) routes \<Rightarrow> string \<Rightarrow> string \<Rightarrow> bool \<Rightarrow> flow_st \<Rightarrow> (goerr + resolution option) run" where
  "resolve_for_decision env routes start domain ipv6 st =
     resolve_loop env routes domain ipv6 (Suc (length routes)) start [] st"


section \<open>Deciding a flow\<close>

text \<open>
  The route whose resolver answers the flow: the conclusive candidate's, or, when that one rejects, the
  first earlier candidate's that does not.  \<open>Inr None\<close>: all of them reject.
\<close>

fun first_direct :: "('r, 'd) routes \<Rightarrow> decision list \<Rightarrow> goerr + string option" where
  "first_direct routes [] = Inr None"
| "first_direct routes (d # ds) =
     (case gm_get routes (dec_Outbound d) of
        None \<Rightarrow> Inl (Opaque ''outbound is not configured'')
      | Some r \<Rightarrow> if \<not> r_Reject r then Inr (Some (dec_Outbound d)) else first_direct routes ds)"

definition resolution_candidate :: "('r, 'd) routes \<Rightarrow> decision list \<Rightarrow> goerr + string option" where
  "resolution_candidate routes cs =
     (case gm_get routes (dec_Outbound (last cs)) of
        None \<Rightarrow> Inl (Opaque ''outbound is not configured'')
      | Some r \<Rightarrow> if r_Reject r then first_direct routes (butlast cs) else Inr (Some (dec_Outbound (last cs))))"

text \<open>
  The end of \<open>decideFlow\<close>, from the match against the resolved addresses on: when another outbound
  wins, the domain is resolved again through that one, and the rule is not matched again.
\<close>

definition decide_final ::
  "('r, 'd) env \<Rightarrow> (flow_metadata \<Rightarrow> addr list \<Rightarrow> goerr + decision) \<Rightarrow> ('r, 'd) routes \<Rightarrow> flow_metadata \<Rightarrow> string \<Rightarrow> bool \<Rightarrow>
   string \<Rightarrow> resolution \<Rightarrow> flow_st \<Rightarrow> (goerr + decision \<times> resolution option) run" where
  "decide_final env mres routes md domain ipv6 start res st =
     (case mres md (res_Addresses res) of
        Inl e \<Rightarrow> Some (Returned (Inl e), st)
      | Inr final \<Rightarrow>
          if dec_Outbound final = start \<or> dec_Outbound final = res_Outbound res
          then Some (Returned (Inr (final, Some res)), st)
          else case gm_get routes (dec_Outbound final) of
              None \<Rightarrow> Some (Returned (Inl (Opaque ''outbound is not configured'')), st)
            | Some r \<Rightarrow>
                if r_Reject r then Some (Returned (Inr (final, None)), st)
                else
                  (case resolve_for_decision env routes (dec_Outbound final) domain ipv6 st of
                     None \<Rightarrow> None
                   | Some (Panicked, st2) \<Rightarrow> Some (Panicked, st2)
                   | Some (Returned (Inl e), st2) \<Rightarrow> Some (Returned (Inl e), st2)
                   | Some (Returned (Inr res2), st2) \<Rightarrow> Some (Returned (Inr (final, res2)), st2)))"

text \<open>
  \<open>decideFlow\<close>.  \<open>cands\<close> and \<open>mres\<close> are \<open>Candidates\<close> and \<open>MatchResolved\<close> of the \<open>Matcher\<close> interface.
  With an error only the error is used by the callers.
\<close>

definition decide_flow ::
  "('r, 'd) env \<Rightarrow> (flow_metadata \<Rightarrow> goerr + decision list) \<Rightarrow> (flow_metadata \<Rightarrow> addr list \<Rightarrow> goerr + decision) \<Rightarrow>
   ('r, 'd) routes \<Rightarrow> flow_metadata \<Rightarrow> string \<Rightarrow> addr \<Rightarrow> bool \<Rightarrow> flow_st \<Rightarrow>
   (goerr + decision \<times> resolution option) run" where
  "decide_flow env cands mres routes md domain literal ipv6 st =
     (if is_valid literal
      then Some (Returned (bindE (mres md [literal]) (\<lambda>d. Inr (d, None))), st)
      else case cands md of
          Inl e \<Rightarrow> Some (Returned (Inl e), st)
        | Inr cs \<Rightarrow>
            if cs = [] then Some (Panicked, st)
            else case resolution_candidate routes cs of
               Inl e \<Rightarrow> Some (Returned (Inl e), st)
             | Inr None \<Rightarrow> Some (Returned (Inr (last cs, None)), st)
             | Inr (Some start) \<Rightarrow>
                 (case resolve_for_decision env routes start domain ipv6 st of
                    None \<Rightarrow> None
                  | Some (Panicked, st1) \<Rightarrow> Some (Panicked, st1)
                  | Some (Returned (Inl e), st1) \<Rightarrow> Some (Returned (Inl e), st1)
                  | Some (Returned (Inr None), st1) \<Rightarrow> Some (Panicked, st1)
                  | Some (Returned (Inr (Some res)), st1) \<Rightarrow>
                      decide_final env mres routes md domain ipv6 start res st1))"


section \<open>Connecting\<close>

text \<open>
  One destination: for TCP a dial, for UDP a dial and the first datagram, closing the socket when
  the datagram was not written in full.
\<close>

definition tcp_attempt ::
  "('r, 'd) env \<Rightarrow> bool \<Rightarrow> string \<Rightarrow> ('r, 'd) route \<Rightarrow> addrport \<Rightarrow> flow_st \<Rightarrow> (goerr + nat) call_result \<times> flow_st" where
  "tcp_attempt env ipv6 current r dst st =
     (case r_Dialer r of
        None \<Rightarrow> (Panicked, st)
      | Some d \<Rightarrow>
          (let res = env_dial env (tr st) d (if ipv6 then ''tcp6'' else ''tcp4'') dst
           in (Returned res, emit (Dialed current dst res) st)))"

definition ErrShortWrite :: goerr where
  "ErrShortWrite = Opaque ''short write''"

definition udp_attempt ::
  "('r, 'd) env \<Rightarrow> string \<Rightarrow> string \<Rightarrow> ('r, 'd) route \<Rightarrow> addrport \<Rightarrow> flow_st \<Rightarrow> (goerr + nat) call_result \<times> flow_st" where
  "udp_attempt env payload current r dst st =
     (case r_PacketDialer r of
        None \<Rightarrow> (Panicked, st)
      | Some d \<Rightarrow>
          (let res = env_packet env (tr st) d dst; st1 = emit (Dialed current dst res) st
           in case res of
                Inl e \<Rightarrow> (Returned (Inl e), st1)
              | Inr conn \<Rightarrow>
                  (case env_write env (tr st1) conn payload of
                     (n, err) \<Rightarrow>
                       (let err' = (if err = None \<and> n \<noteq> length payload then Some ErrShortWrite else err);
                            st2 = emit (Wrote conn payload err') st1
                        in case err' of
                             None \<Rightarrow> (Returned (Inr conn), st2)
                           | Some e \<Rightarrow> (Returned (Inl e), emit (Closed conn) st2)))))"

text \<open>The loop over the addresses: a connection, or the failures and whether all were recoverable.\<close>

datatype tried = Connected nat | AllFailed "goerr list" bool

fun try_addresses ::
  "(addrport \<Rightarrow> flow_st \<Rightarrow> (goerr + nat) call_result \<times> flow_st) \<Rightarrow> nat \<Rightarrow> addr list \<Rightarrow> goerr list \<Rightarrow> bool \<Rightarrow> flow_st \<Rightarrow>
   tried call_result \<times> flow_st" where
  "try_addresses attempt port [] failures ok st = (Returned (AllFailed failures ok), st)"
| "try_addresses attempt port (a # as) failures ok st =
     (case attempt \<lparr>ap_addr = a, ap_port = port\<rparr> st of
        (Panicked, st') \<Rightarrow> (Panicked, st')
      | (Returned (Inr conn), st') \<Rightarrow> (Returned (Connected conn), st')
      | (Returned (Inl e), st') \<Rightarrow>
          try_addresses attempt port as (failures @ [Wrapped ''outbound'' e]) (ok \<and> is_recoverable e) st')"

text \<open>
  \<open>connectPrepared\<close> and \<open>connectAndSendPrepared\<close>, which differ in \<open>attempt\<close> only.  \<open>prepared\<close> is used for
  its own outbound once; the result is the connection and the outbound that carries it.
\<close>

definition addresses_for ::
  "('r, 'd) env \<Rightarrow> ('r, 'd) route \<Rightarrow> string \<Rightarrow> string \<Rightarrow> addr \<Rightarrow> bool \<Rightarrow> resolution option \<Rightarrow> flow_st \<Rightarrow>
   (goerr + addr list) call_result \<times> resolution option \<times> flow_st" where
  "addresses_for env r current domain literal ipv6 prepared st =
     (case prepared of
        Some p \<Rightarrow>
          if res_Outbound p = current then (Returned (Inr (res_Addresses p)), None, st)
          else if is_valid literal then (Returned (Inr [literal]), prepared, st)
          else (case lookup_addresses env current (r_Resolver r) domain ipv6 st of (x, st') \<Rightarrow> (x, prepared, st'))
      | None \<Rightarrow>
          if is_valid literal then (Returned (Inr [literal]), None, st)
          else (case lookup_addresses env current (r_Resolver r) domain ipv6 st of (x, st') \<Rightarrow> (x, None, st')))"

fun connect_loop ::
  "(string \<Rightarrow> ('r, 'd) route \<Rightarrow> addrport \<Rightarrow> flow_st \<Rightarrow> (goerr + nat) call_result \<times> flow_st) \<Rightarrow>
   ('r, 'd) env \<Rightarrow> ('r, 'd) routes \<Rightarrow> string \<Rightarrow> addr \<Rightarrow> nat \<Rightarrow> bool \<Rightarrow> nat \<Rightarrow> string \<Rightarrow> resolution option \<Rightarrow>
   goerr list \<Rightarrow> flow_st \<Rightarrow> (goerr option + nat \<times> string) run" where
  "connect_loop attempt env routes domain literal port ipv6 0 current prepared failures st = None"
| "connect_loop attempt env routes domain literal port ipv6 (Suc fuel) current prepared failures st =
     (if current = [] then Some (Returned (Inl (errors_join failures)), st)
      else case gm_get routes current of
          None \<Rightarrow> Some (Returned (Inl (Some (Opaque ''outbound is not configured''))), st)
        | Some r \<Rightarrow>
            if r_Reject r
            then Some (Returned (Inl (Some (Joined (failures @ [Wrapped ''outbound'' ErrRejected])))), st)
            else
              (case addresses_for env r current domain literal ipv6 prepared st of
                 (Panicked, _, st1) \<Rightarrow> Some (Panicked, st1)
               | (Returned (Inl e), prepared', st1) \<Rightarrow>
                   (let failures' = failures @ [Wrapped ''outbound resolve'' e]
                    in if terminal_failure e \<or> r_Fallback r = []
                       then Some (Returned (Inl (Some (Joined failures'))), st1)
                       else connect_loop attempt env routes domain literal port ipv6 fuel (r_Fallback r) prepared'
                              failures' (fall_back current (r_Fallback r) st1))
               | (Returned (Inr as), prepared', st1) \<Rightarrow>
                   (case try_addresses (attempt current r) port as failures True st1 of
                      (Panicked, st2) \<Rightarrow> Some (Panicked, st2)
                    | (Returned (Connected conn), st2) \<Rightarrow> Some (Returned (Inr (conn, current)), st2)
                    | (Returned (AllFailed failures' ok), st2) \<Rightarrow>
                        if \<not> ok \<or> r_Fallback r = []
                        then Some (Returned (Inl (errors_join failures')), st2)
                        else connect_loop attempt env routes domain literal port ipv6 fuel (r_Fallback r) prepared'
                               failures' (fall_back current (r_Fallback r) st2))))"

definition start_of :: "string \<Rightarrow> resolution option \<Rightarrow> string" where
  "start_of outboundName prepared = (case prepared of None \<Rightarrow> outboundName | Some p \<Rightarrow> res_Outbound p)"

definition connect_prepared ::
  "('r, 'd) env \<Rightarrow> ('r, 'd) routes \<Rightarrow> string \<Rightarrow> string \<Rightarrow> addr \<Rightarrow> nat \<Rightarrow> bool \<Rightarrow> resolution option \<Rightarrow> flow_st \<Rightarrow>
   (goerr option + nat \<times> string) run" where
  "connect_prepared env routes outboundName domain literal port ipv6 prepared st =
     connect_loop (tcp_attempt env ipv6) env routes domain literal port ipv6 (Suc (length routes))
       (start_of outboundName prepared) prepared [] st"

definition connect_and_send_prepared ::
  "('r, 'd) env \<Rightarrow> ('r, 'd) routes \<Rightarrow> string \<Rightarrow> string \<Rightarrow> addr \<Rightarrow> nat \<Rightarrow> bool \<Rightarrow> string \<Rightarrow> resolution option \<Rightarrow> flow_st \<Rightarrow>
   (goerr option + nat \<times> string) run" where
  "connect_and_send_prepared env routes outboundName domain literal port ipv6 payload prepared st =
     connect_loop (udp_attempt env payload) env routes domain literal port ipv6 (Suc (length routes))
       (start_of outboundName prepared) prepared [] st"

end
