(* ===== verification/Session_Handle.thy ===== *)
theory Session_Handle
  imports Session Fakeip_Pool
begin

text \<open>
  The handlers of \<open>internal/session\<close>: \<open>MappingPools.Acquire\<close>, \<open>TCP.Handle\<close>, the UDP session registry
  \<open>UDPLimiter\<close> and \<open>UDP.Handle\<close>, with their 64-bit counters.
\<close>

section \<open>Fake IP pools\<close>

record mapping_pools =
  mp_IPv4 :: "pool option"
  mp_IPv6 :: "pool option"
  mp_IPv4Prefix :: ipprefix
  mp_IPv6Prefix :: ipprefix
  mp_AllowLiteral :: bool

text \<open>
  \<open>MappingPools.Acquire\<close>: the domain (empty for a literal destination) and what the release function
  has to release, if anything.
\<close>

definition acquire_in ::
  "gotime \<Rightarrow> addr \<Rightarrow> pool option \<Rightarrow> ipprefix \<Rightarrow> bool \<Rightarrow> (goerr + string \<times> ptr option) \<times> pool option" where
  "acquire_in now a pool pfx literal =
     (if literal \<and> pfx_valid pfx \<and> \<not> pfx_contains pfx a then (Inr ([], None), pool)
      else case pool of
          None \<Rightarrow> (Inl (Opaque ''Fake IP pool is not configured''), None)
        | Some p \<Rightarrow>
            (case acquire now a p of
               (Inl e, q) \<Rightarrow> (Inl (Opaque ''Fake IP''), Some q)
             | (Inr (d, r), q) \<Rightarrow> (Inr (d, Some r), Some q)))"

definition pools_acquire ::
  "gotime \<Rightarrow> addr \<Rightarrow> mapping_pools \<Rightarrow> (goerr + string \<times> ptr option) \<times> mapping_pools" where
  "pools_acquire now a ps =
     (if is4 a then
        (case acquire_in now a (mp_IPv4 ps) (mp_IPv4Prefix ps) (mp_AllowLiteral ps) of
           (x, q) \<Rightarrow> (x, ps\<lparr>mp_IPv4 := q\<rparr>))
      else if is6 a \<and> \<not> is4in6 a then
        (case acquire_in now a (mp_IPv6 ps) (mp_IPv6Prefix ps) (mp_AllowLiteral ps) of
           (x, q) \<Rightarrow> (x, ps\<lparr>mp_IPv6 := q\<rparr>))
      else (Inl (Opaque ''unsupported Fake IP address family''), ps))"


section \<open>TCP flows\<close>

text \<open>\<open>netstack.TCPFlow\<close> and \<open>netstack.UDPFlow\<close>.\<close>

record net_flow =
  SourceIP :: addr
  SourcePort :: nat
  DestinationIP :: addr
  DestinationPort :: nat

record session_counters =
  totalFlows :: "64 word"
  activeFlows :: "64 word"
  completedFlows :: "64 word"
  failedFlows :: "64 word"
  fallbackCount :: "64 word"
  rejectedFlows :: "64 word"

definition flow_md :: "net_flow \<Rightarrow> string \<Rightarrow> flow_metadata" where
  "flow_md f domain =
     \<lparr>fm_Domain = domain, fm_FakeIP = (if domain = [] then NoAddr else DestinationIP f),
      fm_DestinationIP = DestinationIP f, fm_SourceIP = SourceIP f, fm_SourcePort = SourcePort f\<rparr>"

definition flow_literal :: "net_flow \<Rightarrow> string \<Rightarrow> addr" where
  "flow_literal f domain = (if domain = [] then DestinationIP f else NoAddr)"

definition tcp_failed :: "goerr \<Rightarrow> session_counters \<Rightarrow> session_counters" where
  "tcp_failed e m =
     m\<lparr>failedFlows := failedFlows m + 1,
       rejectedFlows := (if errors_is ErrRejected e then rejectedFlows m + 1 else rejectedFlows m)\<rparr>"

text \<open>The deferred decrement, \<open>Add(^uint64(0))\<close>.\<close>

definition tcp_leave :: "session_counters \<Rightarrow> session_counters" where
  "tcp_leave m = m\<lparr>activeFlows := activeFlows m + (- 1)\<rparr>"

definition tcp_enter :: "session_counters \<Rightarrow> session_counters" where
  "tcp_enter m = m\<lparr>totalFlows := totalFlows m + 1, activeFlows := activeFlows m + 1\<rparr>"

definition flow_start :: "64 word \<Rightarrow> flow_st" where
  "flow_start n = \<lparr>tr = [], fallbackAttempts = n\<rparr>"

text \<open>
  \<open>TCP.Handle\<close>.  \<open>acquired\<close> is the answer of the pool, \<open>relay\<close> the outcome of \<open>netstack.Relay\<close>.  The
  deferred calls run in reverse order: the connection is closed, the mapping released, the flow
  leaves \<open>activeFlows\<close>.  A connect loop that ends without a connection and without an error leaves a
  nil connection, on which the deferred \<open>Close\<close> panics.
\<close>

definition tcp_handle ::
  "('r, 'd) env \<Rightarrow> (flow_metadata \<Rightarrow> goerr + decision list) \<Rightarrow> (flow_metadata \<Rightarrow> addr list \<Rightarrow> goerr + decision) \<Rightarrow>
   (event list \<Rightarrow> nat \<Rightarrow> goerr option) \<Rightarrow> ('r, 'd) routes \<Rightarrow> goerr + string \<Rightarrow> net_flow \<Rightarrow> session_counters \<Rightarrow>
   (goerr option call_result \<times> session_counters \<times> event list) option" where
  "tcp_handle env cands mres relay routes acquired f m0 =
     (let m = tcp_enter m0
      in case acquired of
          Inl e \<Rightarrow>
            Some (Returned (Some (Wrapped ''acquire Fake IP'' e)), tcp_leave (m\<lparr>failedFlows := failedFlows m + 1\<rparr>), [])
        | Inr domain \<Rightarrow>
            (let literal = flow_literal f domain; ipv6 = is6 (DestinationIP f)
             in case decide_flow env cands mres routes (flow_md f domain) domain literal ipv6 (flow_start (fallbackCount m)) of
                  None \<Rightarrow> None
                | Some (Panicked, st) \<Rightarrow> Some (Panicked, m, tr st)
                | Some (Returned (Inl e), st) \<Rightarrow>
                    Some (Returned (Some (Wrapped ''decide TCP flow'' e)),
                          tcp_leave (tcp_failed e (m\<lparr>fallbackCount := fallbackAttempts st\<rparr>)), Released # tr st)
                | Some (Returned (Inr (dec, prepared)), st) \<Rightarrow>
                    (case connect_prepared env routes (dec_Outbound dec) domain literal (DestinationPort f) ipv6 prepared st of
                       None \<Rightarrow> None
                     | Some (Panicked, st1) \<Rightarrow> Some (Panicked, m, tr st1)
                     | Some (Returned (Inl None), st1) \<Rightarrow> Some (Panicked, m, tr st1)
                     | Some (Returned (Inl (Some e)), st1) \<Rightarrow>
                         Some (Returned (Some (Wrapped ''rule outbound'' e)),
                               tcp_leave (tcp_failed e (m\<lparr>fallbackCount := fallbackAttempts st1\<rparr>)), Released # tr st1)
                     | Some (Returned (Inr (conn, selected)), st1) \<Rightarrow>
                         (let m1 = m\<lparr>fallbackCount := fallbackAttempts st1\<rparr>;
                              trace = Released # Closed conn # Relayed conn # tr st1
                          in case relay (tr st1) conn of
                               Some e \<Rightarrow>
                                 Some (Returned (Some (Wrapped ''relay'' e)),
                                       tcp_leave (m1\<lparr>failedFlows := failedFlows m1 + 1\<rparr>), trace)
                             | None \<Rightarrow>
                                 Some (Returned None,
                                       tcp_leave (m1\<lparr>completedFlows := completedFlows m1 + 1\<rparr>), trace)))))"


section \<open>The UDP session registry\<close>

type_synonym udp_key = net_flow

record udp_limiter =
  lim_maxSessions :: int
  lim_maxPerSource :: int
  lim_sessions :: "(udp_key, unit) gomap"
  lim_perSource :: "(addr, int) gomap"

definition ErrUDPCapacity :: goerr where
  "ErrUDPCapacity = Opaque ''UDP session capacity reached''"

definition ErrUDPIdleTimeout :: goerr where
  "ErrUDPIdleTimeout = Opaque ''UDP session idle timeout''"

definition new_udp_limiter :: "int \<Rightarrow> int \<Rightarrow> goerr + udp_limiter" where
  "new_udp_limiter maxSessions maxPerSource =
     (if maxSessions \<le> 0 \<or> maxPerSource \<le> 0 \<or> maxSessions < maxPerSource
      then Inl (Opaque ''UDP session limits are invalid'')
      else Inr \<lparr>lim_maxSessions = maxSessions, lim_maxPerSource = maxPerSource, lim_sessions = [], lim_perSource = []\<rparr>)"

text \<open>A missing key of \<open>perSource\<close> reads as zero.\<close>

definition per_source :: "udp_limiter \<Rightarrow> addr \<Rightarrow> int" where
  "per_source l a = (case gm_get (lim_perSource l) a of None \<Rightarrow> 0 | Some n \<Rightarrow> n)"

definition register :: "udp_key \<Rightarrow> udp_limiter \<Rightarrow> goerr option \<times> udp_limiter" where
  "register key l =
     (if gm_has (lim_sessions l) key then (Some (Opaque ''UDP session already exists''), l)
      else if lim_maxSessions l \<le> int (length (lim_sessions l)) then (Some ErrUDPCapacity, l)
      else if lim_maxPerSource l \<le> per_source l (SourceIP key)
      then (Some (Wrapped ''UDP source'' ErrUDPCapacity), l)
      else (None, l\<lparr>lim_sessions := gm_put (lim_sessions l) key (),
                    lim_perSource := gm_put (lim_perSource l) (SourceIP key) (per_source l (SourceIP key) + 1)\<rparr>))"

definition unregister :: "udp_key \<Rightarrow> udp_limiter \<Rightarrow> udp_limiter" where
  "unregister key l =
     (if \<not> gm_has (lim_sessions l) key then l
      else (let src = SourceIP key; n = per_source l src - 1; ps = gm_put (lim_perSource l) src n
            in l\<lparr>lim_sessions := gm_del (lim_sessions l) key,
                 lim_perSource := (if n = 0 then gm_del ps src else ps)\<rparr>))"

text \<open>\<open>NewUDPWithLimiter\<close>; as in \<open>new_tcp\<close> the flags say which interfaces are present.\<close>

record udp_config =
  uc_IdleTimeout :: duration
  uc_MaxSessions :: int
  uc_MaxPerSource :: int

definition new_udp ::
  "bool \<Rightarrow> bool \<Rightarrow> ('r, 'd) routes \<Rightarrow> udp_config \<Rightarrow> udp_limiter option \<Rightarrow> goerr + ('r, 'd) routes" where
  "new_udp has_pool has_matcher routes c limiter =
     (if \<not> has_pool \<or> \<not> has_matcher then Inl (Opaque ''UDP session requires a Fake IP pool and rules matcher'')
      else if uc_IdleTimeout c \<le> 0 \<or> uc_MaxSessions c \<le> 0 \<or> uc_MaxPerSource c \<le> 0 \<or> uc_MaxSessions c < uc_MaxPerSource c
      then Inl (Opaque ''UDP session limits and idle timeout are invalid'')
      else case limiter of
          None \<Rightarrow> Inl (Opaque ''UDP session limiter is required'')
        | Some l \<Rightarrow>
            if lim_maxSessions l \<noteq> uc_MaxSessions c \<or> lim_maxPerSource l \<noteq> uc_MaxPerSource c
            then Inl (Opaque ''UDP session limits do not match the shared limiter'')
            else if \<not> list_all (\<lambda>(n, r). udp_route_ok n r) routes then Inl (Opaque ''outbound route'')
            else bindE (route_validateFallbacks routes) (\<lambda>_. Inr routes))"


section \<open>UDP sessions\<close>

record udp_counters =
  totalSessions :: "64 word"
  activeSessions :: "64 word"
  expiredSessions :: "64 word"
  failedSessions :: "64 word"
  rejectedSessions :: "64 word"
  udpFallbacks :: "64 word"
  datagramsToNetwork :: "64 word"
  datagramsToClient :: "64 word"

text \<open>\<open>isTimeout\<close>: the first \<open>net.Error\<close> of the tree, in depth-first order, decides.\<close>

fun as_net_error :: "goerr \<Rightarrow> bool option" and as_net_error_list :: "goerr list \<Rightarrow> bool option" where
  "as_net_error (NetError t _) = Some t"
| "as_net_error DeadlineExceeded = Some True"
| "as_net_error (Errno n) = Some (n = 35 \<or> n = 60)"
| "as_net_error (InterfaceUnavailable _ e) = as_net_error e"
| "as_net_error (Wrapped _ e) = as_net_error e"
| "as_net_error (Joined es) = as_net_error_list es"
| "as_net_error _ = None"
| "as_net_error_list [] = None"
| "as_net_error_list (e # es) =
     (case as_net_error e of None \<Rightarrow> as_net_error_list es | Some t \<Rightarrow> Some t)"

definition isTimeout :: "goerr \<Rightarrow> bool" where
  "isTimeout e = (as_net_error e = Some True)"

definition udp_failed :: "goerr \<Rightarrow> udp_counters \<Rightarrow> udp_counters" where
  "udp_failed e m =
     m\<lparr>failedSessions := failedSessions m + 1,
       rejectedSessions := (if errors_is ErrRejected e then rejectedSessions m + 1 else rejectedSessions m)\<rparr>"

definition udp_expired :: "udp_counters \<Rightarrow> udp_counters" where
  "udp_expired m = m\<lparr>expiredSessions := expiredSessions m + 1\<rparr>"

text \<open>
  The body of \<open>UDP.Handle\<close> after registration, up to the deferred unregistration.  \<open>deadline\<close> is the
  error of \<open>SetReadDeadline\<close>, \<open>first\<close> what reading the queued datagram gives, and \<open>relay\<close> the outcome of
  \<open>relayUDP\<close> with the datagrams it moved in each direction.
\<close>

definition udp_body ::
  "('r, 'd) env \<Rightarrow> (flow_metadata \<Rightarrow> goerr + decision list) \<Rightarrow> (flow_metadata \<Rightarrow> addr list \<Rightarrow> goerr + decision) \<Rightarrow>
   goerr option \<Rightarrow> goerr + string \<Rightarrow> (event list \<Rightarrow> nat \<Rightarrow> goerr option \<times> 64 word \<times> 64 word) \<Rightarrow>
   ('r, 'd) routes \<Rightarrow> goerr + string \<Rightarrow> net_flow \<Rightarrow> udp_counters \<Rightarrow>
   (goerr option call_result \<times> udp_counters \<times> event list) option" where
  "udp_body env cands mres deadline first relay routes acquired f m =
     (case acquired of
        Inl e \<Rightarrow> Some (Returned (Some (Wrapped ''acquire Fake IP'' e)), m\<lparr>failedSessions := failedSessions m + 1\<rparr>, [])
      | Inr domain \<Rightarrow>
          (let literal = flow_literal f domain; ipv6 = is6 (DestinationIP f)
           in case decide_flow env cands mres routes (flow_md f domain) domain literal ipv6 (flow_start (udpFallbacks m)) of
                None \<Rightarrow> None
              | Some (Panicked, st) \<Rightarrow> Some (Panicked, m, tr st)
              | Some (Returned (Inl e), st) \<Rightarrow>
                  Some (Returned (Some (Wrapped ''decide UDP session'' e)),
                        udp_failed e (m\<lparr>udpFallbacks := fallbackAttempts st\<rparr>), Released # tr st)
              | Some (Returned (Inr (dec, prepared)), st) \<Rightarrow>
                  (let m1 = m\<lparr>udpFallbacks := fallbackAttempts st\<rparr>
                   in case deadline of
                        Some e \<Rightarrow> Some (Returned (Some e), m1, Released # tr st)
                      | None \<Rightarrow>
                          (case first of
                             Inl e \<Rightarrow>
                               if isTimeout e then Some (Returned None, udp_expired m1, Released # tr st)
                               else Some (Returned (Some (Wrapped ''read first UDP datagram'' e)),
                                          m1\<lparr>failedSessions := failedSessions m1 + 1\<rparr>, Released # tr st)
                           | Inr payload \<Rightarrow>
                               (case connect_and_send_prepared env routes (dec_Outbound dec) domain literal
                                       (DestinationPort f) ipv6 payload prepared st of
                                  None \<Rightarrow> None
                                | Some (Panicked, st1) \<Rightarrow> Some (Panicked, m1, tr st1)
                                | Some (Returned (Inl None), st1) \<Rightarrow> Some (Panicked, m1, tr st1)
                                | Some (Returned (Inl (Some e)), st1) \<Rightarrow>
                                    Some (Returned (Some (Wrapped ''rule outbound'' e)),
                                          udp_failed e (m1\<lparr>udpFallbacks := fallbackAttempts st1\<rparr>), Released # tr st1)
                                | Some (Returned (Inr (conn, selected)), st1) \<Rightarrow>
                                    (case relay (tr st1) conn of
                                       (res, up, down) \<Rightarrow>
                                         (let m2 = m1\<lparr>udpFallbacks := fallbackAttempts st1,
                                                      datagramsToNetwork := datagramsToNetwork m1 + 1 + up,
                                                      datagramsToClient := datagramsToClient m1 + down\<rparr>;
                                              trace = Released # Closed conn # Relayed conn # tr st1
                                          in case res of
                                               None \<Rightarrow> Some (Returned None, m2, trace)
                                             | Some e \<Rightarrow>
                                                 if errors_is ErrUDPIdleTimeout e
                                                 then Some (Returned None, udp_expired m2, trace)
                                                 else Some (Returned (Some (Wrapped ''relay UDP'' e)),
                                                            m2\<lparr>failedSessions := failedSessions m2 + 1\<rparr>, trace))))))))"

text \<open>
  \<open>UDP.Handle\<close>.  \<open>others\<close> is what the other sessions of the process did to the shared registry while
  this one ran.
\<close>

definition udp_handle ::
  "('r, 'd) env \<Rightarrow> (flow_metadata \<Rightarrow> goerr + decision list) \<Rightarrow> (flow_metadata \<Rightarrow> addr list \<Rightarrow> goerr + decision) \<Rightarrow>
   goerr option \<Rightarrow> goerr + string \<Rightarrow> (event list \<Rightarrow> nat \<Rightarrow> goerr option \<times> 64 word \<times> 64 word) \<Rightarrow>
   (udp_limiter \<Rightarrow> udp_limiter) \<Rightarrow> ('r, 'd) routes \<Rightarrow> goerr + string \<Rightarrow> net_flow \<Rightarrow> udp_counters \<Rightarrow> udp_limiter \<Rightarrow>
   (goerr option call_result \<times> udp_counters \<times> udp_limiter \<times> event list) option" where
  "udp_handle env cands mres deadline first relay others routes acquired f m l =
     (case register f l of
        (Some e, l') \<Rightarrow>
          Some (Returned (Some e), m\<lparr>rejectedSessions := rejectedSessions m + 1\<rparr>, l', [])
      | (None, l') \<Rightarrow>
          (case udp_body env cands mres deadline first relay routes acquired f
                  (m\<lparr>totalSessions := totalSessions m + 1, activeSessions := activeSessions m + 1\<rparr>) of
             None \<Rightarrow> None
           | Some (res, m', trace) \<Rightarrow>
               Some (res, m'\<lparr>activeSessions := activeSessions m' + (- 1)\<rparr>, unregister f (others l'), trace)))"

end
