(* ===== verification/Session_Flow.thy ===== *)
theory Session_Flow
  imports Session_Handle Chain
begin

text \<open>
  What the trace of a flow may look like, and that the loops of \<open>Session\<close> produce only such traces and
  always return.  The TCP and the UDP connect loop share one proof: the locale \<open>connector\<close> states what
  the loop needs of one connection attempt, and is interpreted on both.
\<close>

section \<open>Traces\<close>

text \<open>
  DNS isolation: a flow to a literal address dials that address and never resolves; any other flow
  dials only addresses that the resolver of the same outbound returned for the flow's own domain and
  family before; and always at the flow's port.
\<close>

fun isolated :: "string \<Rightarrow> bool \<Rightarrow> addr \<Rightarrow> nat \<Rightarrow> event list \<Rightarrow> bool" where
  "isolated domain ipv6 literal port [] = True"
| "isolated domain ipv6 literal port (ev # t) =
     (isolated domain ipv6 literal port t \<and>
      (case ev of
         Dialed ob dst r \<Rightarrow>
           ap_port dst = port \<and>
           (if is_valid literal then ap_addr dst = literal
            else \<exists>as. Looked ob ipv6 domain (Inr as) \<in> set t \<and> ap_addr dst \<in> set as)
       | Looked ob v d a \<Rightarrow> \<not> is_valid literal \<and> d = domain \<and> v = ipv6
       | _ \<Rightarrow> True))"

text \<open>A failure after which trying another outbound is allowed.\<close>

fun benign :: "event \<Rightarrow> bool" where
  "benign (Looked _ _ _ (Inl e)) = (\<not> terminal_failure e)"
| "benign (Dialed _ _ (Inl e)) = is_recoverable e"
| "benign (Wrote _ _ (Some e)) = is_recoverable e"
| "benign _ = True"

text \<open>Connections opened and not closed again.\<close>

fun open_count :: "event list \<Rightarrow> int" where
  "open_count [] = 0"
| "open_count (ev # t) =
     open_count t + (case ev of Dialed _ _ (Inr _) \<Rightarrow> 1 | Closed _ \<Rightarrow> - 1 | _ \<Rightarrow> 0)"

text \<open>
  A fallback follows the configured edge, and nothing that happened to the flow before forbids it: every
  failure was benign and no connection is open.
\<close>

fun fallback_ok :: "('r, 'd) routes \<Rightarrow> event list \<Rightarrow> bool" where
  "fallback_ok routes [] = True"
| "fallback_ok routes (ev # t) =
     (fallback_ok routes t \<and>
      (case ev of
         FellBack ob nxt \<Rightarrow>
           nxt \<noteq> [] \<and> route_fallback routes ob = nxt \<and> (\<forall>e \<in> set t. benign e) \<and> open_count t = 0
       | _ \<Rightarrow> True))"

fun fallbacks :: "event list \<Rightarrow> nat" where
  "fallbacks [] = 0"
| "fallbacks (ev # t) = fallbacks t + (case ev of FellBack _ _ \<Rightarrow> 1 | _ \<Rightarrow> 0)"

fun releases :: "event list \<Rightarrow> nat" where
  "releases [] = 0"
| "releases (ev # t) = releases t + (case ev of Released \<Rightarrow> 1 | _ \<Rightarrow> 0)"

record flow_spec =
  sp_domain :: string
  sp_ipv6 :: bool
  sp_literal :: addr
  sp_port :: nat
  sp_start :: "64 word"

definition flow_inv :: "('r, 'd) routes \<Rightarrow> flow_spec \<Rightarrow> flow_st \<Rightarrow> bool" where
  "flow_inv routes sp st =
     (isolated (sp_domain sp) (sp_ipv6 sp) (sp_literal sp) (sp_port sp) (tr st) \<and> fallback_ok routes (tr st) \<and>
      fallbackAttempts st = sp_start sp + word_of_nat (fallbacks (tr st)) \<and> releases (tr st) = 0)"

definition calm :: "flow_st \<Rightarrow> bool" where
  "calm st = (open_count (tr st) = 0 \<and> (\<forall>e \<in> set (tr st). benign e))"

definition looked_up :: "flow_spec \<Rightarrow> flow_st \<Rightarrow> string \<Rightarrow> addr list \<Rightarrow> bool" where
  "looked_up sp st ob as = (Looked ob (sp_ipv6 sp) (sp_domain sp) (Inr as) \<in> set (tr st))"

lemma flow_inv_looked:
  assumes "flow_inv routes sp st" and "\<not> is_valid (sp_literal sp)"
  shows "flow_inv routes sp (emit (Looked ob (sp_ipv6 sp) (sp_domain sp) a) st)"
  using assms by (simp add: flow_inv_def emit_def)

lemma flow_inv_fall_back:
  assumes "flow_inv routes sp st" and "calm st" and "gm_get routes ob = Some r" and "r_Fallback r \<noteq> []"
  shows "flow_inv routes sp (fall_back ob (r_Fallback r) st) \<and> calm (fall_back ob (r_Fallback r) st)"
  using assms by (simp add: flow_inv_def calm_def fall_back_def emit_def route_fallback_def)

lemma looked_up_fall_back [simp]: "looked_up sp (fall_back a b st) ob as = looked_up sp st ob as"
  by (simp add: looked_up_def fall_back_def emit_def)


section \<open>Routes a session accepts\<close>

text \<open>What \<open>new_tcp\<close> and \<open>new_udp\<close> establish; \<open>ready\<close> is the dialer a session needs.\<close>

definition routes_ok :: "(('r, 'd) route \<Rightarrow> bool) \<Rightarrow> ('r, 'd) routes \<Rightarrow> bool" where
  "routes_ok ready routes =
     (\<forall>n r. gm_get routes n = Some r \<longrightarrow> n \<noteq> [] \<and> (r_Reject r \<or> (r_Resolver r \<noteq> None \<and> ready r)))"

definition resolver_answers :: "('r, 'd) env \<Rightarrow> bool" where
  "resolver_answers env = (\<forall>t c v d. env_lookup env t c v d \<noteq> Inr [])"

lemma chain_step:
  assumes "chain_within (route_fallback routes) (Suc fuel) current" and "gm_get routes current = Some r"
    and "r_Fallback r \<noteq> []"
  shows "chain_within (route_fallback routes) fuel (r_Fallback r)"
  using assms by (simp add: route_fallback_def)

lemma lookup_addresses_Some:
  "lookup_addresses env ob (Some c) d v st =
     (Returned (env_lookup env (tr st) c v d), emit (Looked ob v d (env_lookup env (tr st) c v d)) st)"
  by (simp add: lookup_addresses_def Let_def)


section \<open>Resolving\<close>

definition resolved :: "('r, 'd) routes \<Rightarrow> flow_spec \<Rightarrow> goerr + resolution option \<Rightarrow> flow_st \<Rightarrow> bool" where
  "resolved routes sp y st =
     (flow_inv routes sp st \<and> open_count (tr st) = 0 \<and>
      (case y of
         Inl e \<Rightarrow> True
       | Inr None \<Rightarrow> False
       | Inr (Some p) \<Rightarrow> calm st \<and> res_Outbound p \<noteq> [] \<and> res_Addresses p \<noteq> [] \<and> looked_up sp st (res_Outbound p) (res_Addresses p)))"

lemma resolve_loop_ok:
  assumes "routes_ok ready routes" and "flow_inv routes sp st" and "calm st" and "\<not> is_valid (sp_literal sp)"
    and "current \<noteq> []" and "chain_within (route_fallback routes) fuel current"
  shows "\<exists>y st'. resolve_loop env routes (sp_domain sp) (sp_ipv6 sp) fuel current failures st = Some (Returned y, st') \<and>
                 resolved routes sp y st'"
  using assms(2-)
proof (induction fuel arbitrary: current failures st)
  case 0
  then show ?case by simp
next
  case (Suc fuel)
  show ?case
  proof (cases "gm_get routes current")
    case None
    then show ?thesis using Suc.prems by (auto simp: resolved_def calm_def)
  next
    case (Some r)
    show ?thesis
    proof (cases "r_Reject r")
      case True
      then show ?thesis using Suc.prems Some by (auto simp: resolved_def calm_def)
    next
      case False
      then obtain c where c: "r_Resolver r = Some c" using assms(1) Some by (auto simp: routes_ok_def)
      let ?a = "env_lookup env (tr st) c (sp_ipv6 sp) (sp_domain sp)"
      let ?st = "emit (Looked current (sp_ipv6 sp) (sp_domain sp) ?a) st"
      have inv: "flow_inv routes sp ?st" using flow_inv_looked Suc.prems(1,3) by blast
      have op: "open_count (tr ?st) = 0" using Suc.prems(2) by (simp add: calm_def emit_def)
      show ?thesis
      proof (cases "\<exists>a as. ?a = Inr (a # as)")
        case True
        then show ?thesis using Suc.prems Some False c inv op
          by (auto simp: lookup_addresses_Some resolved_def calm_def looked_up_def emit_def)
      next
        case no: False
        let ?e = "case ?a of Inl e \<Rightarrow> e | Inr _ \<Rightarrow> Opaque ''resolver returned no addresses''"
        have body: "resolve_loop env routes (sp_domain sp) (sp_ipv6 sp) (Suc fuel) current failures st =
            (if terminal_failure ?e \<or> r_Fallback r = []
             then Some (Returned (Inl (Joined (failures @ [Wrapped ''outbound resolve'' ?e]))), ?st)
             else resolve_loop env routes (sp_domain sp) (sp_ipv6 sp) fuel (r_Fallback r)
                    (failures @ [Wrapped ''outbound resolve'' ?e]) (fall_back current (r_Fallback r) ?st))"
          using no Suc.prems(4) Some False c
          by (cases ?a) (auto simp: lookup_addresses_Some Let_def split: list.splits)
        show ?thesis
        proof (cases "terminal_failure ?e \<or> r_Fallback r = []")
          case True
          then show ?thesis unfolding body using inv op by (auto simp: resolved_def)
        next
          case go: False
          have "\<not> terminal_failure (Opaque m) \<Longrightarrow> False" for m
            by (simp add: terminal_failure_def is_recoverable_parts)
          then have "benign (Looked current (sp_ipv6 sp) (sp_domain sp) ?a)"
            using go by (cases ?a) auto
          then have "calm ?st" using Suc.prems(2) by (simp add: calm_def emit_def)
          then have "flow_inv routes sp (fall_back current (r_Fallback r) ?st)" "calm (fall_back current (r_Fallback r) ?st)"
            using flow_inv_fall_back inv Some go by blast+
          then show ?thesis unfolding body
            using go Suc.IH [of _ "r_Fallback r"] Suc.prems(3) chain_step [OF Suc.prems(5) Some] by simp
        qed
      qed
    qed
  qed
qed


section \<open>Deciding\<close>

text \<open>What a session relies on in its \<open>Matcher\<close>.\<close>

locale matcher =
  fixes cands :: "flow_metadata \<Rightarrow> goerr + decision list"
    and mres :: "flow_metadata \<Rightarrow> addr list \<Rightarrow> goerr + decision"
  assumes cands_ne: "cands md \<noteq> Inr []"
    and winner_candidate: "mres md as = Inr d \<Longrightarrow> \<exists>cs. cands md = Inr cs \<and> d \<in> set cs"
begin

text \<open>A decision with what was resolved for it.\<close>

definition decided ::
  "('r, 'd) routes \<Rightarrow> flow_spec \<Rightarrow> flow_metadata \<Rightarrow> goerr + decision \<times> resolution option \<Rightarrow> flow_st \<Rightarrow> bool" where
  "decided routes sp md y st =
     (flow_inv routes sp st \<and> open_count (tr st) = 0 \<and>
      (case y of
         Inl e \<Rightarrow> True
       | Inr (d, prep) \<Rightarrow>
           calm st \<and> (\<exists>cs. cands md = Inr cs \<and> d \<in> set cs) \<and>
           (case prep of
              None \<Rightarrow> True
            | Some p \<Rightarrow> \<not> is_valid (sp_literal sp) \<and> res_Outbound p \<noteq> [] \<and> res_Addresses p \<noteq> [] \<and>
                         looked_up sp st (res_Outbound p) (res_Addresses p))))"

lemma first_direct_in: "first_direct routes ds = Inr (Some n) \<Longrightarrow> \<exists>r. gm_get routes n = Some r"
  by (induction ds) (auto split: option.splits if_splits)

lemma resolution_candidate_in:
  "resolution_candidate routes cs = Inr (Some n) \<Longrightarrow> \<exists>r. gm_get routes n = Some r"
  by (auto simp: resolution_candidate_def dest: first_direct_in split: option.splits if_splits)

lemma resolve_for_decision_ok:
  assumes "routes_ok ready routes" and "\<forall>n. gm_has routes n \<longrightarrow> chain_within (route_fallback routes) (Suc (length routes)) n"
    and "flow_inv routes sp st" and "calm st" and "\<not> is_valid (sp_literal sp)" and "gm_get routes start = Some r"
  shows "\<exists>y st'. resolve_for_decision env routes start (sp_domain sp) (sp_ipv6 sp) st = Some (Returned y, st') \<and>
                 resolved routes sp y st'"
proof -
  have "start \<noteq> []" using assms(1,6) by (auto simp: routes_ok_def)
  then show ?thesis
    unfolding resolve_for_decision_def using resolve_loop_ok [OF assms(1,3-5)] assms(2,6) by blast
qed

lemma decide_final_ok:
  assumes "routes_ok ready routes" and "\<forall>n. gm_has routes n \<longrightarrow> chain_within (route_fallback routes) (Suc (length routes)) n"
    and res: "resolved routes sp (Inr (Some p)) st" and lit: "\<not> is_valid (sp_literal sp)"
  shows "\<exists>y st'. decide_final env mres routes md (sp_domain sp) (sp_ipv6 sp) start p st = Some (Returned y, st') \<and>
                 decided routes sp md y st'"
proof (cases "mres md (res_Addresses p)")
  case (Inl e)
  then show ?thesis using res by (auto simp: decide_final_def decided_def resolved_def)
next
  case (Inr final)
  note cand = winner_candidate [OF Inr]
  have inv: "flow_inv routes sp st" "calm st" using res by (auto simp: resolved_def)
  consider (same) "dec_Outbound final = start \<or> dec_Outbound final = res_Outbound p"
    | (undefined) "\<not> (dec_Outbound final = start \<or> dec_Outbound final = res_Outbound p)" "gm_get routes (dec_Outbound final) = None"
    | (other) r where "\<not> (dec_Outbound final = start \<or> dec_Outbound final = res_Outbound p)"
        "gm_get routes (dec_Outbound final) = Some r" by (cases "gm_get routes (dec_Outbound final)") auto
  then show ?thesis
  proof cases
    case same
    then show ?thesis using Inr cand res lit by (auto simp: decide_final_def decided_def resolved_def)
  next
    case undefined
    then show ?thesis using Inr res by (auto simp: decide_final_def decided_def resolved_def)
  next
    case other
    obtain y2 st2 where y2: "resolve_for_decision env routes (dec_Outbound final) (sp_domain sp) (sp_ipv6 sp) st =
        Some (Returned y2, st2)" "resolved routes sp y2 st2"
      using resolve_for_decision_ok [OF assms(1,2) inv lit other(2)] by blast
    show ?thesis
    proof (cases "r_Reject r")
      case True
      then show ?thesis using other Inr cand res inv by (auto simp: decide_final_def decided_def resolved_def)
    next
      case False
      then show ?thesis using other Inr cand y2 lit
        by (cases y2) (auto simp: decide_final_def decided_def resolved_def split: option.splits)
    qed
  qed
qed

lemma decide_flow_ok:
  assumes "routes_ok ready routes" and "\<forall>n. gm_has routes n \<longrightarrow> chain_within (route_fallback routes) (Suc (length routes)) n"
    and inv: "flow_inv routes sp st" "calm st"
  shows "\<exists>y st'. decide_flow env cands mres routes md (sp_domain sp) (sp_literal sp) (sp_ipv6 sp) st = Some (Returned y, st') \<and>
                 decided routes sp md y st'"
proof (cases "is_valid (sp_literal sp)")
  case True
  then show ?thesis using inv winner_candidate
    by (auto simp: decide_flow_def decided_def calm_def bindE_def split: sum.splits)
next
  case lit: False
  have op: "open_count (tr st) = 0" using inv(2) by (simp add: calm_def)
  show ?thesis
  proof (cases "cands md")
    case (Inl e)
    then show ?thesis using lit inv op by (auto simp: decide_flow_def decided_def)
  next
    case (Inr cs)
    then have ne: "cs \<noteq> []" using cands_ne by auto
    consider (failed) e where "resolution_candidate routes cs = Inl e"
      | (rejected) "resolution_candidate routes cs = Inr None"
      | (start) start where "resolution_candidate routes cs = Inr (Some start)"
      by (cases "resolution_candidate routes cs") auto
    then show ?thesis
    proof cases
      case failed
      then show ?thesis using lit Inr ne inv op by (auto simp: decide_flow_def decided_def)
    next
      case rejected
      then have "decide_flow env cands mres routes md (sp_domain sp) (sp_literal sp) (sp_ipv6 sp) st =
          Some (Returned (Inr (last cs, None)), st)" using lit Inr ne by (simp add: decide_flow_def)
      then show ?thesis using Inr ne inv op by (fastforce simp: decided_def)
    next
      case start
      obtain r where r: "gm_get routes start = Some r" using resolution_candidate_in [OF start] by blast
      obtain y st1 where y: "resolve_for_decision env routes start (sp_domain sp) (sp_ipv6 sp) st = Some (Returned y, st1)"
        "resolved routes sp y st1" using resolve_for_decision_ok [OF assms(1,2) inv lit r] by blast
      show ?thesis
      proof (cases "\<exists>p. y = Inr (Some p)")
        case True
        then obtain p where p: "y = Inr (Some p)" by blast
        then show ?thesis
          using decide_final_ok [OF assms(1,2) _ lit] y lit Inr ne start by (simp add: decide_flow_def)
      next
        case False
        then obtain e where "y = Inl e" using y(2) by (auto simp: resolved_def split: sum.splits option.splits)
        then show ?thesis using y lit Inr ne start by (auto simp: decide_flow_def decided_def resolved_def)
      qed
    qed
  qed
qed

end


section \<open>Connecting\<close>

text \<open>What one attempt to reach one destination adds to the trace, newest event first.\<close>

inductive attempt_trace :: "string \<Rightarrow> addrport \<Rightarrow> goerr + nat \<Rightarrow> event list \<Rightarrow> bool" where
  dial_failed: "attempt_trace ob dst (Inl e) [Dialed ob dst (Inl e)]"
| write_failed: "attempt_trace ob dst (Inl e) [Closed c, Wrote c payload (Some e), Dialed ob dst (Inr c)]"
| dialed: "attempt_trace ob dst (Inr c) [Dialed ob dst (Inr c)]"
| written: "attempt_trace ob dst (Inr c) [Wrote c payload None, Dialed ob dst (Inr c)]"

inductive_cases attempt_failedE: "attempt_trace ob dst (Inl e) evs"
inductive_cases attempt_okE: "attempt_trace ob dst (Inr c) evs"

text \<open>The destination of an attempt is one the flow may dial.\<close>

definition may_dial :: "flow_spec \<Rightarrow> flow_st \<Rightarrow> string \<Rightarrow> addr \<Rightarrow> bool" where
  "may_dial sp st ob a =
     (if is_valid (sp_literal sp) then a = sp_literal sp
      else \<exists>as. looked_up sp st ob as \<and> a \<in> set as)"

lemma may_dial_mono: "may_dial sp st ob a \<Longrightarrow> set (tr st) \<subseteq> set (tr st') \<Longrightarrow> may_dial sp st' ob a"
  by (auto simp: may_dial_def looked_up_def split: if_splits)

lemma attempt_inv:
  assumes "attempt_trace ob \<lparr>ap_addr = a, ap_port = sp_port sp\<rparr> res evs" and "flow_inv routes sp st" and "may_dial sp st ob a"
  shows "flow_inv routes sp (st\<lparr>tr := evs @ tr st\<rparr>)"
  using assms
  by (cases rule: attempt_trace.cases) (auto simp: flow_inv_def may_dial_def looked_up_def)

lemma attempt_open:
  "attempt_trace ob dst (Inl e) evs \<Longrightarrow> open_count (evs @ t) = open_count t"
  "attempt_trace ob dst (Inr c) evs \<Longrightarrow> open_count (evs @ t) = open_count t + 1"
  by (auto elim!: attempt_failedE attempt_okE)

lemma attempt_benign: "attempt_trace ob dst (Inl e) evs \<Longrightarrow> (\<forall>x \<in> set evs. benign x) \<longleftrightarrow> is_recoverable e"
  by (auto elim!: attempt_failedE)

locale connector =
  fixes attempt :: "string \<Rightarrow> ('r, 'd) route \<Rightarrow> addrport \<Rightarrow> flow_st \<Rightarrow> (goerr + nat) call_result \<times> flow_st"
    and ready :: "('r, 'd) route \<Rightarrow> bool"
  assumes attempt_events: "ready r \<Longrightarrow>
    \<exists>res evs. attempt ob r dst st = (Returned res, st\<lparr>tr := evs @ tr st\<rparr>) \<and> attempt_trace ob dst res evs"
begin

definition tries ::
  "('r, 'd) routes \<Rightarrow> flow_spec \<Rightarrow> goerr list \<Rightarrow> flow_st \<Rightarrow> tried \<Rightarrow> flow_st \<Rightarrow> bool" where
  "tries routes sp failures st t st' =
     (flow_inv routes sp st' \<and> set (tr st) \<subseteq> set (tr st') \<and>
      (case t of
         Connected c \<Rightarrow> open_count (tr st') = 1
       | AllFailed fs ok \<Rightarrow> open_count (tr st') = 0 \<and> length failures \<le> length fs \<and>
           (ok \<longrightarrow> (\<forall>e \<in> set (tr st'). benign e))))"

lemma try_addresses_ok:
  assumes "ready r" and "flow_inv routes sp st" and "open_count (tr st) = 0"
    and "ok \<longrightarrow> (\<forall>e \<in> set (tr st). benign e)" and "\<forall>a \<in> set as. may_dial sp st ob a"
  shows "\<exists>t st'. try_addresses (attempt ob r) (sp_port sp) as failures ok st = (Returned t, st') \<and>
           tries routes sp failures st t st' \<and>
           (\<forall>fs ok'. t = AllFailed fs ok' \<longrightarrow> as \<noteq> [] \<longrightarrow> fs \<noteq> [])"
  using assms(2-)
proof (induction as arbitrary: failures ok st)
  case Nil
  then show ?case by (auto simp: tries_def)
next
  case (Cons a as)
  let ?dst = "\<lparr>ap_addr = a, ap_port = sp_port sp\<rparr>"
  obtain res evs where at: "attempt ob r ?dst st = (Returned res, st\<lparr>tr := evs @ tr st\<rparr>)" and evs: "attempt_trace ob ?dst res evs"
    using attempt_events [OF assms(1)] by blast
  let ?st = "st\<lparr>tr := evs @ tr st\<rparr>"
  have inv: "flow_inv routes sp ?st" using attempt_inv [OF evs Cons.prems(1)] Cons.prems(4) by simp
  show ?case
  proof (cases res)
    case (Inr c)
    then show ?thesis using at inv attempt_open(2) evs Cons.prems(2) by (auto simp: tries_def)
  next
    case (Inl e)
    then have ev: "attempt_trace ob ?dst (Inl e) evs" using evs by simp
    have may: "\<forall>a \<in> set as. may_dial sp ?st ob a" using Cons.prems(4) may_dial_mono [of sp st ob _ ?st] by simp
    have ben: "ok \<and> is_recoverable e \<longrightarrow> (\<forall>e \<in> set (tr ?st). benign e)"
      using Cons.prems(3) attempt_benign [OF ev] by auto
    have "open_count (tr ?st) = 0" using attempt_open(1) [OF ev] Cons.prems(2) by simp
    then obtain t st' where t: "try_addresses (attempt ob r) (sp_port sp) as (failures @ [Wrapped ''outbound'' e])
        (ok \<and> is_recoverable e) ?st = (Returned t, st')"
      "tries routes sp (failures @ [Wrapped ''outbound'' e]) ?st t st'" using Cons.IH [OF inv _ ben may] by blast
    then have "tries routes sp failures st t st' \<and> (\<forall>fs ok'. t = AllFailed fs ok' \<longrightarrow> fs \<noteq> [])"
      by (auto simp: tries_def split: tried.splits)
    then show ?thesis using at Inl t(1) by auto
  qed
qed

text \<open>The outcome of a connect loop: a connection that is the only open one, or an error.\<close>

definition connected :: "('r, 'd) routes \<Rightarrow> flow_spec \<Rightarrow> goerr option + nat \<times> string \<Rightarrow> flow_st \<Rightarrow> bool" where
  "connected routes sp y st =
     (flow_inv routes sp st \<and>
      (case y of Inl None \<Rightarrow> False | Inl (Some e) \<Rightarrow> open_count (tr st) = 0 | Inr (c, ob) \<Rightarrow> open_count (tr st) = 1))"

definition prepared_ok :: "flow_spec \<Rightarrow> flow_st \<Rightarrow> resolution option \<Rightarrow> bool" where
  "prepared_ok sp st prep =
     (case prep of
        None \<Rightarrow> True
      | Some p \<Rightarrow> \<not> is_valid (sp_literal sp) \<and> res_Addresses p \<noteq> [] \<and>
                   looked_up sp st (res_Outbound p) (res_Addresses p))"

lemma prepared_ok_mono: "prepared_ok sp st prep \<Longrightarrow> set (tr st) \<subseteq> set (tr st') \<Longrightarrow> prepared_ok sp st' prep"
  by (auto simp: prepared_ok_def looked_up_def split: option.splits)

text \<open>Where the addresses of one round come from.\<close>

lemma addresses_for_ok:
  assumes "resolver_answers env" and "r_Resolver r = Some c" and "flow_inv routes sp st" and "calm st"
    and "prepared_ok sp st prep"
  obtains as prep' st' where
    "addresses_for env r current (sp_domain sp) (sp_literal sp) (sp_ipv6 sp) prep st = (Returned (Inr as), prep', st')"
    "flow_inv routes sp st'" "calm st'" "prepared_ok sp st' prep'" "as \<noteq> []" "\<forall>a \<in> set as. may_dial sp st' current a"
  | e prep' st' where
    "addresses_for env r current (sp_domain sp) (sp_literal sp) (sp_ipv6 sp) prep st = (Returned (Inl e), prep', st')"
    "flow_inv routes sp st'" "open_count (tr st') = 0" "\<not> terminal_failure e \<Longrightarrow> calm st'" "prepared_ok sp st' prep'"
proof (cases "\<exists>p. prep = Some p \<and> res_Outbound p = current")
  case True
  then obtain p where p: "prep = Some p" "res_Outbound p = current" by blast
  show ?thesis
    by (rule that(1) [of "res_Addresses p" None st])
      (use assms p in \<open>auto simp: addresses_for_def prepared_ok_def may_dial_def\<close>)
next
  case no: False
  show ?thesis
  proof (cases "is_valid (sp_literal sp)")
    case True
    show ?thesis
      by (rule that(1) [of "[sp_literal sp]" prep st])
        (use True no assms in \<open>auto simp: addresses_for_def may_dial_def split: option.splits\<close>)
  next
    case lit: False
    let ?a = "env_lookup env (tr st) c (sp_ipv6 sp) (sp_domain sp)"
    let ?st = "emit (Looked current (sp_ipv6 sp) (sp_domain sp) ?a) st"
    have eq: "addresses_for env r current (sp_domain sp) (sp_literal sp) (sp_ipv6 sp) prep st = (Returned ?a, prep, ?st)"
      using lit no assms(2) by (auto simp: addresses_for_def lookup_addresses_Some split: option.splits)
    have inv: "flow_inv routes sp ?st" using flow_inv_looked [OF assms(3) lit] .
    have prep': "prepared_ok sp ?st prep" using prepared_ok_mono [OF assms(5)] by (simp add: emit_def subset_insertI)
    show ?thesis
    proof (cases ?a)
      case (Inl e)
      show ?thesis
        by (rule that(2) [of e prep ?st]) (use eq Inl inv prep' assms(4) in \<open>auto simp: calm_def emit_def\<close>)
    next
      case (Inr as)
      then have "as \<noteq> []" using assms(1) by (auto simp: resolver_answers_def)
      then show ?thesis
        by (intro that(1) [of as prep ?st])
          (use eq Inr inv prep' assms(4) lit in \<open>auto simp: calm_def emit_def may_dial_def looked_up_def\<close>)
    qed
  qed
qed

text \<open>One round that leads on to the fallback keeps everything the next one needs.\<close>

lemma next_round:
  assumes "flow_inv routes sp st" and "calm st" and "prepared_ok sp st prep" and "gm_get routes current = Some r"
    and "r_Fallback r \<noteq> []"
  shows "flow_inv routes sp (fall_back current (r_Fallback r) st)" "calm (fall_back current (r_Fallback r) st)"
    "prepared_ok sp (fall_back current (r_Fallback r) st) prep"
  using flow_inv_fall_back [OF assms(1,2,4,5)] assms(3) by (auto simp: prepared_ok_def split: option.splits)

lemma connect_loop_ok:
  assumes "resolver_answers env" and "routes_ok ready routes"
    and "flow_inv routes sp st" and "calm st" and "prepared_ok sp st prep"
    and "current \<noteq> []" and "chain_within (route_fallback routes) fuel current"
  shows "\<exists>y st'. connect_loop attempt env routes (sp_domain sp) (sp_literal sp) (sp_port sp) (sp_ipv6 sp) fuel current prep failures st =
                   Some (Returned y, st') \<and> connected routes sp y st'"
  using assms(3-)
proof (induction fuel arbitrary: current prep failures st)
  case 0
  then show ?case by simp
next
  case (Suc fuel)
  have op: "open_count (tr st) = 0" using Suc.prems(2) by (simp add: calm_def)
  consider (unknown) "gm_get routes current = None" | (reject) r where "gm_get routes current = Some r" "r_Reject r"
    | (direct) r where "gm_get routes current = Some r" "\<not> r_Reject r" by (cases "gm_get routes current") auto
  then show ?case
  proof cases
    case unknown
    then show ?thesis using Suc.prems op by (auto simp: connected_def)
  next
    case reject
    then show ?thesis using Suc.prems op by (auto simp: connected_def)
  next
    case direct
    then obtain c where c: "r_Resolver r = Some c" and rdy: "ready r" using assms(2) by (auto simp: routes_ok_def)
    note on = next_round [OF _ _ _ direct(1)] and IH = Suc.IH [OF _ _ _ _ chain_step [OF Suc.prems(5) direct(1)]]
    show ?thesis
    proof (cases rule: addresses_for_ok [OF assms(1) c Suc.prems(1-3), of current])
      case (2 e prep' st')
      then show ?thesis using Suc.prems(4) direct on [of sp st' prep'] IH [of "fall_back current (r_Fallback r) st'" prep']
        by (auto simp: connected_def Let_def)
    next
      case (1 as prep' st1)
      have op1: "open_count (tr st1) = 0" and ben1: "True \<longrightarrow> (\<forall>e \<in> set (tr st1). benign e)"
        using 1(3) by (simp_all add: calm_def)
      obtain t st2 where t: "try_addresses (attempt current r) (sp_port sp) as failures True st1 = (Returned t, st2)"
        "tries routes sp failures st1 t st2" "\<forall>fs ok. t = AllFailed fs ok \<longrightarrow> fs \<noteq> []"
        using try_addresses_ok [OF rdy 1(2) op1 ben1 1(6), of failures] 1(5) by blast
      show ?thesis
      proof (cases t)
        case (Connected conn)
        then show ?thesis using Suc.prems(4) direct 1(1) t by (auto simp: connected_def tries_def)
      next
        case (AllFailed fs ok)
        have inv2: "flow_inv routes sp st2" "open_count (tr st2) = 0" "prepared_ok sp st2 prep'"
          using t(2) AllFailed prepared_ok_mono [OF 1(4)] by (auto simp: tries_def)
        have "fs \<noteq> []" using t(3) AllFailed by blast
        moreover have "calm st2" if ok using that t(2) AllFailed by (auto simp: tries_def calm_def)
        ultimately show ?thesis
          using Suc.prems(4) direct 1(1) t(1) AllFailed inv2 on [of sp st2 prep']
            IH [of "fall_back current (r_Fallback r) st2" prep']
          by (auto simp: connected_def errors_join_def)
      qed
    qed
  qed
qed

end


section \<open>Both connect loops\<close>

definition has_dialer :: "('r, 'd) route \<Rightarrow> bool" where "has_dialer r = (r_Dialer r \<noteq> None)"
definition has_packet_dialer :: "('r, 'd) route \<Rightarrow> bool" where "has_packet_dialer r = (r_PacketDialer r \<noteq> None)"

lemma emit_eq: "emit ev st = st\<lparr>tr := [ev] @ tr st\<rparr>"
  by (simp add: emit_def)

interpretation tcp: connector "tcp_attempt env ipv6" has_dialer for env ipv6
proof
  fix r :: "('a, 'b) route" and ob dst and st :: flow_st
  assume "has_dialer r"
  then obtain d where d: "r_Dialer r = Some d" by (auto simp: has_dialer_def)
  let ?res = "env_dial env (tr st) d (if ipv6 then ''tcp6'' else ''tcp4'') dst"
  have "attempt_trace ob dst ?res [Dialed ob dst ?res]"
    by (cases ?res) (auto intro: attempt_trace.intros)
  then show "\<exists>res evs. tcp_attempt env ipv6 ob r dst st = (Returned res, st\<lparr>tr := evs @ tr st\<rparr>) \<and> attempt_trace ob dst res evs"
    using d by (intro exI [of _ ?res] exI [of _ "[Dialed ob dst ?res]"]) (simp add: tcp_attempt_def Let_def emit_def)
qed

interpretation udp: connector "udp_attempt env payload" has_packet_dialer for env payload
proof
  fix r :: "('a, 'b) route" and ob dst and st :: flow_st
  assume "has_packet_dialer r"
  then obtain d where d: "r_PacketDialer r = Some d" by (auto simp: has_packet_dialer_def)
  show "\<exists>res evs. udp_attempt env payload ob r dst st = (Returned res, st\<lparr>tr := evs @ tr st\<rparr>) \<and> attempt_trace ob dst res evs"
  proof (cases "env_packet env (tr st) d dst")
    case (Inl e)
    then show ?thesis using d
      by (rule_tac exI, rule_tac exI, rule_tac conjI [rotated], rule_tac attempt_trace.dial_failed [of ob dst e]) (simp add: udp_attempt_def Let_def emit_def)
  next
    case (Inr conn)
    obtain n err where w: "env_write env (Dialed ob dst (Inr conn) # tr st) conn payload = (n, err)" by fastforce
    let ?err = "if err = None \<and> n \<noteq> length payload then Some ErrShortWrite else err"
    show ?thesis
    proof (cases ?err)
      case None
      then show ?thesis using d Inr w
        by (rule_tac exI, rule_tac exI, rule_tac conjI [rotated], rule_tac attempt_trace.written [of ob dst conn payload])
          (simp add: udp_attempt_def Let_def emit_def)
    next
      case (Some e)
      then show ?thesis using d Inr w
        by (rule_tac exI, rule_tac exI, rule_tac conjI [rotated], rule_tac attempt_trace.write_failed [of ob dst e conn payload])
          (simp add: udp_attempt_def Let_def emit_def)
    qed
  qed
qed

end
