(* ===== verification/Session_Properties.thy ===== *)
theory Session_Properties
  imports Session_Flow Config_Properties
begin

text \<open>
  The properties of flows: sessions built from an accepted configuration, the outcome of a TCP flow and
  of a UDP session, and the registry of UDP sessions.
\<close>

section \<open>Routes a session accepts\<close>

lemma route_fallback_support: "{y. route_fallback routes y \<noteq> []} \<subseteq> set (map fst routes)"
  by (auto simp: route_fallback_def split: option.splits)

interpretation route_search: fallback_search "route_visit routes" "route_fallback routes" "gm_has routes" for routes
proof
  show "finite {x. route_fallback routes x \<noteq> []}" by (rule finite_subset [OF route_fallback_support]) simp
qed (subst route_visit.simps, simp add: Let_def)+

lemma route_validateFallbacks_iff:
  "route_validateFallbacks routes = Inr () \<longleftrightarrow>
     (\<forall>n. gm_has routes n \<longrightarrow> chain_ends (route_fallback routes) n \<and>
        (route_fallback routes n \<noteq> [] \<longrightarrow> gm_has routes (route_fallback routes n)))"
proof -
  have "route_validateFallbacks routes = Inr () \<longleftrightarrow> (\<exists>st. foldE (route_visit routes) [] (map fst routes) = Inr st)"
    by (auto simp: route_validateFallbacks_def route_visit_all_def bindE_Inr_iff)
  then show ?thesis
    using route_search.search_iff [OF route_fallback_support, of routes] by (metis gm_keys_fst set_map)
qed

lemma route_chains:
  assumes "route_validateFallbacks routes = Inr ()"
  shows "chain_within (route_fallback routes) (Suc (length routes)) n"
proof (cases "gm_has routes n")
  case True
  then have "chain_ends (route_fallback routes) n" using assms by (simp add: route_validateFallbacks_iff)
  then show ?thesis using chain_length_bound [OF _ route_fallback_support] by fastforce
next
  case False
  then show ?thesis by (simp add: route_fallback_def)
qed

lemma list_all_routes: "list_all (\<lambda>(n, r). P n r) routes \<Longrightarrow> gm_get routes n = Some r \<Longrightarrow> P n r"
  by (auto simp: list_all_iff gm_get_def dest!: map_of_SomeD)

lemma new_tcp_ok:
  assumes "new_tcp has_pool has_matcher routes t = Inr routes'"
  shows "routes' = routes \<and> routes_ok has_dialer routes \<and> (\<forall>n. chain_within (route_fallback routes) (Suc (length routes)) n)"
proof -
  have "list_all (\<lambda>(n, r). tcp_route_ok n r) routes" "route_validateFallbacks routes = Inr ()" "routes' = routes"
    using assms by (auto simp: new_tcp_def bindE_Inr_iff split: if_splits)
  moreover have "tcp_route_ok n r \<Longrightarrow> n \<noteq> [] \<and> (r_Reject r \<or> (r_Resolver r \<noteq> None \<and> has_dialer r))"
    for n and r :: "('a, 'b) route" by (auto simp: tcp_route_ok_def has_dialer_def split: if_splits)
  ultimately show ?thesis using route_chains list_all_routes [of tcp_route_ok routes] unfolding routes_ok_def by blast
qed

lemma new_udp_ok:
  assumes "new_udp has_pool has_matcher routes c l = Inr routes'"
  shows "routes' = routes \<and> routes_ok has_packet_dialer routes \<and>
         (\<forall>n. chain_within (route_fallback routes) (Suc (length routes)) n)"
proof -
  have "list_all (\<lambda>(n, r). udp_route_ok n r) routes" "route_validateFallbacks routes = Inr ()" "routes' = routes"
    using assms by (auto simp: new_udp_def bindE_Inr_iff split: if_splits option.splits)
  moreover have "udp_route_ok n r \<Longrightarrow> n \<noteq> [] \<and> (r_Reject r \<or> (r_Resolver r \<noteq> None \<and> has_packet_dialer r))"
    for n and r :: "('a, 'b) route" by (auto simp: udp_route_ok_def has_packet_dialer_def split: if_splits)
  ultimately show ?thesis using route_chains list_all_routes [of udp_route_ok routes] unfolding routes_ok_def by blast
qed


section \<open>The rule engine as the matcher of a session\<close>

definition rule_cands :: "engine \<Rightarrow> flow_metadata \<Rightarrow> goerr + decision list" where
  "rule_cands eng md = (case candidates eng md of Inl e \<Rightarrow> Inl (Opaque ''rules'') | Inr cs \<Rightarrow> Inr cs)"

definition rule_mres :: "engine \<Rightarrow> flow_metadata \<Rightarrow> addr list \<Rightarrow> goerr + decision" where
  "rule_mres eng md as = (case match_resolved eng md as of Inl e \<Rightarrow> Inl (Opaque ''rules'') | Inr d \<Rightarrow> Inr d)"

text \<open>The matcher of the engine that \<open>rules.New\<close> makes of a rule list; without one there is no answer.\<close>

definition engine_cands :: "rule list \<Rightarrow> flow_metadata \<Rightarrow> goerr + decision list" where
  "engine_cands rs md = (case new_engine rs of Inl e \<Rightarrow> Inl (Opaque ''rules'') | Inr eng \<Rightarrow> rule_cands eng md)"

definition engine_mres :: "rule list \<Rightarrow> flow_metadata \<Rightarrow> addr list \<Rightarrow> goerr + decision" where
  "engine_mres rs md as = (case new_engine rs of Inl e \<Rightarrow> Inl (Opaque ''rules'') | Inr eng \<Rightarrow> rule_mres eng md as)"

lemma candidates_from_rules:
  assumes "new_engine rs = Inr eng" and "candidates eng md = Inr cs"
  shows "cs \<noteq> [] \<and> (\<forall>d \<in> set cs. \<exists>r \<in> set rs. d = decision_of r)"
proof -
  obtain d where "candidates_loop (map compile_rule rs) d [] = Inr cs"
    using assms by (auto simp: candidates_def bindE_Inr_iff new_engine_Inr_iff)
  then show ?thesis unfolding candidates_loop_spec
    by (auto split: option.splits) (metis find_Some_in, metis set_takeWhileD)
qed

interpretation engine_matcher: matcher "engine_cands rs" "engine_mres rs" for rs
proof
  show "engine_cands rs md \<noteq> Inr []" for md
    using candidates_from_rules by (auto simp: engine_cands_def rule_cands_def split: sum.splits)
  show "\<exists>cs. engine_cands rs md = Inr cs \<and> d \<in> set cs" if "engine_mres rs md as = Inr d" for md as d
    using that winner_among_candidates
    by (fastforce simp: engine_cands_def engine_mres_def rule_cands_def rule_mres_def split: sum.splits)
qed

lemma engine_cands_outbound:
  assumes "engine_cands rs md = Inr cs" and "d \<in> set cs" and "\<forall>r \<in> set rs. rule_Outbound r \<noteq> []"
  shows "dec_Outbound d \<noteq> []"
  using assms candidates_from_rules
  by (fastforce simp: engine_cands_def rule_cands_def split: sum.splits)

lemma rule_engine_fns:
  assumes "new_engine rs = Inr eng"
  shows "rule_cands eng = engine_cands rs" and "rule_mres eng = engine_mres rs"
  using assms by (simp_all add: fun_eq_iff engine_cands_def engine_mres_def)


section \<open>Routes of a compiled configuration\<close>

lemma build_route_ok:
  assumes "outbound_ok n ob"
  shows "\<exists>r. build_route n ob = Inr r \<and> tcp_route_ok n r \<and> udp_route_ok n r \<and> r_Fallback r = ob_Fallback ob"
proof (cases "ob_Type ob = ''reject''")
  case True
  then show ?thesis using assms by (simp add: build_route_def outbound_ok_def tcp_route_ok_def udp_route_ok_def)
next
  case False
  then have "list_all (valid_server False) (ob_DNS ob)"
    using assms by (auto simp: outbound_ok_def list_all_iff valid_server_def server_ok_def)
  then show ?thesis using False assms
    by (auto simp: build_route_def outbound_ok_def validInterfaceName_def tcp_route_ok_def udp_route_ok_def new_client_def new_direct_def
        resolverMaxConcurrent_def)
qed

definition route_for :: "string \<Rightarrow> string \<Rightarrow> ('r, 'd) route \<Rightarrow> bool" where
  "route_for n fb r = (tcp_route_ok n r \<and> udp_route_ok n r \<and> r_Fallback r = fb)"

lemma build_routes_loop_ok:
  assumes "gm_wf (obs :: (string, outbound_cfg) gomap)" and "\<forall>(n, ob) \<in> set obs. outbound_ok n ob" and "gm_wf acc"
    and "\<forall>n. gm_has acc n \<longrightarrow> \<not> gm_has obs n"
  shows "\<exists>routes. build_routes_loop obs acc = Inr routes \<and> gm_wf routes \<and>
           (\<forall>n. case gm_get obs n of
                  Some ob \<Rightarrow> (\<exists>r. gm_get routes n = Some r \<and> route_for n (ob_Fallback ob) r)
                | None \<Rightarrow> gm_get routes n = gm_get acc n)"
  using assms
proof (induction obs arbitrary: acc)
  case Nil
  then show ?case by simp
next
  case (Cons x obs)
  obtain n ob where x: "x = (n, ob)" by (cases x)
  obtain r where r: "build_route n ob = Inr r" "route_for n (ob_Fallback ob) r"
    using build_route_ok [of n ob] Cons.prems(2) x by (auto simp: route_for_def)
  have new: "gm_get obs n = None" and wf: "gm_wf obs"
    using Cons.prems(1) x gm_keys_fst [of n obs] by (auto simp: gm_wf_def)
  have "\<forall>m. gm_has (gm_put acc n r) m \<longrightarrow> \<not> gm_has obs m"
    using Cons.prems(4) new x by (auto simp: gm_get_Cons)
  then obtain routes where R: "build_routes_loop obs (gm_put acc n r) = Inr routes" "gm_wf routes"
    "\<forall>m. case gm_get obs m of
           Some ob \<Rightarrow> (\<exists>r. gm_get routes m = Some r \<and> route_for m (ob_Fallback ob) r)
         | None \<Rightarrow> gm_get routes m = gm_get (gm_put acc n r) m"
    using Cons.IH [of "gm_put acc n r"] wf Cons.prems(2,3) by auto
  have "case gm_get (x # obs) m of
          Some ob \<Rightarrow> (\<exists>r. gm_get routes m = Some r \<and> route_for m (ob_Fallback ob) r)
        | None \<Rightarrow> gm_get routes m = gm_get acc m" for m
    using R(3) [rule_format, of m] new r(2) x by (auto simp: gm_get_Cons split: option.splits if_splits)
  then show ?case using R(1,2) r(1) x by auto
qed

lemma build_routes_ok:
  assumes "gm_wf obs" and "\<forall>(n, ob) \<in> set obs. outbound_ok n ob"
  obtains routes where "build_routes obs = Inr routes" "gm_wf routes" "\<And>n. gm_has routes n \<longleftrightarrow> gm_has obs n"
    "route_fallback routes = fallback_of obs"
    "list_all (\<lambda>(n, r). tcp_route_ok n r) routes" "list_all (\<lambda>(n, r). udp_route_ok n r) routes"
proof -
  obtain routes where R: "build_routes obs = Inr routes" "gm_wf routes"
    "\<And>n. case gm_get obs n of Some ob \<Rightarrow> (\<exists>r. gm_get routes n = Some r \<and> route_for n (ob_Fallback ob) r)
                             | None \<Rightarrow> gm_get routes n = gm_get [] n"
    using build_routes_loop_ok [OF assms, of "[]"] by (auto simp: build_routes_def)
  have has: "gm_has routes n \<longleftrightarrow> gm_has obs n" and fb: "route_fallback routes n = fallback_of obs n" for n
    using R(3) [of n] by (auto simp: route_fallback_def fallback_of_def route_for_def split: option.splits)
  have "tcp_route_ok n r \<and> udp_route_ok n r" if "(n, r) \<in> set routes" for n r
    using R(3) [of n] that gm_in_set_iff [OF R(2)] by (auto simp: route_for_def split: option.splits)
  then show ?thesis using that [OF R(1,2)] has fb by (auto simp: list_all_iff fun_eq_iff)
qed

lemma compileOutbounds_entries:
  assumes "compileOutbounds raw = Inr obs"
  shows "gm_wf obs" and "\<forall>(n, ob) \<in> set obs. outbound_ok n ob"
proof -
  show wf: "gm_wf obs" using compileOutbounds_ok(1) [OF assms] .
  show "\<forall>(n, ob) \<in> set obs. outbound_ok n ob"
    using gm_in_set_iff [OF wf] compileOutbounds_ok(3) [OF assms] by blast
qed


section \<open>From the decision to the connection\<close>

definition spec_of :: "net_flow \<Rightarrow> string \<Rightarrow> 64 word \<Rightarrow> flow_spec" where
  "spec_of f domain n =
     \<lparr>sp_domain = domain, sp_ipv6 = is6 (DestinationIP f), sp_literal = flow_literal f domain,
      sp_port = DestinationPort f, sp_start = n\<rparr>"

lemma spec_of_sel [simp]:
  "sp_domain (spec_of f d n) = d" "sp_ipv6 (spec_of f d n) = is6 (DestinationIP f)"
  "sp_literal (spec_of f d n) = flow_literal f d" "sp_port (spec_of f d n) = DestinationPort f" "sp_start (spec_of f d n) = n"
  by (simp_all add: spec_of_def)

lemma flow_start_ok: "flow_inv routes (spec_of f d n) (flow_start n) \<and> calm (flow_start n)"
  by (simp add: flow_inv_def calm_def flow_start_def)

text \<open>What a session is built on, and what its matcher and resolvers promise.\<close>

definition session_ok :: "(('r, 'd) route \<Rightarrow> bool) \<Rightarrow> rule list \<Rightarrow> ('r, 'd) routes \<Rightarrow> ('r, 'd) env \<Rightarrow> bool" where
  "session_ok ready rs routes env =
     (routes_ok ready routes \<and> (\<forall>n. chain_within (route_fallback routes) (Suc (length routes)) n) \<and>
      (\<forall>r \<in> set rs. rule_Outbound r \<noteq> []) \<and> resolver_answers env)"

lemma session_decide:
  assumes "session_ok ready rs routes env"
  obtains y st where
    "decide_flow env (engine_cands rs) (engine_mres rs) routes md d (flow_literal f d) (is6 (DestinationIP f)) (flow_start n) =
       Some (Returned y, st)" "engine_matcher.decided rs routes (spec_of f d n) md y st"
  using engine_matcher.decide_flow_ok [of ready routes "spec_of f d n" "flow_start n" env rs md] assms
    flow_start_ok [of routes f d n] unfolding session_ok_def spec_of_sel by blast

lemma decided_start:
  assumes "session_ok ready rs routes env" and "engine_matcher.decided rs routes sp md (Inr (dec, prep)) st"
  shows "start_of (dec_Outbound dec) prep \<noteq> []" "flow_inv routes sp st" "calm st"
    "prep = None \<or> (\<exists>p. prep = Some p \<and> \<not> is_valid (sp_literal sp) \<and> res_Addresses p \<noteq> [] \<and>
       looked_up sp st (res_Outbound p) (res_Addresses p))"
  using assms engine_cands_outbound [of rs md]
  by (auto simp: session_ok_def engine_matcher.decided_def start_of_def split: option.splits)

lemma session_connect_tcp:
  assumes ok: "session_ok has_dialer rs routes env" and dec: "engine_matcher.decided rs routes sp md (Inr (dec, prep)) st"
  obtains y st' where
    "connect_prepared env routes (dec_Outbound dec) (sp_domain sp) (sp_literal sp) (sp_port sp) (sp_ipv6 sp) prep st =
       Some (Returned y, st')" "tcp.connected routes sp y st'"
proof -
  note D = decided_start [OF ok dec]
  have "tcp.prepared_ok sp st prep" using D(4) by (auto simp: tcp.prepared_ok_def)
  then have "\<exists>y st'. connect_prepared env routes (dec_Outbound dec) (sp_domain sp) (sp_literal sp) (sp_port sp)
      (sp_ipv6 sp) prep st = Some (Returned y, st') \<and> tcp.connected routes sp y st'"
    unfolding connect_prepared_def using ok D(1-3) by (intro tcp.connect_loop_ok) (auto simp: session_ok_def)
  then show ?thesis using that by blast
qed

lemma session_connect_udp:
  assumes ok: "session_ok has_packet_dialer rs routes env" and dec: "engine_matcher.decided rs routes sp md (Inr (dec, prep)) st"
  obtains y st' where
    "connect_and_send_prepared env routes (dec_Outbound dec) (sp_domain sp) (sp_literal sp) (sp_port sp) (sp_ipv6 sp) payload prep st =
       Some (Returned y, st')" "udp.connected routes sp y st'"
proof -
  note D = decided_start [OF ok dec]
  have "udp.prepared_ok sp st prep" using D(4) by (auto simp: udp.prepared_ok_def)
  then have "\<exists>y st'. connect_and_send_prepared env routes (dec_Outbound dec) (sp_domain sp) (sp_literal sp) (sp_port sp)
      (sp_ipv6 sp) payload prep st = Some (Returned y, st') \<and> udp.connected routes sp y st'"
    unfolding connect_and_send_prepared_def using ok D(1-3) by (intro udp.connect_loop_ok) (auto simp: session_ok_def)
  then show ?thesis using that by blast
qed

text \<open>The trace a handler leaves behind.\<close>

definition flow_done :: "('r, 'd) routes \<Rightarrow> net_flow \<Rightarrow> goerr + string \<Rightarrow> 64 word \<Rightarrow> 64 word \<Rightarrow> event list \<Rightarrow> bool" where
  "flow_done routes f acquired n n' t =
     (n' = n + word_of_nat (fallbacks t) \<and> open_count t = 0 \<and> fallback_ok routes t \<and>
      (case acquired of
         Inl e \<Rightarrow> t = []
       | Inr d \<Rightarrow> releases t = 1 \<and> isolated d (is6 (DestinationIP f)) (flow_literal f d) (DestinationPort f) t))"

lemma flow_done_failed:
  "flow_inv routes (spec_of f d n) st \<Longrightarrow> open_count (tr st) = 0 \<Longrightarrow>
   flow_done routes f (Inr d) n (fallbackAttempts st) (Released # tr st)"
  by (simp add: flow_inv_def flow_done_def)

lemma flow_done_relayed:
  "flow_inv routes (spec_of f d n) st \<Longrightarrow> open_count (tr st) = 1 \<Longrightarrow>
   flow_done routes f (Inr d) n (fallbackAttempts st) (Released # Closed c # Relayed c # tr st)"
  by (simp add: flow_inv_def flow_done_def)


section \<open>A TCP flow\<close>

text \<open>The counters after a flow: it is counted once, as completed or as failed, and is no longer active.\<close>

definition tcp_counted :: "goerr option \<Rightarrow> session_counters \<Rightarrow> session_counters \<Rightarrow> bool" where
  "tcp_counted err m m' =
     (totalFlows m' = totalFlows m + 1 \<and> activeFlows m' = activeFlows m \<and>
      (case err of
         None \<Rightarrow> completedFlows m' = completedFlows m + 1 \<and> failedFlows m' = failedFlows m \<and> rejectedFlows m' = rejectedFlows m
       | Some e \<Rightarrow> completedFlows m' = completedFlows m \<and> failedFlows m' = failedFlows m + 1 \<and>
           (rejectedFlows m' = rejectedFlows m \<or> rejectedFlows m' = rejectedFlows m + 1 \<and> errors_is ErrRejected e)))"

lemmas tcp_counter_defs = tcp_counted_def tcp_enter_def tcp_leave_def tcp_failed_def

lemma tcp_handle_ok:
  assumes ok: "session_ok has_dialer rs routes env"
  shows "\<exists>err m' t. tcp_handle env (engine_cands rs) (engine_mres rs) relay routes acquired f m = Some (Returned err, m', t) \<and>
           tcp_counted err m m' \<and> flow_done routes f acquired (fallbackCount m) (fallbackCount m') t"
proof (cases acquired)
  case (Inl e)
  then show ?thesis by (auto simp: tcp_handle_def tcp_counter_defs flow_done_def)
next
  case (Inr d)
  let ?sp = "spec_of f d (fallbackCount m)" and ?md = "flow_md f d"
  have n: "fallbackCount (tcp_enter m) = fallbackCount m" by (simp add: tcp_enter_def)
  obtain y st where dec: "decide_flow env (engine_cands rs) (engine_mres rs) routes ?md d (flow_literal f d)
      (is6 (DestinationIP f)) (flow_start (fallbackCount m)) = Some (Returned y, st)"
    and y: "engine_matcher.decided rs routes ?sp ?md y st" using session_decide [OF ok] .
  show ?thesis
  proof (cases y)
    case (Inl e)
    then have "flow_done routes f (Inr d) (fallbackCount m) (fallbackAttempts st) (Released # tr st)"
      using y by (intro flow_done_failed) (auto simp: engine_matcher.decided_def)
    then show ?thesis using Inl \<open>acquired = Inr d\<close> dec n
      by (auto simp: tcp_handle_def Let_def tcp_counter_defs)
  next
    case (Inr dp)
    obtain dc prep where dp: "dp = (dc, prep)" by (cases dp)
    then have dec': "engine_matcher.decided rs routes ?sp ?md (Inr (dc, prep)) st" using y Inr by simp
    obtain z st1 where con: "connect_prepared env routes (dec_Outbound dc) d (flow_literal f d) (DestinationPort f)
        (is6 (DestinationIP f)) prep st = Some (Returned z, st1)" and z: "tcp.connected routes ?sp z st1"
      using session_connect_tcp [OF ok dec'] by auto
    note H = \<open>acquired = Inr d\<close> dec n Inr dp con
    show ?thesis
    proof (cases z)
      case (Inl eo)
      then obtain e where e: "eo = Some e" using z by (cases eo) (auto simp: tcp.connected_def)
      then have "flow_done routes f (Inr d) (fallbackCount m) (fallbackAttempts st1) (Released # tr st1)"
        using z Inl by (intro flow_done_failed) (auto simp: tcp.connected_def)
      then show ?thesis using H Inl e by (auto simp: tcp_handle_def Let_def tcp_counter_defs)
    next
      case (Inr co)
      obtain c ob where c: "co = (c, ob)" by (cases co)
      then have "flow_done routes f (Inr d) (fallbackCount m) (fallbackAttempts st1) (Released # Closed c # Relayed c # tr st1)"
        using z Inr by (intro flow_done_relayed) (auto simp: tcp.connected_def)
      then show ?thesis using H Inr c
        by (cases "relay (tr st1) c") (auto simp: tcp_handle_def Let_def tcp_counter_defs)
    qed
  qed
qed


section \<open>A UDP session\<close>

definition udp_counted :: "udp_counters \<Rightarrow> udp_counters \<Rightarrow> bool" where
  "udp_counted m m' =
     (totalSessions m' = totalSessions m \<and> activeSessions m' = activeSessions m \<and>
      (expiredSessions m', failedSessions m') \<in>
        {(expiredSessions m, failedSessions m), (expiredSessions m + 1, failedSessions m), (expiredSessions m, failedSessions m + 1)})"

lemmas udp_counter_defs = udp_counted_def udp_failed_def udp_expired_def

lemma udp_body_ok:
  assumes ok: "session_ok has_packet_dialer rs routes env"
  shows "\<exists>err m' t. udp_body env (engine_cands rs) (engine_mres rs) deadline first relay routes acquired f m =
             Some (Returned err, m', t) \<and>
           udp_counted m m' \<and> flow_done routes f acquired (udpFallbacks m) (udpFallbacks m') t"
proof (cases acquired)
  case (Inl e)
  then show ?thesis by (auto simp: udp_body_def udp_counter_defs flow_done_def)
next
  case (Inr d)
  let ?sp = "spec_of f d (udpFallbacks m)" and ?md = "flow_md f d"
  obtain y st where dec: "decide_flow env (engine_cands rs) (engine_mres rs) routes ?md d (flow_literal f d)
      (is6 (DestinationIP f)) (flow_start (udpFallbacks m)) = Some (Returned y, st)"
    and y: "engine_matcher.decided rs routes ?sp ?md y st" using session_decide [OF ok] .
  have done0: "flow_done routes f (Inr d) (udpFallbacks m) (fallbackAttempts st) (Released # tr st)"
    using y by (intro flow_done_failed) (auto simp: engine_matcher.decided_def)
  show ?thesis
  proof (cases "\<exists>dc prep payload. y = Inr (dc, prep) \<and> deadline = None \<and> first = Inr payload")
    case False
    then show ?thesis using \<open>acquired = Inr d\<close> dec done0
      by (cases y; cases deadline; cases first) (auto simp: udp_body_def Let_def udp_counter_defs)
  next
    case True
    then obtain dc prep payload where yp: "y = Inr (dc, prep)" "deadline = None" "first = Inr payload" by blast
    then have dec': "engine_matcher.decided rs routes ?sp ?md (Inr (dc, prep)) st" using y by simp
    obtain z st1 where con: "connect_and_send_prepared env routes (dec_Outbound dc) d (flow_literal f d) (DestinationPort f)
        (is6 (DestinationIP f)) payload prep st = Some (Returned z, st1)" and z: "udp.connected routes ?sp z st1"
      using session_connect_udp [OF ok dec', of payload] by auto
    note H = \<open>acquired = Inr d\<close> dec yp con
    show ?thesis
    proof (cases z)
      case (Inl eo)
      then obtain e where e: "eo = Some e" using z by (cases eo) (auto simp: udp.connected_def)
      then have "flow_done routes f (Inr d) (udpFallbacks m) (fallbackAttempts st1) (Released # tr st1)"
        using z Inl by (intro flow_done_failed) (auto simp: udp.connected_def)
      then show ?thesis using H Inl e by (auto simp: udp_body_def Let_def udp_counter_defs)
    next
      case (Inr co)
      obtain c ob where c: "co = (c, ob)" by (cases co)
      obtain res up down where rl: "relay (tr st1) c = (res, up, down)" by (cases "relay (tr st1) c")
      have "flow_done routes f (Inr d) (udpFallbacks m) (fallbackAttempts st1) (Released # Closed c # Relayed c # tr st1)"
        using z Inr c by (intro flow_done_relayed) (auto simp: udp.connected_def)
      then show ?thesis using H Inr c rl
        by (cases res) (auto simp: udp_body_def Let_def udp_counter_defs)
    qed
  qed
qed


section \<open>The UDP session registry\<close>

definition source_sessions :: "udp_limiter \<Rightarrow> addr \<Rightarrow> udp_key set" where
  "source_sessions l a = {k. gm_has (lim_sessions l) k \<and> SourceIP k = a}"

definition limiter_inv :: "udp_limiter \<Rightarrow> bool" where
  "limiter_inv l =
     (gm_wf (lim_sessions l) \<and> gm_wf (lim_perSource l) \<and> int (length (lim_sessions l)) \<le> lim_maxSessions l \<and>
      (\<forall>a. per_source l a = int (card (source_sessions l a))) \<and>
      (\<forall>a. int (card (source_sessions l a)) \<le> lim_maxPerSource l) \<and>
      (\<forall>a. gm_get (lim_perSource l) a \<noteq> Some 0))"

inductive limiter_reachable :: "udp_limiter \<Rightarrow> udp_limiter \<Rightarrow> bool" for l0 where
  fresh: "limiter_reachable l0 l0"
| registered: "limiter_reachable l0 l \<Longrightarrow> limiter_reachable l0 (snd (register k l))"
| unregistered: "limiter_reachable l0 l \<Longrightarrow> limiter_reachable l0 (unregister k l)"

lemma finite_sources: "finite (source_sessions l a)"
  by (rule finite_subset [of _ "dom (gm_get (lim_sessions l))"]) (auto simp: source_sessions_def gm_dom)

lemma register_inv:
  assumes "limiter_inv l"
  shows "limiter_inv (snd (register k l))"
proof (cases "register k l")
  case (Pair e l')
  show ?thesis
  proof (cases e)
    case (Some x)
    then show ?thesis using Pair assms by (auto simp: register_def split: if_splits)
  next
    case None
    let ?src = "SourceIP k"
    have "\<not> gm_has (lim_sessions l) k" and room: "int (length (lim_sessions l)) < lim_maxSessions l"
      "per_source l ?src < lim_maxPerSource l"
      and l': "l' = l\<lparr>lim_sessions := gm_put (lim_sessions l) k (),
                    lim_perSource := gm_put (lim_perSource l) ?src (per_source l ?src + 1)\<rparr>"
      using Pair None by (auto simp: register_def split: if_splits)
    then have new: "gm_get (lim_sessions l) k = None" by (cases "gm_get (lim_sessions l) k") auto
    have src: "source_sessions l' a = (if a = ?src then insert k (source_sessions l a) else source_sessions l a)" for a
      by (auto simp: l' source_sessions_def split: if_splits)
    have "k \<notin> source_sessions l ?src" using new by (simp add: source_sessions_def)
    then have card: "card (insert k (source_sessions l ?src)) = Suc (card (source_sessions l ?src))"
      using finite_sources by simp
    have per: "per_source l' a = (if a = ?src then per_source l a + 1 else per_source l a)" for a
      by (simp add: l' per_source_def)
    have "0 \<le> per_source l ?src" using assms by (simp add: limiter_inv_def)
    then show ?thesis
      using assms room new per src card Pair unfolding limiter_inv_def
      by (auto simp: l' gm.len_put split: if_splits)
  qed
qed

lemma unregister_inv:
  assumes "limiter_inv l"
  shows "limiter_inv (unregister k l)"
proof (cases "gm_has (lim_sessions l) k")
  case False
  then show ?thesis using assms by (simp add: unregister_def)
next
  case True
  let ?src = "SourceIP k" and ?l = "unregister k l"
  have wf: "gm_wf (lim_sessions l)" "gm_wf (lim_perSource l)" using assms by (auto simp: limiter_inv_def)
  have src: "source_sessions ?l a = (if a = ?src then source_sessions l a - {k} else source_sessions l a)" for a
    using True wf by (auto simp: unregister_def Let_def source_sessions_def split: if_splits)
  have "k \<in> source_sessions l ?src" using True by (simp add: source_sessions_def)
  then have card: "int (card (source_sessions l ?src - {k})) = int (card (source_sessions l ?src)) - 1"
    using card_Suc_Diff1 [OF finite_sources, of k l ?src] by simp
  have per: "per_source ?l a = (if a = ?src then per_source l a - 1 else per_source l a)" for a
    using True wf by (auto simp: unregister_def Let_def per_source_def)
  have "gm_get (lim_perSource ?l) a \<noteq> Some 0" for a
    using True wf assms by (auto simp: unregister_def Let_def limiter_inv_def split: if_splits)
  moreover have "int (length (lim_sessions ?l)) \<le> lim_maxSessions ?l" "gm_wf (lim_sessions ?l)" "gm_wf (lim_perSource ?l)"
    using True wf assms gm.len_del_le [OF wf(1), of k]
    by (auto simp: unregister_def Let_def limiter_inv_def)
  moreover have "per_source ?l a = int (card (source_sessions ?l a)) \<and>
      int (card (source_sessions ?l a)) \<le> lim_maxPerSource ?l" for a
  proof -
    have "per_source l a = int (card (source_sessions l a))" "int (card (source_sessions l a)) \<le> lim_maxPerSource l"
      using assms unfolding limiter_inv_def by blast+
    moreover have "lim_maxPerSource ?l = lim_maxPerSource l" by (simp add: unregister_def Let_def)
    ultimately show ?thesis using per [of a] src [of a] card by auto
  qed
  ultimately show ?thesis by (simp add: limiter_inv_def)
qed

lemma new_limiter_inv: "new_udp_limiter s p = Inr l \<Longrightarrow> limiter_inv l"
  by (auto simp: new_udp_limiter_def limiter_inv_def per_source_def source_sessions_def split: if_splits)

lemma limiter_reachable_inv:
  assumes "limiter_reachable l0 l" and "limiter_inv l0"
  shows "limiter_inv l"
  using assms by (induction rule: limiter_reachable.induct) (auto intro: register_inv unregister_inv)


section \<open>Fuel\<close>

text \<open>The fuel of both loops is never what ends them.\<close>

lemma resolve_loop_fuel:
  assumes "chain_within (route_fallback routes) n current" and "n \<le> m"
  shows "resolve_loop env routes d v m current fs st = resolve_loop env routes d v n current fs st \<and>
         resolve_loop env routes d v n current fs st \<noteq> None"
  using assms
proof (induction n arbitrary: m current fs st)
  case 0
  then show ?case by simp
next
  case (Suc n)
  then obtain k where m: "m = Suc k" "n \<le> k" by (cases m) auto
  show ?case
  proof (cases "gm_get routes current")
    case None
    then show ?thesis by (simp add: m)
  next
    case (Some r)
    have "r_Fallback r \<noteq> [] \<Longrightarrow> chain_within (route_fallback routes) n (r_Fallback r)"
      using chain_step [OF Suc.prems(1) Some] .
    note IH = Suc.IH [OF this m(2)]
    show ?thesis using Some IH by (simp add: m(1) Let_def split: prod.splits call_result.splits sum.splits list.splits)
  qed
qed

lemma connect_loop_fuel:
  assumes "chain_within (route_fallback routes) n current" and "n \<le> m"
  shows "connect_loop att env routes d lit port v m current prep fs st = connect_loop att env routes d lit port v n current prep fs st \<and>
         connect_loop att env routes d lit port v n current prep fs st \<noteq> None"
  using assms
proof (induction n arbitrary: m current prep fs st)
  case 0
  then show ?case by simp
next
  case (Suc n)
  then obtain k where m: "m = Suc k" "n \<le> k" by (cases m) auto
  show ?case
  proof (cases "gm_get routes current")
    case None
    then show ?thesis by (simp add: m)
  next
    case (Some r)
    have "r_Fallback r \<noteq> [] \<Longrightarrow> chain_within (route_fallback routes) n (r_Fallback r)"
      using chain_step [OF Suc.prems(1) Some] .
    note IH = Suc.IH [OF this m(2)]
    show ?thesis using Some IH by (simp add: m(1) Let_def split: prod.splits call_result.splits sum.splits tried.splits)
  qed
qed


section \<open>Properties\<close>

text \<open>A session for the sample policy: two direct routes, the first with a fallback to a rejecting one.\<close>

definition sample_routes :: "(unit, unit) routes" where
  "sample_routes =
     [(''lan'', \<lparr>r_Name = ''lan'', r_Reject = False, r_Resolver = Some (), r_Dialer = Some (), r_PacketDialer = Some (),
                r_Fallback = ''block''\<rparr>),
      (''wan'', \<lparr>r_Name = ''wan'', r_Reject = False, r_Resolver = Some (), r_Dialer = Some (), r_PacketDialer = Some (),
                r_Fallback = ''lan''\<rparr>),
      (''block'', \<lparr>r_Name = ''block'', r_Reject = True, r_Resolver = None, r_Dialer = None, r_PacketDialer = None,
                r_Fallback = []\<rparr>)]"

text \<open>Resolvers answer one address; the first dial of a flow times out, the next succeeds.\<close>

definition sample_env :: "(unit, unit) env" where
  "sample_env =
     \<lparr>env_lookup = (\<lambda>t r v d. Inr [V4 3405803777]),
      env_dial = (\<lambda>t d network dst. if length t < 2 then Inl (Errno 60) else Inr 7),
      env_packet = (\<lambda>t d dst. Inr 7), env_write = (\<lambda>t c p. (length p, None))\<rparr>"

definition sample_net_flow :: net_flow where
  "sample_net_flow = \<lparr>SourceIP = V4 167772162, SourcePort = 5000, DestinationIP = V4 3323068417, DestinationPort = 443\<rparr>"

definition zero_counters :: session_counters where
  "zero_counters = \<lparr>totalFlows = 0, activeFlows = 0, completedFlows = 0, failedFlows = 0, fallbackCount = 0, rejectedFlows = 0\<rparr>"

definition zero_udp :: udp_counters where
  "zero_udp = \<lparr>totalSessions = 0, activeSessions = 0, expiredSessions = 0, failedSessions = 0, rejectedSessions = 0,
     udpFallbacks = 0, datagramsToNetwork = 0, datagramsToClient = 0\<rparr>"

definition sample_limiter :: udp_limiter where
  "sample_limiter = \<lparr>lim_maxSessions = 2, lim_maxPerSource = 1, lim_sessions = [], lim_perSource = []\<rparr>"

definition sample_udp_config :: udp_config where
  "sample_udp_config = \<lparr>uc_IdleTimeout = 1, uc_MaxSessions = 2, uc_MaxPerSource = 1\<rparr>"

lemma sample_route_checks:
  "route_validateFallbacks sample_routes = Inr ()" "new_tcp True True sample_routes 1 = Inr sample_routes"
  "new_udp True True sample_routes sample_udp_config (Some sample_limiter) = Inr sample_routes"
  by code_simp+

lemma sample_answers: "resolver_answers sample_env"
  by (simp add: resolver_answers_def sample_env_def)

lemma sample_rule_outbounds: "\<forall>r \<in> set sample_rules. rule_Outbound r \<noteq> []"
  by (simp add: sample_rules_def)

lemma tcp_session_ok:
  assumes "new_tcp True True routes t = Inr routes" and "\<forall>r \<in> set rs. rule_Outbound r \<noteq> []" and "resolver_answers env"
  shows "session_ok has_dialer rs routes env"
  using new_tcp_ok [OF assms(1)] assms(2,3) by (simp add: session_ok_def)

lemma udp_session_ok:
  assumes "new_udp True True routes c l = Inr routes" and "\<forall>r \<in> set rs. rule_Outbound r \<noteq> []" and "resolver_answers env"
  shows "session_ok has_packet_dialer rs routes env"
  using new_udp_ok [OF assms(1)] assms(2,3) by (simp add: session_ok_def)

text \<open>
  C7: A TCP flow is always brought to an end and accounted for: on routes \<open>NewTCP\<close> accepted, the
  handler returns without a panic and without running into a loop; the flow is counted once in total
  and once as completed or failed, as rejected only if a policy rejection caused the failure, and is
  no longer active; every connection it opened is closed, and the Fake IP mapping it acquired is
  released exactly once.
\<close>

theorem tcp_flow_accounted:
  assumes "new_tcp True True routes t = Inr routes" and "new_engine rs = Inr eng"
    and "\<forall>r \<in> set rs. rule_Outbound r \<noteq> []" and "resolver_answers env"
  shows "\<exists>err m' trace. tcp_handle env (rule_cands eng) (rule_mres eng) relay routes acquired f m = Some (Returned err, m', trace) \<and>
    totalFlows m' = totalFlows m + 1 \<and> activeFlows m' = activeFlows m \<and>
    completedFlows m' = completedFlows m + (if err = None then 1 else 0) \<and>
    failedFlows m' = failedFlows m + (if err = None then 0 else 1) \<and>
    (rejectedFlows m' = rejectedFlows m \<or> rejectedFlows m' = rejectedFlows m + 1 \<and> (\<exists>e. err = Some e \<and> errors_is ErrRejected e)) \<and>
    open_count trace = 0 \<and> releases trace = (if is_ok acquired then 1 else 0)"
proof -
  obtain err m' trace where H: "tcp_handle env (engine_cands rs) (engine_mres rs) relay routes acquired f m = Some (Returned err, m', trace)"
    "tcp_counted err m m'" "flow_done routes f acquired (fallbackCount m) (fallbackCount m') trace"
    using tcp_handle_ok [OF tcp_session_ok [OF assms(1,3,4)]] by blast
  then show ?thesis
    by (intro exI [of _ err] exI [of _ m'] exI [of _ trace])
      (auto simp: rule_engine_fns [OF assms(2)] tcp_counted_def flow_done_def is_ok_def split: option.splits sum.splits)
qed

theorem tcp_flow_accounted_witness:
  "\<exists>err m' trace. tcp_handle sample_env (rule_cands sample_engine) (rule_mres sample_engine) (\<lambda>t c. None) sample_routes
       (Inr ''a.example.com'') sample_net_flow zero_counters = Some (Returned err, m', trace) \<and>
    totalFlows m' = totalFlows zero_counters + 1 \<and> open_count trace = 0"
  using tcp_flow_accounted [OF sample_route_checks(2) sample_engine sample_rule_outbounds sample_answers,
      of "\<lambda>t c. None" "Inr ''a.example.com''" sample_net_flow zero_counters] by auto

text \<open>
  C6: DNS answers never cross outbounds: a TCP flow dials only addresses that the resolver of the same
  outbound returned before, in that flow, for the flow's own domain and address family, and always at
  the flow's port; a flow to a literal address dials that address and resolves nothing.
\<close>

theorem tcp_flow_isolated:
  assumes "new_tcp True True routes t = Inr routes" and "new_engine rs = Inr eng"
    and "\<forall>r \<in> set rs. rule_Outbound r \<noteq> []" and "resolver_answers env"
  shows "\<exists>err m' trace. tcp_handle env (rule_cands eng) (rule_mres eng) relay routes (Inr domain) f m = Some (Returned err, m', trace) \<and>
    isolated domain (is6 (DestinationIP f)) (flow_literal f domain) (DestinationPort f) trace"
  using tcp_handle_ok [OF tcp_session_ok [OF assms(1,3,4)], of relay "Inr domain" f m]
  by (auto simp: rule_engine_fns [OF assms(2)] flow_done_def)

theorem tcp_flow_isolated_witness:
  "\<exists>err m' trace. tcp_handle sample_env (rule_cands sample_engine) (rule_mres sample_engine) (\<lambda>t c. None) sample_routes
       (Inr ''a.example.com'') sample_net_flow zero_counters = Some (Returned err, m', trace) \<and>
    isolated ''a.example.com'' (is6 (DestinationIP sample_net_flow)) (flow_literal sample_net_flow ''a.example.com'')
      (DestinationPort sample_net_flow) trace"
  by (rule tcp_flow_isolated [OF sample_route_checks(2) sample_engine sample_rule_outbounds sample_answers])

text \<open>
  C15: A TCP flow moves to another outbound only along the configured fallback, only while none of its
  connections is open, and only if everything that failed before was an environment failure and no
  DNS answer was a business error; each such move is counted once in the fallback counter.
\<close>

theorem tcp_fallback_justified:
  assumes "new_tcp True True routes t = Inr routes" and "new_engine rs = Inr eng"
    and "\<forall>r \<in> set rs. rule_Outbound r \<noteq> []" and "resolver_answers env"
  shows "\<exists>err m' trace. tcp_handle env (rule_cands eng) (rule_mres eng) relay routes acquired f m = Some (Returned err, m', trace) \<and>
    fallback_ok routes trace \<and> fallbackCount m' = fallbackCount m + word_of_nat (fallbacks trace)"
  using tcp_handle_ok [OF tcp_session_ok [OF assms(1,3,4)], of relay acquired f m]
  by (auto simp: rule_engine_fns [OF assms(2)] flow_done_def)

theorem tcp_fallback_justified_witness:
  "\<exists>err m' trace. tcp_handle sample_env (rule_cands sample_engine) (rule_mres sample_engine) (\<lambda>t c. None) sample_routes
       (Inr ''a.example.com'') sample_net_flow zero_counters = Some (Returned err, m', trace) \<and>
    fallback_ok sample_routes trace \<and> fallbackCount m' = fallbackCount zero_counters + word_of_nat (fallbacks trace)"
  by (rule tcp_fallback_justified [OF sample_route_checks(2) sample_engine sample_rule_outbounds sample_answers])

text \<open>
  C21: A UDP session ends, is unregistered and accounted for: an admitted session is counted once in
  total, at most once as expired or failed, and is no longer active or registered when the handler
  returns, whatever the other sessions did to the registry meanwhile; its sockets are closed, its
  mapping released once, its DNS answers isolated and its fallbacks justified like those of a TCP
  flow.  A session that is not admitted changes nothing but the rejection counter and has no traffic.
\<close>

theorem udp_session_sound:
  assumes "new_udp True True routes c lim = Inr routes" and "new_engine rs = Inr eng"
    and "\<forall>r \<in> set rs. rule_Outbound r \<noteq> []" and "resolver_answers env"
  shows "\<exists>err m' l' trace. udp_handle env (rule_cands eng) (rule_mres eng) deadline first relay others routes acquired f m l =
      Some (Returned err, m', l', trace) \<and>
    (if fst (register f l) = None then
       totalSessions m' = totalSessions m + 1 \<and> activeSessions m' = activeSessions m \<and> \<not> gm_has (lim_sessions l') f \<and>
       (expiredSessions m', failedSessions m') \<in>
         {(expiredSessions m, failedSessions m), (expiredSessions m + 1, failedSessions m), (expiredSessions m, failedSessions m + 1)} \<and>
       flow_done routes f acquired (udpFallbacks m) (udpFallbacks m') trace
     else m' = m\<lparr>rejectedSessions := rejectedSessions m + 1\<rparr> \<and> l' = l \<and> trace = [])"
proof (cases "register f l")
  case (Pair e l1)
  show ?thesis
  proof (cases e)
    case (Some x)
    then show ?thesis using Pair by (auto simp: udp_handle_def register_def split: if_splits)
  next
    case None
    let ?m = "m\<lparr>totalSessions := totalSessions m + 1, activeSessions := activeSessions m + 1\<rparr>"
    obtain err m1 trace where B: "udp_body env (engine_cands rs) (engine_mres rs) deadline first relay routes acquired f ?m =
        Some (Returned err, m1, trace)" "udp_counted ?m m1" "flow_done routes f acquired (udpFallbacks ?m) (udpFallbacks m1) trace"
      using udp_body_ok [OF udp_session_ok [OF assms(1,3,4)]] by blast
    have "\<not> gm_has (lim_sessions (unregister f (others l1))) f"
      by (simp add: unregister_def Let_def)
    then show ?thesis using Pair None B
      by (auto simp: udp_handle_def rule_engine_fns [OF assms(2)] udp_counted_def)
  qed
qed

theorem udp_session_sound_witness:
  "\<exists>err m' l' trace. udp_handle sample_env (rule_cands sample_engine) (rule_mres sample_engine) None (Inr ''hello'')
       (\<lambda>t c. (Some ErrUDPIdleTimeout, 1, 2)) (\<lambda>l. l) sample_routes (Inr ''a.example.com'') sample_net_flow zero_udp sample_limiter =
     Some (Returned err, m', l', trace) \<and> totalSessions m' = 1 \<and> \<not> gm_has (lim_sessions l') sample_net_flow"
proof -
  have "fst (register sample_net_flow sample_limiter) = None"
    by (simp add: register_def sample_limiter_def per_source_def)
  then show ?thesis
    using udp_session_sound [OF sample_route_checks(3) sample_engine sample_rule_outbounds sample_answers,
        of None "Inr ''hello''" "\<lambda>t c. (Some ErrUDPIdleTimeout, 1, 2)" "\<lambda>l. l" "Inr ''a.example.com''"
           sample_net_flow zero_udp sample_limiter] by (auto simp: zero_udp_def)
qed

text \<open>
  In every state the UDP registry can reach, by any interleaving of registrations and
  unregistrations of any policy generations that share it, the per-source counts are exact, both
  limits hold and no zero counts accumulate; and a registration succeeds exactly when the key is new
  and neither limit is reached.
\<close>

lemma udp_limiter_exact:
  assumes "new_udp_limiter maxSessions maxPerSource = Inr l0" and "limiter_reachable l0 l"
  shows "limiter_inv l \<and>
    (fst (register k l) = None \<longleftrightarrow>
       \<not> gm_has (lim_sessions l) k \<and> int (length (lim_sessions l)) < lim_maxSessions l \<and>
       int (card (source_sessions l (SourceIP k))) < lim_maxPerSource l)"
proof -
  have inv: "limiter_inv l" using limiter_reachable_inv [OF assms(2) new_limiter_inv [OF assms(1)]] .
  then have "per_source l (SourceIP k) = int (card (source_sessions l (SourceIP k)))" unfolding limiter_inv_def by blast
  then show ?thesis using inv by (auto simp: register_def)
qed

text \<open>
  C27: Following fallbacks terminates: on routes a session accepted, the resolve loop and the connect
  loop return from any starting outbound within one round per route and one more, whatever resolvers
  and dialers answer, and allowing more rounds changes nothing.
\<close>

theorem session_loops_terminate:
  assumes "new_tcp True True routes t = Inr routes" and "Suc (length routes) \<le> fuel"
  shows "resolve_for_decision env routes start d v st \<noteq> None \<and>
    resolve_loop env routes d v fuel start [] st = resolve_for_decision env routes start d v st \<and>
    connect_prepared env routes start d lit port v prep st \<noteq> None \<and>
    connect_loop (tcp_attempt env v) env routes d lit port v fuel (start_of start prep) prep [] st =
      connect_prepared env routes start d lit port v prep st"
  using resolve_loop_fuel [OF _ assms(2)] connect_loop_fuel [OF _ assms(2)] new_tcp_ok [OF assms(1)]
  unfolding resolve_for_decision_def connect_prepared_def by blast

theorem session_loops_terminate_witness:
  "resolve_for_decision sample_env sample_routes ''wan'' ''a.example.com'' False (flow_start 0) \<noteq> None \<and>
   connect_prepared sample_env sample_routes ''wan'' ''a.example.com'' NoAddr 443 False None (flow_start 0) \<noteq> None"
  using session_loops_terminate [OF sample_route_checks(2), of 5] by (simp add: sample_routes_def)

text \<open>
  A flow all of whose candidate rules reject is rejected without any traffic: nothing is resolved
  and nothing dialed, the mapping is released, and the flow is counted as failed and rejected.
\<close>

lemma reject_only_silent:
  assumes "new_engine rs = Inr eng" and "domain \<noteq> []" and "rule_cands eng (flow_md f domain) = Inr cs"
    and "\<forall>c \<in> set cs. \<exists>r. gm_get routes (dec_Outbound c) = Some r \<and> r_Reject r" and "gm_get routes [] = None"
  shows "\<exists>e m'. tcp_handle env (rule_cands eng) (rule_mres eng) relay routes (Inr domain) f m =
      Some (Returned (Some e), m', [Released]) \<and>
    failedFlows m' = failedFlows m + 1 \<and> rejectedFlows m' = rejectedFlows m + 1 \<and> fallbackCount m' = fallbackCount m"
proof -
  have ne: "cs \<noteq> []"
    using assms(3) engine_matcher.cands_ne [of rs "flow_md f domain"] by (auto simp: rule_engine_fns [OF assms(1)])
  then obtain r where r: "gm_get routes (dec_Outbound (last cs)) = Some r" "r_Reject r" using assms(4) last_in_set by blast
  have "first_direct routes ds = Inr None" if "set ds \<subseteq> set cs" for ds
    using that assms(4) by (induction ds) fastforce+
  then have "resolution_candidate routes cs = Inr None"
    using r by (simp add: resolution_candidate_def subset_iff in_set_butlastD)
  moreover have "dec_Outbound (last cs) \<noteq> []" using r assms(5) by auto
  ultimately show ?thesis using ne r assms(2,3)
    by (simp add: tcp_handle_def decide_flow_def flow_literal_def connect_prepared_def start_of_def Let_def
        tcp_counter_defs flow_start_def)
qed

text \<open>
  C26: Every configuration \<open>compile\<close> accepts can be put to work: routes with a resolver and dialers are
  built for all its outbounds, the rule engine accepts its rules and every rule names a route, and the
  TCP and the UDP session accept these routes and the configured limits.  No check of the later
  stages can fail on a configuration that passed the first one.
\<close>

theorem compiled_sessions_start:
  assumes "config_compile raw = Inr cfg" and "0 < relayTimeout"
  shows "\<exists>routes eng l. build_routes (cfg_Outbounds cfg) = Inr routes \<and> new_engine (cfg_Rules cfg) = Inr eng \<and>
    (\<forall>r \<in> set (cfg_Rules cfg). gm_has routes (rule_Outbound r) \<and> rule_Outbound r \<noteq> []) \<and>
    new_tcp True True routes relayTimeout = Inr routes \<and>
    new_udp_limiter (MaxUDPSessions (cfg_Sessions cfg)) (MaxUDPSessionsPerSource (cfg_Sessions cfg)) = Inr l \<and>
    new_udp True True routes \<lparr>uc_IdleTimeout = UDPIdleTimeout (cfg_Sessions cfg), uc_MaxSessions = MaxUDPSessions (cfg_Sessions cfg),
                              uc_MaxPerSource = MaxUDPSessionsPerSource (cfg_Sessions cfg)\<rparr> (Some l) = Inr routes"
proof -
  note D = config_compileD [OF assms(1)] and S = compileSessions_bounds [OF config_compileD(5) [OF assms(1)]]
  note E = compileOutbounds_entries [OF D(6)]
  obtain routes where R: "build_routes (cfg_Outbounds cfg) = Inr routes" "gm_wf routes"
    "\<And>n. gm_has routes n \<longleftrightarrow> gm_has (cfg_Outbounds cfg) n" "route_fallback routes = fallback_of (cfg_Outbounds cfg)"
    "list_all (\<lambda>(n, r). tcp_route_ok n r) routes" "list_all (\<lambda>(n, r). udp_route_ok n r) routes"
    using build_routes_ok [OF E] by blast
  have fbs: "route_validateFallbacks routes = Inr ()"
    using D(8) unfolding validateFallbacks_iff [OF E(1)] route_validateFallbacks_iff R(3,4) by blast
  have "routes \<noteq> []" using D(7) R(3) [of "DefaultOutbound (cfg_DNS cfg)"] by auto
  moreover have "\<exists>eng. new_engine (cfg_Rules cfg) = Inr eng"
    using compileRules_ok [OF D(9)] by (simp add: new_engine_Inr_iff)
  moreover have "gm_has routes (rule_Outbound r) \<and> rule_Outbound r \<noteq> []" if "r \<in> set (cfg_Rules cfg)" for r
    using compileRules_ok [OF D(9)] that R(3) compileOutbounds_ok(3) [OF D(6)]
    by (fastforce simp: rule_ok_def outbound_ok_def)
  ultimately show ?thesis
    using R fbs S assms(2) by (auto simp: new_tcp_def new_udp_def new_udp_limiter_def)
qed

theorem compiled_sessions_start_witness:
  "\<exists>routes. build_routes (cfg_Outbounds sample_config) = Inr routes \<and> new_tcp True True routes 5000000000 = Inr routes"
  using compiled_sessions_start [OF sample_compile, of 5000000000] by auto

end
