(* ===== verification/Fakedns.thy ===== *)
theory Fakedns
  imports Fakeip_Alloc Resolver
begin

text \<open>
  \<open>internal/fakedns/server.go\<close>: the local DNS server.  Every query gets one response, from the Fake IP
  pools or from the explicit upstream; the policy can be replaced while queries run, and a query
  keeps the policy it started with.

  The DNS library is not part of the repository: a response is described by the library calls that
  build it, and the upstream is an argument of the policy.
\<close>

section \<open>The server\<close>

record dns_question =
  q_Name :: string
  q_Type :: nat

definition type_A :: nat where "type_A = 1"
definition type_AAAA :: nat where "type_AAAA = 28"

definition RcodeFormatError :: nat where "RcodeFormatError = 1"
definition RcodeServerFailure :: nat where "RcodeServerFailure = 2"
definition RcodeNameError :: nat where "RcodeNameError = 3"

text \<open>
  What is written to the client: \<open>SetRcode\<close> on a new message, \<open>SetReply\<close> with the authoritative bit and
  answers, or the upstream's message under the id of the request.
\<close>

datatype dns_response =
    Rcode nat
  | Authoritative "dns_rr list"
  | Forwarded dns_msg

record runtime_config =
  rt_ttl :: duration
  rt_queryTimeout :: duration
  rt_exclude :: "pattern list"
  rt_shouldFake :: "(string \<Rightarrow> bool) option"
  rt_upstream :: "dns_question list \<Rightarrow> goerr + dns_msg option"

record dns_stats =
  sv_queries :: "64 word"
  sv_fakeAnswers :: "64 word"
  sv_fakeIPv4Answers :: "64 word"
  sv_fakeIPv6Answers :: "64 word"
  sv_nodataAnswers :: "64 word"
  sv_forwarded :: "64 word"
  sv_failures :: "64 word"
  sv_capacityRejects :: "64 word"

record dns_config =
  dc_Listen :: addrport
  dc_UDP :: bool
  dc_TCP :: bool
  dc_TTL :: duration
  dc_QueryTimeout :: duration
  dc_MaxConcurrent :: int
  dc_ShouldFake :: "(string \<Rightarrow> bool) option"

record dns_server =
  ds_config :: dns_config
  ds_ipv4Pool :: pool
  ds_ipv6Pool :: "pool option"
  ds_runtime :: runtime_config
  ds_semaphore :: nat
  ds_stats :: dns_stats

definition no_stats :: dns_stats where
  "no_stats = \<lparr>sv_queries = 0, sv_fakeAnswers = 0, sv_fakeIPv4Answers = 0, sv_fakeIPv6Answers = 0, sv_nodataAnswers = 0,
     sv_forwarded = 0, sv_failures = 0, sv_capacityRejects = 0\<rparr>"

text \<open>\<open>NewDualStack\<close>; an absent pool or upstream is nil.\<close>

definition new_dual_stack ::
  "dns_config \<Rightarrow> pool option \<Rightarrow> pool option \<Rightarrow> pattern list \<Rightarrow> (dns_question list \<Rightarrow> goerr + dns_msg option) option \<Rightarrow>
   goerr + dns_server" where
  "new_dual_stack c0 ipv4 ipv6 excl upstream =
     (let listen = dc_Listen c0
      in if \<not> is_valid (ap_addr listen) \<or> \<not> is4 (ap_addr listen) \<or> \<not> is_loopback (ap_addr listen) \<or> ap_port listen = 0
         then Inl (Opaque ''Fake DNS listen address'')
         else if \<not> dc_UDP c0 \<and> \<not> dc_TCP c0 then Inl (Opaque ''Fake DNS requires UDP or TCP'')
         else if dc_TTL c0 \<le> 0 then Inl (Opaque ''Fake DNS TTL must be positive'')
         else
           (let c = (if dc_QueryTimeout c0 = 0 then c0\<lparr>dc_QueryTimeout := 5 * second\<rparr> else c0)
            in if dc_QueryTimeout c < 0 then Inl (Opaque ''Fake DNS query timeout must be positive'')
               else if dc_MaxConcurrent c \<le> 0 \<or> 65536 < dc_MaxConcurrent c
               then Inl (Opaque ''Fake DNS max concurrency'')
               else case ipv4 of
                   None \<Rightarrow> Inl (Opaque ''Fake IP pool is required'')
                 | Some p4 \<Rightarrow>
                     if \<not> is4 (pfx_addr (p_prefix p4)) then Inl (Opaque ''Fake IPv4 pool must use an IPv4 prefix'')
                     else if (case ipv6 of None \<Rightarrow> False
                              | Some p6 \<Rightarrow> \<not> is6 (pfx_addr (p_prefix p6)) \<or> is4in6 (pfx_addr (p_prefix p6)))
                     then Inl (Opaque ''Fake IPv6 pool must use an IPv6 prefix'')
                     else case upstream of
                         None \<Rightarrow> Inl (Opaque ''explicit upstream resolver is required'')
                       | Some up \<Rightarrow>
                           Inr \<lparr>ds_config = c, ds_ipv4Pool = p4, ds_ipv6Pool = ipv6,
                                ds_runtime = \<lparr>rt_ttl = dc_TTL c, rt_queryTimeout = dc_QueryTimeout c, rt_exclude = excl,
                                              rt_shouldFake = dc_ShouldFake c, rt_upstream = up\<rparr>,
                                ds_semaphore = 0, ds_stats = no_stats\<rparr>))"


section \<open>Serving a query\<close>

fun excluded :: "pattern list \<Rightarrow> string \<Rightarrow> bool" where
  "excluded [] d = False"
| "excluded (p # ps) d = (if pattern_matches p d then True else excluded ps d)"

text \<open>Writing to the client may fail, which only counts; \<open>sent\<close> says whether it worked.\<close>

definition count_failure :: "dns_stats \<Rightarrow> dns_stats" where
  "count_failure st = st\<lparr>sv_failures := sv_failures st + 1\<rparr>"

definition write_msg :: "bool \<Rightarrow> dns_stats \<Rightarrow> dns_stats" where
  "write_msg sent st = (if sent then st else count_failure st)"

definition write_failure :: "nat \<Rightarrow> dns_stats \<Rightarrow> dns_response \<times> dns_stats" where
  "write_failure rcode st = (Rcode rcode, count_failure st)"

definition forward :: "bool \<Rightarrow> runtime_config \<Rightarrow> dns_question list \<Rightarrow> dns_stats \<Rightarrow> dns_response \<times> dns_stats" where
  "forward sent rt questions st =
     (case rt_upstream rt questions of
        Inl e \<Rightarrow> write_failure RcodeServerFailure st
      | Inr None \<Rightarrow> write_failure RcodeServerFailure st
      | Inr (Some reply) \<Rightarrow> (Forwarded reply, write_msg sent (st\<lparr>sv_forwarded := sv_forwarded st + 1\<rparr>)))"

text \<open>The seconds of a positive duration, clamped to what the header field holds.\<close>

definition ttl_seconds :: "duration \<Rightarrow> nat" where
  "ttl_seconds ttl =
     (let s = ttl div second
      in nat (if s < 1 then 1 else if s > 4294967295 then 4294967295 else s))"

text \<open>\<open>Addr.AsSlice\<close>: the bytes of the address, most significant first.\<close>

definition bytes_of :: "nat \<Rightarrow> nat \<Rightarrow> nat list" where
  "bytes_of n v = map (\<lambda>i. v div 256 ^ (n - 1 - i) mod 256) [0..<n]"

definition as_slice :: "addr \<Rightarrow> nat list" where
  "as_slice a = bytes_of (bit_len a div 8) (addr_val a)"

definition fake_record :: "string \<Rightarrow> nat \<Rightarrow> duration \<Rightarrow> addr \<Rightarrow> dns_rr" where
  "fake_record name qtype ttl a =
     \<lparr>rr_Name = name, rr_Ttl = ttl_seconds ttl,
      rr_Data = (if qtype = type_AAAA then RR_AAAA (as_slice a) else RR_A (as_slice a))\<rparr>"

text \<open>
  \<open>ServeDNS\<close> of an admitted query under the policy it loaded; \<open>now\<close> and \<open>written\<close> are the clock and
  the journal write of the allocation, \<open>sent\<close> the write of the response.
\<close>

definition answer_local ::
  "gotime \<Rightarrow> bool \<Rightarrow> bool \<Rightarrow> runtime_config \<Rightarrow> dns_question \<Rightarrow> string \<Rightarrow> dns_server \<Rightarrow> dns_response \<times> dns_server" where
  "answer_local now written sent rt q d s =
     (let aaaa = (q_Type q = type_AAAA);
          pool = (if aaaa then ds_ipv6Pool s else Some (ds_ipv4Pool s))
      in case pool of
          None \<Rightarrow>
            (Authoritative [],
             s\<lparr>ds_stats := write_msg sent ((ds_stats s)\<lparr>sv_nodataAnswers := sv_nodataAnswers (ds_stats s) + 1\<rparr>)\<rparr>)
        | Some p \<Rightarrow>
            (case get_or_allocate now written d p of
               (r, p') \<Rightarrow>
                 (let s1 = (if aaaa then s\<lparr>ds_ipv6Pool := Some p'\<rparr> else s\<lparr>ds_ipv4Pool := p'\<rparr>); st = ds_stats s1
                  in case r of
                       Inl e \<Rightarrow> (case write_failure RcodeServerFailure st of (resp, st') \<Rightarrow> (resp, s1\<lparr>ds_stats := st'\<rparr>))
                     | Inr a \<Rightarrow>
                         (Authoritative [fake_record (q_Name q) (q_Type q) (rt_ttl rt) a],
                          s1\<lparr>ds_stats :=
                            write_msg sent
                              (if aaaa
                               then st\<lparr>sv_fakeIPv6Answers := sv_fakeIPv6Answers st + 1, sv_fakeAnswers := sv_fakeAnswers st + 1\<rparr>
                               else st\<lparr>sv_fakeIPv4Answers := sv_fakeIPv4Answers st + 1,
                                        sv_fakeAnswers := sv_fakeAnswers st + 1\<rparr>)\<rparr>))))"

definition serve_admitted ::
  "gotime \<Rightarrow> bool \<Rightarrow> bool \<Rightarrow> dns_question list \<Rightarrow> dns_server \<Rightarrow> dns_response \<times> dns_server" where
  "serve_admitted now written sent questions s =
     (case questions of
        [q] \<Rightarrow>
          (let rt = ds_runtime s
           in case normalize (q_Name q) of
                Inl e \<Rightarrow> (case write_failure RcodeNameError (ds_stats s) of (resp, st) \<Rightarrow> (resp, s\<lparr>ds_stats := st\<rparr>))
              | Inr d \<Rightarrow>
                  if excluded (rt_exclude rt) d \<or> (q_Type q \<noteq> type_A \<and> q_Type q \<noteq> type_AAAA) \<or>
                     (case rt_shouldFake rt of None \<Rightarrow> False | Some f \<Rightarrow> \<not> f d)
                  then (case forward sent rt questions (ds_stats s) of (resp, st) \<Rightarrow> (resp, s\<lparr>ds_stats := st\<rparr>))
                  else answer_local now written sent rt q d s)
      | _ \<Rightarrow> (case write_failure RcodeFormatError (ds_stats s) of (resp, st) \<Rightarrow> (resp, s\<lparr>ds_stats := st\<rparr>)))"

text \<open>The semaphore slot is given back when the call returns.\<close>

definition serve_dns ::
  "gotime \<Rightarrow> bool \<Rightarrow> bool \<Rightarrow> dns_question list \<Rightarrow> dns_server \<Rightarrow> dns_response \<times> dns_server" where
  "serve_dns now written sent questions s =
     (let st = (ds_stats s)\<lparr>sv_queries := sv_queries (ds_stats s) + 1\<rparr>
      in if int (ds_semaphore s) < dc_MaxConcurrent (ds_config s)
         then
           (case serve_admitted now written sent questions (s\<lparr>ds_semaphore := ds_semaphore s + 1, ds_stats := st\<rparr>) of
              (resp, s') \<Rightarrow> (resp, s'\<lparr>ds_semaphore := ds_semaphore s' - 1\<rparr>))
         else
           (case write_failure RcodeServerFailure (st\<lparr>sv_capacityRejects := sv_capacityRejects st + 1\<rparr>) of
              (resp, st') \<Rightarrow> (resp, s\<lparr>ds_stats := st'\<rparr>)))"


section \<open>Reloading\<close>

definition reload_policy ::
  "duration \<Rightarrow> duration \<Rightarrow> pattern list \<Rightarrow> (string \<Rightarrow> bool) option \<Rightarrow>
   (dns_question list \<Rightarrow> goerr + dns_msg option) option \<Rightarrow> dns_server \<Rightarrow> goerr option \<times> dns_server" where
  "reload_policy ttl timeout excl shouldFake upstream s =
     (if ttl \<le> 0 then (Some (Opaque ''Fake DNS TTL must be positive''), s)
      else if timeout \<le> 0 then (Some (Opaque ''Fake DNS query timeout must be positive''), s)
      else case upstream of
          None \<Rightarrow> (Some (Opaque ''explicit upstream resolver is required''), s)
        | Some up \<Rightarrow>
            (None, s\<lparr>ds_runtime := \<lparr>rt_ttl = ttl, rt_queryTimeout = timeout, rt_exclude = excl,
                                    rt_shouldFake = shouldFake, rt_upstream = up\<rparr>\<rparr>))"

definition reload ::
  "duration \<Rightarrow> duration \<Rightarrow> pattern list \<Rightarrow> (dns_question list \<Rightarrow> goerr + dns_msg option) option \<Rightarrow> dns_server \<Rightarrow>
   goerr option \<times> dns_server" where
  "reload ttl timeout excl upstream s =
     reload_policy ttl timeout excl (rt_shouldFake (ds_runtime s)) upstream s"


section \<open>Listeners\<close>

text \<open>
  Starting the server: binding, validating and activating the sockets.  A bound socket is known by the
  text of its local address; \<open>exits p\<close> is the error of a serving loop that ended during startup, \<open>late\<close>
  whether one ended between its own startup and the last check.  The second component lists the
  sockets closed on the way out.
\<close>

datatype dns_proto = OverUDP | OverTCP

record listeners =
  ln_UDP :: "string option"
  ln_TCP :: "string option"

definition close_listeners :: "listeners \<Rightarrow> dns_proto list" where
  "close_listeners ls =
     (if ln_UDP ls = None then [] else [OverUDP]) @ (if ln_TCP ls = None then [] else [OverTCP])"

definition validate_listener_address :: "string option \<Rightarrow> addrport \<Rightarrow> goerr + unit" where
  "validate_listener_address l expected =
     (case l of
        None \<Rightarrow> Inr ()
      | Some text \<Rightarrow>
          (case parse_addrport text of
             None \<Rightarrow> Inl (Opaque ''parse inherited Fake DNS listener address'')
           | Some actual \<Rightarrow>
               if actual \<noteq> expected then Inl (Opaque ''inherited Fake DNS listener'') else Inr ()))"

definition start_with_listeners ::
  "dns_config \<Rightarrow> listeners \<Rightarrow> (dns_proto \<Rightarrow> goerr option) \<Rightarrow> goerr option \<Rightarrow> (goerr + listeners) \<times> dns_proto list" where
  "start_with_listeners c ls exits late =
     (if dc_UDP c \<noteq> (ln_UDP ls \<noteq> None) then (Inl (Opaque ''Fake DNS UDP listener presence''), [])
      else if dc_TCP c \<noteq> (ln_TCP ls \<noteq> None) then (Inl (Opaque ''Fake DNS TCP listener presence''), [])
      else
        (case bindE (validate_listener_address (ln_UDP ls) (dc_Listen c))
                    (\<lambda>_. validate_listener_address (ln_TCP ls) (dc_Listen c)) of
           Inl e \<Rightarrow> (Inl e, [])
         | Inr _ \<Rightarrow>
             (case List.map_filter exits (close_listeners ls) of
                e # _ \<Rightarrow> (Inl (Joined [Wrapped ''start Fake DNS server'' e]), close_listeners ls)
              | [] \<Rightarrow>
                  (case late of
                     Some e \<Rightarrow> (Inl (Joined [Wrapped ''start Fake DNS server'' e]), close_listeners ls)
                   | None \<Rightarrow> (Inr ls, [])))))"

definition bind_if :: "bool \<Rightarrow> goerr + string \<Rightarrow> goerr + string option" where
  "bind_if wanted b = (if wanted then (case b of Inl e \<Rightarrow> Inl e | Inr t \<Rightarrow> Inr (Some t)) else Inr None)"

definition start_server ::
  "dns_config \<Rightarrow> goerr + string \<Rightarrow> goerr + string \<Rightarrow> (dns_proto \<Rightarrow> goerr option) \<Rightarrow> goerr option \<Rightarrow>
   (goerr + listeners) \<times> dns_proto list" where
  "start_server c udp_bind tcp_bind exits late =
     (case bind_if (dc_UDP c) udp_bind of
        Inl e \<Rightarrow> (Inl (Wrapped ''listen Fake DNS UDP'' e), [])
      | Inr u \<Rightarrow>
          (case bind_if (dc_TCP c) tcp_bind of
             Inl e \<Rightarrow> (Inl (Wrapped ''listen Fake DNS TCP'' e), if u = None then [] else [OverUDP])
           | Inr t \<Rightarrow>
               (let ls = \<lparr>ln_UDP = u, ln_TCP = t\<rparr>
                in case start_with_listeners c ls exits late of
                     (Inl e, closed) \<Rightarrow> (Inl e, closed @ close_listeners ls)
                   | (Inr r, closed) \<Rightarrow> (Inr r, closed))))"

end
