(* ===== verification/Fakeip_Lifetime.thy ===== *)
theory Fakeip_Lifetime
  imports Fakeip_System Fakeip_Alloc
begin

text \<open>
  How long an answer of \<open>GetOrAllocate\<close> holds when the pool goes on being used: whatever critical
  sections run between the answer and the end of its mapping lifetime (other allocations and renewals,
  flows that acquire and release, expiry sweeps, flushes, failed journal writes), the address still
  belongs to the same domain.  The clock of a section is read under the pool's mutex, so no later
  section sees an earlier clock than the answer did.
\<close>

section \<open>What a section may do to an entry\<close>

lemma section_frames [simp]:
  "same_frame p (forget_deletes ds p)" "same_frame p (alloc_fail d r p)" "same_frame p (release r p)"
  "same_frame p (snd (lookup now a p))" "same_frame p (snd (acquire now a p))"
  by (auto simp: forget_deletes_def alloc_fail_def release_def lookup_def acquire_def same_frame_def delete_untracked_def
      delete_locked_def split: option.splits)

lemma pool_step_frame:
  assumes "pool_step now s t" and "sys_inv s"
  shows "same_frame (sys_pool s) (sys_pool t)"
  using assms
proof (induction rule: pool_step.induct)
  case (alloc_done s name d now out q)
  then show ?case
    using alloc_begin_frame [OF _ normalize_canonical [OF alloc_done(2)], of "sys_pool s" now] by (simp add: sys_inv_def)
next
  case (alloc_start s name d now r u q)
  then show ?case
    using alloc_begin_frame [OF _ normalize_canonical [OF alloc_start(2)], of "sys_pool s" now] by (simp add: sys_inv_def)
next
  case (acquire_ok now a s d r q)
  then show ?case using section_frames(5) [of "sys_pool s" now a] by simp
next
  case (acquire_failed now a s e q)
  then show ?case using section_frames(5) [of "sys_pool s" now a] by simp
next
  case (prune_step now s)
  then show ?case using prune_locked_frame(1) [of "sys_pool s" now] by (simp add: sys_inv_def prune_def Let_def)
qed simp_all

text \<open>An allocation renews the entry of its own domain to the end of a new lifetime and no other.\<close>

lemma alloc_begin_expiry:
  assumes "pool_inv p" and "canonical d" and "alloc_begin now d p = (out, q)" and "r < length (heap p)"
  shows "e_expiresAt (deref q r) \<in> {e_expiresAt (deref p r), now + mappingTTL p}"
  using assms(1,2)
proof (cases rule: alloc_begin_cases [where now = now])
  case (existing s)
  then show ?thesis using assms(3) by (auto simp: deref_heap_update)
next
  case full
  then show ?thesis using assms(3) prune_locked_frame(3) [OF assms(1), of now] by auto
next
  case (fresh a q')
  then show ?thesis using assms(3,4) fresh_alloc_result(11) [OF fresh(3) assms(1)] by auto
qed

lemma pool_step_expiry:
  assumes "pool_step now s t" and "sys_inv s" and "r < length (heap (sys_pool s))"
  shows "e_expiresAt (deref (sys_pool t) r) \<in> {e_expiresAt (deref (sys_pool s) r), now + mappingTTL (sys_pool s)}"
  using assms
proof (induction rule: pool_step.induct)
  case (alloc_done s name d now out q)
  then show ?case using alloc_begin_expiry [OF _ normalize_canonical] by (simp add: sys_inv_def)
next
  case (alloc_start s name d now r u q)
  then show ?case using alloc_begin_expiry [OF _ normalize_canonical] by (simp add: sys_inv_def)
next
  case (acquire_ok now a s d r' q)
  then show ?case using acquire_okD(4) [OF acquire_ok(1)] by (simp add: deref_heap_update)
next
  case (acquire_failed now a s e q)
  then show ?case using acquire_failed_heap [OF acquire_failed(1)] by (simp add: deref_def)
next
  case (release_step r' s now)
  then show ?case by (simp add: release_def deref_heap_update)
next
  case (prune_step now s)
  then show ?case using prune_locked_frame(3) [of "sys_pool s" now] by (simp add: sys_inv_def prune_def Let_def)
qed (simp_all add: deref_def)

text \<open>The entry whose journal write is under way is one that was allocated for it.\<close>

lemma pool_step_owner:
  assumes "pool_step now s t" and "sys_inv s" and "owner t = Allocating d r u"
  shows "owner s = owner t \<or> length (heap (sys_pool s)) \<le> r"
  using assms
proof (induction rule: pool_step.induct)
  case (alloc_start s name d' now r' u' q)
  have "pool_inv (sys_pool s)" "canonical d'"
    using alloc_start.prems(1) normalize_canonical [OF alloc_start(2)] by (simp_all add: sys_inv_def)
  then have "r' = length (heap (sys_pool s))"
    by (cases rule: alloc_begin_cases [where now = now]) (use alloc_start(3) in \<open>auto split: if_splits\<close>)
  then show ?case using alloc_start.prems(2) by simp
qed simp_all

lemma pool_step_heap:
  assumes "pool_step now s t" and "sys_inv s"
  shows "length (heap (sys_pool s)) \<le> length (heap (sys_pool t))"
  using assms
proof (induction rule: pool_step.induct)
  case (alloc_done s name d now out q)
  then show ?case using alloc_begin_heap(1) [OF _ normalize_canonical] by (simp add: sys_inv_def)
next
  case (alloc_start s name d now r u q)
  then show ?case using alloc_begin_heap(1) [OF _ normalize_canonical] by (simp add: sys_inv_def)
next
  case (acquire_ok now a s d r q)
  then show ?case using acquire_okD(4) [OF acquire_ok(1)] by simp
next
  case (acquire_failed now a s e q)
  then show ?case using acquire_failed_heap [OF acquire_failed(1)] by simp
next
  case (prune_step now s)
  then show ?case using prune_locked_frame(2) [of "sys_pool s" now] by (simp add: sys_inv_def prune_def Let_def)
qed (simp_all add: release_def)


section \<open>Any sections within a window of time\<close>

inductive steps_within :: "gotime \<Rightarrow> gotime \<Rightarrow> pool_sys \<Rightarrow> pool_sys \<Rightarrow> bool" for lo hi :: gotime where
  none: "steps_within lo hi s s"
| more: "steps_within lo hi s t \<Longrightarrow> pool_step now t u \<Longrightarrow> lo \<le> now \<Longrightarrow> now < hi \<Longrightarrow> steps_within lo hi s u"

text \<open>The entry \<open>r\<close> maps \<open>a\<close> to \<open>d\<close> at least until \<open>hi\<close>, and its journal write is not under way.\<close>

definition serves :: "pool_sys \<Rightarrow> ptr \<Rightarrow> addr \<Rightarrow> string \<Rightarrow> gotime \<Rightarrow> bool" where
  "serves s r a d hi =
     (live (sys_pool s) r \<and> e_domain (deref (sys_pool s) r) = d \<and> e_address (deref (sys_pool s) r) = a \<and>
      hi \<le> e_expiresAt (deref (sys_pool s) r) \<and> (\<forall>d u. owner s \<noteq> Allocating d r u))"

lemma pool_step_serves:
  assumes st: "pool_step now s t" and inv: "sys_inv s" and sv: "serves s r a d hi"
    and lo: "hi \<le> now + mappingTTL (sys_pool s)" and hi: "now < hi"
  shows "serves t r a d hi"
proof -
  have lr: "live (sys_pool s) r" and own: "\<forall>d u. owner s \<noteq> Allocating d r u" using sv by (simp_all add: serves_def)
  have len: "r < length (heap (sys_pool s))" using live_len [OF _ lr] inv by (simp add: sys_inv_def)
  have "\<not> reclaimable now (deref (sys_pool s) r)" using sv hi by (simp add: serves_def reclaimable_def)
  then have "keeps (sys_pool s) (sys_pool t) r" using pool_step_keeps [OF st inv lr _ own] by blast
  moreover have "hi \<le> e_expiresAt (deref (sys_pool t) r)"
    using pool_step_expiry [OF st inv len] sv lo by (auto simp: serves_def)
  moreover have "\<forall>d u. owner t \<noteq> Allocating d r u" using pool_step_owner [OF st inv, of _ r] own len by fastforce
  ultimately show ?thesis using sv by (simp add: serves_def keeps_def same_identity_def)
qed

lemma steps_within_serves:
  assumes "steps_within lo hi s t" and "sys_inv s" and "serves s r a d hi" and "hi \<le> lo + mappingTTL (sys_pool s)"
  shows "sys_inv t \<and> same_frame (sys_pool s) (sys_pool t) \<and> serves t r a d hi"
  using assms
proof (induction rule: steps_within.induct)
  case (none s)
  then show ?case by simp
next
  case (more s t now u)
  then have t: "sys_inv t" "same_frame (sys_pool s) (sys_pool t)" "serves t r a d hi" by simp_all
  moreover have "hi \<le> now + mappingTTL (sys_pool t)" using t(2) more by (simp add: same_frame_def)
  ultimately show ?case
    using pool_step_inv [OF more(2)] same_frame_trans [OF _ pool_step_frame [OF more(2)]] pool_step_serves [OF more(2)] more
    by blast
qed

lemma serves_acquire:
  assumes "serves s r a d hi" and "now < hi"
  shows "\<exists>q. acquire now a (sys_pool s) = (Inr (d, r), q)"
  using assms by (auto simp: serves_def live_def acquire_def reclaimable_def)

text \<open>
  \<open>GetOrAllocate\<close> as its one or two sections; the entry behind its answer serves for a whole lifetime.
\<close>

lemma get_or_allocate_steps:
  assumes "get_or_allocate now written name (sys_pool s) = (Inr a, q)" and "owner s = Idle"
  shows "(pool_step now)\<^sup>*\<^sup>* s (s\<lparr>sys_pool := q\<rparr>)"
proof -
  obtain d out q0 where n: "normalize name = Inr d" and al: "alloc_begin now d (sys_pool s) = (out, q0)"
    using assms(1) by (auto simp: get_or_allocate_def split: sum.splits prod.splits)
  show ?thesis
  proof (cases out)
    case (NeedPersist r u)
    let ?t = "s\<lparr>sys_pool := q0, owner := Allocating d r u\<rparr>"
    have "pool_step now s ?t" using pool_step.alloc_start [OF assms(2) n] al NeedPersist by simp
    moreover have "pool_step now ?t (?t\<lparr>sys_pool := forget_deletes (u_Removed u) q0, owner := Idle\<rparr>)"
      using pool_step.persist_ok [of ?t d r u now] by simp
    moreover have "q = forget_deletes (u_Removed u) q0"
      using assms(1) n al NeedPersist by (auto simp: get_or_allocate_def split: if_splits)
    moreover have "?t\<lparr>sys_pool := x, owner := Idle\<rparr> = s\<lparr>sys_pool := x\<rparr>" for x using assms(2) by (cases s) simp
    ultimately show ?thesis by (metis converse_rtranclp_into_rtranclp r_into_rtranclp)
  qed (use assms n al in \<open>auto simp: get_or_allocate_def intro!: r_into_rtranclp pool_step.alloc_done\<close>)
qed

lemma get_or_allocate_serves:
  assumes "get_or_allocate now written d (sys_pool s) = (Inr a, q)" and "normalize d = Inr d" and "sys_inv s"
    and "owner s = Idle"
  shows "\<exists>r. serves (s\<lparr>sys_pool := q\<rparr>) r a d (now + mappingTTL (sys_pool s))" "sys_inv (s\<lparr>sys_pool := q\<rparr>)"
proof -
  have "maps_to q a d (now + mappingTTL (sys_pool s))"
    using get_or_allocate_maps_to [OF _ assms(2,1)] assms(3) by (simp add: sys_inv_def)
  then show "\<exists>r. serves (s\<lparr>sys_pool := q\<rparr>) r a d (now + mappingTTL (sys_pool s))"
    using assms(4) by (auto simp: maps_to_def serves_def live_def)
  show "sys_inv (s\<lparr>sys_pool := q\<rparr>)"
    using get_or_allocate_steps [OF assms(1,4)] assms(3)
    by (induction rule: rtranclp_induct) (auto intro: pool_step_inv)
qed

text \<open>Together: the answer of a call still leads to its domain after any sections of its lifetime.\<close>

lemma answer_outlives_sections:
  assumes "get_or_allocate now written d p = (Inr a, q)" and "normalize d = Inr d"
    and "sys_inv \<lparr>sys_pool = p, owner = Idle, holds = h\<rparr>"
    and "steps_within now (now + mappingTTL p) \<lparr>sys_pool = q, owner = Idle, holds = h\<rparr> t"
    and "now' < now + mappingTTL p"
  shows "\<exists>r u. acquire now' a (sys_pool t) = (Inr (d, r), u)" "in_pool p a" "same_frame p (sys_pool t)"
proof -
  let ?s = "\<lparr>sys_pool = p, owner = Idle, holds = h\<rparr>"
  obtain r where r: "serves (?s\<lparr>sys_pool := q\<rparr>) r a d (now + mappingTTL p)" and inv: "sys_inv (?s\<lparr>sys_pool := q\<rparr>)"
    using get_or_allocate_serves [of now written d ?s a q] assms(1-3) by auto
  have fr: "same_frame p q" using get_or_allocate_frame [of p now written d] assms(1,3) by (simp add: sys_inv_def)
  then have t: "same_frame q (sys_pool t)" "serves t r a d (now + mappingTTL p)"
    using steps_within_serves [OF _ inv r, of now t] assms(4) by (simp_all add: same_frame_def)
  show "\<exists>r u. acquire now' a (sys_pool t) = (Inr (d, r), u)" using serves_acquire [OF t(2) assms(5)] by blast
  show "same_frame p (sys_pool t)" using same_frame_trans [OF fr t(1)] .
  have "gm_get (byAddress q) a = Some r" using r by (auto simp: serves_def live_def)
  then have "in_pool q a" using index_inv_address(3) [OF pool_inv_parts(2)] inv by (simp add: sys_inv_def)
  then show "in_pool p a" using same_frame_in_pool [OF fr] by simp
qed

end
