(* ===== verification/Fakedns_Properties.thy ===== *)
theory Fakedns_Properties
  imports Fakedns Session_Handle Resolver_Properties Fakeip_Properties Fakeip_Lifetime Rules
begin

text \<open>
  What the local DNS server promises: an answer it gives leads flows back to the queried domain, names
  the policy does not select never reach the pools and selected ones never reach the upstream, every
  query is answered and counted once, and starting it leaves all sockets open or none.
\<close>

section \<open>Addresses as bytes\<close>

lemma bytes_of_Suc: "bytes_of (Suc n) v = (v div 256 ^ n mod 256) # bytes_of n v"
proof -
  have "bytes_of (Suc n) v = map (\<lambda>i. v div 256 ^ (n - i) mod 256) (0 # map Suc [0..<n])"
    by (simp add: bytes_of_def upt_conv_Cons map_Suc_upt del: upt_Suc)
  then show ?thesis by (simp add: bytes_of_def o_def)
qed

lemma foldl_bytes_of: "foldl (\<lambda>v b. v * 256 + b) acc (bytes_of n v) = acc * 256 ^ n + v mod 256 ^ n"
proof (induction n arbitrary: acc)
  case 0
  then show ?case by (simp add: bytes_of_def)
next
  case (Suc n)
  have "v mod 256 ^ Suc n = v mod 256 ^ n + 256 ^ n * (v div 256 ^ n mod 256)"
    using mod_mult2_eq [of v "256 ^ n" 256] by (simp only: power_Suc mult.commute [of 256] add.commute)
  then show ?case using Suc by (simp add: bytes_of_Suc algebra_simps)
qed

lemma length_bytes_of [simp]: "length (bytes_of n v) = n"
  by (simp add: bytes_of_def)

lemma record_address_fake:
  "is4 a \<Longrightarrow> record_address TypeA (RR_A (as_slice a)) = Some a"
  "is6 a \<Longrightarrow> \<not> is4in6 a \<Longrightarrow> addr_zone a = [] \<Longrightarrow> record_address TypeAAAA (RR_AAAA (as_slice a)) = Some a"
proof -
  have v: "bytes_value (bytes_of n v) = v mod 256 ^ n" for n v
    using foldl_bytes_of [of 0 n v] by (simp add: bytes_value_def)
  have "unat w < 256 ^ 4" for w :: "32 word" using unsigned_less [of w] by simp
  then have "word_of_nat (unat w mod 256 ^ 4) = w" for w :: "32 word" by simp
  then show "is4 a \<Longrightarrow> record_address TypeA (RR_A (as_slice a)) = Some a"
    by (cases a) (simp_all add: record_address_def as_slice_def ip_to4_def addr_from_slice_def v)
  have "unat w < 256 ^ 16" for w :: "128 word" using unsigned_less [of w] by simp
  then have "word_of_nat (unat w mod 256 ^ 16) = w" for w :: "128 word" by simp
  then show "is6 a \<Longrightarrow> \<not> is4in6 a \<Longrightarrow> addr_zone a = [] \<Longrightarrow> record_address TypeAAAA (RR_AAAA (as_slice a)) = Some a"
    by (cases a) (simp_all add: record_address_def as_slice_def addr_from_slice_def v)
qed

lemma ttl_seconds_range: "1 \<le> ttl_seconds ttl" "ttl_seconds ttl < 2 ^ 32"
  by (auto simp: ttl_seconds_def Let_def nat_less_iff not_less)


section \<open>The server's invariant\<close>

definition pool_of_family :: "(addr \<Rightarrow> bool) \<Rightarrow> pool \<Rightarrow> bool" where
  "pool_of_family fam p = (pool_inv p \<and> fam (pfx_addr (p_prefix p)))"

definition dns_inv :: "dns_server \<Rightarrow> bool" where
  "dns_inv s =
     (pool_of_family is4 (ds_ipv4Pool s) \<and> (case ds_ipv6Pool s of None \<Rightarrow> True | Some p \<Rightarrow> pool_of_family is6 p) \<and>
      0 < rt_ttl (ds_runtime s) \<and> 0 < rt_queryTimeout (ds_runtime s) \<and>
      sv_fakeAnswers (ds_stats s) = sv_fakeIPv4Answers (ds_stats s) + sv_fakeIPv6Answers (ds_stats s))"

lemma get_or_allocate_family:
  "pool_of_family fam p \<Longrightarrow> pool_of_family fam (snd (get_or_allocate now written name p))"
  using get_or_allocate_inv [of p] get_or_allocate_frame [of p] by (simp add: pool_of_family_def same_frame_def)

lemma new_dual_stack_inv:
  assumes "new_dual_stack c (Some p4) p6 excl up = Inr s" and "pool_inv p4" and "\<And>p. p6 = Some p \<Longrightarrow> pool_inv p"
  shows "dns_inv s"
  using assms by (auto simp: new_dual_stack_def Let_def dns_inv_def pool_of_family_def no_stats_def split: if_splits option.splits)


lemma write_msg_counts [simp]:
  "sv_fakeAnswers (write_msg sent st) = sv_fakeAnswers st" "sv_fakeIPv4Answers (write_msg sent st) = sv_fakeIPv4Answers st"
  "sv_fakeIPv6Answers (write_msg sent st) = sv_fakeIPv6Answers st" "sv_nodataAnswers (write_msg sent st) = sv_nodataAnswers st"
  "sv_forwarded (write_msg sent st) = sv_forwarded st" "sv_queries (write_msg sent st) = sv_queries st"
  "sv_capacityRejects (write_msg sent st) = sv_capacityRejects st"
  "sv_failures (write_msg sent st) = sv_failures st + (if sent then 0 else 1)"
  by (simp_all add: write_msg_def count_failure_def)

lemma answer_local_inv: "dns_inv s \<Longrightarrow> dns_inv (snd (answer_local now written sent rt q d s))"
proof -
  assume inv: "dns_inv s"
  have fam: "pool_of_family is4 (snd (get_or_allocate now written d (ds_ipv4Pool s)))"
    "\<And>p. ds_ipv6Pool s = Some p \<Longrightarrow> pool_of_family is6 (snd (get_or_allocate now written d p))"
    using inv get_or_allocate_family by (auto simp: dns_inv_def)
  then show ?thesis using inv
    by (auto simp: answer_local_def Let_def dns_inv_def write_failure_def count_failure_def
        split: option.splits prod.splits sum.splits if_splits)
qed

lemma serve_admitted_inv: "dns_inv s \<Longrightarrow> dns_inv (snd (serve_admitted now written sent questions s))"
  using answer_local_inv [of s]
  by (auto simp: serve_admitted_def Let_def dns_inv_def write_failure_def count_failure_def forward_def
      split: list.splits sum.splits option.splits)

lemma serve_dns_inv:
  assumes "dns_inv s"
  shows "dns_inv (snd (serve_dns now written sent questions s))"
proof -
  let ?s = "s\<lparr>ds_semaphore := ds_semaphore s + 1,
              ds_stats := (ds_stats s)\<lparr>sv_queries := sv_queries (ds_stats s) + 1\<rparr>\<rparr>"
  have "dns_inv ?s" using assms by (simp add: dns_inv_def)
  then have "dns_inv (snd (serve_admitted now written sent questions ?s))" by (rule serve_admitted_inv)
  then show ?thesis using assms
    by (auto simp: serve_dns_def Let_def dns_inv_def write_failure_def count_failure_def split: prod.splits)
qed

lemma reload_policy_inv: "dns_inv s \<Longrightarrow> dns_inv (snd (reload_policy ttl timeout excl f up s))"
  by (auto simp: reload_policy_def dns_inv_def split: option.splits)


section \<open>Where an answer comes from\<close>

lemma serve_dns_admitted:
  assumes "int (ds_semaphore s) < dc_MaxConcurrent (ds_config s)"
  shows "serve_dns now written sent questions s =
    (let (resp, s') = serve_admitted now written sent questions
        (s\<lparr>ds_semaphore := ds_semaphore s + 1, ds_stats := (ds_stats s)\<lparr>sv_queries := sv_queries (ds_stats s) + 1\<rparr>\<rparr>)
     in (resp, s'\<lparr>ds_semaphore := ds_semaphore s' - 1\<rparr>))"
  using assms by (simp add: serve_dns_def Let_def)

text \<open>The pool of the family a question asks for, on the server and behind the flows.\<close>

definition asked_pool :: "dns_question \<Rightarrow> dns_server \<Rightarrow> pool option" where
  "asked_pool q s = (if q_Type q = type_AAAA then ds_ipv6Pool s else Some (ds_ipv4Pool s))"

definition flow_pool :: "dns_question \<Rightarrow> mapping_pools \<Rightarrow> pool option \<times> ipprefix" where
  "flow_pool q ps = (if q_Type q = type_AAAA then (mp_IPv6 ps, mp_IPv6Prefix ps) else (mp_IPv4 ps, mp_IPv4Prefix ps))"

text \<open>
  What the exclusions mean: a pattern with \<open>Suffix\<close> covers the names whose trailing labels are its own,
  any other one only itself.
\<close>

lemma excluded_iff:
  "excluded ps d \<longleftrightarrow> (\<exists>p \<in> set ps. if Suffix p then suffix (labels (Domain p)) (labels d) else d = Domain p)"
  by (induction ps) (auto simp: pattern_matches_labels)

text \<open>An authoritative answer with a record comes from an allocation in the pool of the queried family.\<close>

lemma fake_answer_origin:
  assumes "serve_dns now written sent [q] s = (Authoritative [rr], s')"
  obtains d a p p' where "normalize (q_Name q) = Inr d" "q_Type q = type_A \<or> q_Type q = type_AAAA"
    "rr = fake_record (q_Name q) (q_Type q) (rt_ttl (ds_runtime s)) a"
    "asked_pool q s = Some p" "get_or_allocate now written d p = (Inr a, p')" "asked_pool q s' = Some p'"
  using assms
  by (auto simp: serve_dns_def serve_admitted_def answer_local_def Let_def write_failure_def forward_def asked_pool_def
      split: if_splits sum.splits option.splits prod.splits)

lemma serve_policy:
  assumes "normalize (q_Name q) = Inr d" and "serve_dns now written sent [q] s = (resp, s')"
    and "f = (\<lambda>d. case rt_shouldFake (ds_runtime s) of None \<Rightarrow> True | Some g \<Rightarrow> g d)"
    and "sel = (\<not> excluded (rt_exclude (ds_runtime s)) d \<and> (q_Type q = type_A \<or> q_Type q = type_AAAA) \<and> f d)"
    and "room = (int (ds_semaphore s) < dc_MaxConcurrent (ds_config s))"
  shows "room \<Longrightarrow> sel \<Longrightarrow> resp =
      (case asked_pool q s of None \<Rightarrow> Authoritative []
       | Some p \<Rightarrow> (case fst (get_or_allocate now written d p) of Inl e \<Rightarrow> Rcode RcodeServerFailure
                  | Inr a \<Rightarrow> Authoritative [fake_record (q_Name q) (q_Type q) (rt_ttl (ds_runtime s)) a]))"
    "room \<Longrightarrow> \<not> sel \<Longrightarrow> resp =
      (case rt_upstream (ds_runtime s) [q] of Inr (Some m) \<Rightarrow> Forwarded m | _ \<Rightarrow> Rcode RcodeServerFailure)"
    "\<not> room \<Longrightarrow> resp = Rcode RcodeServerFailure"
    "\<not> room \<or> \<not> sel \<Longrightarrow> ds_ipv4Pool s' = ds_ipv4Pool s \<and> ds_ipv6Pool s' = ds_ipv6Pool s"
    "room \<Longrightarrow> sel \<Longrightarrow> asked_pool q s' = map_option (\<lambda>p. snd (get_or_allocate now written d p)) (asked_pool q s)"
    "room \<Longrightarrow> sel \<Longrightarrow> if q_Type q = type_AAAA then ds_ipv4Pool s' = ds_ipv4Pool s else ds_ipv6Pool s' = ds_ipv6Pool s"
proof -
  have "sel \<longleftrightarrow> \<not> (excluded (rt_exclude (ds_runtime s)) d \<or> (q_Type q \<noteq> type_A \<and> q_Type q \<noteq> type_AAAA) \<or>
      (case rt_shouldFake (ds_runtime s) of None \<Rightarrow> False | Some f \<Rightarrow> \<not> f d))"
    using assms(3,4) by (auto split: option.splits)
  then show "room \<Longrightarrow> sel \<Longrightarrow> resp =
      (case asked_pool q s of None \<Rightarrow> Authoritative []
       | Some p \<Rightarrow> (case fst (get_or_allocate now written d p) of Inl e \<Rightarrow> Rcode RcodeServerFailure
                  | Inr a \<Rightarrow> Authoritative [fake_record (q_Name q) (q_Type q) (rt_ttl (ds_runtime s)) a]))"
    "room \<Longrightarrow> \<not> sel \<Longrightarrow> resp =
      (case rt_upstream (ds_runtime s) [q] of Inr (Some m) \<Rightarrow> Forwarded m | _ \<Rightarrow> Rcode RcodeServerFailure)"
    "\<not> room \<Longrightarrow> resp = Rcode RcodeServerFailure"
    "\<not> room \<or> \<not> sel \<Longrightarrow> ds_ipv4Pool s' = ds_ipv4Pool s \<and> ds_ipv6Pool s' = ds_ipv6Pool s"
    "room \<Longrightarrow> sel \<Longrightarrow> asked_pool q s' = map_option (\<lambda>p. snd (get_or_allocate now written d p)) (asked_pool q s)"
    "room \<Longrightarrow> sel \<Longrightarrow> if q_Type q = type_AAAA then ds_ipv4Pool s' = ds_ipv4Pool s else ds_ipv6Pool s' = ds_ipv6Pool s"
    using assms(1,2,5)
    by (auto simp: serve_dns_def serve_admitted_def answer_local_def Let_def write_failure_def forward_def asked_pool_def
        split: sum.splits option.splits prod.splits if_splits)
qed

lemma bit_len_family: "bit_len a = 32 \<longleftrightarrow> is4 a" "bit_len a = 128 \<longleftrightarrow> is6 a"
  by (cases a; simp)+

lemma family_addresses:
  assumes "pool_inv p" and "in_pool p a"
  shows "is4 (pfx_addr (p_prefix p)) \<longleftrightarrow> is4 a" "is6 (pfx_addr (p_prefix p)) \<longleftrightarrow> is6 a"
    "pfx_contains (p_prefix p) a" "addr_zone a = []"
proof -
  have "bit_len (pfx_addr (p_prefix p)) = bit_len a" "pfx_contains (p_prefix p) a" "addr_zone a = []"
    using pool_inv_parts(1) [OF assms(1)] assms(2) by (simp_all add: pool_static_def in_pool_def)
  then show "is4 (pfx_addr (p_prefix p)) \<longleftrightarrow> is4 a" "is6 (pfx_addr (p_prefix p)) \<longleftrightarrow> is6 a"
    "pfx_contains (p_prefix p) a" "addr_zone a = []" using bit_len_family by metis+
qed


section \<open>Starting\<close>

lemma bind_if_ok: "bind_if w b = Inr t \<Longrightarrow> (t \<noteq> None) = w"
  by (auto simp: bind_if_def split: if_splits sum.splits)

lemma start_with_listeners_ok:
  assumes "start_with_listeners c ls exits late = (r, closed)" and "r = Inr ls'"
  shows "ls' = ls \<and> closed = [] \<and> (ln_UDP ls \<noteq> None) = dc_UDP c \<and> (ln_TCP ls \<noteq> None) = dc_TCP c \<and>
    validate_listener_address (ln_UDP ls) (dc_Listen c) = Inr () \<and>
    validate_listener_address (ln_TCP ls) (dc_Listen c) = Inr () \<and>
    List.map_filter exits (close_listeners ls) = [] \<and> late = None"
  using assms
  by (simp add: start_with_listeners_def bindE_def split: if_splits sum.splits list.splits option.splits)

lemma validate_listener_ok:
  "validate_listener_address l a = Inr () \<longleftrightarrow> (case l of None \<Rightarrow> True | Some t \<Rightarrow> parse_addrport t = Some a)"
  by (auto simp: validate_listener_address_def split: option.splits)

lemma map_filter_Nil: "List.map_filter f xs = [] \<longleftrightarrow> list_all (\<lambda>x. f x = None) xs"
  by (induction xs) (auto split: option.splits)


section \<open>Properties\<close>

definition sample_dns_config :: dns_config where
  "sample_dns_config = \<lparr>dc_Listen = \<lparr>ap_addr = V4 2130706433, ap_port = 53\<rparr>, dc_UDP = True, dc_TCP = True,
     dc_TTL = 60 * second, dc_QueryTimeout = 0, dc_MaxConcurrent = 8, dc_ShouldFake = None\<rparr>"

definition sample_upstream :: "dns_question list \<Rightarrow> goerr + dns_msg option" where
  "sample_upstream qs = Inr (Some \<lparr>msg_Rcode = 0, msg_Truncated = False, msg_Answer = []\<rparr>)"

definition sample_server :: dns_server where
  "sample_server = \<lparr>ds_config = sample_dns_config\<lparr>dc_QueryTimeout := 5 * second\<rparr>, ds_ipv4Pool = sample_pool, ds_ipv6Pool = None,
     ds_runtime = \<lparr>rt_ttl = 60 * second, rt_queryTimeout = 5 * second, rt_exclude = [\<lparr>Suffix = True, Domain = ''lan''\<rparr>],
                   rt_shouldFake = None, rt_upstream = sample_upstream\<rparr>,
     ds_semaphore = 0, ds_stats = no_stats\<rparr>"

lemma sample_server_new:
  "new_dual_stack sample_dns_config (Some sample_pool) None [\<lparr>Suffix = True, Domain = ''lan''\<rparr>] (Some sample_upstream) = Inr sample_server"
  by (simp add: new_dual_stack_def Let_def sample_dns_config_def sample_server_def sample_pool_def sample_prefix_def)

lemma sample_server_inv: "dns_inv sample_server"
  by (rule new_dual_stack_inv [OF sample_server_new sample_inv]) simp

text \<open>The same server with a second pool, \<open>fd00::/125\<close>.\<close>

definition sample_prefix6 :: ipprefix where
  "sample_prefix6 = Pfx (V6 336294682933583715844663186250927177728 []) 125"

definition sample_pool6 :: pool where
  "sample_pool6 = \<lparr>p_prefix = sample_prefix6, mappingTTL = 60 * second,
     p_start = V6 336294682933583715844663186250927177729 [], p_end = V6 336294682933583715844663186250927177735 [],
     p_next = V6 336294682933583715844663186250927177729 [], capacity = 6, maxMappings = 3, byDomain = [],
     byAddress = [], pendingDeletes = [], persist_set = False, reclaimed = 0, exhaustions = 0, heap = []\<rparr>"

lemma sample_new6: "new_pool sample_prefix6 (60 * second) 3 1 = Inr sample_pool6"
proof -
  have "[125..<128] = [125, 126, 127 :: nat]" by (simp add: upt_rec)
  then show ?thesis
    by (simp add: new_pool_def sample_pool6_def sample_prefix6_def usable_capacity_def last_address_def host_bits_def
        set_bit_eq_or Let_def del: upt_Suc)
qed

lemma sample_inv6: "pool_inv sample_pool6"
  by (rule new_pool_inv [OF sample_new6]) (simp_all add: sample_prefix6_def pfx_wf_def)

lemma sample_range6: "in_pool sample_pool6 a \<Longrightarrow> \<not> is4in6 a"
proof (cases a)
  case (V6 w z)
  moreover assume "in_pool sample_pool6 a"
  ultimately have "65536 * 2 ^ 32 \<le> unat w" by (simp add: in_pool_def sample_pool6_def)
  then have "65535 < unat w div 2 ^ 32" by (simp add: less_eq_div_iff_mult_less_eq Suc_le_eq [symmetric])
  then have "unat (drop_bit 32 w) \<noteq> 65535" by (simp add: drop_bit_eq_div unat_div)
  then show ?thesis using V6 by auto
qed simp_all

lemma sample_answer6:
  obtains a p where "get_or_allocate 5 True ''example.com'' sample_pool6 = (Inr a, p)" "\<not> persist_set p"
proof -
  have e: "byDomain sample_pool6 = []" "persist_set sample_pool6 = False" by (simp_all add: sample_pool6_def)
  have n: "normalize ''example.com'' = Inr ''example.com''" using canonical_normalize [OF sample_canonical] .
  show ?thesis
    using sample_inv6 sample_canonical
  proof (cases rule: alloc_begin_cases [where now = 5])
    case (fresh a q)
    then show ?thesis using that e n fresh_alloc_result(9) [OF fresh(3) sample_inv6] by (simp add: get_or_allocate_def)
  qed (simp_all add: sample_pool6_def prune_locked_def)
qed

definition sample_server6 :: dns_server where
  "sample_server6 = sample_server\<lparr>ds_ipv6Pool := Some sample_pool6\<rparr>"

lemma sample_server6_inv: "dns_inv sample_server6"
proof -
  have "is6 (pfx_addr (p_prefix sample_pool6))" by code_simp
  then show ?thesis using sample_server_inv sample_inv6 by (simp add: sample_server6_def dns_inv_def pool_of_family_def)
qed

text \<open>
  C9: A Fake IP answer leads back to the name that was asked for, for A and AAAA queries alike: it carries
  the queried name, a time to live between one second and the largest the header holds, and an address
  of the queried family; and for a whole mapping lifetime a flow to that address acquires the mapping
  and gets exactly the normalized name of the query as its domain, also when literal destinations are
  allowed, whatever other queries, flows, releases, sweeps, flushes and failed journal writes the pool
  of that family sees between the answer and the flow.  The pool's counts are those of its flows when
  the query arrives, and its range holds no IPv4-mapped address, as no unique-local prefix does.
\<close>

theorem fake_answer_maps_back:
  assumes "dns_inv s" and "serve_dns now written sent [q] s = (Authoritative [rr], s')"
    and "asked_pool q s = Some p" and "\<forall>a. in_pool p a \<longrightarrow> \<not> is4in6 a"
    and "sys_inv \<lparr>sys_pool = p, owner = Idle, holds = h\<rparr>"
    and "asked_pool q s' = Some p'"
    and "steps_within now (now + mappingTTL p) \<lparr>sys_pool = p', owner = Idle, holds = h\<rparr> t"
    and "now' < now + mappingTTL p" and "flow_pool q ps = (Some (sys_pool t), p_prefix p)"
  shows "(q_Type q = type_A \<or> q_Type q = type_AAAA) \<and> rr_Name rr = q_Name q \<and> 1 \<le> rr_Ttl rr \<and> rr_Ttl rr < 2 ^ 32 \<and>
    (\<exists>d a r ps'. normalize (q_Name q) = Inr d \<and>
       record_address (if q_Type q = type_AAAA then TypeAAAA else TypeA) (rr_Data rr) = Some a \<and>
       (if q_Type q = type_AAAA then is6 a else is4 a) \<and>
       pools_acquire now' a ps = (Inr (d, Some r), ps'))"
  using assms(2)
proof (cases rule: fake_answer_origin)
  case (1 d a p0 p1)
  have p: "p0 = p" "p1 = p'" using 1(4,6) assms(3,6) by simp_all
  have d: "normalize d = Inr d" using canonical_normalize [OF normalize_canonical [OF 1(1)]] .
  note al = answer_outlives_sections [OF 1(5) [unfolded p] d assms(5,7,8)]
  have inv: "pool_inv p" using assms(5) by (simp add: sys_inv_def)
  note fam = family_addresses [OF inv al(2)]
  have fm: "if q_Type q = type_AAAA then is6 a else is4 a"
    using assms(1,3) fam(1,2) by (auto simp: asked_pool_def dns_inv_def pool_of_family_def split: if_splits)
  obtain r u where acq: "acquire now' a (sys_pool t) = (Inr (d, r), u)" using al(1) by blast
  have n4: "\<not> is4in6 a" using al(2) assms(4) by blast
  have "record_address (if q_Type q = type_AAAA then TypeAAAA else TypeA) (rr_Data rr) = Some a"
    using fm n4 fam(4) record_address_fake [of a] 1(3) by (auto simp: fake_record_def split: if_splits)
  moreover have "\<exists>ps'. pools_acquire now' a ps = (Inr (d, Some r), ps')"
    using acq assms(9) fm n4 fam(3)
    by (cases a) (auto simp: pools_acquire_def acquire_in_def flow_pool_def split: if_splits)
  ultimately show ?thesis using 1(1,2,3) fm ttl_seconds_range by (auto simp: fake_record_def)
qed

theorem fake_answer_maps_back_witness:
  "\<exists>rr s' p. serve_dns 5 True True [\<lparr>q_Name = ''Example.com.'', q_Type = type_AAAA\<rparr>] sample_server6 = (Authoritative [rr], s') \<and>
     ds_ipv6Pool s' = Some p \<and>
     (\<exists>d a r ps'. normalize ''Example.com.'' = Inr d \<and> record_address TypeAAAA (rr_Data rr) = Some a \<and> is6 a \<and>
       pools_acquire 8 a \<lparr>mp_IPv4 = None, mp_IPv6 = Some (snd (prune 7 (snd (alloc_begin 6 ''example.org'' p)))),
         mp_IPv4Prefix = NoPrefix, mp_IPv6Prefix = sample_prefix6, mp_AllowLiteral = True\<rparr> = (Inr (d, Some r), ps'))"
proof -
  let ?q = "\<lparr>q_Name = ''Example.com.'', q_Type = type_AAAA\<rparr>"
  obtain a p where g: "get_or_allocate 5 True ''example.com'' sample_pool6 = (Inr a, p)" and np: "\<not> persist_set p"
    by (rule sample_answer6)
  let ?rr = "fake_record ''Example.com.'' type_AAAA (60 * second) a" and ?s = "snd (serve_dns 5 True True [?q] sample_server6)"
  let ?t0 = "\<lparr>sys_pool = p, owner = Idle, holds = {#}\<rparr>"
  let ?t1 = "?t0\<lparr>sys_pool := snd (alloc_begin 6 ''example.org'' p)\<rparr>"
  let ?t2 = "?t1\<lparr>sys_pool := snd (prune 7 (sys_pool ?t1))\<rparr>"
  have n: "normalize (q_Name ?q) = Inr ''example.com''" by code_simp
  have ex: "\<not> excluded (rt_exclude (ds_runtime sample_server6)) ''example.com''" by code_simp
  have "fst (serve_dns 5 True True [?q] sample_server6) = Authoritative [?rr]" "ds_ipv6Pool ?s = Some p"
    using ex g
    by (simp_all add: serve_dns_def serve_admitted_def answer_local_def n [simplified] sample_server6_def sample_server_def
        sample_dns_config_def Let_def)
  then have run: "serve_dns 5 True True [?q] sample_server6 = (Authoritative [?rr], ?s)" "asked_pool ?q ?s = Some p"
    by (simp_all add: prod_eq_iff asked_pool_def)
  have inv: "sys_inv \<lparr>sys_pool = sample_pool6, owner = Idle, holds = {#}\<rparr>"
    using sample_inv6 by (simp add: sys_inv_def refs_inv_def sample_pool6_def)
  have "pool_inv p" using get_or_allocate_inv [OF sample_inv6, of 5 True "''example.com''"] g by simp
  then have "\<not> is_persist (fst (alloc_begin 6 ''example.org'' p))"
    by (cases rule: alloc_begin_cases [where now = 6 and d = "''example.org''"]) (use np in \<open>auto, code_simp\<close>)
  then have st: "pool_step 6 ?t0 ?t1"
    by (intro alloc_done [of _ "''example.org''" "''example.org''" _ "fst (alloc_begin 6 ''example.org'' p)"]) (simp_all, code_simp)
  have steps: "steps_within 5 (5 + mappingTTL sample_pool6) ?t0 ?t2"
    by (rule more [OF more [OF none st] prune_step]) (simp_all add: sample_pool6_def)
  show ?thesis
    using fake_answer_maps_back [OF sample_server6_inv run(1) _ _ inv run(2) steps, of 8] run sample_range6
    by (fastforce simp: asked_pool_def flow_pool_def sample_server6_def sample_pool6_def)
qed

text \<open>
  C10: The policy decides who answers.  A query for a well-formed name is selected when it asks for an IPv4
  or IPv6 address, no exclusion covers the name (label by label), and, when the data plane's rules
  decide, some rule with domain or domain-suffix predicates accepts the name.  A selected query is
  answered from the pool of its family alone, without any upstream, and leaves the other pool as it
  was; any other query is answered by the upstream alone and leaves both pools as they were; without
  a free slot the query fails and changes neither pool.
\<close>

theorem policy_separates:
  assumes "normalize (q_Name q) = Inr d" and "serve_dns now written sent [q] s = (resp, s')"
    and "rt_shouldFake (ds_runtime s) = map_option requires_fake_ip eng"
    and "eng = None \<or> new_engine rs = Inr (the eng)"
  shows "let selected = ((q_Type q = type_A \<or> q_Type q = type_AAAA) \<and>
           list_all (\<lambda>p. if Suffix p then \<not> suffix (labels (Domain p)) (labels d) else d \<noteq> Domain p)
             (rt_exclude (ds_runtime s)) \<and>
           (eng = None \<or> (\<exists>r \<in> set rs. (Domains r \<noteq> [] \<or> DomainSuffixes r \<noteq> []) \<and> rule_domain_ok r d)))
     in if dc_MaxConcurrent (ds_config s) \<le> int (ds_semaphore s)
        then resp = Rcode RcodeServerFailure \<and> ds_ipv4Pool s' = ds_ipv4Pool s \<and> ds_ipv6Pool s' = ds_ipv6Pool s
        else if \<not> selected
        then resp = (case rt_upstream (ds_runtime s) [q] of
                       Inr (Some m) \<Rightarrow> Forwarded m | _ \<Rightarrow> Rcode RcodeServerFailure) \<and>
             ds_ipv4Pool s' = ds_ipv4Pool s \<and> ds_ipv6Pool s' = ds_ipv6Pool s
        else resp = (case asked_pool q s of
                       None \<Rightarrow> Authoritative []
                     | Some p \<Rightarrow> (case fst (get_or_allocate now written d p) of
                           Inl e \<Rightarrow> Rcode RcodeServerFailure
                         | Inr a \<Rightarrow> Authoritative [fake_record (q_Name q) (q_Type q) (rt_ttl (ds_runtime s)) a])) \<and>
             asked_pool q s' = map_option (\<lambda>p. snd (get_or_allocate now written d p)) (asked_pool q s) \<and>
             (if q_Type q = type_AAAA then ds_ipv4Pool s' = ds_ipv4Pool s else ds_ipv6Pool s' = ds_ipv6Pool s)"
proof -
  have "normalize d = Inr d" using canonical_normalize [OF normalize_canonical [OF assms(1)]] .
  then have "(case rt_shouldFake (ds_runtime s) of None \<Rightarrow> True | Some g \<Rightarrow> g d) \<longleftrightarrow>
      eng = None \<or> (\<exists>r \<in> set rs. (Domains r \<noteq> [] \<or> DomainSuffixes r \<noteq> []) \<and> rule_domain_ok r d)"
    using assms(3,4) requires_fake_ip_iff [of rs "the eng" d] by (cases eng) auto
  moreover have "excluded (rt_exclude (ds_runtime s)) d \<longleftrightarrow>
      \<not> list_all (\<lambda>p. if Suffix p then \<not> suffix (labels (Domain p)) (labels d) else d \<noteq> Domain p) (rt_exclude (ds_runtime s))"
    by (auto simp: excluded_iff list_all_iff split: if_splits)
  ultimately show ?thesis
    using serve_policy [OF assms(1,2) refl refl refl] unfolding Let_def by (simp add: not_less)
qed

theorem policy_separates_witness:
  "ds_ipv4Pool (snd (serve_dns 5 True True [\<lparr>q_Name = ''printer.lan'', q_Type = type_A\<rparr>] sample_server)) = sample_pool \<and>
   fst (serve_dns 5 True True [\<lparr>q_Name = ''printer.lan'', q_Type = type_A\<rparr>] sample_server) =
     Forwarded \<lparr>msg_Rcode = 0, msg_Truncated = False, msg_Answer = []\<rparr>"
proof -
  let ?q = "\<lparr>q_Name = ''printer.lan'', q_Type = type_A\<rparr>"
  obtain resp s' where run: "serve_dns 5 True True [?q] sample_server = (resp, s')" by (cases "serve_dns 5 True True [?q] sample_server")
  have n: "normalize (q_Name ?q) = Inr ''printer.lan''" "suffix (labels ''lan'') (labels ''printer.lan'')" by code_simp+
  show ?thesis
    using policy_separates [OF n(1) run, of None] run n(2) by (simp add: sample_server_def sample_dns_config_def sample_upstream_def)
qed

text \<open>
  C35: Every query gets exactly one response and is counted once, as a failure, a Fake IP answer, an
  empty answer or a forwarded one; the concurrency slot is given back, the server's invariant (pool
  invariants, families, a positive time to live, Fake answers equal to the sum of both families)
  is kept, and neither a query nor a reload disturbs the other parts of the server.
\<close>

theorem query_accounted:
  assumes "dns_inv s" and "serve_dns now written sent questions s = (resp, s')"
  shows "dns_inv s' \<and> dns_inv (snd (reload_policy ttl timeout excl f up s)) \<and>
    ds_semaphore s' = ds_semaphore s \<and> ds_runtime s' = ds_runtime s \<and>
    sv_queries (ds_stats s') = sv_queries (ds_stats s) + 1 \<and>
    sv_failures (ds_stats s') = sv_failures (ds_stats s) + (if (\<exists>c. resp = Rcode c) \<or> \<not> sent then 1 else 0) \<and>
    sv_forwarded (ds_stats s') = sv_forwarded (ds_stats s) + (if \<exists>m. resp = Forwarded m then 1 else 0) \<and>
    sv_nodataAnswers (ds_stats s') = sv_nodataAnswers (ds_stats s) + (if resp = Authoritative [] then 1 else 0) \<and>
    sv_fakeAnswers (ds_stats s') = sv_fakeAnswers (ds_stats s) + (if \<exists>rr. resp = Authoritative [rr] then 1 else 0)"
proof -
  have inv: "dns_inv s'" "dns_inv (snd (reload_policy ttl timeout excl f up s))"
    using serve_dns_inv [OF assms(1), of now written sent questions] assms reload_policy_inv by simp_all
  show ?thesis using inv assms(2)
    by (auto simp: serve_dns_def serve_admitted_def Let_def write_failure_def count_failure_def forward_def answer_local_def
        split: if_splits list.splits sum.splits option.splits prod.splits)
qed

theorem query_accounted_witness:
  "dns_inv (snd (serve_dns 5 True True [] sample_server)) \<and> ds_semaphore (snd (serve_dns 5 True True [] sample_server)) = 0"
  using query_accounted [OF sample_server_inv, of 5 True True "[]"]
  by (cases "serve_dns 5 True True [] sample_server") (auto simp: sample_server_def)

text \<open>
  C36: Starting the DNS server is all or nothing: it ends with exactly the configured listeners, each on
  the configured address, or with an error and every socket it had bound closed again.
\<close>

theorem start_all_or_nothing:
  shows "case start_server c udp_bind tcp_bind exits late of
      (Inr ls, closed) \<Rightarrow> closed = [] \<and> (ln_UDP ls \<noteq> None) = dc_UDP c \<and> (ln_TCP ls \<noteq> None) = dc_TCP c \<and>
        list_all (\<lambda>l. case l of None \<Rightarrow> True | Some t \<Rightarrow> parse_addrport t = Some (dc_Listen c)) [ln_UDP ls, ln_TCP ls] \<and>
        list_all (\<lambda>p. exits p = None) (close_listeners ls) \<and> late = None
    | (Inl e, closed) \<Rightarrow>
        (dc_UDP c \<and> is_ok udp_bind \<longrightarrow> OverUDP \<in> set closed) \<and>
        (dc_TCP c \<and> is_ok tcp_bind \<and> (dc_UDP c \<longrightarrow> is_ok udp_bind) \<longrightarrow> OverTCP \<in> set closed)"
proof (cases "bind_if (dc_UDP c) udp_bind")
  case (Inl e)
  then show ?thesis by (auto simp: start_server_def bind_if_def is_ok_def split: if_splits sum.splits)
next
  case u: (Inr u)
  show ?thesis
  proof (cases "bind_if (dc_TCP c) tcp_bind")
    case (Inl e)
    then show ?thesis using u bind_if_ok [OF u]
      by (auto simp: start_server_def bind_if_def is_ok_def split: if_splits sum.splits)
  next
    case t: (Inr t)
    let ?ls = "\<lparr>ln_UDP = u, ln_TCP = t\<rparr>"
    obtain r closed where run: "start_with_listeners c ?ls exits late = (r, closed)" by fastforce
    show ?thesis
    proof (cases r)
      case (Inl e)
      then show ?thesis using run u t bind_if_ok [OF u] bind_if_ok [OF t]
        by (auto simp: start_server_def close_listeners_def)
    next
      case (Inr ls')
      then show ?thesis using start_with_listeners_ok [OF run Inr] run u t
        by (simp add: start_server_def validate_listener_ok map_filter_Nil)
    qed
  qed
qed

theorem start_all_or_nothing_witness:
  "case start_server sample_dns_config (Inr ''127.0.0.1:53'') (Inl (Errno 48)) (\<lambda>p. None) None of
      (Inr ls, closed) \<Rightarrow> False
    | (Inl e, closed) \<Rightarrow> OverUDP \<in> set closed"
  using start_all_or_nothing [of sample_dns_config "Inr ''127.0.0.1:53''" "Inl (Errno 48)" "\<lambda>p. None" None]
  by (auto simp: sample_dns_config_def start_server_def bind_if_def)

end
