(* ===== verification/Fakeip_Persistence.thy ===== *)
theory Fakeip_Persistence
  imports Fakeip_Pool Netip_Text Outbound
begin

text \<open>
  \<open>internal/fakeip/persistence.go\<close>: the snapshot file and the write-ahead journal of a Fake IP pool.

  A file is what \<open>Lstat\<close> and reading find: nothing, an error, or a mode, an owner and bytes.  The JSON
  and YAML libraries are an argument, the record \<open>codecs\<close>: \<open>decRecord\<close> and \<open>decSnapshot\<close> include the
  rejection of unknown fields and of trailing values.  Outcomes of system calls and of the random
  source are arguments as well, as is the effective user \<open>euid\<close>.
  Temporary files, which only exist inside \<open>writeSnapshot\<close>, and the names of quarantined files are
  not part of the disk.
\<close>

section \<open>Files and records\<close>

record file_stat =
  fs_regular :: bool          \<comment> \<open>a regular file; \<open>Lstat\<close> reports a symbolic link as something else\<close>
  fs_perm :: "32 word"
  fs_uid :: int

datatype disk_file = Missing | LstatFails goerr | File file_stat string

record pdisk =
  f_snapshot :: disk_file
  f_journal :: disk_file

record journal_record =
  j_Version :: int
  j_Prefix :: string
  j_Epoch :: string
  j_RecordedAt :: gotime
  j_Removed :: "string list"
  j_Mapping :: mapping_rec

record codecs =
  encRecord :: "journal_record \<Rightarrow> goerr + string"
  decRecord :: "string \<Rightarrow> journal_record option"
  encSnapshot :: "snapshot \<Rightarrow> string"
  decSnapshot :: "string \<Rightarrow> snapshot option"

datatype persist_error = Fatal goerr | Corrupt string

definition maxPersistenceSize :: nat where "maxPersistenceSize = 16777216"
definition maxJournalRecordSize :: nat where "maxJournalRecordSize = 4096"

abbreviation newline :: char where "newline \<equiv> CHR 0x0A"


text \<open>\<open>newJournalEpoch\<close> on the sixteen bytes of the random source, or its failure.\<close>

definition hex_encode :: "string \<Rightarrow> string" where
  "hex_encode bs = concat (map (\<lambda>c. [hex_char (byte c div 16), hex_char (byte c mod 16)]) bs)"

definition new_journal_epoch :: "goerr + string \<Rightarrow> goerr + string" where
  "new_journal_epoch random =
     (case random of
        Inl e \<Rightarrow> Inl (Wrapped ''generate Fake IP journal epoch'' e)
      | Inr bs \<Rightarrow> Inr (hex_encode (take 16 bs)))"


section \<open>Reading\<close>

text \<open>What \<open>readSnapshot\<close> and \<open>inspectJournal\<close> demand of a file before they trust it.\<close>

definition private_file :: "int \<Rightarrow> file_stat \<Rightarrow> goerr option" where
  "private_file euid st =
     (if \<not> fs_regular st then Some (Opaque ''not a regular file'')
      else if fs_perm st AND 63 \<noteq> 0 then Some (Opaque ''permissions, want 0600 or stricter'')
      else if fs_uid st \<noteq> euid then Some (Opaque ''not owned by UID'')
      else None)"

text \<open>
  Outcomes of opening and reading a file: \<open>None\<close> is success; \<open>rd_changed\<close> says that the bytes read are
  not as many as \<open>Lstat\<close> reported.
\<close>

record read_io =
  rd_open :: "goerr option"
  rd_read :: "goerr option"
  rd_close :: "goerr option"
  rd_changed :: bool

text \<open>\<open>readSnapshot\<close>: no snapshot, an error, or the decoded document.\<close>

definition read_snapshot ::
  "int \<Rightarrow> codecs \<Rightarrow> read_io \<Rightarrow> disk_file \<Rightarrow> persist_error + snapshot option" where
  "read_snapshot euid k io f =
     (case f of
        Missing \<Rightarrow> Inr None
      | LstatFails e \<Rightarrow> Inl (Fatal (Wrapped ''inspect persistence file'' e))
      | File st c \<Rightarrow>
          (case private_file euid st of
             Some e \<Rightarrow> Inl (Fatal e)
           | None \<Rightarrow>
               if maxPersistenceSize < length c then Inl (Corrupt ''file exceeds the size limit'')
               else
                 (case rd_open io of
                    Some e \<Rightarrow> Inl (Fatal (Wrapped ''open persistence file'' e))
                  | None \<Rightarrow>
                      (case rd_read io of
                         Some e \<Rightarrow> Inl (Corrupt ''read'')
                       | None \<Rightarrow> (case decSnapshot k c of None \<Rightarrow> Inl (Corrupt ''yaml'') | Some s \<Rightarrow> Inr (Some s))))))"

definition inspect_journal :: "int \<Rightarrow> disk_file \<Rightarrow> persist_error + bool \<times> nat" where
  "inspect_journal euid f =
     (case f of
        Missing \<Rightarrow> Inr (False, 0)
      | LstatFails e \<Rightarrow> Inl (Fatal (Wrapped ''inspect Fake IP journal'' e))
      | File st c \<Rightarrow>
          (case private_file euid st of
             Some e \<Rightarrow> Inl (Fatal e)
           | None \<Rightarrow>
               if maxPersistenceSize < length c then Inl (Corrupt ''journal exceeds the size limit'')
               else Inr (True, length c)))"

definition file_bytes :: "disk_file \<Rightarrow> string" where
  "file_bytes f = (case f of File _ c \<Rightarrow> c | _ \<Rightarrow> [])"

text \<open>The loop over the lines: the records up to the first one that is not acceptable.\<close>

fun decode_lines :: "codecs \<Rightarrow> string list \<Rightarrow> journal_record list \<times> persist_error option" where
  "decode_lines k [] = ([], None)"
| "decode_lines k (line # lines) =
     (if line = [] \<or> maxJournalRecordSize < length line + 1 then ([], Some (Corrupt ''journal record has invalid size''))
      else case decRecord k line of
          None \<Rightarrow> ([], Some (Corrupt ''decode journal record''))
        | Some r \<Rightarrow> (case decode_lines k lines of (rs, e) \<Rightarrow> (r # rs, e)))"

text \<open>The records in the bytes of a journal; an incomplete last line is cut off and reported.\<close>

definition complete_part :: "string \<Rightarrow> string" where
  "complete_part c =
     (if last c = newline then c
      else case last_index_of newline c of None \<Rightarrow> [] | Some i \<Rightarrow> take (Suc i) c)"

definition parse_journal :: "codecs \<Rightarrow> string \<Rightarrow> journal_record list \<times> persist_error option" where
  "parse_journal k c =
     (if c = [] then ([], None)
      else
        (let tail = (if last c = newline then None else Some (Corrupt ''journal ends with an incomplete record''));
             complete = complete_part c
         in if complete = [] then ([], tail)
            else case decode_lines k (split_on newline (butlast complete)) of
                (rs, Some e) \<Rightarrow> (rs, Some e)
              | (rs, None) \<Rightarrow> (rs, tail)))"

definition read_journal ::
  "int \<Rightarrow> codecs \<Rightarrow> read_io \<Rightarrow> disk_file \<Rightarrow> journal_record list \<times> persist_error option" where
  "read_journal euid k io f =
     (case inspect_journal euid f of
        Inl e \<Rightarrow> ([], Some e)
      | Inr (present, sz) \<Rightarrow>
          if \<not> present then ([], None)
          else
            (case rd_open io of
               Some e \<Rightarrow> ([], Some (Fatal (Wrapped ''open Fake IP journal'' e)))
             | None \<Rightarrow>
                 (case rd_read io of
                    Some e \<Rightarrow> ([], Some (Fatal (Wrapped ''read Fake IP journal'' e)))
                  | None \<Rightarrow>
                      (case rd_close io of
                         Some e \<Rightarrow> ([], Some (Fatal (Wrapped ''close Fake IP journal'' e)))
                       | None \<Rightarrow>
                           if rd_changed io then ([], Some (Corrupt ''journal changed while it was being read''))
                           else parse_journal k (file_bytes f)))))"

text \<open>\<open>activeJournalRecords\<close>: the records that extend the snapshot, and the epoch to go on with.\<close>

fun active_loop ::
  "bool \<Rightarrow> string \<Rightarrow> journal_record list \<Rightarrow> string \<Rightarrow> journal_record list \<Rightarrow> goerr + journal_record list \<times> string" where
  "active_loop skip pfx [] wanted acc = Inr (acc, wanted)"
| "active_loop skip pfx (r # rs) wanted acc =
     (if j_Version r \<noteq> persistenceVersion then Inl (Opaque ''journal record version'')
      else if j_Prefix r \<noteq> pfx then Inl (Opaque ''journal record prefix'')
      else if \<not> valid_journal_epoch (j_Epoch r) then Inl (Opaque ''journal record epoch'')
      else if j_RecordedAt r = 0 then Inl (Opaque ''journal record timestamp'')
      else
        (let wanted' = (if wanted = [] then j_Epoch r else wanted)
         in if skip \<and> j_Epoch r \<noteq> wanted' then active_loop skip pfx rs wanted' acc
            else if j_Epoch r \<noteq> wanted' then Inl (Opaque ''journal contains mixed epochs'')
            else active_loop skip pfx rs wanted' (acc @ [r])))"

definition active_journal_records ::
  "journal_record list \<Rightarrow> snapshot option \<Rightarrow> string \<Rightarrow> goerr + journal_record list \<times> string" where
  "active_journal_records rs snap pfx =
     (case snap of
        None \<Rightarrow> if rs \<noteq> [] then Inl (Opaque ''Fake IP journal requires a valid snapshot'') else Inr ([], [])
      | Some s \<Rightarrow>
          if s_JournalEpoch s \<noteq> [] \<and> \<not> valid_journal_epoch (s_JournalEpoch s)
          then Inl (Opaque ''snapshot journal epoch is invalid'')
          else active_loop (s_JournalEpoch s \<noteq> []) pfx rs (s_JournalEpoch s) [])"


section \<open>Writing\<close>

definition journal_record_of :: "string \<Rightarrow> string \<Rightarrow> persistence_update \<Rightarrow> journal_record" where
  "journal_record_of pfx epoch u =
     \<lparr>j_Version = persistenceVersion, j_Prefix = pfx, j_Epoch = epoch, j_RecordedAt = u_RecordedAt u,
      j_Removed = u_Removed u, j_Mapping = u_Mapping u\<rparr>"

text \<open>
  \<open>writeAll\<close>: the answers of successive \<open>Write\<close> calls are an argument; the result is the error and the
  bytes that reached the file.
\<close>

function write_all :: "(nat \<Rightarrow> nat \<times> goerr option) \<Rightarrow> nat \<Rightarrow> string \<Rightarrow> goerr option \<times> string" where
  "write_all w i contents =
     (if contents = [] then (None, [])
      else
        (case w i of
           (n, Some e) \<Rightarrow> (Some e, take n contents)
         | (n, None) \<Rightarrow>
             if n = 0 then (Some (Opaque ''short write''), [])
             else (case write_all w (Suc i) (drop n contents) of (e, out) \<Rightarrow> (e, take n contents @ out))))"
  by pat_completeness auto

termination
  by (relation "measure (\<lambda>(w, i, contents). length contents)") (auto simp: neq_Nil_conv)

declare write_all.simps [simp del]

text \<open>
  Outcomes of the system calls of one append: \<open>None\<close> is success, \<open>ap_truncate\<close> says whether the
  rollback took effect.
\<close>

record append_io =
  ap_open :: "goerr option"
  ap_chmod :: "goerr option"
  ap_write :: "nat \<Rightarrow> nat \<times> goerr option"
  ap_sync :: "goerr option"
  ap_truncate :: bool
  ap_close :: "goerr option"
  ap_dirsync :: "goerr option"

datatype append_result = Appended | NeedCheckpoint | AppendFailed persist_error

text \<open>The mode of the files the code creates, and a file after new bytes were written to it.\<close>

definition created_stat :: "int \<Rightarrow> file_stat" where
  "created_stat euid = \<lparr>fs_regular = True, fs_perm = 384, fs_uid = euid\<rparr>"

definition with_bytes :: "int \<Rightarrow> disk_file \<Rightarrow> string \<Rightarrow> disk_file" where
  "with_bytes euid f c = (case f of File st _ \<Rightarrow> File st c | _ \<Rightarrow> File (created_stat euid) c)"

text \<open>\<open>record\<close> on the opened file.\<close>

definition append_opened :: "int \<Rightarrow> append_io \<Rightarrow> bool \<Rightarrow> string \<Rightarrow> disk_file \<Rightarrow> append_result \<times> disk_file" where
  "append_opened euid io present line f =
     (let old = file_bytes f; put = with_bytes euid f
      in case (if present then None else ap_chmod io) of
           Some e \<Rightarrow> (AppendFailed (Fatal (Wrapped ''chmod Fake IP journal'' e)), put old)
         | None \<Rightarrow>
             (case write_all (ap_write io) 0 line of
                (Some e, out) \<Rightarrow>
                  (AppendFailed (Fatal (Wrapped ''append Fake IP journal'' e)),
                   put (if ap_truncate io then old else old @ out))
              | (None, out) \<Rightarrow>
                  (case ap_sync io of
                     Some e \<Rightarrow>
                       (AppendFailed (Fatal (Wrapped ''sync Fake IP journal'' e)),
                        put (if ap_truncate io then old else old @ out))
                   | None \<Rightarrow>
                       (case ap_close io of
                          Some e \<Rightarrow> (AppendFailed (Fatal (Wrapped ''close Fake IP journal'' e)), put (old @ out))
                        | None \<Rightarrow>
                            (case (if present then None else ap_dirsync io) of
                               Some e \<Rightarrow>
                                 (AppendFailed (Fatal (Wrapped ''sync Fake IP journal directory'' e)), put (old @ out))
                             | None \<Rightarrow> (Appended, put (old @ out)))))))"

text \<open>\<open>record\<close> up to the decision to write a checkpoint instead.\<close>

definition append_record :: "int \<Rightarrow> codecs \<Rightarrow> append_io \<Rightarrow> journal_record \<Rightarrow> disk_file \<Rightarrow> append_result \<times> disk_file" where
  "append_record euid k io r f =
     (case encRecord k r of
        Inl e \<Rightarrow> (AppendFailed (Fatal (Wrapped ''encode Fake IP journal record'' e)), f)
      | Inr encoded \<Rightarrow>
          if maxJournalRecordSize < length encoded + 1 then (NeedCheckpoint, f)
          else
            (case inspect_journal euid f of
               Inl e \<Rightarrow> (AppendFailed e, f)
             | Inr (present, sz) \<Rightarrow>
                 if maxPersistenceSize < sz + (length encoded + 1) then (NeedCheckpoint, f)
                 else
                   (case ap_open io of
                      Some e \<Rightarrow> (AppendFailed (Fatal (Wrapped ''open Fake IP journal'' e)), f)
                    | None \<Rightarrow> append_opened euid io present (encoded @ [newline]) f)))"

text \<open>\<open>validateTarget\<close>: unlike the readers it does not look at permissions and owner.\<close>

definition validate_target :: "disk_file \<Rightarrow> goerr option" where
  "validate_target f =
     (case f of
        Missing \<Rightarrow> None
      | LstatFails e \<Rightarrow> Some (Wrapped ''inspect persistence target'' e)
      | File st c \<Rightarrow> if fs_regular st then None else Some (Opaque ''persistence target is not a regular file''))"

text \<open>
  \<open>checkpoint\<close>: the snapshot is replaced by an atomic rename, then the epoch changes, then the journal
  is removed.  \<open>ck_prepare\<close> lists the outcomes of the steps before the rename (create, chmod, encode,
  close the encoder, sync, close) and the rename itself; \<open>ck_dirsync\<close> follows it; \<open>ck_remove\<close> and
  \<open>ck_cleardir\<close> are the steps of clearing the journal.
\<close>

record checkpoint_io =
  ck_random :: "goerr + string"
  ck_prepare :: "goerr option list"
  ck_dirsync :: "goerr option"
  ck_remove :: "goerr option"
  ck_cleardir :: "goerr option"

fun first_error :: "goerr option list \<Rightarrow> goerr option" where
  "first_error [] = None"
| "first_error (Some e # es) = Some e"
| "first_error (None # es) = first_error es"

definition write_snapshot ::
  "int \<Rightarrow> codecs \<Rightarrow> checkpoint_io \<Rightarrow> snapshot \<Rightarrow> disk_file \<Rightarrow> goerr option \<times> disk_file" where
  "write_snapshot euid k io s f =
     (case validate_target f of
        Some e \<Rightarrow> (Some e, f)
      | None \<Rightarrow>
          (case first_error (ck_prepare io) of
             Some e \<Rightarrow> (Some e, f)
           | None \<Rightarrow> (ck_dirsync io, File (created_stat euid) (encSnapshot k s))))"

definition clear_journal :: "checkpoint_io \<Rightarrow> disk_file \<Rightarrow> goerr option \<times> disk_file" where
  "clear_journal io f =
     (case validate_target f of
        Some e \<Rightarrow> (Some e, f)
      | None \<Rightarrow>
          if f = Missing then (None, f)
          else (case ck_remove io of Some e \<Rightarrow> (Some e, f) | None \<Rightarrow> (ck_cleardir io, Missing)))"

definition checkpoint ::
  "int \<Rightarrow> codecs \<Rightarrow> checkpoint_io \<Rightarrow> snapshot \<Rightarrow> string \<Rightarrow> pdisk \<Rightarrow> goerr option \<times> string \<times> pdisk" where
  "checkpoint euid k io snap epoch0 d =
     (case new_journal_epoch (ck_random io) of
        Inl e \<Rightarrow> (Some e, epoch0, d)
      | Inr epoch \<Rightarrow>
          (case write_snapshot euid k io (snap\<lparr>s_JournalEpoch := epoch\<rparr>) (f_snapshot d) of
             (Some e, f) \<Rightarrow> (Some e, epoch0, d\<lparr>f_snapshot := f\<rparr>)
           | (None, f) \<Rightarrow>
               (case clear_journal io (f_journal d) of
                  (e, g) \<Rightarrow> (e, epoch, d\<lparr>f_snapshot := f, f_journal := g\<rparr>))))"

text \<open>\<open>record\<close> as a whole: an append, or a checkpoint of the current pool when the record does not fit.\<close>

definition persist_record ::
  "int \<Rightarrow> codecs \<Rightarrow> append_io \<Rightarrow> checkpoint_io \<Rightarrow> string \<Rightarrow> persistence_update \<Rightarrow> snapshot \<Rightarrow>
   string \<Rightarrow> pdisk \<Rightarrow> persist_error option \<times> string \<times> pdisk" where
  "persist_record euid k aio cio pfx u current epoch d =
     (case append_record euid k aio (journal_record_of pfx epoch u) (f_journal d) of
        (Appended, f) \<Rightarrow> (None, epoch, d\<lparr>f_journal := f\<rparr>)
      | (AppendFailed e, f) \<Rightarrow> (Some e, epoch, d\<lparr>f_journal := f\<rparr>)
      | (NeedCheckpoint, f) \<Rightarrow>
          (case checkpoint euid k cio current epoch d of
             (e, epoch', d') \<Rightarrow> (map_option Fatal e, epoch', d')))"


text \<open>
  \<open>flushPersistence\<close> (and \<open>Flush\<close>) as its caller sees it when no other section runs during the write.
\<close>

definition flush_persistence ::
  "int \<Rightarrow> codecs \<Rightarrow> checkpoint_io \<Rightarrow> gotime \<Rightarrow> pool \<Rightarrow> string \<Rightarrow> pdisk \<Rightarrow> goerr option \<times> pool \<times> string \<times> pdisk" where
  "flush_persistence euid k io now p epoch d =
     (if \<not> persist_set p then (None, p, epoch, d)
      else
        (let snap = snapshot_locked now p; removed = map fst (pendingDeletes p)
         in case checkpoint euid k io snap epoch d of
              (Some e, epoch', d') \<Rightarrow> (Some e, p, epoch', d')
            | (None, epoch', d') \<Rightarrow> (None, forget_deletes removed p, epoch', d')))"


section \<open>Opening\<close>

text \<open>\<open>quarantine\<close> renames a file away; \<open>None\<close> is success.\<close>

record open_io =
  oi_snapshot :: read_io
  oi_journal :: read_io
  oi_quarantineSnapshot :: "goerr option"
  oi_quarantineJournal :: "goerr option"
  oi_random :: "goerr + string"
  oi_checkpoint :: checkpoint_io

definition update_of :: "journal_record \<Rightarrow> persistence_update" where
  "update_of r = \<lparr>u_RecordedAt = j_RecordedAt r, u_Removed = j_Removed r, u_Mapping = j_Mapping r\<rparr>"

text \<open>The snapshot part: the pool, the snapshot if it is in force, and the disk.\<close>

definition open_snapshot ::
  "int \<Rightarrow> codecs \<Rightarrow> open_io \<Rightarrow> gotime \<Rightarrow> duration \<Rightarrow> pool \<Rightarrow> pdisk \<Rightarrow>
   goerr + pool \<times> snapshot option \<times> pdisk" where
  "open_snapshot euid k io now window p d =
     (case read_snapshot euid k (oi_snapshot io) (f_snapshot d) of
        Inl (Fatal e) \<Rightarrow> Inl e
      | Inl (Corrupt m) \<Rightarrow>
          (case oi_quarantineSnapshot io of
             Some e \<Rightarrow> Inl (Joined [Opaque m, e]) | None \<Rightarrow> Inr (p, None, d\<lparr>f_snapshot := Missing\<rparr>))
      | Inr None \<Rightarrow> Inr (p, None, d)
      | Inr (Some s) \<Rightarrow>
          (case restore now s window p of
             Inr q \<Rightarrow> Inr (q, Some s, d)
           | Inl e \<Rightarrow>
               (case oi_quarantineSnapshot io of
                  Some qe \<Rightarrow> Inl (Joined [Opaque ''invalid Fake IP persistence'', qe])
                | None \<Rightarrow> Inr (p, None, d\<lparr>f_snapshot := Missing\<rparr>))))"

text \<open>
  The journal part: the pool after replay, the epoch (empty if a new one is needed), whether a
  checkpoint is needed, and the disk.  An unacceptable journal is quarantined once.
\<close>

definition open_journal ::
  "int \<Rightarrow> codecs \<Rightarrow> open_io \<Rightarrow> gotime \<Rightarrow> duration \<Rightarrow> pool \<Rightarrow> snapshot option \<Rightarrow> pdisk \<Rightarrow>
   goerr + pool \<times> string \<times> bool \<times> pdisk" where
  "open_journal euid k io now window p snap d =
     (case read_journal euid k (oi_journal io) (f_journal d) of
        (_, Some (Fatal e)) \<Rightarrow> Inl e
      | (rs, err) \<Rightarrow>
          (if err \<noteq> None \<and> oi_quarantineJournal io \<noteq> None
           then Inl (Joined [Opaque ''corrupt'', the (oi_quarantineJournal io)])
           else
             (let d1 = (if err = None then d else d\<lparr>f_journal := Missing\<rparr>);
                  replay =
                    (case active_journal_records rs snap (pfx_string (p_prefix p)) of
                       Inl e \<Rightarrow> Inl e
                     | Inr (active, epoch) \<Rightarrow>
                         if active = [] then Inr (p, epoch)
                         else (case restore_journal now (map update_of active) window p of
                                 Inl e \<Rightarrow> Inl (Opaque ''journal'') | Inr q \<Rightarrow> Inr (q, epoch)))
              in case replay of
                   Inr (q, epoch) \<Rightarrow> Inr (q, epoch, err \<noteq> None, d1)
                 | Inl e \<Rightarrow>
                     if err = None \<and> oi_quarantineJournal io \<noteq> None
                     then Inl (Joined [Wrapped ''invalid Fake IP journal'' e, the (oi_quarantineJournal io)])
                     else Inr (p, [], True, d1\<lparr>f_journal := Missing\<rparr>))))"

text \<open>
  \<open>OpenPersistence\<close>: the pool with persistence installed, the epoch and the disk.  One clock value \<open>now\<close> stands
  for all the readings of one call.
\<close>

definition open_persistence ::
  "int \<Rightarrow> codecs \<Rightarrow> open_io \<Rightarrow> gotime \<Rightarrow> string \<Rightarrow> duration \<Rightarrow> pool \<Rightarrow> pdisk \<Rightarrow> goerr + pool \<times> string \<times> pdisk" where
  "open_persistence euid k io now path window p d =
     (if \<not> clean_absolute_path path then Inl (Opaque ''persistence path must be a clean absolute path'')
      else if window < 0 then Inl (Opaque ''persistence protection window cannot be negative'')
      else
        bindE (open_snapshot euid k io now window p d) (\<lambda>(q, snap, d1).
        bindE (open_journal euid k io now window q snap d1) (\<lambda>(q2, epoch, needs, d2).
        bindE (if epoch = [] then new_journal_epoch (oi_random io) else Inr epoch) (\<lambda>epoch1.
          if snap = None \<or> needs
          then (case checkpoint euid k (oi_checkpoint io) (snapshot_locked now q2) epoch1 d2 of
                  (Some e, _, _) \<Rightarrow> Inl (Wrapped ''initialize Fake IP persistence'' e)
                | (None, epoch2, d3) \<Rightarrow> Inr (set_persistence q2, epoch2, d3))
          else Inr (set_persistence q2, epoch1, d2)))))"


section \<open>Clearing\<close>

text \<open>
  \<open>ClearPersistence\<close>: both targets are checked before one is removed.  \<open>rm_snapshot\<close>, \<open>rm_journal\<close> and
  \<open>rm_dirsync\<close> are the outcomes of the removals and of the directory sync; the result lists what was
  removed (\<open>False\<close> the snapshot, \<open>True\<close> the journal).
\<close>

record clear_io =
  rm_snapshot :: "goerr option"
  rm_journal :: "goerr option"
  rm_dirsync :: "goerr option"

fun clear_inspect :: "(bool \<times> disk_file) list \<Rightarrow> goerr + bool list" where
  "clear_inspect [] = Inr []"
| "clear_inspect ((which, f) # fs) =
     (case f of
        Missing \<Rightarrow> clear_inspect fs
      | LstatFails e \<Rightarrow> Inl (Wrapped ''inspect Fake IP persistence'' e)
      | File st c \<Rightarrow>
          if \<not> fs_regular st then Inl (Opaque ''Fake IP persistence target is not a regular file'')
          else bindE (clear_inspect fs) (\<lambda>ws. Inr (which # ws)))"

fun clear_remove :: "clear_io \<Rightarrow> bool list \<Rightarrow> pdisk \<Rightarrow> bool list \<times> goerr option \<times> pdisk" where
  "clear_remove io [] d = ([], None, d)"
| "clear_remove io (w # ws) d =
     (case (if w then rm_journal io else rm_snapshot io) of
        Some e \<Rightarrow> ([], Some (Wrapped ''remove Fake IP persistence'' e), d)
      | None \<Rightarrow>
          (case clear_remove io ws (if w then d\<lparr>f_journal := Missing\<rparr> else d\<lparr>f_snapshot := Missing\<rparr>) of
             (rs, e, d') \<Rightarrow> (w # rs, e, d')))"

definition clear_persistence :: "clear_io \<Rightarrow> string \<Rightarrow> pdisk \<Rightarrow> bool list \<times> goerr option \<times> pdisk" where
  "clear_persistence io path d =
     (if \<not> clean_absolute_path path
      then ([], Some (Opaque ''persistence path must be a clean absolute path''), d)
      else
        (case clear_inspect [(False, f_snapshot d), (True, f_journal d)] of
           Inl e \<Rightarrow> ([], Some e, d)
         | Inr existing \<Rightarrow>
             if existing = [] then ([], None, d)
             else
               (case clear_remove io existing d of
                  (removed, rerr, d') \<Rightarrow>
                    (let serr = (if removed = [] then None
                                 else map_option (Wrapped ''sync Fake IP persistence directory'') (rm_dirsync io))
                     in (removed,
                         (case (rerr, serr) of
                            (None, None) \<Rightarrow> None
                          | (Some e, None) \<Rightarrow> Some (Joined [e])
                          | (None, Some e) \<Rightarrow> Some (Joined [e])
                          | (Some e, Some e') \<Rightarrow> Some (Joined [e, e'])),
                         d')))))"

end
