(* ===== verification/Fakeip_Journal.thy ===== *)
theory Fakeip_Journal
  imports Fakeip_Persistence Fakeip_Restore
begin

text \<open>
  The journal file under appends and torn writes: reading back gives exactly the complete records, an
  append that does not fail adds its record, and a failed one whose rollback worked leaves the journal as
  it was.
\<close>

section \<open>Lines\<close>

definition clean_line :: "codecs \<Rightarrow> string \<Rightarrow> journal_record \<Rightarrow> bool" where
  "clean_line k l r =
     (l \<noteq> [] \<and> newline \<notin> set l \<and> length l < maxJournalRecordSize \<and> decRecord k l = Some r)"

definition ends_line :: "string \<Rightarrow> bool" where
  "ends_line c = (c = [] \<or> last c = newline)"

lemma ends_line_append [simp]: "ends_line (c @ l @ [newline])"
  by (simp add: ends_line_def)

lemma last_index_of_snoc:
  assumes "c \<notin> set t"
  shows "last_index_of c (s @ c # t) = Some (length s)"
proof -
  have "takeWhile (\<lambda>x. x \<noteq> c) (rev t @ c # rev s) = rev t"
    using assms by (subst takeWhile_append2) auto
  then show ?thesis by (simp add: last_index_of_def index_of_def Let_def)
qed

lemma last_index_of_None: "c \<notin> set t \<Longrightarrow> last_index_of c t = None"
proof -
  assume "c \<notin> set t"
  then have "takeWhile (\<lambda>x. x \<noteq> c) (rev t) = rev t" by (auto simp: takeWhile_eq_all_conv)
  then have "index_of c (rev t) = None" by (simp only: index_of_def Let_def length_rev) simp
  then show ?thesis by (simp add: last_index_of_def)
qed

lemma complete_part_torn:
  assumes "ends_line c" and "newline \<notin> set t" and "t \<noteq> []"
  shows "complete_part (c @ t) = c"
proof -
  have "last t \<noteq> newline" using assms(2,3) last_in_set by metis
  moreover have "last_index_of newline (c @ t) = (if c = [] then None else Some (length c - 1))"
  proof (cases c rule: rev_cases)
    case Nil
    then show ?thesis using assms(2) by (simp add: last_index_of_None)
  next
    case (snoc b x)
    then show ?thesis using assms(1,2) last_index_of_snoc [of newline t b] by (simp add: ends_line_def)
  qed
  ultimately show ?thesis using assms(3) by (cases c rule: rev_cases) (simp_all add: complete_part_def)
qed

lemma decode_lines_append:
  "decode_lines k ls = (rs, None) \<Longrightarrow>
   decode_lines k (ls @ ms) = (case decode_lines k ms of (qs, e) \<Rightarrow> (rs @ qs, e))"
proof (induction ls arbitrary: rs)
  case Nil
  then show ?case by (cases "decode_lines k ms") simp
next
  case (Cons l ls)
  then show ?case by (auto split: if_splits option.splits prod.splits)
qed

section \<open>Contents of a journal\<close>

lemma parse_journal_ends:
  assumes "parse_journal k c = (rs, None)"
  shows "ends_line c"
  using assms by (auto simp: parse_journal_def ends_line_def Let_def split: if_splits option.splits prod.splits)

lemma parse_journal_lines:
  assumes "ends_line c"
  shows "parse_journal k c = (if c = [] then ([], None) else decode_lines k (split_on newline (butlast c)))"
  using assms by (auto simp: parse_journal_def ends_line_def Let_def complete_part_def split: option.splits prod.splits)

lemma parse_journal_snoc:
  assumes "parse_journal k c = (rs, None)" and l: "clean_line k l r"
  shows "parse_journal k (c @ l @ [newline]) = (rs @ [r], None)"
proof -
  have e: "ends_line c" using parse_journal_ends [OF assms(1)] .
  have one: "decode_lines k [l] = ([r], None)" using l by (simp add: clean_line_def)
  have sp: "split_on newline l = [l]" using l by (simp add: clean_line_def split_on_plain)
  show ?thesis
  proof (cases c rule: rev_cases)
    case Nil
    then have "rs = []" using assms(1) by (simp add: parse_journal_def)
    then show ?thesis using Nil one sp ends_line_append [of "[]" l] by (simp add: parse_journal_lines)
  next
    case (snoc b x)
    then have x: "x = newline" using e by (simp add: ends_line_def)
    have "decode_lines k (split_on newline b) = (rs, None)"
      using assms(1) snoc parse_journal_lines [OF e] by simp
    then have "decode_lines k (split_on newline b @ [l]) = (rs @ [r], None)"
      using decode_lines_append one by fastforce
    moreover have "split_on newline (b @ newline # l) = split_on newline b @ [l]"
      by (simp add: split_on_append sp)
    ultimately show ?thesis
      using snoc x parse_journal_lines [OF ends_line_append, of k c l] by (simp add: butlast_append)
  qed
qed

lemma parse_journal_torn:
  assumes "parse_journal k c = (rs, None)" and "newline \<notin> set t" and "t \<noteq> []"
  shows "parse_journal k (c @ t) = (rs, Some (Corrupt ''journal ends with an incomplete record''))"
proof -
  have e: "ends_line c" using parse_journal_ends [OF assms(1)] .
  have cp: "complete_part (c @ t) = c" by (rule complete_part_torn [OF e assms(2,3)])
  have "last (c @ t) \<noteq> newline" using assms(2,3) last_in_set by (metis last_appendR)
  then show ?thesis
    using assms(1,3) cp by (auto simp: parse_journal_lines [OF e] parse_journal_def [of _ "c @ t"] split: if_splits)
qed

text \<open>Whatever prefix of an appended line reached the disk, the older records are read back.\<close>

lemma parse_journal_prefix:
  assumes "parse_journal k c = (rs, None)" and "clean_line k l r"
  shows "fst (parse_journal k (c @ take n (l @ [newline]))) = (if n \<le> length l then rs else rs @ [r])"
    "snd (parse_journal k (c @ take n (l @ [newline]))) =
       (if n = 0 \<or> length l < n then None else Some (Corrupt ''journal ends with an incomplete record''))"
proof -
  have nl: "newline \<notin> set (take n l)" and "l \<noteq> []"
    using assms(2) by (auto simp: clean_line_def dest: in_set_takeD)
  consider "n = 0" | "0 < n" "n \<le> length l" | "length l < n" by linarith
  then show "fst (parse_journal k (c @ take n (l @ [newline]))) = (if n \<le> length l then rs else rs @ [r])"
    "snd (parse_journal k (c @ take n (l @ [newline]))) =
       (if n = 0 \<or> length l < n then None else Some (Corrupt ''journal ends with an incomplete record''))"
    using assms(1) parse_journal_snoc [OF assms] parse_journal_torn [OF assms(1) nl] \<open>l \<noteq> []\<close>
    by (cases; simp)+
qed

section \<open>One append\<close>

text \<open>All of reading succeeds.\<close>

definition quiet :: read_io where
  "quiet = \<lparr>rd_open = None, rd_read = None, rd_close = None, rd_changed = False\<rparr>"

lemma quiet_simps [simp]:
  "rd_open quiet = None" "rd_read quiet = None" "rd_close quiet = None" "\<not> rd_changed quiet"
  by (simp_all add: quiet_def)

definition journal_holds :: "int \<Rightarrow> codecs \<Rightarrow> disk_file \<Rightarrow> journal_record list \<Rightarrow> bool" where
  "journal_holds euid k f rs = (read_journal euid k quiet f = (rs, None))"

lemma created_private [simp]: "private_file euid (created_stat euid) = None"
  by (simp add: private_file_def created_stat_def)

lemma journal_holds_iff:
  "journal_holds euid k f rs \<longleftrightarrow>
     (f = Missing \<and> rs = []) \<or>
     (\<exists>st c. f = File st c \<and> private_file euid st = None \<and> length c \<le> maxPersistenceSize \<and>
             parse_journal k c = (rs, None))"
  by (auto simp: journal_holds_def read_journal_def inspect_journal_def file_bytes_def
      split: disk_file.splits option.splits if_splits)

lemma journal_bytes:
  assumes "journal_holds euid k f rs"
  shows "parse_journal k (file_bytes f) = (rs, None)" "ends_line (file_bytes f)"
    "inspect_journal euid f = Inr (f \<noteq> Missing, length (file_bytes f))"
proof -
  show p: "parse_journal k (file_bytes f) = (rs, None)"
    using assms by (auto simp: journal_holds_iff file_bytes_def parse_journal_def)
  show "ends_line (file_bytes f)" by (rule parse_journal_ends [OF p])
  show "inspect_journal euid f = Inr (f \<noteq> Missing, length (file_bytes f))"
    using assms by (auto simp: journal_holds_iff inspect_journal_def file_bytes_def)
qed

lemma with_bytes_read:
  assumes "journal_holds euid k f rs" and "length c \<le> maxPersistenceSize"
  shows "read_journal euid k quiet (with_bytes euid f c) = parse_journal k c"
  using assms
  by (auto simp: journal_holds_iff with_bytes_def read_journal_def inspect_journal_def file_bytes_def)

lemma write_all_out:
  "write_all w i c = (e, out) \<Longrightarrow> (\<exists>n. out = take n c) \<and> (e = None \<longrightarrow> out = c)"
proof (induction w i c arbitrary: e out rule: write_all.induct)
  case (1 w i c)
  show ?case
  proof (cases "c = []")
    case True
    then show ?thesis using "1.prems" by (simp add: write_all.simps [of w i "[]"])
  next
    case False
    obtain n we where w: "w i = (n, we)" by (cases "w i")
    show ?thesis
    proof (cases "we = None \<and> n \<noteq> 0")
      case True
      then obtain e' out' where rec: "write_all w (Suc i) (drop n c) = (e', out')"
        and eq: "e = e'" "out = take n c @ out'"
        using "1.prems" w False
        by (cases "write_all w (Suc i) (drop n c)") (auto simp: write_all.simps [of w i c])
      have "(\<exists>m. out' = take m (drop n c)) \<and> (e' = None \<longrightarrow> out' = drop n c)"
        using "1.IH" [OF False w [symmetric], of e' out'] True rec by simp
      then obtain m where m: "out' = take m (drop n c)" "e' = None \<longrightarrow> out' = drop n c" by blast
      have "out = take (n + m) c" using eq(2) m(1) by (simp add: take_add)
      moreover have "e = None \<longrightarrow> out = c" using eq m(2) by (metis append_take_drop_id)
      ultimately show ?thesis by blast
    next
      case we: False
      then show ?thesis using "1.prems" w False
        by (cases we) (auto simp: write_all.simps [of w i c] intro: exI [of _ 0])
    qed
  qed
qed

text \<open>No failure after the point where the new line can no longer be taken back.\<close>

definition clean_append :: "append_io \<Rightarrow> bool" where
  "clean_append io = (ap_truncate io \<and> ap_close io = None \<and> ap_dirsync io = None)"

lemma append_opened_outcome:
  assumes "append_opened euid io present line f = (res, f')"
  shows "\<exists>n. f' = with_bytes euid f (file_bytes f @ take n line) \<and>
     (res = Appended \<and> length line \<le> n \<or> (\<exists>e. res = AppendFailed (Fatal e)) \<and> (clean_append io \<longrightarrow> n = 0))"
proof -
  obtain e out where w: "write_all (ap_write io) 0 line = (e, out)" by (cases "write_all (ap_write io) 0 line")
  obtain n where n: "out = take n line" "e = None \<longrightarrow> out = line" using write_all_out [OF w] by blast
  have "res = Appended \<and> f' = with_bytes euid f (file_bytes f @ line) \<or>
      (\<exists>x. res = AppendFailed (Fatal x)) \<and>
        (f' = with_bytes euid f (file_bytes f) \<or>
         \<not> clean_append io \<and> (f' = with_bytes euid f (file_bytes f @ out) \<or> f' = with_bytes euid f (file_bytes f @ line)))"
    using assms w n
    by (auto simp: append_opened_def Let_def clean_append_def split: option.splits if_splits)
  then consider "res = Appended" "f' = with_bytes euid f (file_bytes f @ take (length line) line)"
    | x where "res = AppendFailed (Fatal x)" "f' = with_bytes euid f (file_bytes f @ take 0 line)"
    | x where "res = AppendFailed (Fatal x)" "\<not> clean_append io" "f' = with_bytes euid f (file_bytes f @ take n line)"
    | x where "res = AppendFailed (Fatal x)" "\<not> clean_append io"
        "f' = with_bytes euid f (file_bytes f @ take (length line) line)"
    using n(1) by auto
  then show ?thesis by cases blast+
qed

text \<open>Every way an append can end, for a journal in order.\<close>

lemma append_record_outcome:
  assumes holds: "journal_holds euid k f rs" and enc: "encRecord k r = Inr l"
    and line: "l \<noteq> []" "newline \<notin> set l" "decRecord k l = Some r"
    and app: "append_record euid k io r f = (res, f')"
  obtains (appended) "res = Appended" "journal_holds euid k f' (rs @ [r])"
  | (checkpoint) "res = NeedCheckpoint" "f' = f"
  | (failed) e where "res = AppendFailed e" "fst (read_journal euid k quiet f') \<in> {rs, rs @ [r]}"
      "\<forall>x. snd (read_journal euid k quiet f') \<noteq> Some (Fatal x)"
      "clean_append io \<Longrightarrow> journal_holds euid k f' rs"
proof -
  note jb = journal_bytes [OF holds]
  let ?old = "file_bytes f" and ?line = "l @ [newline]"
  have unchanged: thesis if "res = AppendFailed e" "f' = f" for e
    using failed [OF that(1)] that(2) holds by (simp add: journal_holds_def)
  consider (big) "maxJournalRecordSize < length l + 1 \<or> maxPersistenceSize < length ?old + (length l + 1)"
    | (fits) "\<not> (maxJournalRecordSize < length l + 1 \<or> maxPersistenceSize < length ?old + (length l + 1))" by blast
  then show thesis
  proof cases
    case big
    then have "res = NeedCheckpoint \<and> f' = f" using app enc jb(3) by (auto simp: append_record_def split: if_splits)
    then show ?thesis using checkpoint by blast
  next
    case fits
    have cl: "clean_line k l r" using line fits by (simp add: clean_line_def)
    have rd: "read_journal euid k quiet (with_bytes euid f (?old @ take n ?line)) = parse_journal k (?old @ take n ?line)"
      for n using fits by (intro with_bytes_read [OF holds]) (simp add: not_less min_def)
    have eq: "(res, f') =
        (case ap_open io of
           Some e \<Rightarrow> (AppendFailed (Fatal (Wrapped ''open Fake IP journal'' e)), f)
         | None \<Rightarrow> append_opened euid io (f \<noteq> Missing) ?line f)"
      using app enc jb(3) fits by (simp add: append_record_def)
    show ?thesis
    proof (cases "ap_open io")
      case (Some e)
      then show ?thesis using eq unchanged by simp
    next
      case None
      then obtain n where f': "f' = with_bytes euid f (?old @ take n ?line)"
        and n: "res = Appended \<and> length ?line \<le> n \<or> (\<exists>e. res = AppendFailed (Fatal e)) \<and> (clean_append io \<longrightarrow> n = 0)"
        using eq append_opened_outcome [of euid io "f \<noteq> Missing" ?line f res f'] by auto
      have pp: "parse_journal k (?old @ take n ?line) = (if n \<le> length l then rs else rs @ [r],
          if n = 0 \<or> length l < n then None else Some (Corrupt ''journal ends with an incomplete record''))"
        using parse_journal_prefix [OF jb(1) cl, of n] by (simp add: prod_eq_iff)
      have rf: "read_journal euid k quiet f' = (if n \<le> length l then rs else rs @ [r],
          if n = 0 \<or> length l < n then None else Some (Corrupt ''journal ends with an incomplete record''))"
        using rd pp f' by simp
      from n show ?thesis
        by (elim disjE conjE exE) (use appended failed rf in \<open>auto simp: journal_holds_def\<close>)
    qed
  qed
qed

end
