(* ===== verification/Fakeip_Replay.thy ===== *)
theory Fakeip_Replay
  imports Fakeip_Journal
begin

text \<open>
  What a snapshot and a journal stand for: the partial map from domains to addresses that opening them
  restores, whatever the clock and the protection window are then.  One more record changes that map by
  one abstract update, a checkpoint replaces it by the map of the pool it was taken from.
\<close>

section \<open>Addresses\<close>

type_synonym amap = "string \<Rightarrow> addr option"

definition addrs :: "pool \<Rightarrow> amap" where
  "addrs p d = map_option fst (view p d)"

definition put_addr :: "string set \<Rightarrow> string \<Rightarrow> addr \<Rightarrow> amap \<Rightarrow> amap" where
  "put_addr ds d a R = (\<lambda>e. if e = d then Some a else if e \<in> ds \<or> R e = Some a then None else R e)"

lemma addrs_get: "addrs p d = map_option (\<lambda>r. e_address (deref p r)) (gm_get (byDomain p) d)"
  by (simp add: addrs_def view_def option.map_comp comp_def)

lemma addrs_None: "addrs p d = None \<longleftrightarrow> gm_get (byDomain p) d = None"
  by (simp add: addrs_get)

lemma dom_addrs: "dom (addrs p) = dom (gm_get (byDomain p))"
  by (rule set_eqI) (simp add: domIff addrs_None)

lemma addrs_view_update:
  assumes "view q = view_update (view p) (ds, d, a, x)"
  shows "addrs q = put_addr ds d a (addrs p)"
  by (auto simp: addrs_def assms put_addr_def view_put_def view_evict_def view_drop_def fun_eq_iff
      split: option.splits prod.splits)

lemma addrs_inj:
  assumes "index_inv p" and "addrs p d = Some a" and "addrs p e = Some a"
  shows "d = e"
  using index_inv_unique [OF assms(1)] assms(2,3) by (auto simp: addrs_get)

lemma byAddress_addrs:
  assumes "index_inv p"
  shows "gm_has (byAddress p) a \<longleftrightarrow> (\<exists>d. addrs p d = Some a)"
  using index_address_iff [OF assms, of a] by (fastforce simp: addrs_get)

lemma byDomain_length:
  assumes "index_inv p"
  shows "length (byDomain p) = card (dom (addrs p))"
  using gm.len_card [of "byDomain p"] assms by (simp add: dom_addrs index_inv_def)

lemma addrs_finite: "index_inv p \<Longrightarrow> finite (dom (addrs p))"
  using gm.finite_get [of "byDomain p"] by (simp add: dom_addrs index_inv_def)


section \<open>Restoring is insensitive to time\<close>

text \<open>Two pools with the same configuration and the same addresses for the same domains.\<close>

definition alike :: "pool \<Rightarrow> pool \<Rightarrow> bool" where
  "alike p q = (pool_inv p \<and> pool_inv q \<and> same_frame p q \<and> addrs p = addrs q)"

lemma alike_index:
  assumes "alike p q"
  shows "gm_get (byDomain q) d = None \<longleftrightarrow> gm_get (byDomain p) d = None"
    "gm_get (byAddress q) a = None \<longleftrightarrow> gm_get (byAddress p) a = None"
    "length (byDomain q) = length (byDomain p)" "maxMappings q = maxMappings p"
  using assms byAddress_addrs [of p a] byAddress_addrs [of q a] byDomain_length [of p] byDomain_length [of q]
    addrs_None [of p d] addrs_None [of q d]
  by (auto simp: alike_def pool_inv_def same_frame_def)

lemma validate_mapping_time:
  assumes "same_frame p q"
  shows "validate_mapping q item t' i' = Inr y \<Longrightarrow>
    \<exists>x. validate_mapping p item t i = Inr (fst y, fst (snd y), x)"
  using assms
  by (auto simp: validate_mapping_def same_frame_def split: sum.splits option.splits if_splits)

lemma addrs_insert:
  "index_inv p \<Longrightarrow> addrs (insert_entry d a x p) = (addrs p)(d \<mapsto> a)"
  by (simp add: addrs_def view_insert view_put_def fun_eq_iff)

lemma alike_insert:
  assumes "alike p q" and "gm_get (byDomain p) d = None" and "gm_get (byAddress p) a = None"
    and "in_pool p a" and "canonical d" and "int (length (byDomain p)) < maxMappings p"
  shows "alike (insert_entry d a x p) (insert_entry d a y q)"
proof -
  have inv: "pool_inv p" "pool_inv q" and fr: "same_frame p q" using assms(1) by (simp_all add: alike_def)
  have "pool_inv (insert_entry d a x p)" using assms(2-6) by (intro pool_inv_insert [OF inv(1)])
  moreover have "pool_inv (insert_entry d a y q)"
    using assms alike_index [OF assms(1)] same_frame_in_pool [OF fr] by (intro pool_inv_insert [OF inv(2)]) auto
  moreover have "same_frame (insert_entry d a x p) (insert_entry d a y q)"
    using fr by (simp add: same_frame_def insert_entry_def Let_def)
  ultimately show ?thesis
    using assms(1) addrs_insert [OF pool_inv_parts(2) [OF inv(1)]] addrs_insert [OF pool_inv_parts(2) [OF inv(2)]]
    by (simp add: alike_def)
qed

lemma restore_loop_alike:
  assumes "alike p q" and "restore_loop t i items p = Inr p'"
    and "int (length (byDomain p)) + int (length items) \<le> maxMappings p"
  shows "\<exists>q'. restore_loop t' i items q = Inr q' \<and> alike p' q'"
  using assms
proof (induction items arbitrary: i p q)
  case Nil
  then show ?case by simp
next
  case (Cons item items)
  note ix = alike_index [OF Cons.prems(1)]
  have inv: "pool_inv p" "pool_inv q" "same_frame p q" using Cons.prems(1) by (simp_all add: alike_def)
  obtain d a x where v: "validate_mapping p item t i = Inr (d, a, x)"
    and free: "gm_get (byDomain p) d = None" "gm_get (byAddress p) a = None"
    and rest: "restore_loop t (Suc i) items (insert_entry d a x p) = Inr p'"
    using Cons.prems(2) by (auto simp: bindE_Inr_iff split: if_splits)
  note ok = validate_mapping_ok [OF pool_inv_parts(1) [OF inv(1)] v]
  have "same_frame q p" using inv(3) by (simp add: same_frame_def)
  then obtain y where y: "validate_mapping q item t' i = Inr (d, a, y)"
    using validate_mapping_time [OF _ v] by fastforce
  have lk: "alike (insert_entry d a x p) (insert_entry d a y q)"
    using alike_insert [OF Cons.prems(1) free ok(3,4)] Cons.prems(3) by simp
  have "length (byDomain (insert_entry d a x p)) = Suc (length (byDomain p))"
    using gm.len_put [of "byDomain p" d] free(1) pool_inv_parts(2) [OF inv(1)] by (simp add: index_inv_def)
  then have "\<exists>q'. restore_loop t' (Suc i) items (insert_entry d a y q) = Inr q' \<and> alike p' q'"
    using Cons.IH [OF lk rest] Cons.prems(3) by simp
  moreover have "gm_get (byDomain q) d = None" "gm_get (byAddress q) a = None"
    using ix(1,2) free by simp_all
  ultimately show ?case using y by simp
qed

lemma alike_clear:
  assumes "pool_inv p" and "pool_inv q" and "same_frame p q"
  shows "alike (p\<lparr>byDomain := [], byAddress := []\<rparr>) (q\<lparr>byDomain := [], byAddress := []\<rparr>)"
  using assms pool_inv_clear [of p] pool_inv_clear [of q]
  by (simp add: alike_def same_frame_def addrs_get fun_eq_iff)

lemma restore_alike:
  assumes "pool_inv p" and "pool_inv q" and "same_frame p q" and "restore now s w p = Inr p'"
  shows "\<exists>q'. restore now' s w' q = Inr q' \<and> alike p' q'"
proof -
  have eq: "restore_loop (now + w) 0 (s_Mappings s) (p\<lparr>byDomain := [], byAddress := []\<rparr>) = Inr p'"
    and lim: "int (length (s_Mappings s)) \<le> maxMappings p"
    using assms(4) by (auto simp: restore_def split: if_splits)
  obtain q' where "restore_loop (now' + w') 0 (s_Mappings s) (q\<lparr>byDomain := [], byAddress := []\<rparr>) = Inr q'"
    "alike p' q'"
    using restore_loop_alike [OF alike_clear [OF assms(1-3)] eq, of "now' + w'"] lim by auto
  then show ?thesis using assms(3,4) by (auto simp: restore_def same_frame_def split: if_splits)
qed

lemma drop_alike:
  assumes "alike p q"
  shows "alike (drop_domain d p) (drop_domain d q)" "alike (drop_address a p) (drop_address a q)"
proof -
  have inv: "pool_inv p" "pool_inv q" and fr: "same_frame p q" and eq: "addrs p = addrs q"
    using assms by (simp_all add: alike_def)
  have eqd: "map_option fst (view p e) = map_option fst (view q e)" for e
    using fun_cong [OF eq, of e] by (simp add: addrs_def)
  have "addrs (drop_domain d p) = addrs (drop_domain d q)"
    using eqd by (simp add: addrs_def fun_eq_iff view_drop_domain view_drop_def)
  then show "alike (drop_domain d p) (drop_domain d q)"
    using drop_domain_inv [OF inv(1)] drop_domain_inv [OF inv(2)] fr drop_frame(1) [of p d] drop_frame(1) [of q d]
    by (auto simp: alike_def same_frame_def)
  have "addrs (drop_address a p) e = addrs (drop_address a q) e" for e
    using eqd [of e] view_drop_address [OF pool_inv_parts(2) [OF inv(1)]]
      view_drop_address [OF pool_inv_parts(2) [OF inv(2)]]
    by (cases "view p e"; cases "view q e") (auto simp: addrs_def view_evict_def)
  then show "alike (drop_address a p) (drop_address a q)"
    using drop_address_inv [OF inv(1)] drop_address_inv [OF inv(2)] fr drop_frame(2) [of p a] drop_frame(2) [of q a]
    by (auto simp: alike_def same_frame_def)
qed

lemma drop_removed_alike:
  "alike p q \<Longrightarrow> drop_removed i j ds p = Inr p' \<Longrightarrow> \<exists>q'. drop_removed i j ds q = Inr q' \<and> alike p' q'"
proof (induction ds arbitrary: j p q)
  case Nil
  then show ?case by simp
next
  case (Cons d ds)
  obtain n where n: "normalize d = Inr n" and rest: "drop_removed i (Suc j) ds (drop_domain n p) = Inr p'"
    using Cons.prems(2) by (auto split: sum.splits)
  show ?case using Cons.IH [OF drop_alike(1) [OF Cons.prems(1)] rest] n by simp
qed

lemma journal_loop_alike:
  assumes "alike p q" and "journal_loop t i us p = Inr p'"
  shows "\<exists>q'. journal_loop t' i us q = Inr q' \<and> alike p' q'"
  using assms
proof (induction us arbitrary: i p q)
  case Nil
  then show ?case by simp
next
  case (Cons u us)
  obtain p1 d a x where dr: "drop_removed i 0 (u_Removed u) p = Inr p1"
    and v: "validate_mapping p1 (u_Mapping u) t i = Inr (d, a, x)"
    and lim: "int (length (byDomain (drop_address a (drop_domain d p1)))) <
              maxMappings (drop_address a (drop_domain d p1))"
    and rest: "journal_loop t (Suc i) us (insert_entry d a x (drop_address a (drop_domain d p1))) = Inr p'"
    using Cons.prems(2) by (auto simp: bindE_Inr_iff Let_def split: if_splits)
  obtain q1 where q1: "drop_removed i 0 (u_Removed u) q = Inr q1" and lk1: "alike p1 q1"
    using drop_removed_alike [OF Cons.prems(1) dr] by blast
  have inv1: "pool_inv p1" and fr1: "same_frame q1 p1" using lk1 by (simp_all add: alike_def same_frame_def)
  note ok = validate_mapping_ok [OF pool_inv_parts(1) [OF inv1] v]
  obtain y where y: "validate_mapping q1 (u_Mapping u) t' i = Inr (d, a, y)"
    using validate_mapping_time [OF fr1 v] by fastforce
  let ?p = "drop_address a (drop_domain d p1)" and ?q = "drop_address a (drop_domain d q1)"
  have lk: "alike ?p ?q" using drop_alike lk1 by blast
  have "gm_get (byDomain ?p) d = None" "gm_get (byAddress ?p) a = None"
    by (auto simp: drop_address_def drop_domain_def split: option.split)
  moreover have "in_pool ?p a"
    using ok(3) same_frame_in_pool [OF same_frame_trans [OF drop_frame(1) drop_frame(2)]] by blast
  ultimately have "alike (insert_entry d a x ?p) (insert_entry d a y ?q)"
    using alike_insert [OF lk _ _ _ ok(4) lim] by blast
  then obtain q' where "journal_loop t' (Suc i) us (insert_entry d a y ?q) = Inr q'" "alike p' q'"
    using Cons.IH [OF _ rest] by blast
  then show ?case using q1 y lim alike_index(3,4) [OF lk] by (auto simp: Let_def)
qed


section \<open>One more record\<close>

lemma journal_loop_append:
  "journal_loop t i (us @ vs) p = bindE (journal_loop t i us p) (journal_loop t (i + length us) vs)"
proof (induction us arbitrary: i p)
  case Nil
  then show ?case by simp
next
  case (Cons u us)
  then show ?case by (auto simp: bindE_def Let_def split: sum.splits prod.splits)
qed

lemma drop_removed_total:
  "list_all canonical ds \<Longrightarrow> \<exists>q. drop_removed i j ds p = Inr q"
  by (induction ds arbitrary: j p) (auto simp: canonical_normalize)

lemma normalize_canonical_list:
  "list_all canonical ds \<Longrightarrow> list_all2 (\<lambda>d n. normalize d = Inr n) ds ns \<Longrightarrow> ns = ds"
  by (induction ds arbitrary: ns) (auto simp: canonical_normalize list_all2_Cons1)

lemma journal_one:
  assumes inv: "pool_inv p" and rm: "list_all canonical (u_Removed u)" and m: "u_Mapping u = mapping_of e"
    and e: "canonical (e_domain e)" "in_pool p (e_address e)" "storable e"
    and lim: "int (card (dom (put_addr (set (u_Removed u)) (e_domain e) (e_address e) (addrs p)) - {e_domain e}))
              < maxMappings p"
  shows "\<exists>q. journal_loop t i [u] p = Inr q \<and>
             addrs q = put_addr (set (u_Removed u)) (e_domain e) (e_address e) (addrs p)"
proof -
  let ?d = "e_domain e" and ?a = "e_address e" and ?x = "max (e_expiresAt e) t"
  obtain q where q: "drop_removed i 0 (u_Removed u) p = Inr q" using drop_removed_total [OF rm] by blast
  obtain ns where D: "pool_inv q" "same_frame p q" "view q = view_drop (set ns) (view p)"
    "list_all2 (\<lambda>d n. normalize d = Inr n) (u_Removed u) ns"
    using drop_removed_spec [OF inv q] by blast
  have ns: "ns = u_Removed u" using normalize_canonical_list [OF rm D(4)] .
  have v: "validate_mapping q (u_Mapping u) t i = Inr (?d, ?a, ?x)"
    using validate_storable [OF pool_inv_parts(1) [OF D(1)] e(1) _ e(3)] e(2) same_frame_in_pool [OF D(2)] m by simp
  let ?q = "drop_address ?a (drop_domain ?d q)"
  have inv': "pool_inv ?q" using drop_address_inv [OF drop_domain_inv [OF D(1)]] .
  have vq: "view ?q = view_evict ?a (view_drop (insert ?d (set ns)) (view p))"
    using view_drop_address [OF pool_inv_parts(2) [OF drop_domain_inv [OF D(1)]]] D(3)
    by (auto simp: view_drop_domain view_drop_def fun_eq_iff view_evict_def)
  have "dom (addrs ?q) = dom (put_addr (set ns) ?d ?a (addrs p)) - {?d}"
    by (auto simp: dom_def addrs_def vq put_addr_def view_evict_def view_drop_def split: option.splits if_splits)
  then have "int (length (byDomain ?q)) < maxMappings p"
    using lim byDomain_length [OF pool_inv_parts(2) [OF inv']] ns by simp
  moreover have "maxMappings ?q = maxMappings p" using D(2) by (simp add: same_frame_def)
  ultimately have ok: "journal_loop t i [u] p = Inr (insert_entry ?d ?a ?x ?q)" using q v by (simp add: Let_def)
  have "addrs (insert_entry ?d ?a ?x ?q) = put_addr (set ns) ?d ?a (addrs p)"
    by (rule addrs_view_update) (simp add: view_insert [OF pool_inv_parts(2) [OF inv']] vq)
  then show ?thesis using ok ns by blast
qed

text \<open>The map a snapshot and the records after it stand for, for pools with the configuration of \<open>p\<close>.\<close>

definition replays :: "pool \<Rightarrow> snapshot \<Rightarrow> journal_record list \<Rightarrow> amap \<Rightarrow> bool" where
  "replays p s rs R =
     (\<forall>now w p0. pool_inv p0 \<and> same_frame p p0 \<longrightarrow>
        (\<exists>q1 q2. restore now s w p0 = Inr q1 \<and> restore_journal now (map update_of rs) w q1 = Inr q2 \<and>
                 pool_inv q2 \<and> same_frame p0 q2 \<and> addrs q2 = R))"

lemma restore_journal_inv:
  assumes "pool_inv p" and "restore_journal now us w p = Inr q"
  shows "pool_inv q" "same_frame p q"
  using journal_loop_spec [OF assms(1)] assms(2) by (auto simp: restore_journal_def)

lemma replays_intro:
  assumes "pool_inv p" and "same_frame p0 p" and "pool_inv p0"
    and "restore now s w p = Inr q1" and "restore_journal now (map update_of rs) w q1 = Inr q2"
  shows "replays p0 s rs (addrs q2)"
proof -
  have "\<exists>q1' q2'. restore now' s w' p' = Inr q1' \<and> restore_journal now' (map update_of rs) w' q1' = Inr q2' \<and>
      pool_inv q2' \<and> same_frame p' q2' \<and> addrs q2' = addrs q2" if p': "pool_inv p'" "same_frame p0 p'" for now' w' p'
  proof -
    have fr: "same_frame p p'" using assms(2) p'(2) by (simp add: same_frame_def)
    obtain q1' where q1': "restore now' s w' p' = Inr q1'" and lk: "alike q1 q1'"
      using restore_alike [OF assms(1) p'(1) fr assms(4)] by blast
    obtain q2' where "restore_journal now' (map update_of rs) w' q1' = Inr q2'" "alike q2 q2'"
      using journal_loop_alike [OF lk] assms(5) unfolding restore_journal_def by blast
    then show ?thesis
      using q1' restore_spec(1,2) [OF p'(1) q1'] restore_journal_inv [of q1'] same_frame_trans
      by (auto simp: alike_def)
  qed
  then show ?thesis by (simp add: replays_def)
qed

lemma replays_frame: "replays p s rs R \<Longrightarrow> same_frame p q \<Longrightarrow> replays q s rs R"
  by (simp add: replays_def same_frame_def)

lemma replays_snoc:
  assumes "replays p s rs R" and "pool_static p"
    and "list_all canonical (j_Removed r)" and "j_Mapping r = mapping_of e"
    and "canonical (e_domain e)" "in_pool p (e_address e)" "storable e"
    and "int (card (dom (put_addr (set (j_Removed r)) (e_domain e) (e_address e) R) - {e_domain e})) < maxMappings p"
  shows "replays p s (rs @ [r]) (put_addr (set (j_Removed r)) (e_domain e) (e_address e) R)"
proof -
  have "\<exists>q1 q2. restore now s w p0 = Inr q1 \<and> restore_journal now (map update_of (rs @ [r])) w q1 = Inr q2 \<and>
      pool_inv q2 \<and> same_frame p0 q2 \<and> addrs q2 = put_addr (set (j_Removed r)) (e_domain e) (e_address e) R"
    if p0: "pool_inv p0" "same_frame p p0" for now w p0
  proof -
    obtain q1 q2 where q: "restore now s w p0 = Inr q1" "restore_journal now (map update_of rs) w q1 = Inr q2"
      "pool_inv q2" "same_frame p0 q2" "addrs q2 = R" using assms(1) p0 unfolding replays_def by blast
    have fr: "same_frame p q2" using p0(2) q(4) by (rule same_frame_trans)
    have "maxMappings q2 = maxMappings p" "in_pool q2 (e_address e)"
      using fr same_frame_in_pool [OF fr] assms(6) by (simp_all add: same_frame_def)
    then obtain q3 where q3: "journal_loop (now + w) (length rs) [update_of r] q2 = Inr q3"
      "addrs q3 = put_addr (set (j_Removed r)) (e_domain e) (e_address e) R"
      using journal_one [OF q(3), of "update_of r" e "now + w" "length rs"] assms(3-8) q(5) by (auto simp: update_of_def)
    have "restore_journal now (map update_of (rs @ [r])) w q1 = Inr q3"
      using q(2) q3(1) by (simp add: restore_journal_def journal_loop_append)
    moreover have "pool_inv q3" "same_frame q2 q3" using journal_loop_spec [OF q(3) q3(1)] by auto
    ultimately show ?thesis using q(1,4) q3(2) same_frame_trans by blast
  qed
  then show ?thesis by (simp add: replays_def)
qed

lemma replays_snapshot:
  assumes inv: "pool_inv p" and stor: "\<forall>d r. gm_get (byDomain p) d = Some r \<longrightarrow> storable (deref p r)"
    and ep: "ep = [] \<or> valid_journal_epoch ep"
  shows "replays p ((snapshot_locked t p)\<lparr>s_JournalEpoch := ep\<rparr>) [] (addrs p)"
proof -
  have "\<exists>q1 q2. restore now ((snapshot_locked t p)\<lparr>s_JournalEpoch := ep\<rparr>) w p0 = Inr q1 \<and>
      restore_journal now (map update_of []) w q1 = Inr q2 \<and> pool_inv q2 \<and> same_frame p0 q2 \<and> addrs q2 = addrs p"
    if p0: "pool_inv p0" "same_frame p p0" for now w p0
  proof -
    obtain q where q: "restore now (snapshot_locked t p) w p0 = Inr q" "pool_inv q"
      "view q = (\<lambda>d. map_option (\<lambda>(a, x). (a, max x (now + w))) (view p d))"
      using snapshot_restore [OF inv p0 stor] by blast
    have "restore now ((snapshot_locked t p)\<lparr>s_JournalEpoch := ep\<rparr>) w p0 = Inr q"
      using q(1) ep by (auto simp: restore_def snapshot_locked_def split: if_splits)
    moreover have "addrs q = addrs p"
      by (simp add: addrs_def q(3) fun_eq_iff option.map_comp comp_def split_def)
    ultimately show ?thesis using q(1,2) restore_spec(2) [OF p0(1) q(1)] by (auto simp: restore_journal_def)
  qed
  then show ?thesis by (simp add: replays_def)
qed

end
