(* ===== verification/Fakeip_Recovery.thy ===== *)
theory Fakeip_Recovery
  imports Fakeip_Replay
begin

text \<open>
  What the two files on disk recover to (\<open>recovers\<close>), and how appends and checkpoints change it,
  whatever system call fails.
\<close>

section \<open>The records in force\<close>

definition record_ok :: "string \<Rightarrow> journal_record \<Rightarrow> bool" where
  "record_ok pfx r =
     (j_Version r = persistenceVersion \<and> j_Prefix r = pfx \<and> valid_journal_epoch (j_Epoch r) \<and> j_RecordedAt r \<noteq> 0)"

lemma valid_epoch_ne [simp]: "valid_journal_epoch [] = False"
  by (simp add: valid_journal_epoch_def)

lemma active_loop_wanted:
  assumes "wanted \<noteq> []"
  shows "active_loop skip pfx rs wanted acc = Inr res \<longleftrightarrow>
    (\<forall>r \<in> set rs. record_ok pfx r \<and> (skip \<or> j_Epoch r = wanted)) \<and>
    res = (acc @ filter (\<lambda>r. j_Epoch r = wanted) rs, wanted)"
  using assms
proof (induction rs arbitrary: acc)
  case Nil
  then show ?case by auto
next
  case (Cons r rs)
  then show ?case by (auto simp: record_ok_def Let_def)
qed

text \<open>A journal that goes with a snapshot when records are appended under an epoch.\<close>

definition journal_fits :: "string \<Rightarrow> string \<Rightarrow> snapshot \<Rightarrow> journal_record list \<Rightarrow> bool" where
  "journal_fits pfx epoch s rs =
     (valid_journal_epoch epoch \<and> list_all (record_ok pfx) rs \<and>
      (s_JournalEpoch s = epoch \<or> s_JournalEpoch s = [] \<and> (\<forall>r \<in> set rs. j_Epoch r = epoch)))"

abbreviation in_force :: "string \<Rightarrow> journal_record list \<Rightarrow> journal_record list" where
  "in_force epoch rs \<equiv> filter (\<lambda>r. j_Epoch r = epoch) rs"

lemma active_of_fits:
  assumes "journal_fits pfx epoch s rs"
  shows "active_journal_records rs (Some s) pfx =
    Inr (in_force epoch rs, if s_JournalEpoch s = [] \<and> rs = [] then [] else epoch)"
proof -
  have ok: "\<forall>r \<in> set rs. record_ok pfx r" and ne: "epoch \<noteq> []"
    using assms by (auto simp: journal_fits_def list_all_iff)
  consider (epoch) "s_JournalEpoch s = epoch" | (empty) "s_JournalEpoch s = []" "rs = []"
    | (legacy) r qs where "s_JournalEpoch s = []" "rs = r # qs" "\<forall>r \<in> set rs. j_Epoch r = epoch"
    using assms by (cases rs) (auto simp: journal_fits_def)
  then show ?thesis
  proof cases
    case epoch
    then show ?thesis
      using assms ok ne active_loop_wanted [OF ne, of True pfx rs "[]"]
      by (auto simp: active_journal_records_def journal_fits_def)
  next
    case empty
    then show ?thesis by (simp add: active_journal_records_def)
  next
    case legacy
    have "active_loop False pfx rs [] [] = active_loop False pfx rs epoch []"
      using legacy ok by (auto simp: record_ok_def Let_def)
    then show ?thesis
      using legacy ok active_loop_wanted [OF ne, of False pfx rs "[]"] by (simp add: active_journal_records_def)
  qed
qed

lemma fits_of_active:
  assumes "active_journal_records rs (Some s) pfx = Inr (active, ep)"
    and "epoch = (if ep = [] then new else ep)" and "valid_journal_epoch new"
  shows "journal_fits pfx epoch s rs" "active = in_force epoch rs"
proof -
  let ?js = "s_JournalEpoch s"
  have "journal_fits pfx epoch s rs \<and> active = in_force epoch rs"
  proof (cases "?js = []")
    case False
    then have "valid_journal_epoch ?js" "active_loop True pfx rs ?js [] = Inr (active, ep)"
      using assms(1) by (auto simp: active_journal_records_def split: if_splits)
    then show ?thesis
      using active_loop_wanted [OF False, of True pfx rs "[]"] False assms(2)
      by (auto simp: journal_fits_def list_all_iff)
  next
    case js: True
    show ?thesis
    proof (cases rs)
      case Nil
      then show ?thesis using js assms by (auto simp: active_journal_records_def journal_fits_def)
    next
      case (Cons r qs)
      have ne: "j_Epoch r \<noteq> []" and "active_loop False pfx rs (j_Epoch r) [] = Inr (active, ep)"
        using assms(1) js Cons by (auto simp: active_journal_records_def Let_def split: if_splits)
      then have all: "\<forall>q \<in> set rs. record_ok pfx q \<and> j_Epoch q = j_Epoch r"
        and res: "active = in_force (j_Epoch r) rs" "ep = j_Epoch r"
        using active_loop_wanted [OF ne, of False pfx rs "[]"] by simp_all
      moreover have "valid_journal_epoch (j_Epoch r)" using all Cons by (simp add: record_ok_def)
      ultimately show ?thesis using js assms(2) ne by (simp add: journal_fits_def list_all_iff)
    qed
  qed
  then show "journal_fits pfx epoch s rs" "active = in_force epoch rs" by simp_all
qed


section \<open>What the codecs must do\<close>

text \<open>
  The records and snapshots the program writes: canonical names, printed addresses, epochs, and times
  between year 1 and year 9999 (\<open>json.Marshal\<close> refuses others).  The codecs have to give those back.
\<close>

definition text_time :: "gotime \<Rightarrow> bool" where
  "text_time t = (0 < t \<and> t < 315537897600 * second)"

definition mapping_safe :: "mapping_rec \<Rightarrow> bool" where
  "mapping_safe m =
     (canonical (m_Domain m) \<and> text_time (m_ExpiresAt m) \<and>
      (\<exists>a. is_valid a \<and> addr_zone a = [] \<and> m_Address m = addr_string a))"

definition record_safe :: "journal_record \<Rightarrow> bool" where
  "record_safe r =
     (j_Version r = persistenceVersion \<and> valid_journal_epoch (j_Epoch r) \<and> text_time (j_RecordedAt r) \<and>
      (\<exists>x. j_Prefix r = pfx_string x) \<and> list_all canonical (j_Removed r) \<and> mapping_safe (j_Mapping r))"

definition snapshot_safe :: "snapshot \<Rightarrow> bool" where
  "snapshot_safe s =
     (s_Version s = persistenceVersion \<and> valid_journal_epoch (s_JournalEpoch s) \<and> text_time (s_SavedAt s) \<and>
      (\<exists>x. s_Prefix s = pfx_string x) \<and> list_all mapping_safe (s_Mappings s))"

definition codec_ok :: "codecs \<Rightarrow> bool" where
  "codec_ok k =
     ((\<forall>r. record_safe r \<longrightarrow>
         (\<exists>l. encRecord k r = Inr l \<and> l \<noteq> [] \<and> newline \<notin> set l \<and> decRecord k l = Some r)) \<and>
      (\<forall>s. snapshot_safe s \<longrightarrow> decSnapshot k (encSnapshot k s) = Some s))"


section \<open>What the disk recovers to\<close>

definition snapshot_holds :: "int \<Rightarrow> codecs \<Rightarrow> disk_file \<Rightarrow> snapshot \<Rightarrow> bool" where
  "snapshot_holds euid k f s = (read_snapshot euid k quiet f = Inr (Some s))"

definition recovers :: "int \<Rightarrow> codecs \<Rightarrow> pool \<Rightarrow> string \<Rightarrow> pdisk \<Rightarrow> amap \<Rightarrow> bool" where
  "recovers euid k p epoch d R =
     (\<exists>s rs. snapshot_holds euid k (f_snapshot d) s \<and> journal_holds euid k (f_journal d) rs \<and>
             journal_fits (pfx_string (p_prefix p)) epoch s rs \<and> replays p s (in_force epoch rs) R)"

lemma recovers_frame:
  assumes "recovers euid k p epoch d R" and "same_frame p q"
  shows "recovers euid k q epoch d R"
proof -
  have "p_prefix q = p_prefix p" using assms(2) by (simp add: same_frame_def)
  then show ?thesis using assms replays_frame [OF _ assms(2)] unfolding recovers_def by metis
qed

text \<open>The deletions that are not durable yet.\<close>

definition dels :: "pool \<Rightarrow> string set" where
  "dels p = {d. gm_has (pendingDeletes p) d}"

text \<open>An entry of the pool, and a pool all of whose entries can be written.\<close>

definition writable :: "pool \<Rightarrow> entry \<Rightarrow> bool" where
  "writable p e =
     (canonical (e_domain e) \<and> in_pool p (e_address e) \<and> \<not> is4in6 (e_address e) \<and> text_time (e_expiresAt e))"

definition pool_writable :: "pool \<Rightarrow> bool" where
  "pool_writable p =
     (pool_inv p \<and> (\<forall>d r. gm_get (byDomain p) d = Some r \<longrightarrow>
        text_time (e_expiresAt (deref p r)) \<and> \<not> is4in6 (e_address (deref p r))) \<and>
      (\<forall>d \<in> dels p. canonical d))"

lemma writable_storable: "writable p e \<Longrightarrow> storable e"
  by (simp add: writable_def storable_def text_time_def)

lemma writable_safe:
  assumes "pool_static p" and "writable p e"
  shows "mapping_safe (mapping_of e)"
proof -
  have "is_valid (e_address e)"
    using assms bit_len_is_valid [of "e_address e" "p_start p"]
    by (simp add: writable_def in_pool_def pool_static_def)
  then show ?thesis using assms(2) by (auto simp: mapping_safe_def mapping_of_def writable_def in_pool_def)
qed

lemma pool_writable_entry:
  assumes "pool_writable p" and "gm_get (byDomain p) d = Some r"
  shows "writable p (deref p r)"
  using assms index_inv_domain [of p d r] index_inv_address(3) [of p "e_address (deref p r)" r]
  by (auto simp: pool_writable_def writable_def pool_inv_def)

lemma snapshot_is_safe:
  assumes "pool_writable p" and "text_time t" and "valid_journal_epoch ep"
  shows "snapshot_safe ((snapshot_locked t p)\<lparr>s_JournalEpoch := ep\<rparr>)"
proof -
  have inv: "pool_inv p" using assms(1) by (simp add: pool_writable_def)
  have "mapping_safe m" if m: "m \<in> set (s_Mappings (snapshot_locked t p))" for m
  proof -
    obtain e where "m = mapping_of e" "e \<in> set (sorted_entries p)"
      using m unfolding snapshot_mappings set_map by blast
    then show ?thesis
      using pool_writable_entry [OF assms(1)] writable_safe [OF pool_inv_parts(1) [OF inv]]
      by (auto simp: sorted_entries_in [OF inv])
  qed
  then show ?thesis using assms(2,3) by (auto simp: snapshot_safe_def snapshot_locked_def list_all_iff)
qed


section \<open>Checkpoints\<close>

text \<open>
  What a checkpoint of a snapshot needs of its surroundings: sixteen random bytes that give an epoch no
  record of the old journal carries, an encoding within the limit the reader enforces, and, if the
  rename is done, a directory sync that works.
\<close>

definition checkpoint_env :: "int \<Rightarrow> codecs \<Rightarrow> checkpoint_io \<Rightarrow> snapshot \<Rightarrow> disk_file \<Rightarrow> bool" where
  "checkpoint_env euid k io s jf =
     (ck_dirsync io = None \<and>
      (\<forall>bs. ck_random io = Inr bs \<longrightarrow> length bs = 16 \<and>
         length (encSnapshot k (s\<lparr>s_JournalEpoch := hex_encode bs\<rparr>)) \<le> maxPersistenceSize \<and>
         (\<forall>r \<in> set (fst (read_journal euid k quiet jf)). j_Epoch r \<noteq> hex_encode bs)))"

lemma hex_encode_length: "length (hex_encode bs) = 2 * length bs"
  by (induction bs) (simp_all add: hex_encode_def)

lemma hex_encode_hex: "list_all (\<lambda>c. hex_digit c \<noteq> None) (hex_encode bs)"
proof -
  have "hex_digit (hex_char (byte c div 16)) \<noteq> None" "hex_digit (hex_char (byte c mod 16)) \<noteq> None" for c
    using hex_digit_hex_char [of "byte c div 16"] hex_digit_hex_char [of "byte c mod 16"]
      less_mult_imp_div_less [of "byte c" 16 16] nat_of_char_less_256 [of c]
    by simp_all
  then show ?thesis by (induction bs) (simp_all add: hex_encode_def)
qed

lemma new_epoch_valid:
  assumes "new_journal_epoch (Inr bs) = Inr ep" and "length bs = 16"
  shows "ep = hex_encode bs" "valid_journal_epoch ep"
  using assms hex_encode_length [of bs] hex_encode_hex [of bs]
  by (simp_all add: new_journal_epoch_def valid_journal_epoch_def)

lemma checkpoint_outcome:
  assumes "codec_ok k" and pw: "pool_writable p" and "text_time t"
    and env: "checkpoint_env euid k io (snapshot_locked t p) (f_journal d)"
    and jh: "journal_holds euid k (f_journal d) rs" "list_all (record_ok (pfx_string (p_prefix p))) rs"
    and ck: "checkpoint euid k io (snapshot_locked t p) epoch d = (e, epoch', d')"
  shows "e \<noteq> None \<and> epoch' = epoch \<and> d' = d \<or> recovers euid k p epoch' d' (addrs p)"
    "e = None \<Longrightarrow> recovers euid k p epoch' d' (addrs p)"
    "ck_remove io = None \<Longrightarrow> ck_cleardir io = None \<Longrightarrow> e \<noteq> None \<Longrightarrow> epoch' = epoch \<and> d' = d"
proof -
  let ?s = "\<lambda>ep. (snapshot_locked t p)\<lparr>s_JournalEpoch := ep\<rparr>"
  have inv: "pool_inv p" and stor: "\<forall>d r. gm_get (byDomain p) d = Some r \<longrightarrow> storable (deref p r)"
    using pw pool_writable_entry [OF pw] writable_storable by (auto simp: pool_writable_def)
  have new: "recovers euid k p ep (d\<lparr>f_snapshot := File (created_stat euid) (encSnapshot k (?s ep)), f_journal := jf\<rparr>) (addrs p)"
    if r: "ck_random io = Inr bs" and ep: "new_journal_epoch (Inr bs) = Inr ep" and jf: "jf = Missing \<or> jf = f_journal d"
    for bs ep jf
  proof -
    have bs: "ep = hex_encode bs" "valid_journal_epoch ep" "length (encSnapshot k (?s ep)) \<le> maxPersistenceSize"
      "\<forall>r \<in> set rs. j_Epoch r \<noteq> ep"
      using new_epoch_valid [OF ep] env r jh(1) by (auto simp: checkpoint_env_def journal_holds_def)
    have "snapshot_holds euid k (File (created_stat euid) (encSnapshot k (?s ep))) (?s ep)"
      using assms(1) snapshot_is_safe [OF pw assms(3) bs(2)] bs(3)
      by (simp add: snapshot_holds_def read_snapshot_def codec_ok_def)
    moreover have "\<exists>qs. journal_holds euid k jf qs \<and> list_all (record_ok (pfx_string (p_prefix p))) qs \<and> in_force ep qs = []"
      using jf jh bs(4) by (auto simp: journal_holds_iff filter_empty_conv)
    moreover have "replays p (?s ep) [] (addrs p)" using replays_snapshot [OF inv stor] bs(2) by blast
    ultimately obtain qs where
      "snapshot_holds euid k (File (created_stat euid) (encSnapshot k (?s ep))) (?s ep)"
      "journal_holds euid k jf qs" "journal_fits (pfx_string (p_prefix p)) ep (?s ep) qs"
      "replays p (?s ep) (in_force ep qs) (addrs p)"
      using bs(2) by (force simp: journal_fits_def)
    then show ?thesis unfolding recovers_def by auto
  qed
  have cases: "(e \<noteq> None \<and> epoch' = epoch \<and> d' = d) \<or>
      (\<exists>bs jf. ck_random io = Inr bs \<and> new_journal_epoch (Inr bs) = Inr epoch' \<and> (jf = Missing \<or> jf = f_journal d) \<and>
            d' = d\<lparr>f_snapshot := File (created_stat euid) (encSnapshot k (?s epoch')), f_journal := jf\<rparr>)"
    using ck env
    by (auto simp: checkpoint_def write_snapshot_def clear_journal_def checkpoint_env_def new_journal_epoch_def
        split: sum.splits option.splits if_splits prod.splits)
  then show "e \<noteq> None \<and> epoch' = epoch \<and> d' = d \<or> recovers euid k p epoch' d' (addrs p)" using new by blast
  then show "e = None \<Longrightarrow> recovers euid k p epoch' d' (addrs p)" by blast
  have "validate_target (f_journal d) = None"
    using jh(1) by (auto simp: journal_holds_iff validate_target_def private_file_def split: if_splits)
  then show "epoch' = epoch \<and> d' = d" if "ck_remove io = None" "ck_cleardir io = None" "e \<noteq> None"
    using ck env that
    by (auto simp: checkpoint_def write_snapshot_def clear_journal_def checkpoint_env_def new_journal_epoch_def
        split: sum.splits option.splits if_splits prod.splits)
qed


section \<open>Recording an allocation\<close>

definition clean_checkpoint :: "checkpoint_io \<Rightarrow> bool" where
  "clean_checkpoint io = (ck_remove io = None \<and> ck_cleardir io = None)"

lemma append_recovers:
  assumes rec: "recovers euid k p epoch d R" and st: "pool_static p"
    and holds: "journal_holds euid k f' (rs @ [r])" and old: "journal_holds euid k (f_journal d) rs"
    and r: "r = journal_record_of (pfx_string (p_prefix p)) epoch u" and "u_RecordedAt u \<noteq> 0"
    and rm: "list_all canonical (u_Removed u)" and m: "u_Mapping u = mapping_of e" and wr: "writable p e"
    and lim: "int (card (dom (put_addr (set (u_Removed u)) (e_domain e) (e_address e) R) - {e_domain e})) < maxMappings p"
  shows "recovers euid k p epoch (d\<lparr>f_journal := f'\<rparr>) (put_addr (set (u_Removed u)) (e_domain e) (e_address e) R)"
proof -
  obtain s where s: "snapshot_holds euid k (f_snapshot d) s"
    "journal_fits (pfx_string (p_prefix p)) epoch s rs" "replays p s (in_force epoch rs) R"
    using rec old unfolding recovers_def journal_holds_def by auto
  have jr: "j_Removed r = u_Removed u" "j_Mapping r = mapping_of e" "j_Epoch r = epoch"
    by (simp_all add: r journal_record_of_def m)
  have "record_ok (pfx_string (p_prefix p)) r"
    using s(2) assms(6) by (simp add: r journal_record_of_def record_ok_def journal_fits_def)
  then have "journal_fits (pfx_string (p_prefix p)) epoch s (rs @ [r])"
    using s(2) jr(3) by (auto simp: journal_fits_def)
  moreover have "replays p s (in_force epoch rs @ [r]) (put_addr (set (u_Removed u)) (e_domain e) (e_address e) R)"
    using replays_snoc [OF s(3) st, of r e] jr rm wr writable_storable [OF wr] lim by (simp add: writable_def)
  ultimately show ?thesis using s(1) holds jr(3) unfolding recovers_def by force
qed

lemma persist_record_outcome:
  assumes ck: "codec_ok k" and rec: "recovers euid k p epoch d R" and pw: "pool_writable p" and now: "text_time t"
    and aio: "clean_append aio" and cio: "clean_checkpoint cio" "checkpoint_env euid k cio (snapshot_locked t p) (f_journal d)"
    and u: "text_time (u_RecordedAt u)" "list_all canonical (u_Removed u)" "u_Mapping u = mapping_of e"
    and wr: "writable p e"
    and lim: "int (card (dom (put_addr (set (u_Removed u)) (e_domain e) (e_address e) R) - {e_domain e})) < maxMappings p"
    and pr: "persist_record euid k aio cio (pfx_string (p_prefix p)) u (snapshot_locked t p) epoch d = (res, epoch', d')"
  shows "res = None \<Longrightarrow> recovers euid k p epoch' d' (addrs p) \<or>
           recovers euid k p epoch' d' (put_addr (set (u_Removed u)) (e_domain e) (e_address e) R)"
    "res \<noteq> None \<Longrightarrow> recovers euid k p epoch' d' R"
proof -
  let ?pfx = "pfx_string (p_prefix p)" and ?R = "put_addr (set (u_Removed u)) (e_domain e) (e_address e) R"
  let ?r = "journal_record_of ?pfx epoch u"
  have st: "pool_static p" using pw by (simp add: pool_writable_def pool_inv_def)
  obtain s rs where s: "snapshot_holds euid k (f_snapshot d) s" "journal_holds euid k (f_journal d) rs"
    "journal_fits ?pfx epoch s rs" "replays p s (in_force epoch rs) R" using rec by (auto simp: recovers_def)
  have "record_safe ?r"
    using u s(3) writable_safe [OF st wr] by (auto simp: record_safe_def journal_record_of_def journal_fits_def)
  then obtain l where l: "encRecord k ?r = Inr l" "l \<noteq> []" "newline \<notin> set l" "decRecord k l = Some ?r"
    using ck by (auto simp: codec_ok_def)
  obtain ares f' where app: "append_record euid k aio ?r (f_journal d) = (ares, f')"
    by (cases "append_record euid k aio ?r (f_journal d)")
  have "(res = None \<longrightarrow> recovers euid k p epoch' d' (addrs p) \<or> recovers euid k p epoch' d' ?R) \<and>
      (res \<noteq> None \<longrightarrow> recovers euid k p epoch' d' R)"
    using s(2) l app
  proof (cases rule: append_record_outcome)
    case appended
    then have "res = None" "epoch' = epoch" "d' = d\<lparr>f_journal := f'\<rparr>" using pr app by (simp_all add: persist_record_def)
    then show ?thesis
      using append_recovers [OF rec st appended(2) s(2) refl _ u(2,3) wr lim] u(1) by (simp add: text_time_def)
  next
    case checkpoint
    obtain e' where cp: "checkpoint euid k cio (snapshot_locked t p) epoch d = (e', epoch', d')" "res = map_option Fatal e'"
      using pr app checkpoint by (auto simp: persist_record_def split: prod.splits)
    note out = checkpoint_outcome [OF ck pw now cio(2) s(2) _ cp(1)]
    show ?thesis
      using out(2,3) s(3) cp(2) cio(1) rec by (auto simp: journal_fits_def clean_checkpoint_def)
  next
    case (failed e')
    then have "res = Some e'" "epoch' = epoch" "d' = d\<lparr>f_journal := f'\<rparr>" using pr app by (simp_all add: persist_record_def)
    then show ?thesis using s failed(4) [OF aio] by (auto simp: recovers_def)
  qed
  then show "res = None \<Longrightarrow> recovers euid k p epoch' d' (addrs p) \<or> recovers euid k p epoch' d' ?R"
    "res \<noteq> None \<Longrightarrow> recovers euid k p epoch' d' R" by blast+
qed


section \<open>Opening\<close>

text \<open>No mapping of a view expires before a given time.\<close>

definition late :: "gotime \<Rightarrow> mview \<Rightarrow> bool" where
  "late t v = (\<forall>d a x. v d = Some (a, x) \<longrightarrow> t \<le> x)"

lemma put_all_ran:
  "put_all v ms d = Some (a, x) \<Longrightarrow> v d = Some (a, x) \<or> (d, a, x) \<in> set ms"
proof (induction ms arbitrary: v)
  case (Cons m ms)
  obtain e b y where m: "m = (e, b, y)" by (cases m)
  then have "view_put e b y v d = Some (a, x) \<or> (d, a, x) \<in> set ms" using Cons by simp
  then show ?case using m by (auto simp: view_put_def split: if_splits)
qed simp

lemma late_update: "late t v \<Longrightarrow> t \<le> x \<Longrightarrow> late t (view_update v (ds, d, a, x))"
  by (auto simp: late_def view_put_def view_evict_def view_drop_def split: option.splits if_splits)

lemma restore_late:
  assumes "pool_inv p" and "restore now s w p = Inr q"
  shows "late (now + w) (view q)"
proof -
  obtain ms where ms: "list_all2 (decodes (now + w)) (s_Mappings s) ms" "view q = put_all Map.empty ms"
    using restore_spec(3) [OF assms] by blast
  have "now + w \<le> x" if "(d, a, x) \<in> set ms" for d a x
    using that ms(1) by (auto simp: list_all2_conv_all_nth in_set_conv_nth decodes_def split_def)
  then show ?thesis using put_all_ran [of Map.empty ms] ms(2) by (fastforce simp: late_def)
qed

lemma journal_loop_late:
  assumes "pool_inv p" and "late t (view p)" and "journal_loop t i us p = Inr q"
  shows "late t (view q)"
proof -
  obtain ms where ms: "list_all2 (decodes_update t) us ms" "view q = foldl view_update (view p) ms"
    using journal_loop_spec [OF assms(1,3)] by blast
  have "\<forall>(ds, d, a, x) \<in> set ms. t \<le> x"
    using ms(1) by (induction us ms rule: list_all2_induct) (auto simp: decodes_update_def decodes_def)
  then have "late t (foldl view_update v ms)" if "late t v" for v
    using that by (induction ms arbitrary: v) (auto simp del: view_update.simps intro: late_update)
  then show ?thesis using assms(2) ms(2) by simp
qed

lemma restore_keeps_pending:
  "pool_inv p \<Longrightarrow> restore now s w p = Inr q \<Longrightarrow> pendingDeletes q = pendingDeletes p"
  using restore_loop_spec [OF pool_inv_clear, of p "now + w" 0 "s_Mappings s" q]
  by (auto simp: restore_def split: if_splits)

lemma drop_pending [simp]:
  "pendingDeletes (drop_domain d p) = pendingDeletes p" "pendingDeletes (drop_address a p) = pendingDeletes p"
  by (auto simp: drop_domain_def drop_address_def split: option.split)

lemma drop_removed_pending: "drop_removed i j ds p = Inr q \<Longrightarrow> pendingDeletes q = pendingDeletes p"
  by (induction ds arbitrary: j p) (auto split: sum.splits)

lemma journal_loop_pending: "journal_loop t i us p = Inr q \<Longrightarrow> pendingDeletes q = pendingDeletes p"
  by (induction us arbitrary: i p) (auto simp: bindE_Inr_iff Let_def drop_removed_pending split: if_splits)

lemma read_quiet:
  "read_snapshot euid k io f = Inr (Some s) \<Longrightarrow> snapshot_holds euid k f s"
  "read_journal euid k io f = (rs, None) \<Longrightarrow> journal_holds euid k f rs"
  by (auto simp: snapshot_holds_def read_snapshot_def journal_holds_def read_journal_def
      split: disk_file.splits option.splits if_splits sum.splits prod.splits)

lemma open_snapshot_spec:
  assumes "pool_inv p" and "open_snapshot euid k io now w p d = Inr (q, snap, d1)"
  shows "pool_inv q" "same_frame p q" "pendingDeletes q = pendingDeletes p" "f_journal d1 = f_journal d"
    "snap = None \<Longrightarrow> q = p"
    "snap = Some s \<Longrightarrow> d1 = d \<and> snapshot_holds euid k (f_snapshot d) s \<and> restore now s w p = Inr q"
proof -
  have cases: "(snap = None \<and> q = p \<and> f_journal d1 = f_journal d) \<or>
      (\<exists>s. snap = Some s \<and> d1 = d \<and> snapshot_holds euid k (f_snapshot d) s \<and> restore now s w p = Inr q)"
    using assms(2) read_quiet(1)
    by (auto simp: open_snapshot_def split: sum.splits persist_error.splits option.splits)
  then show "pool_inv q" "same_frame p q" "pendingDeletes q = pendingDeletes p" "f_journal d1 = f_journal d"
    "snap = None \<Longrightarrow> q = p"
    "snap = Some s \<Longrightarrow> d1 = d \<and> snapshot_holds euid k (f_snapshot d) s \<and> restore now s w p = Inr q"
    using assms(1) restore_spec(1,2) [OF assms(1)] restore_keeps_pending [OF assms(1)] by auto
qed

lemma open_journal_spec:
  assumes inv: "pool_inv p" and oj: "open_journal euid k io now w p snap d = Inr (q, ep, needs, d2)"
  shows "pool_inv q" "same_frame p q" "pendingDeletes q = pendingDeletes p" "f_snapshot d2 = f_snapshot d"
    "needs \<or> snap = None \<Longrightarrow> journal_holds euid k (f_journal d2) []"
    "\<not> needs \<Longrightarrow> snap = Some s \<Longrightarrow> \<exists>rs active. d2 = d \<and> journal_holds euid k (f_journal d) rs \<and>
       active_journal_records rs (Some s) (pfx_string (p_prefix p)) = Inr (active, ep) \<and>
       restore_journal now (map update_of active) w p = Inr q"
proof -
  obtain rs err where rd: "read_journal euid k (oi_journal io) (f_journal d) = (rs, err)"
    by (cases "read_journal euid k (oi_journal io) (f_journal d)")
  have ok: "err = None \<Longrightarrow> journal_holds euid k (f_journal d) rs" using rd read_quiet(2) by blast
  have nil: "restore_journal now (map update_of []) w p = Inr p" by (simp add: restore_journal_def)
  have "f_snapshot d2 = f_snapshot d \<and> (needs \<longrightarrow> f_journal d2 = Missing) \<and>
      ((q = p \<and> needs) \<or>
       (\<exists>active. active_journal_records rs snap (pfx_string (p_prefix p)) = Inr (active, ep) \<and>
          restore_journal now (map update_of active) w p = Inr q \<and> (\<not> needs \<longrightarrow> err = None \<and> d2 = d)))"
    using oj rd nil
    by (auto simp: open_journal_def Let_def split: sum.splits persist_error.splits option.splits if_splits prod.splits)
  then show "pool_inv q" "same_frame p q" "pendingDeletes q = pendingDeletes p" "f_snapshot d2 = f_snapshot d"
    "needs \<or> snap = None \<Longrightarrow> journal_holds euid k (f_journal d2) []"
    "\<not> needs \<Longrightarrow> snap = Some s \<Longrightarrow> \<exists>rs active. d2 = d \<and> journal_holds euid k (f_journal d) rs \<and>
       active_journal_records rs (Some s) (pfx_string (p_prefix p)) = Inr (active, ep) \<and>
       restore_journal now (map update_of active) w p = Inr q"
    using inv ok restore_journal_inv [OF inv] journal_loop_pending
    by (auto simp: restore_journal_def journal_holds_iff active_journal_records_def split: if_splits)
qed

lemma set_persistence_view [simp]:
  "byDomain (set_persistence p) = byDomain p" "pendingDeletes (set_persistence p) = pendingDeletes p"
  "view (set_persistence p) = view p" "addrs (set_persistence p) = addrs p" "persist_set (set_persistence p)"
  "deref (set_persistence p) r = deref p r" "same_frame p (set_persistence p)"
  by (simp_all add: set_persistence_def view_def addrs_get deref_def fun_eq_iff same_frame_def)

text \<open>Opening files that recover to a map gives a pool with that map and leaves the files as they are.\<close>

lemma reopen:
  assumes rec: "recovers euid k p epoch d R" and inv: "pool_inv p1" and fr: "same_frame p p1"
    and path: "clean_absolute_path path" and w: "0 \<le> w"
    and io: "oi_snapshot io = quiet" "oi_journal io = quiet" "oi_random io = Inr bs" "length bs = 16"
  shows "\<exists>q ep. open_persistence euid k io now path w p1 d = Inr (q, ep, d) \<and> pool_inv q \<and> same_frame p1 q \<and>
    persist_set q \<and> pendingDeletes q = pendingDeletes p1 \<and> addrs q = R \<and> late (now + w) (view q) \<and>
    recovers euid k p ep d R"
proof -
  let ?pfx = "pfx_string (p_prefix p)"
  obtain s rs where s: "snapshot_holds euid k (f_snapshot d) s" "journal_holds euid k (f_journal d) rs"
    "journal_fits ?pfx epoch s rs" "replays p s (in_force epoch rs) R" using rec by (auto simp: recovers_def)
  obtain q1 q2 where q: "restore now s w p1 = Inr q1" "restore_journal now (map update_of (in_force epoch rs)) w q1 = Inr q2"
    "pool_inv q2" "same_frame p1 q2" "addrs q2 = R" using s(4) inv fr unfolding replays_def by blast
  note r1 = restore_spec(1,2) [OF inv q(1)]
  have pfx: "pfx_string (p_prefix q1) = ?pfx" using fr r1(2) by (simp add: same_frame_def)
  obtain ep where ep: "active_journal_records rs (Some s) ?pfx = Inr (in_force epoch rs, ep)"
    using active_of_fits [OF s(3)] by blast
  have os: "open_snapshot euid k io now w p1 d = Inr (q1, Some s, d)"
    using s(1) q(1) io(1) by (simp add: open_snapshot_def snapshot_holds_def)
  have oj: "open_journal euid k io now w q1 (Some s) d = Inr (q2, ep, False, d)"
  proof -
    define active where "active = in_force epoch rs"
    have "restore_journal now (map update_of active) w q1 = Inr q2"
      and "active_journal_records rs (Some s) (pfx_string (p_prefix q1)) = Inr (active, ep)"
      and "active = [] \<Longrightarrow> q2 = q1"
      using q(2) ep pfx by (simp_all add: active_def restore_journal_def)
    then show ?thesis
      using s(2) io(2) by (cases "active = []") (simp_all add: open_journal_def journal_holds_def)
  qed
  obtain ne where ne: "new_journal_epoch (Inr bs) = Inr ne" "valid_journal_epoch ne"
    using new_epoch_valid(2) [OF _ io(4)] by (simp add: new_journal_epoch_def)
  let ?ep = "if ep = [] then ne else ep"
  have "open_persistence euid k io now path w p1 d = Inr (set_persistence q2, ?ep, d)"
    using path w os oj ne(1) io(3) by (simp add: open_persistence_def)
  moreover have "recovers euid k p ?ep d R"
  proof -
    note f = fits_of_active [OF ep refl ne(2)]
    have "replays p s (in_force ?ep rs) R" using s(4) unfolding f(2) .
    then show ?thesis unfolding recovers_def using s(1,2) f(1) by blast
  qed
  moreover have "late (now + w) (view q2)"
    using journal_loop_late [OF r1(1) restore_late [OF inv q(1)]] q(2) by (simp add: restore_journal_def)
  moreover have "pendingDeletes q2 = pendingDeletes p1"
    using restore_keeps_pending [OF inv q(1)] journal_loop_pending q(2) by (simp add: restore_journal_def)
  ultimately show ?thesis
    using set_persistence_inv [OF q(3)] q(4,5) same_frame_trans [OF q(4) set_persistence_view(7)] by auto
qed

lemma open_phases:
  assumes "open_persistence euid k io now path w p0 d0 = Inr (p, epoch, d)"
  obtains q1 snap d1 q2 ep needs d2 ep1 where "open_snapshot euid k io now w p0 d0 = Inr (q1, snap, d1)"
    "open_journal euid k io now w q1 snap d1 = Inr (q2, ep, needs, d2)"
    "(if ep = [] then new_journal_epoch (oi_random io) else Inr ep) = Inr ep1"
    "p = set_persistence q2"
    "if snap = None \<or> needs
     then checkpoint euid k (oi_checkpoint io) (snapshot_locked now q2) ep1 d2 = (None, epoch, d)
     else epoch = ep1 \<and> d = d2"
proof -
  obtain q1 snap d1 q2 ep needs d2 ep1 where S: "open_snapshot euid k io now w p0 d0 = Inr (q1, snap, d1)"
    and J: "open_journal euid k io now w q1 snap d1 = Inr (q2, ep, needs, d2)"
    and e1: "(if ep = [] then new_journal_epoch (oi_random io) else Inr ep) = Inr ep1"
    and fin: "(if snap = None \<or> needs
          then (case checkpoint euid k (oi_checkpoint io) (snapshot_locked now q2) ep1 d2 of
                  (Some e, _, _) \<Rightarrow> Inl (Wrapped ''initialize Fake IP persistence'' e)
                | (None, epoch2, d3) \<Rightarrow> Inr (set_persistence q2, epoch2, d3))
          else Inr (set_persistence q2, ep1, d2)) = Inr (p, epoch, d)"
    using assms by (auto simp: open_persistence_def bindE_Inr_iff split: if_splits)
  show thesis
    using that [OF S J e1] fin by (auto split: if_splits prod.splits option.splits)
qed

lemma open_basic:
  assumes inv: "pool_inv p0" and op: "open_persistence euid k io now path w p0 d0 = Inr (p, epoch, d)"
  shows "pool_inv p" "same_frame p0 p" "pendingDeletes p = pendingDeletes p0" "persist_set p"
proof -
  obtain q1 snap d1 q2 ep needs d2 where os: "open_snapshot euid k io now w p0 d0 = Inr (q1, snap, d1)"
    and oj: "open_journal euid k io now w q1 snap d1 = Inr (q2, ep, needs, d2)" and p: "p = set_persistence q2"
    using open_phases [OF op] by metis
  note S = open_snapshot_spec [OF inv os]
  note J = open_journal_spec [OF S(1) oj]
  show "pool_inv p" "same_frame p0 p" "pendingDeletes p = pendingDeletes p0" "persist_set p"
    using p set_persistence_inv [OF J(1)] J(3) S(3) same_frame_trans [OF same_frame_trans [OF S(2) J(2)] set_persistence_view(7)]
    by auto
qed

text \<open>Opening any files at all leaves files that recover to the map of the pool it returns.\<close>

lemma open_recovers:
  assumes ck: "codec_ok k" and inv: "pool_inv p0" and now: "text_time now"
    and io: "\<forall>bs. oi_random io = Inr bs \<longrightarrow> length bs = 16"
      "\<forall>bs. ck_random (oi_checkpoint io) = Inr bs \<longrightarrow> length bs = 16 \<and>
          length (encSnapshot k ((snapshot_locked now p)\<lparr>s_JournalEpoch := hex_encode bs\<rparr>)) \<le> maxPersistenceSize"
    and op: "open_persistence euid k io now path w p0 d0 = Inr (p, epoch, d)"
    and pw: "pool_writable p"
  shows "recovers euid k p epoch d (addrs p)"
proof -
  obtain q1 snap d1 q2 ep needs d2 ep1 where os: "open_snapshot euid k io now w p0 d0 = Inr (q1, snap, d1)"
    and oj: "open_journal euid k io now w q1 snap d1 = Inr (q2, ep, needs, d2)"
    and e1: "(if ep = [] then new_journal_epoch (oi_random io) else Inr ep) = Inr ep1"
    and p: "p = set_persistence q2"
    and fin: "if snap = None \<or> needs
      then checkpoint euid k (oi_checkpoint io) (snapshot_locked now q2) ep1 d2 = (None, epoch, d)
      else epoch = ep1 \<and> d = d2"
    using open_phases [OF op] by blast
  note S = open_snapshot_spec [OF inv os]
  note J = open_journal_spec [OF S(1) oj]
  have fr2: "same_frame q2 p" using p by simp
  have sub: "recovers euid k q2 epoch d (addrs q2)"
  proof (cases "snap = None \<or> needs")
    case True
    then have cp: "checkpoint euid k (oi_checkpoint io) (snapshot_locked now q2) ep1 d2 = (None, epoch, d)"
      using fin by simp
    have jh: "journal_holds euid k (f_journal d2) []" using J(5) True by blast
    have pw2: "pool_writable q2"
      using pw J(1) p by (auto simp: pool_writable_def dels_def)
    have "ck_dirsync (oi_checkpoint io) = None"
      using cp by (auto simp: checkpoint_def write_snapshot_def split: sum.splits option.splits prod.splits)
    moreover have "snapshot_locked now q2 = snapshot_locked now p" using p by (simp add: snapshot_locked_def set_persistence_def deref_def)
    ultimately have env: "checkpoint_env euid k (oi_checkpoint io) (snapshot_locked now q2) (f_journal d2)"
      using io(2) jh by (auto simp: checkpoint_env_def journal_holds_def)
    show ?thesis using checkpoint_outcome(2) [OF ck pw2 now env jh _ cp] by simp
  next
    case False
    then obtain s where s: "snap = Some s" by auto
    obtain rs active where j: "d2 = d1" "journal_holds euid k (f_journal d1) rs"
      "active_journal_records rs (Some s) (pfx_string (p_prefix q1)) = Inr (active, ep)"
      "restore_journal now (map update_of active) w q1 = Inr q2"
      using J(6) [OF _ s] False by blast
    have sn: "d1 = d0" "snapshot_holds euid k (f_snapshot d0) s" "restore now s w p0 = Inr q1" using S(6) [OF s] by auto
    have fin': "epoch = ep1" "d = d2" using fin False by auto
    have fr: "same_frame q2 p0" using S(2) J(2) by (simp add: same_frame_def)
    have "ep \<noteq> [] \<or> (\<exists>bs. oi_random io = Inr bs)" using e1 by (auto simp: new_journal_epoch_def split: sum.splits if_splits)
    then obtain ne where ne: "epoch = (if ep = [] then ne else ep)" "valid_journal_epoch ne"
      using e1 fin'(1) io(1) new_epoch_valid(2) [of _ ep1] new_epoch_valid(2) [of "replicate 16 (CHR ''0'')"]
      by (cases "ep = []") (auto simp: new_journal_epoch_def split: sum.splits)
    note fits = fits_of_active [OF j(3) ne]
    have "replays q2 s (in_force epoch rs) (addrs q2)"
      using replays_intro [OF inv fr J(1) sn(3)] j(4) fits(2) by simp
    moreover have "p_prefix q2 = p_prefix q1" using J(2) by (simp add: same_frame_def)
    ultimately show ?thesis using fits(1) sn j(1,2) fin' unfolding recovers_def by auto
  qed
  then show "recovers euid k p epoch d (addrs p)" using recovers_frame [OF sub fr2] p by simp
qed

end
