(* ===== verification/Fakeip_Durable.thy ===== *)
theory Fakeip_Durable
  imports Fakeip_Recovery Fakeip_System Fakeip_Alloc
begin

text \<open>
  The Fake IP pool together with its files.  A state holds the pool, the operation that owns
  \<open>persistenceMutex\<close> and how far it got, the epoch and the disk.  A step is one critical section of the
  pool or one use of the disk; while an allocation or a flush writes, lookups, acquisitions, releases
  and prunes go on.  The invariant relates the pool to what the disk recovers to.
\<close>

section \<open>Steps\<close>

datatype durable_owner =
    DIdle
  | DAlloc string ptr persistence_update            \<comment> \<open>the mapping is in the indexes, not on disk\<close>
  | DWritten string ptr persistence_update bool     \<comment> \<open>\<open>record\<close> returned; whether it succeeded\<close>
  | DFlush snapshot "string list"                   \<comment> \<open>the snapshot is taken, not on disk\<close>
  | DFlushed "string list" bool

record durable_sys =
  du_pool :: pool
  du_owner :: durable_owner
  du_epoch :: string
  du_disk :: pdisk

fun in_flight :: "durable_owner \<Rightarrow> string set" where
  "in_flight (DAlloc d r u) = {d}"
| "in_flight (DWritten d r u ok) = {d}"
| "in_flight _ = {}"

text \<open>
  The assumptions on the surroundings of a step: the clock gives times that can be written down, and a
  mapping that is being written does not expire meanwhile.
\<close>

definition steady :: "gotime \<Rightarrow> durable_sys \<Rightarrow> bool" where
  "steady now s =
     (text_time now \<and> text_time (now + mappingTTL (du_pool s)) \<and>
      (\<forall>d \<in> in_flight (du_owner s). \<forall>r. gm_get (byDomain (du_pool s)) d = Some r \<longrightarrow>
         now < e_expiresAt (deref (du_pool s) r)))"

inductive durable_step :: "int \<Rightarrow> codecs \<Rightarrow> gotime \<Rightarrow> durable_sys \<Rightarrow> durable_sys \<Rightarrow> bool"
  for euid :: int and k :: codecs and now :: gotime where
  alloc_done: "du_owner s = DIdle \<Longrightarrow> steady now s \<Longrightarrow> normalize name = Inr d \<Longrightarrow>
     alloc_begin now d (du_pool s) = (out, q) \<Longrightarrow> \<not> is_persist out \<Longrightarrow>
     durable_step euid k now s (s\<lparr>du_pool := q\<rparr>)"
| alloc_start: "du_owner s = DIdle \<Longrightarrow> steady now s \<Longrightarrow> normalize name = Inr d \<Longrightarrow>
     alloc_begin now d (du_pool s) = (NeedPersist r u, q) \<Longrightarrow>
     durable_step euid k now s (s\<lparr>du_pool := q, du_owner := DAlloc d r u\<rparr>)"
| alloc_write: "du_owner s = DAlloc d r u \<Longrightarrow> steady now s \<Longrightarrow> clean_append aio \<Longrightarrow> clean_checkpoint cio \<Longrightarrow>
     checkpoint_env euid k cio (snapshot_locked now (du_pool s)) (f_journal (du_disk s)) \<Longrightarrow>
     persist_record euid k aio cio (pfx_string (p_prefix (du_pool s))) u (snapshot_locked now (du_pool s))
       (du_epoch s) (du_disk s) = (res, epoch, disk) \<Longrightarrow>
     durable_step euid k now s (s\<lparr>du_owner := DWritten d r u (res = None), du_epoch := epoch, du_disk := disk\<rparr>)"
| alloc_ok: "du_owner s = DWritten d r u True \<Longrightarrow>
     durable_step euid k now s (s\<lparr>du_pool := forget_deletes (u_Removed u) (du_pool s), du_owner := DIdle\<rparr>)"
| alloc_failed: "du_owner s = DWritten d r u False \<Longrightarrow>
     durable_step euid k now s (s\<lparr>du_pool := alloc_fail d r (du_pool s), du_owner := DIdle\<rparr>)"
| flush_start: "du_owner s = DIdle \<Longrightarrow> steady now s \<Longrightarrow>
     durable_step euid k now s
       (s\<lparr>du_owner := DFlush (snapshot_locked now (du_pool s)) (map fst (pendingDeletes (du_pool s)))\<rparr>)"
| flush_write: "du_owner s = DFlush snap ds \<Longrightarrow> checkpoint_env euid k cio snap (f_journal (du_disk s)) \<Longrightarrow>
     checkpoint euid k cio snap (du_epoch s) (du_disk s) = (res, epoch, disk) \<Longrightarrow>
     durable_step euid k now s (s\<lparr>du_owner := DFlushed ds (res = None), du_epoch := epoch, du_disk := disk\<rparr>)"
| flush_ok: "du_owner s = DFlushed ds True \<Longrightarrow>
     durable_step euid k now s (s\<lparr>du_pool := forget_deletes ds (du_pool s), du_owner := DIdle\<rparr>)"
| flush_failed: "du_owner s = DFlushed ds False \<Longrightarrow> durable_step euid k now s (s\<lparr>du_owner := DIdle\<rparr>)"
| lookup_step: "steady now s \<Longrightarrow>
     durable_step euid k now s (s\<lparr>du_pool := snd (lookup now a (du_pool s))\<rparr>)"
| acquire_step: "steady now s \<Longrightarrow>
     durable_step euid k now s (s\<lparr>du_pool := snd (acquire now a (du_pool s))\<rparr>)"
| release_step: "durable_step euid k now s (s\<lparr>du_pool := release r (du_pool s)\<rparr>)"
| prune_step: "steady now s \<Longrightarrow>
     durable_step euid k now s (s\<lparr>du_pool := snd (prune now (du_pool s))\<rparr>)"

inductive durable_reach :: "int \<Rightarrow> codecs \<Rightarrow> durable_sys \<Rightarrow> durable_sys \<Rightarrow> bool"
  for euid :: int and k :: codecs and s0 :: durable_sys where
  start: "durable_reach euid k s0 s0"
| step: "durable_reach euid k s0 s \<Longrightarrow> durable_step euid k now s t \<Longrightarrow> durable_reach euid k s0 t"


section \<open>Sections that only lose mappings\<close>

text \<open>The mappings of the domains in \<open>X\<close> stay as they are; every lost mapping is remembered.\<close>

definition shrinks :: "string set \<Rightarrow> pool \<Rightarrow> pool \<Rightarrow> bool" where
  "shrinks X p q =
     (pool_writable q \<and> same_frame p q \<and> persist_set q = persist_set p \<and>
      (\<forall>d. addrs q d = addrs p d \<or> addrs q d = None) \<and>
      (\<forall>d \<in> X. \<forall>r. gm_get (byDomain p) d = Some r \<longrightarrow>
         gm_get (byDomain q) d = Some r \<and> mapping_of (deref q r) = mapping_of (deref p r)) \<and>
      dels q = dels p \<union> (dom (addrs p) - dom (addrs q)))"

lemma shrinks_refl: "pool_writable p \<Longrightarrow> shrinks X p p"
  by (simp add: shrinks_def)

lemma shrinks_delete:
  assumes pw: "pool_writable p" and ps: "persist_set p" and r: "gm_get (byDomain p) d = Some r" and X: "d \<notin> X"
  shows "shrinks X p (delete_locked r p)"
proof -
  have ix: "index_inv p" and inv: "pool_inv p" using pw by (simp_all add: pool_writable_def pool_inv_def)
  note f = index_inv_domain [OF ix r]
  have look: "gm_get (byDomain (delete_locked r p)) e = (if e = d then None else gm_get (byDomain p) e)" for e
    by (simp add: f(2))
  have der: "deref (delete_locked r p) = deref p" by (simp add: deref_def fun_eq_iff)
  have pend: "dels (delete_locked r p) = insert d (dels p)"
    using ps by (auto simp: dels_def delete_locked_def delete_untracked_def f(2))
  have "pool_writable (delete_locked r p)"
    using pw pool_inv_delete(2) [OF inv] f(2,3) r by (auto simp: pool_writable_def look der pend split: if_splits)
  moreover have "addrs (delete_locked r p) = (addrs p)(d := None)"
    using f(2) by (auto simp: addrs_get look der fun_eq_iff)
  moreover obtain b where "addrs p d = Some b" using r by (simp add: addrs_get)
  moreover have "gm_get (byDomain (delete_locked r p)) e = gm_get (byDomain p) e" if "e \<in> X" for e
    using that X f(2) by auto
  ultimately show ?thesis
    using pend by (auto simp: shrinks_def der simp del: delete_index)
qed

lemma shrinks_heap:
  assumes pw: "pool_writable p" and e: "e_domain e = e_domain (deref p r)" "e_address e = e_address (deref p r)"
    and t: "text_time (e_expiresAt e) \<or> e_expiresAt e = e_expiresAt (deref p r)"
    and X: "X = {} \<or> e_expiresAt e = e_expiresAt (deref p r)"
  shows "shrinks X p (p\<lparr>heap := (heap p)[r := e]\<rparr>)"
proof -
  let ?q = "p\<lparr>heap := (heap p)[r := e]\<rparr>"
  have "pool_writable ?q"
    using pw t e pool_inv_heap_update [OF _ e] by (auto simp: pool_writable_def deref_heap_update dels_def)
  moreover have "addrs ?q = addrs p"
    using e(2) by (auto simp: addrs_get deref_heap_update fun_eq_iff option.map_comp intro!: map_option_cong)
  moreover have "mapping_of (deref ?q s) = mapping_of (deref p s)" if "X \<noteq> {}" for s
    using that X e by (simp add: deref_heap_update mapping_of_def)
  moreover have "dels ?q = dels p" by (simp add: dels_def)
  ultimately show ?thesis by (auto simp: shrinks_def same_frame_def)
qed

lemma shrinks_prune:
  assumes pw: "pool_writable p" and ps: "persist_set p"
    and X: "\<forall>d \<in> X. \<forall>r. gm_get (byDomain p) d = Some r \<longrightarrow> \<not> reclaimable now (deref p r)"
  shows "shrinks X p (prune_locked now p)"
proof -
  let ?q = "prune_locked now p"
  have inv: "pool_inv p" using pw by (simp add: pool_writable_def)
  note fr = prune_locked_frame [OF inv, of now] and look = prune_locked_lookup [OF inv, of now]
  have pend: "dels ?q = dels p \<union> (dom (addrs p) - dom (addrs ?q))"
  proof -
    have "gm_has (pendingDeletes ?q) d \<longleftrightarrow>
        gm_has (pendingDeletes p) d \<or> gm_has (byDomain p) d \<and> \<not> gm_has (byDomain ?q) d" for d
      using prune_locked_spec(1) [OF inv, of now] ps unfolding pruned_def by blast
    then show ?thesis unfolding dels_def dom_addrs unfolding dom_def by blast
  qed
  have can: "canonical d" if "addrs p d = Some a" for d a
    using that index_inv_domain(3) [OF pool_inv_parts(2) [OF inv]] by (auto simp: addrs_get)
  have "text_time (e_expiresAt (deref p r)) \<and> \<not> is4in6 (e_address (deref p r))"
    if "gm_get (byDomain ?q) d = Some r" for d r
    using that pw by (auto simp: pool_writable_def look split: option.splits if_splits)
  then have "pool_writable ?q"
    using pw prune_locked_spec(2) [OF inv, of now] can pend by (auto simp: pool_writable_def fr(3))
  moreover have "addrs ?q d = addrs p d \<or> addrs ?q d = None" for d
    by (auto simp: addrs_get look fr(3) split: option.splits)
  ultimately show ?thesis using X fr(1,3,4) pend by (auto simp: shrinks_def look)
qed

lemma shrinks_lookup:
  assumes "pool_writable p" and "persist_set p"
    and "\<forall>d \<in> X. \<forall>r. gm_get (byDomain p) d = Some r \<longrightarrow> \<not> reclaimable now (deref p r)"
  shows "shrinks X p (snd (lookup now a p))" "shrinks X p (snd (acquire now a p))"
proof -
  have del: "shrinks X p (delete_locked r p)" if r: "gm_get (byAddress p) a = Some r" "reclaimable now (deref p r)" for r
  proof -
    have "gm_get (byDomain p) (e_domain (deref p r)) = Some r"
      using index_inv_address(4) [of p a r] r assms(1) by (simp add: pool_writable_def pool_inv_def)
    then show ?thesis using shrinks_delete [OF assms(1,2)] r(2) assms(3) by blast
  qed
  show "shrinks X p (snd (lookup now a p))"
    using del shrinks_refl [OF assms(1)] by (auto simp: lookup_def split: option.split)
  show "shrinks X p (snd (acquire now a p))"
    using del shrinks_refl [OF assms(1)] shrinks_heap [OF assms(1), of "deref p r\<lparr>e_references := n\<rparr>" r X for r n]
    by (auto simp: acquire_def split: option.split)
qed

lemma shrinks_release: "pool_writable p \<Longrightarrow> shrinks X p (release r p)"
  using shrinks_refl shrinks_heap [of p "deref p r\<lparr>e_references := n\<rparr>" r X for n] by (simp add: release_def)


section \<open>The pool and what the disk recovers to\<close>

text \<open>
  The disk knows every mapping of \<open>V\<close> with its address; whatever else it knows has been dropped
  since, and the drop is not written down yet.
\<close>

definition tracks :: "amap \<Rightarrow> amap \<Rightarrow> string set \<Rightarrow> bool" where
  "tracks R V D = ((\<forall>d a. V d = Some a \<longrightarrow> R d = Some a) \<and> (\<forall>d. R d \<noteq> None \<and> V d = None \<longrightarrow> d \<in> D))"

lemma tracks_refl [simp]: "tracks R R D"
  by (auto simp: tracks_def)

lemma tracks_mono: "tracks R V D \<Longrightarrow> D \<subseteq> E \<Longrightarrow> tracks R V E"
  by (auto simp: tracks_def)

lemma shrinks_addrs:
  assumes "shrinks X p q"
  shows "addrs q d = Some a \<Longrightarrow> addrs p d = Some a" "d \<in> dels p \<Longrightarrow> d \<in> dels q"
    "addrs p d = Some a \<Longrightarrow> addrs q d = None \<Longrightarrow> d \<in> dels q \<and> d \<notin> X"
    "d \<in> dels q \<Longrightarrow> addrs q d = Some a \<Longrightarrow> d \<in> dels p"
proof -
  have same: "addrs q d = addrs p d \<or> addrs q d = None"
    and dl: "dels q = dels p \<union> (dom (addrs p) - dom (addrs q))" using assms by (simp_all add: shrinks_def)
  show "addrs q d = Some a \<Longrightarrow> addrs p d = Some a" using same by auto
  show "d \<in> dels p \<Longrightarrow> d \<in> dels q" using dl by blast
  show "d \<in> dels q \<Longrightarrow> addrs q d = Some a \<Longrightarrow> d \<in> dels p" using dl by (auto simp: domIff)
  show "d \<in> dels q \<and> d \<notin> X" if "addrs p d = Some a" "addrs q d = None"
    using that dl assms by (auto simp: shrinks_def addrs_get)
qed

lemma tracks_shrinks:
  assumes "shrinks X p q" and "tracks R (addrs p) (dels p - S)" and "S \<inter> dom (addrs p) \<subseteq> X"
  shows "tracks R (addrs q) (dels q - S)"
proof -
  note sh = shrinks_addrs [OF assms(1)]
  have "d \<in> dels q - S" if "R d \<noteq> None" "addrs q d = None" for d
  proof (cases "addrs p d")
    case None
    then show ?thesis using that(1) assms(2) sh(2) by (auto simp: tracks_def)
  next
    case (Some a)
    then show ?thesis using sh(3) [OF Some that(2)] assms(3) by auto
  qed
  then show ?thesis using sh(1) assms(2) by (simp add: tracks_def)
qed

lemma tracks_shrinks_without:
  assumes "shrinks X p q" and "tracks R ((addrs p)(d := None)) (dels p)"
  shows "tracks R ((addrs q)(d := None)) (dels q)"
proof -
  note sh = shrinks_addrs [OF assms(1)]
  have "e \<in> dels q" if "R e \<noteq> None" "((addrs q)(d := None)) e = None" for e
  proof (cases "((addrs p)(d := None)) e")
    case None
    then show ?thesis using that(1) assms(2) sh(2) by (auto simp: tracks_def)
  next
    case (Some a)
    then show ?thesis using sh(3) that(2) by (simp split: if_splits)
  qed
  moreover have "R e = Some a" if "((addrs q)(d := None)) e = Some a" for e a
  proof -
    have "((addrs p)(d := None)) e = Some a" using that sh(1) by (simp split: if_splits)
    then show ?thesis using assms(2) by (simp only: tracks_def)
  qed
  ultimately show ?thesis by (simp add: tracks_def)
qed

text \<open>A mapping that is being written.\<close>

definition writing :: "pool \<Rightarrow> string \<Rightarrow> ptr \<Rightarrow> persistence_update \<Rightarrow> bool" where
  "writing p d r u =
     (gm_get (byDomain p) d = Some r \<and> u_Mapping u = mapping_of (deref p r) \<and> text_time (u_RecordedAt u) \<and>
      list_all canonical (u_Removed u) \<and> set (u_Removed u) \<subseteq> dels p \<and>
      dels p \<inter> dom (addrs p) \<subseteq> {d} \<inter> set (u_Removed u))"

definition fits_limit :: "pool \<Rightarrow> persistence_update \<Rightarrow> entry \<Rightarrow> amap \<Rightarrow> bool" where
  "fits_limit p u e R =
     (int (card (dom (put_addr (set (u_Removed u)) (e_domain e) (e_address e) R) - {e_domain e})) < maxMappings p)"

definition settled :: "pool \<Rightarrow> bool" where
  "settled p = (dels p \<inter> dom (addrs p) = {})"

fun owner_inv :: "int \<Rightarrow> codecs \<Rightarrow> pool \<Rightarrow> string \<Rightarrow> pdisk \<Rightarrow> durable_owner \<Rightarrow> bool" where
  "owner_inv euid k p epoch d DIdle =
     (settled p \<and> (\<exists>R. recovers euid k p epoch d R \<and> tracks R (addrs p) (dels p)))"
| "owner_inv euid k p epoch d (DAlloc dm r u) =
     (writing p dm r u \<and> (\<exists>R. recovers euid k p epoch d R \<and> tracks R ((addrs p)(dm := None)) (dels p) \<and>
        fits_limit p u (deref p r) R))"
| "owner_inv euid k p epoch d (DWritten dm r u ok) =
     (writing p dm r u \<and> (\<exists>R. recovers euid k p epoch d R \<and>
        (if ok then tracks R (addrs p) (dels p - set (u_Removed u)) else tracks R ((addrs p)(dm := None)) (dels p))))"
| "owner_inv euid k p epoch d (DFlush s ds) =
     (settled p \<and> set ds \<subseteq> dels p \<and> (\<exists>R. recovers euid k p epoch d R \<and> tracks R (addrs p) (dels p)) \<and>
      (\<exists>p0 t. s = snapshot_locked t p0 \<and> text_time t \<and> pool_writable p0 \<and> same_frame p p0 \<and>
         tracks (addrs p0) (addrs p) (dels p - set ds)))"
| "owner_inv euid k p epoch d (DFlushed ds ok) =
     (settled p \<and> set ds \<subseteq> dels p \<and>
      (\<exists>R. recovers euid k p epoch d R \<and> tracks R (addrs p) (if ok then dels p - set ds else dels p)))"

definition durable_inv :: "int \<Rightarrow> codecs \<Rightarrow> durable_sys \<Rightarrow> bool" where
  "durable_inv euid k s =
     (pool_writable (du_pool s) \<and> persist_set (du_pool s) \<and> (\<forall>a. in_pool (du_pool s) a \<longrightarrow> \<not> is4in6 a) \<and>
      owner_inv euid k (du_pool s) (du_epoch s) (du_disk s) (du_owner s))"

lemma settled_shrinks: "shrinks X p q \<Longrightarrow> settled p \<Longrightarrow> settled q"
  using shrinks_addrs(1,4) [of X p q] unfolding settled_def by blast

lemma writing_shrinks:
  assumes sh: "shrinks X p q" and "d \<in> X" and "writing p d r u"
  shows "writing q d r u" "mapping_of (deref q r) = mapping_of (deref p r)"
proof -
  show m: "mapping_of (deref q r) = mapping_of (deref p r)"
    using assms unfolding shrinks_def writing_def by blast
  have d: "gm_get (byDomain q) d = Some r"
    using assms unfolding shrinks_def writing_def by blast
  have "set (u_Removed u) \<subseteq> dels q" using assms(3) shrinks_addrs(2) [OF sh] by (auto simp: writing_def)
  moreover have "e \<in> {d} \<inter> set (u_Removed u)" if "e \<in> dels q" "addrs q e = Some a" for e a
  proof -
    have "e \<in> dels p" "addrs p e = Some a" using shrinks_addrs(1,4) [OF sh] that by blast+
    then show ?thesis using assms(3) by (auto simp: writing_def)
  qed
  ultimately show "writing q d r u" using assms(3) d m by (auto simp: writing_def)
qed


section \<open>Every step keeps the relation\<close>

lemma dels_keys: "dels p = set (map fst (pendingDeletes p))"
  using gm_dom [of "pendingDeletes p"] by (auto simp: dels_def dom_def)

lemma shrinks_frame: "shrinks X p q \<Longrightarrow> recovers euid k p epoch d R \<Longrightarrow> recovers euid k q epoch d R"
  using recovers_frame [of euid k p epoch d R q] by (simp add: shrinks_def)

lemma fits_limit_shrinks:
  assumes sh: "shrinks X p q" and d: "d \<in> X" and "writing p d r u" and "fits_limit p u (deref p r) R"
  shows "fits_limit q u (deref q r) R"
proof -
  have r: "gm_get (byDomain p) d = Some r" "gm_get (byDomain q) d = Some r"
    using assms(3) writing_shrinks(1) [OF assms(1-3)] by (simp_all add: writing_def)
  have "e_domain (deref q r) = e_domain (deref p r)"
    using writing_shrinks(2) [OF assms(1-3)] by (simp add: mapping_of_def)
  moreover have "e_address (deref q r) = e_address (deref p r)"
    using shrinks_addrs(1) [OF sh, of d "e_address (deref q r)"] r by (simp add: addrs_get)
  moreover have "maxMappings q = maxMappings p" using sh by (simp add: shrinks_def same_frame_def)
  ultimately show ?thesis using assms(4) by (simp add: fits_limit_def)
qed

lemma owner_inv_shrinks:
  assumes sh: "shrinks (in_flight w) p q" and inv: "owner_inv euid k p epoch d w"
  shows "owner_inv euid k q epoch d w"
proof (cases w)
  case DIdle
  then show ?thesis
    using inv settled_shrinks [OF sh] shrinks_frame [OF sh] tracks_shrinks [OF sh, of _ "{}"] by simp blast
next
  case (DAlloc dm r u)
  then obtain R where wr: "writing p dm r u" and R: "recovers euid k p epoch d R"
    "tracks R ((addrs p)(dm := None)) (dels p)" "fits_limit p u (deref p r) R" using inv by auto
  have "dm \<in> in_flight w" using DAlloc by simp
  then have "writing q dm r u" "fits_limit q u (deref q r) R"
    using writing_shrinks(1) [OF sh _ wr] fits_limit_shrinks [OF sh _ wr R(3)] by blast+
  then show ?thesis using DAlloc shrinks_frame [OF sh R(1)] tracks_shrinks_without [OF sh R(2)] by auto
next
  case (DWritten dm r u ok)
  then have wr: "writing p dm r u" using inv by simp
  have "set (u_Removed u) \<inter> dom (addrs p) \<subseteq> {dm}" using wr by (auto simp: writing_def)
  then have "tracks R (addrs p) (dels p - set (u_Removed u)) \<Longrightarrow> tracks R (addrs q) (dels q - set (u_Removed u))" for R
    using tracks_shrinks [OF sh] DWritten by simp
  then show ?thesis
    using inv DWritten writing_shrinks(1) [OF sh _ wr] shrinks_frame [OF sh] tracks_shrinks_without [OF sh]
    by (cases ok) (simp, blast)+
next
  case (DFlush snap ds)
  then have fr: "same_frame p q" and "set ds \<inter> dom (addrs p) \<subseteq> {}"
    using inv sh by (auto simp: settled_def shrinks_def)
  then have "tracks R (addrs p) (dels p - set ds) \<Longrightarrow> tracks R (addrs q) (dels q - set ds)" for R
    using tracks_shrinks [OF sh] by blast
  moreover have "same_frame p p0 \<Longrightarrow> same_frame q p0" for p0 using fr by (simp add: same_frame_def)
  moreover have "set ds \<subseteq> dels q" using inv DFlush shrinks_addrs(2) [OF sh] by auto
  ultimately show ?thesis
    using inv DFlush settled_shrinks [OF sh] shrinks_frame [OF sh] tracks_shrinks [OF sh, of _ "{}"] by simp metis
next
  case (DFlushed ds ok)
  then have "set ds \<inter> dom (addrs p) \<subseteq> {}" using inv by (auto simp: settled_def)
  then have "tracks R (addrs p) (dels p - set ds) \<Longrightarrow> tracks R (addrs q) (dels q - set ds)" for R
    using tracks_shrinks [OF sh] by blast
  moreover have "set ds \<subseteq> dels q" using inv DFlushed shrinks_addrs(2) [OF sh] by auto
  ultimately show ?thesis
    using inv DFlushed settled_shrinks [OF sh] shrinks_frame [OF sh] tracks_shrinks [OF sh, of _ "{}"]
    by (cases ok) (simp, blast)+
qed

lemma durable_inv_shrinks:
  assumes "durable_inv euid k s" and sh: "shrinks (in_flight (du_owner s)) (du_pool s) q"
  shows "durable_inv euid k (s\<lparr>du_pool := q\<rparr>)"
proof -
  have "in_pool q a = in_pool (du_pool s) a" for a using sh same_frame_in_pool by (simp add: shrinks_def)
  then show ?thesis
    using assms owner_inv_shrinks [OF sh] by (simp add: durable_inv_def shrinks_def)
qed

lemma alloc_start_inv:
  assumes inv: "durable_inv euid k s" and st: "steady now s" and idle: "du_owner s = DIdle"
    and n: "normalize name = Inr d" and al: "alloc_begin now d (du_pool s) = (NeedPersist r u, q)"
  shows "durable_inv euid k (s\<lparr>du_pool := q, du_owner := DAlloc d r u\<rparr>)"
proof -
  let ?p = "du_pool s" and ?pr = "prune_locked now (du_pool s)"
  have pw: "pool_writable ?p" and ps: "persist_set ?p" and v6: "\<forall>a. in_pool ?p a \<longrightarrow> \<not> is4in6 a"
    and I: "pool_inv ?p" using inv by (simp_all add: durable_inv_def pool_writable_def)
  obtain a where fresh: "gm_get (byDomain ?p) d = None" "int (length (byDomain ?pr)) < maxMappings ?p"
    "fresh_alloc now d ?p a q" "pool_inv q" and r: "r = length (heap ?p)"
    and u: "u = \<lparr>u_RecordedAt = now, u_Removed = sorted_removed q, u_Mapping = mapping_of (deref q r)\<rparr>"
    using I normalize_canonical [OF n]
  proof (cases rule: alloc_begin_cases [where now = now])
  qed (use al ps in auto)
  note res = fresh_alloc_result [OF fresh(3) I]
  have sh: "shrinks {} ?p ?pr" using shrinks_prune [OF pw ps] by simp
  have mid: "durable_inv euid k (s\<lparr>du_pool := ?pr\<rparr>)" using durable_inv_shrinks [OF inv] idle sh by simp
  have prw: "pool_writable ?pr" using sh by (simp add: shrinks_def)
  obtain R where R: "settled ?pr" "recovers euid k ?pr (du_epoch s) (du_disk s) R" "tracks R (addrs ?pr) (dels ?pr)"
    using mid idle by (auto simp: durable_inv_def)
  obtain nx where q: "q = insert_entry d a (now + mappingTTL ?p) (?pr\<lparr>p_next := nx\<rparr>)"
    using fresh(3) by (auto simp: fresh_alloc_def)
  have ixp: "index_inv (?pr\<lparr>p_next := nx\<rparr>)"
    using prw by (simp add: pool_writable_def pool_inv_def index_inv_def deref_def in_pool_def)
  have "addrs (?pr\<lparr>p_next := nx\<rparr>) = addrs ?pr" by (simp add: addrs_get deref_def fun_eq_iff)
  then have aq: "addrs q = (addrs ?pr)(d \<mapsto> a)" using addrs_insert [OF ixp] q by simp
  have dq: "dels q = dels ?pr" by (simp add: q dels_def)
  have none: "addrs ?pr d = None"
    using prune_locked_lookup [OF I, of now d] fresh(1) by (simp add: addrs_None)
  have rm: "set (u_Removed u) = dels q" by (simp add: u sorted_removed_def dels_keys)
  have ea: "addrs q d = Some (e_address (deref q r))" "e_domain (deref q r) = d" "e_address (deref q r) = a"
    using res(1,3,4) r by (simp_all add: addrs_get)
  have wq: "pool_writable q"
    unfolding pool_writable_def
  proof (intro conjI allI impI)
    fix e t assume t: "gm_get (byDomain q) e = Some t"
    have "text_time (e_expiresAt (deref q t)) \<and> \<not> is4in6 (e_address (deref q t))"
    proof (cases "e = d")
      case True
      then show ?thesis using t res(1,3,5,7) v6 st by (auto simp: steady_def)
    next
      case False
      then have t': "gm_get (byDomain ?pr) e = Some t" using t res(10) by simp
      then have "t < length (heap ?p)"
        using index_inv_domain(1) [of ?pr e t] prw prune_locked_frame(2) [OF I, of now] by (simp add: pool_writable_def pool_inv_def)
      then show ?thesis
        using t' prw res(11) prune_locked_frame(3) [OF I, of now] by (auto simp: pool_writable_def)
    qed
    then show "text_time (e_expiresAt (deref q t))" "\<not> is4in6 (e_address (deref q t))" by simp_all
  qed (use fresh(4) prw dq in \<open>auto simp: pool_writable_def\<close>)
  have wr: "writing q d r u"
    using res(1) r rm wq st R(1) aq dq by (auto simp: writing_def u pool_writable_def list_all_iff steady_def settled_def)
  have "dom (put_addr (dels q) d a R) - {d} \<subseteq> dom (addrs ?pr)"
    using R(3) dq by (auto simp: put_addr_def tracks_def split: if_splits)
  then have "card (dom (put_addr (dels q) d a R) - {d}) \<le> length (byDomain ?pr)"
    using card_mono addrs_finite byDomain_length prw unfolding pool_writable_def pool_inv_def by metis
  then have lim: "fits_limit q u (deref q r) R"
    using fresh(2) res(8) ea rm by (simp add: fits_limit_def same_frame_def)
  have "tracks R ((addrs q)(d := None)) (dels q)" using R(3) aq dq none by (simp add: fun_upd_idem)
  moreover have "same_frame ?pr q" using res(8) prune_locked_frame(1) [OF I, of now] by (simp add: same_frame_def)
  ultimately have "owner_inv euid k q (du_epoch s) (du_disk s) (DAlloc d r u)"
    using wr lim recovers_frame [OF R(2)] by auto
  moreover have "in_pool q b = in_pool ?p b" for b using same_frame_in_pool [OF res(8)] .
  ultimately show ?thesis using wq res(9) ps v6 by (simp add: durable_inv_def)
qed

lemma alloc_done_inv:
  assumes inv: "durable_inv euid k s" and st: "steady now s" and idle: "du_owner s = DIdle"
    and n: "normalize name = Inr d" and al: "alloc_begin now d (du_pool s) = (out, q)" and np: "\<not> is_persist out"
  shows "durable_inv euid k (s\<lparr>du_pool := q\<rparr>)"
proof -
  let ?p = "du_pool s"
  have pw: "pool_writable ?p" and ps: "persist_set ?p" and I: "pool_inv ?p"
    using inv by (simp_all add: durable_inv_def pool_writable_def)
  have "shrinks {} ?p q"
    using I normalize_canonical [OF n]
  proof (cases rule: alloc_begin_cases [where now = now])
    case (existing r)
    then show ?thesis using al st shrinks_heap [OF pw] by (auto simp: steady_def)
  next
    case full
    have "shrinks {} ?p (prune_locked now ?p)" using shrinks_prune [OF pw ps] by simp
    then show ?thesis using full al
      by (auto simp: shrinks_def pool_writable_def dels_def addrs_get fun_eq_iff same_frame_def)
  next
    case (fresh a q')
    then show ?thesis using al np ps by auto
  qed
  then show ?thesis using durable_inv_shrinks [OF inv] idle by simp
qed

lemma alloc_write_inv:
  assumes ck: "codec_ok k" and inv: "durable_inv euid k s" and st: "steady now s" and ow: "du_owner s = DAlloc d r u"
    and io: "clean_append aio" "clean_checkpoint cio"
      "checkpoint_env euid k cio (snapshot_locked now (du_pool s)) (f_journal (du_disk s))"
    and pr: "persist_record euid k aio cio (pfx_string (p_prefix (du_pool s))) u (snapshot_locked now (du_pool s))
       (du_epoch s) (du_disk s) = (res, epoch, disk)"
  shows "durable_inv euid k (s\<lparr>du_owner := DWritten d r u (res = None), du_epoch := epoch, du_disk := disk\<rparr>)"
proof -
  let ?p = "du_pool s" and ?e = "deref (du_pool s) r" and ?rm = "set (u_Removed u)"
  have pw: "pool_writable ?p" and now: "text_time now" using inv st by (simp_all add: durable_inv_def steady_def)
  obtain R where wr: "writing ?p d r u" and R: "recovers euid k ?p (du_epoch s) (du_disk s) R"
    "tracks R ((addrs ?p)(d := None)) (dels ?p)" "fits_limit ?p u ?e R"
    using inv ow by (auto simp: durable_inv_def)
  have r: "gm_get (byDomain ?p) d = Some r" and u: "text_time (u_RecordedAt u)" "list_all canonical (u_Removed u)"
    "u_Mapping u = mapping_of ?e" and rm: "?rm \<subseteq> dels ?p" "dels ?p \<inter> dom (addrs ?p) \<subseteq> {d} \<inter> ?rm"
    using wr by (simp_all add: writing_def)
  have ix: "index_inv ?p" using pw by (simp add: pool_writable_def pool_inv_def)
  have d: "e_domain ?e = d" "addrs ?p d = Some (e_address ?e)"
    using index_inv_domain(2) [OF ix r] r by (simp_all add: addrs_get)
  note out = persist_record_outcome [OF ck R(1) pw now io u pool_writable_entry [OF pw r] R(3) [unfolded fits_limit_def] pr]
  have put: "tracks (put_addr ?rm d (e_address ?e) R) (addrs ?p) (dels ?p - ?rm)"
    unfolding tracks_def
  proof (intro conjI allI impI)
    fix x b assume b: "addrs ?p x = Some b"
    show "put_addr ?rm d (e_address ?e) R x = Some b"
    proof (cases "x = d")
      case False
      have "b \<noteq> e_address ?e" using addrs_inj [OF ix b, of d] d(2) False by auto
      moreover have "x \<notin> ?rm" using rm b False by blast
      moreover have "R x = Some b" using R(2) b False by (simp add: tracks_def)
      ultimately show ?thesis using False by (simp add: put_addr_def)
    qed (use b d in \<open>simp add: put_addr_def\<close>)
  next
    fix x assume "put_addr ?rm d (e_address ?e) R x \<noteq> None \<and> addrs ?p x = None"
    then have x: "put_addr ?rm d (e_address ?e) R x \<noteq> None" "addrs ?p x = None" by blast+
    have "x \<noteq> d" using x(2) d(2) by auto
    then have "x \<notin> ?rm" "R x \<noteq> None" using x(1) by (simp_all add: put_addr_def split: if_splits)
    then show "x \<in> dels ?p - ?rm" using R(2) x(2) \<open>x \<noteq> d\<close> by (simp add: tracks_def)
  qed
  have "owner_inv euid k ?p epoch disk (DWritten d r u (res = None))"
  proof (cases "res = None")
    case True
    then show ?thesis using out(1) wr put d(1) tracks_refl by auto
  next
    case False
    then show ?thesis using out(2) wr R(2) by auto
  qed
  then show ?thesis using inv by (simp add: durable_inv_def)
qed

lemma dels_forget: "dels (forget_deletes ds p) = dels p - set ds"
  by (auto simp: dels_def forget_deletes_def foldl_del_get)

lemma addrs_forget [simp]: "addrs (forget_deletes ds p) = addrs p"
  by (simp add: addrs_get forget_deletes_def deref_def fun_eq_iff)

lemma forget_writable:
  assumes "pool_writable p"
  shows "pool_writable (forget_deletes ds p)" "same_frame p (forget_deletes ds p)"
    "persist_set (forget_deletes ds p) = persist_set p"
proof -
  have "byDomain (forget_deletes ds p) = byDomain p" "deref (forget_deletes ds p) = deref p"
    by (simp_all add: forget_deletes_def deref_def fun_eq_iff)
  then show "pool_writable (forget_deletes ds p)"
    using assms forget_deletes_inv [of p ds] dels_forget [of ds p] by (auto simp: pool_writable_def)
qed (simp_all add: forget_deletes_def same_frame_def)

text \<open>The deletions a completed write made durable are forgotten.\<close>

lemma forget_inv:
  assumes inv: "durable_inv euid k s"
    and R: "recovers euid k (du_pool s) (du_epoch s) (du_disk s) R" "tracks R (addrs (du_pool s)) (dels (du_pool s) - set ds)"
    and sett: "(dels (du_pool s) - set ds) \<inter> dom (addrs (du_pool s)) = {}"
  shows "durable_inv euid k (s\<lparr>du_pool := forget_deletes ds (du_pool s), du_owner := DIdle\<rparr>)"
proof -
  have pw: "pool_writable (du_pool s)" using inv by (simp add: durable_inv_def)
  note f = forget_writable [OF pw, of ds]
  have "settled (forget_deletes ds (du_pool s))" using sett by (simp add: settled_def dels_forget)
  then show ?thesis
    using inv f recovers_frame [OF R(1) f(2)] R(2) same_frame_in_pool [OF f(2)]
    by (auto simp: durable_inv_def dels_forget)
qed

lemma alloc_ok_inv:
  assumes inv: "durable_inv euid k s" and ow: "du_owner s = DWritten d r u True"
  shows "durable_inv euid k (s\<lparr>du_pool := forget_deletes (u_Removed u) (du_pool s), du_owner := DIdle\<rparr>)"
proof -
  obtain R where wr: "writing (du_pool s) d r u" and R: "recovers euid k (du_pool s) (du_epoch s) (du_disk s) R"
    "tracks R (addrs (du_pool s)) (dels (du_pool s) - set (u_Removed u))"
    using inv ow by (auto simp: durable_inv_def)
  have "(dels (du_pool s) - set (u_Removed u)) \<inter> dom (addrs (du_pool s)) = {}" using wr by (auto simp: writing_def)
  then show ?thesis using forget_inv [OF inv R] by blast
qed

lemma alloc_failed_inv:
  assumes inv: "durable_inv euid k s" and ow: "du_owner s = DWritten d r u False"
  shows "durable_inv euid k (s\<lparr>du_pool := alloc_fail d r (du_pool s), du_owner := DIdle\<rparr>)"
proof -
  let ?p = "du_pool s" and ?q = "delete_untracked r (du_pool s)"
  obtain R where wr: "writing ?p d r u" and R: "recovers euid k ?p (du_epoch s) (du_disk s) R"
    "tracks R ((addrs ?p)(d := None)) (dels ?p)" using inv ow by (auto simp: durable_inv_def)
  have pw: "pool_writable ?p" and I: "pool_inv ?p" using inv by (simp_all add: durable_inv_def pool_writable_def)
  have r: "gm_get (byDomain ?p) d = Some r" using wr by (simp add: writing_def)
  have dom: "e_domain (deref ?p r) = d" using index_inv_domain(2) [OF pool_inv_parts(2) [OF I] r] .
  have q: "alloc_fail d r ?p = ?q" using r by (simp add: alloc_fail_def)
  have look: "byDomain ?q = gm_del (byDomain ?p) d" "deref ?q = deref ?p" "dels ?q = dels ?p"
    "same_frame ?p ?q" "persist_set ?q = persist_set ?p"
    using dom by (simp_all add: delete_untracked_def deref_def fun_eq_iff dels_def same_frame_def)
  have aq: "addrs ?q = (addrs ?p)(d := None)" using dom by (auto simp: addrs_get look(2) fun_eq_iff)
  have "pool_writable ?q"
    using pw pool_inv_delete(1) [OF I] r dom by (auto simp: pool_writable_def look split: if_splits)
  moreover have "settled ?q" using wr by (auto simp: settled_def writing_def look aq)
  ultimately show ?thesis
    using inv R recovers_frame [OF R(1) look(4)] same_frame_in_pool [OF look(4)]
    by (auto simp: durable_inv_def q look aq)
qed

lemma flush_write_inv:
  assumes ck: "codec_ok k" and inv: "durable_inv euid k s" and ow: "du_owner s = DFlush snap ds"
    and env: "checkpoint_env euid k cio snap (f_journal (du_disk s))"
    and cp: "checkpoint euid k cio snap (du_epoch s) (du_disk s) = (res, epoch, disk)"
  shows "durable_inv euid k (s\<lparr>du_owner := DFlushed ds (res = None), du_epoch := epoch, du_disk := disk\<rparr>)"
proof -
  let ?p = "du_pool s"
  obtain R p0 t where R: "recovers euid k ?p (du_epoch s) (du_disk s) R" "tracks R (addrs ?p) (dels ?p)"
    and p0: "snap = snapshot_locked t p0" "text_time t" "pool_writable p0" "same_frame ?p p0"
      "tracks (addrs p0) (addrs ?p) (dels ?p - set ds)"
    using inv ow by (auto simp: durable_inv_def)
  obtain sn rs where "journal_holds euid k (f_journal (du_disk s)) rs" "journal_fits (pfx_string (p_prefix p0)) (du_epoch s) sn rs"
    using recovers_frame [OF R(1) p0(4)] by (auto simp: recovers_def)
  then have out: "res \<noteq> None \<and> epoch = du_epoch s \<and> disk = du_disk s \<or> recovers euid k p0 epoch disk (addrs p0)"
    using checkpoint_outcome(1) [OF ck p0(3,2)] env cp p0(1) by (auto simp: journal_fits_def)
  have fr: "same_frame p0 ?p" using p0(4) by (simp add: same_frame_def)
  have "owner_inv euid k ?p epoch disk (DFlushed ds (res = None))"
    using out
  proof
    assume "res \<noteq> None \<and> epoch = du_epoch s \<and> disk = du_disk s"
    then show ?thesis using inv ow R by (auto simp: durable_inv_def)
  next
    assume "recovers euid k p0 epoch disk (addrs p0)"
    then have "recovers euid k ?p epoch disk (addrs p0)" using recovers_frame fr by blast
    then show ?thesis using inv ow p0(5) tracks_mono [OF p0(5), of "dels ?p"] by (auto simp: durable_inv_def)
  qed
  then show ?thesis using inv by (simp add: durable_inv_def)
qed

lemma steady_protects:
  assumes "steady now s"
  shows "\<forall>d \<in> in_flight (du_owner s). \<forall>r. gm_get (byDomain (du_pool s)) d = Some r \<longrightarrow>
    \<not> reclaimable now (deref (du_pool s) r)"
  using assms by (auto simp: steady_def reclaimable_def)

lemma durable_step_inv:
  assumes "codec_ok k"
  shows "durable_step euid k now s t \<Longrightarrow> durable_inv euid k s \<Longrightarrow> durable_inv euid k t"
proof (induction rule: durable_step.induct)
  case (alloc_done s name d out q)
  then show ?case using alloc_done_inv by blast
next
  case (alloc_start s name d r u q)
  then show ?case using alloc_start_inv by blast
next
  case (alloc_write s d r u aio cio res epoch disk)
  then show ?case using alloc_write_inv [OF assms] by blast
next
  case (alloc_ok s d r u)
  then show ?case using alloc_ok_inv by blast
next
  case (alloc_failed s d r u)
  then show ?case using alloc_failed_inv by blast
next
  case (flush_start s)
  then show ?case
    using tracks_refl same_frame_refl by (fastforce simp: durable_inv_def steady_def dels_keys)
next
  case (flush_write s snap ds cio res epoch disk)
  then show ?case using flush_write_inv [OF assms] by blast
next
  case (flush_ok s ds)
  then obtain R where R: "recovers euid k (du_pool s) (du_epoch s) (du_disk s) R"
    "tracks R (addrs (du_pool s)) (dels (du_pool s) - set ds)" and "settled (du_pool s)"
    by (auto simp: durable_inv_def)
  then have "(dels (du_pool s) - set ds) \<inter> dom (addrs (du_pool s)) = {}" by (auto simp: settled_def)
  then show ?case by (rule forget_inv [OF flush_ok(2) R])
next
  case (flush_failed s ds)
  then show ?case by (auto simp: durable_inv_def)
next
  case (lookup_step s a)
  then have "shrinks (in_flight (du_owner s)) (du_pool s) (snd (lookup now a (du_pool s)))"
    using shrinks_lookup(1) [OF _ _ steady_protects] by (simp add: durable_inv_def)
  then show ?case by (rule durable_inv_shrinks [OF lookup_step(2)])
next
  case (acquire_step s a)
  then have "shrinks (in_flight (du_owner s)) (du_pool s) (snd (acquire now a (du_pool s)))"
    using shrinks_lookup(2) [OF _ _ steady_protects] by (simp add: durable_inv_def)
  then show ?case by (rule durable_inv_shrinks [OF acquire_step(2)])
next
  case (release_step s r)
  then have "shrinks (in_flight (du_owner s)) (du_pool s) (release r (du_pool s))"
    using shrinks_release by (simp add: durable_inv_def)
  then show ?case by (rule durable_inv_shrinks [OF release_step])
next
  case (prune_step s)
  then have "shrinks (in_flight (du_owner s)) (du_pool s) (prune_locked now (du_pool s))"
    using shrinks_prune steady_protects by (simp add: durable_inv_def)
  then show ?case using durable_inv_shrinks [OF prune_step(2)] by (simp add: prune_def Let_def)
qed

lemma durable_reach_inv:
  assumes "codec_ok k" and "durable_inv euid k s0"
  shows "durable_reach euid k s0 s \<Longrightarrow> durable_inv euid k s"
proof (induction rule: durable_reach.induct)
  case start
  show ?case by (rule assms(2))
next
  case (step s now t)
  then show ?case using durable_step_inv [OF assms(1)] by blast
qed

text \<open>No step changes the configuration.\<close>

lemma durable_step_frame:
  assumes "durable_step euid k now s t" and inv: "durable_inv euid k s"
  shows "same_frame (du_pool s) (du_pool t)"
  using assms(1)
proof cases
  case (alloc_done name d out q)
  then show ?thesis
    using alloc_begin_frame [of "du_pool s" d now] normalize_canonical inv by (auto simp: durable_inv_def pool_writable_def)
next
  case (alloc_start name d r u q)
  then show ?thesis
    using alloc_begin_frame [of "du_pool s" d now] normalize_canonical inv by (auto simp: durable_inv_def pool_writable_def)
next
  case (lookup_step a)
  then show ?thesis
    using shrinks_lookup(1) [of "du_pool s" "{}" now a] inv by (simp add: durable_inv_def shrinks_def)
next
  case (acquire_step a)
  then show ?thesis
    using shrinks_lookup(2) [of "du_pool s" "{}" now a] inv by (simp add: durable_inv_def shrinks_def)
next
  case (release_step r)
  then show ?thesis using shrinks_release [of "du_pool s" "{}" r] inv by (simp add: durable_inv_def shrinks_def)
next
  case prune_step
  then show ?thesis
    using shrinks_prune [of "du_pool s" "{}" now] inv by (simp add: durable_inv_def shrinks_def prune_def Let_def)
qed (simp_all add: same_frame_def forget_deletes_def alloc_fail_def delete_untracked_def)

lemma durable_reach_frame:
  assumes "codec_ok k" and "durable_inv euid k s0"
  shows "durable_reach euid k s0 s \<Longrightarrow> same_frame (du_pool s0) (du_pool s)"
proof (induction rule: durable_reach.induct)
  case start
  show ?case by simp
next
  case (step s now t)
  then show ?case
    using durable_step_frame [OF step(2) durable_reach_inv [OF assms step(1)]] same_frame_trans by blast
qed

text \<open>A whole \<open>flushPersistence\<close> call is a run of these steps.\<close>

lemma flush_call_steps:
  assumes "du_owner s = DIdle" and "steady now s" and "persist_set (du_pool s)"
    and "checkpoint_env euid k io (snapshot_locked now (du_pool s)) (f_journal (du_disk s))"
    and "flush_persistence euid k io now (du_pool s) (du_epoch s) (du_disk s) = (res, p, epoch, disk)"
  shows "durable_reach euid k s (s\<lparr>du_pool := p, du_epoch := epoch, du_disk := disk\<rparr>)"
proof -
  let ?snap = "snapshot_locked now (du_pool s)" and ?ds = "map fst (pendingDeletes (du_pool s))"
  let ?s1 = "s\<lparr>du_owner := DFlush ?snap ?ds\<rparr>"
  let ?s2 = "?s1\<lparr>du_owner := DFlushed ?ds (res = None), du_epoch := epoch, du_disk := disk\<rparr>"
  have cp: "checkpoint euid k io ?snap (du_epoch s) (du_disk s) = (res, epoch, disk)"
    and p: "p = (if res = None then forget_deletes ?ds (du_pool s) else du_pool s)"
    using assms(3,5) by (auto simp: flush_persistence_def Let_def split: prod.splits option.splits)
  have "durable_reach euid k s ?s1"
    by (rule durable_reach.step [OF durable_reach.start durable_step.flush_start [OF assms(1,2)]])
  then have "durable_reach euid k s ?s2"
    by (rule durable_reach.step [OF _ durable_step.flush_write [where now = now]]) (use assms(4) cp in simp_all)
  then have "durable_reach euid k s (?s2\<lparr>du_pool := p, du_owner := DIdle\<rparr>)"
  proof (rule durable_reach.step)
    show "durable_step euid k now ?s2 (?s2\<lparr>du_pool := p, du_owner := DIdle\<rparr>)"
      using durable_step.flush_ok [of ?s2 ?ds euid k now] durable_step.flush_failed [of ?s2 ?ds euid k now] p
      by (cases res) simp_all
  qed
  moreover have "?s2\<lparr>du_pool := p, du_owner := DIdle\<rparr> = s\<lparr>du_pool := p, du_epoch := epoch, du_disk := disk\<rparr>"
    using assms(1) by (cases s) simp
  ultimately show ?thesis by simp
qed

end
