(* ===== verification/Fakeip_Persistence_Properties.thy ===== *)
theory Fakeip_Persistence_Properties
  imports Fakeip_Durable Fakeip_Properties
begin

text \<open>
  The promises of \<open>internal/fakeip/persistence.go\<close>: appends are atomic for a reader, the mappings a
  process had made durable come back after a restart whenever it stops, and what goes wrong when the
  directory sync of a checkpoint fails.
\<close>

section \<open>A concrete codec\<close>

text \<open>
  Fields in hexadecimal, each followed by a comma.  It stands in for JSON and YAML in the examples below.
\<close>

fun hex_decode :: "string \<Rightarrow> string" where
  "hex_decode (a # b # s) =
     char_of (16 * the (hex_digit a) + the (hex_digit b)) # hex_decode s"
| "hex_decode _ = []"

definition enc_fields :: "string list \<Rightarrow> string" where
  "enc_fields xs = concat (map (\<lambda>x. hex_encode x @ '','') xs)"

definition dec_fields :: "string \<Rightarrow> string list" where
  "dec_fields s = map hex_decode (butlast (split_on (CHR '','') s))"

definition time_text :: "gotime \<Rightarrow> string" where
  "time_text t = dec_digits (nat t)"

definition text_to_time :: "string \<Rightarrow> gotime" where
  "text_to_time s = int (digits_value s)"

definition mapping_fields :: "mapping_rec \<Rightarrow> string list" where
  "mapping_fields m = [m_Domain m, m_Address m, time_text (m_ExpiresAt m)]"

fun fields_mappings :: "string list \<Rightarrow> mapping_rec list" where
  "fields_mappings (d # a # x # fs) =
     \<lparr>m_Domain = d, m_Address = a, m_ExpiresAt = text_to_time x\<rparr> # fields_mappings fs"
| "fields_mappings _ = []"

definition record_fields :: "journal_record \<Rightarrow> string list" where
  "record_fields r =
     [j_Prefix r, j_Epoch r, time_text (j_RecordedAt r)] @ mapping_fields (j_Mapping r) @ j_Removed r"

fun fields_record :: "string list \<Rightarrow> journal_record option" where
  "fields_record (x # e # t # d # a # y # rm) =
     Some \<lparr>j_Version = persistenceVersion, j_Prefix = x, j_Epoch = e, j_RecordedAt = text_to_time t, j_Removed = rm,
           j_Mapping = \<lparr>m_Domain = d, m_Address = a, m_ExpiresAt = text_to_time y\<rparr>\<rparr>"
| "fields_record _ = None"

definition snapshot_fields :: "snapshot \<Rightarrow> string list" where
  "snapshot_fields s =
     [s_Prefix s, s_JournalEpoch s, time_text (s_SavedAt s)] @ concat (map mapping_fields (s_Mappings s))"

fun fields_snapshot :: "string list \<Rightarrow> snapshot option" where
  "fields_snapshot (x # e # t # ms) =
     Some \<lparr>s_Version = persistenceVersion, s_Prefix = x, s_SavedAt = text_to_time t, s_JournalEpoch = e,
           s_Mappings = fields_mappings ms\<rparr>"
| "fields_snapshot _ = None"

definition hex_codec :: codecs where
  "hex_codec =
     \<lparr>encRecord = (\<lambda>r. Inr (enc_fields (record_fields r))), decRecord = (\<lambda>l. fields_record (dec_fields l)),
      encSnapshot = (\<lambda>s. enc_fields (snapshot_fields s)), decSnapshot = (\<lambda>l. fields_snapshot (dec_fields l))\<rparr>"

lemma hex_decode_encode: "hex_decode (hex_encode s) = s"
proof (induction s)
  case Nil
  then show ?case by (simp add: hex_encode_def)
next
  case (Cons c s)
  have "hex_digit (hex_char (byte c div 16)) = Some (byte c div 16)"
    "hex_digit (hex_char (byte c mod 16)) = Some (byte c mod 16)"
    using less_mult_imp_div_less [of "byte c" 16 16] nat_of_char_less_256 [of c] by (simp_all add: hex_digit_hex_char)
  then show ?case using Cons by (simp add: hex_encode_def)
qed

lemma hex_encode_plain:
  assumes "hex_digit c = None"
  shows "c \<notin> set (hex_encode s)"
  using hex_encode_hex [of s] assms by (auto simp: list_all_iff)

lemma dec_enc_fields: "dec_fields (enc_fields xs) = xs"
proof -
  have "hex_digit (CHR '','') = None" by code_simp
  then have "split_on (CHR '','') (enc_fields xs) = map hex_encode xs @ [[]]"
    by (induction xs) (simp_all add: enc_fields_def split_on_append split_on_plain hex_encode_plain)
  then show ?thesis by (simp add: dec_fields_def hex_decode_encode comp_def)
qed

lemma enc_fields_plain: "newline \<notin> set (enc_fields xs)"
proof -
  have "hex_digit newline = None" by code_simp
  then show ?thesis using hex_encode_plain by (auto simp: enc_fields_def)
qed

lemma text_time_back: "text_time t \<Longrightarrow> text_to_time (time_text t) = t"
  by (simp add: text_to_time_def time_text_def digits_value_dec_digits text_time_def)

lemma mappings_back:
  "list_all mapping_safe ms \<Longrightarrow> fields_mappings (concat (map mapping_fields ms)) = ms"
  by (induction ms) (auto simp: mapping_fields_def mapping_safe_def text_time_back)

lemma hex_codec_ok: "codec_ok hex_codec"
proof -
  have "fields_record (record_fields r) = Some r" if "record_safe r" for r
    using that by (simp add: record_safe_def record_fields_def mapping_fields_def mapping_safe_def text_time_back)
  moreover have "fields_snapshot (snapshot_fields s) = Some s" if "snapshot_safe s" for s
    using that by (simp add: snapshot_safe_def snapshot_fields_def text_time_back mappings_back)
  moreover have "enc_fields (record_fields r) \<noteq> []" for r by (simp add: enc_fields_def record_fields_def)
  ultimately show ?thesis
    by (simp add: codec_ok_def hex_codec_def dec_enc_fields enc_fields_plain)
qed


section \<open>Appending\<close>

text \<open>
  C22: An append to a journal in order is atomic for a later reader.  If \<open>record\<close> succeeds the journal
  reads as the old records followed by the new one; whatever system call fails it reads as the old
  records, with or without the new one, and as exactly the old ones if the rollback and the calls after
  the write succeed; and when the process dies after any number of bytes of the line, the complete
  records are recovered.
\<close>

theorem journal_append_atomic:
  assumes "codec_ok k" and "record_safe r" and "journal_holds euid k f rs"
    and "append_record euid k io r f = (res, f')"
  shows "(res = Appended \<longrightarrow> read_journal euid k quiet f' = (rs @ [r], None)) \<and>
    (res = NeedCheckpoint \<longrightarrow> f' = f) \<and>
    (\<forall>e. res = AppendFailed e \<longrightarrow> fst (read_journal euid k quiet f') \<in> {rs, rs @ [r]} \<and>
       (clean_append io \<longrightarrow> read_journal euid k quiet f' = (rs, None))) \<and>
    (\<forall>l n. encRecord k r = Inr l \<and> length l < maxJournalRecordSize \<longrightarrow>
       fst (parse_journal k (file_bytes f @ take n (l @ [newline]))) = (if n \<le> length l then rs else rs @ [r]))"
proof -
  obtain l where l: "encRecord k r = Inr l" "l \<noteq> []" "newline \<notin> set l" "decRecord k l = Some r"
    using assms(1,2) by (auto simp: codec_ok_def)
  have "fst (parse_journal k (file_bytes f @ take n (l @ [newline]))) = (if n \<le> length l then rs else rs @ [r])"
    if "length l < maxJournalRecordSize" for n
    using parse_journal_prefix(1) [OF journal_bytes(1) [OF assms(3)]] l that by (simp add: clean_line_def)
  moreover have "(res = Appended \<longrightarrow> read_journal euid k quiet f' = (rs @ [r], None)) \<and>
    (res = NeedCheckpoint \<longrightarrow> f' = f) \<and>
    (\<forall>e. res = AppendFailed e \<longrightarrow> fst (read_journal euid k quiet f') \<in> {rs, rs @ [r]} \<and>
       (clean_append io \<longrightarrow> read_journal euid k quiet f' = (rs, None)))"
    using assms(3) l assms(4) by (cases rule: append_record_outcome) (simp_all add: journal_holds_def)
  ultimately show ?thesis using l(1) by auto
qed

definition sample_epoch :: string where
  "sample_epoch = hex_encode ''0123456789abcdef''"

definition sample_record :: journal_record where
  "sample_record = \<lparr>j_Version = 1, j_Prefix = ''198.18.0.0/29'', j_Epoch = sample_epoch, j_RecordedAt = 5,
     j_Removed = [], j_Mapping = \<lparr>m_Domain = ''example.com'', m_Address = ''198.18.0.1'', m_ExpiresAt = 60000000005\<rparr>\<rparr>"

definition sample_append_io :: append_io where
  "sample_append_io = \<lparr>ap_open = None, ap_chmod = None, ap_write = (\<lambda>i. (4096, None)), ap_sync = None,
     ap_truncate = True, ap_close = None, ap_dirsync = None\<rparr>"

lemma sample_texts:
  "pfx_string sample_prefix = ''198.18.0.0/29''" "addr_string (V4 3323068417) = ''198.18.0.1''"
  "valid_journal_epoch sample_epoch"
  by code_simp+

lemma sample_record_safe: "record_safe sample_record"
  using sample_texts sample_canonical exI [of "\<lambda>x. ''198.18.0.0/29'' = pfx_string x" sample_prefix]
    exI [of "\<lambda>a. is_valid a \<and> addr_zone a = [] \<and> ''198.18.0.1'' = addr_string a" "V4 3323068417"]
  by (simp add: record_safe_def sample_record_def mapping_safe_def text_time_def persistenceVersion_def)

lemma sample_append:
  "append_record 0 hex_codec sample_append_io sample_record Missing =
     (Appended, File (created_stat 0) (enc_fields (record_fields sample_record) @ [newline]))"
proof -
  have len: "length (enc_fields (record_fields sample_record)) = 162" by code_simp
  have "write_all (\<lambda>i. (4096, None)) 0 l = (None, l)" if "l \<noteq> []" "length l \<le> 4096" for l
    using that by (simp add: write_all.simps [of _ 0 l] write_all.simps [of _ _ "[]"])
  then show ?thesis
    using len
    by (simp add: append_record_def hex_codec_def maxJournalRecordSize_def maxPersistenceSize_def inspect_journal_def
        sample_append_io_def append_opened_def file_bytes_def with_bytes_def)
qed

theorem journal_append_atomic_witness:
  "append_record 0 hex_codec sample_append_io sample_record Missing =
     (Appended, File (created_stat 0) (enc_fields (record_fields sample_record) @ [newline])) \<and>
   read_journal 0 hex_codec quiet (File (created_stat 0) (enc_fields (record_fields sample_record) @ [newline])) =
     ([sample_record], None)"
proof -
  have "journal_holds 0 hex_codec Missing []" by (simp add: journal_holds_iff)
  then show ?thesis
    using journal_append_atomic [OF hex_codec_ok sample_record_safe _ sample_append] sample_append by simp
qed


section \<open>Restarting\<close>

text \<open>The domain whose mapping is in the pool but not on disk.\<close>

fun unwritten :: "durable_owner \<Rightarrow> string set" where
  "unwritten (DAlloc d r u) = {d}"
| "unwritten (DWritten d r u ok) = (if ok then {} else {d})"
| "unwritten _ = {}"

lemma durable_inv_recovers:
  assumes "durable_inv euid k s"
  shows "\<exists>R. recovers euid k (du_pool s) (du_epoch s) (du_disk s) R \<and>
    (\<forall>d a. addrs (du_pool s) d = Some a \<and> d \<notin> unwritten (du_owner s) \<longrightarrow> R d = Some a) \<and>
    (\<forall>d a. R d = Some a \<longrightarrow> addrs (du_pool s) d = Some a \<or> d \<in> dels (du_pool s))"
proof -
  let ?V = "\<lambda>d. if d \<in> unwritten (du_owner s) then None else addrs (du_pool s) d"
  have upd: "(\<lambda>e. if e \<in> {d} then None else addrs (du_pool s) e) = (addrs (du_pool s))(d := None)" for d
    by (auto simp: fun_eq_iff)
  obtain R where R: "recovers euid k (du_pool s) (du_epoch s) (du_disk s) R" "tracks R ?V (dels (du_pool s))"
  proof (cases "du_owner s")
    case (DWritten d r u ok)
    then show ?thesis
      using assms that upd tracks_mono [of _ "addrs (du_pool s)" _ "dels (du_pool s)"]
      by (cases ok) (auto simp: durable_inv_def)
  next
    case (DFlushed ds ok)
    then show ?thesis
      using assms that tracks_mono [of _ "addrs (du_pool s)" _ "dels (du_pool s)"]
      by (cases ok) (auto simp: durable_inv_def)
  qed (use assms upd in \<open>auto simp: durable_inv_def\<close>)
  then have "addrs (du_pool s) d = Some a" if "R d = Some a" "d \<notin> dels (du_pool s)" for d a
    using that by (cases "?V d") (auto simp: tracks_def split: if_splits)
  moreover have "R d = Some a" if "addrs (du_pool s) d = Some a" "d \<notin> unwritten (du_owner s)" for d a
    using that R(2) by (simp add: tracks_def)
  ultimately show ?thesis using R(1) by blast
qed

text \<open>
  C3: Persistence survives restarts.  A pool is opened on any files at all, and then allocations,
  flushes, lookups, acquisitions, releases and prunes run interleaved as the two mutexes allow, with
  failing system calls.  Whenever the process stops, opening the files again with the same
  configuration succeeds and restores every mapping the pool held, with the same address and protected
  for the whole window, except one whose journal write had not been completed; and it restores nothing
  but those and mappings the pool had dropped since its last completed write.
\<close>

theorem mappings_survive_restart:
  assumes k: "codec_ok k" and new: "new_pool pfx ttl maxM reserve = Inr p0" and "pfx_wf pfx" and "maxM < 2 ^ 63"
    and "reserve < 2 ^ 63" and v6: "\<forall>a. in_pool p0 a \<longrightarrow> \<not> is4in6 a"
    and op: "open_persistence euid k io now path w p0 d0 = Inr (p, epoch, d)" and now: "text_time now"
    and io: "\<forall>bs. oi_random io = Inr bs \<longrightarrow> length bs = 16"
      "\<forall>bs. ck_random (oi_checkpoint io) = Inr bs \<longrightarrow> length bs = 16 \<and>
          length (encSnapshot k ((snapshot_locked now p)\<lparr>s_JournalEpoch := hex_encode bs\<rparr>)) \<le> maxPersistenceSize"
    and times: "\<forall>e r. gm_get (byDomain p) e = Some r \<longrightarrow> text_time (e_expiresAt (deref p r))"
    and run: "durable_reach euid k \<lparr>du_pool = p, du_owner = DIdle, du_epoch = epoch, du_disk = d\<rparr> s"
    and io': "oi_snapshot io' = quiet" "oi_journal io' = quiet" "oi_random io' = Inr bs" "length bs = 16" and w': "0 \<le> w'"
  shows "\<exists>q ep. open_persistence euid k io' now' path w' p0 (du_disk s) = Inr (q, ep, du_disk s) \<and> pool_inv q \<and>
    (\<forall>e a x. view q e = Some (a, x) \<longrightarrow> now' + w' \<le> x) \<and>
    (\<forall>e a. addrs (du_pool s) e = Some a \<and> e \<notin> unwritten (du_owner s) \<longrightarrow> addrs q e = Some a) \<and>
    (\<forall>e a. addrs q e = Some a \<longrightarrow> addrs (du_pool s) e = Some a \<or> gm_has (pendingDeletes (du_pool s)) e)"
proof -
  have inv0: "pool_inv p0" using new_pool_inv [OF new] assms(3-5) by blast
  have pend: "pendingDeletes p0 = []" using new by (auto simp: new_pool_def Let_def split: if_splits sum.splits)
  note basic = open_basic [OF inv0 op]
  have "pool_writable p"
    using times v6 basic(1,3) pend same_frame_in_pool [OF basic(2)]
      index_inv_domain(4) [OF pool_inv_parts(2) [OF basic(1)]] index_inv_address(3) [OF pool_inv_parts(2) [OF basic(1)]]
    by (fastforce simp: pool_writable_def dels_def)
  note O = open_recovers [OF k inv0 now io op this]
  let ?s0 = "\<lparr>du_pool = p, du_owner = DIdle, du_epoch = epoch, du_disk = d\<rparr>"
  have "durable_inv euid k ?s0"
    using \<open>pool_writable p\<close> O v6 basic(3,4) pend same_frame_in_pool [OF basic(2)] tracks_refl
    by (auto simp: durable_inv_def settled_def dels_def)
  then have inv: "durable_inv euid k s" and fr: "same_frame p (du_pool s)"
    using durable_reach_inv [OF k _ run] durable_reach_frame [OF k _ run] by simp_all
  obtain R where R: "recovers euid k (du_pool s) (du_epoch s) (du_disk s) R"
    "\<forall>e a. addrs (du_pool s) e = Some a \<and> e \<notin> unwritten (du_owner s) \<longrightarrow> R e = Some a"
    "\<forall>e a. R e = Some a \<longrightarrow> addrs (du_pool s) e = Some a \<or> e \<in> dels (du_pool s)"
    using durable_inv_recovers [OF inv] by blast
  have fr0: "same_frame (du_pool s) p0" using fr basic(2) by (simp add: same_frame_def)
  have path: "clean_absolute_path path" using op by (simp add: open_persistence_def split: if_splits)
  obtain q ep where "open_persistence euid k io' now' path w' p0 (du_disk s) = Inr (q, ep, du_disk s)" "pool_inv q"
    "addrs q = R" "late (now' + w') (view q)"
    using reopen [OF R(1) inv0 fr0 path w' io'] by blast
  then show ?thesis using R(2,3) unfolding late_def dels_def by blast
qed

text \<open>A run on an empty disk: open, allocate \<open>example.com\<close>, stop.\<close>

definition sample_checkpoint_io :: checkpoint_io where
  "sample_checkpoint_io = \<lparr>ck_random = Inr ''0123456789abcdef'', ck_prepare = [], ck_dirsync = None,
     ck_remove = None, ck_cleardir = None\<rparr>"

definition sample_open_io :: open_io where
  "sample_open_io = \<lparr>oi_snapshot = quiet, oi_journal = quiet, oi_quarantineSnapshot = None, oi_quarantineJournal = None,
     oi_random = Inr ''0123456789abcdef'', oi_checkpoint = sample_checkpoint_io\<rparr>"

definition sample_empty_file :: disk_file where
  "sample_empty_file = File (created_stat 0)
     (encSnapshot hex_codec ((snapshot_locked 4 sample_pool)\<lparr>s_JournalEpoch := sample_epoch\<rparr>))"

definition sample_journal :: disk_file where
  "sample_journal = File (created_stat 0) (enc_fields (record_fields sample_record) @ [newline])"

definition sample_written :: persistence_update where
  "sample_written = \<lparr>u_RecordedAt = 5, u_Removed = [], u_Mapping = j_Mapping sample_record\<rparr>"

definition sample_durable :: durable_sys where
  "sample_durable = \<lparr>du_pool = set_persistence sample_used, du_owner = DIdle, du_epoch = sample_epoch,
     du_disk = \<lparr>f_snapshot = sample_empty_file, f_journal = sample_journal\<rparr>\<rparr>"

lemma sample_open:
  "open_persistence 0 hex_codec sample_open_io 4 ''/p'' second sample_pool \<lparr>f_snapshot = Missing, f_journal = Missing\<rparr> =
     Inr (set_persistence sample_pool, sample_epoch, \<lparr>f_snapshot = sample_empty_file, f_journal = Missing\<rparr>)"
proof -
  have "clean_absolute_path ''/p''" by code_simp
  moreover have "new_journal_epoch (Inr ''0123456789abcdef'') = Inr sample_epoch"
    by (simp add: new_journal_epoch_def sample_epoch_def)
  ultimately show ?thesis
    by (simp add: open_persistence_def open_snapshot_def read_snapshot_def open_journal_def read_journal_def
        inspect_journal_def active_journal_records_def sample_open_io_def checkpoint_def sample_checkpoint_io_def
        write_snapshot_def validate_target_def clear_journal_def sample_empty_file_def)
qed

lemma sample_durable_alloc:
  "alloc_begin 5 ''example.com'' (set_persistence sample_pool) = (NeedPersist 0 sample_written, set_persistence sample_used)"
  by code_simp

lemma sample_persist:
  "persist_record 0 hex_codec sample_append_io cio ''198.18.0.0/29'' sample_written s sample_epoch
     \<lparr>f_snapshot = sample_empty_file, f_journal = Missing\<rparr> =
   (None, sample_epoch, \<lparr>f_snapshot = sample_empty_file, f_journal = sample_journal\<rparr>)"
proof -
  have "journal_record_of ''198.18.0.0/29'' sample_epoch sample_written = sample_record"
    by (simp add: journal_record_of_def sample_written_def sample_record_def persistenceVersion_def)
  then show ?thesis using sample_append by (simp add: persist_record_def sample_journal_def)
qed

lemma sample_snapshot_small:
  assumes "length ep = 32"
  shows "length (encSnapshot hex_codec ((snapshot_locked t (set_persistence sample_pool))\<lparr>s_JournalEpoch := ep\<rparr>))
     = 93 + 2 * length (time_text t)"
proof -
  have "p_prefix (set_persistence sample_pool) = sample_prefix" "byDomain (set_persistence sample_pool) = []"
    by (simp_all add: sample_pool_def set_persistence_def)
  then show ?thesis
    using assms
    by (simp add: hex_codec_def snapshot_fields_def snapshot_locked_def sample_texts enc_fields_def hex_encode_length)
qed

lemma sample_epoch_length: "length sample_epoch = 32"
  by (simp add: sample_epoch_def hex_encode_length)

lemma forget_nothing: "forget_deletes [] p = p"
  by (simp add: forget_deletes_def)

lemma sample_run:
  "durable_reach 0 hex_codec \<lparr>du_pool = set_persistence sample_pool, du_owner = DIdle, du_epoch = sample_epoch,
     du_disk = \<lparr>f_snapshot = sample_empty_file, f_journal = Missing\<rparr>\<rparr> sample_durable"
proof -
  let ?s0 = "\<lparr>du_pool = set_persistence sample_pool, du_owner = DIdle, du_epoch = sample_epoch,
     du_disk = \<lparr>f_snapshot = sample_empty_file, f_journal = Missing\<rparr>\<rparr>"
  let ?s1 = "?s0\<lparr>du_pool := set_persistence sample_used, du_owner := DAlloc ''example.com'' 0 sample_written\<rparr>"
  let ?s2 = "?s1\<lparr>du_owner := DWritten ''example.com'' 0 sample_written True,
     du_disk := \<lparr>f_snapshot = sample_empty_file, f_journal = sample_journal\<rparr>\<rparr>"
  have st: "steady 5 ?s0" "steady 5 ?s1" by (simp_all add: steady_def text_time_def sample_pool_def sample_used_def set_persistence_def gm_get_Cons deref_def)
  have "durable_step 0 hex_codec 5 ?s0 ?s1"
    using durable_step.alloc_start [OF _ st(1) canonical_normalize [OF sample_canonical]] sample_durable_alloc by simp
  moreover have "durable_step 0 hex_codec 5 ?s1 ?s2"
  proof -
    let ?cio = "sample_checkpoint_io\<lparr>ck_random := Inl (Opaque ''no entropy'')\<rparr>"
    have "pfx_string (p_prefix (set_persistence sample_used)) = ''198.18.0.0/29''"
      using sample_texts(1) by (simp add: sample_used_def sample_pool_def set_persistence_def)
    then have "persist_record 0 hex_codec sample_append_io ?cio (pfx_string (p_prefix (du_pool ?s1))) sample_written
        (snapshot_locked 5 (du_pool ?s1)) (du_epoch ?s1) (du_disk ?s1) = (None, sample_epoch, du_disk ?s2)"
      using sample_persist by simp
    moreover have "clean_append sample_append_io" "clean_checkpoint ?cio"
      "checkpoint_env 0 hex_codec ?cio (snapshot_locked 5 (du_pool ?s1)) (f_journal (du_disk ?s1))"
      by (simp_all add: clean_append_def sample_append_io_def clean_checkpoint_def checkpoint_env_def sample_checkpoint_io_def)
    ultimately show ?thesis
      using durable_step.alloc_write [OF _ st(2)] by fastforce
  qed
  moreover have "durable_step 0 hex_codec 5 ?s2 sample_durable"
    using durable_step.alloc_ok [of ?s2 "''example.com''" 0 sample_written 0 hex_codec 5]
      forget_nothing [of "set_persistence sample_used"]
    by (simp add: sample_durable_def sample_written_def)
  ultimately show ?thesis by (rule durable_reach.step [OF durable_reach.step [OF durable_reach.step [OF durable_reach.start]]])
qed

theorem mappings_survive_restart_witness:
  "\<exists>q ep. open_persistence 0 hex_codec sample_open_io 100 ''/p'' second sample_pool (du_disk sample_durable) =
       Inr (q, ep, du_disk sample_durable) \<and> pool_inv q \<and> addrs q ''example.com'' = Some (V4 3323068417)"
proof -
  have "length (encSnapshot hex_codec ((snapshot_locked 4 (set_persistence sample_pool))\<lparr>s_JournalEpoch := sample_epoch\<rparr>)) = 95"
    using sample_snapshot_small [OF sample_epoch_length, of 4] by (simp add: time_text_def dec_digits.simps)
  then have io: "\<forall>bs. ck_random (oi_checkpoint sample_open_io) = Inr bs \<longrightarrow> length bs = 16 \<and>
      length (encSnapshot hex_codec ((snapshot_locked 4 (set_persistence sample_pool))\<lparr>s_JournalEpoch := hex_encode bs\<rparr>))
        \<le> maxPersistenceSize"
    by (auto simp: sample_open_io_def sample_checkpoint_io_def sample_epoch_def maxPersistenceSize_def)
  have v6: "\<forall>a. in_pool sample_pool a \<longrightarrow> \<not> is4in6 a"
  proof (intro allI impI)
    fix a assume "in_pool sample_pool a"
    then show "\<not> is4in6 a" by (cases a) (simp_all add: in_pool_def sample_pool_def)
  qed
  have times: "\<forall>e r. gm_get (byDomain (set_persistence sample_pool)) e = Some r \<longrightarrow>
      text_time (e_expiresAt (deref (set_persistence sample_pool) r))" by (simp add: sample_pool_def)
  have now: "text_time 4" by (simp add: text_time_def)
  have rd: "\<forall>bs. oi_random sample_open_io = Inr bs \<longrightarrow> length bs = 16" "oi_snapshot sample_open_io = quiet"
    "oi_journal sample_open_io = quiet" "oi_random sample_open_io = Inr ''0123456789abcdef''"
    by (simp_all add: sample_open_io_def)
  have "addrs (du_pool sample_durable) ''example.com'' = Some (V4 3323068417)"
    "unwritten (du_owner sample_durable) = {}"
    by (simp_all add: sample_durable_def addrs_get sample_used_def gm_get_Cons deref_def set_persistence_def)
  then show ?thesis
    using mappings_survive_restart [OF hex_codec_ok sample_new sample_prefix_wf _ _ v6 sample_open now rd(1) io times sample_run rd(2-4),
        of second 100] by auto
qed


section \<open>A checkpoint whose directory sync fails\<close>

text \<open>
  C37: When the rename of a checkpoint is done and only the sync of the directory fails, the pool keeps
  the old epoch although the snapshot on disk has a new one.  Every later append then succeeds, so its
  address is answered, but a restart finds the record stale and restores the mappings of the snapshot
  alone.
\<close>

theorem dirsync_failure_loses_appends:
  assumes k: "codec_ok k" and pw: "pool_writable p" and t: "text_time t"
    and jh: "journal_holds euid k (f_journal d) rs" "list_all (record_ok (pfx_string (p_prefix p))) rs"
    and fresh: "\<forall>r \<in> set rs. j_Epoch r \<noteq> hex_encode bs" "epoch \<noteq> hex_encode bs"
    and io: "ck_random io = Inr bs" "length bs = 16" "validate_target (f_snapshot d) = None"
      "first_error (ck_prepare io) = None" "ck_dirsync io = Some e"
    and small: "length (encSnapshot k ((snapshot_locked t p)\<lparr>s_JournalEpoch := hex_encode bs\<rparr>)) \<le> maxPersistenceSize"
    and ck: "checkpoint euid k io (snapshot_locked t p) epoch d = (res, epoch1, d1)"
    and safe: "record_safe (journal_record_of (pfx_string (p_prefix p)) epoch1 u)"
    and app: "append_record euid k aio (journal_record_of (pfx_string (p_prefix p)) epoch1 u) (f_journal d1) = (Appended, f)"
    and re: "pool_inv p1" "same_frame p p1" "clean_absolute_path path" "0 \<le> w"
      "oi_snapshot io2 = quiet" "oi_journal io2 = quiet" "oi_random io2 = Inr bs2" "length bs2 = 16"
  shows "res = Some e \<and> epoch1 = epoch \<and>
    (\<exists>q ep. open_persistence euid k io2 now path w p1 (d1\<lparr>f_journal := f\<rparr>) = Inr (q, ep, d1\<lparr>f_journal := f\<rparr>) \<and>
            addrs q = addrs p)"
proof -
  let ?pfx = "pfx_string (p_prefix p)" and ?ep = "hex_encode bs"
  let ?s = "(snapshot_locked t p)\<lparr>s_JournalEpoch := ?ep\<rparr>" and ?r = "journal_record_of ?pfx epoch1 u"
  have ep: "new_journal_epoch (Inr bs) = Inr ?ep" "valid_journal_epoch ?ep"
    using io(2) new_epoch_valid(2) [of bs ?ep] by (simp_all add: new_journal_epoch_def)
  have out: "res = Some e" "epoch1 = epoch" "d1 = d\<lparr>f_snapshot := File (created_stat euid) (encSnapshot k ?s)\<rparr>"
    using ck io ep(1) by (auto simp: checkpoint_def write_snapshot_def)
  obtain l where l: "encRecord k ?r = Inr l" "l \<noteq> []" "newline \<notin> set l" "decRecord k l = Some ?r"
    using k safe by (auto simp: codec_ok_def)
  have "journal_holds euid k f (rs @ [?r])"
    using append_record_outcome [OF _ l app, of rs] jh(1) out(3) by auto
  moreover have "journal_fits ?pfx ?ep ?s (rs @ [?r])"
    using jh(2) ep(2) safe by (simp add: journal_fits_def record_ok_def record_safe_def journal_record_of_def text_time_def)
  moreover have "in_force ?ep (rs @ [?r]) = []"
    using fresh out(2) by (simp add: filter_empty_conv journal_record_of_def)
  moreover have "snapshot_holds euid k (f_snapshot d1) ?s"
    using k snapshot_is_safe [OF pw t ep(2)] small out(3)
    by (simp add: snapshot_holds_def read_snapshot_def codec_ok_def)
  moreover have "replays p ?s [] (addrs p)"
    using pw pool_writable_entry [OF pw] writable_storable ep(2) by (intro replays_snapshot) (auto simp: pool_writable_def)
  ultimately have "recovers euid k p ?ep (d1\<lparr>f_journal := f\<rparr>) (addrs p)"
    unfolding recovers_def by (intro exI [of _ ?s] exI [of _ "rs @ [?r]"]) simp
  then show ?thesis using reopen [OF _ re] out(1,2) by blast
qed

lemma sample_persistent_writable: "pool_writable (set_persistence sample_pool)"
  using set_persistence_inv [OF sample_inv]
  by (simp add: pool_writable_def sample_pool_def set_persistence_def dels_def)

definition sample_newer_file :: disk_file where
  "sample_newer_file = File (created_stat 0) (encSnapshot hex_codec
     ((snapshot_locked 4 (set_persistence sample_pool))\<lparr>s_JournalEpoch := hex_encode ''fedcba9876543210''\<rparr>))"

theorem dirsync_failure_loses_appends_witness:
  "checkpoint 0 hex_codec (sample_checkpoint_io\<lparr>ck_random := Inr ''fedcba9876543210'', ck_dirsync := Some (Errno 5)\<rparr>)
     (snapshot_locked 4 (set_persistence sample_pool)) sample_epoch \<lparr>f_snapshot = sample_empty_file, f_journal = Missing\<rparr>
     = (Some (Errno 5), sample_epoch, \<lparr>f_snapshot = sample_newer_file, f_journal = Missing\<rparr>) \<and>
   append_record 0 hex_codec sample_append_io sample_record Missing = (Appended, sample_journal) \<and>
   (\<exists>q ep d. open_persistence 0 hex_codec sample_open_io 100 ''/p'' second sample_pool
       \<lparr>f_snapshot = sample_newer_file, f_journal = sample_journal\<rparr> = Inr (q, ep, d) \<and>
     addrs q ''example.com'' = None)"
proof -
  let ?io = "sample_checkpoint_io\<lparr>ck_random := Inr ''fedcba9876543210'', ck_dirsync := Some (Errno 5)\<rparr>"
  let ?p = "set_persistence sample_pool" and ?d = "\<lparr>f_snapshot = sample_empty_file, f_journal = Missing\<rparr>"
  let ?d1 = "\<lparr>f_snapshot = sample_newer_file, f_journal = Missing\<rparr>"
  have ck: "checkpoint 0 hex_codec ?io (snapshot_locked 4 ?p) sample_epoch ?d = (Some (Errno 5), sample_epoch, ?d1)"
    by (simp add: checkpoint_def write_snapshot_def sample_checkpoint_io_def new_journal_epoch_def sample_empty_file_def
        validate_target_def created_stat_def sample_newer_file_def)
  have rec: "journal_record_of (pfx_string (p_prefix ?p)) sample_epoch sample_written = sample_record"
    using sample_texts(1)
    by (simp add: journal_record_of_def sample_written_def sample_record_def persistenceVersion_def sample_pool_def
        set_persistence_def)
  have safe: "record_safe (journal_record_of (pfx_string (p_prefix ?p)) sample_epoch sample_written)"
    and app: "append_record 0 hex_codec sample_append_io
        (journal_record_of (pfx_string (p_prefix ?p)) sample_epoch sample_written) (f_journal ?d1) = (Appended, sample_journal)"
    using sample_record_safe sample_append by (simp_all add: rec sample_journal_def)
  have small: "length (encSnapshot hex_codec ((snapshot_locked 4 ?p)\<lparr>s_JournalEpoch := hex_encode ''fedcba9876543210''\<rparr>))
      \<le> maxPersistenceSize"
    by (simp add: sample_snapshot_small hex_encode_length time_text_def dec_digits.simps maxPersistenceSize_def)
  have "sample_epoch \<noteq> hex_encode ''fedcba9876543210''" by code_simp
  then have "\<exists>q ep. open_persistence 0 hex_codec sample_open_io 100 ''/p'' second sample_pool (?d1\<lparr>f_journal := sample_journal\<rparr>)
      = Inr (q, ep, ?d1\<lparr>f_journal := sample_journal\<rparr>) \<and> addrs q = addrs ?p"
  proof -
    assume ne: "sample_epoch \<noteq> hex_encode ''fedcba9876543210''"
    have "Some (Errno 5) = Some (Errno 5) \<and> sample_epoch = sample_epoch \<and>
      (\<exists>q ep. open_persistence 0 hex_codec sample_open_io 100 ''/p'' second sample_pool (?d1\<lparr>f_journal := sample_journal\<rparr>)
        = Inr (q, ep, ?d1\<lparr>f_journal := sample_journal\<rparr>) \<and> addrs q = addrs ?p)"
    proof (rule dirsync_failure_loses_appends [OF hex_codec_ok sample_persistent_writable _ _ _ _ ne _ _ _ _ _ small ck safe app sample_inv])
      show "clean_absolute_path ''/p''" by code_simp
      show "journal_holds 0 hex_codec (f_journal ?d) []" by (simp add: journal_holds_iff)
      show "oi_random sample_open_io = Inr ''0123456789abcdef''" by (simp add: sample_open_io_def)
    qed (simp_all add: text_time_def sample_checkpoint_io_def sample_empty_file_def validate_target_def created_stat_def
        sample_open_io_def same_frame_def set_persistence_def)
    then show ?thesis by simp
  qed
  moreover have "addrs ?p ''example.com'' = None" by (simp add: addrs_get sample_pool_def)
  ultimately show ?thesis using ck sample_append by (auto simp: sample_journal_def)
qed


section \<open>Clearing\<close>

text \<open>
  \<open>ClearPersistence\<close> removes nothing when one of the two files is not a regular file or cannot be
  inspected; otherwise it reports exactly the files that are gone, the snapshot before the journal, and
  without an error nothing is left.
\<close>

lemma clear_persistence_exact:
  assumes "clear_persistence io path d = (removed, err, d')"
  shows "(validate_target (f_snapshot d) \<noteq> None \<or> validate_target (f_journal d) \<noteq> None \<longrightarrow>
            removed = [] \<and> err \<noteq> None \<and> d' = d) \<and>
         f_snapshot d' = (if False \<in> set removed then Missing else f_snapshot d) \<and>
         f_journal d' = (if True \<in> set removed then Missing else f_journal d) \<and>
         sorted removed \<and> distinct removed \<and>
         (err = None \<longrightarrow> d' = \<lparr>f_snapshot = Missing, f_journal = Missing\<rparr>)"
  using assms
  by (auto simp: clear_persistence_def validate_target_def bindE_Inr_iff bindE_def Let_def
      split: if_splits disk_file.splits option.splits sum.splits prod.splits)


end
