(* ===== verification/System_Command.thy ===== *)
theory System_Command
  imports Netip_Text
begin

text \<open>
  \<open>internal/system/command.go\<close>: the commands through which the program reads and changes the host
  network, with the checks on interface names and the line scanner their callers share.

  A \<open>CommandRunner\<close> is a function on a state \<open>'h\<close>, the host: it returns the output, the text of the
  error if there is one, and the host afterwards.  \<open>NativeCommandRunner\<close> is \<open>run_command\<close> on an
  argument for \<open>exec.Command\<close>.
\<close>

datatype sys_error =
    ErrRouteNotFound
  | ErrNotExist                   \<comment> \<open>\<open>os.ErrNotExist\<close>\<close>
  | CommandError string           \<comment> \<open>the error of a command, by its text\<close>
  | Refused string                \<comment> \<open>\<open>fmt.Errorf\<close> or \<open>errors.New\<close> without a cause\<close>
  | Caused string sys_error       \<comment> \<open>\<open>fmt.Errorf\<close> with \<open>%w\<close>\<close>
  | JoinedErrors "sys_error list" \<comment> \<open>\<open>errors.Join\<close> of at least one error\<close>

type_synonym cmd_result = "string \<times> string option"
type_synonym 'h runner = "string \<Rightarrow> string list \<Rightarrow> 'h \<Rightarrow> cmd_result \<times> 'h"

text \<open>\<open>errors.Is\<close> for the two sentinel errors.\<close>

fun sys_is :: "sys_error \<Rightarrow> sys_error \<Rightarrow> bool" where
  "sys_is t (Caused m e) = (t = Caused m e \<or> sys_is t e)"
| "sys_is t (JoinedErrors es) = (t = JoinedErrors es \<or> (\<exists>e \<in> set es. sys_is t e))"
| "sys_is t e = (t = e)"

text \<open>\<open>errors.Join\<close> on a slice of errors none of which is nil.\<close>

definition join_errors :: "sys_error list \<Rightarrow> sys_error option" where
  "join_errors es = (if es = [] then None else Some (JoinedErrors es))"

lemma join_errors_None [simp]: "join_errors es = None \<longleftrightarrow> es = []"
  by (simp add: join_errors_def)


section \<open>Strings\<close>

text \<open>\<open>strings.Index\<close>, \<open>strings.LastIndex\<close> and \<open>strings.Contains\<close> with a non-empty substring.\<close>

fun index_sub :: "string \<Rightarrow> string \<Rightarrow> nat option" where
  "index_sub [] p = None"
| "index_sub (c # s) p = (if has_prefix (c # s) p then Some 0 else map_option Suc (index_sub s p))"

fun last_index_sub :: "string \<Rightarrow> string \<Rightarrow> nat option" where
  "last_index_sub [] p = None"
| "last_index_sub (c # s) p =
     (case last_index_sub s p of
        Some n \<Rightarrow> Some (Suc n)
      | None \<Rightarrow> if has_prefix (c # s) p then Some 0 else None)"

definition str_contains :: "string \<Rightarrow> string \<Rightarrow> bool" where
  "str_contains s p = (index_sub s p \<noteq> None)"

fun join_with :: "string \<Rightarrow> string list \<Rightarrow> string" where
  "join_with sep [] = []"
| "join_with sep [w] = w"
| "join_with sep (w # ws) = w @ sep @ join_with sep ws"

abbreviation newline :: char where "newline \<equiv> CHR 0x0A"

text \<open>
  A \<open>bufio.Scanner\<close> over a string: the lines up to the first one that does not fit its buffer of
  64 KiB, without their line ends, and whether there was such a line.
\<close>

definition drop_cr :: "string \<Rightarrow> string" where
  "drop_cr l = (if l \<noteq> [] \<and> last l = CHR 0x0D then butlast l else l)"

definition scan_lines :: "string \<Rightarrow> string list \<times> bool" where
  "scan_lines s =
     (let parts = split_on newline s;
          lines = (if last parts = [] then butlast parts else parts);
          fit = takeWhile (\<lambda>l. length l < 65536) lines
      in (map drop_cr fit, length fit < length lines))"


section \<open>Running a command\<close>

record limited_buffer =
  lb_bytes :: string
  lb_remaining :: nat

definition new_limited_buffer :: "nat \<Rightarrow> limited_buffer" where
  "new_limited_buffer limit = \<lparr>lb_bytes = [], lb_remaining = limit\<rparr>"

definition lb_write :: "limited_buffer \<Rightarrow> string \<Rightarrow> nat \<times> limited_buffer" where
  "lb_write b data =
     (let kept = take (lb_remaining b) data
      in (length data, \<lparr>lb_bytes = lb_bytes b @ kept, lb_remaining = lb_remaining b - length kept\<rparr>))"

definition commandOutputLimit :: nat where "commandOutputLimit = 65536"

definition allowedExecutables :: "string list" where
  "allowedExecutables =
     [''/sbin/ifconfig'', ''/sbin/route'', ''/usr/sbin/ipconfig'', ''/usr/sbin/networksetup'',
      ''/usr/sbin/scutil'']"

datatype cmd_exit = Exited | ContextDone string | Failed string

text \<open>
  \<open>exec\<close> runs the program with a fixed environment and gives the chunks it wrote and how it ended;
  \<open>ContextDone\<close> is a failure after the deadline of five seconds or the end of the caller's context.
\<close>

definition run_command ::
  "(string \<Rightarrow> string list \<Rightarrow> 'h \<Rightarrow> (string list \<times> cmd_exit) \<times> 'h) \<Rightarrow> 'h runner" where
  "run_command exec executable args h =
     (if executable \<notin> set allowedExecutables
      then (([], Some (''system executable '' @ executable @ '' is not allowed'')), h)
      else
        (case exec executable args h of
           ((chunks, ending), h') \<Rightarrow>
             (let output = fold (\<lambda>data b. snd (lb_write b data)) chunks (new_limited_buffer commandOutputLimit)
              in (case ending of
                    Exited \<Rightarrow> ((lb_bytes output, None), h')
                  | ContextDone e \<Rightarrow> (([], Some (''run '' @ executable @ '': '' @ e)), h')
                  | Failed e \<Rightarrow>
                      (([], Some (''run '' @ executable @ '' '' @ join_with '' '' args @ '': '' @ e @ '': '' @
                              trim_space (lb_bytes output))), h')))))"


section \<open>Interface names\<close>

text \<open>\<open>validSystemInterface\<close> of \<open>route_darwin.go\<close>; a rune above ASCII has only bytes above 127.\<close>

definition alnum :: "char \<Rightarrow> bool" where
  "alnum c = (is_lower c \<or> is_upper c \<or> is_digit c)"

definition validSystemInterface :: "string \<Rightarrow> bool" where
  "validSystemInterface v =
     (v \<noteq> [] \<and> length v \<le> 15 \<and> (\<forall>c \<in> set v. alnum c \<or> c = CHR ''_''))"

text \<open>\<open>validateInterfaceName\<close> of \<open>interface_dns_darwin.go\<close>.\<close>

definition validateInterfaceName :: "string \<Rightarrow> sys_error option" where
  "validateInterfaceName n =
     (if n = [] \<or> 15 < length n \<or> has_prefix n ''-''
        \<or> \<not> (\<forall>c \<in> set n. alnum c \<or> c = CHR ''_'' \<or> c = CHR ''-'' \<or> c = CHR ''.'')
      then Some (Refused ''invalid network interface name'') else None)"


section \<open>Facts\<close>

text \<open>The buffer keeps the first bytes of everything written and never reports a short write.\<close>

lemma limited_buffer_fold:
  "fold (\<lambda>data b. snd (lb_write b data)) chunks \<lparr>lb_bytes = s, lb_remaining = n\<rparr> =
   \<lparr>lb_bytes = s @ take n (concat chunks), lb_remaining = n - length (concat chunks)\<rparr>"
  by (induction chunks arbitrary: s n) (auto simp: lb_write_def Let_def min_def)

lemma run_command_output:
  assumes "executable \<in> set allowedExecutables" and "exec executable args h = ((chunks, Exited), h')"
  shows "run_command exec executable args h = ((take 65536 (concat chunks), None), h')"
  using assms by (simp add: run_command_def new_limited_buffer_def limited_buffer_fold commandOutputLimit_def)

text \<open>Characters that no trimming and no line splitting touches.\<close>

definition graphic :: "char \<Rightarrow> bool" where
  "graphic c = (33 \<le> byte c \<and> byte c \<le> 126)"

lemma graphic_newline [simp]: "\<not> graphic newline" "\<not> graphic (CHR 0x0D)"
  by (simp_all add: graphic_def)

definition codes_lead :: "nat list list \<Rightarrow> bool" where
  "codes_lead codes = list_all (\<lambda>w. w \<noteq> [] \<and> \<not> (33 \<le> hd w \<and> hd w \<le> 126)) codes"

lemma codes_lead_space: "codes_lead space_codes" "codes_lead (map rev space_codes)"
  by (simp_all add: codes_lead_def space_codes_def)

lemma space_width_graphic:
  assumes "codes_lead codes" and "graphic c"
  shows "space_width codes (c # s) = 0"
proof -
  have "find (\<lambda>w. map byte (take (length w) (c # s)) = w) codes = None"
    unfolding find_None_iff
  proof
    assume "\<exists>w. w \<in> set codes \<and> map byte (take (length w) (c # s)) = w"
    then obtain w where w: "w \<in> set codes" "map byte (take (length w) (c # s)) = w" by blast
    with assms(1) obtain x xs where "w = x # xs" by (cases w) (auto simp: codes_lead_def list_all_iff)
    with w assms show False by (force simp: codes_lead_def list_all_iff graphic_def)
  qed
  then show ?thesis by (simp add: space_width_def)
qed

lemma trim_front_graphic:
  assumes "codes_lead codes" and "s = [] \<or> graphic (hd s)"
  shows "trim_front codes s = s"
  using assms by (cases s) (auto simp: trim_front.simps space_width_graphic Let_def)

lemma trim_space_graphic:
  assumes "s = [] \<or> graphic (hd s) \<and> graphic (last s)"
  shows "trim_space s = s"
  using assms by (auto simp: trim_space_def trim_front_graphic codes_lead_space hd_rev)

lemma trim_space_newline:
  assumes "s \<noteq> []" and "graphic (hd s)" and "graphic (last s)"
  shows "trim_space (s @ [newline]) = s"
proof -
  have "space_width (map rev space_codes) (newline # rev s) = 1"
    by (simp add: space_width_def space_codes_def)
  then have "trim_front (map rev space_codes) (newline # rev s) = rev s"
    using assms by (subst trim_front.simps) (simp add: trim_front_graphic codes_lead_space hd_rev)
  then show ?thesis
    using assms by (simp add: trim_space_def trim_front_graphic codes_lead_space)
qed

text \<open>A report of one value per line scans back to the values.\<close>

definition report_lines :: "string list \<Rightarrow> string" where
  "report_lines ls = concat (map (\<lambda>l. l @ [newline]) ls)"

definition plain_line :: "string \<Rightarrow> bool" where
  "plain_line l = (l \<noteq> [] \<and> length l < 65536 \<and> list_all graphic l)"

lemma split_report: "list_all plain_line ls \<Longrightarrow> split_on newline (report_lines ls) = ls @ [[]]"
proof (induction ls)
  case (Cons l ls)
  then have "newline \<notin> set l" by (auto simp: plain_line_def list_all_iff)
  with Cons show ?case
    by (simp add: report_lines_def split_on_append split_on_plain)
qed (simp add: report_lines_def)

lemma split_report_open:
  assumes "list_all plain_line ls" and "ls \<noteq> []"
  shows "split_on newline (butlast (report_lines ls)) = ls"
proof -
  obtain ks l where ls: "ls = ks @ [l]" using assms(2) by (cases ls rule: rev_cases) auto
  have "butlast (report_lines ls) = report_lines ks @ l"
    by (simp add: ls report_lines_def butlast_append)
  moreover have "split_on newline (report_lines ks @ l) = ks @ [l]"
    using assms(1) unfolding ls
  proof (induction ks)
    case Nil
    then have "newline \<notin> set l" by (auto simp: plain_line_def list_all_iff)
    then show ?case by (simp add: report_lines_def split_on_plain)
  next
    case (Cons k ks)
    then have "newline \<notin> set k" by (auto simp: plain_line_def list_all_iff)
    with Cons show ?case by (simp add: report_lines_def split_on_append split_on_plain)
  qed
  ultimately show ?thesis using ls by simp
qed

lemma drop_cr_plain: "plain_line l \<Longrightarrow> drop_cr l = l"
  using last_in_set [of l] graphic_newline(2) unfolding drop_cr_def plain_line_def list_all_iff
  by (metis (no_types, lifting))

lemma trim_report:
  assumes "list_all plain_line ls" and "ls \<noteq> []"
  shows "trim_space (report_lines ls) = butlast (report_lines ls)"
proof -
  obtain ks l where ls: "ls = ks @ [l]" using assms(2) by (cases ls rule: rev_cases) auto
  have "report_lines ls = butlast (report_lines ls) @ [newline]"
    by (simp add: ls report_lines_def butlast_append)
  moreover have "graphic (hd (butlast (report_lines ls)))" "graphic (last (butlast (report_lines ls)))"
    "butlast (report_lines ls) \<noteq> []"
    using assms unfolding ls
    by (cases ks; auto simp: report_lines_def butlast_append plain_line_def list_all_iff)+
  ultimately show ?thesis
    using trim_space_newline by metis
qed

lemma hd_trim_report:
  assumes "list_all plain_line ls" and "ls \<noteq> []"
  shows "\<exists>c s t. hd ls = c # s \<and> trim_space (report_lines ls) = c # t"
proof -
  obtain l ks where ls: "ls = l # ks" using assms(2) by (cases ls) auto
  with assms(1) obtain c s where l: "l = c # s" by (cases l) (auto simp: plain_line_def)
  then have "\<exists>t. butlast (report_lines ls) = c # t"
    by (simp add: ls report_lines_def)
  then show ?thesis using trim_report [OF assms] ls l by auto
qed

lemma scan_report:
  assumes "list_all plain_line ls" and "ls \<noteq> []"
  shows "scan_lines (trim_space (report_lines ls)) = (ls, False)"
proof -
  have "last ls \<noteq> []" using assms last_in_set [OF assms(2)] by (auto simp: list_all_iff plain_line_def)
  moreover have "takeWhile (\<lambda>l. length l < 65536) ls = ls"
    using assms(1) by (auto simp: takeWhile_eq_all_conv plain_line_def list_all_iff)
  moreover have "map drop_cr ls = ls"
    using assms(1) by (auto simp: list_all_iff drop_cr_plain intro: map_idI)
  ultimately show ?thesis
    using split_report_open [OF assms] trim_report [OF assms] unfolding scan_lines_def Let_def
    by (simp del: takeWhile_eq_all_conv)
qed

text \<open>The textual form of an address without a zone consists of such characters.\<close>

lemma length_dec_digits: "length (dec_digits n) \<le> Suc n"
proof (induction n rule: dec_digits.induct)
  case (1 n)
  show ?case
  proof (cases "n < 10")
    case False
    with 1 have "length (dec_digits (n div 10)) \<le> Suc (n div 10)" by simp
    moreover have "Suc (n div 10) \<le> n" using False by linarith
    ultimately show ?thesis using False by (subst dec_digits.simps) simp
  qed (subst dec_digits.simps, simp)
qed

lemma dec_digits_graphic: "list_all graphic (dec_digits n)"
  using dec_digits_digit [of n] by (auto simp: list_all_iff is_digit_def graphic_def)

lemma string4_bounds: "list_all graphic (string4 w)" "string4 w \<noteq> []" "length (string4 w) \<le> 1031"
proof -
  have "unat w < 4294967296" using unsigned_less [of w, where ?'a = nat] by simp
  then have "unat w div 16777216 < 256" by linarith
  moreover have "n < 256 \<Longrightarrow> length (dec_digits n) \<le> 256" for n
    using length_dec_digits [of n] by linarith
  ultimately have "length (dec_digits (unat w div 16777216)) \<le> 256"
      "length (dec_digits (n mod 256)) \<le> 256" for n :: nat
    by simp_all
  note le = this(1) this(2) [of "unat w div 65536"] this(2) [of "unat w div 256"] this(2) [of "unat w"]
  then show "length (string4 w) \<le> 1031" by (simp add: string4_def Let_def)
  show "string4 w \<noteq> []" by (simp add: string4_def Let_def)
  have "graphic (CHR ''.'')" by (simp add: graphic_def)
  then show "list_all graphic (string4 w)"
    by (simp add: string4_def Let_def dec_digits_graphic)
qed

lemma string4_plain: "plain_line (string4 w)"
  using string4_bounds [of w] by (simp add: plain_line_def)

lemma length_join6: "list_all (\<lambda>g. g < 65536) gs \<Longrightarrow> length (join6 gs) \<le> 5 * length gs"
proof (induction gs rule: join6.induct)
  case (2 g)
  then show ?case using length_hex_digits_group [of g] by simp
next
  case (3 g h gs)
  then show ?case using length_hex_digits_group [of g] by simp
qed simp

lemma string6_plain: "plain_line (string6 w)"
proof -
  have "hex_digit c \<noteq> None \<Longrightarrow> graphic c" for c
    by (auto simp: hex_digit_def graphic_def is_digit_def split: if_splits)
  moreover have "graphic (CHR '':'')" by (simp add: graphic_def)
  ultimately have "list_all graphic (string6 w)"
    using string6_chars [of _ w] unfolding list_all_iff by metis
  moreover have g: "list_all (\<lambda>g. g < 65536) (groups_of w)" "length (groups_of w) = 8"
    by (auto simp: groups_of_def list_all_iff)
  then have "list_all (\<lambda>g. g < 65536) (take k (groups_of w))" "list_all (\<lambda>g. g < 65536) (drop k (groups_of w))" for k
    by (auto simp: list_all_iff dest: in_set_takeD in_set_dropD)
  then have "length (string6 w) \<le> 100"
    using length_join6 [of "take (fst (zero_run (groups_of w))) (groups_of w)"]
      length_join6 [of "drop (snd (zero_run (groups_of w))) (groups_of w)"] length_join6 [OF g(1)] g(2)
    by (auto simp: string6_def Let_def split_beta join_groups_join6)
  ultimately show ?thesis
    using string6_colon [of w] by (auto simp: plain_line_def)
qed

lemma addr_string_plain:
  assumes "is_valid a" and "addr_zone a = []"
  shows "plain_line (addr_string a)"
proof (cases a)
  case (V6 w z)
  have "graphic (CHR '':'')" "graphic (CHR ''f'')" by (simp_all add: graphic_def)
  then have "plain_line (''::ffff:'' @ string4 v)" for v
    using string4_bounds [of v] by (simp add: plain_line_def)
  with V6 assms show ?thesis using string6_plain by simp
qed (use assms string4_plain in simp_all)

end
