(* ===== verification/System_DNS.thy ===== *)
theory System_DNS
  imports System_Command
begin

text \<open>
  \<open>internal/system/dns_darwin.go\<close> and \<open>internal/system/interface_dns_darwin.go\<close>: reading, replacing and
  restoring the DNS servers of the host's network services through \<open>networksetup\<close>, and the servers of
  DHCP leases through \<open>ipconfig\<close>.
\<close>

record dns_state =
  Service :: string
  Previous :: "string list"
  Applied :: "string list"

record network_service =
  ns_Name :: string
  ns_Device :: string

definition networkSetup :: string where "networkSetup = ''/usr/sbin/networksetup''"
definition ipconfig :: string where "ipconfig = ''/usr/sbin/ipconfig''"


section \<open>Network services\<close>

text \<open>One line of \<open>-listnetworkserviceorder\<close>: the services found so far and the pending name.\<close>

definition service_line ::
  "network_service list \<times> string \<Rightarrow> string \<Rightarrow> network_service list \<times> string" where
  "service_line acc raw =
     (case acc of (services, pending) \<Rightarrow>
       (let line = trim_space raw
        in if line = [] \<or> has_prefix line ''An asterisk'' then (services, pending)
           else if has_prefix line ''(Hardware Port:'' then
             (if pending = [] then (services, pending)
              else case last_index_sub line ''Device:'' of
                  None \<Rightarrow> (services, [])
                | Some position \<Rightarrow>
                    (let device = trim_space (trim_suffix (drop (position + 7) line) '')'')
                     in if device \<noteq> [] then (services @ [\<lparr>ns_Name = pending, ns_Device = device\<rparr>], [])
                        else (services, [])))
           else if has_prefix line ''('' \<and> \<not> has_prefix line ''(*)'' then
             (case index_sub line '') '' of
                Some end_ \<Rightarrow> (services, trim_space (drop (end_ + 2) line))
              | None \<Rightarrow> (services, pending))
           else (services, pending)))"

definition parseNetworkServiceOrder :: "string \<Rightarrow> network_service list" where
  "parseNetworkServiceOrder output = fst (foldl service_line ([], []) (fst (scan_lines output)))"

text \<open>
  What \<open>net.InterfaceByName\<close> and \<open>Addrs\<close> find: nothing, or whether the interface is up and its
  addresses, each \<open>None\<close> where \<open>net.ParseCIDR\<close> fails; \<open>None\<close> in place of the list is an error of \<open>Addrs\<close>.
\<close>

type_synonym interfaces = "string \<Rightarrow> (bool \<times> addr option list option) option"

definition service_active :: "interfaces \<Rightarrow> network_service \<Rightarrow> bool" where
  "service_active ifs s =
     (case ifs (ns_Device s) of
        Some (True, Some addrs) \<Rightarrow>
          (\<exists>a \<in> set addrs. case a of None \<Rightarrow> False | Some ip \<Rightarrow> is4 (unmap ip) \<and> \<not> is_loopback ip)
      | _ \<Rightarrow> False)"

definition activeNetworkServices :: "interfaces \<Rightarrow> network_service list \<Rightarrow> network_service list" where
  "activeNetworkServices ifs services = filter (service_active ifs) services"


section \<open>Reading and writing one service\<close>

definition parse_servers :: "string \<Rightarrow> sys_error + string list" where
  "parse_servers trimmed =
     (case scan_lines trimmed of (lines, too_long) \<Rightarrow>
        bindE (mapE (\<lambda>l. case parse_addr (trim_space l) of
                           None \<Rightarrow> Inl (Refused ''service returned invalid DNS address'')
                         | Some a \<Rightarrow> Inr (addr_string a)) lines)
          (\<lambda>servers. if too_long then Inl (Caused ''read DNS servers for service'' (Refused ''token too long''))
                     else Inr servers))"

definition getDNS :: "'h runner \<Rightarrow> string \<Rightarrow> 'h \<Rightarrow> (sys_error + string list) \<times> 'h" where
  "getDNS run service h =
     (case run networkSetup [''-getdnsservers'', service] h of
        ((output, Some e), h') \<Rightarrow> (Inl (Caused ''get DNS for service'' (CommandError e)), h')
      | ((output, None), h') \<Rightarrow>
          (let trimmed = trim_space output
           in if has_prefix trimmed (''There aren'' @ [CHR 0x27] @ ''t any DNS Servers set on'') then (Inr [], h')
              else (parse_servers trimmed, h')))"

definition setDNS :: "'h runner \<Rightarrow> string \<Rightarrow> string list \<Rightarrow> 'h \<Rightarrow> sys_error option \<times> 'h" where
  "setDNS run service servers h =
     (if servers \<noteq> [] \<and> (\<exists>s \<in> set servers. parse_addr s = None)
      then (Some (Refused ''refuse invalid DNS server''), h)
      else
        (case run networkSetup
            ([''-setdnsservers'', service] @ (if servers = [] then [''Empty''] else servers)) h of
           ((_, Some e), h') \<Rightarrow> (Some (Caused ''set DNS for service'' (CommandError e)), h')
         | ((_, None), h') \<Rightarrow> (None, h')))"


section \<open>Replacing and restoring\<close>

definition replacement_ok :: "addr \<Rightarrow> bool" where
  "replacement_ok a = (is_valid a \<and> is_loopback a)"

abbreviation refuse_replacement :: sys_error where
  "refuse_replacement \<equiv> Refused ''refuse to record DNS service with replacement address as its previous DNS''"

fun snapshotDNSStates ::
  "'h runner \<Rightarrow> network_service list \<Rightarrow> addr \<Rightarrow> 'h \<Rightarrow> (sys_error + dns_state list) \<times> 'h" where
  "snapshotDNSStates run [] replacement h = (Inr [], h)"
| "snapshotDNSStates run (s # ss) replacement h =
     (case getDNS run (ns_Name s) h of
        (Inl e, h') \<Rightarrow> (Inl e, h')
      | (Inr servers, h') \<Rightarrow>
          if addr_string replacement \<in> set servers then (Inl refuse_replacement, h')
          else
            (case snapshotDNSStates run ss replacement h' of
               (Inl e, h'') \<Rightarrow> (Inl e, h'')
             | (Inr states, h'') \<Rightarrow>
                 (Inr (\<lparr>Service = ns_Name s, Previous = servers, Applied = []\<rparr> # states), h'')))"

definition SnapshotDNS ::
  "'h runner \<Rightarrow> interfaces \<Rightarrow> addr \<Rightarrow> 'h \<Rightarrow> (sys_error + dns_state list) \<times> 'h" where
  "SnapshotDNS run ifs replacement h =
     (if \<not> replacement_ok replacement then (Inl (Refused ''DNS replacement is not loopback''), h)
      else
        (case run networkSetup [''-listnetworkserviceorder''] h of
           ((_, Some e), h') \<Rightarrow> (Inl (Caused ''list network service order'' (CommandError e)), h')
         | ((output, None), h') \<Rightarrow>
             (let services = activeNetworkServices ifs (parseNetworkServiceOrder output)
              in if services = [] then (Inl (Refused ''no active IPv4 network services found''), h')
                 else snapshotDNSStates run services replacement h')))"

definition PlanDNS :: "dns_state list \<Rightarrow> addr \<Rightarrow> sys_error + dns_state list" where
  "PlanDNS states loopback =
     (if \<not> replacement_ok loopback then Inl (Refused ''DNS replacement is not loopback'')
      else mapE (\<lambda>st. if addr_string loopback \<in> set (Previous st) then Inl refuse_replacement
                      else Inr (st\<lparr>Applied := [addr_string loopback]\<rparr>)) states)"

fun apply_loop ::
  "'h runner \<Rightarrow> dns_state list \<Rightarrow> 'h \<Rightarrow> (dns_state list \<times> sys_error option) \<times> 'h" where
  "apply_loop run [] h = (([], None), h)"
| "apply_loop run (st # states) h =
     (case setDNS run (Service st) (Applied st) h of
        (Some e, h') \<Rightarrow> (([], Some e), h')
      | (None, h') \<Rightarrow>
          (case apply_loop run states h' of ((applied, e), h'') \<Rightarrow> ((st # applied, e), h'')))"

definition ApplyDNS ::
  "'h runner \<Rightarrow> dns_state list \<Rightarrow> addr \<Rightarrow> 'h \<Rightarrow> (dns_state list \<times> sys_error option) \<times> 'h" where
  "ApplyDNS run states loopback h =
     (case PlanDNS states loopback of
        Inl e \<Rightarrow> (([], Some e), h)
      | Inr planned \<Rightarrow> apply_loop run planned h)"

text \<open>One turn of the loop of \<open>RestoreDNS\<close>: \<open>Some\<close> error if the state stays in \<open>remaining\<close>.\<close>

definition restore_one :: "'h runner \<Rightarrow> dns_state \<Rightarrow> 'h \<Rightarrow> sys_error option \<times> 'h" where
  "restore_one run st h =
     (case getDNS run (Service st) h of
        (Inl e, h') \<Rightarrow> (Some e, h')
      | (Inr current, h') \<Rightarrow>
          if current = Previous st then (None, h')
          else if current \<noteq> Applied st
          then (Some (Refused ''refuse to restore DNS service: current servers do not match applied servers''), h')
          else setDNS run (Service st) (Previous st) h')"

fun restore_dns_loop ::
  "'h runner \<Rightarrow> dns_state list \<Rightarrow> 'h \<Rightarrow> (dns_state list \<times> sys_error list) \<times> 'h" where
  "restore_dns_loop run [] h = (([], []), h)"
| "restore_dns_loop run (st # states) h =
     (case restore_one run st h of
        (None, h') \<Rightarrow> restore_dns_loop run states h'
      | (Some e, h') \<Rightarrow>
          (case restore_dns_loop run states h' of
             ((remaining, failures), h'') \<Rightarrow> ((st # remaining, e # failures), h'')))"

definition RestoreDNS ::
  "'h runner \<Rightarrow> dns_state list \<Rightarrow> 'h \<Rightarrow> (dns_state list \<times> sys_error option) \<times> 'h" where
  "RestoreDNS run states h =
     (case restore_dns_loop run states h of
        ((remaining, failures), h') \<Rightarrow> ((remaining, join_errors failures), h'))"

fun clear_loop ::
  "'h runner \<Rightarrow> string list \<Rightarrow> string list \<Rightarrow> network_service list \<Rightarrow> 'h \<Rightarrow>
   (string list \<times> sys_error list) \<times> 'h" where
  "clear_loop run want seen [] h = (([], []), h)"
| "clear_loop run want seen (s # ss) h =
     (if ns_Name s \<in> set seen then clear_loop run want seen ss h
      else
        (case getDNS run (ns_Name s) h of
           (Inl e, h') \<Rightarrow>
             (case clear_loop run want (ns_Name s # seen) ss h' of
                ((cleared, failures), h'') \<Rightarrow> ((cleared, e # failures), h''))
         | (Inr current, h') \<Rightarrow>
             if current \<noteq> want then clear_loop run want (ns_Name s # seen) ss h'
             else
               (case setDNS run (ns_Name s) [] h' of
                  (Some e, h2) \<Rightarrow>
                    (case clear_loop run want (ns_Name s # seen) ss h2 of
                       ((cleared, failures), h3) \<Rightarrow> ((cleared, e # failures), h3))
                | (None, h2) \<Rightarrow>
                    (case clear_loop run want (ns_Name s # seen) ss h2 of
                       ((cleared, failures), h3) \<Rightarrow> ((ns_Name s # cleared, failures), h3)))))"

definition ClearDNSReplacement ::
  "'h runner \<Rightarrow> addr \<Rightarrow> 'h \<Rightarrow> (string list \<times> sys_error option) \<times> 'h" where
  "ClearDNSReplacement run replacement h =
     (if \<not> replacement_ok replacement then (([], Some (Refused ''DNS replacement is not loopback'')), h)
      else
        (case run networkSetup [''-listnetworkserviceorder''] h of
           ((_, Some e), h') \<Rightarrow> (([], Some (Caused ''list network service order'' (CommandError e))), h')
         | ((output, None), h') \<Rightarrow>
             (case clear_loop run [addr_string replacement] [] (parseNetworkServiceOrder output) h' of
                ((cleared, failures), h'') \<Rightarrow> ((cleared, join_errors failures), h''))))"


section \<open>DHCP servers\<close>

definition usableUpstreamDNS :: "addr \<Rightarrow> bool" where
  "usableUpstreamDNS a = (is_valid a \<and> \<not> is_unspecified a \<and> \<not> is_loopback a \<and> \<not> is_multicast a)"

text \<open>The values of one line; \<open>servers\<close> are those found so far, whose addresses are the \<open>seen\<close> set.\<close>

fun dhcp_values :: "addrport list \<Rightarrow> string list \<Rightarrow> sys_error + addrport list" where
  "dhcp_values servers [] = Inr servers"
| "dhcp_values servers (raw # raws) =
     (case parse_addr (trim_space raw) of
        None \<Rightarrow> Inl (Refused ''invalid DHCP DNS address'')
      | Some a0 \<Rightarrow>
          (let a = unmap a0
           in if \<not> usableUpstreamDNS a \<or> a \<in> ap_addr ` set servers then dhcp_values servers raws
              else dhcp_values (servers @ [\<lparr>ap_addr = a, ap_port = 53\<rparr>]) raws))"

definition dhcp_marker :: string where "dhcp_marker = ''domain_name_server (ip_mult):''"

definition dhcp_line :: "addrport list \<Rightarrow> string \<Rightarrow> sys_error + addrport list" where
  "dhcp_line servers raw =
     (let line = trim_space raw
      in if \<not> has_prefix line dhcp_marker then Inr servers
         else
           (let values0 = trim_space (trim_prefix line dhcp_marker);
                values = trim_space (trim_suffix (trim_prefix values0 ''{'') ''}'')
            in if values = [] then Inr servers else dhcp_values servers (split_on (CHR '','') values)))"

definition parseDHCPDNS :: "string \<Rightarrow> sys_error + addrport list" where
  "parseDHCPDNS output =
     (case scan_lines output of (lines, too_long) \<Rightarrow>
        bindE (foldE dhcp_line [] lines)
          (\<lambda>servers. if too_long then Inl (Refused ''token too long'') else Inr servers))"

fun discover_loop ::
  "'h runner \<Rightarrow> string list \<Rightarrow> (string, addrport list) gomap \<Rightarrow> 'h \<Rightarrow>
   ((string, addrport list) gomap \<times> sys_error option) \<times> 'h" where
  "discover_loop run [] result h = ((result, None), h)"
| "discover_loop run (n # ns) result h =
     (case validateInterfaceName n of
        Some e \<Rightarrow> ((result, Some e), h)
      | None \<Rightarrow>
          (case run ipconfig [''getpacket'', n] h of
             ((_, Some e), h') \<Rightarrow> discover_loop run ns result h'
           | ((output, None), h') \<Rightarrow>
               (case parseDHCPDNS output of
                  Inl e \<Rightarrow> ((result, Some (Caused ''parse DHCP DNS for interface'' e)), h')
                | Inr servers \<Rightarrow>
                    discover_loop run ns (if servers = [] then result else gm_put result n servers) h')))"

definition DiscoverInterfaceDNS ::
  "'h runner \<Rightarrow> string list \<Rightarrow> 'h \<Rightarrow> ((string, addrport list) gomap \<times> sys_error option) \<times> 'h" where
  "DiscoverInterfaceDNS run interfaces h = discover_loop run (remdups_adj (sort interfaces)) [] h"

end
