(* ===== verification/System_DNS_Properties.thy ===== *)
theory System_DNS_Properties
  imports System_DNS
begin

text \<open>
  The host's DNS settings under \<open>internal/system/dns_darwin.go\<close>: what \<open>networksetup\<close> is relied on for
  (\<open>networksetup_ok\<close>), and that restoring touches only what was applied and gives back what a snapshot
  found, whatever failed on the way.
\<close>

section \<open>The contract of \<open>networksetup\<close>\<close>

text \<open>
  \<open>dns h\<close> are the servers of each service of the host \<open>h\<close>.  Only \<open>-setdnsservers\<close> changes them, and only
  those of its service; when it fails it may or may not have done so.  \<open>-getdnsservers\<close> prints one server
  a line, or a sentence when there is none.
\<close>

definition plain_addr :: "addr \<Rightarrow> bool" where
  "plain_addr a = (is_valid a \<and> addr_zone a = [] \<and> \<not> is4in6 a)"

definition servers_of :: "string list \<Rightarrow> addr list" where
  "servers_of ss = map (\<lambda>s. case parse_addr s of None \<Rightarrow> NoAddr | Some a \<Rightarrow> a) ss"

definition set_args :: "string \<Rightarrow> string list \<Rightarrow> string list" where
  "set_args svc ss = [''-setdnsservers'', svc] @ (if ss = [] then [''Empty''] else ss)"

definition dns_report :: "string \<Rightarrow> addr list \<Rightarrow> string" where
  "dns_report svc as =
     (if as = [] then ''There aren'' @ [CHR 0x27] @ ''t any DNS Servers set on '' @ svc @ [CHR ''.'', newline]
      else report_lines (map addr_string as))"

definition networksetup_ok :: "'h runner \<Rightarrow> ('h \<Rightarrow> string \<Rightarrow> addr list) \<Rightarrow> bool" where
  "networksetup_ok run dns =
     ((\<forall>exe args h. (\<forall>svc ss. exe = networkSetup \<longrightarrow> args \<noteq> set_args svc ss) \<longrightarrow>
         dns (snd (run exe args h)) = dns h) \<and>
      (\<forall>svc h. list_all plain_addr (dns h svc) \<longrightarrow>
         snd (fst (run networkSetup [''-getdnsservers'', svc] h)) = None \<longrightarrow>
         fst (fst (run networkSetup [''-getdnsservers'', svc] h)) = dns_report svc (dns h svc)) \<and>
      (\<forall>svc ss h. list_all (\<lambda>s. parse_addr s \<noteq> None) ss \<longrightarrow>
         (case run networkSetup (set_args svc ss) h of ((_, e), h') \<Rightarrow>
            (\<forall>s. s \<noteq> svc \<longrightarrow> dns h' s = dns h s) \<and>
            (dns h' svc = servers_of ss \<or> e \<noteq> None \<and> dns h' svc = dns h svc))))"

lemma parse_plain [simp]: "plain_addr a \<Longrightarrow> parse_addr (addr_string a) = Some a"
  by (simp add: plain_addr_def parse_addr_string)

lemma servers_of_plain [simp]: "list_all plain_addr as \<Longrightarrow> servers_of (map addr_string as) = as"
  by (induction as) (auto simp: servers_of_def)

lemma dns_frame:
  assumes "networksetup_ok run dns" and "run exe args h = (r, h')"
    and "\<And>svc ss. exe = networkSetup \<Longrightarrow> args \<noteq> set_args svc ss"
  shows "dns h' = dns h"
proof -
  from assms(1) have "(\<forall>svc ss. exe = networkSetup \<longrightarrow> args \<noteq> set_args svc ss) \<longrightarrow>
      dns (snd (run exe args h)) = dns h"
    unfolding networksetup_ok_def by (elim conjE allE)
  with assms(2,3) show ?thesis by simp
qed

lemma networksetup_get:
  assumes "networksetup_ok run dns" and "run networkSetup [''-getdnsservers'', svc] h = ((out, None), h')"
    and "list_all plain_addr (dns h svc)"
  shows "out = dns_report svc (dns h svc)"
proof -
  from assms(1) have "list_all plain_addr (dns h svc) \<longrightarrow>
      snd (fst (run networkSetup [''-getdnsservers'', svc] h)) = None \<longrightarrow>
      fst (fst (run networkSetup [''-getdnsservers'', svc] h)) = dns_report svc (dns h svc)"
    unfolding networksetup_ok_def by (elim conjE allE)
  with assms(2,3) show ?thesis by simp
qed

lemma networksetup_set:
  assumes "networksetup_ok run dns" and "run networkSetup (set_args svc ss) h = ((out, e), h')"
    and "list_all (\<lambda>s. parse_addr s \<noteq> None) ss"
  shows "(\<forall>s. s \<noteq> svc \<longrightarrow> dns h' s = dns h s) \<and>
         (dns h' svc = servers_of ss \<or> e \<noteq> None \<and> dns h' svc = dns h svc)"
proof -
  from assms(1) have "list_all (\<lambda>s. parse_addr s \<noteq> None) ss \<longrightarrow>
      (case run networkSetup (set_args svc ss) h of ((_, e), h') \<Rightarrow>
         (\<forall>s. s \<noteq> svc \<longrightarrow> dns h' s = dns h s) \<and>
         (dns h' svc = servers_of ss \<or> e \<noteq> None \<and> dns h' svc = dns h svc))"
    unfolding networksetup_ok_def by (elim conjE allE)
  with assms(2,3) show ?thesis by simp
qed

lemma not_set_args [simp]:
  "[''-getdnsservers'', svc] \<noteq> set_args s ss" "[''-listnetworkserviceorder''] \<noteq> set_args s ss"
  by (simp_all add: set_args_def)

lemma addr_string_chars:
  assumes "plain_addr a" and "c \<in> set (addr_string a)"
  shows "hex_digit c \<noteq> None \<or> c = CHR ''.'' \<or> c = CHR '':''"
proof (cases a)
  case (V4 w)
  then have "is_digit c \<or> c = CHR ''.''"
    using assms(2) dec_digits_no_sep [of c] by (auto simp: string4_def Let_def)
  then show ?thesis by (auto simp: hex_digit_def)
next
  case (V6 w z)
  then show ?thesis using assms string6_chars [of c w] by (auto simp: plain_addr_def)
qed (use assms in \<open>simp add: plain_addr_def\<close>)

lemma reports_plain: "list_all plain_addr as \<Longrightarrow> list_all plain_line (map addr_string as)"
  by (auto simp: list_all_iff plain_addr_def addr_string_plain)

lemma mapE_parse_plain:
  assumes "list_all plain_addr as"
  shows "mapE (\<lambda>l. case parse_addr (trim_space l) of
             None \<Rightarrow> Inl e | Some a \<Rightarrow> Inr (addr_string a)) (map addr_string as) = Inr (map addr_string as)"
  using assms
proof (induction as)
  case (Cons a as)
  have "plain_line (addr_string a)" using Cons.prems by (simp add: addr_string_plain plain_addr_def)
  then have "trim_space (addr_string a) = addr_string a"
    by (intro trim_space_graphic) (auto simp: plain_line_def list_all_iff)
  with Cons show ?case by simp
qed simp

text \<open>Reading a service gives its servers, in their textual form.\<close>

lemma parse_report:
  assumes "list_all plain_addr as"
  shows "(let t = trim_space (dns_report svc as)
          in if has_prefix t (''There aren'' @ [CHR 0x27] @ ''t any DNS Servers set on'') then Inr []
             else parse_servers t) = Inr (map addr_string as)"
proof (cases "as = []")
  case True
  let ?s = "''There aren'' @ [CHR 0x27] @ ''t any DNS Servers set on '' @ svc @ ''.''"
  have "trim_space (?s @ [newline]) = ?s"
    by (intro trim_space_newline) (simp_all add: graphic_def)
  then show ?thesis using True by (simp add: dns_report_def has_prefix_def)
next
  case False
  let ?ls = "map addr_string as"
  from False reports_plain [OF assms] obtain c s t where
    c: "hd ?ls = c # s" "trim_space (report_lines ?ls) = c # t"
    using hd_trim_report [of ?ls] by auto
  then have "c \<in> set (addr_string (hd as))" using False by (simp add: hd_map)
  then have "hex_digit c \<noteq> None \<or> c = CHR ''.'' \<or> c = CHR '':''"
    using addr_string_chars [of "hd as" c] assms False by (simp add: list_all_iff)
  moreover have "hex_digit (CHR ''T'') = None" by code_simp
  ultimately have "c \<noteq> CHR ''T''" by auto
  then have "\<not> has_prefix (c # t) (''There aren'' @ [CHR 0x27] @ ''t any DNS Servers set on'')"
    by (simp add: has_prefix_def)
  then show ?thesis
    using scan_report [OF reports_plain [OF assms]] c(2) False
    by (simp add: dns_report_def parse_servers_def mapE_parse_plain assms Let_def)
qed

lemma getDNS_spec:
  assumes "networksetup_ok run dns" and "getDNS run svc h = (r, h')"
  shows "dns h' = dns h"
    and "list_all plain_addr (dns h svc) \<Longrightarrow> r = Inr ss \<Longrightarrow> ss = map addr_string (dns h svc)"
proof -
  obtain out e h1 where r: "run networkSetup [''-getdnsservers'', svc] h = ((out, e), h1)"
    by (metis prod.collapse)
  then have h1: "h1 = h'" using assms(2) by (auto simp: getDNS_def Let_def split: option.splits if_splits)
  show "dns h' = dns h" using dns_frame [OF assms(1) r] h1 by simp
  assume p: "list_all plain_addr (dns h svc)" and "r = Inr ss"
  then have "e = None" using assms(2) r by (auto simp: getDNS_def split: option.splits)
  then have "out = dns_report svc (dns h svc)"
    using networksetup_get [OF assms(1)] p r by simp
  then show "ss = map addr_string (dns h svc)"
    using parse_report [OF p, of svc] assms(2) r \<open>e = None\<close> \<open>r = Inr ss\<close>
    by (auto simp: getDNS_def Let_def split: if_splits)
qed

lemma setDNS_spec:
  assumes "networksetup_ok run dns" and "setDNS run svc ss h = (e, h')"
  shows "s \<noteq> svc \<Longrightarrow> dns h' s = dns h s"
    and "dns h' svc = servers_of ss \<or> e \<noteq> None \<and> dns h' svc = dns h svc"
proof -
  have "(\<forall>s. s \<noteq> svc \<longrightarrow> dns h' s = dns h s) \<and>
        (dns h' svc = servers_of ss \<or> e \<noteq> None \<and> dns h' svc = dns h svc)"
  proof (cases "ss \<noteq> [] \<and> (\<exists>s \<in> set ss. parse_addr s = None)")
    case True
    then show ?thesis using assms(2) by (auto simp: setDNS_def)
  next
    case False
    then have p: "list_all (\<lambda>s. parse_addr s \<noteq> None) ss" by (auto simp: list_all_iff)
    obtain out e1 h1 where r: "run networkSetup (set_args svc ss) h = ((out, e1), h1)"
      by (metis prod.collapse)
    have "(\<forall>s. s \<noteq> svc \<longrightarrow> dns h1 s = dns h s) \<and>
          (dns h1 svc = servers_of ss \<or> e1 \<noteq> None \<and> dns h1 svc = dns h svc)"
      by (rule networksetup_set [OF assms(1) r p])
    moreover have "h1 = h'" "(e = None) = (e1 = None)"
      using assms(2) r False by (auto simp: setDNS_def set_args_def split: option.splits)
    ultimately show ?thesis by auto
  qed
  then show "s \<noteq> svc \<Longrightarrow> dns h' s = dns h s"
    and "dns h' svc = servers_of ss \<or> e \<noteq> None \<and> dns h' svc = dns h svc" by auto
qed


section \<open>Restoring\<close>

text \<open>What one turn of \<open>RestoreDNS\<close> may do to a service.\<close>

definition restored :: "dns_state \<Rightarrow> addr list \<Rightarrow> addr list \<Rightarrow> bool" where
  "restored st old new =
     (new = old \<or> map addr_string old = Applied st \<and> new = servers_of (Previous st))"

lemma restore_one_spec:
  assumes "networksetup_ok run dns" and "list_all plain_addr (dns h (Service st))"
    and "restore_one run st h = (e, h')"
  shows "s \<noteq> Service st \<Longrightarrow> dns h' s = dns h s"
    and "e = None \<Longrightarrow> dns h' (Service st) = servers_of (Previous st)"
    and "restored st (dns h (Service st)) (dns h' (Service st))"
proof -
  obtain r h1 where g: "getDNS run (Service st) h = (r, h1)" by (metis prod.collapse)
  note gs = getDNS_spec [OF assms(1) g]
  have "(\<forall>s. s \<noteq> Service st \<longrightarrow> dns h' s = dns h s) \<and>
        (e = None \<longrightarrow> dns h' (Service st) = servers_of (Previous st)) \<and>
        restored st (dns h (Service st)) (dns h' (Service st))"
  proof (cases r)
    case (Inl x)
    then show ?thesis using assms(3) g gs(1) by (auto simp: restore_one_def restored_def)
  next
    case (Inr current)
    then have c: "current = map addr_string (dns h (Service st))" using gs(2) assms(2) by simp
    show ?thesis
    proof (cases "current \<noteq> Previous st \<and> current = Applied st")
      case True
      then have s: "setDNS run (Service st) (Previous st) h1 = (e, h')"
        using assms(3) g Inr by (auto simp: restore_one_def)
      show ?thesis
        using setDNS_spec [OF assms(1) s] gs(1) True c by (auto simp: restored_def)
    next
      case False
      then have "h' = h1" "e = None \<Longrightarrow> current = Previous st"
        using assms(3) g Inr by (auto simp: restore_one_def split: if_splits)
      then show ?thesis
        using gs(1) c servers_of_plain [OF assms(2)] by (auto simp: restored_def)
    qed
  qed
  then show "s \<noteq> Service st \<Longrightarrow> dns h' s = dns h s"
    and "e = None \<Longrightarrow> dns h' (Service st) = servers_of (Previous st)"
    and "restored st (dns h (Service st)) (dns h' (Service st))" by auto
qed

lemma restore_dns_loop_spec:
  assumes "networksetup_ok run dns" and "distinct (map Service states)"
    and "\<forall>st \<in> set states. list_all plain_addr (dns h (Service st))"
    and "restore_dns_loop run states h = ((remaining, failures), h')"
  shows "(\<forall>s. s \<notin> Service ` set states \<longrightarrow> dns h' s = dns h s) \<and>
         (\<forall>st \<in> set states. st \<in> set remaining \<or> dns h' (Service st) = servers_of (Previous st)) \<and>
         (\<forall>st \<in> set states. restored st (dns h (Service st)) (dns h' (Service st))) \<and>
         subseq remaining states \<and> length failures = length remaining"
  using assms(2-)
proof (induction states arbitrary: h remaining failures h')
  case (Cons st states)
  obtain e h1 where one: "restore_one run st h = (e, h1)" by (metis prod.collapse)
  obtain rem fs h2 where rest: "restore_dns_loop run states h1 = ((rem, fs), h2)" by (metis prod.collapse)
  note spec = restore_one_spec [OF assms(1) _ one]
  have plain: "list_all plain_addr (dns h (Service st))" using Cons.prems(2) by simp
  have other: "Service x \<noteq> Service st" if "x \<in> set states" for x
    using Cons.prems(1) that by (metis distinct.simps(2) image_eqI image_set list.simps(9))
  have "\<forall>x \<in> set states. list_all plain_addr (dns h1 (Service x))"
    using Cons.prems(2) other spec(1) [OF plain] by simp
  from Cons.IH [OF _ this rest] Cons.prems(1)
  have IH: "\<forall>s. s \<notin> Service ` set states \<longrightarrow> dns h2 s = dns h1 s"
    "\<forall>x \<in> set states. x \<in> set rem \<or> dns h2 (Service x) = servers_of (Previous x)"
    "\<forall>x \<in> set states. restored x (dns h1 (Service x)) (dns h2 (Service x))"
    "subseq rem states" "length fs = length rem"
    by auto
  have st: "dns h2 (Service st) = dns h1 (Service st)" using IH(1) Cons.prems(1) by auto
  have same: "dns h1 (Service x) = dns h (Service x)" if "x \<in> set states" for x
    using spec(1) [OF plain other [OF that]] .
  have "h' = h2" "remaining = (if e = None then rem else st # rem)" "length failures = length remaining"
    using Cons.prems(3) one rest IH(5) by (auto split: option.splits)
  then show ?case
    using IH st spec [OF plain] same by (auto simp: list_emb_Cons)
qed auto

text \<open>
  A recovery record: the record of each service holds what the service had originally, the service now
  has that or what was applied, and no other service differs from the original.
\<close>

definition dns_recorded ::
  "(string \<Rightarrow> addr list) \<Rightarrow> (string \<Rightarrow> addr list) \<Rightarrow> dns_state list \<Rightarrow> bool" where
  "dns_recorded orig cur states =
     (distinct (map Service states) \<and>
      (\<forall>st \<in> set states. servers_of (Previous st) = orig (Service st) \<and>
         (cur (Service st) = orig (Service st) \<or>
          list_all plain_addr (cur (Service st)) \<and> map addr_string (cur (Service st)) = Applied st)) \<and>
      (\<forall>s. s \<notin> Service ` set states \<longrightarrow> cur s = orig s))"

definition plain_dns :: "(string \<Rightarrow> addr list) \<Rightarrow> bool" where
  "plain_dns d = (\<forall>s. list_all plain_addr (d s))"

lemma dns_recorded_Nil [simp]: "dns_recorded orig cur [] \<longleftrightarrow> cur = orig"
  by (auto simp: dns_recorded_def)

lemma dns_recorded_plain:
  "plain_dns orig \<Longrightarrow> dns_recorded orig cur states \<Longrightarrow> plain_dns cur"
  unfolding plain_dns_def dns_recorded_def by (metis imageE)

lemma restore_recorded:
  assumes "networksetup_ok run dns" and "plain_dns orig" and "dns_recorded orig (dns h) states"
    and "RestoreDNS run states h = ((remaining, err), h')"
  shows "dns_recorded orig (dns h') remaining" "dns_recorded orig (dns h') states"
    "err = None \<Longrightarrow> remaining = []"
proof -
  obtain failures where r: "restore_dns_loop run states h = ((remaining, failures), h')"
      "err = join_errors failures"
    using assms(4) by (auto simp: RestoreDNS_def split: prod.splits)
  have d: "distinct (map Service states)"
    and p: "\<forall>st \<in> set states. list_all plain_addr (dns h (Service st))"
    using assms(3) dns_recorded_plain [OF assms(2,3)] by (auto simp: dns_recorded_def plain_dns_def)
  note spec = restore_dns_loop_spec [OF assms(1) d p r(1)]
  then show "err = None \<Longrightarrow> remaining = []" using r(2) by auto
  show all: "dns_recorded orig (dns h') states"
    using spec assms(3) unfolding dns_recorded_def restored_def by metis
  have sub: "set remaining \<subseteq> set states" "distinct (map Service remaining)"
    using spec d by (auto dest: list_emb_set) (metis distinct_nthsI subseq_conv_nths subseq_map)
  have "dns h' s = orig s" if "s \<notin> Service ` set remaining" for s
  proof (cases "s \<in> Service ` set states")
    case True
    then obtain st where "st \<in> set states" "s = Service st" by auto
    then show ?thesis using spec assms(3) that unfolding dns_recorded_def by (metis image_eqI)
  next
    case False
    then show ?thesis using all unfolding dns_recorded_def by simp
  qed
  then show "dns_recorded orig (dns h') remaining"
    using all sub unfolding dns_recorded_def by blast
qed

lemma restore_dns_loop_remaining:
  "restore_dns_loop run states h = ((remaining, failures), h') \<Longrightarrow> set remaining \<subseteq> set states"
  by (induction states arbitrary: h remaining failures h') (fastforce split: prod.splits option.splits)+

lemma RestoreDNS_remaining:
  "RestoreDNS run states h = ((remaining, err), h') \<Longrightarrow> set remaining \<subseteq> set states"
  by (auto simp: RestoreDNS_def split: prod.splits dest: restore_dns_loop_remaining)

lemma snapshot_states_spec:
  assumes "networksetup_ok run dns" and "plain_dns (dns h)"
    and "snapshotDNSStates run services a h = (r, h')"
  shows "dns h' = dns h \<and>
         (\<forall>states. r = Inr states \<longrightarrow>
            (\<forall>st \<in> set states. Previous st = map addr_string (dns h (Service st))))"
  using assms(2,3)
proof (induction services arbitrary: h r h')
  case (Cons s ss)
  obtain g h1 where g: "getDNS run (ns_Name s) h = (g, h1)" by (metis prod.collapse)
  obtain r2 h2 where rest: "snapshotDNSStates run ss a h1 = (r2, h2)" by (metis prod.collapse)
  have d: "dns h1 = dns h" by (rule getDNS_spec(1) [OF assms(1) g])
  have "g = Inr servers \<Longrightarrow> servers = map addr_string (dns h (ns_Name s))" for servers
    using getDNS_spec(2) [OF assms(1) g] Cons.prems(1) by (simp add: plain_dns_def)
  moreover note Cons.IH [OF _ rest]
  ultimately show ?case
    using Cons.prems g d rest by (auto split: sum.splits if_splits)
qed auto

lemma SnapshotDNS_spec:
  assumes "networksetup_ok run dns" and "plain_dns (dns h)" and "SnapshotDNS run ifs a h = (r, h')"
  shows "dns h' = dns h"
    and "r = Inr states \<Longrightarrow> st \<in> set states \<Longrightarrow> Previous st = map addr_string (dns h (Service st))"
proof -
  obtain out e h1 where l: "run networkSetup [''-listnetworkserviceorder''] h = ((out, e), h1)"
    by (metis prod.collapse)
  have d: "dns h1 = dns h" by (rule dns_frame [OF assms(1) l]) simp
  with assms(2) have p: "plain_dns (dns h1)" by simp
  show "dns h' = dns h"
    using assms(3) l d snapshot_states_spec [OF assms(1) p]
    by (auto simp: SnapshotDNS_def Let_def split: if_splits option.splits)
  show "r = Inr states \<Longrightarrow> st \<in> set states \<Longrightarrow> Previous st = map addr_string (dns h (Service st))"
    using assms(3) l d snapshot_states_spec [OF assms(1) p]
    by (fastforce simp: SnapshotDNS_def Let_def split: if_splits option.splits)
qed

lemma mapE_plan:
  "mapE (\<lambda>x. if bad x then Inl e else Inr (f x)) xs = Inr ys \<longleftrightarrow> (\<forall>x \<in> set xs. \<not> bad x) \<and> ys = map f xs"
  by (induction xs arbitrary: ys) (auto simp: bindE_Inr_iff)

lemma PlanDNS_Inr:
  "PlanDNS states a = Inr planned \<longleftrightarrow>
   replacement_ok a \<and> (\<forall>st \<in> set states. addr_string a \<notin> set (Previous st)) \<and>
   planned = map (\<lambda>st. st\<lparr>Applied := [addr_string a]\<rparr>) states"
  by (auto simp: PlanDNS_def mapE_plan)

lemma PlanDNS_again: "PlanDNS states a = Inr planned \<Longrightarrow> PlanDNS planned a = Inr planned"
  by (auto simp: PlanDNS_Inr)

text \<open>A plan made from a snapshot records the host, before and after it is applied, however far that gets.\<close>

lemma plan_recorded:
  assumes "plain_dns orig" and "distinct (map Service states)"
    and "\<forall>st \<in> set states. Previous st = map addr_string (orig (Service st))"
    and "PlanDNS states a = Inr planned"
  shows "dns_recorded orig orig planned"
  using assms by (auto simp: PlanDNS_Inr dns_recorded_def plain_dns_def comp_def)

lemma apply_loop_recorded:
  assumes "networksetup_ok run dns" and "plain_addr a"
    and "\<forall>st \<in> set todo. Applied st = [addr_string a]" and "set todo \<subseteq> set states"
    and "dns_recorded orig (dns h) states" and "apply_loop run todo h = (r, h')"
  shows "dns_recorded orig (dns h') states"
  using assms(3-)
proof (induction todo arbitrary: h r)
  case (Cons st todo)
  obtain e h1 where s: "setDNS run (Service st) (Applied st) h = (e, h1)" by (metis prod.collapse)
  have a: "Applied st = map addr_string [a]" "servers_of (Applied st) = [a]"
    using Cons.prems(1) assms(2) servers_of_plain [of "[a]"] by auto
  have "dns_recorded orig (dns h1) states"
    unfolding dns_recorded_def
  proof (intro conjI ballI allI impI)
    fix x assume x: "x \<in> set states"
    then show "servers_of (Previous x) = orig (Service x)"
      using Cons.prems(3) by (simp add: dns_recorded_def)
    have "Service x = Service st \<Longrightarrow> x = st"
      using Cons.prems(2,3) x by (auto simp: dns_recorded_def distinct_map inj_on_eq_iff)
    then show "dns h1 (Service x) = orig (Service x) \<or>
          list_all plain_addr (dns h1 (Service x)) \<and> map addr_string (dns h1 (Service x)) = Applied x"
      using setDNS_spec [OF assms(1) s] Cons.prems(3) a assms(2) x
      by (cases "Service x = Service st") (auto simp: dns_recorded_def)
  next
    fix t assume "t \<notin> Service ` set states"
    then show "dns h1 t = orig t"
      using setDNS_spec(1) [OF assms(1) s, of t] Cons.prems(2,3) by (auto simp: dns_recorded_def)
  qed (use Cons.prems(3) in \<open>simp add: dns_recorded_def\<close>)
  then show ?case using Cons s by (auto split: option.splits prod.splits)
qed simp

text \<open>
  C16: Restoring never overwrites a setting the program does not own.  A service changes only if its
  servers were exactly the applied ones, and then to the previous ones; every recorded service either has
  its previous servers afterwards or is kept for another attempt, and the call succeeds iff nothing is
  kept.
\<close>

theorem restore_touches_only_own:
  assumes "networksetup_ok run dns" and "distinct (map Service states)"
    and "\<forall>st \<in> set states. list_all plain_addr (dns h (Service st))"
    and "RestoreDNS run states h = ((remaining, err), h')"
  shows "(\<forall>s. dns h' s \<noteq> dns h s \<longrightarrow>
            (\<exists>st \<in> set states. Service st = s \<and> map addr_string (dns h s) = Applied st \<and>
               dns h' s = servers_of (Previous st))) \<and>
         (\<forall>st \<in> set states. st \<in> set remaining \<or> dns h' (Service st) = servers_of (Previous st)) \<and>
         subseq remaining states \<and> (err = None \<longleftrightarrow> remaining = [])"
proof -
  obtain failures where r: "restore_dns_loop run states h = ((remaining, failures), h')"
      "err = join_errors failures"
    using assms(4) by (auto simp: RestoreDNS_def split: prod.splits)
  note spec = restore_dns_loop_spec [OF assms(1-3) r(1)]
  have "\<exists>st \<in> set states. Service st = s \<and> map addr_string (dns h s) = Applied st \<and>
               dns h' s = servers_of (Previous st)" if "dns h' s \<noteq> dns h s" for s
  proof -
    have "s \<in> Service ` set states" using that spec by metis
    then obtain st where "st \<in> set states" "s = Service st" by auto
    then show ?thesis using that spec unfolding restored_def by metis
  qed
  then show ?thesis using spec r(2) by auto
qed

text \<open>
  C17: Taking over the DNS settings of the host can always be undone.  After a snapshot, the plan made from
  it, an application of the plan that may fail at any service, and a restore of the plan that may fail at
  any service, every service the snapshot did not list is as it was; a listed one is as it was or is kept
  with its original servers on record; and if the restore reports success, all settings are as they were.
\<close>

theorem dns_takeover_undone:
  assumes "networksetup_ok run dns" and "plain_dns (dns h)" and "plain_addr a"
    and "SnapshotDNS run ifs a h = (Inr states, h1)" and "distinct (map Service states)"
    and "PlanDNS states a = Inr planned"
    and "ApplyDNS run planned a h1 = ((applied, err1), h2)"
    and "RestoreDNS run planned h2 = ((remaining, err2), h3)"
  shows "(\<forall>s. s \<notin> Service ` set states \<longrightarrow> dns h3 s = dns h s) \<and>
         (\<forall>s. dns h3 s = dns h s \<or>
            (\<exists>st \<in> set remaining. Service st = s \<and> servers_of (Previous st) = dns h s \<and> dns h3 s = [a])) \<and>
         (err2 = None \<longrightarrow> dns h3 = dns h)"
proof -
  have plan: "planned = map (\<lambda>st. st\<lparr>Applied := [addr_string a]\<rparr>) states"
    using assms(6) by (simp add: PlanDNS_Inr)
  have "\<forall>st \<in> set states. Previous st = map addr_string (dns h (Service st))"
    using SnapshotDNS_spec(2) [OF assms(1,2,4)] by simp
  from plan_recorded [OF assms(2,5) this assms(6)]
  have "dns_recorded (dns h) (dns h1) planned"
    using SnapshotDNS_spec(1) [OF assms(1,2,4)] by simp
  then have rec: "dns_recorded (dns h) (dns h2) planned"
    using apply_loop_recorded [OF assms(1,3), of planned planned] assms(7) plan PlanDNS_again [OF assms(6)]
    by (auto simp: ApplyDNS_def)
  note after = restore_recorded [OF assms(1,2) rec assms(8)]
  have "\<forall>st \<in> set planned. Applied st = map addr_string [a]" using plan by auto
  moreover have "set remaining \<subseteq> set planned" by (rule RestoreDNS_remaining [OF assms(8)])
  ultimately have kept: "servers_of (Previous st) = dns h (Service st) \<and>
      (dns h3 (Service st) = dns h (Service st) \<or> dns h3 (Service st) = [a])" if "st \<in> set remaining" for st
  proof -
    have "as = [a]" if "list_all plain_addr as" "map addr_string as = map addr_string [a]" for as
      using servers_of_plain [OF that(1)] servers_of_plain [of "[a]"] that(2) assms(3) by simp
    then show ?thesis
      using after(1) that \<open>\<forall>st \<in> set planned. _\<close> \<open>set remaining \<subseteq> _\<close>
      unfolding dns_recorded_def by (metis subsetD)
  qed
  have "dns h3 s = dns h s \<or>
      (\<exists>st \<in> set remaining. Service st = s \<and> servers_of (Previous st) = dns h s \<and> dns h3 s = [a])" for s
  proof (cases "s \<in> Service ` set remaining")
    case True
    then obtain st where "st \<in> set remaining" "s = Service st" by auto
    with kept [of st] show ?thesis by auto
  next
    case False
    then show ?thesis using after(1) by (simp add: dns_recorded_def)
  qed
  moreover have "dns h3 s = dns h s" if "s \<notin> Service ` set states" for s
    using after(2) that plan by (simp add: dns_recorded_def image_image)
  moreover have "dns h3 = dns h" if "err2 = None"
    using after(1,3) that by simp
  ultimately show ?thesis by simp
qed


section \<open>A host to try it on\<close>

text \<open>
  A host with two services, on one of which \<open>-setdnsservers\<close> fails every time; the others may be changed
  freely.
\<close>

type_synonym dns_host = "(string \<times> addr list) list"

definition host_dns :: "dns_host \<Rightarrow> string \<Rightarrow> addr list" where
  "host_dns h s = (case map_of h s of None \<Rightarrow> [] | Some as \<Rightarrow> as)"

definition host_listing :: string where
  "host_listing =
     report_lines [''(1) Wi-Fi'', ''(Hardware Port: Wi-Fi, Device: en0)'', ''(2) Stuck'',
       ''(Hardware Port: Thunderbolt, Device: en7)'']"

definition host_run :: "dns_host runner" where
  "host_run exe args h =
     (if exe = networkSetup \<and> 3 \<le> length args \<and> hd args = ''-setdnsservers'' then
        (let svc = args ! 1; ss = drop 2 args
         in if svc = ''Stuck'' then (([], Some ''exit status 4''), h)
            else (([], None), (svc, servers_of (if ss = [''Empty''] then [] else ss)) # h))
      else if exe = networkSetup \<and> length args = 2 \<and> hd args = ''-getdnsservers''
      then ((dns_report (args ! 1) (host_dns h (args ! 1)), None), h)
      else ((host_listing, None), h))"

definition host_ifs :: interfaces where
  "host_ifs d = (if d = ''en0'' \<or> d = ''en7'' then Some (True, Some [Some (V4 0xC0A80105)]) else None)"

definition host0 :: dns_host where
  "host0 = [(''Wi-Fi'', [V4 0x08080808]), (''VPN'', [V4 0x0A000001])]"

lemma empty_not_address: "parse_addr ''Empty'' = None"
  by code_simp

lemma host_run_set:
  "list_all (\<lambda>s. parse_addr s \<noteq> None) ss \<Longrightarrow>
   host_run networkSetup (set_args svc ss) h =
     (if svc = ''Stuck'' then (([], Some ''exit status 4''), h) else (([], None), (svc, servers_of ss) # h))"
  by (cases ss) (auto simp: host_run_def set_args_def empty_not_address)

lemma host_run_ok: "networksetup_ok host_run host_dns"
  unfolding networksetup_ok_def
proof (intro conjI allI impI)
  fix exe args and h :: dns_host
  assume a: "\<forall>svc ss. exe = networkSetup \<longrightarrow> args \<noteq> set_args svc ss"
  show "host_dns (snd (host_run exe args h)) = host_dns h"
  proof (cases "exe = networkSetup \<and> 3 \<le> length args \<and> hd args = ''-setdnsservers''")
    case True
    then have "args = set_args (args ! 1) (drop 2 args)"
      by (cases args; cases "tl args"; cases "drop 2 args") (auto simp: set_args_def)
    with a True show ?thesis by metis
  qed (auto simp: host_run_def)
next
  fix svc and h :: dns_host
  show "fst (fst (host_run networkSetup [''-getdnsservers'', svc] h)) = dns_report svc (host_dns h svc)"
    by (simp add: host_run_def)
next
  fix svc ss and h :: dns_host
  assume "list_all (\<lambda>s. parse_addr s \<noteq> None) ss"
  then show "case host_run networkSetup (set_args svc ss) h of ((_, e), h') \<Rightarrow>
      (\<forall>s. s \<noteq> svc \<longrightarrow> host_dns h' s = host_dns h s) \<and>
      (host_dns h' svc = servers_of ss \<or> e \<noteq> None \<and> host_dns h' svc = host_dns h svc)"
    by (auto simp: host_run_set host_dns_def)
qed


definition host_states :: "dns_state list" where
  "host_states =
     [\<lparr>Service = ''Wi-Fi'', Previous = [''8.8.8.8''], Applied = [''127.0.0.1'']\<rparr>,
      \<lparr>Service = ''VPN'', Previous = [''9.9.9.9''], Applied = [''127.0.0.1'']\<rparr>]"

definition host1 :: dns_host where
  "host1 = [(''Wi-Fi'', [V4 0x7F000001]), (''VPN'', [V4 0x0A000001])]"

theorem restore_touches_only_own_witness:
  "\<exists>h'. snd (RestoreDNS host_run host_states host1) = h' \<and> host_dns h' ''Wi-Fi'' = [V4 0x08080808] \<and>
     host_dns h' ''VPN'' = [V4 0x0A000001]"
proof -
  obtain remaining err h' where r: "RestoreDNS host_run host_states host1 = ((remaining, err), h')"
    by (metis prod.collapse)
  have d: "distinct (map Service host_states)"
    "\<forall>st \<in> set host_states. list_all plain_addr (host_dns host1 (Service st))" by code_simp+
  note spec = restore_touches_only_own [OF host_run_ok d r]
  have "fst (fst (RestoreDNS host_run host_states host1)) = [host_states ! 1]" by code_simp
  then have "remaining = [host_states ! 1]" by (simp add: r)
  then have "host_dns h' ''Wi-Fi'' = servers_of [''8.8.8.8'']"
    using spec by (simp add: host_states_def)
  moreover have "servers_of [''8.8.8.8''] = [V4 0x08080808]" by code_simp
  moreover have "map addr_string (host_dns host1 ''VPN'') \<noteq> [''127.0.0.1'']" by code_simp
  then have "host_dns h' ''VPN'' = host_dns host1 ''VPN''"
    using spec by (auto simp: host_states_def)
  moreover have "host_dns host1 ''VPN'' = [V4 0x0A000001]" by code_simp
  ultimately show ?thesis using r by simp
qed

lemma host0_plain: "plain_dns (host_dns host0)"
  by (simp add: plain_dns_def host_dns_def host0_def plain_addr_def)

theorem dns_takeover_undone_witness:
  "\<exists>states h1 planned applied err h2 remaining h3.
     SnapshotDNS host_run host_ifs (V4 0x7F000001) host0 = (Inr states, h1) \<and>
     PlanDNS states (V4 0x7F000001) = Inr planned \<and>
     ApplyDNS host_run planned (V4 0x7F000001) h1 = ((applied, Some err), h2) \<and>
     host_dns h2 ''Wi-Fi'' = [V4 0x7F000001] \<and>
     RestoreDNS host_run planned h2 = ((remaining, None), h3) \<and> host_dns h3 = host_dns host0"
proof -
  let ?a = "V4 0x7F000001"
  let ?states = "[\<lparr>Service = ''Wi-Fi'', Previous = [''8.8.8.8''], Applied = []\<rparr>,
                  \<lparr>Service = ''Stuck'', Previous = [], Applied = []\<rparr>]"
  let ?planned = "map (\<lambda>st. st\<lparr>Applied := [''127.0.0.1'']\<rparr>) ?states"
  have s: "SnapshotDNS host_run host_ifs ?a host0 = (Inr ?states, host0)" by code_simp
  have p: "PlanDNS ?states ?a = Inr ?planned" by code_simp
  obtain applied err1 h2 where a: "ApplyDNS host_run ?planned ?a host0 = ((applied, err1), h2)"
    by (metis prod.collapse)
  obtain remaining err2 h3 where r: "RestoreDNS host_run ?planned h2 = ((remaining, err2), h3)"
    by (metis prod.collapse)
  have "snd (ApplyDNS host_run ?planned ?a host0) = (''Wi-Fi'', [?a]) # host0"
    "snd (fst (ApplyDNS host_run ?planned ?a host0)) \<noteq> None" by code_simp+
  then have h2: "h2 = (''Wi-Fi'', [?a]) # host0" "err1 \<noteq> None" using a by simp_all
  have "snd (fst (RestoreDNS host_run ?planned ((''Wi-Fi'', [?a]) # host0))) = None" by code_simp
  then have "err2 = None" using r h2 by simp
  moreover have "plain_addr ?a" "distinct (map Service ?states)" by (simp_all add: plain_addr_def)
  ultimately have "host_dns h3 = host_dns host0"
    using dns_takeover_undone [OF host_run_ok host0_plain _ s _ p a r] by simp
  then show ?thesis using s p a r h2 \<open>err2 = None\<close> by (auto simp: host_dns_def)
qed

end
