(* ===== verification/System_Route.thy ===== *)
theory System_Route
  imports System_Command
begin

text \<open>
  \<open>internal/system/route_darwin.go\<close> and \<open>internal/system/tun_darwin.go\<close>: looking up, adding, verifying and
  removing routes through \<open>route\<close>, and configuring the tun interface through \<open>ifconfig\<close>.
\<close>

record route_state =
  rt_Prefix :: string
  rt_Interface :: string
  rt_Gateway :: string
  rt_Scope :: string

record route_lookup =
  Destination :: string
  Mask :: string
  Interface :: string
  Gateway :: string

definition route_cmd :: string where "route_cmd = ''/sbin/route''"
definition ifconfig_cmd :: string where "ifconfig_cmd = ''/sbin/ifconfig''"


section \<open>Reading a lookup\<close>

definition no_lookup :: route_lookup where
  "no_lookup = \<lparr>Destination = [], Mask = [], Interface = [], Gateway = []\<rparr>"

definition lookup_line :: "route_lookup \<Rightarrow> string \<Rightarrow> route_lookup" where
  "lookup_line l raw =
     (let line = trim_space raw
      in case index_of (CHR '':'') line of
           None \<Rightarrow> l
         | Some i \<Rightarrow>
             (let key = trim_space (take i line); v = trim_space (drop (Suc i) line)
              in if key = ''destination'' then l\<lparr>Destination := v\<rparr>
                 else if key = ''mask'' then l\<lparr>Mask := v\<rparr>
                 else if key = ''interface'' then l\<lparr>Interface := v\<rparr>
                 else if key = ''gateway'' then l\<lparr>Gateway := v\<rparr>
                 else l))"

definition ParseRouteLookup :: "string \<Rightarrow> sys_error + route_lookup" where
  "ParseRouteLookup output =
     (case scan_lines output of (lines, too_long) \<Rightarrow>
        (let l = foldl lookup_line no_lookup lines
         in if too_long then Inl (Caused ''parse route output'' (Refused ''token too long''))
            else if Destination l = [] \<or> Interface l = []
            then Inl (Refused ''route output lacks destination or interface'')
            else Inr l))"

definition not_in_table :: string where "not_in_table = ''not in table''"

definition parseRouteCommand :: "cmd_result \<Rightarrow> sys_error + route_lookup" where
  "parseRouteCommand res =
     (case res of (text, err) \<Rightarrow>
        if str_contains text not_in_table \<or>
           (case err of None \<Rightarrow> False | Some e \<Rightarrow> str_contains e not_in_table)
        then Inl ErrRouteNotFound
        else case err of
            Some e \<Rightarrow> Inl (CommandError e)
          | None \<Rightarrow> ParseRouteLookup text)"

definition defaultRouteDestination :: "string \<Rightarrow> bool" where
  "defaultRouteDestination d = (d = ''default'' \<or> d = ''0.0.0.0'' \<or> d = ''::'')"

definition defaultRouteLookup :: "route_lookup \<Rightarrow> bool" where
  "defaultRouteLookup l =
     (defaultRouteDestination (Destination l) \<and>
      Mask l \<in> {[], ''default'', ''0.0.0.0'', ''::'', ''0.0.0.0/0'', ''::/0''})"


section \<open>Arguments\<close>

text \<open>The loop of \<open>firstUsable\<close>, with the number of turns left.\<close>

fun usable_loop :: "nat \<Rightarrow> ipprefix \<Rightarrow> addr \<Rightarrow> addr" where
  "usable_loop 0 p a = a"
| "usable_loop (Suc n) p a =
     (let next = addr_next a
      in if \<not> is_valid next \<or> \<not> pfx_contains p next then a
         else if \<not> is_unspecified next \<and> \<not> is_loopback next then next
         else usable_loop n p next)"

definition firstUsable :: "ipprefix \<Rightarrow> addr" where
  "firstUsable p = usable_loop 3 p (pfx_addr (pfx_masked p))"

definition inet6_arg :: "bool \<Rightarrow> string list" where
  "inet6_arg b = (if b then [''-inet6''] else [])"

definition routeLookupArgs :: "addr \<Rightarrow> string list" where
  "routeLookupArgs a = [''-n'', ''get''] @ inet6_arg (is6 a) @ [addr_string a]"

definition routeLookupScopedArgs :: "addr \<Rightarrow> string \<Rightarrow> string list" where
  "routeLookupScopedArgs a i = [''-n'', ''get''] @ inet6_arg (is6 a) @ [''-ifscope'', i, addr_string a]"

definition routeDefaultLookupScopedArgs :: "bool \<Rightarrow> string \<Rightarrow> string list" where
  "routeDefaultLookupScopedArgs ipv6 i = [''-n'', ''get''] @ inet6_arg ipv6 @ [''-ifscope'', i, ''default'']"

definition routeDefaultLookupArgs :: "bool \<Rightarrow> string list" where
  "routeDefaultLookupArgs ipv6 = [''-n'', ''get''] @ inet6_arg ipv6 @ [''default'']"

definition routeGetArgs :: "ipprefix \<Rightarrow> string list" where
  "routeGetArgs p = routeLookupArgs (firstUsable p)"

definition routeStateGetArgs :: "ipprefix \<Rightarrow> string \<Rightarrow> string list" where
  "routeStateGetArgs p scope =
     (if scope \<noteq> [] then routeLookupScopedArgs (firstUsable p) scope else routeGetArgs p)"

definition ifscope_arg :: "string \<Rightarrow> string list" where
  "ifscope_arg scope = (if scope \<noteq> [] then [''-ifscope'', scope] else [])"

definition routeStateMutationArgs ::
  "string \<Rightarrow> ipprefix \<Rightarrow> string \<Rightarrow> addr \<Rightarrow> string \<Rightarrow> string list" where
  "routeStateMutationArgs operation p i gateway scope =
     [''-n'', operation] @ inet6_arg (is6 (pfx_addr p)) @
     (if is_valid gateway then
        (let bits = (if is4 (pfx_addr p) then 32 else 128);
             (kind, destination) =
               (if pfx_bits p = bits then (''-host'', addr_string (pfx_addr p))
                else (''-net'', pfx_string (pfx_masked p)))
         in [kind] @ ifscope_arg scope @ [destination, addr_string gateway])
      else ifscope_arg scope @ [''-net'', pfx_string (pfx_masked p), ''-interface'', i])"

definition validateRouteState :: "route_state \<Rightarrow> sys_error + ipprefix \<times> addr" where
  "validateRouteState r =
     (case parse_prefix (rt_Prefix r) of
        None \<Rightarrow> Inl (Refused ''invalid route prefix'')
      | Some p \<Rightarrow>
          if is4in6 (pfx_addr p) then Inl (Refused ''invalid route prefix'')
          else if \<not> validSystemInterface (rt_Interface r) then Inl (Refused ''invalid route interface'')
          else if rt_Scope r \<noteq> [] \<and> (\<not> validSystemInterface (rt_Scope r) \<or> rt_Scope r \<noteq> rt_Interface r)
          then Inl (Refused ''invalid route scope'')
          else if rt_Gateway r = []
          then (if rt_Scope r \<noteq> [] then Inl (Refused ''route scope requires a gateway'') else Inr (p, NoAddr))
          else
            (case parse_addr (rt_Gateway r) of
               None \<Rightarrow> Inl (Refused ''invalid route gateway'')
             | Some g \<Rightarrow>
                 if is4in6 g \<or> is4 g \<noteq> is4 (pfx_addr p) then Inl (Refused ''invalid route gateway'')
                 else Inr (p, g)))"

definition splitRouteMaskMatches :: "ipprefix \<Rightarrow> string \<Rightarrow> bool" where
  "splitRouteMaskMatches p m = (if is4 (pfx_addr p) then m = ''128.0.0.0'' else m = ''8000::'')"


section \<open>Lookups\<close>

definition lookupRoute :: "'h runner \<Rightarrow> addr \<Rightarrow> 'h \<Rightarrow> (sys_error + route_lookup) \<times> 'h" where
  "lookupRoute run a h =
     (if \<not> is_valid a \<or> is4in6 a then (Inl (Refused ''invalid route lookup address''), h)
      else case run route_cmd (routeLookupArgs a) h of (res, h') \<Rightarrow> (parseRouteCommand res, h'))"

definition lookupRouteScoped ::
  "'h runner \<Rightarrow> addr \<Rightarrow> string \<Rightarrow> 'h \<Rightarrow> (sys_error + route_lookup) \<times> 'h" where
  "lookupRouteScoped run a i h =
     (if \<not> is_valid a \<or> is4in6 a then (Inl (Refused ''invalid scoped route lookup address''), h)
      else if \<not> validSystemInterface i then (Inl (Refused ''invalid route interface''), h)
      else case run route_cmd (routeLookupScopedArgs a i) h of (res, h') \<Rightarrow> (parseRouteCommand res, h'))"

definition LookupDefaultRoute :: "'h runner \<Rightarrow> bool \<Rightarrow> 'h \<Rightarrow> (sys_error + route_lookup) \<times> 'h" where
  "LookupDefaultRoute run ipv6 h =
     (case run route_cmd (routeDefaultLookupArgs ipv6) h of (res, h') \<Rightarrow> (parseRouteCommand res, h'))"

definition LookupDefaultRouteScoped ::
  "'h runner \<Rightarrow> bool \<Rightarrow> string \<Rightarrow> 'h \<Rightarrow> (sys_error + route_lookup) \<times> 'h" where
  "LookupDefaultRouteScoped run ipv6 i h =
     (if \<not> validSystemInterface i then (Inl (Refused ''invalid route interface''), h)
      else
        (case run route_cmd (routeDefaultLookupScopedArgs ipv6 i) h of (res, h') \<Rightarrow> (parseRouteCommand res, h')))"

definition checkPrefixAvailable :: "'h runner \<Rightarrow> ipprefix \<Rightarrow> 'h \<Rightarrow> sys_error option \<times> 'h" where
  "checkPrefixAvailable run p h =
     (case lookupRoute run (firstUsable p) h of
        (Inl e, h') \<Rightarrow>
          (if sys_is ErrRouteNotFound e then (None, h') else (Some (Caused ''check Fake IP route'' e), h'))
      | (Inr l, h') \<Rightarrow>
          (if defaultRouteLookup l then (None, h')
           else (Some (Refused ''Fake IP prefix conflicts with route destination''), h')))"


section \<open>Changes\<close>

definition AddRoute :: "'h runner \<Rightarrow> route_state \<Rightarrow> 'h \<Rightarrow> sys_error option \<times> 'h" where
  "AddRoute run r h =
     (case validateRouteState r of
        Inl e \<Rightarrow> (Some e, h)
      | Inr (p, g) \<Rightarrow>
          (case run route_cmd (routeStateMutationArgs ''add'' p (rt_Interface r) g (rt_Scope r)) h of
             ((_, Some e), h') \<Rightarrow> (Some (Caused ''add route'' (CommandError e)), h')
           | ((_, None), h') \<Rightarrow> (None, h')))"

definition VerifyRoute :: "'h runner \<Rightarrow> route_state \<Rightarrow> 'h \<Rightarrow> sys_error option \<times> 'h" where
  "VerifyRoute run r h =
     (case validateRouteState r of
        Inl e \<Rightarrow> (Some e, h)
      | Inr (p, g) \<Rightarrow>
          (case run route_cmd (routeStateGetArgs p (rt_Scope r)) h of
             (res, h') \<Rightarrow>
               (case parseRouteCommand res of
                  Inl e \<Rightarrow> (Some (Caused ''verify route'' e), h')
                | Inr l \<Rightarrow>
                    if defaultRouteLookup l \<or> Interface l \<noteq> rt_Interface r
                    then (Some (Refused ''route resolves via another destination or interface''), h')
                    else if pfx_bits p = 1 \<and> \<not> splitRouteMaskMatches p (Mask l)
                    then (Some (Refused ''route resolves via another mask''), h')
                    else if is_valid g \<and> Gateway l \<noteq> rt_Gateway r
                    then (Some (Refused ''route resolves via another gateway''), h')
                    else (None, h'))))"

definition routeInterfaceExists :: "'h runner \<Rightarrow> string \<Rightarrow> 'h \<Rightarrow> (sys_error + bool) \<times> 'h" where
  "routeInterfaceExists run i h =
     (case run ifconfig_cmd [i] h of
        ((_, None), h') \<Rightarrow> (Inr True, h')
      | ((_, Some e), h') \<Rightarrow>
          if str_contains e (''interface '' @ i @ '' does not exist'') then (Inr False, h')
          else (Inl (CommandError e), h'))"

text \<open>What \<open>RemoveRoute\<close> does once the lookup has found a route that is not the default one.\<close>

definition remove_found ::
  "'h runner \<Rightarrow> route_state \<Rightarrow> ipprefix \<Rightarrow> addr \<Rightarrow> route_lookup \<Rightarrow> 'h \<Rightarrow> sys_error option \<times> 'h" where
  "remove_found run r p g l h =
     (if Interface l \<noteq> rt_Interface r then
        (case routeInterfaceExists run (rt_Interface r) h of
           (Inl e, h') \<Rightarrow> (Some (Caused ''verify recorded route interface'' e), h')
         | (Inr False, h') \<Rightarrow> (None, h')
         | (Inr True, h') \<Rightarrow>
             (Some (Refused ''refuse to remove route: current interface does not match recorded interface''), h'))
      else if pfx_bits p = 1 \<and> \<not> splitRouteMaskMatches p (Mask l)
      then (Some (Refused ''refuse to remove route: current mask does not match /1''), h)
      else if is_valid g \<and> Gateway l \<noteq> rt_Gateway r
      then (Some (Refused ''refuse to remove route: current gateway does not match recorded gateway''), h)
      else
        (case run route_cmd (routeStateMutationArgs ''delete'' p (rt_Interface r) g (rt_Scope r)) h of
           ((_, Some e), h') \<Rightarrow> (Some (Caused ''delete route'' (CommandError e)), h')
         | ((_, None), h') \<Rightarrow> (None, h')))"

definition RemoveRoute :: "'h runner \<Rightarrow> route_state \<Rightarrow> 'h \<Rightarrow> sys_error option \<times> 'h" where
  "RemoveRoute run r h =
     (case validateRouteState r of
        Inl e \<Rightarrow> (Some e, h)
      | Inr (p, g) \<Rightarrow>
          (case run route_cmd (routeStateGetArgs p (rt_Scope r)) h of
             (res, h') \<Rightarrow>
               (case parseRouteCommand res of
                  Inl e \<Rightarrow> if sys_is ErrRouteNotFound e then (None, h') else (Some (Caused ''verify route'' e), h')
                | Inr l \<Rightarrow> if defaultRouteLookup l then (None, h') else remove_found run r p g l h')))"


section \<open>The tun interface\<close>

definition utun_name :: "string \<Rightarrow> bool" where
  "utun_name n = (validSystemInterface n \<and> 5 \<le> length n \<and> take 4 n = ''utun'')"

definition ConfigureTUN ::
  "'h runner \<Rightarrow> string \<Rightarrow> addr \<Rightarrow> addr \<Rightarrow> int \<Rightarrow> 'h \<Rightarrow> sys_error option \<times> 'h" where
  "ConfigureTUN run n a peer mtu h =
     (if \<not> utun_name n then (Some (Refused ''invalid utun interface''), h)
      else if \<not> is4 a \<or> \<not> is4 peer \<or> a = peer then (Some (Refused ''invalid point-to-point addresses''), h)
      else if mtu < 576 \<or> mtu > 9000 then (Some (Refused ''invalid TUN MTU''), h)
      else
        (case run ifconfig_cmd
            [n, ''inet'', addr_string a, addr_string peer, ''netmask'', ''255.255.255.255'',
             ''mtu'', dec_digits (nat mtu), ''up''] h of
           ((_, Some e), h') \<Rightarrow> (Some (Caused ''configure'' (CommandError e)), h')
         | ((_, None), h') \<Rightarrow> (None, h')))"

definition ConfigureTUNIPv6 ::
  "'h runner \<Rightarrow> string \<Rightarrow> addr \<Rightarrow> addr \<Rightarrow> 'h \<Rightarrow> sys_error option \<times> 'h" where
  "ConfigureTUNIPv6 run n a peer h =
     (if \<not> utun_name n then (Some (Refused ''invalid utun interface''), h)
      else if \<not> is6 a \<or> is4in6 a \<or> \<not> is6 peer \<or> is4in6 peer \<or> a = peer
      then (Some (Refused ''invalid IPv6 point-to-point addresses''), h)
      else
        (case run ifconfig_cmd [n, ''inet6'', addr_string a, addr_string peer, ''prefixlen'', ''128''] h of
           ((_, Some e), h') \<Rightarrow> (Some (Caused ''configure IPv6'' (CommandError e)), h')
         | ((_, None), h') \<Rightarrow> (None, h')))"

end
