(* ===== verification/System_State.thy ===== *)
theory System_State
  imports System_DNS System_Route Fakeip_Persistence
begin

text \<open>
  \<open>internal/system/state.go\<close> and \<open>internal/system/transaction.go\<close>: the recovery record the program keeps
  on disk while it has changed the host, and the transaction that undoes changes in reverse order.

  The file is modelled as in \<open>Fakeip_Persistence\<close>; the JSON codec of the record and the outcomes of the
  system calls are arguments.  Temporary files exist only inside \<open>WriteState\<close>.
\<close>

record sys_state =
  st_Version :: int
  st_PID :: int
  st_StartedAt :: gotime
  st_ConfigDigest :: string
  st_Phase :: string
  st_LockFile :: string
  st_TUNName :: string
  st_StatusSocket :: string
  st_ControlSocket :: string
  st_Route :: "route_state option"
  st_Routes :: "route_state list"
  st_DNS :: "dns_state list"

definition StateVersion :: int where "StateVersion = 1"

definition NewState :: "int \<Rightarrow> gotime \<Rightarrow> string \<Rightarrow> sys_state" where
  "NewState pid now digest =
     \<lparr>st_Version = StateVersion, st_PID = pid, st_StartedAt = now, st_ConfigDigest = digest,
      st_Phase = ''starting'', st_LockFile = [], st_TUNName = [], st_StatusSocket = [],
      st_ControlSocket = [], st_Route = None, st_Routes = [], st_DNS = []\<rparr>"

definition validateState :: "sys_state \<Rightarrow> sys_error option" where
  "validateState s =
     (if st_Version s \<noteq> StateVersion then Some (Refused ''state version'')
      else if st_PID s \<le> 0 then Some (Refused ''state PID must be positive'')
      else if st_StartedAt s = 0 then Some (Refused ''state start time is required'')
      else if st_ConfigDigest s = [] then Some (Refused ''state config digest is required'')
      else if st_Phase s = [] then Some (Refused ''state phase is required'')
      else if st_StatusSocket s \<noteq> [] \<and> \<not> clean_absolute_path (st_StatusSocket s)
      then Some (Refused ''status socket must be a clean absolute path'')
      else if st_ControlSocket s \<noteq> [] \<and> \<not> clean_absolute_path (st_ControlSocket s)
      then Some (Refused ''control socket must be a clean absolute path'')
      else None)"

text \<open>The codec of the record: \<open>encState\<close> is \<open>json.Encoder\<close>, \<open>decState\<close> the strict decoder with its check
  for trailing data.\<close>

record state_codec =
  encState :: "sys_state \<Rightarrow> string"
  decState :: "string \<Rightarrow> sys_state option"

definition ensureSafeTarget :: "string \<Rightarrow> disk_file \<Rightarrow> sys_error option" where
  "ensureSafeTarget path f =
     (if \<not> clean_absolute_path path then Some (Refused ''state path must be a clean absolute path'')
      else case f of
          Missing \<Rightarrow> None
        | LstatFails e \<Rightarrow> Some (Caused ''inspect state target'' (Refused ''lstat''))
        | File st _ \<Rightarrow> if fs_regular st then None else Some (Refused ''state target is not a regular file''))"

text \<open>Outcomes of the calls of \<open>WriteState\<close>, in the order they are made; \<open>None\<close> is success.\<close>

record write_io =
  wr_create :: "string option"
  wr_chmod :: "string option"
  wr_encode :: "string option"
  wr_sync :: "string option"
  wr_close :: "string option"
  wr_rename :: "string option"
  wr_opendir :: "string option"
  wr_dirsync :: "string option"

definition io_error :: "string \<Rightarrow> string option \<Rightarrow> sys_error option" where
  "io_error m e = map_option (\<lambda>t. Caused m (Refused t)) e"

fun first_failure :: "sys_error option list \<Rightarrow> sys_error option" where
  "first_failure [] = None"
| "first_failure (Some e # es) = Some e"
| "first_failure (None # es) = first_failure es"

definition WriteState ::
  "int \<Rightarrow> state_codec \<Rightarrow> write_io \<Rightarrow> string \<Rightarrow> sys_state \<Rightarrow> disk_file \<Rightarrow> sys_error option \<times> disk_file" where
  "WriteState euid k io path s f =
     (case first_failure
        [validateState s, ensureSafeTarget path f,
         io_error ''create temporary state file'' (wr_create io),
         io_error ''chmod temporary state file'' (wr_chmod io), io_error ''encode state'' (wr_encode io),
         io_error ''sync state'' (wr_sync io), io_error ''close state'' (wr_close io),
         io_error ''replace state file'' (wr_rename io)] of
        Some e \<Rightarrow> (Some e, f)
      | None \<Rightarrow>
          (first_failure [io_error ''open state directory for sync'' (wr_opendir io),
                        io_error ''sync state directory'' (wr_dirsync io)],
           File \<lparr>fs_regular = True, fs_perm = 384, fs_uid = euid\<rparr> (encState k s)))"

definition ReadState ::
  "int \<Rightarrow> state_codec \<Rightarrow> string option \<Rightarrow> disk_file \<Rightarrow> sys_error + sys_state" where
  "ReadState euid k opening f =
     (case f of
        Missing \<Rightarrow> Inl (Caused ''inspect state file'' ErrNotExist)
      | LstatFails e \<Rightarrow> Inl (Caused ''inspect state file'' (Refused ''lstat''))
      | File st c \<Rightarrow>
          if \<not> fs_regular st then Inl (Refused ''state path is not a regular file'')
          else if fs_perm st AND 63 \<noteq> 0 then Inl (Refused ''state file permissions, want 0600 or stricter'')
          else if 1048576 < length c then Inl (Refused ''state file exceeds 1 MiB'')
          else if fs_uid st \<noteq> euid then Inl (Refused ''state file is owned by another UID'')
          else case opening of
              Some e \<Rightarrow> Inl (Caused ''open state file'' (Refused e))
            | None \<Rightarrow>
                (case decState k c of
                   None \<Rightarrow> Inl (Refused ''decode state'')
                 | Some s \<Rightarrow> (case validateState s of Some e \<Rightarrow> Inl e | None \<Rightarrow> Inr s)))"

definition RemoveState ::
  "int \<Rightarrow> state_codec \<Rightarrow> string option \<Rightarrow> string option \<Rightarrow> disk_file \<Rightarrow> sys_error option \<times> disk_file" where
  "RemoveState euid k opening removal f =
     (case ReadState euid k opening f of
        Inl e \<Rightarrow>
          if sys_is ErrNotExist e then (None, f)
          else (Some (Caused ''validate state file before removal'' e), f)
      | Inr _ \<Rightarrow>
          (case removal of
             Some e \<Rightarrow> (Some (Caused ''remove state file'' (Refused e)), f)
           | None \<Rightarrow> (None, Missing)))"


section \<open>Transactions\<close>

text \<open>A step that was applied, with its undo function on the state \<open>'w\<close> the steps change.\<close>

record 'w rollback_step =
  rs_name :: string
  rs_undo :: "'w \<Rightarrow> sys_error option \<times> 'w"

record 'w transaction =
  tx_steps :: "'w rollback_step list"
  tx_rolledBack :: bool

text \<open>\<open>None\<close> for a function is a nil function value.\<close>

definition tx_Apply ::
  "'w transaction \<Rightarrow> string \<Rightarrow> ('w \<Rightarrow> sys_error option \<times> 'w) option \<Rightarrow>
   ('w \<Rightarrow> sys_error option \<times> 'w) option \<Rightarrow> 'w \<Rightarrow> sys_error option \<times> 'w transaction \<times> 'w" where
  "tx_Apply t name apply undo w =
     (if tx_rolledBack t then (Some (Refused ''transaction has already been rolled back''), t, w)
      else case (apply, undo) of
          (Some a, Some u) \<Rightarrow>
            (case a w of
               (Some e, w') \<Rightarrow> (Some (Caused ''apply'' e), t, w')
             | (None, w') \<Rightarrow> (None, t\<lparr>tx_steps := tx_steps t @ [\<lparr>rs_name = name, rs_undo = u\<rparr>]\<rparr>, w'))
        | _ \<Rightarrow> (Some (Refused ''transaction step requires apply and undo functions''), t, w))"

text \<open>The loop of \<open>Rollback\<close>, over the steps from the last to the first.\<close>

fun rollback_loop :: "'w rollback_step list \<Rightarrow> 'w \<Rightarrow> sys_error list \<times> 'w" where
  "rollback_loop [] w = ([], w)"
| "rollback_loop (s # ss) w =
     (case rs_undo s w of
        (e, w') \<Rightarrow>
          (case rollback_loop ss w' of
             (failures, w'') \<Rightarrow>
               ((case e of None \<Rightarrow> failures | Some x \<Rightarrow> Caused ''rollback'' x # failures), w'')))"

definition tx_Rollback :: "'w transaction \<Rightarrow> 'w \<Rightarrow> sys_error option \<times> 'w transaction \<times> 'w" where
  "tx_Rollback t w =
     (if tx_rolledBack t then (None, t, w)
      else case rollback_loop (rev (tx_steps t)) w of
          (failures, w') \<Rightarrow> (join_errors failures, t\<lparr>tx_rolledBack := True\<rparr>, w'))"

end
