(* ===== verification/App_Host.thy ===== *)
theory App_Host
  imports System_State Config_Model
begin

text \<open>
  The life of the host's settings in \<open>internal/app\<close>: \<open>Run\<close> and its \<open>finish\<close> (\<open>run_darwin.go\<close>),
  \<open>removeRecordedRoutes\<close> (\<open>routes_darwin.go\<close>) and the crash recovery \<open>CleanupWithStatusOwners\<close>
  (\<open>cleanup_darwin.go\<close>), from the first write of the recovery record on.

  The other components \<open>Run\<close> starts and stops enter by the outcome of their calls.  A world holds the
  host, the file of the recovery record and the outcomes of the coming calls of \<open>WriteState\<close>.  A process
  that dies at some moment is a world in which every later command and write fails without effect: what
  holds of the end of \<open>Run\<close> in all worlds holds of every moment \<open>Run\<close> can be cut off at.
\<close>

record 'h world =
  w_host :: 'h
  w_file :: disk_file
  w_writes :: "nat \<Rightarrow> write_io"
  w_count :: nat

record 'h app_env =
  ae_run :: "'h runner"
  ae_euid :: int
  ae_codec :: state_codec
  ae_path :: string
  ae_open :: "string option"     \<comment> \<open>outcome of opening the state file\<close>
  ae_remove :: "string option"   \<comment> \<open>outcome of removing it\<close>
  ae_close :: "'h \<Rightarrow> sys_error option \<times> 'h"  \<comment> \<open>closing the tun device, which takes its routes away\<close>

definition save :: "'h app_env \<Rightarrow> sys_state \<Rightarrow> 'h world \<Rightarrow> sys_error option \<times> 'h world" where
  "save env s w =
     (case WriteState (ae_euid env) (ae_codec env) (w_writes w (w_count w)) (ae_path env) s (w_file w) of
        (e, f) \<Rightarrow> (e, w\<lparr>w_file := f, w_count := Suc (w_count w)\<rparr>))"

definition on_host :: "('h \<Rightarrow> 'a \<times> 'h) \<Rightarrow> 'h world \<Rightarrow> 'a \<times> 'h world" where
  "on_host f w = (case f (w_host w) of (x, h) \<Rightarrow> (x, w\<lparr>w_host := h\<rparr>))"

definition discard :: "'h app_env \<Rightarrow> 'h world \<Rightarrow> sys_error option \<times> 'h world" where
  "discard env w =
     (case RemoveState (ae_euid env) (ae_codec env) (ae_open env) (ae_remove env) (w_file w) of
        (e, f) \<Rightarrow> (e, w\<lparr>w_file := f\<rparr>))"

definition errs :: "sys_error option \<Rightarrow> sys_error list" where
  "errs e = (case e of None \<Rightarrow> [] | Some x \<Rightarrow> [x])"


section \<open>Removing the recorded routes\<close>

text \<open>
  The loop from the last index down: \<open>todo\<close> holds the routes below the index in reverse, \<open>kept\<close> those
  above it that could not be removed, so the record has \<open>rev todo @ kept\<close> at every turn.
\<close>

fun remove_routes_loop ::
  "'h app_env \<Rightarrow> route_state list \<Rightarrow> route_state list \<Rightarrow> sys_state \<Rightarrow> 'h world \<Rightarrow>
   sys_error list \<times> sys_state \<times> 'h world" where
  "remove_routes_loop env [] kept s w = ([], s, w)"
| "remove_routes_loop env (r # todo) kept s w =
     (case on_host (RemoveRoute (ae_run env) r) w of
        (Some e, w1) \<Rightarrow>
          (case remove_routes_loop env todo (r # kept) s w1 of
             (failures, s', w') \<Rightarrow> (Caused ''remove recorded route'' e # failures, s', w'))
      | (None, w1) \<Rightarrow>
          (let s1 = s\<lparr>st_Routes := rev todo @ kept\<rparr>
           in case save env s1 w1 of
                (e, w2) \<Rightarrow>
                  (case remove_routes_loop env todo kept s1 w2 of
                     (failures, s', w') \<Rightarrow> (errs e @ failures, s', w'))))"

definition removeRecordedRoutes ::
  "'h app_env \<Rightarrow> sys_state \<Rightarrow> 'h world \<Rightarrow> sys_error option \<times> sys_state \<times> 'h world" where
  "removeRecordedRoutes env s w =
     (case remove_routes_loop env (rev (st_Routes s)) [] s w of
        (failures, s1, w1) \<Rightarrow>
          (case st_Route s1 of
             None \<Rightarrow> (join_errors failures, s1, w1)
           | Some r \<Rightarrow>
               (case on_host (RemoveRoute (ae_run env) r) w1 of
                  (Some e, w2) \<Rightarrow> (join_errors (failures @ [Caused ''remove Fake IP route'' e]), s1, w2)
                | (None, w2) \<Rightarrow>
                    (let s2 = s1\<lparr>st_Route := None\<rparr>
                     in case save env s2 w2 of
                          (e, w3) \<Rightarrow> (join_errors (failures @ errs e), s2, w3)))))"


section \<open>Starting\<close>

text \<open>The variables of \<open>Run\<close> that \<open>finish\<close> reads; the first two are those of every life of the host.\<close>

record host_vars =
  lo_state :: sys_state
  lo_device :: "string option"

record locals = host_vars +
  lo_dns :: bool                \<comment> \<open>\<open>runningDNS\<close> is set\<close>
  lo_status :: bool             \<comment> \<open>\<open>statusServer\<close> is set\<close>

type_synonym ('z, 'h) act =
  "'z host_vars_scheme \<Rightarrow> 'h world \<Rightarrow> sys_error option \<times> 'z host_vars_scheme \<times> 'h world"

type_synonym 'h run_act = "locals \<Rightarrow> 'h world \<Rightarrow> sys_error option \<times> locals \<times> 'h world"

definition and_then :: "('z, 'h) act \<Rightarrow> ('z, 'h) act \<Rightarrow> ('z, 'h) act" where
  "and_then a b l w =
     (case a l w of
        (Some e, l', w') \<Rightarrow> (Some e, l', w')
      | (None, l', w') \<Rightarrow> b l' w')"

definition outcome :: "sys_error option \<Rightarrow> ('z, 'h) act" where
  "outcome e l w = (e, l, w)"

text \<open>Replace the record in memory and write it.\<close>

definition record_state :: "'h app_env \<Rightarrow> (sys_state \<Rightarrow> sys_state) \<Rightarrow> ('z, 'h) act" where
  "record_state env f l w =
     (let s = f (lo_state l)
      in case save env s w of (e, w') \<Rightarrow> (e, l\<lparr>lo_state := s\<rparr>, w'))"

definition host_act :: "('h \<Rightarrow> sys_error option \<times> 'h) \<Rightarrow> ('z, 'h) act" where
  "host_act f l w = (case on_host f w of (e, w') \<Rightarrow> (e, l, w'))"

text \<open>Every route is written to the record before it is added, and verified afterwards.\<close>

definition install_route :: "'h app_env \<Rightarrow> (sys_state \<Rightarrow> sys_state) \<Rightarrow> route_state \<Rightarrow> ('z, 'h) act" where
  "install_route env f r =
     and_then (record_state env f)
       (and_then (host_act (AddRoute (ae_run env) r)) (host_act (VerifyRoute (ae_run env) r)))"

definition append_route :: "route_state \<Rightarrow> sys_state \<Rightarrow> sys_state" where
  "append_route r s = s\<lparr>st_Routes := st_Routes s @ [r]\<rparr>"

fun install_routes :: "'h app_env \<Rightarrow> route_state list \<Rightarrow> ('z, 'h) act" where
  "install_routes env [] = outcome None"
| "install_routes env (r # rs) = and_then (install_route env (append_route r) r) (install_routes env rs)"

text \<open>What the rest of the program contributes to a run, by outcome.\<close>

record run_inputs =
  in_device :: "sys_error + string"       \<comment> \<open>creating the utun device and reading its name\<close>
  in_tun :: tun_cfg
  in_ipv6 :: bool
  in_prefix :: ipprefix                   \<comment> \<open>\<open>runtime.FakeIP.Prefix\<close>\<close>
  in_prefix6 :: ipprefix                  \<comment> \<open>\<open>runtime.FakeIPv6.Prefix\<close>, used if IPv6 is enabled\<close>
  in_capture :: "string \<Rightarrow> route_state list" \<comment> \<open>\<open>defaultRoutes.routes\<close>\<close>
  in_replan :: "sys_error option"         \<comment> \<open>the second proof of the capture plan\<close>
  in_pump :: "sys_error option"
  in_dns_start :: "sys_error option"
  in_dns_early :: "sys_error option"
  in_manage :: bool
  in_listen :: addr
  in_ifs :: interfaces
  in_status :: "sys_error option"
  in_dns_late :: "sys_error option"

text \<open>
  \<open>tun.Create\<close>: the device exists once it has a name; a failed configuration closes it again.
\<close>

definition create_tun :: "'h app_env \<Rightarrow> run_inputs \<Rightarrow> ('z, 'h) act" where
  "create_tun env inp l w =
     (case in_device inp of
        Inl e \<Rightarrow> (Some (Caused ''create utun'' e), l, w)
      | Inr name \<Rightarrow>
          (let t = in_tun inp;
               a6 = (if in_ipv6 inp then IPv6Address t else NoAddr);
               p6 = (if in_ipv6 inp then IPv6Peer t else NoAddr)
           in case on_host (ConfigureTUN (ae_run env) name (Address t) (Peer t) (MTU t)) w of
                (Some e, w1) \<Rightarrow> (Some e, l, snd (on_host (ae_close env) w1))
              | (None, w1) \<Rightarrow>
                  if is_valid a6 then
                    (case on_host (ConfigureTUNIPv6 (ae_run env) name a6 p6) w1 of
                       (Some e, w2) \<Rightarrow> (Some e, l, snd (on_host (ae_close env) w2))
                     | (None, w2) \<Rightarrow> (None, l\<lparr>lo_device := Some name\<rparr>, w2))
                  else (None, l\<lparr>lo_device := Some name\<rparr>, w1)))"

definition device_name :: "'z host_vars_scheme \<Rightarrow> string" where
  "device_name l = (case lo_device l of None \<Rightarrow> [] | Some n \<Rightarrow> n)"

definition fake_route :: "ipprefix \<Rightarrow> string \<Rightarrow> route_state" where
  "fake_route p name =
     \<lparr>rt_Prefix = pfx_string p, rt_Interface = name, rt_Gateway = [], rt_Scope = []\<rparr>"

text \<open>The Fake IP routes, the captured routes and the second proof of the plan.\<close>

definition installServiceRoutes :: "'h app_env \<Rightarrow> run_inputs \<Rightarrow> string \<Rightarrow> ('z, 'h) act" where
  "installServiceRoutes env inp name =
     (let r4 = fake_route (in_prefix inp) name; r6 = fake_route (in_prefix6 inp) name
      in and_then (install_route env (\<lambda>s. s\<lparr>st_Route := Some r4\<rparr>) r4)
           (and_then (if in_ipv6 inp then install_route env (append_route r6) r6 else outcome None)
             (and_then (install_routes env (in_capture inp name)) (outcome (in_replan inp)))))"

definition record_tun :: "'h app_env \<Rightarrow> ('z, 'h) act" where
  "record_tun env l = record_state env (\<lambda>s. s\<lparr>st_TUNName := device_name l\<rparr>) l"

text \<open>\<open>Run\<close> adds its routes in the order of the supervisor's \<open>installServiceRoutes\<close>.\<close>

definition start_routes :: "'h app_env \<Rightarrow> run_inputs \<Rightarrow> ('z, 'h) act" where
  "start_routes env inp l = and_then (record_tun env) (installServiceRoutes env inp (device_name l)) l"

text \<open>Taking over the DNS settings: the plan is written before the first service is changed.\<close>

definition manage_dns :: "'h app_env \<Rightarrow> run_inputs \<Rightarrow> ('z, 'h) act" where
  "manage_dns env inp l w =
     (case on_host (SnapshotDNS (ae_run env) (in_ifs inp) (in_listen inp)) w of
        (Inl e, w1) \<Rightarrow> (Some e, l, w1)
      | (Inr states, w1) \<Rightarrow>
          (case PlanDNS states (in_listen inp) of
             Inl e \<Rightarrow> (Some e, l, w1)
           | Inr planned \<Rightarrow>
               and_then (record_state env (\<lambda>s. s\<lparr>st_DNS := planned, st_Phase := ''dns-planned''\<rparr>))
                 (host_act (\<lambda>h. case ApplyDNS (ae_run env) planned (in_listen inp) h of ((_, e), h') \<Rightarrow> (e, h')))
                 l w1))"

definition start_dns :: "'h app_env \<Rightarrow> run_inputs \<Rightarrow> 'h run_act" where
  "start_dns env inp =
     and_then (outcome (in_pump inp))
       (and_then (\<lambda>l w. (in_dns_start inp, l\<lparr>lo_dns := (in_dns_start inp = None)\<rparr>, w))
         (and_then (outcome (in_dns_early inp))
           (if in_manage inp then manage_dns env inp else outcome None)))"

definition start_status :: "'h app_env \<Rightarrow> run_inputs \<Rightarrow> 'h run_act" where
  "start_status env inp =
     and_then (\<lambda>l w. (in_status inp, l\<lparr>lo_status := (in_status inp = None)\<rparr>, w))
       (and_then (record_state env (\<lambda>s. s\<lparr>st_StatusSocket := ae_path env @ ''.sock'', st_Phase := ''running''\<rparr>))
         (outcome (in_dns_late inp)))"

definition start :: "'h app_env \<Rightarrow> run_inputs \<Rightarrow> 'h run_act" where
  "start env inp =
     and_then (create_tun env inp)
       (and_then (start_routes env inp) (and_then (start_dns env inp) (start_status env inp)))"


section \<open>Reloading\<close>

text \<open>
  \<open>reloadRuntime\<close>, as far as the record is concerned: the checks before the new digest is written, the
  digest, and the outcome of reloading the DNS server.
\<close>

record reload_req =
  rq_checks :: "sys_error option"
  rq_digest :: string
  rq_dns :: "sys_error option"

definition reloadRuntime ::
  "'h app_env \<Rightarrow> reload_req \<Rightarrow> sys_state \<Rightarrow> 'h world \<Rightarrow> sys_error option \<times> sys_state \<times> 'h world" where
  "reloadRuntime env q s w =
     (case rq_checks q of
        Some e \<Rightarrow> (Some e, s, w)
      | None \<Rightarrow>
          (let s1 = s\<lparr>st_ConfigDigest := rq_digest q\<rparr>
           in case save env s1 w of
                (Some e, w1) \<Rightarrow> (Some (Caused ''persist reloaded config digest'' e), s, w1)
              | (None, w1) \<Rightarrow>
                  (case rq_dns q of
                     Some e \<Rightarrow> (Some e, s, snd (save env s w1))
                   | None \<Rightarrow> (None, s1, w1))))"

fun serve_reloads :: "'h app_env \<Rightarrow> reload_req list \<Rightarrow> sys_state \<Rightarrow> 'h world \<Rightarrow> sys_state \<times> 'h world" where
  "serve_reloads env [] s w = (s, w)"
| "serve_reloads env (q # qs) s w =
     (case reloadRuntime env q s w of (_, s', w') \<Rightarrow> serve_reloads env qs s' w')"


section \<open>Stopping\<close>

record stop_inputs =
  sp_status :: "sys_error option"
  sp_flush :: "sys_error list"
  sp_dns :: "sys_error option"
  sp_pumps :: "sys_error list"
  sp_lock :: "sys_error option"

definition finish_record :: "'h app_env \<Rightarrow> stop_inputs \<Rightarrow> locals \<Rightarrow> 'h world \<Rightarrow> sys_error list \<times> sys_state \<times> 'h world" where
  "finish_record env sp l w =
     (let s = lo_state l;
          (e1, s1, w1) =
            (if lo_status l then
               (let s' = s\<lparr>st_StatusSocket := []\<rparr>
                in case save env s' w of (e, w') \<Rightarrow> (errs (sp_status sp) @ errs e, s', w'))
             else ([], s, w));
          s2 = s1\<lparr>st_Phase := ''stopping''\<rparr>;
          (e2, w2) = save env s2 w1
      in (e1 @ sp_flush sp @ errs e2, s2, w2))"

definition finish_dns :: "'h app_env \<Rightarrow> sys_state \<Rightarrow> 'h world \<Rightarrow> sys_error list \<times> sys_state \<times> 'h world" where
  "finish_dns env s w =
     (if st_DNS s = [] then ([], s, w)
      else
        (case on_host (RestoreDNS (ae_run env) (st_DNS s)) w of
           ((remaining, e), w1) \<Rightarrow>
             (let s1 = s\<lparr>st_DNS := remaining\<rparr>
              in case save env s1 w1 of (e', w2) \<Rightarrow> (errs e @ errs e', s1, w2))))"

definition finish_routes :: "'h app_env \<Rightarrow> sys_state \<Rightarrow> 'h world \<Rightarrow> sys_error list \<times> sys_state \<times> 'h world" where
  "finish_routes env s w =
     (if st_Route s = None \<and> st_Routes s = [] then ([], s, w)
      else case removeRecordedRoutes env s w of (e, s', w') \<Rightarrow> (errs e, s', w'))"

definition finish ::
  "'h app_env \<Rightarrow> stop_inputs \<Rightarrow> sys_error option \<Rightarrow> locals \<Rightarrow> 'h world \<Rightarrow> sys_error option \<times> 'h world" where
  "finish env sp primary l w =
     (let (e1, s1, w1) = finish_record env sp l w;
          (e2, s2, w2) = finish_dns env s1 w1;
          e3 = (if lo_dns l then errs (sp_dns sp) else []);
          (e4, s3, w3) = finish_routes env s2 w2;
          (e5, w4) = (if lo_device l = None then (None, w3) else on_host (ae_close env) w3);
          failures = e1 @ e2 @ e3 @ e4 @ errs e5 @ sp_pumps sp @ errs (sp_lock sp);
          (e6, w5) = (if failures = [] then discard env w4 else (join_errors failures, w4))
      in (join_errors (errs primary @ errs e6), w5))"

text \<open>
  \<open>Run\<close> from its check for an old record on.  Before it come the check for root and the construction of the
  pools, the data plane and the servers (lines 59 to 153), which change nothing on the host.  The arguments \<open>pid\<close>, \<open>now\<close>, \<open>digest\<close> and \<open>lock\<close> make the first
  record; \<open>locked\<close> is the outcome of acquiring the lock, \<open>primary\<close> why the main loop ended.
\<close>

definition first_state :: "int \<Rightarrow> gotime \<Rightarrow> string \<Rightarrow> string \<Rightarrow> sys_state" where
  "first_state pid now digest lock = (NewState pid now digest)\<lparr>st_LockFile := lock\<rparr>"

definition run_host ::
  "'h app_env \<Rightarrow> run_inputs \<Rightarrow> sys_error option \<Rightarrow> reload_req list \<Rightarrow> sys_error option \<Rightarrow> stop_inputs \<Rightarrow> sys_state \<Rightarrow>
   'h world \<Rightarrow> sys_error option \<times> 'h world" where
  "run_host env inp locked reloads primary sp s w =
     (if w_file w \<noteq> Missing
      then (Some (Refused ''recovery state already exists or cannot be inspected''), w)
      else if locked \<noteq> None then (locked, w)
      else
        (case save env s w of
           (Some e, w1) \<Rightarrow> (Some e, w1)
         | (None, w1) \<Rightarrow>
             (case start env inp \<lparr>lo_state = s, lo_device = None, lo_dns = False, lo_status = False\<rparr> w1 of
                (Some e, l, w2) \<Rightarrow> finish env sp (Some e) l w2
              | (None, l, w2) \<Rightarrow>
                  (case serve_reloads env reloads (lo_state l) w2 of
                     (s', w3) \<Rightarrow> finish env sp primary (l\<lparr>lo_state := s'\<rparr>) w3))))"

definition Run ::
  "'h app_env \<Rightarrow> run_inputs \<Rightarrow> sys_error option \<Rightarrow> reload_req list \<Rightarrow> sys_error option \<Rightarrow> stop_inputs \<Rightarrow>
   int \<Rightarrow> gotime \<Rightarrow> string \<Rightarrow> string \<Rightarrow> 'h world \<Rightarrow> sys_error option \<times> 'h world" where
  "Run env inp locked reloads primary sp pid now digest lock w =
     (if digest = [] then (Some (Refused ''config digest is required''), w)
      else run_host env inp locked reloads primary sp (first_state pid now digest lock) w)"


section \<open>Crash recovery\<close>

datatype lock_claim = Claimed | LockHeld | LockNotFound | LockError sys_error
datatype process_probe = Alive | Gone | ProbeError sys_error

record cleanup_inputs =
  cl_root :: "sys_error option"
  cl_claim :: "string \<Rightarrow> lock_claim"
  cl_probe :: process_probe
  cl_status :: "sys_error option"
  cl_tun :: bool                \<comment> \<open>the recorded interface still exists\<close>
  cl_unlock :: "sys_error option"

text \<open>Who may clean up: the lock is stale, or missing with no process of that number.\<close>

definition cleanup_allowed :: "cleanup_inputs \<Rightarrow> string \<Rightarrow> sys_error option" where
  "cleanup_allowed ci lock =
     (case cl_claim ci lock of
        LockHeld \<Rightarrow> Some (Refused ''refuse cleanup: recorded instance lock is still held'')
      | LockError e \<Rightarrow> Some (Caused ''inspect recorded instance lock'' e)
      | Claimed \<Rightarrow> None
      | LockNotFound \<Rightarrow>
          (case cl_probe ci of
             Alive \<Rightarrow> Some (Refused ''refuse cleanup: recorded process may still be running and its lock is missing'')
           | ProbeError e \<Rightarrow> Some (Caused ''check recorded process'' e)
           | Gone \<Rightarrow> None))"

text \<open>The part after DNS is restored: routes, the tun interface, the lock, the record.\<close>

definition cleanup_routes ::
  "'h app_env \<Rightarrow> cleanup_inputs \<Rightarrow> sys_state \<Rightarrow> 'h world \<Rightarrow> sys_error option \<times> 'h world" where
  "cleanup_routes env ci s w =
     (case removeRecordedRoutes env s w of
        (Some e, s1, w1) \<Rightarrow> (Some (Caused ''route cleanup incomplete; state file retained'' e), w1)
      | (None, s1, w1) \<Rightarrow>
          if st_TUNName s1 \<noteq> [] \<and> cl_tun ci
          then (Some (Refused ''recorded interface still exists''), w1)
          else case cl_unlock ci of
              Some e \<Rightarrow> (Some (Caused ''lock cleanup incomplete; state file retained'' e), w1)
            | None \<Rightarrow> discard env w1)"

definition cleanup_steps ::
  "'h app_env \<Rightarrow> cleanup_inputs \<Rightarrow> sys_state \<Rightarrow> 'h world \<Rightarrow> sys_error option \<times> 'h world" where
  "cleanup_steps env ci s0 w =
     (let s1 = s0\<lparr>st_Phase := ''cleaning''\<rparr>
      in case save env s1 w of
           (Some e, w1) \<Rightarrow> (Some (Caused ''mark cleanup in state file'' e), w1)
         | (None, w1) \<Rightarrow>
             (case cl_status ci of
                Some e \<Rightarrow> (Some (Caused ''status cleanup incomplete; state file retained'' e), w1)
              | None \<Rightarrow>
                  (let s2 = s1\<lparr>st_StatusSocket := []\<rparr>
                   in case save env s2 w1 of
                        (Some e, w2) \<Rightarrow> (Some (Caused ''persist status cleanup progress'' e), w2)
                      | (None, w2) \<Rightarrow>
                          (case on_host (RestoreDNS (ae_run env) (st_DNS s2)) w2 of
                             ((remaining, dnsErr), w3) \<Rightarrow>
                               (let s3 = s2\<lparr>st_DNS := remaining\<rparr>
                                in case save env s3 w3 of
                                     (Some e, w4) \<Rightarrow>
                                       (join_errors (errs dnsErr @ [Caused ''persist DNS cleanup progress'' e]), w4)
                                   | (None, w4) \<Rightarrow>
                                       (case dnsErr of
                                          Some e \<Rightarrow> (Some (Caused ''DNS cleanup incomplete; state file retained'' e), w4)
                                        | None \<Rightarrow> cleanup_routes env ci s3 w4))))))"

definition CleanupWithStatusOwners ::
  "'h app_env \<Rightarrow> cleanup_inputs \<Rightarrow> string \<Rightarrow> 'h world \<Rightarrow> sys_error option \<times> 'h world" where
  "CleanupWithStatusOwners env ci fallbackLock w =
     (case cl_root ci of
        Some e \<Rightarrow> (Some e, w)
      | None \<Rightarrow>
          (case ReadState (ae_euid env) (ae_codec env) (ae_open env) (w_file w) of
             Inl e \<Rightarrow> if sys_is ErrNotExist e then (None, w) else (Some e, w)
           | Inr s \<Rightarrow>
               (case cleanup_allowed ci (if st_LockFile s = [] then fallbackLock else st_LockFile s) of
                  Some e \<Rightarrow> (Some e, w)
                | None \<Rightarrow> cleanup_steps env ci s w)))"

end
