(* ===== verification/Host_Contract.thy ===== *)
theory Host_Contract
  imports App_Host System_DNS_Properties
begin

text \<open>
  What the program relies on when it changes the host: the contract of \<open>route\<close> beside that of
  \<open>networksetup\<close>, the settings that are watched, what it means that a recovery record covers them, and
  what each call of \<open>internal/system\<close> does to them.
\<close>

section \<open>The contract of \<open>route\<close> and of the device\<close>

text \<open>
  \<open>tbl h\<close> are the installed routes among those the program may record, \<open>rs\<close>.  Adding one installs at most
  that one, deleting removes at most that one and, if it succeeds, removes it; no other command changes
  the table.  Looking up the first address of an installed route finds a route that is not the default
  route, and an interface that does not exist has no routes.
\<close>

definition mutation_args :: "string \<Rightarrow> route_state \<Rightarrow> string list" where
  "mutation_args operation r =
     (case validateRouteState r of
        Inl _ \<Rightarrow> []
      | Inr (p, g) \<Rightarrow> routeStateMutationArgs operation p (rt_Interface r) g (rt_Scope r))"

definition valid_route :: "route_state \<Rightarrow> bool" where
  "valid_route r = is_ok (validateRouteState r)"

definition get_args :: "route_state \<Rightarrow> string list" where
  "get_args r =
     (case validateRouteState r of Inl _ \<Rightarrow> [] | Inr (p, g) \<Rightarrow> routeStateGetArgs p (rt_Scope r))"

definition route_ok :: "'h runner \<Rightarrow> ('h \<Rightarrow> route_state set) \<Rightarrow> route_state set \<Rightarrow> bool" where
  "route_ok run tbl rs =
     ((\<forall>exe args h. (\<forall>r \<in> rs. valid_route r \<longrightarrow> exe = route_cmd \<longrightarrow>
           args \<noteq> mutation_args ''add'' r \<and> args \<noteq> mutation_args ''delete'' r) \<longrightarrow>
         tbl (snd (run exe args h)) = tbl h) \<and>
      (\<forall>r \<in> rs. \<forall>h. valid_route r \<longrightarrow>
         tbl (snd (run route_cmd (mutation_args ''add'' r) h)) \<subseteq> insert r (tbl h)) \<and>
      (\<forall>r \<in> rs. \<forall>h. valid_route r \<longrightarrow>
         (case run route_cmd (mutation_args ''delete'' r) h of ((_, e), h') \<Rightarrow>
            tbl h' \<subseteq> tbl h \<and> tbl h - {r} \<subseteq> tbl h' \<and> (e = None \<longrightarrow> r \<notin> tbl h'))) \<and>
      (\<forall>r \<in> rs. \<forall>h. valid_route r \<longrightarrow> r \<in> tbl h \<longrightarrow>
         (case parseRouteCommand (fst (run route_cmd (get_args r) h)) of
            Inl e \<Rightarrow> e \<noteq> ErrRouteNotFound
          | Inr l \<Rightarrow> \<not> defaultRouteLookup l)) \<and>
      (\<forall>i h. case run ifconfig_cmd [i] h of ((_, e), _) \<Rightarrow>
         (case e of
            None \<Rightarrow> True
          | Some t \<Rightarrow> str_contains t (''interface '' @ i @ '' does not exist'') \<longrightarrow>
              (\<forall>r \<in> tbl h. rt_Interface r \<noteq> i))))"

lemma route_frame:
  assumes "route_ok run tbl rs" and "run exe args h = (x, h')"
    and "\<And>r. exe = route_cmd \<Longrightarrow> args \<noteq> mutation_args ''add'' r \<and> args \<noteq> mutation_args ''delete'' r"
  shows "tbl h' = tbl h"
proof -
  from assms(1) have "(\<forall>r \<in> rs. valid_route r \<longrightarrow> exe = route_cmd \<longrightarrow>
      args \<noteq> mutation_args ''add'' r \<and> args \<noteq> mutation_args ''delete'' r) \<longrightarrow>
      tbl (snd (run exe args h)) = tbl h"
    unfolding route_ok_def by (elim conjE allE)
  with assms(2,3) show ?thesis by simp
qed

lemma route_add:
  assumes "route_ok run tbl rs" and "r \<in> rs" and "valid_route r"
    and "run route_cmd (mutation_args ''add'' r) h = (x, h')"
  shows "tbl h' \<subseteq> insert r (tbl h)"
proof -
  from assms(1) have "\<forall>r \<in> rs. \<forall>h. valid_route r \<longrightarrow>
      tbl (snd (run route_cmd (mutation_args ''add'' r) h)) \<subseteq> insert r (tbl h)"
    unfolding route_ok_def by (elim conjE)
  from bspec [OF this assms(2)] assms(3,4) show ?thesis by (metis snd_conv)
qed

lemma route_delete:
  assumes "route_ok run tbl rs" and "r \<in> rs" and "valid_route r"
    and "run route_cmd (mutation_args ''delete'' r) h = ((x, e), h')"
  shows "tbl h' \<subseteq> tbl h \<and> tbl h - {r} \<subseteq> tbl h' \<and> (e = None \<longrightarrow> r \<notin> tbl h')"
proof -
  from assms(1) have "\<forall>r \<in> rs. \<forall>h. valid_route r \<longrightarrow>
         (case run route_cmd (mutation_args ''delete'' r) h of ((_, e), h') \<Rightarrow>
            tbl h' \<subseteq> tbl h \<and> tbl h - {r} \<subseteq> tbl h' \<and> (e = None \<longrightarrow> r \<notin> tbl h'))"
    unfolding route_ok_def by (elim conjE)
  from spec [OF bspec [OF this assms(2)], of h] assms(3,4) show ?thesis by simp
qed

lemma route_get:
  assumes "route_ok run tbl rs" and "r \<in> rs" and "valid_route r" and "r \<in> tbl h"
    and "run route_cmd (get_args r) h = (res, h')"
  shows "parseRouteCommand res \<noteq> Inl ErrRouteNotFound"
    "parseRouteCommand res = Inr l \<Longrightarrow> \<not> defaultRouteLookup l"
proof -
  from assms(1) have "\<forall>r \<in> rs. \<forall>h. valid_route r \<longrightarrow> r \<in> tbl h \<longrightarrow>
         (case parseRouteCommand (fst (run route_cmd (get_args r) h)) of
            Inl e \<Rightarrow> e \<noteq> ErrRouteNotFound
          | Inr l \<Rightarrow> \<not> defaultRouteLookup l)"
    unfolding route_ok_def by (elim conjE)
  from spec [OF bspec [OF this assms(2)], of h] assms(3-5)
  have "case parseRouteCommand res of Inl e \<Rightarrow> e \<noteq> ErrRouteNotFound | Inr l \<Rightarrow> \<not> defaultRouteLookup l" by simp
  then show "parseRouteCommand res \<noteq> Inl ErrRouteNotFound"
    "parseRouteCommand res = Inr l \<Longrightarrow> \<not> defaultRouteLookup l" by auto
qed

lemma route_interface:
  assumes "route_ok run tbl rs" and "run ifconfig_cmd [i] h = ((x, Some t), h')"
    and "str_contains t (''interface '' @ i @ '' does not exist'')" and "r \<in> tbl h"
  shows "rt_Interface r \<noteq> i"
proof -
  from assms(1) have "\<forall>i h. case run ifconfig_cmd [i] h of ((_, e), _) \<Rightarrow>
         (case e of
            None \<Rightarrow> True
          | Some t \<Rightarrow> str_contains t (''interface '' @ i @ '' does not exist'') \<longrightarrow>
              (\<forall>r \<in> tbl h. rt_Interface r \<noteq> i))"
    unfolding route_ok_def by (elim conjE)
  from spec [OF spec [OF this, of i], of h] assms(2-4) show ?thesis by simp
qed

text \<open>No query of the program looks like a change of the table.\<close>

lemma mutation_args_shape: "mutation_args operation r \<noteq> [] \<Longrightarrow> \<exists>as. mutation_args operation r = ''-n'' # operation # as"
  by (auto simp: mutation_args_def routeStateMutationArgs_def split: sum.splits)

lemma get_not_mutation [simp]:
  "''-n'' # ''get'' # as \<noteq> mutation_args ''add'' r" "''-n'' # ''get'' # as \<noteq> mutation_args ''delete'' r"
  using mutation_args_shape [of "''add''" r] mutation_args_shape [of "''delete''" r] by fastforce+

lemma get_args_shape: "validateRouteState r = Inr (p, g) \<Longrightarrow> \<exists>as. routeStateGetArgs p scope = ''-n'' # ''get'' # as"
  by (auto simp: routeStateGetArgs_def routeGetArgs_def routeLookupArgs_def routeLookupScopedArgs_def)

lemma other_commands [simp]: "networkSetup \<noteq> route_cmd" "ifconfig_cmd \<noteq> route_cmd" "networkSetup \<noteq> ifconfig_cmd"
  "route_cmd \<noteq> networkSetup" "ifconfig_cmd \<noteq> networkSetup"
  by (simp_all add: networkSetup_def route_cmd_def ifconfig_cmd_def)


section \<open>What is watched\<close>

text \<open>
  The settings of a host, the routes the program may record, and the settings it started from.
\<close>

record 'h view =
  vw_dns :: "'h \<Rightarrow> string \<Rightarrow> addr list"
  vw_tbl :: "'h \<Rightarrow> route_state set"
  vw_routes :: "route_state set"
  vw_dns0 :: "string \<Rightarrow> addr list"
  vw_tbl0 :: "route_state set"

definition listing_ok :: "'h runner \<Rightarrow> bool" where
  "listing_ok run =
     (\<forall>h. distinct (map ns_Name (parseNetworkServiceOrder (fst (fst (run networkSetup [''-listnetworkserviceorder''] h))))))"

definition contract :: "'h app_env \<Rightarrow> 'h view \<Rightarrow> bool" where
  "contract env v =
     (networksetup_ok (ae_run env) (vw_dns v) \<and> listing_ok (ae_run env) \<and>
      route_ok (ae_run env) (vw_tbl v) (vw_routes v) \<and>
      (\<forall>h. vw_dns v (snd (ae_close env h)) = vw_dns v h \<and> vw_tbl v (snd (ae_close env h)) \<subseteq> vw_tbl v h) \<and>
      (\<forall>s. decState (ae_codec env) (encState (ae_codec env) s) = Some s) \<and> plain_dns (vw_dns0 v))"

lemma contractD:
  assumes "contract env v"
  shows "networksetup_ok (ae_run env) (vw_dns v)" "listing_ok (ae_run env)"
    "route_ok (ae_run env) (vw_tbl v) (vw_routes v)" "plain_dns (vw_dns0 v)"
    "decState (ae_codec env) (encState (ae_codec env) s) = Some s"
    "vw_dns v (snd (ae_close env h)) = vw_dns v h" "vw_tbl v (snd (ae_close env h)) \<subseteq> vw_tbl v h"
  using assms by (simp_all add: contract_def)

text \<open>All changes of the program are undone.\<close>

definition undone :: "'h view \<Rightarrow> 'h \<Rightarrow> bool" where
  "undone v h = (vw_dns v h = vw_dns0 v \<and> vw_tbl v h \<subseteq> vw_tbl0 v)"

definition recorded_routes :: "sys_state \<Rightarrow> route_state set" where
  "recorded_routes s = set (st_Routes s) \<union> set_option (st_Route s)"

text \<open>A record covers a host: it holds what is needed to undo all changes.\<close>

definition covers :: "'h view \<Rightarrow> sys_state \<Rightarrow> 'h \<Rightarrow> bool" where
  "covers v s h =
     (dns_recorded (vw_dns0 v) (vw_dns v h) (st_DNS s) \<and>
      vw_tbl v h \<subseteq> vw_tbl0 v \<union> recorded_routes s \<and> recorded_routes s \<subseteq> vw_routes v)"

definition holds_state :: "'h app_env \<Rightarrow> disk_file \<Rightarrow> sys_state \<Rightarrow> bool" where
  "holds_state env f s = (\<exists>st c. f = File st c \<and> decState (ae_codec env) c = Some s)"

definition on_record :: "'h app_env \<Rightarrow> 'h view \<Rightarrow> disk_file \<Rightarrow> 'h \<Rightarrow> bool" where
  "on_record env v f h = (f = Missing \<and> undone v h \<or> (\<exists>s. holds_state env f s \<and> covers v s h))"

definition watched :: "'h app_env \<Rightarrow> 'h view \<Rightarrow> sys_state \<Rightarrow> 'h world \<Rightarrow> bool" where
  "watched env v s w = (covers v s (w_host w) \<and> on_record env v (w_file w) (w_host w))"

text \<open>A host that only moves back towards the settings it started from.\<close>

definition recedes :: "'h view \<Rightarrow> 'h \<Rightarrow> 'h \<Rightarrow> bool" where
  "recedes v h h' =
     (vw_tbl v h' \<subseteq> vw_tbl v h \<and> (\<forall>s. vw_dns v h' s = vw_dns v h s \<or> vw_dns v h' s = vw_dns0 v s))"

lemma recedesI: "vw_tbl v h' \<subseteq> vw_tbl v h \<Longrightarrow> vw_dns v h' = vw_dns v h \<Longrightarrow> recedes v h h'"
  by (simp add: recedes_def)

lemma recedes_refl [simp]: "recedes v h h"
  by (simp add: recedes_def)

lemma recedes_trans: "recedes v h h' \<Longrightarrow> recedes v h' h'' \<Longrightarrow> recedes v h h''"
  unfolding recedes_def by (metis order_trans)

lemma recedes_undone: "recedes v h h' \<Longrightarrow> undone v h \<Longrightarrow> undone v h'"
  unfolding recedes_def undone_def by (metis ext order_trans)

lemma recedes_dns: "recedes v h h' \<Longrightarrow> dns_recorded (vw_dns0 v) (vw_dns v h) L \<Longrightarrow> dns_recorded (vw_dns0 v) (vw_dns v h') L"
  unfolding recedes_def dns_recorded_def by metis

lemma recedes_covers: "recedes v h h' \<Longrightarrow> covers v s h \<Longrightarrow> covers v s h'"
  using recedes_dns [of v h h'] by (auto simp: covers_def recedes_def)

lemma recedes_on_record: "recedes v h h' \<Longrightarrow> on_record env v f h \<Longrightarrow> on_record env v f h'"
  unfolding on_record_def using recedes_undone recedes_covers by metis

lemma recedes_watched: "recedes v (w_host w) h' \<Longrightarrow> watched env v s w \<Longrightarrow> watched env v s (w\<lparr>w_host := h'\<rparr>)"
  by (simp add: watched_def recedes_covers recedes_on_record)

lemma covers_cong:
  "st_DNS s' = st_DNS s \<Longrightarrow> st_Route s' = st_Route s \<Longrightarrow> st_Routes s' = st_Routes s \<Longrightarrow> covers v s' h = covers v s h"
  by (simp add: covers_def recorded_routes_def)

lemma covers_empty: "covers v s h \<Longrightarrow> st_DNS s = [] \<Longrightarrow> st_Route s = None \<Longrightarrow> st_Routes s = [] \<Longrightarrow> undone v h"
  by (simp add: covers_def undone_def recorded_routes_def)


section \<open>Each call on the host\<close>

lemma valid_routeE:
  assumes "validateRouteState r = Inr (p, g)"
  shows "valid_route r" "mutation_args operation r = routeStateMutationArgs operation p (rt_Interface r) g (rt_Scope r)"
    "get_args r = routeStateGetArgs p (rt_Scope r)"
  using assms by (simp_all add: valid_route_def mutation_args_def get_args_def)

lemma dns_other: "contract env v \<Longrightarrow> ae_run env exe args h = (x, h') \<Longrightarrow> exe \<noteq> networkSetup \<Longrightarrow> vw_dns v h' = vw_dns v h"
  by (rule dns_frame [OF contractD(1)]) blast+

lemma tbl_other:
  "contract env v \<Longrightarrow> ae_run env exe args h = (x, h') \<Longrightarrow> exe \<noteq> route_cmd \<Longrightarrow> vw_tbl v h' = vw_tbl v h"
  by (rule route_frame [OF contractD(3)]) blast+

lemma tbl_get:
  assumes "contract env v" and "validateRouteState r = Inr (p, g)"
    and "ae_run env route_cmd (routeStateGetArgs p scope) h = (x, h')"
  shows "vw_tbl v h' = vw_tbl v h"
proof -
  obtain as where "routeStateGetArgs p scope = ''-n'' # ''get'' # as"
    using get_args_shape [OF assms(2)] by blast
  then show ?thesis
    using route_frame [OF contractD(3) [OF assms(1)] assms(3)] by simp
qed

lemma AddRoute_spec:
  assumes "contract env v" and "r \<in> vw_routes v" and "AddRoute (ae_run env) r h = (e, h')"
  shows "vw_tbl v h' \<subseteq> insert r (vw_tbl v h) \<and> vw_dns v h' = vw_dns v h"
proof (cases "validateRouteState r")
  case (Inl x)
  then show ?thesis using assms(3) by (auto simp: AddRoute_def)
next
  case (Inr pg)
  obtain p g where pg: "pg = (p, g)" by (cases pg)
  obtain x h1 where run: "ae_run env route_cmd (mutation_args ''add'' r) h = (x, h1)" by (metis prod.collapse)
  then have "h1 = h'"
    using assms(3) Inr pg valid_routeE(2) [of r p g "''add''"]
    by (auto simp: AddRoute_def split: prod.splits option.splits)
  then show ?thesis
    using route_add [OF contractD(3) [OF assms(1)] assms(2) valid_routeE(1) run] dns_other [OF assms(1) run] Inr pg
    by simp
qed

lemma VerifyRoute_spec:
  assumes "contract env v" and "VerifyRoute (ae_run env) r h = (e, h')"
  shows "recedes v h h'"
proof (cases "validateRouteState r")
  case (Inl x)
  then show ?thesis using assms(2) by (auto simp: VerifyRoute_def)
next
  case (Inr pg)
  obtain p g where pg: "pg = (p, g)" by (cases pg)
  obtain x h1 where run: "ae_run env route_cmd (routeStateGetArgs p (rt_Scope r)) h = (x, h1)" by (metis prod.collapse)
  then have "h1 = h'"
    using assms(2) Inr pg by (auto simp: VerifyRoute_def split: sum.splits if_splits)
  then show ?thesis
    using tbl_get [OF assms(1) _ run] dns_other [OF assms(1) run] Inr pg by (auto intro: recedesI)
qed

lemma remove_found_spec:
  assumes "contract env v" and "r \<in> vw_routes v" and "validateRouteState r = Inr (p, g)"
    and "remove_found (ae_run env) r p g l h = (e, h')"
  shows "recedes v h h' \<and> (e = None \<longrightarrow> r \<notin> vw_tbl v h')"
proof (cases "Interface l \<noteq> rt_Interface r")
  case True
  obtain x t h1 where run: "ae_run env ifconfig_cmd [rt_Interface r] h = ((x, t), h1)" by (metis prod.collapse)
  have same: "vw_tbl v h1 = vw_tbl v h" "vw_dns v h1 = vw_dns v h"
    using tbl_other [OF assms(1) run] dns_other [OF assms(1) run] by simp_all
  have "h1 = h'" "e = None \<longrightarrow> (\<exists>t'. t = Some t' \<and>
      str_contains t' (''interface '' @ rt_Interface r @ '' does not exist''))"
    using assms(4) True run
    by (auto simp: remove_found_def routeInterfaceExists_def split: option.splits if_splits)
  moreover note route_interface [OF contractD(3) [OF assms(1)], of "rt_Interface r" h]
  ultimately show ?thesis
    using same run by (metis recedesI order_refl)
next
  case False
  obtain x t h1 where run: "ae_run env route_cmd (mutation_args ''delete'' r) h = ((x, t), h1)" by (metis prod.collapse)
  have d: "vw_tbl v h1 \<subseteq> vw_tbl v h \<and> vw_tbl v h - {r} \<subseteq> vw_tbl v h1 \<and> (t = None \<longrightarrow> r \<notin> vw_tbl v h1)"
    by (rule route_delete [OF contractD(3) [OF assms(1)] assms(2) valid_routeE(1) [OF assms(3)] run])
  moreover have "vw_dns v h1 = vw_dns v h" using dns_other [OF assms(1) run] by simp
  moreover have "h' = h \<and> e \<noteq> None \<or> h' = h1 \<and> (e = None \<longrightarrow> t = None)"
    using assms(4) False run valid_routeE(2) [OF assms(3), of "''delete''"]
    by (auto simp: remove_found_def split: option.splits if_splits)
  ultimately show ?thesis by (auto intro: recedesI)
qed

lemma RemoveRoute_spec:
  assumes "contract env v" and "r \<in> vw_routes v" and "RemoveRoute (ae_run env) r h = (e, h')"
  shows "recedes v h h' \<and> (e = None \<longrightarrow> r \<notin> vw_tbl v h')"
proof (cases "validateRouteState r")
  case (Inl x)
  then show ?thesis using assms(3) by (auto simp: RemoveRoute_def)
next
  case (Inr pg)
  obtain p g where pg: "validateRouteState r = Inr (p, g)" using Inr by (cases pg) auto
  obtain res h1 where run: "ae_run env route_cmd (get_args r) h = (res, h1)" by (metis prod.collapse)
  have same: "vw_tbl v h1 = vw_tbl v h" "vw_dns v h1 = vw_dns v h"
    using tbl_get [OF assms(1) pg] dns_other [OF assms(1) run] run valid_routeE(3) [OF pg] by simp_all
  have first: "recedes v h h1" using same by (simp add: recedesI)
  note get = route_get [OF contractD(3) [OF assms(1)] assms(2) valid_routeE(1) [OF pg] _ run]
  show ?thesis
  proof (cases "parseRouteCommand res")
    case (Inl x)
    have "x = ErrRouteNotFound \<or> \<not> sys_is ErrRouteNotFound x"
      using Inl by (auto simp: parseRouteCommand_def ParseRouteLookup_def Let_def split: prod.splits if_splits option.splits)
    then show ?thesis
      using assms(3) pg run Inl first get(1) same valid_routeE(3) [OF pg]
      by (auto simp: RemoveRoute_def split: if_splits)
  next
    case (Inr l)
    show ?thesis
    proof (cases "defaultRouteLookup l")
      case True
      then show ?thesis
        using assms(3) pg run Inr first get(2) same valid_routeE(3) [OF pg] by (auto simp: RemoveRoute_def)
    next
      case False
      then have "remove_found (ae_run env) r p g l h1 = (e, h')"
        using assms(3) pg run Inr valid_routeE(3) [OF pg] by (auto simp: RemoveRoute_def)
      then show ?thesis
        using remove_found_spec [OF assms(1,2) pg] recedes_trans [OF first] by blast
    qed
  qed
qed

text \<open>The calls on DNS settings leave the routing table alone.\<close>

lemma getDNS_tbl: "contract env v \<Longrightarrow> getDNS (ae_run env) svc h = (r, h') \<Longrightarrow> vw_tbl v h' = vw_tbl v h"
  using tbl_other [of env v networkSetup "[''-getdnsservers'', svc]" h]
  by (auto simp: getDNS_def Let_def split: prod.splits option.splits if_splits)

lemma setDNS_tbl: "contract env v \<Longrightarrow> setDNS (ae_run env) svc ss h = (r, h') \<Longrightarrow> vw_tbl v h' = vw_tbl v h"
  using tbl_other [of env v networkSetup _ h]
  by (auto simp: setDNS_def split: prod.splits option.splits if_splits)

lemma restore_one_tbl:
  assumes "contract env v" and "restore_one (ae_run env) st h = (r, h')"
  shows "vw_tbl v h' = vw_tbl v h"
proof -
  obtain g h1 where g: "getDNS (ae_run env) (Service st) h = (g, h1)" by (metis prod.collapse)
  show ?thesis
    using assms(2) g getDNS_tbl [OF assms(1) g] setDNS_tbl [OF assms(1)]
    by (auto simp: restore_one_def split: sum.splits if_splits)
qed

lemma restore_dns_loop_tbl:
  assumes "contract env v"
  shows "restore_dns_loop (ae_run env) states h = (r, h') \<Longrightarrow> vw_tbl v h' = vw_tbl v h"
proof (induction states arbitrary: h r)
  case (Cons st states)
  obtain e h1 where one: "restore_one (ae_run env) st h = (e, h1)" by (metis prod.collapse)
  obtain r2 h2 where rest: "restore_dns_loop (ae_run env) states h1 = (r2, h2)" by (metis prod.collapse)
  have "h' = h2" using Cons.prems one rest by (auto split: option.splits prod.splits)
  then show ?case using Cons.IH [OF rest [folded \<open>h' = h2\<close>]] restore_one_tbl [OF assms one] by simp
qed simp

lemma apply_loop_tbl:
  assumes "contract env v"
  shows "apply_loop (ae_run env) states h = (r, h') \<Longrightarrow> vw_tbl v h' = vw_tbl v h"
proof (induction states arbitrary: h r)
  case (Cons st states)
  obtain e h1 where one: "setDNS (ae_run env) (Service st) (Applied st) h = (e, h1)" by (metis prod.collapse)
  obtain r2 h2 where rest: "apply_loop (ae_run env) states h1 = (r2, h2)" by (metis prod.collapse)
  have "h' = h1 \<or> h' = h2" using Cons.prems one rest by (auto split: option.splits prod.splits)
  then show ?case using Cons.IH [of h1 r2] rest setDNS_tbl [OF assms one] by auto
qed simp

lemma snapshot_states_tbl:
  assumes "contract env v"
  shows "snapshotDNSStates (ae_run env) services a h = (r, h') \<Longrightarrow> vw_tbl v h' = vw_tbl v h"
proof (induction services arbitrary: h r)
  case (Cons s ss)
  obtain g h1 where g: "getDNS (ae_run env) (ns_Name s) h = (g, h1)" by (metis prod.collapse)
  obtain r2 h2 where rest: "snapshotDNSStates (ae_run env) ss a h1 = (r2, h2)" by (metis prod.collapse)
  have "h' = h1 \<or> h' = h2" using Cons.prems g rest by (auto split: sum.splits if_splits prod.splits)
  then show ?case using Cons.IH [of h1 r2] rest getDNS_tbl [OF assms g] by auto
qed simp

lemma SnapshotDNS_tbl:
  assumes "contract env v" and "SnapshotDNS (ae_run env) ifs a h = (r, h')"
  shows "vw_tbl v h' = vw_tbl v h"
proof -
  obtain x h1 where l: "ae_run env networkSetup [''-listnetworkserviceorder''] h = (x, h1)" by (metis prod.collapse)
  show ?thesis
    using assms(2) l tbl_other [OF assms(1) l] snapshot_states_tbl [OF assms(1)]
    by (auto simp: SnapshotDNS_def Let_def split: if_splits prod.splits option.splits)
qed

lemma snapshot_services:
  "snapshotDNSStates run services a h = (Inr states, h') \<Longrightarrow> map Service states = map ns_Name services"
  by (induction services arbitrary: h states) (auto split: sum.splits if_splits prod.splits)

lemma SnapshotDNS_distinct:
  assumes "listing_ok run" and "SnapshotDNS run ifs a h = (Inr states, h')"
  shows "distinct (map Service states)"
proof -
  obtain out e h1 where l: "run networkSetup [''-listnetworkserviceorder''] h = ((out, e), h1)"
    by (metis prod.collapse)
  then have "distinct (map ns_Name (parseNetworkServiceOrder out))"
    using assms(1) by (metis fst_conv listing_ok_def)
  then have "distinct (map ns_Name (activeNetworkServices ifs (parseNetworkServiceOrder out)))"
    by (simp add: activeNetworkServices_def distinct_map_filter)
  moreover have "\<exists>h''. snapshotDNSStates run (activeNetworkServices ifs (parseNetworkServiceOrder out)) a h'' = (Inr states, h')"
    using assms(2) l by (auto simp: SnapshotDNS_def Let_def split: if_splits option.splits)
  ultimately show ?thesis using snapshot_services by metis
qed

lemma RestoreDNS_spec:
  assumes "contract env v" and "dns_recorded (vw_dns0 v) (vw_dns v h) states"
    and "RestoreDNS (ae_run env) states h = ((remaining, e), h')"
  shows "recedes v h h'" "dns_recorded (vw_dns0 v) (vw_dns v h') remaining" "e = None \<Longrightarrow> remaining = []"
proof -
  note rec = restore_recorded [OF contractD(1,4) [OF assms(1)] assms(2,3)]
  obtain failures where l: "restore_dns_loop (ae_run env) states h = ((remaining, failures), h')"
    using assms(3) by (auto simp: RestoreDNS_def split: prod.splits)
  have plain: "\<forall>st \<in> set states. list_all plain_addr (vw_dns v h (Service st))"
    using dns_recorded_plain [OF contractD(4) [OF assms(1)] assms(2)] by (simp add: plain_dns_def)
  have d: "distinct (map Service states)" using assms(2) by (simp add: dns_recorded_def)
  note spec = restore_dns_loop_spec [OF contractD(1) [OF assms(1)] d plain l]
  have "vw_dns v h' s = vw_dns v h s \<or> vw_dns v h' s = vw_dns0 v s" for s
  proof (cases "s \<in> Service ` set states")
    case True
    then obtain st where st: "st \<in> set states" "s = Service st" by auto
    then have "restored st (vw_dns v h s) (vw_dns v h' s)" "servers_of (Previous st) = vw_dns0 v s"
      using spec assms(2) by (auto simp: dns_recorded_def)
    then show ?thesis by (auto simp: restored_def)
  next
    case False
    then show ?thesis using spec by auto
  qed
  then show "recedes v h h'" using restore_dns_loop_tbl [OF assms(1) l] by (simp add: recedes_def)
  show "dns_recorded (vw_dns0 v) (vw_dns v h') remaining" "e = None \<Longrightarrow> remaining = []"
    using rec by simp_all
qed

end
