(* ===== verification/App_Recovery.thy ===== *)
theory App_Recovery
  imports Host_Contract
begin

text \<open>
  The recovery record covers the host at every moment: whatever the program has added to the routing
  table or set as DNS servers is on file, with what is needed to undo it.  The invariant is proved for
  each step of a run and of the crash recovery.
\<close>

section \<open>Writing and removing the record\<close>

lemma write_outcome:
  "first_failure (es @ [io_error m x]) = None \<Longrightarrow> first_failure es = None"
  by (induction es rule: first_failure.induct) auto

lemma save_spec:
  assumes "contract env v" and "watched env v s w" and "covers v s' (w_host w)" and "save env s' w = (e, w')"
  shows "w_host w' = w_host w" "watched env v s' w'" "e = None \<Longrightarrow> holds_state env (w_file w') s'"
proof -
  obtain f where wr: "WriteState (ae_euid env) (ae_codec env) (w_writes w (w_count w)) (ae_path env) s' (w_file w) = (e, f)"
    and w': "w' = w\<lparr>w_file := f, w_count := Suc (w_count w)\<rparr>"
    using assms(4) by (auto simp: save_def split: prod.splits)
  have f: "f = w_file w \<and> e \<noteq> None \<or> holds_state env f s'"
    using wr contractD(5) [OF assms(1), of s']
    by (auto simp: WriteState_def holds_state_def simp del: first_failure.simps split: option.splits)
  show "w_host w' = w_host w" using w' by simp
  show "e = None \<Longrightarrow> holds_state env (w_file w') s'" using f w' by auto
  show "watched env v s' w'"
    using f w' assms(2,3) by (auto simp: watched_def on_record_def)
qed

lemma discard_spec:
  assumes "on_record env v (w_file w) (w_host w)" and "undone v (w_host w)" and "discard env w = (e, w')"
  shows "w_host w' = w_host w" "on_record env v (w_file w') (w_host w')" "e = None \<Longrightarrow> w_file w' = Missing"
proof -
  obtain f where rm: "RemoveState (ae_euid env) (ae_codec env) (ae_open env) (ae_remove env) (w_file w) = (e, f)"
    and w': "w' = w\<lparr>w_file := f\<rparr>"
    using assms(3) by (auto simp: discard_def split: prod.splits)
  have "f = w_file w \<or> f = Missing"
    using rm by (auto simp: RemoveState_def split: sum.splits if_splits option.splits)
  then show "w_host w' = w_host w" "on_record env v (w_file w') (w_host w')"
    using assms(1,2) w' by (auto simp: on_record_def)
  have not_exist: "\<not> sys_is ErrNotExist x" if "validateState s = Some x" for s x
    using that by (auto simp: validateState_def split: if_splits)
  show "e = None \<Longrightarrow> w_file w' = Missing"
    using rm w' not_exist
    by (auto simp: RemoveState_def ReadState_def split: sum.splits if_splits option.splits disk_file.splits)
qed


section \<open>Actions\<close>

text \<open>
  An action keeps the host watched; \<open>P\<close> holds of the variables of \<open>Run\<close> before it, and \<open>Q\<close> after it unless
  it fails.
\<close>

definition keeps :: "'h app_env \<Rightarrow> 'h view \<Rightarrow> ('z host_vars_scheme \<Rightarrow> bool) \<Rightarrow> ('z, 'h) act \<Rightarrow> ('z host_vars_scheme \<Rightarrow> bool) \<Rightarrow> bool" where
  "keeps env v P a Q =
     (\<forall>l w. watched env v (lo_state l) w \<longrightarrow> P l \<longrightarrow>
        (case a l w of (e, l', w') \<Rightarrow> watched env v (lo_state l') w' \<and> (e = None \<longrightarrow> Q l')))"

lemma keepsI:
  assumes "\<And>l w e l' w'. watched env v (lo_state l) w \<Longrightarrow> P l \<Longrightarrow> a l w = (e, l', w') \<Longrightarrow>
    watched env v (lo_state l') w' \<and> (e = None \<longrightarrow> Q l')"
  shows "keeps env v P a Q"
  unfolding keeps_def
proof (intro allI impI)
  fix l w assume pre: "watched env v (lo_state l) w" "P l"
  obtain e l' w' where a: "a l w = (e, l', w')" by (metis prod_cases3)
  from assms [OF pre a] a
  show "case a l w of (e, l', w') \<Rightarrow> watched env v (lo_state l') w' \<and> (e = None \<longrightarrow> Q l')" by simp
qed

lemma keepsD:
  assumes "keeps env v P a Q" and "watched env v (lo_state l) w" and "P l" and "a l w = (e, l', w')"
  shows "watched env v (lo_state l') w' \<and> (e = None \<longrightarrow> Q l')"
proof -
  from spec [OF spec [OF assms(1) [unfolded keeps_def], of l], of w] assms(2-4) show ?thesis by simp
qed

lemma keeps_outcome: "keeps env v P (outcome e) P"
  by (simp add: keeps_def outcome_def)

lemma keeps_and_then:
  assumes "keeps env v P a Q" and "keeps env v Q b R"
  shows "keeps env v P (and_then a b) R"
proof (rule keepsI)
  fix l w e l' w'
  assume pre: "watched env v (lo_state l) w" "P l" and run: "and_then a b l w = (e, l', w')"
  obtain e1 l1 w1 where a: "a l w = (e1, l1, w1)" by (metis prod_cases3)
  from keepsD [OF assms(1) pre a] run a keepsD [OF assms(2), of l1 w1]
  show "watched env v (lo_state l') w' \<and> (e = None \<longrightarrow> R l')"
    by (auto simp: and_then_def split: option.splits)
qed

lemma keeps_weaken: "keeps env v P a Q \<Longrightarrow> (\<And>l. P' l \<Longrightarrow> P l) \<Longrightarrow> (\<And>l. Q l \<Longrightarrow> Q' l) \<Longrightarrow> keeps env v P' a Q'"
  by (rule keepsI) (blast dest: keepsD)

lemma keeps_if: "keeps env v P a Q \<Longrightarrow> keeps env v P b Q \<Longrightarrow> keeps env v P (if c then a else b) Q"
  by simp

lemma keeps_host_act:
  assumes "\<And>h e h'. f h = (e, h') \<Longrightarrow> recedes v h h'"
  shows "keeps env v P (host_act f) P"
proof (rule keepsI)
  fix l w e l' w'
  assume pre: "watched env v (lo_state l) w" "P l" and run: "host_act f l w = (e, l', w')"
  obtain e1 h1 where f: "f (w_host w) = (e1, h1)" by (metis prod.collapse)
  then show "watched env v (lo_state l') w' \<and> (e = None \<longrightarrow> P l')"
    using run pre recedes_watched [OF assms [OF f] pre(1)] by (auto simp: host_act_def on_host_def)
qed

text \<open>What a change of the record must respect.\<close>

definition records :: "'h view \<Rightarrow> ('z host_vars_scheme \<Rightarrow> bool) \<Rightarrow> (sys_state \<Rightarrow> sys_state) \<Rightarrow> ('z host_vars_scheme \<Rightarrow> bool) \<Rightarrow> bool" where
  "records v P f Q =
     (\<forall>l h. P l \<longrightarrow> covers v (lo_state l) h \<longrightarrow>
        covers v (f (lo_state l)) h \<and> Q (l\<lparr>lo_state := f (lo_state l)\<rparr>))"

lemma keeps_record_state:
  assumes "contract env v" and "records v P f Q"
  shows "keeps env v P (record_state env f) Q"
proof (rule keepsI)
  fix l w e l' w'
  assume pre: "watched env v (lo_state l) w" "P l" and run: "record_state env f l w = (e, l', w')"
  obtain w1 where s: "save env (f (lo_state l)) w = (e, w1)" "l' = l\<lparr>lo_state := f (lo_state l)\<rparr>" "w' = w1"
    using run by (auto simp: record_state_def Let_def split: prod.splits)
  have c: "covers v (f (lo_state l)) (w_host w)" "Q l'"
    using assms(2) pre s(2) by (auto simp: watched_def records_def)
  from save_spec(2) [OF assms(1) pre(1) c(1) s(1)] s c(2)
  show "watched env v (lo_state l') w' \<and> (e = None \<longrightarrow> Q l')" by simp
qed

text \<open>A route is added only after the record on disk names it.\<close>

lemma keeps_install_route:
  assumes "contract env v" and "r \<in> vw_routes v" and "records v P f Q" and "\<And>s. r \<in> recorded_routes (f s)"
  shows "keeps env v P (install_route env f r) Q"
proof (rule keepsI)
  fix l w e l' w'
  assume pre: "watched env v (lo_state l) w" "P l" and run: "install_route env f r l w = (e, l', w')"
  obtain e1 w1 where s: "save env (f (lo_state l)) w = (e1, w1)" by (metis prod.collapse)
  let ?s = "f (lo_state l)" and ?l = "l\<lparr>lo_state := f (lo_state l)\<rparr>"
  have c: "covers v ?s (w_host w)" "Q ?l" using assms(3) pre by (auto simp: watched_def records_def)
  note saved = save_spec [OF assms(1) pre(1) c(1) s]
  have rec: "record_state env f l w = (e1, ?l, w1)" using s by (simp add: record_state_def)
  show "watched env v (lo_state l') w' \<and> (e = None \<longrightarrow> Q l')"
  proof (cases e1)
    case (Some x)
    then show ?thesis using run rec saved(2) by (auto simp: install_route_def and_then_def)
  next
    case None
    obtain e2 h2 where add: "AddRoute (ae_run env) r (w_host w1) = (e2, h2)" by (metis prod.collapse)
    note grow = AddRoute_spec [OF assms(1,2) add]
    have "covers v ?s h2"
      using c(1) saved(1) grow assms(4) [of "lo_state l"] by (auto simp: covers_def)
    then have w2: "watched env v ?s (w1\<lparr>w_host := h2\<rparr>)"
      using saved(3) [OF None] by (auto simp: watched_def on_record_def)
    have ver: "keeps env v Q (host_act (VerifyRoute (ae_run env) r)) Q"
      by (rule keeps_host_act) (rule VerifyRoute_spec [OF assms(1)])
    obtain e3 l3 w3 where v: "host_act (VerifyRoute (ae_run env) r) ?l (w1\<lparr>w_host := h2\<rparr>) = (e3, l3, w3)"
      by (metis prod_cases3)
    have "(e, l', w') = (e2, ?l, w1\<lparr>w_host := h2\<rparr>) \<and> e2 \<noteq> None \<or> (e, l', w') = (e3, l3, w3)"
      using run rec None add v by (auto simp: install_route_def and_then_def host_act_def on_host_def split: option.splits)
    then show ?thesis
      using w2 keepsD [OF ver _ _ v] c(2) by auto
  qed
qed


section \<open>Starting\<close>

abbreviation no_dns :: "'z host_vars_scheme \<Rightarrow> bool" where
  "no_dns l \<equiv> st_DNS (lo_state l) = []"

definition named :: "run_inputs \<Rightarrow> 'z host_vars_scheme \<Rightarrow> bool" where
  "named inp l = (no_dns l \<and> st_Route (lo_state l) = None \<and> in_device inp = Inr (device_name l))"

definition planned_routes :: "run_inputs \<Rightarrow> route_state set" where
  "planned_routes inp =
     (case in_device inp of
        Inl _ \<Rightarrow> {}
      | Inr n \<Rightarrow> {fake_route (in_prefix inp) n, fake_route (in_prefix6 inp) n} \<union> set (in_capture inp n))"

lemma keeps_append_route:
  assumes "contract env v" and "r \<in> vw_routes v"
  shows "keeps env v no_dns (install_route env (append_route r) r) no_dns"
  by (rule keeps_install_route [OF assms])
     (use assms(2) in \<open>auto simp: append_route_def covers_def recorded_routes_def records_def\<close>)

lemma keeps_install_routes:
  assumes "contract env v" and "set rs \<subseteq> vw_routes v"
  shows "keeps env v no_dns (install_routes env rs) no_dns"
  using assms(2)
  by (induction rs) (auto intro!: keeps_outcome keeps_and_then keeps_append_route [OF assms(1)])

lemma keeps_create_tun:
  assumes "contract env v"
  shows "keeps env v (\<lambda>l. no_dns l \<and> st_Route (lo_state l) = None) (create_tun env inp) (named inp)"
proof (rule keepsI)
  fix l w e l' w'
  assume pre: "watched env v (lo_state l) w" "no_dns l \<and> st_Route (lo_state l) = None" and run: "create_tun env inp l w = (e, l', w')"
  have conf: "recedes v h h'" if "ConfigureTUN (ae_run env) n a p m h = (x, h')" for n a p m h x h'
    using that tbl_other [OF assms, of ifconfig_cmd _ h] dns_other [OF assms, of ifconfig_cmd _ h]
    by (auto simp: ConfigureTUN_def split: if_splits prod.splits option.splits intro!: recedesI)
  have conf6: "recedes v h h'" if "ConfigureTUNIPv6 (ae_run env) n a p h = (x, h')" for n a p h x h'
    using that tbl_other [OF assms, of ifconfig_cmd _ h] dns_other [OF assms, of ifconfig_cmd _ h]
    by (auto simp: ConfigureTUNIPv6_def split: if_splits prod.splits option.splits intro!: recedesI)
  have shut: "recedes v h (snd (ae_close env h))" for h
    using contractD(6,7) [OF assms] by (simp add: recedesI)
  have "\<exists>h'. recedes v (w_host w) h' \<and> w' = w\<lparr>w_host := h'\<rparr> \<and> lo_state l' = lo_state l \<and>
      (e = None \<longrightarrow> in_device inp = Inr (device_name l'))"
  proof (cases "in_device inp")
    case (Inl x)
    then show ?thesis using run by (auto simp: create_tun_def intro!: exI [of _ "w_host w"])
  next
    case (Inr n)
    let ?t = "in_tun inp"
    obtain e1 h1 where c4: "ConfigureTUN (ae_run env) n (Address ?t) (Peer ?t) (MTU ?t) (w_host w) = (e1, h1)"
      by (metis prod.collapse)
    let ?a6 = "if in_ipv6 inp then IPv6Address ?t else NoAddr" and ?p6 = "if in_ipv6 inp then IPv6Peer ?t else NoAddr"
    obtain e2 h2 where c6: "ConfigureTUNIPv6 (ae_run env) n ?a6 ?p6 h1 = (e2, h2)"
      by (metis prod.collapse)
    note r1 = conf [OF c4] and r2 = recedes_trans [OF conf [OF c4] conf6 [OF c6]]
    have "w' \<in> {w\<lparr>w_host := h1\<rparr>, w\<lparr>w_host := h2\<rparr>, w\<lparr>w_host := snd (ae_close env h1)\<rparr>, w\<lparr>w_host := snd (ae_close env h2)\<rparr>}
        \<and> lo_state l' = lo_state l \<and> (e = None \<longrightarrow> device_name l' = n)"
      using run Inr c4 c6
      by (auto simp: create_tun_def on_host_def Let_def device_name_def split: option.splits prod.splits if_splits)
    then show ?thesis
      using r1 r2 recedes_trans [OF r1 shut] recedes_trans [OF r2 shut] Inr by auto
  qed
  then show "watched env v (lo_state l') w' \<and> (e = None \<longrightarrow> named inp l')"
    using recedes_watched pre by (auto simp: named_def)
qed

lemma keeps_record_tun:
  assumes "contract env v"
  shows "keeps env v (named inp) (record_tun env) (named inp)"
proof (rule keepsI)
  fix l :: "'z host_vars_scheme" and w e and l' :: "'z host_vars_scheme" and w'
  assume pre: "watched env v (lo_state l) w" "named inp l" and run: "record_tun env l w = (e, l', w')"
  have "keeps env v (named inp) (record_state env (\<lambda>s. s\<lparr>st_TUNName := device_name l\<rparr>)) (named inp)"
    by (rule keeps_record_state [OF assms])
       (auto simp: records_def named_def covers_def recorded_routes_def device_name_def)
  from keepsD [OF this pre] run show "watched env v (lo_state l') w' \<and> (e = None \<longrightarrow> named inp l')"
    by (simp add: record_tun_def)
qed

lemma keeps_service_routes:
  assumes "contract env v" and "in_device inp = Inr name" and "planned_routes inp \<subseteq> vw_routes v"
  shows "keeps env v (named inp) (installServiceRoutes env inp name) no_dns"
proof -
  let ?r4 = "fake_route (in_prefix inp) name" and ?r6 = "fake_route (in_prefix6 inp) name"
  have rs: "?r4 \<in> vw_routes v" "?r6 \<in> vw_routes v" "set (in_capture inp name) \<subseteq> vw_routes v"
    using assms(2,3) by (auto simp: planned_routes_def)
  have "keeps env v (named inp) (install_route env (\<lambda>s. s\<lparr>st_Route := Some ?r4\<rparr>) ?r4) no_dns"
    by (rule keeps_install_route [OF assms(1) rs(1)])
       (use rs(1) in \<open>auto simp: records_def named_def covers_def recorded_routes_def\<close>)
  moreover have "keeps env v no_dns (if in_ipv6 inp then install_route env (append_route ?r6) ?r6 else outcome None) no_dns"
    by (rule keeps_if [OF keeps_append_route [OF assms(1) rs(2)] keeps_outcome])
  moreover have "keeps env v no_dns (and_then (install_routes env (in_capture inp name)) (outcome (in_replan inp))) no_dns"
    by (rule keeps_and_then [OF keeps_install_routes [OF assms(1) rs(3)] keeps_outcome])
  ultimately show ?thesis
    unfolding installServiceRoutes_def Let_def by (blast intro: keeps_and_then)
qed

text \<open>An action that depends on the device's name.\<close>

lemma keeps_named:
  assumes "\<And>name. in_device inp = Inr name \<Longrightarrow> keeps env v (named inp) (f name) Q"
  shows "keeps env v (named inp) (\<lambda>l. f (device_name l) l) Q"
proof (rule keepsI)
  fix l w e l' w'
  assume pre: "watched env v (lo_state l) w" "named inp l" and run: "f (device_name l) l w = (e, l', w')"
  have "in_device inp = Inr (device_name l)" using pre(2) by (simp add: named_def)
  from keepsD [OF assms [OF this] pre run] show "watched env v (lo_state l') w' \<and> (e = None \<longrightarrow> Q l')" .
qed

lemma keeps_start_routes:
  assumes "contract env v" and "planned_routes inp \<subseteq> vw_routes v"
  shows "keeps env v (named inp) (start_routes env inp) no_dns"
proof -
  have "keeps env v (named inp)
      (\<lambda>l. and_then (record_tun env) (installServiceRoutes env inp (device_name l)) l) no_dns"
    by (rule keeps_named)
       (intro keeps_and_then [OF keeps_record_tun [OF assms(1)] keeps_service_routes [OF assms(1) _ assms(2)]])
  then show ?thesis unfolding start_routes_def .
qed

lemma ApplyDNS_spec:
  assumes "contract env v" and "plain_addr a" and "PlanDNS states a = Inr planned"
    and "dns_recorded (vw_dns0 v) (vw_dns v h) planned" and "ApplyDNS (ae_run env) planned a h = (r, h')"
  shows "dns_recorded (vw_dns0 v) (vw_dns v h') planned" "vw_tbl v h' = vw_tbl v h"
proof -
  have l: "apply_loop (ae_run env) planned h = (r, h')"
    using assms(5) PlanDNS_again [OF assms(3)] by (simp add: ApplyDNS_def)
  have "\<forall>st \<in> set planned. Applied st = [addr_string a]" using assms(3) by (auto simp: PlanDNS_Inr)
  then show "dns_recorded (vw_dns0 v) (vw_dns v h') planned"
    by (rule apply_loop_recorded [OF contractD(1) [OF assms(1)] assms(2) _ order_refl assms(4) l])
  show "vw_tbl v h' = vw_tbl v h" by (rule apply_loop_tbl [OF assms(1) l])
qed

text \<open>The DNS settings are changed only after the record on disk names what they were.\<close>

lemma keeps_manage_dns:
  assumes "contract env v" and "plain_addr (in_listen inp)"
  shows "keeps env v no_dns (manage_dns env inp) (\<lambda>_. True)"
proof (rule keepsI)
  fix l w e l' w'
  assume pre: "watched env v (lo_state l) w" "no_dns l" and run: "manage_dns env inp l w = (e, l', w')"
  have dns0: "vw_dns v (w_host w) = vw_dns0 v" using pre by (simp add: watched_def covers_def)
  with contractD(4) [OF assms(1)] have plain: "plain_dns (vw_dns v (w_host w))" by simp
  obtain r h1 where snap: "SnapshotDNS (ae_run env) (in_ifs inp) (in_listen inp) (w_host w) = (r, h1)"
    by (metis prod.collapse)
  note spec = SnapshotDNS_spec [OF contractD(1) [OF assms(1)] plain snap]
  let ?w1 = "w\<lparr>w_host := h1\<rparr>"
  have w1: "watched env v (lo_state l) ?w1"
    using recedes_watched [OF recedesI pre(1)] spec(1) SnapshotDNS_tbl [OF assms(1) snap] by simp
  show "watched env v (lo_state l') w' \<and> (e = None \<longrightarrow> True)"
  proof (cases "\<exists>states planned. r = Inr states \<and> PlanDNS states (in_listen inp) = Inr planned")
    case False
    then have "w' = ?w1" "l' = l"
      using run snap by (auto simp: manage_dns_def on_host_def split: sum.splits)
    then show ?thesis using w1 by simp
  next
    case True
    then obtain states planned where r: "r = Inr states" and plan: "PlanDNS states (in_listen inp) = Inr planned" by auto
    let ?s = "(lo_state l)\<lparr>st_DNS := planned, st_Phase := ''dns-planned''\<rparr>"
    have d: "distinct (map Service states)"
      using SnapshotDNS_distinct [OF contractD(2) [OF assms(1)]] snap r by blast
    have prev: "\<forall>st \<in> set states. Previous st = map addr_string (vw_dns0 v (Service st))"
      using spec(2) r dns0 by simp
    have rec: "dns_recorded (vw_dns0 v) (vw_dns v h1) planned"
      using plan_recorded [OF contractD(4) [OF assms(1)] d prev plan] spec(1) dns0 by simp
    then have c: "covers v ?s (w_host ?w1)"
      using w1 by (simp add: watched_def covers_def recorded_routes_def)
    obtain e1 w2 where s: "save env ?s ?w1 = (e1, w2)" by (metis prod.collapse)
    note saved = save_spec [OF assms(1) w1 c s]
    obtain x h3 where app: "ApplyDNS (ae_run env) planned (in_listen inp) h1 = (x, h3)" by (metis prod.collapse)
    have "covers v ?s h3"
      using ApplyDNS_spec [OF assms plan rec app] c by (simp add: covers_def recorded_routes_def)
    then have "watched env v ?s (w2\<lparr>w_host := h3\<rparr>)" if "e1 = None"
      using saved(3) [OF that] by (auto simp: watched_def on_record_def)
    moreover have "lo_state l' = ?s \<and> (w' = w2 \<or> e1 = None \<and> w' = w2\<lparr>w_host := h3\<rparr>)"
      using run snap r plan s app saved(1)
      by (auto simp: manage_dns_def on_host_def and_then_def record_state_def host_act_def Let_def
          split: option.splits prod.splits)
    ultimately show ?thesis using saved(2) by auto
  qed
qed

lemma keeps_managed_dns:
  assumes "contract env v" and "plain_addr (in_listen inp)"
  shows "keeps env v no_dns (if in_manage inp then manage_dns env inp else outcome None) (\<lambda>_. True)"
  by (intro keeps_if keeps_manage_dns [OF assms]) (rule keeps_weaken [OF keeps_outcome], auto)

lemma keeps_locals:
  assumes "\<And>l. P l \<Longrightarrow> Q (f l)" and "\<And>l. lo_state (f l) = lo_state l"
  shows "keeps env v P (\<lambda>l w. (e, f l, w)) Q"
  by (rule keepsI) (use assms in auto)

lemma keeps_start:
  assumes "contract env v" and "plain_addr (in_listen inp)" and "planned_routes inp \<subseteq> vw_routes v"
  shows "keeps env v (\<lambda>l. no_dns l \<and> st_Route (lo_state l) = None) (start env inp) (\<lambda>_. True)"
proof -
  have "keeps env v no_dns (start_dns env inp) (\<lambda>_. True)"
    using keeps_managed_dns [OF assms(1,2)] unfolding start_dns_def
    by (intro keeps_and_then [OF keeps_outcome] keeps_and_then [OF keeps_locals [of no_dns no_dns]]) auto
  moreover have "keeps env v (\<lambda>_. True) (record_state env (\<lambda>s. s\<lparr>st_StatusSocket := p, st_Phase := q\<rparr>)) (\<lambda>_. True)" for p q
    by (rule keeps_record_state [OF assms(1)]) (auto simp: records_def covers_def recorded_routes_def)
  then have "keeps env v (\<lambda>_. True) (start_status env inp) (\<lambda>_. True)"
    unfolding start_status_def
    by (intro keeps_and_then [OF keeps_locals [of "\<lambda>_. True" "\<lambda>_. True"]] keeps_and_then [OF _ keeps_outcome]) auto
  ultimately show ?thesis
    unfolding start_def
    by (intro keeps_and_then [OF keeps_create_tun [OF assms(1)]] keeps_and_then [OF keeps_start_routes [OF assms(1,3)]]
        keeps_and_then)
qed


section \<open>Reloading and stopping\<close>

lemma reload_spec:
  assumes "contract env v" and "watched env v s w" and "reloadRuntime env q s w = (e, s', w')"
  shows "watched env v s' w'"
proof -
  let ?s1 = "s\<lparr>st_ConfigDigest := rq_digest q\<rparr>"
  obtain e1 w1 where a: "save env ?s1 w = (e1, w1)" by (metis prod.collapse)
  obtain e2 w2 where b: "save env s w1 = (e2, w2)" by (metis prod.collapse)
  have c: "covers v ?s1 (w_host w)" "covers v s (w_host w)"
    using assms(2) by (auto simp: watched_def covers_def recorded_routes_def)
  note one = save_spec [OF assms(1,2) c(1) a]
  have two: "watched env v s w1" using one c(2) by (simp add: watched_def)
  note three = save_spec [OF assms(1) two _ b]
  have "(s', w') \<in> {(s, w), (s, w1), (s, w2), (?s1, w1)}"
    using assms(3) a b by (auto simp: reloadRuntime_def Let_def split: option.splits)
  then show ?thesis using assms(2) one(2) two three(2) by (auto simp: watched_def)
qed

lemma serve_reloads_spec:
  assumes "contract env v"
  shows "watched env v s w \<Longrightarrow> serve_reloads env qs s w = (s', w') \<Longrightarrow> watched env v s' w'"
proof (induction qs arbitrary: s w)
  case (Cons q qs)
  obtain e s1 w1 where r: "reloadRuntime env q s w = (e, s1, w1)" by (metis prod_cases3)
  from reload_spec [OF assms Cons.prems(1) r] Cons.prems(2) r show ?case by (auto intro: Cons.IH)
qed simp

lemma remove_route_step:
  assumes "contract env v" and "watched env v s w" and "r \<in> recorded_routes s"
    and "on_host (RemoveRoute (ae_run env) r) w = (e, w')"
  shows "watched env v s w'" "e = None \<Longrightarrow> r \<notin> vw_tbl v (w_host w')"
proof -
  obtain h' where rem: "RemoveRoute (ae_run env) r (w_host w) = (e, h')" "w' = w\<lparr>w_host := h'\<rparr>"
    using assms(4) by (auto simp: on_host_def split: prod.splits)
  have "r \<in> vw_routes v" using assms(2,3) by (auto simp: watched_def covers_def)
  from RemoveRoute_spec [OF assms(1) this rem(1)] rem(2) assms(2)
  show "watched env v s w'" "e = None \<Longrightarrow> r \<notin> vw_tbl v (w_host w')"
    using recedes_watched by auto
qed

lemma remove_routes_loop_spec:
  assumes "contract env v"
  shows "watched env v s w \<Longrightarrow> st_Routes s = rev todo @ kept \<Longrightarrow>
    remove_routes_loop env todo kept s w = (failures, s', w') \<Longrightarrow>
    watched env v s' w' \<and> st_DNS s' = st_DNS s \<and> st_Route s' = st_Route s \<and>
    (failures = [] \<longrightarrow> st_Routes s' = kept)"
proof (induction todo arbitrary: kept s w failures s' w')
  case (Cons r todo)
  obtain e w1 where rem: "on_host (RemoveRoute (ae_run env) r) w = (e, w1)" by (metis prod.collapse)
  have "r \<in> recorded_routes s" using Cons.prems(2) by (simp add: recorded_routes_def)
  note step = remove_route_step [OF assms Cons.prems(1) this rem]
  show ?case
  proof (cases e)
    case (Some x)
    obtain fs s2 w2 where rest: "remove_routes_loop env todo (r # kept) s w1 = (fs, s2, w2)" by (metis prod_cases3)
    have "failures \<noteq> []" "s2 = s'" "w2 = w'" using Cons.prems(3) rem Some rest by auto
    then show ?thesis using Cons.IH [OF step(1) _ rest] Cons.prems(2) by simp
  next
    case None
    let ?s1 = "s\<lparr>st_Routes := rev todo @ kept\<rparr>"
    obtain e2 w2 where sv: "save env ?s1 w1 = (e2, w2)" by (metis prod.collapse)
    have "covers v ?s1 (w_host w1)"
      using step(1) step(2) [OF None] Cons.prems(2) by (auto simp: watched_def covers_def recorded_routes_def)
    note saved = save_spec [OF assms step(1) this sv]
    obtain fs s3 w3 where rest: "remove_routes_loop env todo kept ?s1 w2 = (fs, s3, w3)" by (metis prod_cases3)
    have "failures = errs e2 @ fs" "s3 = s'" "w3 = w'" using Cons.prems(3) rem None sv rest by (auto simp: Let_def)
    then show ?thesis using Cons.IH [OF saved(2) _ rest] by simp
  qed
qed simp

lemma removeRecordedRoutes_spec:
  assumes "contract env v" and "watched env v s w" and "removeRecordedRoutes env s w = (e, s', w')"
  shows "watched env v s' w' \<and> st_DNS s' = st_DNS s \<and> (e = None \<longrightarrow> st_Route s' = None \<and> st_Routes s' = [])"
proof -
  obtain fs s1 w1 where loop: "remove_routes_loop env (rev (st_Routes s)) [] s w = (fs, s1, w1)" by (metis prod_cases3)
  have one: "watched env v s1 w1" "st_DNS s1 = st_DNS s" "fs = [] \<longrightarrow> st_Routes s1 = []"
    using remove_routes_loop_spec [OF assms(1,2) _ loop] by simp_all
  show ?thesis
  proof (cases "st_Route s1")
    case None
    then show ?thesis using assms(3) loop one by (auto simp: removeRecordedRoutes_def)
  next
    case (Some r)
    obtain e2 w2 where rem: "on_host (RemoveRoute (ae_run env) r) w1 = (e2, w2)" by (metis prod.collapse)
    have "r \<in> recorded_routes s1" using Some by (simp add: recorded_routes_def)
    note step = remove_route_step [OF assms(1) one(1) this rem]
    let ?s2 = "s1\<lparr>st_Route := None\<rparr>"
    obtain e3 w3 where sv: "save env ?s2 w2 = (e3, w3)" by (metis prod.collapse)
    show ?thesis
    proof (cases e2)
      case None
      have "covers v ?s2 (w_host w2)"
        using step(1) step(2) [OF None] Some by (auto simp: watched_def covers_def recorded_routes_def)
      from save_spec(2) [OF assms(1) step(1) this sv] one(2,3)
      show ?thesis using assms(3) loop Some rem None sv
        by (auto simp: removeRecordedRoutes_def Let_def errs_def split: option.splits)
    next
      case (Some x)
      then show ?thesis
        using assms(3) loop \<open>st_Route s1 = Some r\<close> rem step(1) one(2)
        by (auto simp: removeRecordedRoutes_def join_errors_def)
    qed
  qed
qed

lemma finish_record_spec:
  assumes "contract env v" and "watched env v (lo_state l) w" and "finish_record env sp l w = (es, s', w')"
  shows "watched env v s' w'"
proof -
  let ?s = "lo_state l"
  let ?sA = "?s\<lparr>st_StatusSocket := []\<rparr>"
  obtain eA wA where a: "save env ?sA w = (eA, wA)" by (metis prod.collapse)
  have "covers v ?sA (w_host w)" using assms(2) by (simp add: watched_def covers_def recorded_routes_def)
  note A = save_spec [OF assms(1,2) this a]
  define s1 w1 where "s1 = (if lo_status l then ?sA else ?s)" and "w1 = (if lo_status l then wA else w)"
  have w1: "watched env v s1 w1" using A(2) assms(2) by (simp add: s1_def w1_def)
  let ?s2 = "s1\<lparr>st_Phase := ''stopping''\<rparr>"
  obtain eB wB where b: "save env ?s2 w1 = (eB, wB)" by (metis prod.collapse)
  have "covers v ?s2 (w_host w1)" using w1 by (simp add: watched_def covers_def recorded_routes_def)
  from save_spec(2) [OF assms(1) w1 this b] show ?thesis
    using assms(3) a b
    by (auto simp: finish_record_def Let_def s1_def w1_def split: if_splits prod.splits)
qed

lemma finish_dns_spec:
  assumes "contract env v" and "watched env v s w" and "finish_dns env s w = (es, s', w')"
  shows "watched env v s' w' \<and> (es = [] \<longrightarrow> st_DNS s' = [])"
proof (cases "st_DNS s = []")
  case True
  then show ?thesis using assms(2,3) by (auto simp: finish_dns_def)
next
  case False
  obtain remaining e h1 where r: "RestoreDNS (ae_run env) (st_DNS s) (w_host w) = ((remaining, e), h1)"
    by (metis prod.collapse)
  have d: "dns_recorded (vw_dns0 v) (vw_dns v (w_host w)) (st_DNS s)" using assms(2) by (simp add: watched_def covers_def)
  note rest = RestoreDNS_spec [OF assms(1) d r]
  let ?w1 = "w\<lparr>w_host := h1\<rparr>" and ?s1 = "s\<lparr>st_DNS := remaining\<rparr>"
  have w1: "watched env v s ?w1" by (rule recedes_watched [OF rest(1) assms(2)])
  then have "covers v ?s1 (w_host ?w1)" using rest(2) by (simp add: watched_def covers_def recorded_routes_def)
  moreover obtain e2 w2 where sv: "save env ?s1 ?w1 = (e2, w2)" by (metis prod.collapse)
  ultimately have "watched env v ?s1 w2" using save_spec(2) [OF assms(1) w1] by blast
  then show ?thesis
    using assms(3) False r sv rest(3)
    by (auto simp: finish_dns_def on_host_def Let_def errs_def split: option.splits)
qed

lemma finish_routes_spec:
  assumes "contract env v" and "watched env v s w" and "finish_routes env s w = (es, s', w')"
  shows "watched env v s' w' \<and> st_DNS s' = st_DNS s \<and> (es = [] \<longrightarrow> st_Route s' = None \<and> st_Routes s' = [])"
proof -
  obtain e s1 w1 where r: "removeRecordedRoutes env s w = (e, s1, w1)" by (metis prod_cases3)
  show ?thesis
    using assms(2,3) r removeRecordedRoutes_spec [OF assms(1,2) r]
    by (auto simp: finish_routes_def errs_def split: if_splits option.splits)
qed

lemma finish_spec:
  assumes "contract env v" and "watched env v (lo_state l) w" and "finish env sp primary l w = (e, w')"
  shows "on_record env v (w_file w') (w_host w') \<and> (e = None \<longrightarrow> undone v (w_host w') \<and> w_file w' = Missing)"
proof -
  obtain e1 s1 w1 where a: "finish_record env sp l w = (e1, s1, w1)" by (metis prod_cases3)
  note A = finish_record_spec [OF assms(1,2) a]
  obtain e2 s2 w2 where b: "finish_dns env s1 w1 = (e2, s2, w2)" by (metis prod_cases3)
  note B = finish_dns_spec [OF assms(1) A b]
  obtain e4 s3 w3 where c: "finish_routes env s2 w2 = (e4, s3, w3)" by (metis prod_cases3)
  note C = finish_routes_spec [OF assms(1) conjunct1 [OF B] c]
  obtain e5 w4 where d: "(if lo_device l = None then (None, w3) else on_host (ae_close env) w3) = (e5, w4)"
    by (metis prod.collapse)
  have "recedes v (w_host w3) (snd (ae_close env (w_host w3)))"
    using contractD(6,7) [OF assms(1)] by (simp add: recedesI)
  from recedes_watched [OF this conjunct1 [OF C]] conjunct1 [OF C] d
  have D: "watched env v s3 w4" by (auto simp: on_host_def split: if_splits prod.splits)
  define failures where "failures = e1 @ e2 @ (if lo_dns l then errs (sp_dns sp) else []) @ e4 @ errs e5 @ sp_pumps sp @ errs (sp_lock sp)"
  have fin: "(e, w') = (let (e6, w5) = (if failures = [] then discard env w4 else (join_errors failures, w4))
        in (join_errors (errs primary @ errs e6), w5))"
    using assms(3) [symmetric] by (simp only: finish_def Let_def a b c d prod.case failures_def)
  show ?thesis
  proof (cases "failures = []")
    case True
    then have "st_DNS s3 = []" "st_Route s3 = None" "st_Routes s3 = []"
      using B C by (auto simp: failures_def)
    then have u: "undone v (w_host w4)" using D covers_empty by (auto simp: watched_def)
    obtain e6 w5 where f: "discard env w4 = (e6, w5)" by (metis prod.collapse)
    have "on_record env v (w_file w4) (w_host w4)" using D by (simp add: watched_def)
    from discard_spec [OF this u f] u fin f True show ?thesis
      by (auto simp: errs_def split: option.splits)
  next
    case False
    then show ?thesis using fin D by (auto simp: watched_def errs_def join_errors_def split: option.splits)
  qed
qed

text \<open>After a run, however far it got and whatever failed, the host is on record; if it reports no error, nothing is left.\<close>

lemma Run_spec:
  assumes "contract env v" and "plain_addr (in_listen inp)" and "planned_routes inp \<subseteq> vw_routes v"
    and "w_file w = Missing" and "undone v (w_host w)"
    and "Run env inp locked reloads primary sp pid now digest lock w = (e, w')"
  shows "on_record env v (w_file w') (w_host w') \<and> (e = None \<longrightarrow> undone v (w_host w') \<and> w_file w' = Missing)"
proof -
  let ?s = "first_state pid now digest lock"
  let ?l = "\<lparr>lo_state = ?s, lo_device = None, lo_dns = False, lo_status = False\<rparr>"
  have c: "covers v ?s (w_host w)"
    using assms(5) by (simp add: covers_def undone_def recorded_routes_def first_state_def NewState_def)
  have w0: "watched env v ?s w" using c assms(4,5) by (simp add: watched_def on_record_def)
  obtain e1 w1 where a: "save env ?s w = (e1, w1)" by (metis prod.collapse)
  note A = save_spec [OF assms(1) w0 c a]
  obtain e2 l w2 where b: "start env inp ?l w1 = (e2, l, w2)" by (metis prod_cases3)
  have B: "watched env v (lo_state l) w2"
    using keepsD [OF keeps_start [OF assms(1-3)], of ?l w1] A(2) b by (simp add: first_state_def NewState_def)
  obtain s3 w3 where r: "serve_reloads env reloads (lo_state l) w2 = (s3, w3)" by (metis prod.collapse)
  have R: "watched env v (lo_state (l\<lparr>lo_state := s3\<rparr>)) w3" using serve_reloads_spec [OF assms(1) B r] by simp
  consider (early) "(e, w') = (Some (Refused ''config digest is required''), w)" | (locked) "w' = w" "e \<noteq> None"
    | (unsaved) "e \<noteq> None" "w' = w1" | (failed) x where "finish env sp (Some x) l w2 = (e, w')"
    | (ran) "finish env sp primary (l\<lparr>lo_state := s3\<rparr>) w3 = (e, w')"
    using assms(4,6) a b r
    by (auto simp: Run_def run_host_def split: if_splits option.splits)
  then show ?thesis
  proof cases
    case early
    then show ?thesis using w0 by (simp add: watched_def)
  next
    case locked
    then show ?thesis using w0 by (auto simp: watched_def)
  next
    case unsaved
    then show ?thesis using A(2) by (auto simp: watched_def)
  next
    case failed
    then show ?thesis using finish_spec [OF assms(1) B] by blast
  next
    case ran
    then show ?thesis using finish_spec [OF assms(1) R] by blast
  qed
qed


section \<open>Crash recovery\<close>

lemma cleanup_routes_spec:
  assumes "contract env v" and "watched env v s w" and "st_DNS s = []" and "cleanup_routes env ci s w = (e, w')"
  shows "on_record env v (w_file w') (w_host w') \<and> (e = None \<longrightarrow> undone v (w_host w') \<and> w_file w' = Missing)"
proof -
  obtain e1 s1 w1 where r: "removeRecordedRoutes env s w = (e1, s1, w1)" by (metis prod_cases3)
  note R = removeRecordedRoutes_spec [OF assms(1,2) r]
  obtain e2 w2 where d: "discard env w1 = (e2, w2)" by (metis prod.collapse)
  have rec: "on_record env v (w_file w1) (w_host w1)" using R by (simp add: watched_def)
  show ?thesis
  proof (cases "e1 = None \<and> \<not> (st_TUNName s1 \<noteq> [] \<and> cl_tun ci) \<and> cl_unlock ci = None")
    case True
    then have u: "undone v (w_host w1)" using R assms(3) covers_empty by (auto simp: watched_def)
    have "(e, w') = (e2, w2)" using assms(4) r d True by (auto simp: cleanup_routes_def)
    then show ?thesis using discard_spec [OF rec u d] u by auto
  next
    case False
    then have "w' = w1" "e \<noteq> None"
      using assms(4) r by (auto simp: cleanup_routes_def split: option.splits if_splits)
    then show ?thesis using rec by auto
  qed
qed

lemma cleanup_steps_spec:
  assumes "contract env v" and "watched env v s0 w" and "cleanup_steps env ci s0 w = (e, w')"
  shows "on_record env v (w_file w') (w_host w') \<and> (e = None \<longrightarrow> undone v (w_host w') \<and> w_file w' = Missing)"
proof -
  let ?s1 = "s0\<lparr>st_Phase := ''cleaning''\<rparr>"
  let ?s2 = "?s1\<lparr>st_StatusSocket := []\<rparr>"
  obtain e1 w1 where a: "save env ?s1 w = (e1, w1)" by (metis prod.collapse)
  have c1: "covers v ?s1 (w_host w)" using assms(2) by (simp add: watched_def covers_def recorded_routes_def)
  note A = save_spec [OF assms(1,2) c1 a]
  obtain e2 w2 where b: "save env ?s2 w1 = (e2, w2)" by (metis prod.collapse)
  have c2: "covers v ?s2 (w_host w1)" using A(2) by (simp add: watched_def covers_def recorded_routes_def)
  note B = save_spec [OF assms(1) A(2) c2 b]
  obtain remaining d h3 where r: "RestoreDNS (ae_run env) (st_DNS ?s2) (w_host w2) = ((remaining, d), h3)"
    by (metis prod.collapse)
  have dr: "dns_recorded (vw_dns0 v) (vw_dns v (w_host w2)) (st_DNS ?s2)" using B(2) by (simp add: watched_def covers_def)
  note R = RestoreDNS_spec [OF assms(1) dr r]
  let ?w3 = "w2\<lparr>w_host := h3\<rparr>" and ?s3 = "?s2\<lparr>st_DNS := remaining\<rparr>"
  have w3: "watched env v ?s2 ?w3" by (rule recedes_watched [OF R(1) B(2)])
  then have c3: "covers v ?s3 (w_host ?w3)" using R(2) by (simp add: watched_def covers_def recorded_routes_def)
  obtain e4 w4 where c: "save env ?s3 ?w3 = (e4, w4)" by (metis prod.collapse)
  note C = save_spec [OF assms(1) w3 c3 c]
  consider (saved1) "w' = w1" "e \<noteq> None" | (saved2) "w' = w2" "e \<noteq> None" | (saved3) "w' = w4" "e \<noteq> None"
    | (routes) "d = None" "cleanup_routes env ci ?s3 w4 = (e, w')"
    using assms(3) a b c r
    by (auto simp: cleanup_steps_def on_host_def Let_def join_errors_def split: option.splits)
  then show ?thesis
  proof cases
    case routes
    then show ?thesis using cleanup_routes_spec [OF assms(1) C(2)] R(3) by simp
  qed (use A(2) B(2) C(2) in \<open>auto simp: watched_def\<close>)
qed

lemma Cleanup_spec:
  assumes "contract env v" and "on_record env v (w_file w) (w_host w)"
    and "CleanupWithStatusOwners env ci lock w = (e, w')"
  shows "on_record env v (w_file w') (w_host w') \<and> (e = None \<longrightarrow> undone v (w_host w') \<and> w_file w' = Missing)"
proof (cases "cl_root ci = None \<and> (\<exists>s. ReadState (ae_euid env) (ae_codec env) (ae_open env) (w_file w) = Inr s)")
  case True
  then obtain s where s: "ReadState (ae_euid env) (ae_codec env) (ae_open env) (w_file w) = Inr s" by auto
  then have "holds_state env (w_file w) s"
    by (auto simp: ReadState_def holds_state_def split: disk_file.splits if_splits option.splits)
  then have w: "watched env v s w" using assms(2) by (auto simp: watched_def on_record_def holds_state_def)
  have "w' = w \<and> e \<noteq> None \<or> cleanup_steps env ci s w = (e, w')"
    using assms(3) True s by (auto simp: CleanupWithStatusOwners_def split: option.splits if_splits dest: sym)
  then show ?thesis using assms(2) cleanup_steps_spec [OF assms(1) w] by blast
next
  case False
  have missing: "w_file w = Missing"
    if "ReadState (ae_euid env) (ae_codec env) (ae_open env) (w_file w) = Inl x" "sys_is ErrNotExist x" for x
  proof -
    have "\<not> sys_is ErrNotExist y" if "validateState s = Some y" for s y
      using that by (auto simp: validateState_def split: if_splits)
    then show ?thesis using that
      by (auto simp: ReadState_def split: disk_file.splits if_splits option.splits)
  qed
  have "w' = w" "e = None \<longrightarrow> w_file w = Missing"
    using assms(3) False missing by (auto simp: CleanupWithStatusOwners_def split: option.splits sum.splits if_splits)
  then show ?thesis using assms(2) by (auto simp: on_record_def holds_state_def)
qed

end
