(* ===== verification/App_Properties.thy ===== *)
theory App_Properties
  imports App_Recovery Fakeip_Persistence_Properties
begin

text \<open>
  The host survives the program: whenever a run stops or dies, the crash recovery finds on disk what it
  needs, and when it reports success the settings of the host are those from before the run.
\<close>

section \<open>Recovery\<close>

text \<open>One more attempt to clean up, with its own outcomes of the writes.\<close>

definition attempt ::
  "'h app_env \<Rightarrow> string \<Rightarrow> 'h world \<Rightarrow> cleanup_inputs \<times> (nat \<Rightarrow> write_io) \<Rightarrow> 'h world" where
  "attempt env lock w = (\<lambda>(ci, io). snd (CleanupWithStatusOwners env ci lock (w\<lparr>w_writes := io\<rparr>)))"

lemma attempts_on_record:
  assumes "contract env v"
  shows "on_record env v (w_file w) (w_host w) \<Longrightarrow>
    on_record env v (w_file (foldl (attempt env lock) w tries)) (w_host (foldl (attempt env lock) w tries))"
proof (induction tries arbitrary: w)
  case (Cons t ts)
  obtain ci io where t: "t = (ci, io)" by (cases t)
  obtain e w1 where c: "CleanupWithStatusOwners env ci lock (w\<lparr>w_writes := io\<rparr>) = (e, w1)" by (metis prod.collapse)
  have "on_record env v (w_file w1) (w_host w1)"
    using Cleanup_spec [OF assms _ c] Cons.prems by simp
  then show ?case using Cons.IH [of w1] t c by (simp add: attempt_def)
qed simp

text \<open>
  C2: The program never strands the host.  Start a run on a host without a recovery record and let any
  command and any write of the record fail, from some moment on all of them (the process is dead); then
  let the dead process' device disappear and any number of cleanup attempts fail in any way.  If the run
  itself reported success, or as soon as one cleanup reports success, the DNS servers of every service are
  those from before the run, no route the program added is left, and the recovery record is gone.
\<close>

theorem crash_recovery:
  assumes "contract env v" and "plain_addr (in_listen inp)" and "planned_routes inp \<subseteq> vw_routes v"
    and "w_file w = Missing" and "undone v (w_host w)"
    and "Run env inp locked reloads primary sp pid now digest lock w = (e, w1)"
    and "recedes v (w_host w1) h2"
    and "CleanupWithStatusOwners env ci lock' (foldl (attempt env lock') (w1\<lparr>w_host := h2\<rparr>) tries) = (e', w3)"
  shows "(e = None \<longrightarrow> undone v (w_host w1) \<and> w_file w1 = Missing) \<and>
         (e' = None \<longrightarrow> undone v (w_host w3) \<and> w_file w3 = Missing)"
proof -
  note run = Run_spec [OF assms(1-6)]
  have "on_record env v (w_file w1) h2" using recedes_on_record [OF assms(7)] run by blast
  then have "on_record env v (w_file (w1\<lparr>w_host := h2\<rparr>)) (w_host (w1\<lparr>w_host := h2\<rparr>))" by simp
  from attempts_on_record [OF assms(1) this] have
    "on_record env v (w_file (foldl (attempt env lock') (w1\<lparr>w_host := h2\<rparr>) tries))
       (w_host (foldl (attempt env lock') (w1\<lparr>w_host := h2\<rparr>) tries))" .
  from Cleanup_spec [OF assms(1) this assms(8)] run show ?thesis by blast
qed


section \<open>A host that dies\<close>

text \<open>
  The host of \<open>System_DNS_Properties\<close> with a routing table and a number of commands after which every
  command fails without effect.
\<close>

record mortal =
  mo_dns :: dns_host
  mo_tbl :: "route_state list"
  mo_left :: nat

definition mortal_route :: route_state where
  "mortal_route = fake_route (Pfx (V4 0xC6120000) 15) ''utun4''"

definition mortal_lookup :: "bool \<Rightarrow> string" where
  "mortal_lookup present =
     (if present then report_lines [''destination: 198.18.0.0'', ''mask: 255.254.0.0'', ''interface: utun4'']
      else report_lines [''destination: default'', ''mask: default'', ''interface: en0''])"

definition mortal_run :: "mortal runner" where
  "mortal_run exe args h =
     (if mo_left h = 0 then (([], Some ''signal: killed''), h)
      else
        (let h1 = h\<lparr>mo_left := mo_left h - 1\<rparr>
         in if exe = networkSetup
            then (case host_run exe args (mo_dns h) of (res, d) \<Rightarrow> (res, h1\<lparr>mo_dns := d\<rparr>))
            else if exe = route_cmd \<and> args = [''-n'', ''add'', ''-net'', ''198.18.0.0/15'', ''-interface'', ''utun4'']
            then (([], None), h1\<lparr>mo_tbl := mortal_route # mo_tbl h\<rparr>)
            else if exe = route_cmd \<and> args = [''-n'', ''delete'', ''-net'', ''198.18.0.0/15'', ''-interface'', ''utun4'']
            then (([], None), h1\<lparr>mo_tbl := filter (\<lambda>r. r \<noteq> mortal_route) (mo_tbl h)\<rparr>)
            else if exe = route_cmd then ((mortal_lookup (mortal_route \<in> set (mo_tbl h)), None), h1)
            else (([], None), h1)))"

text \<open>A codec of the record in the hexadecimal fields of \<open>Fakeip_Persistence_Properties\<close>.\<close>

definition int_text :: "int \<Rightarrow> string" where
  "int_text i = (if i < 0 then ''-'' @ dec_digits (nat (- i)) else dec_digits (nat i))"

definition text_int :: "string \<Rightarrow> int" where
  "text_int s = (if has_prefix s ''-'' then - int (digits_value (drop 1 s)) else int (digits_value s))"

definition route_fields :: "route_state \<Rightarrow> string" where
  "route_fields r = enc_fields [rt_Prefix r, rt_Interface r, rt_Gateway r, rt_Scope r]"

fun fields_route :: "string list \<Rightarrow> route_state" where
  "fields_route [p, i, g, s] = \<lparr>rt_Prefix = p, rt_Interface = i, rt_Gateway = g, rt_Scope = s\<rparr>"
| "fields_route _ = \<lparr>rt_Prefix = [], rt_Interface = [], rt_Gateway = [], rt_Scope = []\<rparr>"

definition dns_fields :: "dns_state \<Rightarrow> string" where
  "dns_fields d = enc_fields [Service d, enc_fields (Previous d), enc_fields (Applied d)]"

fun fields_dns :: "string list \<Rightarrow> dns_state" where
  "fields_dns [s, p, a] = \<lparr>Service = s, Previous = dec_fields p, Applied = dec_fields a\<rparr>"
| "fields_dns _ = \<lparr>Service = [], Previous = [], Applied = []\<rparr>"

fun fields_state :: "string list \<Rightarrow> sys_state option" where
  "fields_state [ver, pid, at, digest, phase, lock, tun, status, control, route, routes, dns] =
     Some \<lparr>st_Version = text_int ver, st_PID = text_int pid, st_StartedAt = text_int at, st_ConfigDigest = digest,
       st_Phase = phase, st_LockFile = lock, st_TUNName = tun, st_StatusSocket = status, st_ControlSocket = control,
       st_Route = (case dec_fields route of [] \<Rightarrow> None | r # _ \<Rightarrow> Some (fields_route (dec_fields r))),
       st_Routes = map (\<lambda>r. fields_route (dec_fields r)) (dec_fields routes),
       st_DNS = map (\<lambda>d. fields_dns (dec_fields d)) (dec_fields dns)\<rparr>"
| "fields_state _ = None"

definition hex_state :: state_codec where
  "hex_state =
     \<lparr>encState = (\<lambda>s. enc_fields [int_text (st_Version s), int_text (st_PID s), int_text (st_StartedAt s),
        st_ConfigDigest s, st_Phase s, st_LockFile s, st_TUNName s, st_StatusSocket s, st_ControlSocket s,
        enc_fields (case st_Route s of None \<Rightarrow> [] | Some r \<Rightarrow> [route_fields r]),
        enc_fields (map route_fields (st_Routes s)), enc_fields (map dns_fields (st_DNS s))]),
      decState = (\<lambda>c. fields_state (dec_fields c))\<rparr>"

lemma int_text_back: "text_int (int_text i) = i"
proof -
  have "\<not> has_prefix (dec_digits n) ''-''" for n
    using dec_digits_digit [of n] dec_digits_ne [of n]
    by (cases "dec_digits n") (auto simp: has_prefix_def is_digit_def)
  then show ?thesis by (auto simp: text_int_def int_text_def has_prefix_def digits_value_dec_digits)
qed

lemma hex_state_back: "decState hex_state (encState hex_state s) = Some s"
proof -
  have "fields_route (dec_fields (route_fields r)) = r" for r by (simp add: route_fields_def dec_enc_fields)
  moreover have "fields_dns (dec_fields (dns_fields d)) = d" for d by (simp add: dns_fields_def dec_enc_fields)
  ultimately show ?thesis
    by (cases "st_Route s") (simp_all add: hex_state_def dec_enc_fields int_text_back comp_def)
qed

definition mortal_env :: "mortal app_env" where
  "mortal_env =
     \<lparr>ae_run = mortal_run, ae_euid = 0, ae_codec = hex_state, ae_path = ''/var/run/tun.json'', ae_open = None,
      ae_remove = None, ae_close = (\<lambda>h. (None, h))\<rparr>"

definition mortal_view :: "mortal view" where
  "mortal_view =
     \<lparr>vw_dns = (\<lambda>h. host_dns (mo_dns h)), vw_tbl = (\<lambda>h. set (mo_tbl h)),
      vw_routes = {mortal_route, fake_route NoPrefix ''utun4''}, vw_dns0 = host_dns host0, vw_tbl0 = {}\<rparr>"

lemma mortal_networksetup: "networksetup_ok mortal_run (\<lambda>h. host_dns (mo_dns h))"
  unfolding networksetup_ok_def
proof (intro conjI allI impI)
  fix exe args and h :: mortal
  assume a: "\<forall>svc ss. exe = networkSetup \<longrightarrow> args \<noteq> set_args svc ss"
  have "host_dns (snd (host_run exe args (mo_dns h))) = host_dns (mo_dns h)"
    using dns_frame [OF host_run_ok, of exe args "mo_dns h"] a by (metis prod.collapse)
  then show "host_dns (mo_dns (snd (mortal_run exe args h))) = host_dns (mo_dns h)"
    by (auto simp: mortal_run_def Let_def split: prod.splits)
next
  fix svc and h :: mortal
  assume "snd (fst (mortal_run networkSetup [''-getdnsservers'', svc] h)) = None"
  then show "fst (fst (mortal_run networkSetup [''-getdnsservers'', svc] h)) = dns_report svc (host_dns (mo_dns h) svc)"
    by (auto simp: mortal_run_def host_run_def split: if_splits)
next
  fix svc ss and h :: mortal
  assume p: "list_all (\<lambda>s. parse_addr s \<noteq> None) ss"
  show "case mortal_run networkSetup (set_args svc ss) h of ((_, e), h') \<Rightarrow>
      (\<forall>s. s \<noteq> svc \<longrightarrow> host_dns (mo_dns h') s = host_dns (mo_dns h) s) \<and>
      (host_dns (mo_dns h') svc = servers_of ss \<or> e \<noteq> None \<and> host_dns (mo_dns h') svc = host_dns (mo_dns h) svc)"
    by (auto simp: mortal_run_def host_run_set [OF p] host_dns_def)
qed

lemma mortal_listing: "listing_ok mortal_run"
proof -
  have "distinct (map ns_Name (parseNetworkServiceOrder host_listing))"
    "distinct (map ns_Name (parseNetworkServiceOrder []))" by code_simp+
  then show ?thesis by (auto simp: listing_ok_def mortal_run_def host_run_def)
qed

lemma mortal_invalid: "\<not> valid_route (fake_route NoPrefix ''utun4'')"
  by code_simp

lemma mortal_args:
  "mutation_args ''add'' mortal_route = [''-n'', ''add'', ''-net'', ''198.18.0.0/15'', ''-interface'', ''utun4'']"
  "mutation_args ''delete'' mortal_route = [''-n'', ''delete'', ''-net'', ''198.18.0.0/15'', ''-interface'', ''utun4'']"
  "get_args mortal_route = [''-n'', ''get'', ''198.18.0.1'']"
  by code_simp+

lemma mortal_found: "parseRouteCommand (mortal_lookup True, None) =
    Inr \<lparr>Destination = ''198.18.0.0'', Mask = ''255.254.0.0'', Interface = ''utun4'', Gateway = []\<rparr>"
  by code_simp

lemma mortal_killed: "parseRouteCommand ([], Some ''signal: killed'') = Inl (CommandError ''signal: killed'')"
  by code_simp

lemma mortal_routes: "route_ok mortal_run (\<lambda>h. set (mo_tbl h)) {mortal_route, fake_route NoPrefix ''utun4''}"
proof -
  have ex: "\<not> str_contains ''signal: killed'' (''interface '' @ i @ '' does not exist'')" for i
    by (simp only: str_contains_def) (simp add: has_prefix_def)
  have valid: "valid_route mortal_route" by code_simp
  show ?thesis
    unfolding route_ok_def
    apply (intro conjI)
        apply (auto simp: mortal_run_def Let_def mortal_invalid valid mortal_args split: prod.splits)[1]
       apply (auto simp: mortal_run_def Let_def mortal_invalid valid mortal_args)[1]
      apply (auto simp: mortal_run_def Let_def mortal_invalid valid mortal_args)[1]
     apply (auto simp: mortal_run_def Let_def mortal_invalid mortal_args mortal_found mortal_killed
        defaultRouteLookup_def defaultRouteDestination_def)[1]
    apply (use ex in \<open>auto simp: mortal_run_def Let_def\<close>)
    done
qed

lemma mortal_contract: "contract mortal_env mortal_view"
  unfolding contract_def
  using mortal_networksetup mortal_listing mortal_routes hex_state_back host0_plain
  by (simp add: mortal_env_def mortal_view_def)

definition good_write :: write_io where
  "good_write = \<lparr>wr_create = None, wr_chmod = None, wr_encode = None, wr_sync = None, wr_close = None,
     wr_rename = None, wr_opendir = None, wr_dirsync = None\<rparr>"

text \<open>Seven commands and four writes: the process dies with one of the two services taken over.\<close>

definition mortal_io :: "nat \<Rightarrow> write_io" where
  "mortal_io n = (if n < 4 then good_write else good_write\<lparr>wr_create := Some ''killed''\<rparr>)"

definition mortal_world :: "mortal world" where
  "mortal_world =
     \<lparr>w_host = \<lparr>mo_dns = host0, mo_tbl = [], mo_left = 7\<rparr>, w_file = Missing,
      w_writes = mortal_io, w_count = 0\<rparr>"

definition mortal_inputs :: run_inputs where
  "mortal_inputs =
     \<lparr>in_device = Inr ''utun4'',
      in_tun = \<lparr>Address = V4 0x0A000001, Peer = V4 0x0A000002, IPv6Address = NoAddr, IPv6Peer = NoAddr, MTU = 1500,
        PacketQueue = 1, BufferPool = 1\<rparr>,
      in_ipv6 = False, in_prefix = Pfx (V4 0xC6120000) 15, in_prefix6 = NoPrefix, in_capture = (\<lambda>_. []),
      in_replan = None, in_pump = None, in_dns_start = None, in_dns_early = None, in_manage = True,
      in_listen = V4 0x7F000001, in_ifs = host_ifs, in_status = None, in_dns_late = None\<rparr>"

definition mortal_stop :: stop_inputs where
  "mortal_stop = \<lparr>sp_status = None, sp_flush = [], sp_dns = None, sp_pumps = [], sp_lock = None\<rparr>"

definition mortal_cleanup :: cleanup_inputs where
  "mortal_cleanup = \<lparr>cl_root = None, cl_claim = (\<lambda>_. Claimed), cl_probe = Gone, cl_status = None, cl_tun = False,
     cl_unlock = None\<rparr>"

abbreviation mortal_host :: "dns_host \<Rightarrow> route_state list \<Rightarrow> nat \<Rightarrow> mortal" where
  "mortal_host d t n \<equiv> \<lparr>mo_dns = d, mo_tbl = t, mo_left = n\<rparr>"

abbreviation mortal_loop :: addr where "mortal_loop \<equiv> V4 0x7F000001"

abbreviation host_taken :: dns_host where "host_taken \<equiv> (''Wi-Fi'', [mortal_loop]) # host0"

definition mortal_planned :: "dns_state list" where
  "mortal_planned =
     [\<lparr>Service = ''Wi-Fi'', Previous = [''8.8.8.8''], Applied = [''127.0.0.1'']\<rparr>,
      \<lparr>Service = ''Stuck'', Previous = [], Applied = [''127.0.0.1'']\<rparr>]"

definition mortal_states :: "dns_state list" where
  "mortal_states = map (\<lambda>st. st\<lparr>Applied := []\<rparr>) mortal_planned"

lemma mortal_tun:
  "ConfigureTUN mortal_run ''utun4'' (V4 0x0A000001) (V4 0x0A000002) 1500 (mortal_host host0 [] 7) = (None, mortal_host host0 [] 6)"
  by code_simp

lemma mortal_add: "AddRoute mortal_run mortal_route (mortal_host host0 [] 6) = (None, mortal_host host0 [mortal_route] 5)"
  by code_simp

lemma mortal_verify:
  "VerifyRoute mortal_run mortal_route (mortal_host host0 [mortal_route] 5) = (None, mortal_host host0 [mortal_route] 4)"
  by code_simp

lemma mortal_snapshot:
  "SnapshotDNS mortal_run host_ifs mortal_loop (mortal_host host0 [mortal_route] 4) =
     (Inr mortal_states, mortal_host host0 [mortal_route] 1)"
  by code_simp

lemma mortal_plan: "PlanDNS mortal_states mortal_loop = Inr mortal_planned"
  by code_simp

lemma mortal_apply:
  "\<exists>x e. ApplyDNS mortal_run mortal_planned mortal_loop (mortal_host host0 [mortal_route] 1) =
     ((x, Some e), mortal_host host_taken [mortal_route] 0)"
proof -
  have "snd (ApplyDNS mortal_run mortal_planned mortal_loop (mortal_host host0 [mortal_route] 1)) =
      mortal_host host_taken [mortal_route] 0"
    "snd (fst (ApplyDNS mortal_run mortal_planned mortal_loop (mortal_host host0 [mortal_route] 1))) \<noteq> None"
    by code_simp+
  then show ?thesis by (metis not_None_eq prod.collapse)
qed

lemma mortal_dead_dns:
  "mo_left h = 0 \<Longrightarrow> \<exists>e. RestoreDNS mortal_run mortal_planned h = ((mortal_planned, Some e), h)"
  by (simp add: RestoreDNS_def mortal_planned_def restore_one_def getDNS_def mortal_run_def join_errors_def)

lemma mortal_dead_route: "mo_left h = 0 \<Longrightarrow> \<exists>e. RemoveRoute mortal_run mortal_route h = (Some e, h)"
proof -
  have "is_ok (validateRouteState mortal_route)" by code_simp
  then obtain p g where "validateRouteState mortal_route = Inr (p, g)"
    by (cases "validateRouteState mortal_route") (auto simp: is_ok_def)
  then show "mo_left h = 0 \<Longrightarrow> ?thesis"
    by (simp add: RemoveRoute_def mortal_run_def mortal_killed)
qed

definition mortal_file :: "sys_state \<Rightarrow> disk_file" where
  "mortal_file s = File \<lparr>fs_regular = True, fs_perm = 384, fs_uid = 0\<rparr> (encState hex_state s)"

abbreviation mortal_at :: "mortal \<Rightarrow> disk_file \<Rightarrow> nat \<Rightarrow> mortal world" where
  "mortal_at h f n \<equiv> \<lparr>w_host = h, w_file = f, w_writes = mortal_io, w_count = n\<rparr>"

lemma mortal_path: "clean_absolute_path ''/var/run/tun.json''"
  by code_simp

lemma mortal_save:
  assumes "n < 4" and "validateState s = None"
  shows "save mortal_env s (mortal_at h Missing n) = (None, mortal_at h (mortal_file s) (Suc n))"
    "save mortal_env s (mortal_at h (mortal_file s') n) = (None, mortal_at h (mortal_file s) (Suc n))"
  using assms mortal_path
  by (auto simp: save_def WriteState_def mortal_env_def ensureSafeTarget_def io_error_def mortal_io_def
      good_write_def mortal_file_def)

lemma mortal_dead_save:
  assumes "4 \<le> n"
  shows "\<exists>e. save mortal_env s (mortal_at h f n) = (Some e, mortal_at h f (Suc n))"
proof -
  have "first_failure (x # y # Some z # zs) \<noteq> None" for x y z zs by (cases x; cases y) auto
  then obtain e where "first_failure (validateState s # ensureSafeTarget ''/var/run/tun.json'' f #
      Some (Caused ''create temporary state file'' (Refused ''killed'')) # [None, None, None, None, None]) = Some e"
    by blast
  then show ?thesis
    using assms by (simp add: save_def WriteState_def mortal_env_def io_error_def mortal_io_def good_write_def)
qed

definition mortal_first :: sys_state where
  "mortal_first = first_state 7 1 ''sha256:0'' ''/var/run/tun.lock''"

definition mortal_last :: sys_state where
  "mortal_last = mortal_first\<lparr>st_TUNName := ''utun4'', st_Route := Some mortal_route, st_DNS := mortal_planned,
     st_Phase := ''dns-planned''\<rparr>"

lemma mortal_valid:
  "st_Version s = 1 \<Longrightarrow> st_PID s = 7 \<Longrightarrow> st_StartedAt s = 1 \<Longrightarrow> st_ConfigDigest s = ''sha256:0'' \<Longrightarrow> st_Phase s \<noteq> [] \<Longrightarrow>
   st_StatusSocket s = [] \<Longrightarrow> st_ControlSocket s = [] \<Longrightarrow> validateState s = None"
  by (simp add: validateState_def StateVersion_def)

lemma mortal_start:
  "\<exists>e. start mortal_env mortal_inputs \<lparr>lo_state = mortal_first, lo_device = None, lo_dns = False, lo_status = False\<rparr>
       (mortal_at (mortal_host host0 [] 7) (mortal_file mortal_first) 1) =
     (Some e, \<lparr>lo_state = mortal_last, lo_device = Some ''utun4'', lo_dns = True, lo_status = False\<rparr>,
      mortal_at (mortal_host host_taken [mortal_route] 0) (mortal_file mortal_last) 4)"
proof -
  note run = mortal_env_def [THEN arg_cong [where f = ae_run], simplified]
  have route: "fake_route (Pfx (V4 0xC6120000) 15) ''utun4'' = mortal_route" by (simp add: mortal_route_def)
  note steps = start_def and_then_def create_tun_def start_routes_def record_tun_def installServiceRoutes_def device_name_def record_state_def install_route_def
    host_act_def on_host_def outcome_def start_dns_def manage_dns_def
  note facts = mortal_tun mortal_add mortal_verify mortal_snapshot mortal_plan mortal_save mortal_valid
  obtain x e where "ApplyDNS mortal_run mortal_planned mortal_loop (mortal_host host0 [mortal_route] 1) =
     ((x, Some e), mortal_host host_taken [mortal_route] 0)"
    using mortal_apply by blast
  then show ?thesis
    by (simp add: steps mortal_inputs_def Let_def run facts route mortal_first_def first_state_def
        NewState_def StateVersion_def mortal_last_def)
qed

lemma mortal_finish:
  "\<exists>e. finish mortal_env mortal_stop (Some e0)
       \<lparr>lo_state = mortal_last, lo_device = Some ''utun4'', lo_dns = True, lo_status = False\<rparr>
       (mortal_at (mortal_host host_taken [mortal_route] 0) (mortal_file mortal_last) 4) =
     (Some e, mortal_at (mortal_host host_taken [mortal_route] 0) (mortal_file mortal_last) 6)"
proof -
  let ?h = "mortal_host host_taken [mortal_route] 0"
  let ?stopping = "mortal_last\<lparr>st_Phase := ''stopping''\<rparr>"
  obtain e1 where 1: "RestoreDNS mortal_run mortal_planned ?h = ((mortal_planned, Some e1), ?h)"
    using mortal_dead_dns [of ?h] by auto
  obtain e2 where 2: "RemoveRoute mortal_run mortal_route ?h = (Some e2, ?h)"
    using mortal_dead_route [of ?h] by auto
  obtain e3 where 3: "save mortal_env ?stopping (mortal_at ?h (mortal_file mortal_last) 4) =
      (Some e3, mortal_at ?h (mortal_file mortal_last) 5)"
    using mortal_dead_save [of 4 ?stopping ?h "mortal_file mortal_last"] by auto
  obtain e4 where 4: "save mortal_env (?stopping\<lparr>st_DNS := mortal_planned\<rparr>) (mortal_at ?h (mortal_file mortal_last) 5) =
      (Some e4, mortal_at ?h (mortal_file mortal_last) 6)"
    using mortal_dead_save [of 5 "?stopping\<lparr>st_DNS := mortal_planned\<rparr>" ?h "mortal_file mortal_last"] by auto
  have last: "st_DNS mortal_last = mortal_planned" "mortal_planned \<noteq> []" "st_Route mortal_last = Some mortal_route"
    "st_Routes mortal_last = []" "ae_run mortal_env = mortal_run" "ae_close mortal_env = (\<lambda>h. (None, h))"
    by (simp_all add: mortal_last_def mortal_planned_def mortal_first_def first_state_def NewState_def mortal_env_def)
  show ?thesis
    using 1 2 3 4
    by (simp add: finish_def finish_record_def finish_dns_def finish_routes_def removeRecordedRoutes_def on_host_def last
        mortal_stop_def errs_def join_errors_def Let_def)
qed

lemma mortal_dies:
  "\<exists>e. Run mortal_env mortal_inputs None [] None mortal_stop 7 1 ''sha256:0'' ''/var/run/tun.lock'' mortal_world =
     (Some e, mortal_at (mortal_host host_taken [mortal_route] 0) (mortal_file mortal_last) 6)"
proof -
  have "save mortal_env mortal_first (mortal_at (mortal_host host0 [] 7) Missing 0) =
      (None, mortal_at (mortal_host host0 [] 7) (mortal_file mortal_first) 1)"
    by (simp add: mortal_save mortal_valid mortal_first_def first_state_def NewState_def StateVersion_def)
  moreover obtain e0 where "start mortal_env mortal_inputs
        \<lparr>lo_state = mortal_first, lo_device = None, lo_dns = False, lo_status = False\<rparr>
        (mortal_at (mortal_host host0 [] 7) (mortal_file mortal_first) 1) =
      (Some e0, \<lparr>lo_state = mortal_last, lo_device = Some ''utun4'', lo_dns = True, lo_status = False\<rparr>,
       mortal_at (mortal_host host_taken [mortal_route] 0) (mortal_file mortal_last) 4)"
    using mortal_start by blast
  ultimately show ?thesis
    using mortal_finish [of e0] by (simp add: Run_def run_host_def mortal_world_def flip: mortal_first_def)
qed

text \<open>The machine is back: commands succeed again, and so does every write.\<close>

abbreviation revived_at :: "dns_host \<Rightarrow> route_state list \<Rightarrow> nat \<Rightarrow> disk_file \<Rightarrow> nat \<Rightarrow> mortal world" where
  "revived_at d t k f n \<equiv>
     \<lparr>w_host = mortal_host d t k, w_file = f, w_writes = (\<lambda>_. good_write), w_count = n\<rparr>"

abbreviation host_back :: dns_host where "host_back \<equiv> (''Wi-Fi'', [V4 0x08080808]) # host_taken"

lemma revived_save:
  assumes "validateState s = None"
  shows "save mortal_env s (revived_at d t k (mortal_file s') n) = (None, revived_at d t k (mortal_file s) (Suc n))"
  using assms mortal_path
  by (auto simp: save_def WriteState_def mortal_env_def ensureSafeTarget_def io_error_def good_write_def mortal_file_def)

lemma revived_dns:
  "RestoreDNS mortal_run mortal_planned (mortal_host host_taken [mortal_route] 100) =
     (([], None), mortal_host host_back [mortal_route] 97)"
  by code_simp

lemma revived_route:
  "RemoveRoute mortal_run mortal_route (mortal_host host_back [mortal_route] 97) = (None, mortal_host host_back [] 95)"
  by code_simp

lemma mortal_read:
  assumes "length (encState hex_state s) \<le> 1048576" and "validateState s = None"
  shows "ReadState 0 hex_state None (mortal_file s) = Inr s"
  using assms by (simp add: ReadState_def mortal_file_def hex_state_back)

definition mortal_done :: sys_state where
  "mortal_done = mortal_last\<lparr>st_Phase := ''cleaning'', st_DNS := [], st_Route := None\<rparr>"

lemma mortal_sizes: "length (encState hex_state mortal_last) \<le> 1048576" "length (encState hex_state mortal_done) \<le> 1048576"
  by code_simp+

lemma mortal_reads:
  "ReadState 0 hex_state None (mortal_file mortal_last) = Inr mortal_last"
  "ReadState 0 hex_state None (mortal_file mortal_done) = Inr mortal_done"
  by (rule mortal_read; code_simp)+

lemma mortal_recovers:
  "CleanupWithStatusOwners mortal_env mortal_cleanup ''/var/run/tun.lock''
     (revived_at host_taken [mortal_route] 100 (mortal_file mortal_last) n) =
   (None, revived_at host_back [] 95 Missing (n + 4))"
proof -
  note steps = CleanupWithStatusOwners_def cleanup_allowed_def cleanup_steps_def cleanup_routes_def
    removeRecordedRoutes_def on_host_def discard_def RemoveState_def Let_def
  have env: "ae_run mortal_env = mortal_run" "ae_euid mortal_env = 0" "ae_codec mortal_env = hex_state"
    "ae_open mortal_env = None" "ae_remove mortal_env = None" by (simp_all add: mortal_env_def)
  have last: "st_DNS mortal_last = mortal_planned" "st_Route mortal_last = Some mortal_route" "st_Routes mortal_last = []"
    "st_LockFile mortal_last = ''/var/run/tun.lock''" "st_Version mortal_last = 1" "st_PID mortal_last = 7"
    "st_StartedAt mortal_last = 1" "st_ConfigDigest mortal_last = ''sha256:0''" "st_ControlSocket mortal_last = []"
    "st_StatusSocket mortal_last = []"
    by (simp_all add: mortal_last_def mortal_first_def first_state_def NewState_def StateVersion_def)
  have final: "mortal_last\<lparr>st_Phase := ''cleaning'', st_StatusSocket := [], st_DNS := [], st_Route := None\<rparr> = mortal_done"
    by (simp add: mortal_last_def mortal_done_def mortal_first_def first_state_def NewState_def)
  have valid: "validateState mortal_done = None" by code_simp
  show ?thesis
    by (simp add: steps env last mortal_cleanup_def mortal_reads revived_save mortal_valid revived_dns revived_route
        errs_def join_errors_def final valid)
qed

text \<open>
  The process dies after seven commands with the service Wi-Fi taken over and its route in place; a first
  cleanup is refused because the lock looks held, the second one restores the host.
\<close>

theorem crash_recovery_witness:
  "case Run mortal_env mortal_inputs None [] None mortal_stop 7 1 ''sha256:0'' ''/var/run/tun.lock'' mortal_world of
     (e, w1) \<Rightarrow>
       e \<noteq> None \<and> \<not> undone mortal_view (w_host w1) \<and>
       (case CleanupWithStatusOwners mortal_env mortal_cleanup ''/var/run/tun.lock''
          (foldl (attempt mortal_env ''/var/run/tun.lock'')
            (w1\<lparr>w_host := mortal_host host_taken [mortal_route] 100\<rparr>)
            [(mortal_cleanup\<lparr>cl_claim := \<lambda>_. LockHeld\<rparr>, \<lambda>_. good_write)]) of
          (e', w3) \<Rightarrow> e' = None \<and> undone mortal_view (w_host w3) \<and> w_file w3 = Missing)"
proof -
  let ?lock = "''/var/run/tun.lock''"
  let ?w1 = "mortal_at (mortal_host host_taken [mortal_route] 0) (mortal_file mortal_last) 6"
  let ?tries = "[(mortal_cleanup\<lparr>cl_claim := \<lambda>_. LockHeld\<rparr>, \<lambda>_::nat. good_write)]"
  obtain e where run: "Run mortal_env mortal_inputs None [] None mortal_stop 7 1 ''sha256:0'' ?lock mortal_world = (Some e, ?w1)"
    using mortal_dies by blast
  have held: "foldl (attempt mortal_env ?lock) (?w1\<lparr>w_host := mortal_host host_taken [mortal_route] 100\<rparr>) ?tries =
      revived_at host_taken [mortal_route] 100 (mortal_file mortal_last) 6"
    using mortal_reads(1)
    by (simp add: attempt_def CleanupWithStatusOwners_def mortal_cleanup_def cleanup_allowed_def mortal_env_def)
  have "plain_addr (in_listen mortal_inputs)" by code_simp
  moreover have "planned_routes mortal_inputs \<subseteq> vw_routes mortal_view"
    by (simp add: planned_routes_def mortal_inputs_def mortal_view_def mortal_route_def)
  moreover have "w_file mortal_world = Missing" "undone mortal_view (w_host mortal_world)"
    by (simp_all add: mortal_world_def undone_def mortal_view_def)
  moreover have "recedes mortal_view (w_host ?w1) (mortal_host host_taken [mortal_route] 100)"
    by (simp add: recedes_def mortal_view_def)
  moreover note mortal_recovers [of 6, folded held]
  ultimately have "undone mortal_view (mortal_host host_back [] 95)"
    using crash_recovery [OF mortal_contract _ _ _ _ run, of "mortal_host host_taken [mortal_route] 100" mortal_cleanup ?lock ?tries None]
    by simp
  then show ?thesis
    unfolding run prod.case held mortal_recovers by (simp add: undone_def mortal_view_def)
qed

end
