(* ===== verification/App_Capture.thy ===== *)
theory App_Capture
  imports App_Host Config_Compile
begin

text \<open>
  \<open>internal/app/default_routes_darwin.go\<close> and \<open>effective_dns_darwin.go\<close>: which routes the program adds when
  it captures the default route.  Before a split default route leads all traffic into the device, every
  gateway and every upstream DNS server must have a host route on its physical interface.

  The two lookups are arguments here as they are in the source; within one plan they answer a question
  always the same way, as a routing table at rest does.
\<close>

section \<open>Effective DNS servers\<close>

type_synonym interface_dns = "(string, addrport list) gomap"

definition DNSSourceDHCP :: string where "DNSSourceDHCP = ''dhcp''"

definition servers_of :: "interface_dns \<Rightarrow> string \<Rightarrow> addrport list" where
  "servers_of d i = (case gm_get d i of None \<Rightarrow> [] | Some s \<Rightarrow> s)"

definition effective_outbound :: "interface_dns \<Rightarrow> outbound_cfg \<Rightarrow> outbound_cfg" where
  "effective_outbound d ob =
     (if ob_Type ob = ''direct'' \<and> ob_DNSSource ob = DNSSourceDHCP \<and> servers_of d (ob_Interface ob) \<noteq> []
      then ob\<lparr>ob_DNS := servers_of d (ob_Interface ob)\<rparr> else ob)"

definition runtimeWithInterfaceDNS :: "config \<Rightarrow> interface_dns \<Rightarrow> config" where
  "runtimeWithInterfaceDNS c d =
     c\<lparr>cfg_Outbounds := map (\<lambda>(name, ob). (name, effective_outbound d ob)) (cfg_Outbounds c)\<rparr>"

definition discoverInterfaceDNS ::
  "'h runner \<Rightarrow> config \<Rightarrow> 'h \<Rightarrow> (interface_dns \<times> sys_error option) \<times> 'h" where
  "discoverInterfaceDNS run c h =
     DiscoverInterfaceDNS run
       (map (\<lambda>(name, ob). ob_Interface ob)
         (filter (\<lambda>(name, ob). ob_Type ob = ''direct'' \<and> ob_DNSSource ob = DNSSourceDHCP) (cfg_Outbounds c))) h"

definition sameInterfaceDNS :: "interface_dns \<Rightarrow> interface_dns \<Rightarrow> bool" where
  "sameInterfaceDNS l r = (length l = length r \<and> (\<forall>(i, s) \<in> set l. s = servers_of r i))"


section \<open>Bypasses\<close>

fun without_zone :: "addr \<Rightarrow> addr" where
  "without_zone (V6 w z) = V6 w []"
| "without_zone a = a"

type_synonym owners = "(addr, string) gomap"
type_synonym route_map = "(string, route_state) gomap"

text \<open>\<open>scopedRouteLookup\<close> and \<open>scopedDefaultRouteLookup\<close>.\<close>

record lookups =
  lk_route :: "addr \<Rightarrow> string \<Rightarrow> sys_error + route_lookup"
  lk_default :: "bool \<Rightarrow> string \<Rightarrow> sys_error + route_lookup"

definition host_width :: "addr \<Rightarrow> nat" where
  "host_width a = (if is4 a then 32 else 128)"

definition hostPrefix :: "addr \<Rightarrow> ipprefix" where
  "hostPrefix a = (if is_valid a then Pfx (without_zone a) (host_width a) else NoPrefix)"

definition claimBypassAddress :: "owners \<Rightarrow> addr \<Rightarrow> string \<Rightarrow> sys_error + owners" where
  "claimBypassAddress owners a i =
     (case gm_get owners a of
        Some previous \<Rightarrow>
          if previous \<noteq> i then Inl (Refused ''bypass address is required by two interfaces; route ownership is ambiguous'')
          else Inr (gm_put owners a i)
      | None \<Rightarrow> Inr (gm_put owners a i))"

definition exactHostDestination :: "string \<Rightarrow> addr \<Rightarrow> bool" where
  "exactHostDestination destination a =
     (case parse_addr destination of
        Some parsed \<Rightarrow> without_zone parsed = without_zone a
      | None \<Rightarrow>
          (case parse_prefix destination of
             Some p \<Rightarrow> pfx_bits p = host_width a \<and> without_zone (pfx_addr p) = without_zone a
           | None \<Rightarrow> False))"

definition ownsHostRoute :: "route_state list \<Rightarrow> addr \<Rightarrow> string \<Rightarrow> string \<Rightarrow> bool" where
  "ownsHostRoute routes a i gateway =
     list_ex (\<lambda>r. rt_Prefix r = pfx_string (hostPrefix a) \<and> rt_Interface r = i \<and>
                (rt_Gateway r = [] \<or> rt_Gateway r = gateway)) routes"

definition parseUsableGateway :: "string \<Rightarrow> addr \<Rightarrow> sys_error + addr" where
  "parseUsableGateway raw destination =
     (case parse_addr raw of
        None \<Rightarrow> Inl (Refused ''unusable gateway'')
      | Some g \<Rightarrow>
          if is_unspecified g \<or> is_loopback g \<or> is4in6 g \<or> is4 g \<noteq> is4 destination
          then Inl (Refused ''unusable gateway'') else Inr g)"

text \<open>A gateway field that stands for a directly reachable destination.\<close>

definition on_link :: "string \<Rightarrow> bool" where
  "on_link gateway = (gateway = [] \<or> has_prefix gateway ''link#'')"

definition host_route :: "addr \<Rightarrow> string \<Rightarrow> string \<Rightarrow> route_state" where
  "host_route a i gateway =
     \<lparr>rt_Prefix = pfx_string (hostPrefix a), rt_Interface = i, rt_Gateway = gateway, rt_Scope = []\<rparr>"

definition addGatewayBypass ::
  "owners \<Rightarrow> route_map \<Rightarrow> addr \<Rightarrow> string \<Rightarrow> sys_error + owners \<times> route_map" where
  "addGatewayBypass owners routes gateway i =
     bindE (claimBypassAddress owners gateway i) (\<lambda>owners'.
       (let r = host_route (without_zone gateway) i []
        in Inr (owners', gm_put routes (rt_Prefix r @ ''|'' @ i) r)))"

definition proveGatewayBypass ::
  "lookups \<Rightarrow> route_state list \<Rightarrow> owners \<Rightarrow> route_map \<Rightarrow> addr \<Rightarrow> string \<Rightarrow> sys_error + owners \<times> route_map" where
  "proveGatewayBypass lk owned owners routes gateway i =
     (let a = without_zone gateway
      in case lk_route lk a i of
           Inl e \<Rightarrow> Inl (Caused ''prove gateway bypass'' e)
         | Inr l \<Rightarrow>
             if Interface l \<noteq> i then Inl (Refused ''gateway resolves on another interface'')
             else if exactHostDestination (Destination l) a then
               (if ownsHostRoute owned a i [] then addGatewayBypass owners routes gateway i
                else if on_link (Gateway l) then
                  bindE (claimBypassAddress owners gateway i) (\<lambda>owners'. Inr (owners', routes))
                else Inl (Refused ''gateway already has an exact routed host entry; refusing to assume ownership''))
             else addGatewayBypass owners routes gateway i)"


section \<open>Egress\<close>

definition defaultDestination :: "string \<Rightarrow> bool" where
  "defaultDestination v = (v \<in> {''default'', ''0.0.0.0'', ''::'', ''0.0.0.0/0'', ''::/0''})"

definition scopedEgressDestination :: "route_lookup \<Rightarrow> addr \<Rightarrow> bool" where
  "scopedEgressDestination l candidate =
     (if defaultDestination (Destination l) \<and> Mask l \<in> {[], ''default'', ''0.0.0.0'', ''::''} then True
      else if is4 candidate then Mask l = ''128.0.0.0''
      else Mask l = ''8000::'')"

text \<open>The documentation addresses that stand for any remote host: 192.0.2.254 and 2001:db8::fffe, and so on.\<close>

definition probe_candidates :: "bool \<Rightarrow> addr list" where
  "probe_candidates ipv6 =
     (if ipv6 then [V6 0x20010db800000000000000000000fffe [], V6 0x20010db800010000000000000000fffe [],
                    V6 0x20010db800020000000000000000fffe []]
      else [V4 0xc00002fe, V4 0xc63364fe, V4 0xcb0071fe])"

definition egress_proof :: "lookups \<Rightarrow> string \<Rightarrow> addr \<Rightarrow> addr \<Rightarrow> bool" where
  "egress_proof lk i gateway candidate =
     (case lk_route lk candidate i of
        Inl _ \<Rightarrow> False
      | Inr l \<Rightarrow>
          Interface l = i \<and>
          (case parseUsableGateway (Gateway l) candidate of
             Inl _ \<Rightarrow> False
           | Inr g \<Rightarrow> g = gateway \<and> scopedEgressDestination l candidate))"

definition proveScopedEgress :: "lookups \<Rightarrow> bool \<Rightarrow> string \<Rightarrow> addr \<Rightarrow> sys_error option" where
  "proveScopedEgress lk ipv6 i gateway =
     (if list_ex (egress_proof lk i gateway) (probe_candidates ipv6) then None
      else Some (Refused ''cannot prove loop-free scoped egress''))"


section \<open>The plan\<close>

definition ipv4CapturePrefixes :: "ipprefix list" where
  "ipv4CapturePrefixes = [Pfx (V4 0) 1, Pfx (V4 0x80000000) 1]"

definition ipv6CapturePrefixes :: "ipprefix list" where
  "ipv6CapturePrefixes = [Pfx (V6 0 []) 1, Pfx (V6 0x80000000000000000000000000000000 []) 1]"

definition capture_prefixes :: "bool \<Rightarrow> ipprefix list" where
  "capture_prefixes ipv6 = (if ipv6 then ipv6CapturePrefixes else ipv4CapturePrefixes)"

record defaultRoutePlan =
  Bypasses :: "route_state list"
  Scoped :: "route_state list"
  Prefixes :: "ipprefix list"

text \<open>The maps the two loops fill.\<close>

record proof_state =
  pr_owners :: owners
  pr_gateways :: route_map
  pr_dns :: route_map
  pr_scoped :: route_map
  pr_defaults :: "(string, addr) gomap"

definition family_key :: "string \<Rightarrow> bool \<Rightarrow> string" where
  "family_key i ipv6 = i @ (if ipv6 then ''|6'' else ''|4'')"

definition scoped_route :: "ipprefix \<Rightarrow> string \<Rightarrow> addr \<Rightarrow> route_state" where
  "scoped_route p i gateway =
     \<lparr>rt_Prefix = pfx_string p, rt_Interface = i, rt_Gateway = addr_string gateway, rt_Scope = i\<rparr>"

definition put_scoped :: "string \<Rightarrow> addr \<Rightarrow> ipprefix \<Rightarrow> route_map \<Rightarrow> route_map" where
  "put_scoped i gateway p m =
     (let r = scoped_route p i gateway
      in gm_put m (rt_Prefix r @ ''|'' @ rt_Scope r @ ''|'' @ rt_Gateway r) r)"

definition record_family ::
  "string \<Rightarrow> bool \<Rightarrow> addr \<Rightarrow> owners \<Rightarrow> route_map \<Rightarrow> proof_state \<Rightarrow> proof_state" where
  "record_family i ipv6 gateway owners gateways st =
     st\<lparr>pr_defaults := gm_put (pr_defaults st) (family_key i ipv6) gateway,
       pr_owners := owners, pr_gateways := gateways,
       pr_scoped := fold (put_scoped i gateway) (capture_prefixes ipv6) (pr_scoped st)\<rparr>"

definition prove_family ::
  "lookups \<Rightarrow> route_state list \<Rightarrow> outbound_cfg \<Rightarrow> proof_state \<Rightarrow> bool \<Rightarrow> sys_error + proof_state" where
  "prove_family lk owned ob st ipv6 =
     (let i = ob_Interface ob
      in if gm_has (pr_defaults st) (family_key i ipv6) then Inr st
         else case lk_default lk ipv6 i of
             Inl e \<Rightarrow> Inl (Caused ''prove outbound physical default route'' e)
           | Inr l \<Rightarrow>
               if Interface l \<noteq> i then Inl (Refused ''outbound physical default resolves on another interface'')
               else
                 bindE (parseUsableGateway (Gateway l) (hd (probe_candidates ipv6))) (\<lambda>gateway.
                   case proveScopedEgress lk ipv6 i gateway of
                     Some e \<Rightarrow> Inl (Caused ''outbound'' e)
                   | None \<Rightarrow>
                       bindE (proveGatewayBypass lk owned (pr_owners st) (pr_gateways st) gateway i)
                         (\<lambda>(owners, gateways). Inr (record_family i ipv6 gateway owners gateways st))))"

definition add_server ::
  "outbound_cfg \<Rightarrow> addr \<Rightarrow> addr \<Rightarrow> string \<Rightarrow> proof_state \<Rightarrow> proof_state" where
  "add_server ob a physical gateway st =
     (if a = without_zone physical then st
      else
        (let r = host_route a (ob_Interface ob) gateway
         in st\<lparr>pr_dns := gm_put (pr_dns st) (rt_Prefix r @ ''|'' @ rt_Interface r @ ''|'' @ rt_Gateway r) r\<rparr>))"

definition route_server ::
  "lookups \<Rightarrow> route_state list \<Rightarrow> outbound_cfg \<Rightarrow> addr \<Rightarrow> addr \<Rightarrow> route_lookup \<Rightarrow> proof_state \<Rightarrow> sys_error + proof_state" where
  "route_server lk owned ob a physical l st =
     (let i = ob_Interface ob
      in bindE (claimBypassAddress (pr_owners st) a i) (\<lambda>owners.
           case parseUsableGateway (Gateway l) a of
             Inr g \<Rightarrow>
               bindE (proveGatewayBypass lk owned owners (pr_gateways st) g i) (\<lambda>(owners', gateways).
                 Inr (add_server ob a physical (if a \<noteq> without_zone g then addr_string g else [])
                   (st\<lparr>pr_owners := owners', pr_gateways := gateways\<rparr>)))
           | Inl _ \<Rightarrow>
               if \<not> on_link (Gateway l) then Inl (Refused ''outbound DNS has unusable gateway'')
               else Inr (add_server ob a physical [] (st\<lparr>pr_owners := owners\<rparr>))))"

definition prove_server ::
  "lookups \<Rightarrow> bool \<Rightarrow> route_state list \<Rightarrow> outbound_cfg \<Rightarrow> proof_state \<Rightarrow> addrport \<Rightarrow> sys_error + proof_state" where
  "prove_server lk ipv6 owned ob st endpoint =
     (let i = ob_Interface ob; a = ap_addr endpoint
      in if is6 a \<and> \<not> ipv6 then Inr st
         else
           (let physical = (case gm_get (pr_defaults st) (family_key i (is6 a)) of None \<Rightarrow> NoAddr | Some g \<Rightarrow> g)
            in case lk_route lk a i of
                 Inl e \<Rightarrow> Inl (Caused ''prove outbound DNS bypass'' e)
               | Inr l \<Rightarrow>
                   if Interface l \<noteq> i then Inl (Refused ''outbound DNS resolves on another interface'')
                   else if exactHostDestination (Destination l) a \<and> \<not> ownsHostRoute owned a i (Gateway l) then
                     (if on_link (Gateway l) then
                        bindE (claimBypassAddress (pr_owners st) a i) (\<lambda>owners. Inr (st\<lparr>pr_owners := owners\<rparr>))
                      else Inl (Refused ''outbound DNS already has an exact gateway route; refusing to assume ownership''))
                   else route_server lk owned ob a physical l st))"

definition families :: "bool \<Rightarrow> bool list" where
  "families ipv6 = (if ipv6 then [False, True] else [False])"

definition prove_outbound ::
  "lookups \<Rightarrow> bool \<Rightarrow> route_state list \<Rightarrow> proof_state \<Rightarrow> outbound_cfg \<Rightarrow> sys_error + proof_state" where
  "prove_outbound lk ipv6 owned st ob = foldE (prove_family lk owned ob) st (families ipv6)"

definition prove_servers ::
  "lookups \<Rightarrow> bool \<Rightarrow> route_state list \<Rightarrow> proof_state \<Rightarrow> outbound_cfg \<Rightarrow> sys_error + proof_state" where
  "prove_servers lk ipv6 owned st ob = foldE (prove_server lk ipv6 owned ob) st (ob_DNS ob)"

text \<open>The direct outbounds in the order of their names.\<close>

definition direct_outbounds :: "config \<Rightarrow> outbound_cfg list" where
  "direct_outbounds c =
     filter (\<lambda>ob. ob_Type ob = ''direct'')
       (map (\<lambda>name. the (gm_get (cfg_Outbounds c) name)) (sort (map fst (cfg_Outbounds c))))"

definition sorted_routes :: "route_map \<Rightarrow> route_state list" where
  "sorted_routes m = map (\<lambda>k. the (gm_get m k)) (sort (map fst m))"

definition no_proofs :: proof_state where
  "no_proofs = \<lparr>pr_owners = [], pr_gateways = [], pr_dns = [], pr_scoped = [], pr_defaults = []\<rparr>"

definition finished_plan :: "bool \<Rightarrow> proof_state \<Rightarrow> defaultRoutePlan" where
  "finished_plan ipv6 st =
     \<lparr>Bypasses = sorted_routes (pr_gateways st) @ sorted_routes (pr_dns st),
      Scoped = sorted_routes (pr_scoped st),
      Prefixes = ipv4CapturePrefixes @ (if ipv6 then ipv6CapturePrefixes else [])\<rparr>"

definition no_plan :: defaultRoutePlan where
  "no_plan = \<lparr>Bypasses = [], Scoped = [], Prefixes = []\<rparr>"

definition planDefaultRouteCaptureOwned ::
  "config \<Rightarrow> bool \<Rightarrow> lookups \<Rightarrow> route_state list \<Rightarrow> sys_error + defaultRoutePlan" where
  "planDefaultRouteCaptureOwned c ipv6 lk owned =
     (if \<not> DefaultRoute c then Inr no_plan
      else
        bindE (foldE (prove_outbound lk ipv6 owned) no_proofs (direct_outbounds c)) (\<lambda>st1.
        bindE (foldE (prove_servers lk ipv6 owned) st1 (direct_outbounds c)) (\<lambda>st2.
        Inr (finished_plan ipv6 st2))))"

definition planDefaultRouteCapture :: "config \<Rightarrow> bool \<Rightarrow> lookups \<Rightarrow> sys_error + defaultRoutePlan" where
  "planDefaultRouteCapture c ipv6 lk = planDefaultRouteCaptureOwned c ipv6 lk []"

definition plan_routes :: "defaultRoutePlan \<Rightarrow> string \<Rightarrow> route_state list" where
  "plan_routes p tun =
     Bypasses p @ Scoped p @
     map (\<lambda>x. \<lparr>rt_Prefix = pfx_string x, rt_Interface = tun, rt_Gateway = [], rt_Scope = []\<rparr>) (Prefixes p)"

definition plan_equal :: "defaultRoutePlan \<Rightarrow> defaultRoutePlan \<Rightarrow> bool" where
  "plan_equal p q =
     (length (Bypasses p) = length (Bypasses q) \<and> length (Scoped p) = length (Scoped q) \<and>
      length (Prefixes p) = length (Prefixes q) \<and>
      list_all2 (=) (Bypasses p) (Bypasses q) \<and> list_all2 (=) (Scoped p) (Scoped q) \<and>
      list_all2 (=) (Prefixes p) (Prefixes q))"

text \<open>
  The check of \<open>Run\<close> once the routes are installed: the plan is made again with the bypasses as the
  program's own, and must not have changed.
\<close>

definition capture_changed :: "sys_error list \<Rightarrow> sys_error" where
  "capture_changed es =
     Caused ''prove loop-free egress after default-route capture''
       (JoinedErrors (es @ [Refused ''captured route plan changed during installation'']))"

definition verify_capture :: "config \<Rightarrow> bool \<Rightarrow> lookups \<Rightarrow> defaultRoutePlan \<Rightarrow> sys_error option" where
  "verify_capture c ipv6 lk p =
     (if \<not> DefaultRoute c then None
      else case planDefaultRouteCaptureOwned c ipv6 lk (Bypasses p) of
          Inl e \<Rightarrow> Some (capture_changed [e])
        | Inr q \<Rightarrow>
            if plan_equal p q then None
            else Some (capture_changed []))"


text \<open>
  What \<open>Run\<close> does with a plan, leaving out the installation in between: it is made for the effective
  configuration, under the lookups before, and verified for the configuration as written, under the
  lookups after.
\<close>

definition capture_started ::
  "config \<Rightarrow> interface_dns \<Rightarrow> bool \<Rightarrow> lookups \<Rightarrow> (defaultRoutePlan \<Rightarrow> lookups) \<Rightarrow> sys_error + defaultRoutePlan" where
  "capture_started c d ipv6 before after =
     bindE (planDefaultRouteCapture (runtimeWithInterfaceDNS c d) ipv6 before) (\<lambda>p.
       case verify_capture c ipv6 (after p) p of None \<Rightarrow> Inr p | Some e \<Rightarrow> Inl e)"

end
