(* ===== verification/Netip_Prefix.thy ===== *)
theory Netip_Prefix
  imports Netip_Text Fakeip_Journal
begin

text \<open>
  The textual form of prefixes and of zoned addresses reads back, and the characters it can contain.
\<close>

definition parse6_zoned :: "string \<Rightarrow> string \<Rightarrow> addr option" where
  "parse6_zoned zone body =
     (if body = ''::'' then Some (V6 0 zone)
      else
        (case (if has_prefix body ''::'' then parse6_loop [] (Some 0) (drop 2 body) else parse6_loop [] None body) of
           None \<Rightarrow> None
         | Some (gs, ell) \<Rightarrow> map_option (\<lambda>g. V6 (word_of_groups g) zone) (expand_groups gs ell)))"

lemma parse6_zoned_map: "parse6_zoned z b = map_option (\<lambda>a. case a of V6 w _ \<Rightarrow> V6 w z | _ \<Rightarrow> a) (parse6_zoned [] b)"
  by (auto simp: parse6_zoned_def option.map_comp o_def split: option.splits)

lemma parse_ipv6_parts:
  "parse_ipv6 s =
     (let body = takeWhile (\<lambda>c. c \<noteq> CHR ''%'') s; zone = drop (Suc (length body)) s
      in if length body < length s \<and> zone = [] then None else parse6_zoned zone body)"
  by (simp only: parse_ipv6_def parse6_zoned_def Let_def)

lemma parse_ipv6_zone:
  assumes "CHR ''%'' \<notin> set b" and "z \<noteq> []" and "parse_ipv6 b = Some (V6 w [])"
  shows "parse_ipv6 (b @ CHR ''%'' # z) = Some (V6 w z)"
proof -
  have tw: "takeWhile (\<lambda>c. c \<noteq> CHR ''%'') (b @ CHR ''%'' # z) = b" "takeWhile (\<lambda>c. c \<noteq> CHR ''%'') b = b"
    using assms(1) by (auto simp: takeWhile_eq_all_conv takeWhile_append)
  have "drop (Suc (length b)) b = []" by simp
  then have "parse6_zoned [] b = Some (V6 w [])"
    using assms(3) by (simp only: parse_ipv6_parts Let_def tw if_False less_irrefl HOL.simp_thms)
  then show ?thesis
    using assms(2) parse6_zoned_map [of z b] by (simp add: parse_ipv6_parts Let_def tw)
qed

lemma parse_addr_string_zone:
  assumes "is_valid a" and "\<not> is4in6 a"
  shows "parse_addr (addr_string a) = Some a"
proof (cases "addr_zone a = []")
  case True
  then show ?thesis using assms parse_addr_string by blast
next
  case False
  then obtain w z where a: "a = V6 w z" "z \<noteq> []" by (cases a) auto
  let ?P = "\<lambda>c. c = CHR ''.'' \<or> c = CHR '':'' \<or> c = CHR ''%''"
  obtain c where c: "find ?P (string6 w) = Some c"
    using string6_colon [of w] by (cases "find ?P (string6 w)") (auto simp: find_None_iff)
  then have "c \<in> set (string6 w) \<and> ?P c" by (auto simp: find_Some_iff in_set_conv_nth)
  then have "c = CHR '':''" using string6_no_percent [of w] by auto
  moreover have "find P (xs @ ys) = (case find P xs of None \<Rightarrow> find P ys | Some x \<Rightarrow> Some x)" for P and xs ys :: string
    by (induction xs) auto
  ultimately have "find ?P (string6 w @ CHR ''%'' # z) = Some (CHR '':'')"
    using c by simp
  then show ?thesis
    using a assms parse_ipv6_zone [OF string6_no_percent(1) a(2) parse_ipv6_string6] by (simp add: parse_addr_def)
qed

lemma unzoned_chars:
  assumes "is_valid a" and "\<not> is4in6 a" and "addr_zone a = []" and "c \<in> set (addr_string a)"
  shows "hex_digit c \<noteq> None \<or> c = CHR ''.'' \<or> c = CHR '':''"
proof -
  have d: "c \<in> set (dec_digits n) \<Longrightarrow> hex_digit c \<noteq> None" for n
    using dec_digits_no_sep [of c n] by (simp add: hex_digit_def)
  show ?thesis
    using assms d string6_chars by (cases a) (auto simp: string4_def Let_def)
qed

lemma char_of_nat_48: "char_of (48 :: nat) = CHR ''0''"
  by code_simp

lemma dec_digits_single: "1 < length (dec_digits n) \<Longrightarrow> 49 \<le> byte (hd (dec_digits n)) \<and> byte (hd (dec_digits n)) \<le> 57"
proof -
  assume "1 < length (dec_digits n)"
  then have "0 < n" by (cases "n = 0") (simp_all add: dec_digits.simps)
  then have "hd (dec_digits n) \<noteq> CHR ''0''" by (rule dec_digits_lead)
  moreover have "is_digit (hd (dec_digits n))" using dec_digits_no_sep [of "hd (dec_digits n)" n] by simp
  moreover have "byte c = 48 \<Longrightarrow> c = CHR ''0''" for c :: char
    using char_of_char [of c] by (metis char_of_nat_48)
  ultimately show ?thesis by (force simp: is_digit_def)
qed

lemma parse_prefix_string:
  assumes "is_valid a" and "\<not> is4in6 a" and "addr_zone a = []" and "b \<le> bit_len a"
  shows "parse_prefix (pfx_string (Pfx a b)) = Some (Pfx a b)"
proof -
  have "CHR ''/'' \<notin> set (dec_digits b)"
    using dec_digits_no_sep [of "CHR ''/''" b] by (auto simp: is_digit_def)
  then have "last_index_of (CHR ''/'') (addr_string a @ CHR ''/'' # dec_digits b) = Some (length (addr_string a))"
    by (rule last_index_of_snoc)
  moreover have "parse_uint (Suc (bit_len a)) (dec_digits b) = Some b"
    using assms(4) by (intro parse_uint_dec_digits) simp
  ultimately show ?thesis
    using assms(3) dec_digits_single [of b] parse_addr_string_zone [OF assms(1,2)]
    by (auto simp: pfx_string_def parse_prefix_def Let_def)
qed

lemma pfx_string_inj:
  assumes "is_valid a" "\<not> is4in6 a" "addr_zone a = []" "b \<le> bit_len a"
    and "is_valid a'" "\<not> is4in6 a'" "addr_zone a' = []" "b' \<le> bit_len a'"
    and "pfx_string (Pfx a b) = pfx_string (Pfx a' b')"
  shows "a = a' \<and> b = b'"
  using parse_prefix_string [OF assms(1-4)] parse_prefix_string [OF assms(5-8)] assms(9)
  by (metis ipprefix.inject option.inject)

lemma pfx_string_no_bar:
  assumes "is_valid a" "\<not> is4in6 a" "addr_zone a = []"
  shows "CHR ''|'' \<notin> set (pfx_string (Pfx a b))"
proof -
  have "hex_digit (CHR ''|'') = None" "\<not> is_digit (CHR ''|'')" by code_simp+
  then show ?thesis
    using unzoned_chars [OF assms, of "CHR ''|''"] dec_digits_no_sep [of "CHR ''|''" b] by (auto simp: pfx_string_def)
qed

text \<open>\<open>link#4\<close> and its like are not addresses.\<close>

lemma split_on_hd_prefix: "d \<notin> set p \<Longrightarrow> \<exists>f fs. split_on d (p @ s) = (p @ f) # fs"
proof (induction p)
  case Nil
  show ?case by (cases s) (auto split: list.splits)
next
  case (Cons c p)
  then show ?case by fastforce
qed

lemma parse_addr_link: "has_prefix s ''link#'' \<Longrightarrow> parse_addr s = None"
proof -
  assume "has_prefix s ''link#''"
  then obtain t where s: "s = ''link#'' @ t" by (metis append_take_drop_id has_prefix_def)
  have "hex_digit (CHR ''l'') = None" by code_simp
  moreover have l: "\<not> is_digit (CHR ''l'')" by code_simp
  moreover obtain f fs where "split_on (CHR ''.'') s = (''link#'' @ f) # fs"
    using split_on_hd_prefix [of "CHR ''.''" "''link#''" t] s by auto
  then have "parse_ipv4 s = None"
    using l by (simp add: parse_ipv4_def parse_fields4_def parse_field4_def parse_uint_def split: list.splits)
  ultimately show ?thesis
    using s by (auto simp: parse_addr_def parse_ipv6_def parse6_loop.simps has_prefix_def Let_def split: option.splits)
qed

end
