(* ===== verification/App_Capture_Invariant.thy ===== *)
theory App_Capture_Invariant
  imports App_Capture Netip_Prefix Config_Properties
begin

text \<open>
  What every step of the capture planner keeps: the maps are keyed by their routes, each recorded address
  has one owner, and every gateway a route refers to is itself directly reachable.
\<close>

section \<open>Loops that may fail\<close>

text \<open>
  \<open>P\<close> is kept by every turn, \<open>R\<close> relates earlier to later states, and what a turn establishes for its
  element survives the turns after it.
\<close>

lemma foldE_establishes:
  assumes "foldE f s xs = Inr s'" and "P s"
    and step: "\<And>s x t. x \<in> set xs \<Longrightarrow> P s \<Longrightarrow> f s x = Inr t \<Longrightarrow> P t \<and> R s t \<and> Q x t"
    and refl: "\<And>s. R s s" and trans: "\<And>s t u. R s t \<Longrightarrow> R t u \<Longrightarrow> R s u"
    and keep: "\<And>x s t. Q x s \<Longrightarrow> R s t \<Longrightarrow> Q x t"
  shows "P s' \<and> R s s' \<and> (\<forall>x \<in> set xs. Q x s')"
  using assms(1,2) step
proof (induction xs arbitrary: s)
  case Nil
  then show ?case using refl by simp
next
  case (Cons x xs)
  then obtain t where t: "f s x = Inr t" "foldE f t xs = Inr s'" by (auto simp: bindE_Inr_iff)
  have one: "P t \<and> R s t \<and> Q x t" using Cons.prems(3) [OF _ Cons.prems(2) t(1)] by simp
  have "P s' \<and> R t s' \<and> (\<forall>y \<in> set xs. Q y s')"
    using Cons.IH [OF t(2)] one Cons.prems(3) by (metis list.set_intros(2))
  then show ?case using one trans keep by (metis set_ConsD)
qed

lemma foldE_keeps:
  assumes "foldE f s xs = Inr s'" and "P s" and "\<And>s x t. x \<in> set xs \<Longrightarrow> P s \<Longrightarrow> f s x = Inr t \<Longrightarrow> P t"
  shows "P s'"
  using foldE_establishes [where f = f and xs = xs and P = P and R = "\<lambda>_ _. True" and Q = "\<lambda>_ _. True"] assms by blast


section \<open>Names of routes\<close>

definition fine_addr :: "addr \<Rightarrow> bool" where
  "fine_addr a = (is_valid a \<and> \<not> is4in6 a)"

definition bar_free :: "string \<Rightarrow> bool" where
  "bar_free s = (CHR ''|'' \<notin> set s)"

lemma without_zone_simps [simp]:
  "is_valid (without_zone a) = is_valid a" "is4 (without_zone a) = is4 a" "is6 (without_zone a) = is6 a"
  "is4in6 (without_zone a) = is4in6 a" "addr_zone (without_zone a) = []" "bit_len (without_zone a) = bit_len a"
  "without_zone (without_zone a) = without_zone a" "host_width (without_zone a) = host_width a"
  by (cases a; simp add: host_width_def)+

lemma without_zone_id: "addr_zone a = [] \<Longrightarrow> without_zone a = a"
  by (cases a) auto

lemma fine_without_zone [simp]: "fine_addr (without_zone a) = fine_addr a"
  by (simp add: fine_addr_def)

lemma hostPrefix_without_zone [simp]: "hostPrefix (without_zone a) = hostPrefix a"
  by (simp add: hostPrefix_def)

lemma host_route_without_zone [simp]: "host_route (without_zone a) i g = host_route a i g"
  by (simp add: host_route_def)

lemma host_width_le: "is_valid a \<Longrightarrow> host_width a \<le> bit_len a"
  by (cases a) (auto simp: host_width_def)

lemma host_text:
  assumes "fine_addr a"
  shows "parse_prefix (pfx_string (hostPrefix a)) = Some (hostPrefix a)" "bar_free (pfx_string (hostPrefix a))"
proof -
  have a: "is_valid (without_zone a)" "\<not> is4in6 (without_zone a)" "addr_zone (without_zone a) = []"
    "host_width a \<le> bit_len (without_zone a)" "hostPrefix a = Pfx (without_zone a) (host_width a)"
    using assms host_width_le by (auto simp: fine_addr_def hostPrefix_def)
  show "parse_prefix (pfx_string (hostPrefix a)) = Some (hostPrefix a)"
    unfolding a(5) by (rule parse_prefix_string [OF a(1-4)])
  show "bar_free (pfx_string (hostPrefix a))"
    unfolding a(5) bar_free_def by (rule pfx_string_no_bar [OF a(1-3)])
qed

lemma host_text_inj:
  assumes "fine_addr a" and "fine_addr b" and "pfx_string (hostPrefix a) = pfx_string (hostPrefix b)"
  shows "without_zone a = without_zone b"
proof -
  have "hostPrefix a = hostPrefix b" using host_text(1) [OF assms(1)] host_text(1) [OF assms(2)] assms(3) by (metis option.inject)
  then show ?thesis using assms(1,2) by (simp add: hostPrefix_def fine_addr_def)
qed

lemma host_route_fields [simp]:
  "rt_Prefix (host_route a i g) = pfx_string (hostPrefix a)" "rt_Interface (host_route a i g) = i"
  "rt_Gateway (host_route a i g) = g" "rt_Scope (host_route a i g) = []"
  by (simp_all add: host_route_def)

lemma host_route_eq:
  "host_route a i g = host_route b j h \<longleftrightarrow> pfx_string (hostPrefix a) = pfx_string (hostPrefix b) \<and> i = j \<and> g = h"
  by (auto simp: host_route_def)

lemma bar_split: "bar_free x \<Longrightarrow> bar_free y \<Longrightarrow> x @ CHR ''|'' # s = y @ CHR ''|'' # t \<longleftrightarrow> x = y \<and> s = t"
  by (auto simp: bar_free_def append_eq_append_conv2 append_eq_Cons_conv Cons_eq_append_conv)

lemma family_key_inj: "family_key i v = family_key j u \<longleftrightarrow> i = j \<and> v = u"
  by (auto simp: family_key_def)

definition gateway_key :: "route_state \<Rightarrow> string" where
  "gateway_key r = rt_Prefix r @ ''|'' @ rt_Interface r"

definition dns_key :: "route_state \<Rightarrow> string" where
  "dns_key r = rt_Prefix r @ ''|'' @ rt_Interface r @ ''|'' @ rt_Gateway r"

lemma map_le_put: "(gm_get m k = None \<or> gm_get m k = Some v) \<Longrightarrow> gm_get m \<subseteq>\<^sub>m gm_get (gm_put m k v)"
  by (auto simp: map_le_def)

lemma map_le_some: "m \<subseteq>\<^sub>m m' \<Longrightarrow> m k = Some v \<Longrightarrow> m' k = Some v"
  by (metis domI map_le_def)


section \<open>Gateways\<close>

text \<open>The host already has a direct route to this very address.\<close>

definition direct_host :: "lookups \<Rightarrow> addr \<Rightarrow> string \<Rightarrow> bool" where
  "direct_host lk a i =
     (case lk_route lk a i of
        Inl _ \<Rightarrow> False
      | Inr l \<Rightarrow> Interface l = i \<and> exactHostDestination (Destination l) a \<and> on_link (Gateway l))"

definition reached :: "lookups \<Rightarrow> route_map \<Rightarrow> addr \<Rightarrow> string \<Rightarrow> bool" where
  "reached lk gws g i = (host_route g i [] \<in> ran (gm_get gws) \<or> direct_host lk (without_zone g) i)"

definition gateways_inv :: "string set \<Rightarrow> owners \<Rightarrow> route_map \<Rightarrow> bool" where
  "gateways_inv ifs owners gws =
     (gm_wf gws \<and>
      (\<forall>k r. gm_get gws k = Some r \<longrightarrow>
         (\<exists>g i. r = host_route g i [] \<and> k = gateway_key r \<and> fine_addr g \<and> i \<in> ifs \<and> gm_get owners g = Some i)))"

lemma reached_mono: "reached lk m g i \<Longrightarrow> gm_get m \<subseteq>\<^sub>m gm_get m' \<Longrightarrow> reached lk m' g i"
  by (auto simp: reached_def ran_def dest: map_le_some)

lemma claim_Inr:
  assumes "claimBypassAddress owners a i = Inr owners'"
  shows "gm_get owners \<subseteq>\<^sub>m gm_get owners'" "gm_get owners' a = Some i"
  using assms by (auto simp: claimBypassAddress_def map_le_def split: option.splits if_splits)

lemma gateways_inv_owners:
  "gateways_inv ifs owners gws \<Longrightarrow> gm_get owners \<subseteq>\<^sub>m gm_get owners' \<Longrightarrow> gateways_inv ifs owners' gws"
  unfolding gateways_inv_def by (blast dest: map_le_some)

lemma addGatewayBypass_Inr:
  assumes "addGatewayBypass owners gws g i = Inr (owners', gws')" and "gateways_inv ifs owners gws"
    and "fine_addr g" and "i \<in> ifs"
  shows "gateways_inv ifs owners' gws'" "gm_get owners \<subseteq>\<^sub>m gm_get owners'" "gm_get gws \<subseteq>\<^sub>m gm_get gws'"
    "host_route g i [] \<in> ran (gm_get gws')"
proof -
  let ?r = "host_route g i []"
  have c: "claimBypassAddress owners g i = Inr owners'" and gws': "gws' = gm_put gws (gateway_key ?r) ?r"
    using assms(1) by (auto simp: addGatewayBypass_def bindE_Inr_iff Let_def gateway_key_def)
  show "gm_get owners \<subseteq>\<^sub>m gm_get owners'" by (rule claim_Inr(1) [OF c])
  then have inv: "gateways_inv ifs owners' gws" using assms(2) gateways_inv_owners by blast
  have "gm_get gws (gateway_key ?r) = Some r \<Longrightarrow> r = ?r" for r
    using assms(2,3) host_text(2) by (fastforce simp: gateways_inv_def gateway_key_def bar_split host_route_eq)
  then show "gm_get gws \<subseteq>\<^sub>m gm_get gws'" unfolding gws' by (metis map_le_put option.exhaust)
  show "gateways_inv ifs owners' gws'"
    using inv assms(3,4) claim_Inr(2) [OF c] unfolding gateways_inv_def gws' by (auto simp: gm.wf_put)
  show "?r \<in> ran (gm_get gws')" by (auto simp: gws' ran_def)
qed

lemma proveGatewayBypass_Inr:
  assumes "proveGatewayBypass lk owned owners gws g i = Inr (owners', gws')" and "gateways_inv ifs owners gws"
    and "fine_addr g" and "i \<in> ifs"
  shows "gateways_inv ifs owners' gws' \<and> gm_get owners \<subseteq>\<^sub>m gm_get owners' \<and> gm_get gws \<subseteq>\<^sub>m gm_get gws' \<and>
    reached lk gws' g i"
proof -
  consider (add) "addGatewayBypass owners gws g i = Inr (owners', gws')"
    | (claim) "claimBypassAddress owners g i = Inr owners'" "gws' = gws" "direct_host lk (without_zone g) i"
    using assms(1) by (auto simp: proveGatewayBypass_def direct_host_def Let_def bindE_Inr_iff split: sum.splits if_splits)
  then show ?thesis
  proof cases
    case add
    show ?thesis using addGatewayBypass_Inr [OF add assms(2-4)] by (simp add: reached_def)
  next
    case claim
    then show ?thesis using claim_Inr(1) [OF claim(1)] gateways_inv_owners [OF assms(2)] by (simp add: reached_def)
  qed
qed


section \<open>The state of a proof\<close>

definition dns_inv :: "lookups \<Rightarrow> string set \<Rightarrow> owners \<Rightarrow> route_map \<Rightarrow> route_map \<Rightarrow> bool" where
  "dns_inv lk ifs owners gws dns =
     (gm_wf dns \<and>
      (\<forall>k r. gm_get dns k = Some r \<longrightarrow>
         (\<exists>a i gw. r = host_route a i gw \<and> k = dns_key r \<and> fine_addr a \<and> i \<in> ifs \<and> gm_get owners a = Some i \<and>
            (gw = [] \<or> (\<exists>g. gw = addr_string g \<and> fine_addr g \<and> is4 g = is4 a \<and> reached lk gws g i)))))"

definition scoped_inv :: "lookups \<Rightarrow> string set \<Rightarrow> route_map \<Rightarrow> route_map \<Rightarrow> bool" where
  "scoped_inv lk ifs gws scoped =
     (gm_wf scoped \<and>
      (\<forall>k r. gm_get scoped k = Some r \<longrightarrow>
         (\<exists>p i g. r = scoped_route p i g \<and> p \<in> set (ipv4CapturePrefixes @ ipv6CapturePrefixes) \<and> i \<in> ifs \<and>
            fine_addr g \<and> is4 g = is4 (pfx_addr p) \<and> reached lk gws g i)))"

definition defaults_inv :: "lookups \<Rightarrow> route_map \<Rightarrow> (string, addr) gomap \<Rightarrow> bool" where
  "defaults_inv lk gws defaults =
     (\<forall>i v g. gm_get defaults (family_key i v) = Some g \<longrightarrow> fine_addr g \<and> is4 g = (\<not> v) \<and> reached lk gws g i)"

definition proof_inv :: "lookups \<Rightarrow> string set \<Rightarrow> proof_state \<Rightarrow> bool" where
  "proof_inv lk ifs st =
     (gateways_inv ifs (pr_owners st) (pr_gateways st) \<and>
      dns_inv lk ifs (pr_owners st) (pr_gateways st) (pr_dns st) \<and>
      scoped_inv lk ifs (pr_gateways st) (pr_scoped st) \<and>
      defaults_inv lk (pr_gateways st) (pr_defaults st))"

text \<open>What has been recorded stays recorded.\<close>

definition extends :: "proof_state \<Rightarrow> proof_state \<Rightarrow> bool" where
  "extends st st' =
     (gm_get (pr_owners st) \<subseteq>\<^sub>m gm_get (pr_owners st') \<and> gm_get (pr_gateways st) \<subseteq>\<^sub>m gm_get (pr_gateways st') \<and>
      gm_get (pr_dns st) \<subseteq>\<^sub>m gm_get (pr_dns st') \<and> gm_get (pr_defaults st) \<subseteq>\<^sub>m gm_get (pr_defaults st'))"

lemma extends_refl [simp]: "extends st st"
  by (simp add: extends_def)

lemma extends_trans: "extends st st' \<Longrightarrow> extends st' st'' \<Longrightarrow> extends st st''"
  unfolding extends_def by (metis map_le_trans)

lemma dns_inv_mono:
  "dns_inv lk ifs o1 g1 dns \<Longrightarrow> gm_get o1 \<subseteq>\<^sub>m gm_get o2 \<Longrightarrow> gm_get g1 \<subseteq>\<^sub>m gm_get g2 \<Longrightarrow> dns_inv lk ifs o2 g2 dns"
  unfolding dns_inv_def by (blast dest: map_le_some reached_mono)

lemma scoped_inv_mono:
  "scoped_inv lk ifs g1 scoped \<Longrightarrow> gm_get g1 \<subseteq>\<^sub>m gm_get g2 \<Longrightarrow> scoped_inv lk ifs g2 scoped"
  unfolding scoped_inv_def by (blast dest: reached_mono)

lemma defaults_inv_mono:
  "defaults_inv lk g1 defaults \<Longrightarrow> gm_get g1 \<subseteq>\<^sub>m gm_get g2 \<Longrightarrow> defaults_inv lk g2 defaults"
  unfolding defaults_inv_def by (metis reached_mono)

lemma usable_gateway:
  assumes "parseUsableGateway raw d = Inr g"
  shows "fine_addr g" "is4 g = is4 d" "parse_addr raw = Some g"
  using assms parse_addr_valid [of raw g]
  by (auto simp: parseUsableGateway_def fine_addr_def split: option.splits if_splits)

lemma scoped_inv_put:
  assumes "scoped_inv lk ifs gws scoped" and "i \<in> ifs" and "fine_addr g" and "is4 g = is4 (pfx_addr p)"
    and "reached lk gws g i" and "p \<in> set (ipv4CapturePrefixes @ ipv6CapturePrefixes)"
  shows "scoped_inv lk ifs gws (put_scoped i g p scoped)"
  using assms unfolding scoped_inv_def put_scoped_def Let_def by (auto simp: gm.wf_put)

lemma scoped_inv_fold:
  assumes "scoped_inv lk ifs gws scoped" and "i \<in> ifs" and "fine_addr g" and "reached lk gws g i"
    and "\<forall>p \<in> set ps. is4 g = is4 (pfx_addr p) \<and> p \<in> set (ipv4CapturePrefixes @ ipv6CapturePrefixes)"
  shows "scoped_inv lk ifs gws (fold (put_scoped i g) ps scoped)"
  using assms(1,5)
proof (induction ps arbitrary: scoped)
  case (Cons p ps)
  then show ?case using scoped_inv_put [OF Cons.prems(1) assms(2,3) _ assms(4), of p] by simp
qed simp

lemma capture_prefixes_family:
  "p \<in> set (capture_prefixes v) \<Longrightarrow> is4 (pfx_addr p) = (\<not> v) \<and> p \<in> set (ipv4CapturePrefixes @ ipv6CapturePrefixes)"
  by (auto simp: capture_prefixes_def ipv4CapturePrefixes_def ipv6CapturePrefixes_def split: if_splits)

lemma probe_family: "is4 (hd (probe_candidates v)) = (\<not> v)"
  by (simp add: probe_candidates_def)

definition has_default :: "outbound_cfg \<Rightarrow> bool \<Rightarrow> proof_state \<Rightarrow> bool" where
  "has_default ob v st = gm_has (pr_defaults st) (family_key (ob_Interface ob) v)"

lemma prove_family_Inr:
  assumes "prove_family lk owned ob st v = Inr st'" and "proof_inv lk ifs st" and "ob_Interface ob \<in> ifs"
  shows "proof_inv lk ifs st' \<and> extends st st' \<and> has_default ob v st'"
proof (cases "has_default ob v st")
  case True
  then show ?thesis using assms by (simp add: prove_family_def Let_def has_default_def)
next
  case False
  let ?i = "ob_Interface ob" and ?k = "family_key (ob_Interface ob) v"
  obtain l :: route_lookup and g owners gws where g: "parseUsableGateway (Gateway l) (hd (probe_candidates v)) = Inr g"
    and gw: "proveGatewayBypass lk owned (pr_owners st) (pr_gateways st) g ?i = Inr (owners, gws)"
    and st': "st' = record_family ?i v g owners gws st"
    using assms(1) False
    by (auto simp: prove_family_def has_default_def Let_def bindE_Inr_iff split: sum.splits if_splits option.splits)
  have fine: "fine_addr g" "is4 g = (\<not> v)" using usable_gateway [OF g] probe_family by simp_all
  have gates: "gateways_inv ifs owners gws" "gm_get (pr_owners st) \<subseteq>\<^sub>m gm_get owners"
    "gm_get (pr_gateways st) \<subseteq>\<^sub>m gm_get gws" "reached lk gws g ?i"
    using proveGatewayBypass_Inr [OF gw _ fine(1) assms(3)] assms(2) by (simp_all add: proof_inv_def)
  have "scoped_inv lk ifs gws (fold (put_scoped ?i g) (capture_prefixes v) (pr_scoped st))"
  proof (rule scoped_inv_fold [OF _ assms(3) fine(1) gates(4)])
    show "scoped_inv lk ifs gws (pr_scoped st)"
      using assms(2) gates(3) scoped_inv_mono by (simp add: proof_inv_def) blast
    show "\<forall>p \<in> set (capture_prefixes v). is4 g = is4 (pfx_addr p) \<and> p \<in> set (ipv4CapturePrefixes @ ipv6CapturePrefixes)"
      using capture_prefixes_family fine(2) by blast
  qed
  moreover have "defaults_inv lk gws (gm_put (pr_defaults st) ?k g)"
    using defaults_inv_mono [of lk "pr_gateways st" "pr_defaults st" gws] assms(2) gates fine
    by (auto simp: defaults_inv_def proof_inv_def family_key_inj)
  moreover have "dns_inv lk ifs owners gws (pr_dns st)"
    using assms(2) gates dns_inv_mono by (simp add: proof_inv_def) blast
  moreover have "gm_get (pr_defaults st) \<subseteq>\<^sub>m gm_get (gm_put (pr_defaults st) ?k g)"
    using False by (intro map_le_put) (simp add: has_default_def)
  ultimately show ?thesis
    using gates unfolding st' record_family_def by (simp add: proof_inv_def extends_def has_default_def)
qed


text \<open>A server is served when a host route to it is on record, or the host has a direct one.\<close>

definition served :: "lookups \<Rightarrow> route_state set \<Rightarrow> addr \<Rightarrow> string \<Rightarrow> bool" where
  "served lk rs a i = ((\<exists>gw. host_route a i gw \<in> rs) \<or> direct_host lk a i)"

definition recorded :: "proof_state \<Rightarrow> route_state set" where
  "recorded st = ran (gm_get (pr_gateways st)) \<union> ran (gm_get (pr_dns st))"

lemma recorded_mono: "extends st st' \<Longrightarrow> recorded st \<subseteq> recorded st'"
  unfolding recorded_def extends_def by (auto simp: ran_def dest: map_le_some)

lemma served_mono: "served lk rs a i \<Longrightarrow> rs \<subseteq> rs' \<Longrightarrow> served lk rs' a i"
  by (auto simp: served_def)

definition gateway_fits :: "lookups \<Rightarrow> route_map \<Rightarrow> addr \<Rightarrow> string \<Rightarrow> string \<Rightarrow> bool" where
  "gateway_fits lk gws a i gw =
     (gw = [] \<or> (\<exists>g. gw = addr_string g \<and> fine_addr g \<and> is4 g = is4 a \<and> reached lk gws g i))"

lemma dns_inv_put:
  assumes "dns_inv lk ifs owners gws dns" and "fine_addr a" and "i \<in> ifs" and "gm_get owners a = Some i"
    and "gateway_fits lk gws a i gw" and "\<forall>j \<in> ifs. bar_free j"
  shows "dns_inv lk ifs owners gws (gm_put dns (dns_key (host_route a i gw)) (host_route a i gw))"
    "gm_get dns \<subseteq>\<^sub>m gm_get (gm_put dns (dns_key (host_route a i gw)) (host_route a i gw))"
proof -
  let ?r = "host_route a i gw"
  have "r = ?r" if r: "gm_get dns (dns_key ?r) = Some r" for r
  proof -
    obtain b j h where b: "r = host_route b j h" "dns_key ?r = dns_key r" "fine_addr b" "j \<in> ifs"
      using assms(1) r unfolding dns_inv_def by blast
    then show ?thesis
      using assms(2,3,6) host_text(2) [of a] host_text(2) [of b]
      by (simp add: dns_key_def bar_split host_route_eq)
  qed
  then show "gm_get dns \<subseteq>\<^sub>m gm_get (gm_put dns (dns_key ?r) ?r)" by (metis map_le_put option.exhaust)
  show "dns_inv lk ifs owners gws (gm_put dns (dns_key ?r) ?r)"
    using assms(1-5) unfolding dns_inv_def gateway_fits_def by (auto simp: gm.wf_put)
qed

lemma add_server_Inr:
  assumes "proof_inv lk ifs st" and "fine_addr a" and "ob_Interface ob \<in> ifs"
    and "gm_get (pr_owners st) a = Some (ob_Interface ob)"
    and "gateway_fits lk (pr_gateways st) a (ob_Interface ob) gw" and "\<forall>j \<in> ifs. bar_free j"
    and "a = without_zone physical \<Longrightarrow> reached lk (pr_gateways st) physical (ob_Interface ob)"
  shows "proof_inv lk ifs (add_server ob a physical gw st) \<and> extends st (add_server ob a physical gw st) \<and>
    served lk (recorded (add_server ob a physical gw st)) a (ob_Interface ob)"
proof (cases "a = without_zone physical")
  case True
  then have "served lk (recorded st) a (ob_Interface ob)"
    using assms(7) by (auto simp: reached_def served_def recorded_def)
  then show ?thesis using True assms(1) by (simp add: add_server_def)
next
  case False
  let ?r = "host_route a (ob_Interface ob) gw"
  have st': "add_server ob a physical gw st = st\<lparr>pr_dns := gm_put (pr_dns st) (dns_key ?r) ?r\<rparr>"
    using False by (simp add: add_server_def Let_def dns_key_def)
  note put = dns_inv_put [OF _ assms(2,3,4,5,6), of "pr_dns st"]
  have "?r \<in> recorded (add_server ob a physical gw st)"
    unfolding st' by (auto simp: recorded_def ran_def)
  then show ?thesis
    using put assms(1) unfolding st' by (auto simp: proof_inv_def extends_def served_def)
qed

lemma claim_inv:
  assumes "claimBypassAddress (pr_owners st) a i = Inr owners" and "proof_inv lk ifs st"
  shows "proof_inv lk ifs (st\<lparr>pr_owners := owners\<rparr>) \<and> extends st (st\<lparr>pr_owners := owners\<rparr>) \<and> gm_get owners a = Some i"
  using assms(2) claim_Inr [OF assms(1)] gateways_inv_owners dns_inv_mono
  by (auto simp: proof_inv_def extends_def)

lemma route_server_Inr:
  assumes "route_server lk owned ob a physical l st = Inr st'" and "proof_inv lk ifs st" and "fine_addr a"
    and "ob_Interface ob \<in> ifs" and "\<forall>j \<in> ifs. bar_free j"
    and "a = without_zone physical \<Longrightarrow> reached lk (pr_gateways st) physical (ob_Interface ob)"
  shows "proof_inv lk ifs st' \<and> extends st st' \<and> served lk (recorded st') a (ob_Interface ob)"
proof -
  let ?i = "ob_Interface ob"
  obtain owners where c: "claimBypassAddress (pr_owners st) a ?i = Inr owners"
    using assms(1) by (auto simp: route_server_def Let_def bindE_Inr_iff)
  let ?st1 = "st\<lparr>pr_owners := owners\<rparr>"
  note st1 = claim_inv [OF c assms(2)]
  show ?thesis
  proof (cases "parseUsableGateway (Gateway l) a")
    case (Inl e)
    then have st': "st' = add_server ob a physical [] ?st1"
      using assms(1) c by (auto simp: route_server_def Let_def split: if_splits)
    show ?thesis
      using add_server_Inr [of lk ifs ?st1 a ob "[]" physical] st1 assms(3-6) extends_trans [of st ?st1]
      unfolding st' by (simp add: gateway_fits_def)
  next
    case (Inr g)
    then obtain owners' gws where gw: "proveGatewayBypass lk owned owners (pr_gateways st) g ?i = Inr (owners', gws)"
      and st': "st' = add_server ob a physical (if a \<noteq> without_zone g then addr_string g else [])
        (st\<lparr>pr_owners := owners', pr_gateways := gws\<rparr>)"
      using assms(1) c by (auto simp: route_server_def Let_def bindE_Inr_iff)
    let ?st2 = "st\<lparr>pr_owners := owners', pr_gateways := gws\<rparr>"
    note g = usable_gateway [OF Inr]
    have gates: "gateways_inv ifs owners' gws" "gm_get owners \<subseteq>\<^sub>m gm_get owners'" "gm_get (pr_gateways st) \<subseteq>\<^sub>m gm_get gws"
      "reached lk gws g ?i"
      using proveGatewayBypass_Inr [OF gw _ g(1) assms(4)] st1 by (simp_all add: proof_inv_def)
    have inv2: "proof_inv lk ifs ?st2"
      using gates st1 dns_inv_mono [of lk ifs owners "pr_gateways st" "pr_dns st" owners' gws]
        scoped_inv_mono [of lk ifs "pr_gateways st" "pr_scoped st" gws] defaults_inv_mono [of lk "pr_gateways st" "pr_defaults st" gws]
      by (simp add: proof_inv_def)
    have ext: "extends st ?st2"
      using gates(3) st1 map_le_trans [OF _ gates(2), of "gm_get (pr_owners st)"] by (simp add: extends_def)
    have own: "gm_get (pr_owners ?st2) a = Some ?i" using st1 gates(2) by (auto dest: map_le_some)
    have fits: "gateway_fits lk (pr_gateways ?st2) a ?i (if a \<noteq> without_zone g then addr_string g else [])"
      using g(1,2) gates(4) unfolding gateway_fits_def by fastforce
    have "a = without_zone physical \<Longrightarrow> reached lk (pr_gateways ?st2) physical ?i"
      using assms(6) gates(3) reached_mono by auto
    note added = add_server_Inr [OF inv2 assms(3,4) own fits assms(5) this]
    show ?thesis using added extends_trans [OF ext] unfolding st' by simp
  qed
qed


lemma prove_server_Inr:
  assumes "prove_server lk v6 owned ob st e = Inr st'" and "proof_inv lk ifs st" and "fine_addr (ap_addr e)"
    and "ob_Interface ob \<in> ifs" and "\<forall>j \<in> ifs. bar_free j"
  shows "proof_inv lk ifs st' \<and> extends st st' \<and>
    ((is6 (ap_addr e) \<longrightarrow> v6) \<longrightarrow> served lk (recorded st') (ap_addr e) (ob_Interface ob))"
proof -
  let ?i = "ob_Interface ob" and ?a = "ap_addr e"
  let ?physical = "case gm_get (pr_defaults st) (family_key ?i (is6 ?a)) of None \<Rightarrow> NoAddr | Some g \<Rightarrow> g"
  have phys: "reached lk (pr_gateways st) ?physical ?i" if "?a = without_zone ?physical"
  proof (cases "gm_get (pr_defaults st) (family_key ?i (is6 ?a))")
    case None
    then have "?a = NoAddr" using that by simp
    then show ?thesis using assms(3) by (simp add: fine_addr_def)
  next
    case (Some g)
    then show ?thesis using assms(2) by (auto simp: proof_inv_def defaults_inv_def)
  qed
  show ?thesis
  proof (cases "is6 ?a \<and> \<not> v6")
    case True
    then show ?thesis using assms(1,2) by (simp add: prove_server_def Let_def)
  next
    case False
    then obtain l where l: "lk_route lk ?a ?i = Inr l" "Interface l = ?i"
      using assms(1) by (auto simp: prove_server_def Let_def split: sum.splits if_splits)
    show ?thesis
    proof (cases "exactHostDestination (Destination l) ?a \<and> \<not> ownsHostRoute owned ?a ?i (Gateway l)")
      case True
      then obtain owners where c: "claimBypassAddress (pr_owners st) ?a ?i = Inr owners" "on_link (Gateway l)"
        and st': "st' = st\<lparr>pr_owners := owners\<rparr>"
        using assms(1) False l by (auto simp: prove_server_def Let_def bindE_Inr_iff split: if_splits)
      have "direct_host lk ?a ?i" using True l c(2) by (simp add: direct_host_def)
      then show ?thesis using claim_inv [OF c(1) assms(2)] unfolding st' by (simp add: served_def)
    next
      case route: False
      then have "route_server lk owned ob ?a ?physical l st = Inr st'"
        using assms(1) False l by (auto simp: prove_server_def Let_def)
      from route_server_Inr [OF this assms(2-5) phys] show ?thesis by simp
    qed
  qed
qed


section \<open>The whole plan\<close>

definition outbound_fine :: "outbound_cfg \<Rightarrow> bool" where
  "outbound_fine ob = (validInterfaceName (ob_Interface ob) \<and> (\<forall>s \<in> set (ob_DNS ob). fine_addr (ap_addr s)))"

lemma interface_bar_free: "validInterfaceName i \<Longrightarrow> bar_free i"
proof -
  have "\<not> ident_char (CHR ''|'')" by code_simp
  then show "validInterfaceName i \<Longrightarrow> bar_free i" by (auto simp: validInterfaceName_def bar_free_def list_all_iff)
qed

definition all_served :: "lookups \<Rightarrow> bool \<Rightarrow> route_state set \<Rightarrow> outbound_cfg \<Rightarrow> bool" where
  "all_served lk v6 rs ob =
     (\<forall>s \<in> set (ob_DNS ob). (is6 (ap_addr s) \<longrightarrow> v6) \<longrightarrow> served lk rs (ap_addr s) (ob_Interface ob))"

lemma no_proofs_inv: "proof_inv lk ifs no_proofs"
  by (simp add: proof_inv_def no_proofs_def gateways_inv_def dns_inv_def scoped_inv_def defaults_inv_def)

lemma has_default_mono: "has_default ob v st \<Longrightarrow> extends st st' \<Longrightarrow> has_default ob v st'"
  unfolding has_default_def extends_def by (auto dest: map_le_some)

lemma prove_outbound_Inr:
  assumes "prove_outbound lk v6 owned st ob = Inr st'" and "proof_inv lk ifs st" and "ob_Interface ob \<in> ifs"
  shows "proof_inv lk ifs st' \<and> extends st st' \<and> (\<forall>v \<in> set (families v6). has_default ob v st')"
  using assms(1) unfolding prove_outbound_def
proof (rule foldE_establishes [where P = "proof_inv lk ifs" and R = extends and Q = "has_default ob"])
  show "proof_inv lk ifs t \<and> extends s t \<and> has_default ob v t"
    if "proof_inv lk ifs s" "prove_family lk owned ob s v = Inr t" for s v t
    by (rule prove_family_Inr [OF that(2,1) assms(3)])
qed (use assms(2) extends_refl extends_trans has_default_mono in blast)+

lemma prove_servers_Inr:
  assumes "prove_servers lk v6 owned st ob = Inr st'" and "proof_inv lk ifs st" and "outbound_fine ob"
    and "ob_Interface ob \<in> ifs" and "\<forall>j \<in> ifs. bar_free j"
  shows "proof_inv lk ifs st' \<and> extends st st' \<and> all_served lk v6 (recorded st') ob"
  using assms(1) unfolding prove_servers_def all_served_def
proof (rule foldE_establishes [where P = "proof_inv lk ifs" and R = extends and
        Q = "\<lambda>s st. (is6 (ap_addr s) \<longrightarrow> v6) \<longrightarrow> served lk (recorded st) (ap_addr s) (ob_Interface ob)"])
  show "proof_inv lk ifs t \<and> extends s t \<and> ((is6 (ap_addr e) \<longrightarrow> v6) \<longrightarrow> served lk (recorded t) (ap_addr e) (ob_Interface ob))"
    if "e \<in> set (ob_DNS ob)" "proof_inv lk ifs s" "prove_server lk v6 owned ob s e = Inr t" for s e t
    using prove_server_Inr [OF that(3,2) _ assms(4,5)] that(1) assms(3) by (simp add: outbound_fine_def)
qed (use assms(2) extends_refl extends_trans served_mono recorded_mono in blast)+

lemma plan_Inr:
  assumes "planDefaultRouteCaptureOwned c v6 lk owned = Inr p" and "DefaultRoute c"
    and "\<forall>ob \<in> set (direct_outbounds c). outbound_fine ob"
  obtains st where "p = finished_plan v6 st" "proof_inv lk (ob_Interface ` set (direct_outbounds c)) st"
    "\<forall>ob \<in> set (direct_outbounds c). all_served lk v6 (recorded st) ob"
    "\<forall>ob \<in> set (direct_outbounds c). \<forall>v \<in> set (families v6). has_default ob v st"
proof -
  let ?obs = "direct_outbounds c" and ?ifs = "ob_Interface ` set (direct_outbounds c)"
  obtain st1 st where s1: "foldE (prove_outbound lk v6 owned) no_proofs ?obs = Inr st1"
    and s2: "foldE (prove_servers lk v6 owned) st1 ?obs = Inr st" and p: "p = finished_plan v6 st"
    using assms(1,2) by (auto simp: planDefaultRouteCaptureOwned_def bindE_Inr_iff)
  have free: "\<forall>j \<in> ?ifs. bar_free j" using assms(3) interface_bar_free by (auto simp: outbound_fine_def)
  have 1: "proof_inv lk ?ifs st1 \<and> extends no_proofs st1 \<and> (\<forall>ob \<in> set ?obs. \<forall>v \<in> set (families v6). has_default ob v st1)"
  proof (rule foldE_establishes [OF s1, where P = "proof_inv lk ?ifs" and R = extends and
          Q = "\<lambda>ob st. \<forall>v \<in> set (families v6). has_default ob v st"])
    show "proof_inv lk ?ifs t \<and> extends s t \<and> (\<forall>v \<in> set (families v6). has_default ob v t)"
      if "ob \<in> set ?obs" "proof_inv lk ?ifs s" "prove_outbound lk v6 owned s ob = Inr t" for s ob t
      using prove_outbound_Inr [OF that(3,2)] that(1) by blast
  qed (use no_proofs_inv extends_refl extends_trans has_default_mono in blast)+
  have mono: "all_served lk v6 (recorded s) ob \<Longrightarrow> extends s t \<Longrightarrow> all_served lk v6 (recorded t) ob" for s t ob
    using served_mono recorded_mono by (simp add: all_served_def) blast
  have "proof_inv lk ?ifs st \<and> extends st1 st \<and> (\<forall>ob \<in> set ?obs. all_served lk v6 (recorded st) ob)"
  proof (rule foldE_establishes [OF s2, where P = "proof_inv lk ?ifs" and R = extends and
          Q = "\<lambda>ob st. all_served lk v6 (recorded st) ob"])
    show "proof_inv lk ?ifs t \<and> extends s t \<and> all_served lk v6 (recorded t) ob"
      if "ob \<in> set ?obs" "proof_inv lk ?ifs s" "prove_servers lk v6 owned s ob = Inr t" for s ob t
      using prove_servers_Inr [OF that(3,2) _ _ free] assms(3) that(1) by blast
  qed (use 1 extends_refl extends_trans mono in blast)+
  then show thesis using that [OF p] 1 has_default_mono by blast
qed

lemma set_sorted_routes: "gm_wf m \<Longrightarrow> set (sorted_routes m) = ran (gm_get m)"
  by (force simp: sorted_routes_def ran_def gm_wf_def gm_get_def image_iff)

lemma distinct_sorted_routes:
  assumes "gm_wf m" and "\<And>k r. gm_get m k = Some r \<Longrightarrow> k = f r"
  shows "distinct (sorted_routes m)"
proof -
  have "inj_on (\<lambda>k. the (gm_get m k)) (fst ` set m)"
    using assms(2) by (intro inj_onI) (metis gm_keys_fst option.collapse)
  then show ?thesis using assms(1) by (simp add: sorted_routes_def distinct_map gm_wf_def)
qed

lemma finished_plan_sets:
  assumes "proof_inv lk ifs st"
  shows "set (Bypasses (finished_plan v6 st)) = recorded st"
    "set (Scoped (finished_plan v6 st)) = ran (gm_get (pr_scoped st))"
  using assms by (auto simp: finished_plan_def recorded_def set_sorted_routes proof_inv_def gateways_inv_def dns_inv_def scoped_inv_def)

end
