(* ===== verification/App_Capture_Properties.thy ===== *)
theory App_Capture_Properties
  imports App_Capture_Invariant
begin

text \<open>
  Capturing the default route is safe: the upstream DNS servers and the gateways the program itself needs
  keep their routes on the physical interfaces, and the routes it plans are ones it will accept.
\<close>

section \<open>The outbounds of a plan\<close>

lemma is4in6_unmap [simp]: "\<not> is4in6 (unmap a)"
  by (cases a) auto

definition usable_servers :: "addrport list \<Rightarrow> bool" where
  "usable_servers ss = (\<forall>s \<in> set ss. fine_addr (ap_addr s))"

lemma dhcp_values_usable: "dhcp_values ss raws = Inr ss' \<Longrightarrow> usable_servers ss \<Longrightarrow> usable_servers ss'"
  by (induction ss raws rule: dhcp_values.induct)
     (auto simp: usable_servers_def fine_addr_def usableUpstreamDNS_def Let_def split: option.splits if_splits)

lemma dhcp_line_usable: "dhcp_line ss raw = Inr ss' \<Longrightarrow> usable_servers ss \<Longrightarrow> usable_servers ss'"
  using dhcp_values_usable by (auto simp: dhcp_line_def Let_def split: if_splits)

lemma parseDHCPDNS_usable:
  assumes "parseDHCPDNS output = Inr ss"
  shows "usable_servers ss"
proof -
  obtain lines where "foldE dhcp_line [] lines = Inr ss"
    using assms by (auto simp: parseDHCPDNS_def bindE_Inr_iff split: prod.splits if_splits)
  then show ?thesis
    by (rule foldE_keeps) (auto simp: usable_servers_def dest: dhcp_line_usable)
qed

lemma discover_loop_usable:
  assumes "discover_loop run ns result h = ((d, e), h')" and "\<forall>ss \<in> ran (gm_get result). usable_servers ss"
  shows "\<forall>ss \<in> ran (gm_get d). usable_servers ss"
  using assms
proof (induction ns arbitrary: result h)
  case (Cons n ns)
  have put: "\<forall>ss \<in> ran (gm_get (if servers = [] then result else gm_put result n servers)). usable_servers ss"
    if "parseDHCPDNS reply = Inr servers" for reply servers
    using Cons.prems(2) parseDHCPDNS_usable [OF that] by (auto simp: ran_def)
  obtain reply err h1 where run: "run ipconfig [''getpacket'', n] h = ((reply, err), h1)" by (metis surj_pair)
  then show ?case
    using Cons.prems put Cons.IH by (auto split: option.splits sum.splits if_splits)
qed simp

lemma effective_outbounds:
  "direct_outbounds (runtimeWithInterfaceDNS c d) = map (effective_outbound d) (direct_outbounds c)"
proof -
  have get: "gm_get (cfg_Outbounds (runtimeWithInterfaceDNS c d)) n = map_option (effective_outbound d) (gm_get (cfg_Outbounds c) n)"
    and keys: "map fst (cfg_Outbounds (runtimeWithInterfaceDNS c d)) = map fst (cfg_Outbounds c)" for n
    by (auto simp: runtimeWithInterfaceDNS_def gm_get_def map_of_map split_beta o_def)
  have "map (\<lambda>n. the (map_option (effective_outbound d) (gm_get (cfg_Outbounds c) n))) (sort (map fst (cfg_Outbounds c))) =
    map (effective_outbound d) (map (\<lambda>n. the (gm_get (cfg_Outbounds c) n)) (sort (map fst (cfg_Outbounds c))))"
  proof (simp, intro ballI)
    fix x assume "x \<in> set (cfg_Outbounds c)"
    then have "gm_get (cfg_Outbounds c) (fst x) \<noteq> None" by (metis gm_keys_fst image_eqI)
    then show "the (map_option (effective_outbound d) (gm_get (cfg_Outbounds c) (fst x))) =
        effective_outbound d (the (gm_get (cfg_Outbounds c) (fst x)))"
      by auto
  qed
  moreover have "ob_Type (effective_outbound d ob) = ob_Type ob" for ob
    by (simp add: effective_outbound_def)
  ultimately show ?thesis
    by (simp only: direct_outbounds_def get keys filter_map o_def)
qed

lemma configured_fine:
  assumes "config_compile raw = Inr c" and "ob \<in> set (direct_outbounds c)"
  shows "outbound_fine ob"
proof -
  obtain n where "n \<in> fst ` set (cfg_Outbounds c)" "ob = the (gm_get (cfg_Outbounds c) n)" and direct: "ob_Type ob = ''direct''"
    using assms(2) by (auto simp: direct_outbounds_def simp del: gm_keys_fst)
  then have n: "gm_get (cfg_Outbounds c) n = Some ob" by auto
  have "outbound_ok n ob" using compileOutbounds_ok(3) [OF config_compileD(6) [OF assms(1)] n] .
  then show ?thesis using direct by (auto simp: outbound_ok_def server_ok_def outbound_fine_def fine_addr_def)
qed

lemma direct_outbounds_fine:
  assumes "config_compile raw = Inr c" and "discoverInterfaceDNS run c h = ((d, e), h')"
  shows "\<forall>ob \<in> set (direct_outbounds (runtimeWithInterfaceDNS c d)). outbound_fine ob"
proof
  fix ob assume "ob \<in> set (direct_outbounds (runtimeWithInterfaceDNS c d))"
  then obtain ob0 where ob0: "ob = effective_outbound d ob0" "ob0 \<in> set (direct_outbounds c)"
    unfolding effective_outbounds by auto
  have "outbound_fine ob0" using configured_fine [OF assms(1) ob0(2)] .
  moreover have "usable_servers (servers_of d i)" for i
    using discover_loop_usable [OF assms(2) [unfolded discoverInterfaceDNS_def DiscoverInterfaceDNS_def]]
    by (cases "gm_get d i") (auto simp: servers_of_def usable_servers_def ran_def)
  ultimately show "outbound_fine ob"
    by (auto simp: ob0(1) effective_outbound_def outbound_fine_def usable_servers_def)
qed

lemma valid_interface: "validInterfaceName i = validSystemInterface i"
  by (auto simp: validInterfaceName_def validSystemInterface_def list_all_iff ident_char_def alnum_def)


section \<open>What a plan guarantees\<close>

text \<open>The bypasses before the first one that needs a gateway.\<close>

definition direct_bypasses :: "defaultRoutePlan \<Rightarrow> route_state set" where
  "direct_bypasses p = set (takeWhile (\<lambda>r. rt_Gateway r = []) (Bypasses p))"

lemma gateways_come_first:
  assumes "proof_inv lk ifs st"
  shows "ran (gm_get (pr_gateways st)) \<subseteq> direct_bypasses (finished_plan v6 st)"
proof -
  have wf: "gm_wf (pr_gateways st)" and "\<forall>r \<in> ran (gm_get (pr_gateways st)). rt_Gateway r = []"
    using assms by (fastforce simp: proof_inv_def gateways_inv_def ran_def)+
  then have "\<forall>r \<in> set (sorted_routes (pr_gateways st)). rt_Gateway r = []"
    using set_sorted_routes [OF wf] by simp
  then have "direct_bypasses (finished_plan v6 st) =
      set (sorted_routes (pr_gateways st) @ takeWhile (\<lambda>r. rt_Gateway r = []) (sorted_routes (pr_dns st)))"
    unfolding direct_bypasses_def finished_plan_def by (subst takeWhile_append2 [symmetric]) auto
  then show ?thesis using set_sorted_routes [OF wf] by auto
qed

lemma reached_served:
  assumes "proof_inv lk ifs st" and "reached lk (pr_gateways st) g i"
  shows "served lk (direct_bypasses (finished_plan v6 st)) (without_zone g) i"
  using assms(2) gateways_come_first [OF assms(1), of v6] by (auto simp: reached_def served_def)

lemma planned_gateway:
  assumes "proof_inv lk ifs st" and "r \<in> recorded st \<union> ran (gm_get (pr_scoped st))" and "rt_Gateway r \<noteq> []"
  shows "\<exists>g. rt_Gateway r = addr_string g \<and>
    served lk (direct_bypasses (finished_plan v6 st)) (without_zone g) (rt_Interface r)"
proof -
  have "\<exists>g. rt_Gateway r = addr_string g \<and> reached lk (pr_gateways st) g (rt_Interface r)"
    using assms
    by (fastforce simp: proof_inv_def gateways_inv_def dns_inv_def scoped_inv_def recorded_def ran_def scoped_route_def)
  then show ?thesis using reached_served [OF assms(1)] by blast
qed

lemma plan_serves:
  assumes "config_compile raw = Inr c" and "DefaultRoute c" and "discoverInterfaceDNS run c h = ((d, e), h')"
    and "planDefaultRouteCapture (runtimeWithInterfaceDNS c d) v6 lk = Inr p"
  obtains st where "p = finished_plan v6 st"
    "proof_inv lk (ob_Interface ` set (direct_outbounds (runtimeWithInterfaceDNS c d))) st"
    "\<forall>ob \<in> set (direct_outbounds (runtimeWithInterfaceDNS c d)). all_served lk v6 (set (Bypasses p)) ob"
proof -
  let ?c = "runtimeWithInterfaceDNS c d"
  have "DefaultRoute ?c" using assms(2) by (simp add: runtimeWithInterfaceDNS_def)
  from plan_Inr [OF assms(4) [unfolded planDefaultRouteCapture_def] this direct_outbounds_fine [OF assms(1,3)]]
  show thesis using that finished_plan_sets(1) by metis
qed

text \<open>
  C18: Capturing the default route never cuts the program off.  If a plan is made for a validated
  configuration, with the DNS servers discovered on the host, then every upstream DNS server of every
  direct outbound (of the families in use) has a host route on that outbound's physical interface: one of
  the planned bypasses, or a direct route the host already has.  The same holds of every gateway a planned
  route goes through, whose direct route is installed before any route that uses it.
\<close>

theorem captured_upstreams_bypassed:
  assumes "config_compile raw = Inr c" and "DefaultRoute c" and "discoverInterfaceDNS run c h = ((d, e), h')"
    and "planDefaultRouteCapture (runtimeWithInterfaceDNS c d) v6 lk = Inr p"
  shows "(\<forall>ob \<in> set (direct_outbounds (runtimeWithInterfaceDNS c d)). \<forall>s \<in> set (ob_DNS ob).
            (is6 (ap_addr s) \<longrightarrow> v6) \<longrightarrow> served lk (set (Bypasses p)) (ap_addr s) (ob_Interface ob)) \<and>
         (\<forall>r \<in> set (Bypasses p) \<union> set (Scoped p). rt_Gateway r \<noteq> [] \<longrightarrow>
            (\<exists>g. rt_Gateway r = addr_string g \<and> served lk (direct_bypasses p) (without_zone g) (rt_Interface r)))"
proof -
  obtain st where p: "p = finished_plan v6 st" and inv: "proof_inv lk (ob_Interface ` set (direct_outbounds (runtimeWithInterfaceDNS c d))) st"
    and served: "\<forall>ob \<in> set (direct_outbounds (runtimeWithInterfaceDNS c d)). all_served lk v6 (set (Bypasses p)) ob"
    by (rule plan_serves [OF assms])
  have "set (Bypasses p) \<union> set (Scoped p) = recorded st \<union> ran (gm_get (pr_scoped st))"
    unfolding p finished_plan_sets [OF inv] ..
  then show ?thesis using served planned_gateway [OF inv] unfolding p all_served_def by blast
qed


section \<open>Acceptable routes\<close>

lemma capture_prefix_text:
  assumes "p \<in> set (ipv4CapturePrefixes @ ipv6CapturePrefixes)"
  shows "parse_prefix (pfx_string p) = Some p \<and> \<not> is4in6 (pfx_addr p)"
  using assms parse_prefix_string [of "pfx_addr p" "pfx_bits p"]
  by (auto simp: ipv4CapturePrefixes_def ipv6CapturePrefixes_def)

lemma addr_string_ne: "fine_addr g \<Longrightarrow> addr_string g \<noteq> []"
  using parse_addr_string_zone [of g] by (auto simp: fine_addr_def parse_addr_def)

lemma valid_host_route:
  assumes "fine_addr a" and "validSystemInterface i" and "gateway_fits lk gws a i gw"
  shows "is_ok (validateRouteState (host_route a i gw))"
proof -
  have "hostPrefix a = Pfx (without_zone a) (host_width a)" using assms(1) by (simp add: hostPrefix_def fine_addr_def)
  then have "parse_prefix (pfx_string (hostPrefix a)) = Some (Pfx (without_zone a) (host_width a))" "\<not> is4in6 (without_zone a)"
    using host_text(1) [OF assms(1)] assms(1) by (simp_all add: fine_addr_def)
  moreover have "gw = [] \<or> (\<exists>g. parse_addr gw = Some g \<and> \<not> is4in6 g \<and> is4 g = is4 a)"
    using assms(3) parse_addr_string_zone by (auto simp: gateway_fits_def fine_addr_def)
  ultimately show ?thesis using assms(2) by (auto simp: validateRouteState_def)
qed

lemma valid_scoped_route:
  assumes "p \<in> set (ipv4CapturePrefixes @ ipv6CapturePrefixes)" and "validSystemInterface i" and "fine_addr g"
    and "is4 g = is4 (pfx_addr p)"
  shows "is_ok (validateRouteState (scoped_route p i g))"
  using capture_prefix_text [OF assms(1)] assms(2-4) addr_string_ne [OF assms(3)] parse_addr_string_zone [of g]
  by (auto simp: validateRouteState_def scoped_route_def fine_addr_def)

lemma valid_capture_route:
  assumes "p \<in> set (ipv4CapturePrefixes @ ipv6CapturePrefixes)" and "validSystemInterface i"
  shows "is_ok (validateRouteState \<lparr>rt_Prefix = pfx_string p, rt_Interface = i, rt_Gateway = [], rt_Scope = []\<rparr>)"
  using capture_prefix_text [OF assms(1)] assms(2) by (auto simp: validateRouteState_def)

lemma valid_plan_routes:
  assumes "proof_inv lk ifs st" and "\<forall>i \<in> ifs. validSystemInterface i" and "validSystemInterface tun"
    and "r \<in> set (plan_routes (finished_plan v6 st) tun)"
  shows "is_ok (validateRouteState r)"
proof -
  have "set (Prefixes (finished_plan v6 st)) \<subseteq> set (ipv4CapturePrefixes @ ipv6CapturePrefixes)"
    by (auto simp: finished_plan_def)
  then consider (recorded) "r \<in> recorded st" | (scoped) "r \<in> ran (gm_get (pr_scoped st))"
    | (capture) p where "p \<in> set (ipv4CapturePrefixes @ ipv6CapturePrefixes)"
        "r = \<lparr>rt_Prefix = pfx_string p, rt_Interface = tun, rt_Gateway = [], rt_Scope = []\<rparr>"
    using assms(4) finished_plan_sets [OF assms(1)] unfolding plan_routes_def by auto
  then show ?thesis
  proof cases
    case recorded
    then obtain a i gw where "r = host_route a i gw" "fine_addr a" "i \<in> ifs" "gateway_fits lk (pr_gateways st) a i gw"
      using assms(1)
      by (fastforce simp: recorded_def ran_def proof_inv_def gateways_inv_def dns_inv_def gateway_fits_def)
    then show ?thesis using valid_host_route assms(2) by blast
  next
    case scoped
    then show ?thesis
      using assms(1,2) valid_scoped_route unfolding proof_inv_def scoped_inv_def ran_def by blast
  next
    case capture
    then show ?thesis using valid_capture_route assms(3) by blast
  qed
qed

lemma recorded_owner:
  assumes "proof_inv lk ifs st" and "r \<in> recorded st"
  shows "\<exists>a i gw. r = host_route a i gw \<and> fine_addr a \<and> gm_get (pr_owners st) a = Some i"
  using assms by (fastforce simp: recorded_def ran_def proof_inv_def gateways_inv_def dns_inv_def)

lemma one_owner4:
  assumes "proof_inv lk ifs st" and "r1 \<in> recorded st" and "r2 \<in> recorded st"
    and "rt_Prefix r1 = rt_Prefix r2" and "parse_prefix (rt_Prefix r1) = Some (Pfx (V4 w) n)"
  shows "rt_Interface r1 = rt_Interface r2"
proof -
  obtain a i g b j k where r1: "r1 = host_route a i g" "fine_addr a" "gm_get (pr_owners st) a = Some i"
    and r2: "r2 = host_route b j k" "fine_addr b" "gm_get (pr_owners st) b = Some j"
    using recorded_owner [OF assms(1)] assms(2,3) by meson
  have "without_zone a = without_zone b" using host_text_inj [OF r1(2) r2(2)] assms(4) r1(1) r2(1) by simp
  moreover have "without_zone a = V4 w"
    using host_text(1) [OF r1(2)] assms(5) r1(1,2) by (auto simp: hostPrefix_def fine_addr_def)
  ultimately have "a = b" by (cases a; cases b) auto
  then show ?thesis using r1 r2 by simp
qed

text \<open>
  C40: Planned routes can be installed and undone.  Every route of a plan passes the check \<open>AddRoute\<close>,
  \<open>VerifyRoute\<close> and \<open>RemoveRoute\<close> make first, so none is refused half way; the two halves of the default
  route come after all bypasses; and no IPv4 address is bypassed through two interfaces.
\<close>

theorem planned_routes_accepted:
  assumes "config_compile raw = Inr c" and "DefaultRoute c" and "discoverInterfaceDNS run c h = ((d, e), h')"
    and "planDefaultRouteCapture (runtimeWithInterfaceDNS c d) v6 lk = Inr p" and "validSystemInterface tun"
  shows "(\<forall>r \<in> set (plan_routes p tun). is_ok (validateRouteState r)) \<and>
         (\<exists>captured. plan_routes p tun = Bypasses p @ Scoped p @ captured \<and>
            map rt_Prefix captured = [''0.0.0.0/1'', ''128.0.0.0/1''] @ (if v6 then [''::/1'', ''8000::/1''] else []) \<and>
            (\<forall>r \<in> set captured. rt_Interface r = tun)) \<and>
         (\<forall>r1 \<in> set (Bypasses p). \<forall>r2 \<in> set (Bypasses p). \<forall>w n.
            rt_Prefix r1 = rt_Prefix r2 \<and> parse_prefix (rt_Prefix r1) = Some (Pfx (V4 w) n) \<longrightarrow>
            rt_Interface r1 = rt_Interface r2)"
proof -
  let ?c = "runtimeWithInterfaceDNS c d"
  let ?ifs = "ob_Interface ` set (direct_outbounds ?c)"
  have "DefaultRoute ?c" using assms(2) by (simp add: runtimeWithInterfaceDNS_def)
  note fine = direct_outbounds_fine [OF assms(1,3)]
  from plan_Inr [OF assms(4) [unfolded planDefaultRouteCapture_def] \<open>DefaultRoute ?c\<close> fine]
  obtain st where p: "p = finished_plan v6 st" and inv: "proof_inv lk ?ifs st" by blast
  have ifs: "\<forall>i \<in> ?ifs. validSystemInterface i" using fine valid_interface by (auto simp: outbound_fine_def)
  have texts: "map pfx_string (ipv4CapturePrefixes @ (if v6 then ipv6CapturePrefixes else [])) =
      [''0.0.0.0/1'', ''128.0.0.0/1''] @ (if v6 then [''::/1'', ''8000::/1''] else [])"
  proof -
    have "map pfx_string ipv4CapturePrefixes = [''0.0.0.0/1'', ''128.0.0.0/1'']"
      "map pfx_string ipv6CapturePrefixes = [''::/1'', ''8000::/1'']" by code_simp+
    then show ?thesis by simp
  qed
  show ?thesis
  proof (intro conjI)
    show "\<forall>r \<in> set (plan_routes p tun). is_ok (validateRouteState r)"
      using valid_plan_routes [OF inv ifs assms(5)] p by blast
    show "\<exists>captured. plan_routes p tun = Bypasses p @ Scoped p @ captured \<and>
            map rt_Prefix captured = [''0.0.0.0/1'', ''128.0.0.0/1''] @ (if v6 then [''::/1'', ''8000::/1''] else []) \<and>
            (\<forall>r \<in> set captured. rt_Interface r = tun)"
      using texts by (intro exI [of _ "map (\<lambda>x. \<lparr>rt_Prefix = pfx_string x, rt_Interface = tun, rt_Gateway = [], rt_Scope = []\<rparr>) (Prefixes p)"])
        (auto simp: plan_routes_def p finished_plan_def o_def)
    show "\<forall>r1 \<in> set (Bypasses p). \<forall>r2 \<in> set (Bypasses p). \<forall>w n.
            rt_Prefix r1 = rt_Prefix r2 \<and> parse_prefix (rt_Prefix r1) = Some (Pfx (V4 w) n) \<longrightarrow>
            rt_Interface r1 = rt_Interface r2"
      using one_owner4 [OF inv] unfolding p finished_plan_sets [OF inv] by blast
  qed
qed

end
