(* ===== verification/App_Capture_Replan.thy ===== *)
theory App_Capture_Replan
  imports App_Capture_Properties
begin

text \<open>
  After the routes of a plan are installed, the program makes the plan again and compares.  On a host that
  now answers with the installed routes, and otherwise as before, the second plan is the first one.
\<close>

section \<open>The routing table once the plan is installed\<close>

definition matches :: "addr \<Rightarrow> string \<Rightarrow> route_state \<Rightarrow> bool" where
  "matches a i r = (rt_Prefix r = pfx_string (hostPrefix a) \<and> rt_Interface r = i)"

text \<open>A lookup of an address that was given no route of its own is answered the same way as before,
  possibly through one half of the split default route.\<close>

definition same_way :: "addr \<Rightarrow> sys_error + route_lookup \<Rightarrow> sys_error + route_lookup \<Rightarrow> bool" where
  "same_way a x y =
     (x = y \<or>
      (\<exists>l l'. x = Inr l \<and> y = Inr l' \<and> Interface l' = Interface l \<and> Gateway l' = Gateway l \<and>
         exactHostDestination (Destination l') a = exactHostDestination (Destination l) a \<and>
         (scopedEgressDestination l a \<longrightarrow> scopedEgressDestination l' a)))"

definition installed_answer :: "addr \<Rightarrow> route_state \<Rightarrow> sys_error + route_lookup \<Rightarrow> bool" where
  "installed_answer a r x =
     (\<exists>l. x = Inr l \<and> Interface l = rt_Interface r \<and> exactHostDestination (Destination l) a \<and>
        (if rt_Gateway r = [] then on_link (Gateway l) else Gateway l = rt_Gateway r))"

definition installed :: "lookups \<Rightarrow> route_state list \<Rightarrow> lookups \<Rightarrow> bool" where
  "installed lk rs lk' =
     (lk_default lk' = lk_default lk \<and>
      (\<forall>a i. fine_addr a \<and> addr_zone a = [] \<longrightarrow>
         (\<forall>r \<in> set rs. matches a i r \<longrightarrow> installed_answer a r (lk_route lk' a i)) \<and>
         ((\<forall>r \<in> set rs. \<not> matches a i r) \<longrightarrow> same_way a (lk_route lk a i) (lk_route lk' a i))))"

text \<open>What the answers before the installation must satisfy: the addresses that get a route without a
  gateway are directly reachable, and the probes of \<open>proveScopedEgress\<close> are nobody's address.\<close>

definition on_link_bypasses :: "lookups \<Rightarrow> route_state list \<Rightarrow> bool" where
  "on_link_bypasses lk rs =
     (\<forall>r \<in> set rs. \<forall>a l. rt_Gateway r = [] \<and> fine_addr a \<and> addr_zone a = [] \<and> matches a (rt_Interface r) r \<and>
        lk_route lk a (rt_Interface r) = Inr l \<longrightarrow> on_link (Gateway l))"

definition probes_free :: "route_state list \<Rightarrow> bool" where
  "probes_free rs = (\<forall>r \<in> set rs. \<forall>a \<in> set (probe_candidates False @ probe_candidates True).
     rt_Prefix r \<noteq> pfx_string (hostPrefix a))"


section \<open>Recorded addresses had no route of their own\<close>

definition fresh :: "lookups \<Rightarrow> route_state \<Rightarrow> bool" where
  "fresh lk r =
     (\<forall>a. fine_addr a \<and> addr_zone a = [] \<and> matches a (rt_Interface r) r \<longrightarrow>
        (\<exists>l. lk_route lk a (rt_Interface r) = Inr l \<and> \<not> exactHostDestination (Destination l) a))"

definition all_fresh :: "lookups \<Rightarrow> route_state set \<Rightarrow> bool" where
  "all_fresh lk rs = (\<forall>r \<in> rs. fresh lk r)"

lemma fresh_host_route:
  assumes "lk_route lk a i = Inr l" and "\<not> exactHostDestination (Destination l) a" and "fine_addr a" and "addr_zone a = []"
  shows "fresh lk (host_route a i gw)"
proof -
  have "b = a" if "fine_addr b" "addr_zone b = []" "matches b i (host_route a i gw)" for b
    using host_text_inj [OF assms(3) that(1)] that(2,3) assms(4) without_zone_id by (simp add: matches_def)
  then show ?thesis using assms(1,2) by (auto simp: fresh_def)
qed

lemma proveGatewayBypass_fresh:
  assumes "proveGatewayBypass lk [] owners gws g i = Inr (owners', gws')" and "fine_addr g"
  shows "\<forall>r \<in> ran (gm_get gws'). r \<in> ran (gm_get gws) \<or> fresh lk r"
proof -
  have put: "\<forall>r \<in> ran (gm_get (gm_put gws k v)). r \<in> ran (gm_get gws) \<or> r = v" for k v
    by (auto simp: ran_def)
  have "fresh lk (host_route g i [])" if "lk_route lk (without_zone g) i = Inr l"
    "\<not> exactHostDestination (Destination l) (without_zone g)" for l
    using fresh_host_route [OF that, of "[]"] assms(2) by simp
  then show ?thesis
    using assms put by (fastforce simp: proveGatewayBypass_def addGatewayBypass_def ownsHostRoute_def Let_def bindE_Inr_iff
        split: sum.splits if_splits)
qed

lemma prove_family_fresh:
  assumes "prove_family lk [] ob st v = Inr st'" and "all_fresh lk (recorded st)"
  shows "all_fresh lk (recorded st')"
proof (cases "has_default ob v st")
  case True
  then show ?thesis using assms by (simp add: prove_family_def Let_def has_default_def)
next
  case False
  let ?i = "ob_Interface ob"
  obtain l :: route_lookup and g owners gws where g: "parseUsableGateway (Gateway l) (hd (probe_candidates v)) = Inr g"
    and gw: "proveGatewayBypass lk [] (pr_owners st) (pr_gateways st) g ?i = Inr (owners, gws)"
    and st': "st' = record_family ?i v g owners gws st"
    using assms(1) False
    by (auto simp: prove_family_def has_default_def Let_def bindE_Inr_iff split: sum.splits if_splits option.splits)
  show ?thesis
    using proveGatewayBypass_fresh [OF gw usable_gateway(1) [OF g]] assms(2)
    unfolding st' by (auto simp: all_fresh_def recorded_def record_family_def)
qed

lemma add_server_fresh:
  assumes "all_fresh lk (recorded st)" and "fresh lk (host_route a (ob_Interface ob) gw)"
  shows "all_fresh lk (recorded (add_server ob a physical gw st))"
  using assms by (auto simp: add_server_def Let_def all_fresh_def recorded_def ran_def split: if_splits)

lemma route_server_fresh:
  assumes "route_server lk [] ob a physical l st = Inr st'" and "all_fresh lk (recorded st)"
    and "lk_route lk a (ob_Interface ob) = Inr l" and "\<not> exactHostDestination (Destination l) a"
    and "fine_addr a" and "addr_zone a = []"
  shows "all_fresh lk (recorded st')"
proof -
  note fr = fresh_host_route [OF assms(3-6)]
  show ?thesis
  proof (cases "parseUsableGateway (Gateway l) a")
    case (Inl e)
    then obtain owners where "st' = add_server ob a physical [] (st\<lparr>pr_owners := owners\<rparr>)"
      using assms(1) by (auto simp: route_server_def Let_def bindE_Inr_iff split: if_splits)
    then show ?thesis using add_server_fresh fr assms(2) by (simp add: recorded_def)
  next
    case (Inr g)
    then obtain owners owners' gws gw where gw: "proveGatewayBypass lk [] owners (pr_gateways st) g (ob_Interface ob) = Inr (owners', gws)"
      and st': "st' = add_server ob a physical gw (st\<lparr>pr_owners := owners', pr_gateways := gws\<rparr>)"
      using assms(1) by (auto simp: route_server_def Let_def bindE_Inr_iff)
    have "all_fresh lk (recorded (st\<lparr>pr_owners := owners', pr_gateways := gws\<rparr>))"
      using proveGatewayBypass_fresh [OF gw usable_gateway(1) [OF Inr]] assms(2) by (auto simp: all_fresh_def recorded_def)
    then show ?thesis unfolding st' by (rule add_server_fresh [OF _ fr])
  qed
qed

lemma prove_server_fresh:
  assumes "prove_server lk v6 [] ob st e = Inr st'" and "all_fresh lk (recorded st)"
    and "fine_addr (ap_addr e)" and "addr_zone (ap_addr e) = []"
  shows "all_fresh lk (recorded st')"
  using assms route_server_fresh [of lk ob "ap_addr e"]
  by (auto simp: prove_server_def ownsHostRoute_def Let_def bindE_Inr_iff recorded_def split: sum.splits if_splits)


section \<open>Every step again\<close>

text \<open>The state of affairs of the second plan: \<open>B\<close> are the bypasses on record and installed.\<close>

definition second_look :: "lookups \<Rightarrow> route_state list \<Rightarrow> lookups \<Rightarrow> bool" where
  "second_look lk B lk' =
     (installed lk B lk' \<and> all_fresh lk (set B) \<and> on_link_bypasses lk B \<and> probes_free B)"

lemma on_link_not_usable: "on_link g \<Longrightarrow> parseUsableGateway g a = Inl (Refused ''unusable gateway'')"
  using parse_addr_link by (auto simp: on_link_def parseUsableGateway_def parse_addr_def)

lemma ownsHostRoute_Nil [simp]: "\<not> ownsHostRoute [] a i g"
  by (simp add: ownsHostRoute_def)

lemma unmatched_not_owned: "(\<forall>r \<in> set B. \<not> matches a i r) \<Longrightarrow> \<not> ownsHostRoute B a i g"
  by (auto simp: ownsHostRoute_def list_ex_iff matches_def)

lemma exact_unmatched:
  assumes "second_look lk B lk'" and "fine_addr a" "addr_zone a = []"
    and "lk_route lk a i = Inr l" "exactHostDestination (Destination l) a"
  shows "\<forall>r \<in> set B. \<not> matches a i r"
proof
  fix r assume r: "r \<in> set B"
  have "fresh lk r" using assms(1) r by (simp add: second_look_def all_fresh_def)
  then show "\<not> matches a i r" using assms(2-5) by (auto simp: fresh_def matches_def)
qed

lemma second_look_unmatched:
  assumes "second_look lk B lk'" and "fine_addr a" "addr_zone a = []" and "\<forall>r \<in> set B. \<not> matches a i r"
    and "lk_route lk a i = Inr l"
  obtains l' where "lk_route lk' a i = Inr l'" "Interface l' = Interface l" "Gateway l' = Gateway l"
    "exactHostDestination (Destination l') a = exactHostDestination (Destination l) a"
    "scopedEgressDestination l a \<Longrightarrow> scopedEgressDestination l' a"
proof -
  have "same_way a (lk_route lk a i) (lk_route lk' a i)"
    using assms(1-4) by (simp add: second_look_def installed_def)
  then show thesis using assms(5) that unfolding same_way_def by fastforce
qed

lemma second_look_matched:
  assumes "second_look lk B lk'" and "fine_addr a" "addr_zone a = []" and "host_route a i gw \<in> set B"
  obtains l' where "lk_route lk' a i = Inr l'" "Interface l' = i" "exactHostDestination (Destination l') a"
    "if gw = [] then on_link (Gateway l') else Gateway l' = gw"
    "ownsHostRoute B a i (Gateway l')" "gw = [] \<Longrightarrow> ownsHostRoute B a i g"
proof -
  have m: "matches a i (host_route a i gw)" by (simp add: matches_def)
  then have "installed_answer a (host_route a i gw) (lk_route lk' a i)"
    using assms unfolding second_look_def installed_def by blast
  then obtain l' where l': "lk_route lk' a i = Inr l'" "Interface l' = i" "exactHostDestination (Destination l') a"
    "if gw = [] then on_link (Gateway l') else Gateway l' = gw"
    by (auto simp: installed_answer_def)
  have "ownsHostRoute B a i x" if "gw = [] \<or> gw = x" for x
    using assms(4) that by (force simp: ownsHostRoute_def list_ex_iff)
  then show thesis using that [OF l'] l'(4) by (metis (full_types))
qed

lemma on_link_bypass:
  assumes "second_look lk B lk'" and "fine_addr a" "addr_zone a = []" and "host_route a i [] \<in> set B"
    and "lk_route lk a i = Inr l"
  shows "on_link (Gateway l)"
proof -
  have "matches a i (host_route a i [])" by (simp add: matches_def)
  then show ?thesis using assms unfolding second_look_def on_link_bypasses_def by fastforce
qed

lemma addGatewayBypass_route:
  assumes "addGatewayBypass owners gws g i = Inr (owners', gws')"
  shows "host_route g i [] \<in> ran (gm_get gws')"
proof -
  obtain k where "gws' = gm_put gws k (host_route g i [])"
    using assms by (auto simp: addGatewayBypass_def Let_def bindE_Inr_iff)
  then have "gm_get gws' k = Some (host_route g i [])" by simp
  then show ?thesis by (rule ranI)
qed

lemma proveGatewayBypass_again:
  assumes "proveGatewayBypass lk [] owners gws g i = Inr (owners', gws')" and "second_look lk B lk'"
    and "fine_addr g" and "ran (gm_get gws') \<subseteq> set B"
  shows "proveGatewayBypass lk' B owners gws g i = Inr (owners', gws')"
proof -
  let ?a = "without_zone g"
  obtain l where l: "lk_route lk ?a i = Inr l" "Interface l = i"
    using assms(1) by (auto simp: proveGatewayBypass_def Let_def split: sum.splits if_splits)
  have fine: "fine_addr ?a" "addr_zone ?a = []" using assms(3) by simp_all
  show ?thesis
  proof (cases "exactHostDestination (Destination l) ?a")
    case True
    have un: "\<forall>r \<in> set B. \<not> matches ?a i r" by (rule exact_unmatched [OF assms(2) fine l(1) True])
    obtain l' where "lk_route lk' ?a i = Inr l'" "Interface l' = Interface l" "Gateway l' = Gateway l"
      "exactHostDestination (Destination l') ?a = exactHostDestination (Destination l) ?a"
      by (rule second_look_unmatched [OF assms(2) fine un l(1)])
    then show ?thesis
      using assms(1) l True unmatched_not_owned [OF un] by (simp add: proveGatewayBypass_def Let_def)
  next
    case False
    then have add: "addGatewayBypass owners gws g i = Inr (owners', gws')"
      using assms(1) l by (simp add: proveGatewayBypass_def Let_def)
    then have "host_route ?a i [] \<in> set B" using addGatewayBypass_route assms(4) by fastforce
    then obtain l' where "lk_route lk' ?a i = Inr l'" "Interface l' = i" "exactHostDestination (Destination l') ?a"
      "ownsHostRoute B ?a i []"
      by (rule second_look_matched [OF assms(2) fine, where g = "[]"]) simp
    then show ?thesis using add by (simp add: proveGatewayBypass_def Let_def)
  qed
qed

lemma proveScopedEgress_again:
  assumes "proveScopedEgress lk v i g = None" and "second_look lk B lk'"
  shows "proveScopedEgress lk' v i g = None"
proof -
  obtain a where a: "a \<in> set (probe_candidates v)" "egress_proof lk i g a"
    using assms(1) by (auto simp: proveScopedEgress_def list_ex_iff split: if_splits)
  have fine: "fine_addr a" "addr_zone a = []"
    using a(1) by (auto simp: probe_candidates_def fine_addr_def split: if_splits)
  have "\<forall>r \<in> set B. rt_Prefix r \<noteq> pfx_string (hostPrefix a)"
    using assms(2) a(1) unfolding second_look_def probes_free_def by (cases v) auto
  then have un: "\<forall>r \<in> set B. \<not> matches a i r" by (simp add: matches_def)
  obtain l where l: "lk_route lk a i = Inr l" using a(2) by (auto simp: egress_proof_def split: sum.splits)
  obtain l' where "lk_route lk' a i = Inr l'" "Interface l' = Interface l" "Gateway l' = Gateway l"
    "scopedEgressDestination l a \<longrightarrow> scopedEgressDestination l' a"
    by (rule second_look_unmatched [OF assms(2) fine un l]) blast
  then have "egress_proof lk' i g a" using a(2) l by (auto simp: egress_proof_def split: sum.splits)
  then show ?thesis using a(1) by (auto simp: proveScopedEgress_def list_ex_iff)
qed

lemma prove_family_again:
  assumes "prove_family lk [] ob st v = Inr st'" and "second_look lk B lk'" and "recorded st' \<subseteq> set B"
  shows "prove_family lk' B ob st v = Inr st'"
proof (cases "has_default ob v st")
  case True
  then show ?thesis using assms(1) by (simp add: prove_family_def Let_def has_default_def)
next
  case False
  let ?i = "ob_Interface ob"
  obtain l g owners gws where l: "lk_default lk v ?i = Inr l" "Interface l = ?i"
    and g: "parseUsableGateway (Gateway l) (hd (probe_candidates v)) = Inr g" "proveScopedEgress lk v ?i g = None"
    and gw: "proveGatewayBypass lk [] (pr_owners st) (pr_gateways st) g ?i = Inr (owners, gws)"
    and st': "st' = record_family ?i v g owners gws st"
    using assms(1) False
    by (auto simp: prove_family_def has_default_def Let_def bindE_Inr_iff split: sum.splits if_splits option.splits)
  have "ran (gm_get gws) \<subseteq> set B" using assms(3) unfolding st' by (simp add: recorded_def record_family_def)
  note again = proveGatewayBypass_again [OF gw assms(2) usable_gateway(1) [OF g(1)] this]
    proveScopedEgress_again [OF g(2) assms(2)]
  have "lk_default lk' = lk_default lk" using assms(2) by (simp add: second_look_def installed_def)
  then show ?thesis using False l g(1) again unfolding st' by (simp add: prove_family_def has_default_def Let_def)
qed


lemma route_server_again:
  assumes "route_server lk [] ob a physical l st = Inr st'" and "second_look lk B lk'" and "recorded st' \<subseteq> set B"
    and "lk_route lk a (ob_Interface ob) = Inr l" and "\<not> exactHostDestination (Destination l) a"
    and "fine_addr a" and "addr_zone a = []"
    and "a = without_zone physical \<Longrightarrow> host_route a (ob_Interface ob) [] \<in> recorded st'"
  obtains l' where "lk_route lk' a (ob_Interface ob) = Inr l'" "Interface l' = ob_Interface ob"
    "ownsHostRoute B a (ob_Interface ob) (Gateway l')" "route_server lk' B ob a physical l' st = Inr st'"
proof -
  let ?i = "ob_Interface ob"
  obtain owners where c: "claimBypassAddress (pr_owners st) a ?i = Inr owners"
    using assms(1) by (auto simp: route_server_def Let_def bindE_Inr_iff)
  have added: "host_route a ?i gw \<in> recorded st'" if "st' = add_server ob a physical gw s" "a \<noteq> without_zone physical" for gw s
    using that by (auto simp: add_server_def Let_def recorded_def ran_def)
  show thesis
  proof (cases "parseUsableGateway (Gateway l) a")
    case (Inl e)
    then have st': "st' = add_server ob a physical [] (st\<lparr>pr_owners := owners\<rparr>)"
      using assms(1) c by (auto simp: route_server_def Let_def split: if_splits)
    then have "host_route a ?i [] \<in> set B" using added [of "[]"] assms(3,8) by blast
    then obtain l' where l': "lk_route lk' a ?i = Inr l'" "Interface l' = ?i" "on_link (Gateway l')"
      "ownsHostRoute B a ?i (Gateway l')"
      by (rule second_look_matched [OF assms(2,6,7), where g = "[]"]) simp
    moreover have "route_server lk' B ob a physical l' st = Inr st'"
      using c l'(3) on_link_not_usable [OF l'(3)] by (simp add: route_server_def Let_def st')
    ultimately show thesis using that by blast
  next
    case (Inr g)
    obtain owners' gws where gw: "proveGatewayBypass lk [] owners (pr_gateways st) g ?i = Inr (owners', gws)"
      and st': "st' = add_server ob a physical (if a \<noteq> without_zone g then addr_string g else [])
        (st\<lparr>pr_owners := owners', pr_gateways := gws\<rparr>)"
      using assms(1) c Inr by (auto simp: route_server_def Let_def bindE_Inr_iff)
    note g = usable_gateway [OF Inr]
    have gws: "ran (gm_get gws) \<subseteq> set B"
      using assms(3) unfolding st' by (auto simp: add_server_def Let_def recorded_def split: if_splits)
    have own: "host_route a ?i [] \<notin> set B"
      using on_link_bypass [OF assms(2,6,7) _ assms(4)] on_link_not_usable Inr by fastforce
    have "a \<noteq> without_zone physical" using assms(3,8) own by blast
    moreover have ne: "a \<noteq> without_zone g"
    proof
      assume "a = without_zone g"
      then have "addGatewayBypass owners (pr_gateways st) g ?i = Inr (owners', gws)"
        using gw assms(4,5) by (auto simp: proveGatewayBypass_def Let_def split: if_splits)
      then have "host_route a ?i [] \<in> ran (gm_get gws)"
        using addGatewayBypass_route \<open>a = without_zone g\<close> by fastforce
      then show False using gws own by blast
    qed
    ultimately have "host_route a ?i (addr_string g) \<in> set B" using added [of "addr_string g"] st' assms(3) by auto
    then obtain l' where l': "lk_route lk' a ?i = Inr l'" "Interface l' = ?i" "Gateway l' = addr_string g"
      "ownsHostRoute B a ?i (Gateway l')"
      by (rule second_look_matched [OF assms(2,6,7), where g = "[]"]) (use addr_string_ne [OF g(1)] in auto)
    have "parseUsableGateway (addr_string g) a = Inr g"
      using Inr g parse_addr_string_zone [of g] by (auto simp: parseUsableGateway_def fine_addr_def split: if_splits)
    then have "route_server lk' B ob a physical l' st = Inr st'"
      using c ne l'(3) proveGatewayBypass_again [OF gw assms(2) g(1) gws] by (simp add: route_server_def Let_def st')
    then show thesis using l' that by blast
  qed
qed

lemma prove_server_again:
  assumes "prove_server lk v6 [] ob st e = Inr st'" and "second_look lk B lk'" and "recorded st' \<subseteq> set B"
    and "fine_addr (ap_addr e)" and "addr_zone (ap_addr e) = []" and "proof_inv lk ifs st" and "ob_Interface ob \<in> ifs"
    and "\<forall>j \<in> ifs. bar_free j"
  shows "prove_server lk' v6 B ob st e = Inr st'"
proof (cases "is6 (ap_addr e) \<and> \<not> v6")
  case True
  then show ?thesis using assms(1) by (simp add: prove_server_def Let_def)
next
  case False
  let ?i = "ob_Interface ob" and ?a = "ap_addr e"
  let ?physical = "case gm_get (pr_defaults st) (family_key ?i (is6 ?a)) of None \<Rightarrow> NoAddr | Some g \<Rightarrow> g"
  obtain l where l: "lk_route lk ?a ?i = Inr l" "Interface l = ?i"
    using assms(1) False by (auto simp: prove_server_def Let_def split: sum.splits if_splits)
  show ?thesis
  proof (cases "exactHostDestination (Destination l) ?a")
    case True
    have un: "\<forall>r \<in> set B. \<not> matches ?a ?i r" by (rule exact_unmatched [OF assms(2,4,5) l(1) True])
    obtain l' where "lk_route lk' ?a ?i = Inr l'" "Interface l' = Interface l" "Gateway l' = Gateway l"
      "exactHostDestination (Destination l') ?a = exactHostDestination (Destination l) ?a"
      by (rule second_look_unmatched [OF assms(2,4,5) un l(1)])
    then show ?thesis
      using assms(1) False l True unmatched_not_owned [OF un] by (auto simp: prove_server_def Let_def)
  next
    case nonexact: False
    then have rs: "route_server lk [] ob ?a ?physical l st = Inr st'"
      using assms(1) False l by (auto simp: prove_server_def Let_def)
    have "extends st st'" using prove_server_Inr [OF assms(1,6,4,7,8)] by blast
    moreover have "host_route ?a ?i [] \<in> recorded st" if "?a = without_zone ?physical"
    proof (cases "gm_get (pr_defaults st) (family_key ?i (is6 ?a))")
      case None
      then show ?thesis using that assms(4) by (simp add: fine_addr_def)
    next
      case (Some g)
      then have "reached lk (pr_gateways st) g ?i" using assms(6) by (auto simp: proof_inv_def defaults_inv_def)
      moreover have "\<not> direct_host lk ?a ?i" using l nonexact by (simp add: direct_host_def)
      ultimately show ?thesis using that Some by (auto simp: reached_def recorded_def)
    qed
    ultimately have "?a = without_zone ?physical \<Longrightarrow> host_route ?a ?i [] \<in> recorded st'"
      using recorded_mono by blast
    from route_server_again [OF rs assms(2,3) l(1) nonexact assms(4,5) this]
    obtain l' where "lk_route lk' ?a ?i = Inr l'" "Interface l' = ?i" "ownsHostRoute B ?a ?i (Gateway l')"
      "route_server lk' B ob ?a ?physical l' st = Inr st'" by blast
    then show ?thesis using False by (auto simp: prove_server_def Let_def)
  qed
qed



section \<open>The second plan\<close>

lemma foldE_again:
  assumes "foldE f s xs = Inr s'" and "P s" and "R s' z"
    and keep: "\<And>s x t. x \<in> set xs \<Longrightarrow> P s \<Longrightarrow> f s x = Inr t \<Longrightarrow> P t \<and> R s t"
    and again: "\<And>s x t. x \<in> set xs \<Longrightarrow> P s \<Longrightarrow> f s x = Inr t \<Longrightarrow> R t z \<Longrightarrow> f' s x = Inr t"
    and refl: "\<And>s. R s s" and trans: "\<And>s t u. R s t \<Longrightarrow> R t u \<Longrightarrow> R s u"
  shows "foldE f' s xs = Inr s'"
  using assms(1,2) keep again
proof (induction xs arbitrary: s)
  case (Cons x xs)
  then obtain t where t: "f s x = Inr t" "foldE f t xs = Inr s'" by (auto simp: bindE_Inr_iff)
  have one: "P t" using Cons.prems(3) [OF _ Cons.prems(2) t(1)] by simp
  have "R t s'"
    using foldE_establishes [OF t(2), where P = P and R = R and Q = "\<lambda>_ _. True"] one Cons.prems(3) refl trans
    by (metis list.set_intros(2))
  then have "R t z" using trans assms(3) by blast
  then have "f' s x = Inr t" using Cons.prems(4) [OF _ Cons.prems(2) t(1)] by simp
  moreover have "foldE f' t xs = Inr s'"
    by (rule Cons.IH [OF t(2) one]) (use Cons.prems(3,4) in auto)
  ultimately show ?case by simp
qed simp

definition unzoned :: "outbound_cfg \<Rightarrow> bool" where
  "unzoned ob = (\<forall>s \<in> set (ob_DNS ob). addr_zone (ap_addr s) = [])"

lemma prove_outbound_again:
  assumes "prove_outbound lk v6 [] st ob = Inr st'" and "proof_inv lk ifs st" and "ob_Interface ob \<in> ifs"
    and "second_look lk B lk'" and "recorded z \<subseteq> set B" and "extends st' z"
  shows "prove_outbound lk' v6 B st ob = Inr st'"
  using assms(1) unfolding prove_outbound_def
proof (rule foldE_again [where P = "proof_inv lk ifs" and R = extends and z = z])
  show "prove_family lk' B ob s v = Inr t" if "prove_family lk [] ob s v = Inr t" "extends t z" for s v t
    using prove_family_again [OF that(1) assms(4)] recorded_mono [OF that(2)] assms(5) by blast
qed (use assms prove_family_Inr extends_trans in auto)

lemma prove_servers_again:
  assumes "prove_servers lk v6 [] st ob = Inr st'" and "proof_inv lk ifs st" and "ob_Interface ob \<in> ifs"
    and "second_look lk B lk'" and "recorded z \<subseteq> set B" and "extends st' z"
    and "outbound_fine ob" and "unzoned ob" and "\<forall>j \<in> ifs. bar_free j"
  shows "prove_servers lk' v6 B st ob = Inr st'"
  using assms(1) unfolding prove_servers_def
proof (rule foldE_again [where P = "proof_inv lk ifs" and R = extends and z = z])
  show "prove_server lk' v6 B ob s e = Inr t"
    if "e \<in> set (ob_DNS ob)" "proof_inv lk ifs s" "prove_server lk v6 [] ob s e = Inr t" "extends t z" for s e t
    using prove_server_again [OF that(3) assms(4) _ _ _ that(2) assms(3,9)] recorded_mono [OF that(4)] assms(5,7,8) that(1)
    by (auto simp: outbound_fine_def unzoned_def)
  show "proof_inv lk ifs t \<and> extends s t"
    if "e \<in> set (ob_DNS ob)" "proof_inv lk ifs s" "prove_server lk v6 [] ob s e = Inr t" for s e t
    using prove_server_Inr [OF that(3,2) _ assms(3,9)] assms(7) that(1) by (auto simp: outbound_fine_def)
qed (use assms extends_trans in auto)

lemma plan_fresh:
  assumes "foldE (prove_outbound lk v6 []) no_proofs obs = Inr st1" and "foldE (prove_servers lk v6 []) st1 obs = Inr st"
    and "\<forall>ob \<in> set obs. outbound_fine ob \<and> unzoned ob"
  shows "all_fresh lk (recorded st)"
proof -
  let ?P = "\<lambda>st. all_fresh lk (recorded st)"
  have family: "?P t" if "prove_outbound lk v6 [] s ob = Inr t" "?P s" for s ob t
    using that(1) unfolding prove_outbound_def
    by (rule foldE_keeps [where P = ?P]) (use that(2) prove_family_fresh in auto)
  have server: "?P t" if "prove_servers lk v6 [] s ob = Inr t" "?P s" "ob \<in> set obs" for s ob t
    using that(1) unfolding prove_servers_def
    by (rule foldE_keeps [where P = ?P])
       (use that(2,3) prove_server_fresh assms(3) in \<open>auto simp: outbound_fine_def unzoned_def\<close>)
  have "?P no_proofs" by (simp add: all_fresh_def recorded_def no_proofs_def ran_def)
  then have "?P st1" by (rule foldE_keeps [where P = ?P, OF assms(1)]) (use family in blast)
  then show ?thesis by (rule foldE_keeps [where P = ?P, OF assms(2)]) (use server in blast)
qed

lemma plan_again:
  assumes "planDefaultRouteCaptureOwned c v6 lk [] = Inr p" and "DefaultRoute c"
    and "\<forall>ob \<in> set (direct_outbounds c). outbound_fine ob \<and> unzoned ob"
    and "installed lk (Bypasses p) lk'" and "on_link_bypasses lk (Bypasses p)" and "probes_free (Bypasses p)"
  shows "planDefaultRouteCaptureOwned c v6 lk' (Bypasses p) = Inr p"
proof -
  let ?obs = "direct_outbounds c" and ?ifs = "ob_Interface ` set (direct_outbounds c)"
  obtain st1 st where s1: "foldE (prove_outbound lk v6 []) no_proofs ?obs = Inr st1"
    and s2: "foldE (prove_servers lk v6 []) st1 ?obs = Inr st" and p: "p = finished_plan v6 st"
    using assms(1,2) by (auto simp: planDefaultRouteCaptureOwned_def bindE_Inr_iff)
  have free: "\<forall>j \<in> ?ifs. bar_free j" using assms(3) interface_bar_free by (auto simp: outbound_fine_def)
  have one: "proof_inv lk ?ifs t \<and> extends s t" if "ob \<in> set ?obs" "proof_inv lk ?ifs s" "prove_outbound lk v6 [] s ob = Inr t" for s ob t
    using prove_outbound_Inr [OF that(3,2)] that(1) by blast
  have two: "proof_inv lk ?ifs t \<and> extends s t" if "ob \<in> set ?obs" "proof_inv lk ?ifs s" "prove_servers lk v6 [] s ob = Inr t" for s ob t
    using prove_servers_Inr [OF that(3,2) _ _ free] assms(3) that(1) by blast
  let ?P = "proof_inv lk ?ifs"
  have inv1: "?P st1" by (rule foldE_keeps [where P = ?P, OF s1 no_proofs_inv]) (use one in blast)
  have inv: "?P st" by (rule foldE_keeps [where P = ?P, OF s2 inv1]) (use two in blast)
  have ext: "extends st1 st"
    by (rule foldE_keeps [where P = "\<lambda>s. ?P s \<and> extends st1 s", OF s2, THEN conjunct2])
       (use inv1 two extends_trans extends_refl in blast)+
  have B: "set (Bypasses p) = recorded st" unfolding p by (rule finished_plan_sets(1) [OF inv])
  have look: "second_look lk (Bypasses p) lk'"
    using assms(3-6) plan_fresh [OF s1 s2] B by (simp add: second_look_def)
  have "foldE (prove_outbound lk' v6 (Bypasses p)) no_proofs ?obs = Inr st1"
  proof (rule foldE_again [where P = ?P and R = extends and z = st, OF s1 no_proofs_inv ext])
    show "prove_outbound lk' v6 (Bypasses p) s ob = Inr t"
      if "ob \<in> set ?obs" "?P s" "prove_outbound lk v6 [] s ob = Inr t" "extends t st" for s ob t
      using prove_outbound_again [OF that(3,2) _ look _ that(4)] that(1) B by blast
  qed (use one extends_trans in auto)
  moreover have "foldE (prove_servers lk' v6 (Bypasses p)) st1 ?obs = Inr st"
  proof (rule foldE_again [where P = ?P and R = extends and z = st, OF s2 inv1 extends_refl])
    show "prove_servers lk' v6 (Bypasses p) s ob = Inr t"
      if "ob \<in> set ?obs" "?P s" "prove_servers lk v6 [] s ob = Inr t" "extends t st" for s ob t
      using prove_servers_again [OF that(3,2) _ look _ that(4) _ _ free] that(1) B assms(3) by blast
  qed (use two extends_trans in auto)
  ultimately show ?thesis using assms(2) p by (simp add: planDefaultRouteCaptureOwned_def)
qed

lemma plan_equal_iff: "plan_equal p q \<longleftrightarrow> p = q"
  by (cases p; cases q) (auto simp: plan_equal_def list.rel_eq)


lemma verify_again:
  assumes "config_compile raw = Inr c" and "DefaultRoute c" and "discoverInterfaceDNS run c h = ((d, e), h')"
    and "planDefaultRouteCapture (runtimeWithInterfaceDNS c d) v6 lk = Inr p"
    and "\<forall>ob \<in> set (direct_outbounds (runtimeWithInterfaceDNS c d)). unzoned ob"
    and "installed lk (Bypasses p) lk'" and "on_link_bypasses lk (Bypasses p)" and "probes_free (Bypasses p)"
  shows "verify_capture (runtimeWithInterfaceDNS c d) v6 lk' p = None"
proof -
  let ?c = "runtimeWithInterfaceDNS c d"
  have "DefaultRoute ?c" using assms(2) by (simp add: runtimeWithInterfaceDNS_def)
  moreover have "\<forall>ob \<in> set (direct_outbounds ?c). outbound_fine ob \<and> unzoned ob"
    using direct_outbounds_fine [OF assms(1,3)] assms(5) by blast
  ultimately have "planDefaultRouteCaptureOwned ?c v6 lk' (Bypasses p) = Inr p"
    using plan_again assms(4,6-8) unfolding planDefaultRouteCapture_def by blast
  then show ?thesis by (simp add: verify_capture_def plan_equal_iff)
qed

text \<open>
  The program verifies for the configuration as written.  When every lease names the servers of the file or
  none at all, that is the configuration the plan was made for.
\<close>

definition leases_agree :: "config \<Rightarrow> interface_dns \<Rightarrow> bool" where
  "leases_agree c d =
     (\<forall>ob \<in> set (direct_outbounds c). ob_DNSSource ob = DNSSourceDHCP \<longrightarrow> servers_of d (ob_Interface ob) \<in> {[], ob_DNS ob})"

lemma direct_type: "ob \<in> set (direct_outbounds c) \<Longrightarrow> ob_Type ob = ''direct''"
  by (simp add: direct_outbounds_def)

lemma leases_agree_effective:
  assumes "leases_agree c d"
  shows "direct_outbounds (runtimeWithInterfaceDNS c d) = direct_outbounds c"
proof -
  have "effective_outbound d ob = ob" if "ob \<in> set (direct_outbounds c)" for ob
    using assms that direct_type [OF that] by (auto simp: leases_agree_def effective_outbound_def)
  then show ?thesis by (simp add: effective_outbounds map_idI)
qed

lemma plan_of_outbounds:
  assumes "direct_outbounds c = direct_outbounds c'" and "DefaultRoute c = DefaultRoute c'"
  shows "planDefaultRouteCaptureOwned c v6 lk owned = planDefaultRouteCaptureOwned c' v6 lk owned"
    "verify_capture c v6 lk p = verify_capture c' v6 lk p"
  using assms by (simp_all add: planDefaultRouteCaptureOwned_def verify_capture_def)

text \<open>
  C19: Installing a plan does not invalidate it.  Take a validated configuration and leases that name, for
  each interface, the DNS servers of the configuration or none, and a plan made for it.  Let the host
  afterwards answer for every bypass with exactly the installed route and for all other addresses as
  before, possibly through the split default.  If the planned gateways were directly reachable, the start
  makes the same plan for the configuration as written under these answers and goes on with it.
\<close>

theorem replan_confirms:
  assumes "config_compile raw = Inr c" and "DefaultRoute c" and "discoverInterfaceDNS run c h = ((d, e), h')"
    and "leases_agree c d" and "planDefaultRouteCapture (runtimeWithInterfaceDNS c d) v6 lk = Inr p"
    and "\<forall>ob \<in> set (direct_outbounds c). unzoned ob"
    and "installed lk (Bypasses p) (after p)" and "on_link_bypasses lk (Bypasses p)" and "probes_free (Bypasses p)"
  shows "verify_capture c v6 (after p) p = None \<and> capture_started c d v6 lk after = Inr p"
proof -
  note same = leases_agree_effective [OF assms(4)]
  have "verify_capture (runtimeWithInterfaceDNS c d) v6 (after p) p = None"
    using verify_again [OF assms(1,2,3,5) _ assms(7,8,9)] assms(6) same by simp
  moreover have "DefaultRoute (runtimeWithInterfaceDNS c d) = DefaultRoute c" by (simp add: runtimeWithInterfaceDNS_def)
  ultimately have "verify_capture c v6 (after p) p = None" using plan_of_outbounds(2) [OF same] by simp
  then show ?thesis using assms(5) by (simp add: capture_started_def)
qed


section \<open>Servers of a lease\<close>

text \<open>Every bypass of a plan is for a server of its configuration or for a gateway the host named.\<close>

definition names_gateway :: "lookups \<Rightarrow> addr \<Rightarrow> bool" where
  "names_gateway lk g =
     (fine_addr g \<and>
      (\<exists>l. ((\<exists>a i. lk_route lk a i = Inr l) \<or> (\<exists>v i. lk_default lk v i = Inr l)) \<and> parse_addr (Gateway l) = Some g))"

definition needed :: "lookups \<Rightarrow> outbound_cfg set \<Rightarrow> route_state \<Rightarrow> bool" where
  "needed lk obs r =
     ((\<exists>ob \<in> obs. \<exists>s \<in> set (ob_DNS ob). rt_Prefix r = pfx_string (hostPrefix (ap_addr s))) \<or>
      (\<exists>g. names_gateway lk g \<and> rt_Prefix r = pfx_string (hostPrefix g)))"

definition all_needed :: "lookups \<Rightarrow> outbound_cfg set \<Rightarrow> proof_state \<Rightarrow> bool" where
  "all_needed lk obs st = (\<forall>r \<in> recorded st. needed lk obs r)"

lemma proveGatewayBypass_needed:
  assumes "proveGatewayBypass lk owned owners gws g i = Inr (owners', gws')" and "names_gateway lk g"
  shows "\<forall>r \<in> ran (gm_get gws'). r \<in> ran (gm_get gws) \<or> needed lk obs r"
proof -
  have "needed lk obs (host_route g i [])" using assms(2) by (auto simp: needed_def)
  then show ?thesis
    using assms(1) by (fastforce simp: proveGatewayBypass_def addGatewayBypass_def Let_def bindE_Inr_iff ran_def
        split: sum.splits if_splits)
qed

lemma prove_family_needed:
  assumes "prove_family lk owned ob st v = Inr st'" and "all_needed lk obs st"
  shows "all_needed lk obs st'"
proof (cases "has_default ob v st")
  case True
  then show ?thesis using assms by (simp add: prove_family_def Let_def has_default_def)
next
  case False
  let ?i = "ob_Interface ob"
  obtain l g owners gws where l: "lk_default lk v ?i = Inr l"
    and g: "parseUsableGateway (Gateway l) (hd (probe_candidates v)) = Inr g"
    and gw: "proveGatewayBypass lk owned (pr_owners st) (pr_gateways st) g ?i = Inr (owners, gws)"
    and st': "st' = record_family ?i v g owners gws st"
    using assms(1) False
    by (auto simp: prove_family_def has_default_def Let_def bindE_Inr_iff split: sum.splits if_splits option.splits)
  have "names_gateway lk g" using l usable_gateway(1,3) [OF g] unfolding names_gateway_def by blast
  then show ?thesis
    using proveGatewayBypass_needed [OF gw] assms(2) unfolding st'
    by (fastforce simp: all_needed_def recorded_def record_family_def)
qed

lemma add_server_needed:
  assumes "all_needed lk obs st" and "needed lk obs (host_route a (ob_Interface ob) gw)"
  shows "all_needed lk obs (add_server ob a physical gw st)"
  using assms by (auto simp: add_server_def Let_def all_needed_def recorded_def ran_def split: if_splits)

lemma prove_server_needed:
  assumes "prove_server lk v6 owned ob st e = Inr st'" and "all_needed lk obs st" and "ob \<in> obs" and "e \<in> set (ob_DNS ob)"
  shows "all_needed lk obs st'"
proof -
  let ?i = "ob_Interface ob" and ?a = "ap_addr e"
  have own: "needed lk obs (host_route ?a ?i gw)" for gw using assms(3,4) by (auto simp: needed_def)
  have route: "all_needed lk obs t"
    if r: "route_server lk owned ob ?a physical l st = Inr t" and l: "lk_route lk ?a ?i = Inr l" for physical l t
  proof (cases "parseUsableGateway (Gateway l) ?a")
    case (Inl x)
    then obtain owners where "t = add_server ob ?a physical [] (st\<lparr>pr_owners := owners\<rparr>)"
      using r by (auto simp: route_server_def Let_def bindE_Inr_iff split: if_splits)
    moreover have "all_needed lk obs (st\<lparr>pr_owners := owners\<rparr>)" using assms(2) by (simp add: all_needed_def recorded_def)
    ultimately show ?thesis using add_server_needed [OF _ own] by simp
  next
    case (Inr g)
    then obtain owners owners' gws gw where gw: "proveGatewayBypass lk owned owners (pr_gateways st) g ?i = Inr (owners', gws)"
      and t: "t = add_server ob ?a physical gw (st\<lparr>pr_owners := owners', pr_gateways := gws\<rparr>)"
      using r by (auto simp: route_server_def Let_def bindE_Inr_iff)
    have "names_gateway lk g" using l usable_gateway(1,3) [OF Inr] unfolding names_gateway_def by blast
    then have "all_needed lk obs (st\<lparr>pr_owners := owners', pr_gateways := gws\<rparr>)"
      using proveGatewayBypass_needed [OF gw] assms(2) by (fastforce simp: all_needed_def recorded_def)
    then show ?thesis unfolding t by (rule add_server_needed [OF _ own])
  qed
  show ?thesis
    using assms(1,2) route
    by (auto simp: prove_server_def Let_def bindE_Inr_iff all_needed_def recorded_def split: sum.splits if_splits)
qed

lemma sorted_routes_ran: "set (sorted_routes m) \<subseteq> ran (gm_get m)"
proof
  fix r assume "r \<in> set (sorted_routes m)"
  then obtain k where "k \<in> fst ` set m" "r = the (gm_get m k)" by (auto simp: sorted_routes_def simp del: gm_keys_fst)
  then show "r \<in> ran (gm_get m)" by (auto simp: ran_def)
qed

lemma plan_needed:
  assumes "planDefaultRouteCaptureOwned c v6 lk owned = Inr q" and "DefaultRoute c"
    and "r \<in> set (Bypasses q)"
  shows "needed lk (set (direct_outbounds c)) r"
proof -
  let ?obs = "direct_outbounds c" and ?P = "all_needed lk (set (direct_outbounds c))"
  obtain st1 st where s1: "foldE (prove_outbound lk v6 owned) no_proofs ?obs = Inr st1"
    and s2: "foldE (prove_servers lk v6 owned) st1 ?obs = Inr st" and q: "q = finished_plan v6 st"
    using assms(1,2) by (auto simp: planDefaultRouteCaptureOwned_def bindE_Inr_iff)
  have family: "?P t" if "prove_outbound lk v6 owned s ob = Inr t" "?P s" for s ob t
    using that(1) unfolding prove_outbound_def
    by (rule foldE_keeps [where P = ?P]) (use that(2) prove_family_needed in auto)
  have server: "?P t" if "prove_servers lk v6 owned s ob = Inr t" "?P s" "ob \<in> set ?obs" for s ob t
    using that(1) unfolding prove_servers_def
    by (rule foldE_keeps [where P = ?P]) (use that(2,3) prove_server_needed in auto)
  have "?P no_proofs" by (simp add: all_needed_def recorded_def no_proofs_def ran_def)
  then have "?P st1" by (rule foldE_keeps [where P = ?P, OF s1]) (use family in blast)
  then have st: "?P st" by (rule foldE_keeps [where P = ?P, OF s2]) (use server in blast)
  have "set (Bypasses q) \<subseteq> recorded st"
    using sorted_routes_ran unfolding q finished_plan_def recorded_def by fastforce
  then show ?thesis using st assms(3) by (auto simp: all_needed_def)
qed


section \<open>An example host\<close>

text \<open>The lookups of a host on which the bypasses are installed.\<close>

definition lookups_after :: "lookups \<Rightarrow> route_state list \<Rightarrow> lookups" where
  "lookups_after lk B =
     lk\<lparr>lk_route := (\<lambda>a i.
       case find (matches a i) B of
         None \<Rightarrow> lk_route lk a i
       | Some r \<Rightarrow>
           Inr \<lparr>Destination = addr_string a, Mask = [], Interface = i,
                Gateway = (if rt_Gateway r = [] then ''link#4'' else rt_Gateway r)\<rparr>)\<rparr>"

definition one_route_each :: "route_state list \<Rightarrow> bool" where
  "one_route_each B = (\<forall>r1 \<in> set B. \<forall>r2 \<in> set B.
     rt_Prefix r1 = rt_Prefix r2 \<and> rt_Interface r1 = rt_Interface r2 \<longrightarrow> rt_Gateway r1 = rt_Gateway r2)"

lemma installed_after:
  assumes "one_route_each B"
  shows "installed lk B (lookups_after lk B)"
proof -
  have "installed_answer a r (lk_route (lookups_after lk B) a i)"
    if a: "fine_addr a" "addr_zone a = []" and r: "r \<in> set B" "matches a i r" for a i r
  proof -
    obtain r' where r': "find (matches a i) B = Some r'" "r' \<in> set B" "matches a i r'"
      using r by (cases "find (matches a i) B") (auto simp: find_None_iff find_Some_iff in_set_conv_nth)
    have "rt_Prefix r' = rt_Prefix r" "rt_Interface r' = rt_Interface r"
      using r(2) r'(3) unfolding matches_def by simp_all
    then have "rt_Gateway r' = rt_Gateway r"
      using assms r(1) r'(2) unfolding one_route_each_def by blast
    moreover have "exactHostDestination (addr_string a) a"
      using a(1) parse_addr_string_zone by (simp add: exactHostDestination_def fine_addr_def)
    moreover have "rt_Interface r = i" using r(2) by (simp add: matches_def)
    ultimately show ?thesis
      using r'(1) by (simp add: installed_answer_def lookups_after_def on_link_def has_prefix_def)
  qed
  moreover have "same_way a (lk_route lk a i) (lk_route (lookups_after lk B) a i)" if "\<forall>r \<in> set B. \<not> matches a i r" for a i
  proof -
    have "find (matches a i) B = None" using that by (simp add: find_None_iff)
    then show ?thesis by (simp add: same_way_def lookups_after_def)
  qed
  ultimately show ?thesis by (simp add: installed_def lookups_after_def)
qed

lemma on_link_bypasses_check:
  assumes "B = map (\<lambda>(a, i, gw). host_route a i gw) ts"
    and "list_all (\<lambda>(a, i, gw). fine_addr a \<and> addr_zone a = [] \<and>
      (gw = [] \<longrightarrow> (case lk_route lk a i of Inl _ \<Rightarrow> True | Inr l \<Rightarrow> on_link (Gateway l)))) ts"
  shows "on_link_bypasses lk B"
  unfolding on_link_bypasses_def
proof (intro ballI allI impI)
  fix r a l
  assume "r \<in> set B" and asm: "rt_Gateway r = [] \<and> fine_addr a \<and> addr_zone a = [] \<and> matches a (rt_Interface r) r \<and>
    lk_route lk a (rt_Interface r) = Inr l"
  then obtain b i gw where t: "(b, i, gw) \<in> set ts" "r = host_route b i gw" using assms(1) by auto
  then have b: "fine_addr b" "addr_zone b = []" "gw = [] \<longrightarrow> (case lk_route lk b i of Inl _ \<Rightarrow> True | Inr l \<Rightarrow> on_link (Gateway l))"
    using assms(2) by (auto simp: list_all_iff)
  have "a = b"
  proof -
    have "pfx_string (hostPrefix a) = pfx_string (hostPrefix b)" using asm t(2) by (simp add: matches_def)
    then have "without_zone a = without_zone b" using host_text_inj asm b(1) by blast
    then show ?thesis using without_zone_id asm b(2) by metis
  qed
  then show "on_link (Gateway l)" using asm t(2) b(3) by simp
qed

lemma probes_free_check:
  assumes "B = map (\<lambda>(a, i, gw). host_route a i gw) ts"
    and "list_all (\<lambda>(a, i, gw). fine_addr a \<and> without_zone a \<notin> set (probe_candidates False @ probe_candidates True)) ts"
  shows "probes_free B"
proof -
  have probe: "fine_addr p \<and> without_zone p = p" if "p \<in> set (probe_candidates False @ probe_candidates True)" for p
    using that by (auto simp: probe_candidates_def fine_addr_def)
  have "pfx_string (hostPrefix a) \<noteq> pfx_string (hostPrefix p)"
    if "(a, i, gw) \<in> set ts" and p: "p \<in> set (probe_candidates False @ probe_candidates True)" for a i gw p
  proof
    assume eq: "pfx_string (hostPrefix a) = pfx_string (hostPrefix p)"
    have a: "fine_addr a" "without_zone a \<notin> set (probe_candidates False @ probe_candidates True)"
      using that(1) assms(2) unfolding list_all_iff by blast+
    show False using host_text_inj [OF a(1) _ eq] probe [OF p] p a(2) by simp
  qed
  then show ?thesis unfolding probes_free_def assms(1) by auto
qed

definition sample_capture_raw :: raw_config where
  "sample_capture_raw = sample_raw\<lparr>raw_DefaultRoute := Some True\<rparr>"

definition sample_capture :: config where
  "sample_capture = sample_config\<lparr>DefaultRoute := True\<rparr>"

text \<open>\<open>wan\<close> on \<open>en0\<close> leases the DNS server 10.0.0.53, \<open>lan\<close> is on \<open>en1\<close>; each has its gateway.\<close>

definition sample_dhcp :: "unit runner" where
  "sample_dhcp cmd args h =
     ((if args = [''getpacket'', ''en0''] then ''domain_name_server (ip_mult): {10.0.0.53}'' else [], None), h)"

definition sample_leases :: interface_dns where
  "sample_leases = [(''en0'', [\<lparr>ap_addr = V4 0x0a000035, ap_port = 53\<rparr>])]"

definition sample_gateway :: "string \<Rightarrow> addr" where
  "sample_gateway i = (if i = ''en0'' then V4 0xc0a80101 else V4 0x0a010001)"

definition sample_lookups :: lookups where
  "sample_lookups =
     \<lparr>lk_route = (\<lambda>a i.
        if a = sample_gateway i
        then Inr \<lparr>Destination = ''192.168.1.0'', Mask = ''255.255.255.0'', Interface = i, Gateway = ''link#4''\<rparr>
        else Inr \<lparr>Destination = ''default'', Mask = ''default'', Interface = i, Gateway = addr_string (sample_gateway i)\<rparr>),
      lk_default = (\<lambda>ipv6 i.
        Inr \<lparr>Destination = ''default'', Mask = ''default'', Interface = i, Gateway = addr_string (sample_gateway i)\<rparr>)\<rparr>"

definition sample_plan :: defaultRoutePlan where
  "sample_plan =
     \<lparr>Bypasses = [host_route (V4 0x0a010001) ''en1'' [], host_route (V4 0xc0a80101) ''en0'' [],
                  host_route (V4 0x0a000035) ''en0'' ''192.168.1.1''],
      Scoped = [scoped_route (Pfx (V4 0) 1) ''en0'' (V4 0xc0a80101), scoped_route (Pfx (V4 0) 1) ''en1'' (V4 0x0a010001),
                scoped_route (Pfx (V4 0x80000000) 1) ''en0'' (V4 0xc0a80101),
                scoped_route (Pfx (V4 0x80000000) 1) ''en1'' (V4 0x0a010001)],
      Prefixes = ipv4CapturePrefixes\<rparr>"

lemma sample_capture_compiles: "config_compile sample_capture_raw = Inr sample_capture"
proof -
  have "compileIPv6 sample_capture_raw (cfg_TUN sample_config) (cfg_FakeIP sample_config) = Inr (cfg_FakeIPv6 sample_config)"
    using sample_ipv6 by (simp add: compileIPv6_def sample_capture_raw_def)
  moreover have "cfg_Version sample_config = CurrentVersion" by code_simp
  ultimately show ?thesis
    using sample_sections sample_rest
    by (simp add: config_compile_def sample_capture_raw_def sample_capture_def cfg_require_def guardE_def defaultBool_def)
qed

lemma sample_discovery: "discoverInterfaceDNS sample_dhcp sample_capture () = ((sample_leases, None), ())"
  by code_simp

lemma sample_planned:
  "planDefaultRouteCapture (runtimeWithInterfaceDNS sample_capture sample_leases) False sample_lookups = Inr sample_plan"
  by code_simp


definition sample_targets :: "(addr \<times> string \<times> string) list" where
  "sample_targets = [(V4 0x0a010001, ''en1'', []), (V4 0xc0a80101, ''en0'', []), (V4 0x0a000035, ''en0'', ''192.168.1.1'')]"

lemma sample_routes: "Bypasses sample_plan = map (\<lambda>(a, i, gw). host_route a i gw) sample_targets"
  by (simp add: sample_plan_def sample_targets_def)

lemma sample_bypasses:
  "one_route_each (Bypasses sample_plan)" "on_link_bypasses sample_lookups (Bypasses sample_plan)"
  "probes_free (Bypasses sample_plan)"
proof -
  show "one_route_each (Bypasses sample_plan)" by code_simp
  show "on_link_bypasses sample_lookups (Bypasses sample_plan)"
    by (rule on_link_bypasses_check [OF sample_routes]) code_simp
  show "probes_free (Bypasses sample_plan)"
    by (rule probes_free_check [OF sample_routes])
       (simp_all add: sample_targets_def fine_addr_def probe_candidates_def)
qed

lemma sample_unzoned: "\<forall>ob \<in> set (direct_outbounds (runtimeWithInterfaceDNS sample_capture sample_leases)). unzoned ob"
  by code_simp

lemma sample_captures: "DefaultRoute sample_capture"
  by (simp add: sample_capture_def)

text \<open>The same host when the lease names the server of the file.\<close>

definition agreeing_dhcp :: "unit runner" where
  "agreeing_dhcp cmd args h =
     ((if args = [''getpacket'', ''en0''] then ''domain_name_server (ip_mult): {1.1.1.1}'' else [], None), h)"

definition agreeing_leases :: interface_dns where
  "agreeing_leases = [(''en0'', [\<lparr>ap_addr = V4 0x01010101, ap_port = 53\<rparr>])]"

definition agreeing_targets :: "(addr \<times> string \<times> string) list" where
  "agreeing_targets = [(V4 0x0a010001, ''en1'', []), (V4 0xc0a80101, ''en0'', []), (V4 0x01010101, ''en0'', ''192.168.1.1'')]"

definition agreeing_plan :: defaultRoutePlan where
  "agreeing_plan = sample_plan\<lparr>Bypasses := map (\<lambda>(a, i, gw). host_route a i gw) agreeing_targets\<rparr>"

lemma agreeing_facts:
  "discoverInterfaceDNS agreeing_dhcp sample_capture () = ((agreeing_leases, None), ())"
  "leases_agree sample_capture agreeing_leases"
  "planDefaultRouteCapture (runtimeWithInterfaceDNS sample_capture agreeing_leases) False sample_lookups = Inr agreeing_plan"
  "\<forall>ob \<in> set (direct_outbounds sample_capture). unzoned ob"
  "one_route_each (Bypasses agreeing_plan)"
  by code_simp+

lemma agreeing_bypasses:
  "on_link_bypasses sample_lookups (Bypasses agreeing_plan)" "probes_free (Bypasses agreeing_plan)"
proof -
  have B: "Bypasses agreeing_plan = map (\<lambda>(a, i, gw). host_route a i gw) agreeing_targets" by (simp add: agreeing_plan_def)
  show "on_link_bypasses sample_lookups (Bypasses agreeing_plan)" by (rule on_link_bypasses_check [OF B]) code_simp
  show "probes_free (Bypasses agreeing_plan)"
    by (rule probes_free_check [OF B]) (simp_all add: agreeing_targets_def fine_addr_def probe_candidates_def)
qed

theorem replan_confirms_witness:
  "capture_started sample_capture agreeing_leases False sample_lookups (\<lambda>p. lookups_after sample_lookups (Bypasses p)) =
     Inr agreeing_plan"
  by (rule replan_confirms [where after = "\<lambda>p. lookups_after sample_lookups (Bypasses p)",
        OF sample_capture_compiles sample_captures agreeing_facts(1,2,3,4) installed_after [OF agreeing_facts(5)]
        agreeing_bypasses, THEN conjunct2])

definition sample_wan :: outbound_cfg where
  "sample_wan = effective_outbound sample_leases (snd (last (cfg_Outbounds sample_config)))"

lemma sample_wan_direct: "sample_wan \<in> set (direct_outbounds (runtimeWithInterfaceDNS sample_capture sample_leases))"
  "ob_DNS sample_wan = [\<lparr>ap_addr = V4 0x0a000035, ap_port = 53\<rparr>]" "ob_Interface sample_wan = ''en0''"
  by code_simp+

theorem captured_upstreams_bypassed_witness:
  "served sample_lookups (set (Bypasses sample_plan)) (V4 0x0a000035) ''en0''"
proof -
  note all = captured_upstreams_bypassed [OF sample_capture_compiles sample_captures sample_discovery sample_planned,
      THEN conjunct1]
  show ?thesis using all [THEN bspec, OF sample_wan_direct(1)] sample_wan_direct(2,3) by simp
qed

theorem planned_routes_accepted_witness:
  "is_ok (validateRouteState (host_route (V4 0x0a000035) ''en0'' ''192.168.1.1''))"
proof -
  have "validSystemInterface ''utun4''" by code_simp
  note all = planned_routes_accepted [OF sample_capture_compiles sample_captures sample_discovery sample_planned this,
      THEN conjunct1]
  have "host_route (V4 0x0a000035) ''en0'' ''192.168.1.1'' \<in> set (plan_routes sample_plan ''utun4'')"
    by (simp add: plan_routes_def sample_plan_def)
  then show ?thesis using all by blast
qed

text \<open>
  For IPv6 an address can be bypassed through two interfaces: ownership is claimed for the gateway with its
  zone, but the route is for the address without.  The link-local gateways of two networks often have the
  same address, and the second of the two routes cannot be added.
\<close>

lemma zoned_gateways_collide:
  "\<exists>o1 m1 o2 m2.
     addGatewayBypass [] [] (V6 w ''en0'') ''en0'' = Inr (o1, m1) \<and>
     addGatewayBypass o1 m1 (V6 w ''en1'') ''en1'' = Inr (o2, m2) \<and>
     {host_route (V6 w []) ''en0'' [], host_route (V6 w []) ''en1'' []} \<subseteq> ran (gm_get m2)"
proof -
  let ?g = "V6 w ''en0''" and ?h = "V6 w ''en1''"
  have same: "host_route ?g i [] = host_route (V6 w []) i []" "host_route ?h i [] = host_route (V6 w []) i []" for i
    using host_route_without_zone [of ?g i] host_route_without_zone [of ?h i] by simp_all
  obtain o1 m1 where 1: "addGatewayBypass [] [] ?g ''en0'' = Inr (o1, m1)" and o1: "gm_get o1 ?h = None"
    and m1: "m1 = gm_put [] (pfx_string (hostPrefix (V6 w [])) @ ''|en0'') (host_route (V6 w []) ''en0'' [])"
    by (simp add: addGatewayBypass_def claimBypassAddress_def Let_def)
  obtain o2 m2 where 2: "addGatewayBypass o1 m1 ?h ''en1'' = Inr (o2, m2)"
    and m2: "m2 = gm_put m1 (pfx_string (hostPrefix (V6 w [])) @ ''|en1'') (host_route (V6 w []) ''en1'' [])"
    using o1 by (simp add: addGatewayBypass_def claimBypassAddress_def Let_def)
  have "gm_get m2 (pfx_string (hostPrefix (V6 w [])) @ ''|en0'') = Some (host_route (V6 w []) ''en0'' [])"
    "gm_get m2 (pfx_string (hostPrefix (V6 w [])) @ ''|en1'') = Some (host_route (V6 w []) ''en1'' [])"
    by (simp_all add: m1 m2)
  then show ?thesis using 1 2 by (blast intro: ranI)
qed

text \<open>
  C20: The program verifies the plan for the wrong configuration.  The plan is made for the DNS servers in
  use, but verified for those in the configuration file.  Whenever an outbound in use has a DNS server
  that needs a bypass and is neither a server of a direct outbound of the file nor a gateway the host
  names, the start is aborted, whatever the host answers after the installation.
\<close>

theorem replan_forgets_leases:
  assumes "config_compile raw = Inr c" and "DefaultRoute c" and "discoverInterfaceDNS run c h = ((d, e), h')"
    and "planDefaultRouteCapture (runtimeWithInterfaceDNS c d) v6 lk = Inr p"
    and "ob \<in> set (direct_outbounds (runtimeWithInterfaceDNS c d))" and "s \<in> set (ob_DNS ob)"
    and "is6 (ap_addr s) \<longrightarrow> v6" and "\<not> direct_host lk (ap_addr s) (ob_Interface ob)"
    and "\<forall>ob' \<in> set (direct_outbounds c). \<forall>s' \<in> set (ob_DNS ob'). without_zone (ap_addr s') \<noteq> without_zone (ap_addr s)"
    and "\<forall>g. names_gateway (after p) g \<longrightarrow> without_zone g \<noteq> without_zone (ap_addr s)"
  shows "\<exists>es. capture_started c d v6 lk after = Inl (capture_changed es)"
proof -
  let ?a = "ap_addr s" and ?i = "ob_Interface ob"
  obtain st where "\<forall>ob \<in> set (direct_outbounds (runtimeWithInterfaceDNS c d)). all_served lk v6 (set (Bypasses p)) ob"
    by (rule plan_serves [OF assms(1-4)])
  then obtain gw where gw: "host_route ?a ?i gw \<in> set (Bypasses p)"
    using assms(5-8) unfolding all_served_def served_def by blast
  have fine: "fine_addr ?a" using direct_outbounds_fine [OF assms(1,3)] assms(5,6) by (auto simp: outbound_fine_def)
  have "\<not> needed (after p) (set (direct_outbounds c)) (host_route ?a ?i gw)"
  proof
    assume "needed (after p) (set (direct_outbounds c)) (host_route ?a ?i gw)"
    then obtain b where b: "pfx_string (hostPrefix ?a) = pfx_string (hostPrefix b)" "fine_addr b" "without_zone b \<noteq> without_zone ?a"
      using assms(9,10) configured_fine [OF assms(1)] by (fastforce simp: needed_def names_gateway_def outbound_fine_def)
    then show False using host_text_inj [OF fine b(2,1)] by simp
  qed
  then have "q \<noteq> p" if "planDefaultRouteCaptureOwned c v6 (after p) (Bypasses p) = Inr q" for q
    using plan_needed [OF that assms(2)] gw by blast
  then have "\<exists>es. verify_capture c v6 (after p) p = Some (capture_changed es)"
    using assms(2) by (auto simp: verify_capture_def plan_equal_iff split: sum.splits)
  then show ?thesis using assms(4) by (auto simp: capture_started_def)
qed

lemma sample_gateways:
  assumes "names_gateway (lookups_after sample_lookups (Bypasses sample_plan)) g"
  shows "g = V4 0xc0a80101 \<or> g = V4 0x0a010001"
proof -
  let ?lk = "lookups_after sample_lookups (Bypasses sample_plan)"
  let ?texts = "{addr_string (V4 0xc0a80101), addr_string (V4 0x0a010001), ''link#4''}"
  have texts: "''192.168.1.1'' = addr_string (V4 0xc0a80101)" "parse_addr ''link#4'' = None" by code_simp+
  have "rt_Gateway r \<in> {[], ''192.168.1.1''}" if "r \<in> set (Bypasses sample_plan)" for r
    using that by (auto simp: sample_plan_def)
  moreover have "r \<in> set (Bypasses sample_plan)" if "find f (Bypasses sample_plan) = Some r" for f r
    using that by (metis find_Some_iff nth_mem)
  ultimately have found: "rt_Gateway r \<in> {[], ''192.168.1.1''}" if "find f (Bypasses sample_plan) = Some r" for f r
    using that by blast
  have route: "Gateway l \<in> ?texts" if "lk_route ?lk a i = Inr l" for a i l
  proof (cases "find (matches a i) (Bypasses sample_plan)")
    case None
    then show ?thesis using that by (auto simp: lookups_after_def sample_lookups_def sample_gateway_def split: if_splits)
  next
    case (Some r)
    then show ?thesis using that found [OF Some] texts(1) by (auto simp: lookups_after_def)
  qed
  have default: "Gateway l \<in> ?texts" if "lk_default ?lk v i = Inr l" for v i l
    using that by (auto simp: lookups_after_def sample_lookups_def sample_gateway_def)
  obtain l :: route_lookup where l: "Gateway l \<in> ?texts" "parse_addr (Gateway l) = Some g"
    using assms route default unfolding names_gateway_def by blast
  have "parse_addr (addr_string (V4 0xc0a80101)) = Some (V4 0xc0a80101)"
    "parse_addr (addr_string (V4 0x0a010001)) = Some (V4 0x0a010001)" by code_simp+
  then show ?thesis using l texts(2) by (elim insertE) simp_all
qed

theorem replan_forgets_leases_witness:
  "\<exists>es. capture_started sample_capture sample_leases False sample_lookups (\<lambda>p. lookups_after sample_lookups (Bypasses p)) =
     Inl (capture_changed es)"
proof (rule replan_forgets_leases [OF sample_capture_compiles sample_captures sample_discovery sample_planned sample_wan_direct(1)])
  show "\<lparr>ap_addr = V4 0x0a000035, ap_port = 53\<rparr> \<in> set (ob_DNS sample_wan)" by (simp add: sample_wan_direct(2))
  show "\<not> direct_host sample_lookups (ap_addr \<lparr>ap_addr = V4 0x0a000035, ap_port = 53\<rparr>) (ob_Interface sample_wan)" by code_simp
  show "\<forall>ob' \<in> set (direct_outbounds sample_capture). \<forall>s' \<in> set (ob_DNS ob').
      without_zone (ap_addr s') \<noteq> without_zone (ap_addr \<lparr>ap_addr = V4 0x0a000035, ap_port = 53\<rparr>)" by code_simp
  show "\<forall>g. names_gateway (lookups_after sample_lookups (Bypasses sample_plan)) g \<longrightarrow>
      without_zone g \<noteq> without_zone (ap_addr \<lparr>ap_addr = V4 0x0a000035, ap_port = 53\<rparr>)"
    using sample_gateways by fastforce
qed simp

end
