(* ===== verification/Apperror.thy ===== *)
theory Apperror
  imports Prelude
begin

text \<open>
  \<open>internal/apperror\<close>: the typed errors of the program and their transport form.  An error crosses the
  process boundary between the worker, the supervisor and the command line as an \<open>ErrorInfo\<close>: \<open>InfoOf\<close>
  makes it, \<open>ValidateInfo\<close> checks what arrives and \<open>FromInfo\<close> rebuilds an error.
\<close>

section \<open>Codes\<close>

type_synonym error_code = string

definition CodeServiceProtocolTooOld :: error_code where "CodeServiceProtocolTooOld = ''SERVICE_PROTOCOL_TOO_OLD''"
definition CodeReloadRejected :: error_code where "CodeReloadRejected = ''RELOAD_REJECTED''"
definition CodeReloadRequestMismatch :: error_code where "CodeReloadRequestMismatch = ''RELOAD_REQUEST_MISMATCH''"
definition CodeReloadDigestMismatch :: error_code where "CodeReloadDigestMismatch = ''RELOAD_DIGEST_MISMATCH''"
definition CodeInternalError :: error_code where "CodeInternalError = ''INTERNAL_ERROR''"

definition knownCodes :: "error_code list" where
  "knownCodes =
     [''USAGE_ERROR'', ''ROOT_REQUIRED'', ''CONFIG_INVALID'', ''CONFIG_RESTART_REQUIRED'',
      ''SERVICE_NOT_INSTALLED'', ''SERVICE_NOT_RUNNING'', ''SERVICE_OPERATION_BUSY'',
      ''SERVICE_START_TIMEOUT'', ''SERVICE_STOP_TIMEOUT'', ''SERVICE_UNREACHABLE'',
      CodeServiceProtocolTooOld, CodeReloadRejected, ''RELOAD_TIMEOUT'',
      CodeReloadRequestMismatch, CodeReloadDigestMismatch, ''RELOAD_REQUEST_CONFLICT'',
      ''ROLLBACK_INCOMPLETE'', ''UNSAFE_FILE'', CodeInternalError]"

definition IsKnownCode :: "error_code \<Rightarrow> bool" where
  "IsKnownCode c = (c \<in> set knownCodes)"

definition Retryable :: "error_code \<Rightarrow> bool" where
  "Retryable c =
     (c \<in> {''SERVICE_NOT_RUNNING'', ''SERVICE_OPERATION_BUSY'', ''SERVICE_START_TIMEOUT'',
           ''SERVICE_STOP_TIMEOUT'', ''SERVICE_UNREACHABLE'', ''RELOAD_TIMEOUT''})"

definition ExitCode :: "error_code \<Rightarrow> int" where
  "ExitCode c =
     (if c = ''USAGE_ERROR'' then 2
      else if c \<in> {''CONFIG_INVALID'', ''CONFIG_RESTART_REQUIRED''} then 3
      else if c \<in> {''ROOT_REQUIRED'', ''UNSAFE_FILE''} then 4
      else if c \<in> {''SERVICE_NOT_INSTALLED'', ''SERVICE_NOT_RUNNING'', CodeReloadRejected,
                   CodeReloadRequestMismatch, CodeReloadDigestMismatch} then 5
      else if c \<in> {''SERVICE_START_TIMEOUT'', ''SERVICE_STOP_TIMEOUT'', ''SERVICE_UNREACHABLE'', ''RELOAD_TIMEOUT''} then 6
      else if c = ''ROLLBACK_INCOMPLETE'' then 7
      else if c \<in> {''SERVICE_OPERATION_BUSY'', ''RELOAD_REQUEST_CONFLICT''} then 8
      else if c = CodeServiceProtocolTooOld then 9
      else 1)"

definition normalizedCode :: "error_code \<Rightarrow> error_code" where
  "normalizedCode c = (if \<not> IsKnownCode c then CodeInternalError else c)"


section \<open>Errors\<close>

text \<open>
  The values a detail can have: those \<open>safeDetailValue\<close> lets pass (numbers by their text), and any other.
\<close>

datatype detail = DetailNil | DetailBool bool | DetailString string | DetailNumber string | DetailTime gotime
  | DetailOther string

type_synonym details = "(string, detail) gomap"

text \<open>
  A Go error, as far as the package looks at it: one without \<open>Unwrap\<close>, one that wraps a single error,
  one that wraps several (\<open>errors.Join\<close> or several \<open>%w\<close>), and a \<open>*Error\<close>.  The first three carry their text.
\<close>

datatype go_error =
    Opaque string
  | Wraps string go_error
  | Joins string "go_error list"
  | AppError error_code string string bool details "go_error option"

definition safeDetailValue :: "detail \<Rightarrow> bool" where
  "safeDetailValue v = (case v of DetailOther _ \<Rightarrow> False | _ \<Rightarrow> True)"

definition allowedDetailKeys :: "string list" where
  "allowedDetailKeys =
     [''actual_config_digest'', ''effective_uid'', ''expected_config_digest'', ''holder_operation'',
      ''holder_operation_id'', ''holder_pid'', ''operation_id'', ''phase'', ''reload_request_id'', ''rollback_of'',
      ''socket_path'', ''started_at'']"

definition sanitizeDetails :: "details \<Rightarrow> details" where
  "sanitizeDetails d = filter (\<lambda>(k, v). k \<in> set allowedDetailKeys \<and> safeDetailValue v) d"

definition New :: "error_code \<Rightarrow> string \<Rightarrow> string \<Rightarrow> go_error" where
  "New c operation message = AppError (normalizedCode c) operation message (Retryable (normalizedCode c)) [] None"

definition Wrap :: "error_code \<Rightarrow> string \<Rightarrow> string \<Rightarrow> go_error option \<Rightarrow> go_error" where
  "Wrap c operation message cause =
     AppError (normalizedCode c) operation message (Retryable (normalizedCode c)) [] cause"

fun error_text :: "go_error \<Rightarrow> string" where
  "error_text (Opaque t) = t"
| "error_text (Wraps t e) = t"
| "error_text (Joins t es) = t"
| "error_text (AppError c op msg r d cause) =
     (let message = (if msg = [] then normalizedCode c else msg)
      in case cause of None \<Rightarrow> message | Some e \<Rightarrow> message @ '': '' @ error_text e)"

text \<open>\<open>errors.As\<close> for \<open>*Error\<close>: the first typed error of the tree, depth first.\<close>

fun as_typed :: "go_error \<Rightarrow> go_error option"
  and as_typed_any :: "go_error list \<Rightarrow> go_error option" where
  "as_typed (Opaque t) = None"
| "as_typed (Wraps t e) = as_typed e"
| "as_typed (Joins t es) = as_typed_any es"
| "as_typed (AppError c op msg r d cause) = Some (AppError c op msg r d cause)"
| "as_typed_any [] = None"
| "as_typed_any (e # es) = (case as_typed e of Some t \<Rightarrow> Some t | None \<Rightarrow> as_typed_any es)"

text \<open>The type assertion \<open>err.(interface{ Unwrap() []error })\<close>.\<close>

fun unwrap_all :: "go_error \<Rightarrow> go_error list option" where
  "unwrap_all (Joins t es) = Some es"
| "unwrap_all _ = None"

fun WithDetails :: "go_error \<Rightarrow> details \<Rightarrow> go_error" where
  "WithDetails (AppError c op msg r d cause) new = AppError c op msg r (sanitizeDetails new) cause"
| "WithDetails e new = e"

definition Annotate :: "go_error \<Rightarrow> string \<Rightarrow> details \<Rightarrow> go_error" where
  "Annotate e operation new =
     (case as_typed e of
        Some (AppError c op msg r d cause) \<Rightarrow>
          AppError c (if operation \<noteq> [] then operation else op) msg r
            (sanitizeDetails (foldl (\<lambda>m (k, v). gm_put m k v) d new)) cause
      | _ \<Rightarrow> WithDetails (Wrap CodeInternalError operation ''operation failed'' (Some e)) new)"

definition CodeOf :: "go_error \<Rightarrow> error_code" where
  "CodeOf e =
     (if unwrap_all e \<noteq> None then CodeInternalError
      else case as_typed e of Some (AppError c op msg r d cause) \<Rightarrow> normalizedCode c | _ \<Rightarrow> CodeInternalError)"

definition ExitCodeOf :: "go_error \<Rightarrow> int" where
  "ExitCodeOf e = ExitCode (CodeOf e)"


section \<open>The transport form\<close>

datatype error_info =
  Info (ei_Code: error_code) (ei_Operation: string) (ei_Message: string) (ei_Retryable: bool) (ei_Details: details)
    (ei_Causes: "error_info list")

definition maxCauseDepth :: nat where "maxCauseDepth = 8"
definition maxCauseCount :: nat where "maxCauseCount = 32"

lemma as_typed_size:
  "as_typed e = Some t \<Longrightarrow> size t \<le> size e"
  "as_typed_any es = Some t \<Longrightarrow> size t \<le> size_list size es"
  by (induction e and es arbitrary: t and t rule: as_typed_as_typed_any.induct) (auto split: option.splits)

lemma unwrap_all_size: "unwrap_all e = Some es \<Longrightarrow> size_list size es < size e"
  by (cases e rule: unwrap_all.cases) auto

lemma typed_cause_size:
  assumes "as_typed e = Some (AppError c op msg r d (Some cause))" and "unwrap_all cause = Some es"
  shows "size_list size es < size e"
  using as_typed_size(1) [OF assms(1)] unwrap_all_size [OF assms(2)] by simp

text \<open>
  \<open>infoOf\<close> and \<open>causeInfos\<close>: the last argument and result are the number of infos that may still be made.
\<close>

function infoOf :: "go_error \<Rightarrow> nat \<Rightarrow> nat \<Rightarrow> error_info \<times> nat"
  and causeInfos :: "go_error list \<Rightarrow> nat \<Rightarrow> nat \<Rightarrow> error_info list \<times> nat" where
  "infoOf e depth remaining =
     (if maxCauseDepth \<le> depth
      then (Info CodeInternalError [] ''error cause depth exceeded'' False [] [], remaining - 1)
      else case unwrap_all e of
          Some es \<Rightarrow>
            (case causeInfos es (Suc depth) (remaining - 1) of
               (causes, left) \<Rightarrow> (Info CodeInternalError [] ''multiple errors occurred'' False [] causes, left))
        | None \<Rightarrow>
            (case as_typed e of
               Some (AppError c op msg r d cause) \<Rightarrow>
                 (case (case Option.bind cause unwrap_all of
                          None \<Rightarrow> ([], remaining - 1)
                        | Some es \<Rightarrow> causeInfos es (Suc depth) (remaining - 1)) of
                    (causes, left) \<Rightarrow>
                      (Info (normalizedCode c) op (if msg = [] then normalizedCode c else msg) r (sanitizeDetails d) causes,
                       left))
             | _ \<Rightarrow> (Info CodeInternalError [] (error_text e) False [] [], remaining - 1)))"
| "causeInfos [] depth remaining = ([], remaining)"
| "causeInfos (e # es) depth remaining =
     (if remaining = 0 then ([], remaining)
      else case infoOf e depth remaining of
          (i, left) \<Rightarrow> (case causeInfos es depth left of (is, left') \<Rightarrow> (i # is, left')))"
  by pat_completeness auto
termination
  by (relation "measure (\<lambda>x. case x of Inl (e, _) \<Rightarrow> Suc (2 * size e) | Inr (es, _) \<Rightarrow> 2 * size_list size es)")
    (auto dest: typed_cause_size unwrap_all_size simp: bind_eq_Some_conv)

declare infoOf.simps [simp del]

definition InfoOf :: "go_error \<Rightarrow> error_info" where
  "InfoOf e = fst (infoOf e 0 maxCauseCount)"

fun validateInfo :: "error_info \<Rightarrow> nat \<Rightarrow> nat \<Rightarrow> string option \<times> nat"
  and validateInfos :: "error_info list \<Rightarrow> nat \<Rightarrow> nat \<Rightarrow> string option \<times> nat" where
  "validateInfo (Info c op msg r d causes) depth count =
     (if maxCauseCount < Suc count \<or> maxCauseDepth < depth
      then (Some ''structured error has too many causes'', Suc count)
      else if \<not> IsKnownCode c then (Some ''structured error code is unknown'', Suc count)
      else if msg = [] then (Some ''structured error message is required'', Suc count)
      else if r \<noteq> Retryable c then (Some ''structured error retryable does not match code'', Suc count)
      else if length d \<noteq> length (sanitizeDetails d)
      then (Some ''structured error details contain unsupported fields or values'', Suc count)
      else validateInfos causes (Suc depth) (Suc count))"
| "validateInfos [] depth count = (None, count)"
| "validateInfos (i # is) depth count =
     (case validateInfo i depth count of
        (Some e, count') \<Rightarrow> (Some e, count')
      | (None, count') \<Rightarrow> validateInfos is depth count')"

definition ValidateInfo :: "error_info \<Rightarrow> string option" where
  "ValidateInfo i = fst (validateInfo i 0 0)"

text \<open>\<open>FromInfo\<close>; the text of the joined causes is theirs, line by line.\<close>

fun join_lines :: "string list \<Rightarrow> string" where
  "join_lines [] = []"
| "join_lines [t] = t"
| "join_lines (t # ts) = t @ [CHR 0x0A] @ join_lines ts"

definition errors_Join :: "go_error list \<Rightarrow> go_error" where
  "errors_Join es = Joins (join_lines (map error_text es)) es"

fun FromInfo :: "error_info \<Rightarrow> go_error" where
  "FromInfo (Info c op msg r d causes) =
     (case ValidateInfo (Info c op msg r d causes) of
        Some e \<Rightarrow>
          Wrap CodeServiceProtocolTooOld ''service.protocol'' ''received an invalid structured service error''
            (Some (Opaque e))
      | None \<Rightarrow>
          AppError c op msg r (sanitizeDetails d)
            (let es = map FromInfo causes in if es = [] then None else Some (errors_Join es)))"

end
