(* ===== verification/Apperror_Properties.thy ===== *)
theory Apperror_Properties
  imports Apperror
begin

text \<open>
  Errors survive the process boundary: whatever the program builds has a valid transport form of bounded
  size, and sending it on any number of times changes nothing.
\<close>

section \<open>Well-formed errors\<close>

text \<open>
  What the constructors of the package establish: an error says it is retryable exactly if its code is, and
  an error of another package has a text.
\<close>

fun wf_error :: "go_error \<Rightarrow> bool" where
  "wf_error (Opaque t) = (t \<noteq> [])"
| "wf_error (Wraps t e) = (t \<noteq> [] \<and> wf_error e)"
| "wf_error (Joins t es) = (\<forall>e \<in> set es. wf_error e)"
| "wf_error (AppError c op msg r d cause) =
     (r = Retryable (normalizedCode c) \<and> (case cause of None \<Rightarrow> True | Some e \<Rightarrow> wf_error e))"

lemma as_typed_wf:
  "as_typed e = Some t \<Longrightarrow> wf_error e \<Longrightarrow> wf_error t"
  "as_typed_any es = Some t \<Longrightarrow> \<forall>e \<in> set es. wf_error e \<Longrightarrow> wf_error t"
  by (induction e and es arbitrary: t and t rule: as_typed_as_typed_any.induct) (auto split: option.splits)

lemma as_typed_shape:
  "as_typed e = Some t \<Longrightarrow> \<exists>c op msg r d cause. t = AppError c op msg r d cause"
  "as_typed_any es = Some t \<Longrightarrow> \<exists>c op msg r d cause. t = AppError c op msg r d cause"
  by (induction e and es arbitrary: t and t rule: as_typed_as_typed_any.induct) (auto split: option.splits)

lemma unwrap_all_wf: "unwrap_all e = Some es \<Longrightarrow> wf_error e \<Longrightarrow> \<forall>e \<in> set es. wf_error e"
  by (cases e rule: unwrap_all.cases) auto

lemma untyped_text: "wf_error e \<Longrightarrow> as_typed e = None \<Longrightarrow> unwrap_all e = None \<Longrightarrow> error_text e \<noteq> []"
  by (cases e) auto

lemma IsKnownCode_normalized [simp]: "IsKnownCode (normalizedCode c)"
  by (auto simp: normalizedCode_def IsKnownCode_def knownCodes_def)

lemma normalizedCode_known: "IsKnownCode c \<Longrightarrow> normalizedCode c = c"
  by (simp add: normalizedCode_def)

lemma known_ne: "IsKnownCode c \<Longrightarrow> c \<noteq> []"
  by (auto simp: IsKnownCode_def knownCodes_def CodeServiceProtocolTooOld_def CodeReloadRejected_def
      CodeReloadRequestMismatch_def CodeReloadDigestMismatch_def CodeInternalError_def)

lemma internal_known [simp]: "IsKnownCode CodeInternalError" "\<not> Retryable CodeInternalError"
  by (simp_all add: IsKnownCode_def knownCodes_def Retryable_def CodeInternalError_def)

lemma sanitize_idem [simp]: "sanitizeDetails (sanitizeDetails d) = sanitizeDetails d"
  by (simp add: sanitizeDetails_def)

lemma sanitize_full: "length d = length (sanitizeDetails d) \<Longrightarrow> sanitizeDetails d = d"
  unfolding sanitizeDetails_def by (metis filter_id_conv length_filter_less linorder_neq_iff)


section \<open>Valid infos\<close>

fun nodes :: "error_info \<Rightarrow> nat" where
  "nodes (Info c op msg r d causes) = Suc (sum_list (map nodes causes))"

abbreviation "depth_marker \<equiv> Info CodeInternalError [] ''error cause depth exceeded'' False [] []"

text \<open>At the depth where \<open>infoOf\<close> stops there is nothing but the marker it leaves there.\<close>

fun marked :: "nat \<Rightarrow> error_info \<Rightarrow> bool" where
  "marked depth (Info c op msg r d causes) =
     (if maxCauseDepth \<le> depth then Info c op msg r d causes = depth_marker
      else \<forall>i \<in> set causes. marked (Suc depth) i)"

lemma infoOf_valid:
  "wf_error e \<Longrightarrow> 0 < remaining \<Longrightarrow> depth \<le> maxCauseDepth \<Longrightarrow> count + remaining \<le> maxCauseCount \<Longrightarrow>
   infoOf e depth remaining = (i, left) \<Longrightarrow>
   validateInfo i depth count = (None, count + (remaining - left)) \<and> left < remaining \<and> marked depth i"
  "\<forall>e \<in> set es. wf_error e \<Longrightarrow> depth \<le> maxCauseDepth \<Longrightarrow> count + remaining \<le> maxCauseCount \<Longrightarrow>
   causeInfos es depth remaining = (is, left) \<Longrightarrow>
   validateInfos is depth count = (None, count + (remaining - left)) \<and> left \<le> remaining \<and> (\<forall>i \<in> set is. marked depth i)"
proof (induction e depth remaining and es depth remaining arbitrary: count i left and count "is" left
    rule: infoOf_causeInfos.induct)
  case (1 e depth remaining)
  consider (deep) "maxCauseDepth \<le> depth"
    | (joined) es where "\<not> maxCauseDepth \<le> depth" "unwrap_all e = Some es"
    | (typed) c op msg r d cause where "\<not> maxCauseDepth \<le> depth" "unwrap_all e = None"
        "as_typed e = Some (AppError c op msg r d cause)"
    | (plain) "\<not> maxCauseDepth \<le> depth" "unwrap_all e = None" "as_typed e = None"
    using as_typed_shape(1) [of e] by (metis option.exhaust)
  then show ?case
  proof cases
    case deep
    then show ?thesis using "1.prems" by (auto simp: infoOf.simps sanitizeDetails_def)
  next
    case (joined es)
    obtain causes left' where c: "causeInfos es (Suc depth) (remaining - 1) = (causes, left')" by fastforce
    have "\<forall>e \<in> set es. wf_error e" using unwrap_all_wf joined(2) "1.prems"(1) by blast
    then have "validateInfos causes (Suc depth) (Suc count) = (None, Suc count + (remaining - 1 - left')) \<and>
        left' \<le> remaining - 1 \<and> (\<forall>i \<in> set causes. marked (Suc depth) i)"
      using "1.IH"(2) [OF joined, of "Suc count" causes left'] "1.prems" c joined(1) by simp
    then show ?thesis using "1.prems" joined c by (auto simp: infoOf.simps sanitizeDetails_def)
  next
    case (typed c op msg r d cause)
    then have wf: "wf_error (AppError c op msg r d cause)" using as_typed_wf(1) "1.prems"(1) by blast
    show ?thesis
    proof (cases "Option.bind cause unwrap_all")
      case None
      then show ?thesis using "1.prems" typed wf known_ne [of "normalizedCode c"] by (auto simp: infoOf.simps)
    next
      case (Some es)
      then have "\<forall>e \<in> set es. wf_error e" using wf unwrap_all_wf by (auto simp: bind_eq_Some_conv)
      moreover obtain causes left' where c: "causeInfos es (Suc depth) (remaining - 1) = (causes, left')" by fastforce
      ultimately have "validateInfos causes (Suc depth) (Suc count) = (None, Suc count + (remaining - 1 - left')) \<and>
          left' \<le> remaining - 1 \<and> (\<forall>i \<in> set causes. marked (Suc depth) i)"
        using "1.IH"(1) [OF typed(1,2,3) refl Some, of "Suc count" causes left'] "1.prems" typed(1) by simp
      then show ?thesis
        using "1.prems" typed wf Some c known_ne [of "normalizedCode c"] by (auto simp: infoOf.simps)
    qed
  next
    case plain
    then show ?thesis using "1.prems" untyped_text [of e] by (auto simp: infoOf.simps sanitizeDetails_def)
  qed
next
  case (3 e es depth remaining)
  show ?case
  proof (cases "remaining = 0")
    case False
    obtain i1 left1 where i: "infoOf e depth remaining = (i1, left1)" by fastforce
    obtain is1 left2 where c: "causeInfos es depth left1 = (is1, left2)" by fastforce
    have 1: "validateInfo i1 depth count = (None, count + (remaining - left1)) \<and> left1 < remaining \<and> marked depth i1"
      using "3.IH"(1) [OF False _ _ _ _ i, of count] "3.prems" False by simp
    have "validateInfos is1 depth (count + (remaining - left1)) = (None, count + (remaining - left1) + (left1 - left2)) \<and>
        left2 \<le> left1 \<and> (\<forall>i \<in> set is1. marked depth i)"
      using "3.IH"(2) [OF False i [symmetric] _ _ _ c, of "count + (remaining - left1)"] "3.prems" 1 by simp
    then show ?thesis using "3.prems"(4) False i c 1 by auto
  qed (use "3.prems" in auto)
qed auto

lemma validateInfo_count:
  "validateInfo i depth count = (None, n) \<Longrightarrow> n = count + nodes i"
  "validateInfos is depth count = (None, n) \<Longrightarrow> n = count + sum_list (map nodes is)"
proof (induction i depth count and "is" depth count arbitrary: n and n rule: validateInfo_validateInfos.induct)
  case (3 i "is" depth count)
  then show ?case by (cases "validateInfo i depth count") (fastforce split: option.splits)
qed (auto split: if_splits)

lemma validateInfo_mono:
  "validateInfo i depth count = (None, n) \<Longrightarrow> depth' \<le> depth \<Longrightarrow> count' \<le> count \<Longrightarrow>
   validateInfo i depth' count' = (None, count' + nodes i)"
  "validateInfos is depth count = (None, n) \<Longrightarrow> depth' \<le> depth \<Longrightarrow> count' \<le> count \<Longrightarrow>
   validateInfos is depth' count' = (None, count' + sum_list (map nodes is))"
proof (induction i depth count and "is" depth count arbitrary: n depth' count' and n depth' count'
    rule: validateInfo_validateInfos.induct)
  case (1 c op msg r d causes depth count)
  have ok: "\<not> (maxCauseCount < Suc count \<or> maxCauseDepth < depth)" "IsKnownCode c" "msg \<noteq> []" "r = Retryable c"
    "length d = length (sanitizeDetails d)" and causes: "validateInfos causes (Suc depth) (Suc count) = (None, n)"
    using "1.prems"(1) by (simp_all split: if_splits)
  show ?case using "1.IH" [OF ok(1) _ ok(3) _ _ causes, of "Suc depth'" "Suc count'"] ok "1.prems"(2,3) by simp
next
  case (3 i "is" depth count)
  obtain m where m: "validateInfo i depth count = (None, m)" "validateInfos is depth m = (None, n)"
    using "3.prems"(1) by (auto split: prod.splits option.splits)
  then have "m = count + nodes i" using validateInfo_count(1) by blast
  then have "validateInfos is depth' (count' + nodes i) = (None, count' + nodes i + sum_list (map nodes is))"
    using "3.IH"(2) [OF m(1) [symmetric] refl m(2), of depth' "count' + nodes i"] "3.prems"(2,3) by simp
  moreover have "validateInfo i depth' count' = (None, count' + nodes i)"
    using "3.IH"(1) [OF m(1), of depth' count'] "3.prems"(2,3) by simp
  ultimately show ?case by simp
qed simp

text \<open>An info that arrives intact is what the rebuilt error is sent on as.\<close>

lemma infoOf_FromInfo:
  "validateInfo i depth count = (None, n) \<Longrightarrow> marked depth i \<Longrightarrow> nodes i \<le> remaining \<Longrightarrow>
   infoOf (FromInfo i) depth remaining = (i, remaining - nodes i)"
  "validateInfos is depth count = (None, n) \<Longrightarrow> (\<forall>i \<in> set is. marked depth i) \<Longrightarrow> sum_list (map nodes is) \<le> remaining \<Longrightarrow>
   causeInfos (map FromInfo is) depth remaining = (is, remaining - sum_list (map nodes is))"
proof (induction i depth count and "is" depth count arbitrary: n remaining and n remaining
    rule: validateInfo_validateInfos.induct)
  case (1 c op msg r d causes depth count)
  have valid: "ValidateInfo (Info c op msg r d causes) = None"
    using validateInfo_mono(1) [OF "1.prems"(1), of 0 0] by (simp add: ValidateInfo_def)
  show ?case
  proof (cases "maxCauseDepth \<le> depth")
    case True
    then show ?thesis using "1.prems"(2) by (simp add: infoOf.simps)
  next
    case False
    then have "causeInfos (map FromInfo causes) (Suc depth) (remaining - 1) =
        (causes, remaining - 1 - sum_list (map nodes causes))"
      using 1 by (auto split: if_splits)
    then show ?thesis
      using "1.prems" False valid normalizedCode_known [of c] sanitize_full [of d]
      by (auto simp: infoOf.simps errors_Join_def Let_def split: if_splits)
  qed
next
  case (3 i "is" depth count)
  then obtain m where "validateInfo i depth count = (None, m)" "validateInfos is depth m = (None, n)"
    by (auto split: prod.splits option.splits)
  then show ?case using 3 by (cases i) auto
qed auto

lemma InfoOf_valid:
  assumes "wf_error e"
  shows "validateInfo (InfoOf e) 0 0 = (None, nodes (InfoOf e))" "nodes (InfoOf e) \<le> maxCauseCount" "marked 0 (InfoOf e)"
proof -
  obtain i left where i: "infoOf e 0 maxCauseCount = (i, left)" by fastforce
  have v: "validateInfo i 0 0 = (None, maxCauseCount - left) \<and> marked 0 i"
    using infoOf_valid(1) [OF assms _ _ _ i, of 0] by (simp add: maxCauseCount_def)
  then have "maxCauseCount - left = nodes i" using validateInfo_count(1) [of i 0 0 "maxCauseCount - left"] by simp
  then show "validateInfo (InfoOf e) 0 0 = (None, nodes (InfoOf e))" "nodes (InfoOf e) \<le> maxCauseCount" "marked 0 (InfoOf e)"
    using v i by (auto simp: InfoOf_def)
qed

lemma validateInfo_text:
  "validateInfo i depth count = (Some m, n) \<Longrightarrow> m \<noteq> []"
  "validateInfos is depth count = (Some m, n) \<Longrightarrow> m \<noteq> []"
proof (induction i depth count and "is" depth count rule: validateInfo_validateInfos.induct)
  case (3 i "is" depth count)
  then show ?case by (cases "validateInfo i depth count") (auto split: option.splits)
qed (auto split: if_splits)

lemma InfoOf_code: "ei_Code (InfoOf e) = CodeOf e"
  by (auto simp: InfoOf_def CodeOf_def infoOf.simps maxCauseDepth_def split: option.splits go_error.splits prod.splits)

lemma FromInfo_code: "ValidateInfo i = None \<Longrightarrow> CodeOf (FromInfo i) = ei_Code i"
  by (cases i) (auto simp: CodeOf_def ValidateInfo_def normalizedCode_known split: if_splits)

text \<open>
  C38: An error survives the way from one process to another.  For every error the program builds, the
  transport form passes the receiver's check and holds at most 32 infos; the error the receiver rebuilds
  has the same code, hence the same exit status, and is sent on in exactly the same form, however often
  it is passed on.
\<close>

theorem error_survives_hop:
  assumes "wf_error e"
  shows "ValidateInfo (InfoOf e) = None \<and> nodes (InfoOf e) \<le> maxCauseCount \<and>
         InfoOf (FromInfo (InfoOf e)) = InfoOf e \<and>
         CodeOf (FromInfo (InfoOf e)) = CodeOf e \<and> ExitCodeOf (FromInfo (InfoOf e)) = ExitCodeOf e"
proof -
  note v = InfoOf_valid [OF assms]
  have valid: "ValidateInfo (InfoOf e) = None" using v(1) by (simp add: ValidateInfo_def)
  moreover have "InfoOf (FromInfo (InfoOf e)) = InfoOf e"
    using infoOf_FromInfo(1) [OF v(1,3,2)] by (simp add: InfoOf_def)
  ultimately show ?thesis using FromInfo_code [OF valid] InfoOf_code [of e] v(2) by (simp add: ExitCodeOf_def)
qed

definition sample_failure :: go_error where
  "sample_failure =
     Wraps ''reload: failed'' (Wrap ''RELOAD_TIMEOUT'' ''service.reload'' ''worker did not answer''
       (Some (Joins ''a b'' [New ''NO_SUCH_CODE'' [] [], Opaque ''context deadline exceeded''])))"

theorem error_survives_hop_witness:
  "ExitCodeOf (FromInfo (InfoOf sample_failure)) = 6 \<and> length (ei_Causes (InfoOf sample_failure)) = 2 \<and>
   InfoOf (FromInfo (InfoOf sample_failure)) = InfoOf sample_failure"
proof -
  have "wf_error sample_failure" by code_simp
  moreover have "ExitCodeOf sample_failure = 6" "length (ei_Causes (InfoOf sample_failure)) = 2" by code_simp+
  ultimately show ?thesis using error_survives_hop [of sample_failure] by simp
qed

text \<open>
  Errors are well-formed by construction: \<open>New\<close>, \<open>Wrap\<close>, \<open>WithDetails\<close> and \<open>Annotate\<close> never make an error
  whose retryable flag disagrees with its code, and \<open>FromInfo\<close> gives a well-formed error for every info it
  is handed, also for one no sender of this program would have made.
\<close>

lemma errors_well_formed:
  "wf_error (New c op msg) \<and>
   (wf_error e \<longrightarrow> wf_error (Wrap c op msg (Some e)) \<and> wf_error (WithDetails e d) \<and> wf_error (Annotate e op d)) \<and>
   wf_error (FromInfo i)"
proof (intro conjI impI)
  show "wf_error (New c op msg)" by (simp add: New_def normalizedCode_known)
next
  assume e: "wf_error e"
  then show "wf_error (Wrap c op msg (Some e))" by (simp add: Wrap_def normalizedCode_known)
  show details: "wf_error (WithDetails e d)" using e by (cases e) auto
  show "wf_error (Annotate e op d)"
  proof (cases "as_typed e")
    case None
    then show ?thesis using e by (simp add: Annotate_def Wrap_def normalizedCode_known)
  next
    case (Some t)
    then obtain c op' msg r d' cause where "t = AppError c op' msg r d' cause" using as_typed_shape(1) by blast
    then show ?thesis using Some as_typed_wf(1) [OF Some e] by (simp add: Annotate_def)
  qed
next
  show "wf_error (FromInfo i)"
  proof (induction i rule: FromInfo.induct)
    case (1 c op msg r d causes)
    show ?case
    proof (cases "ValidateInfo (Info c op msg r d causes)")
      case None
      then have "IsKnownCode c" "r = Retryable c" by (auto simp: ValidateInfo_def split: if_splits)
      then show ?thesis using None 1 by (auto simp: errors_Join_def normalizedCode_known Let_def)
    next
      case (Some m)
      then have "m \<noteq> []" using validateInfo_text(1) [of "Info c op msg r d causes" 0 0 m] by (simp add: ValidateInfo_def prod_eq_iff)
      then show ?thesis using Some by (simp add: Wrap_def normalizedCode_known)
    qed
  qed
qed

end
