(* ===== verification/Privsep_Protocol.thy ===== *)
theory Privsep_Protocol
  imports Apperror System_DNS "HOL-Library.Word"
begin

text \<open>
  \<open>internal/privsep/protocol.go\<close>: the messages between the privileged supervisor and the worker, their
  validation and their framing on a byte stream.

  The JSON form of a message and of a payload, and SHA-256, are arguments.  A payload in JSON has the
  type \<open>'j\<close>, which is \<open>string\<close> on the wire.
\<close>

section \<open>Messages\<close>

definition ProtocolVersion :: int where "ProtocolVersion = 3"
definition MaxConfigSize :: nat where "MaxConfigSize = 1048576"
definition maxFrameSize :: nat where "maxFrameSize = 2097152"
definition maxDNSInterfaces :: nat where "maxDNSInterfaces = 32"
definition maxDNSServers :: nat where "maxDNSServers = 8"

type_synonym msg_kind = string

definition KindBootstrap :: msg_kind where "KindBootstrap = ''bootstrap''"
definition KindPrepared :: msg_kind where "KindPrepared = ''prepared''"
definition KindCommit :: msg_kind where "KindCommit = ''commit''"
definition KindRunning :: msg_kind where "KindRunning = ''running''"
definition KindReload :: msg_kind where "KindReload = ''reload''"
definition KindReloadResult :: msg_kind where "KindReloadResult = ''reload_result''"
definition KindShutdown :: msg_kind where "KindShutdown = ''shutdown''"
definition KindStopped :: msg_kind where "KindStopped = ''stopped''"
definition KindFatal :: msg_kind where "KindFatal = ''fatal''"

lemmas kind_defs = KindBootstrap_def KindPrepared_def KindCommit_def KindRunning_def KindReload_def
  KindReloadResult_def KindShutdown_def KindStopped_def KindFatal_def

definition knownKind :: "msg_kind \<Rightarrow> bool" where
  "knownKind k =
     (k \<in> {KindBootstrap, KindPrepared, KindCommit, KindRunning, KindReload, KindReloadResult, KindShutdown,
           KindStopped, KindFatal})"

record 'j message =
  mg_Version :: int
  mg_Kind :: msg_kind
  mg_RequestID :: "64 word"
  mg_Payload :: 'j

type_synonym interface_dns = "(string, addrport list) gomap"

record bootstrap =
  bs_Config :: string
  bs_ConfigDigest :: string
  bs_TUNName :: string
  bs_DNSListen :: string
  bs_StatusSocket :: string
  bs_IPv6Enabled :: bool
  bs_IPv6FallbackReason :: string
  bs_InterfaceDNS :: interface_dns

record prepared =
  pr_PID :: int
  pr_UID :: "32 word"
  pr_GID :: "32 word"

record reload_request =
  rl_ReloadRequestID :: string
  rl_Config :: string
  rl_ConfigDigest :: string
  rl_InterfaceDNS :: interface_dns

record reload_result =
  rr_ReloadRequestID :: string
  rr_ConfigDigest :: string
  rr_Error :: "error_info option"

text \<open>The payload of a message: the structs with a single string field are written as that field.\<close>

datatype payload =
    Bootstrap bootstrap
  | Prepared prepared
  | Commit string
  | Running string
  | Reload reload_request
  | ReloadResult reload_result
  | Shutdown string
  | Stopped string
  | Fatal string

text \<open>
  \<open>json.Marshal\<close> on payloads and \<open>DecodePayload\<close> for every payload type; its caller for a reload looks at the
  value also if there is an error.
\<close>

record 'j json =
  js_encode :: "payload \<Rightarrow> 'j option"
  js_bootstrap :: "'j \<Rightarrow> bootstrap option"
  js_prepared :: "'j \<Rightarrow> prepared option"
  js_commit :: "'j \<Rightarrow> string option"
  js_running :: "'j \<Rightarrow> string option"
  js_reload :: "'j \<Rightarrow> reload_request \<times> go_error option"
  js_reload_result :: "'j \<Rightarrow> reload_result option"
  js_shutdown :: "'j \<Rightarrow> string option"
  js_stopped :: "'j \<Rightarrow> string option"
  js_fatal :: "'j \<Rightarrow> string option"


section \<open>Errors\<close>

definition wrapf :: "string \<Rightarrow> go_error \<Rightarrow> go_error" where
  "wrapf m e = Wraps (m @ '': '' @ error_text e) e"

definition join_failures :: "go_error list \<Rightarrow> go_error option" where
  "join_failures es = (if es = [] then None else Some (errors_Join es))"

definition failure_if :: "bool \<Rightarrow> string \<Rightarrow> go_error list" where
  "failure_if b m = (if b then [Opaque m] else [])"

definition opt_failure :: "go_error option \<Rightarrow> go_error list" where
  "opt_failure e = (case e of None \<Rightarrow> [] | Some x \<Rightarrow> [x])"

definition io_EOF :: go_error where "io_EOF = Opaque ''EOF''"
definition ErrUnexpectedEOF :: go_error where "ErrUnexpectedEOF = Opaque ''unexpected EOF''"
definition ErrShortWrite :: go_error where "ErrShortWrite = Opaque ''short write''"

text \<open>\<open>errors.Is\<close> for \<open>io.EOF\<close>.\<close>

fun is_EOF :: "go_error \<Rightarrow> bool" where
  "is_EOF (Opaque t) = (Opaque t = io_EOF)"
| "is_EOF (Wraps t e) = is_EOF e"
| "is_EOF (Joins t es) = (\<exists>e \<in> set es. is_EOF e)"
| "is_EOF (AppError c op msg r d cause) = (case cause of None \<Rightarrow> False | Some e \<Rightarrow> is_EOF e)"


section \<open>Validation\<close>

definition all_hex :: "string \<Rightarrow> bool" where
  "all_hex s = list_all (\<lambda>c. hex_digit c \<noteq> None) s"

definition validateExternalRequestID :: "string \<Rightarrow> go_error option" where
  "validateExternalRequestID r =
     (if length r \<noteq> 32 \<or> r \<noteq> to_lower r then Some (Opaque ''reload request ID must be 32 lowercase hex characters'')
      else if \<not> all_hex r then Some (Opaque ''reload request ID is invalid'') else None)"

definition validateDigest :: "string \<Rightarrow> go_error option" where
  "validateDigest d =
     (if \<not> has_prefix d ''sha256:'' \<or> length d \<noteq> 71
      then Some (Opaque ''config digest must be sha256:<64 hex characters>'')
      else if \<not> all_hex (trim_prefix d ''sha256:'') then Some (Opaque ''config digest is invalid'') else None)"

text \<open>\<open>sha\<close> gives the SHA-256 sum of a string in lower-case hexadecimal.\<close>

definition validatePayloadDigest :: "(string \<Rightarrow> string) \<Rightarrow> string \<Rightarrow> string \<Rightarrow> go_error option" where
  "validatePayloadDigest sha contents digest =
     (if digest \<noteq> ''sha256:'' @ sha contents then Some (Opaque ''config payload digest mismatch'') else None)"

definition config_failures :: "(string \<Rightarrow> string) \<Rightarrow> string \<Rightarrow> string \<Rightarrow> go_error list" where
  "config_failures sha contents digest =
     (if contents = [] then [Opaque ''config is empty'']
      else failure_if (MaxConfigSize < length contents) ''config exceeds the size limit'') @
     (case validateDigest digest of Some e \<Rightarrow> [e] | None \<Rightarrow> opt_failure (validatePayloadDigest sha contents digest))"

fun server_failures :: "addrport list \<Rightarrow> addrport list \<Rightarrow> go_error list" where
  "server_failures seen [] = []"
| "server_failures seen (s # ss) =
     failure_if (\<not> is_valid (ap_addr s) \<or> ap_port s \<noteq> 53 \<or> \<not> usableUpstreamDNS (unmap (ap_addr s)))
       ''interface DNS contains unsafe server'' @
     failure_if (s \<in> set seen) ''interface DNS contains duplicate server'' @ server_failures (s # seen) ss"

definition interface_failures :: "string \<times> addrport list \<Rightarrow> go_error list" where
  "interface_failures = (\<lambda>(name, servers).
     if name = [] \<or> 15 < length name \<or> has_prefix name ''-'' then [Opaque ''interface DNS name is invalid'']
     else failure_if (\<not> (\<forall>c \<in> set name. alnum c \<or> c = CHR ''_'' \<or> c = CHR ''-'' \<or> c = CHR ''.''))
            ''interface DNS name is invalid'' @
          (if servers = [] \<or> maxDNSServers < length servers then [Opaque ''interface DNS must contain 1..8 servers'']
           else server_failures [] servers))"

definition validateInterfaceDNS :: "interface_dns \<Rightarrow> go_error option" where
  "validateInterfaceDNS configured =
     (if maxDNSInterfaces < length configured then Some (Opaque ''interface DNS contains too many interfaces'')
      else join_failures (concat (map interface_failures configured)))"

definition listen_ok :: "string \<Rightarrow> bool" where
  "listen_ok text =
     (case parse_addrport text of
        None \<Rightarrow> False
      | Some l \<Rightarrow> is_valid (ap_addr l) \<and> is4 (ap_addr l) \<and> is_loopback (ap_addr l) \<and> ap_port l \<noteq> 0)"

definition Bootstrap_Validate :: "(string \<Rightarrow> string) \<Rightarrow> bootstrap \<Rightarrow> go_error option" where
  "Bootstrap_Validate sha b =
     join_failures
       (config_failures sha (bs_Config b) (bs_ConfigDigest b) @
        failure_if (\<not> has_prefix (bs_TUNName b) ''utun'' \<or> length (bs_TUNName b) \<le> 4) ''bootstrap TUN name is invalid'' @
        failure_if (\<not> listen_ok (bs_DNSListen b))
          ''bootstrap DNS listen address must be non-zero IPv4 loopback'' @
        (if \<not> clean_absolute_path (bs_StatusSocket b)
         then [Opaque ''bootstrap status socket must be a clean absolute path'']
         else failure_if (103 < length (bs_StatusSocket b)) ''bootstrap status socket exceeds the macOS path limit'') @
        failure_if (bs_IPv6Enabled b \<and> bs_IPv6FallbackReason b \<noteq> [])
          ''enabled IPv6 bootstrap cannot include a fallback reason'' @
        opt_failure (validateInterfaceDNS (bs_InterfaceDNS b)))"

definition Prepared_Validate :: "prepared \<Rightarrow> go_error option" where
  "Prepared_Validate p =
     (if pr_PID p \<le> 0 then Some (Opaque ''prepared worker PID must be positive'')
      else if pr_UID p = 0 \<or> pr_GID p = 0 then Some (Opaque ''prepared worker must be non-root'') else None)"

definition Reload_Validate :: "(string \<Rightarrow> string) \<Rightarrow> reload_request \<Rightarrow> go_error option" where
  "Reload_Validate sha r =
     join_failures
       (opt_failure (validateExternalRequestID (rl_ReloadRequestID r)) @
        config_failures sha (rl_Config r) (rl_ConfigDigest r) @
        opt_failure (validateInterfaceDNS (rl_InterfaceDNS r)))"

definition ReloadResult_Validate :: "reload_result \<Rightarrow> go_error option" where
  "ReloadResult_Validate r =
     join_failures
       (opt_failure (validateExternalRequestID (rr_ReloadRequestID r)) @
        (case rr_Error r of
           None \<Rightarrow> opt_failure (validateDigest (rr_ConfigDigest r))
         | Some i \<Rightarrow>
             failure_if (rr_ConfigDigest r \<noteq> []) ''failed reload result must not include a config digest'' @
             (case ValidateInfo i of
                None \<Rightarrow> []
              | Some e \<Rightarrow> [wrapf ''reload result error is invalid'' (Opaque e)])))"


section \<open>Framing\<close>

text \<open>
  The writing end of a stream: what was written, and what the next calls of \<open>Write\<close> return, each at most
  the length of its argument.  Calls beyond the list write everything.
\<close>

record wire =
  wi_bytes :: string
  wi_plan :: "(int \<times> go_error option) list"

definition wire_write :: "wire \<Rightarrow> string \<Rightarrow> (int \<times> go_error option) \<times> wire" where
  "wire_write w data =
     (case wi_plan w of
        [] \<Rightarrow> ((int (length data), None), w\<lparr>wi_bytes := wi_bytes w @ data\<rparr>)
      | (n, e) # rest \<Rightarrow>
          (let count = min n (int (length data))
           in ((count, e), \<lparr>wi_bytes = wi_bytes w @ take (nat count) data, wi_plan = rest\<rparr>)))"

function writeAll :: "wire \<Rightarrow> string \<Rightarrow> go_error option \<times> wire" where
  "writeAll w contents =
     (if contents = [] then (None, w)
      else case wire_write w contents of
          ((count, Some e), w') \<Rightarrow> (Some e, w')
        | ((count, None), w') \<Rightarrow>
            if count \<le> 0 then (Some ErrShortWrite, w') else writeAll w' (drop (nat count) contents))"
  by pat_completeness auto
termination
  by (relation "measure (\<lambda>(w, contents). length contents)")
    (auto simp: wire_write_def Let_def split: list.splits)

declare writeAll.simps [simp del]

text \<open>\<open>binary.BigEndian\<close> on four bytes.\<close>

definition PutUint32 :: "32 word \<Rightarrow> string" where
  "PutUint32 v = map (\<lambda>k. char_of (unat v div 256 ^ k mod 256)) [3, 2, 1, 0]"

definition Uint32 :: "string \<Rightarrow> 32 word" where
  "Uint32 h = word_of_nat (foldl (\<lambda>a c. 256 * a + byte c) 0 h)"

record message_codec =
  mc_encode :: "string message \<Rightarrow> string option"
  mc_decode :: "string \<Rightarrow> string message option"

definition new_message :: "msg_kind \<Rightarrow> 64 word \<Rightarrow> 'j \<Rightarrow> 'j message" where
  "new_message kind requestID payload =
     \<lparr>mg_Version = ProtocolVersion, mg_Kind = kind, mg_RequestID = requestID, mg_Payload = payload\<rparr>"

definition Send ::
  "message_codec \<Rightarrow> string json \<Rightarrow> msg_kind \<Rightarrow> 64 word \<Rightarrow> payload \<Rightarrow> wire \<Rightarrow> go_error option \<times> wire" where
  "Send mc js kind requestID p w =
     (if \<not> knownKind kind then (Some (Opaque ''unknown privilege-separation message kind''), w)
      else case js_encode js p of
          None \<Rightarrow> (Some (Opaque ''encode payload''), w)
        | Some payload \<Rightarrow>
            (case mc_encode mc (new_message kind requestID payload) of
               None \<Rightarrow> (Some (Opaque ''encode message''), w)
             | Some bytes \<Rightarrow>
                 if maxFrameSize < length bytes then (Some (Opaque ''message exceeds the frame size''), w)
                 else
                   (case writeAll w (PutUint32 (word_of_nat (length bytes))) of
                      (Some e, w1) \<Rightarrow> (Some (wrapf ''write header'' e), w1)
                    | (None, w1) \<Rightarrow>
                        (case writeAll w1 bytes of
                           (Some e, w2) \<Rightarrow> (Some (wrapf ''write message'' e), w2)
                         | (None, w2) \<Rightarrow> (None, w2)))))"

text \<open>The reading end: what is still to come and how the stream ends.\<close>

record reader =
  rd_bytes :: string
  rd_end :: go_error

definition ReadFull :: "nat \<Rightarrow> reader \<Rightarrow> (go_error + string) \<times> reader" where
  "ReadFull n r =
     (if n \<le> length (rd_bytes r) then (Inr (take n (rd_bytes r)), r\<lparr>rd_bytes := drop n (rd_bytes r)\<rparr>)
      else (Inl (if rd_end r = io_EOF \<and> rd_bytes r \<noteq> [] then ErrUnexpectedEOF else rd_end r), r\<lparr>rd_bytes := []\<rparr>))"

text \<open>The checks of \<open>Receive\<close> on a frame that has arrived.\<close>

definition accept_frame :: "message_codec \<Rightarrow> string \<Rightarrow> go_error + string message" where
  "accept_frame mc contents =
     (case mc_decode mc contents of
        None \<Rightarrow> Inl (Opaque ''decode privilege-separation message'')
      | Some m \<Rightarrow>
          if mg_Version m \<noteq> ProtocolVersion then Inl (Opaque ''unsupported privilege-separation protocol version'')
          else if \<not> knownKind (mg_Kind m) then Inl (Opaque ''unknown privilege-separation message kind'')
          else if mg_Payload m = [] then Inl (Opaque ''message has no payload'')
          else Inr m)"

definition Receive :: "message_codec \<Rightarrow> reader \<Rightarrow> (go_error + string message) \<times> reader" where
  "Receive mc r =
     (case ReadFull 4 r of
        (Inl e, r1) \<Rightarrow> (Inl (wrapf ''read privilege-separation header'' e), r1)
      | (Inr header, r1) \<Rightarrow>
          (let size = Uint32 header
           in if size = 0 \<or> word_of_nat maxFrameSize < size
              then (Inl (Opaque ''invalid privilege-separation frame size''), r1)
              else
                (case ReadFull (unat size) r1 of
                   (Inl e, r2) \<Rightarrow> (Inl (wrapf ''read privilege-separation frame'' e), r2)
                 | (Inr contents, r2) \<Rightarrow> (accept_frame mc contents, r2))))"

text \<open>\<open>ReceiveKind\<close> with the decoder of the type it is instantiated at, on a message that has arrived.\<close>

definition ReceiveKind ::
  "'j json \<Rightarrow> msg_kind \<Rightarrow> ('j \<Rightarrow> 'a option) \<Rightarrow> go_error + 'j message \<Rightarrow> go_error + 'a \<times> 64 word" where
  "ReceiveKind js want decode incoming =
     (case incoming of
        Inl e \<Rightarrow> Inl e
      | Inr m \<Rightarrow>
          if mg_Kind m = KindFatal then
            (case js_fatal js (mg_Payload m) of
               None \<Rightarrow> Inl (Opaque ''decode payload'')
             | Some t \<Rightarrow>
                 Inl (Opaque (if trim_space t = [] then ''worker reported an unspecified fatal error'' else t)))
          else if mg_Kind m \<noteq> want then Inl (Opaque ''received another message'')
          else case decode (mg_Payload m) of
              None \<Rightarrow> Inl (Opaque ''decode payload'')
            | Some x \<Rightarrow> Inr (x, mg_RequestID m))"

end
