(* ===== verification/Privsep_Framing.thy ===== *)
theory Privsep_Framing
  imports Privsep_Protocol
begin

text \<open>
  The byte stream between supervisor and worker carries messages: what one side sends the other receives,
  in order and unchanged, however the writes are cut up, and a torn frame is never taken for a message.
\<close>

section \<open>Writing\<close>

lemma wire_write_bytes:
  assumes "wire_write w data = ((count, None), w')" and "0 < count"
  shows "wi_bytes w' = wi_bytes w @ take (nat count) data"
  using assms by (auto simp: wire_write_def Let_def split: list.splits)

lemma writeAll_bytes:
  "writeAll w contents = (None, w') \<Longrightarrow> wi_bytes w' = wi_bytes w @ contents"
proof (induction w contents rule: writeAll.induct)
  case (1 w contents)
  show ?case
  proof (cases "contents = []")
    case True
    then show ?thesis using "1.prems" by (simp add: writeAll.simps)
  next
    case False
    obtain count e w1 where c: "wire_write w contents = ((count, e), w1)" by (metis prod.collapse)
    then have e: "e = None" "0 < count" "writeAll w1 (drop (nat count) contents) = (None, w')"
      using "1.prems" False by (auto simp: writeAll.simps [of w contents] split: option.splits if_splits)
    then have "wi_bytes w' = wi_bytes w1 @ drop (nat count) contents"
      using "1.IH" [OF False c [symmetric] refl] by simp
    then show ?thesis using wire_write_bytes c e by (auto simp: append_take_drop_id)
  qed
qed

lemma PutUint32_length [simp]: "length (PutUint32 v) = 4"
  by (simp add: PutUint32_def)

lemma Uint32_PutUint32 [simp]: "Uint32 (PutUint32 v) = v"
proof -
  let ?n = "unat v"
  have "?n < 4294967296" using unsigned_less [of v, where 'a = nat] by simp
  then have top: "?n div 16777216 mod 256 = ?n div 16777216" by (simp add: less_mult_imp_div_less)
  have "256 * (?n div 16777216) + ?n div 65536 mod 256 = ?n div 65536"
    using mult_div_mod_eq [of 256 "?n div 65536"] by (simp add: div_mult2_eq [symmetric])
  moreover have "256 * (?n div 65536) + ?n div 256 mod 256 = ?n div 256"
    using mult_div_mod_eq [of 256 "?n div 256"] by (simp add: div_mult2_eq [symmetric])
  moreover have "256 * (?n div 256) + ?n mod 256 = ?n" by simp
  ultimately have "256 * (256 * (256 * (?n div 16777216) + ?n div 65536 mod 256) + ?n div 256 mod 256) + ?n mod 256 = ?n"
    by simp
  then have "foldl (\<lambda>a c. 256 * a + byte c) 0 (PutUint32 v) = unat v" by (simp add: PutUint32_def byte_char_of top)
  then show ?thesis by (simp add: Uint32_def)
qed

definition frame :: "string \<Rightarrow> string" where
  "frame bytes = PutUint32 (word_of_nat (length bytes)) @ bytes"

lemma Send_Some:
  assumes "Send mc js kind rid p w = (None, w')"
  shows "\<exists>payload bytes. js_encode js p = Some payload \<and> mc_encode mc (new_message kind rid payload) = Some bytes \<and>
    length bytes \<le> maxFrameSize \<and> knownKind kind \<and> wi_bytes w' = wi_bytes w @ frame bytes"
  using assms
  by (auto simp: Send_def frame_def dest!: writeAll_bytes split: if_splits option.splits prod.splits)


section \<open>Reading\<close>

text \<open>What \<open>encoding/json\<close> promises: decoding undoes encoding, and no encoding is empty.\<close>

definition framing_ok :: "message_codec \<Rightarrow> string json \<Rightarrow> bool" where
  "framing_ok mc js =
     ((\<forall>m s. mc_encode mc m = Some s \<longrightarrow> s \<noteq> [] \<and> mc_decode mc s = Some m) \<and>
      (\<forall>p s. js_encode js p = Some s \<longrightarrow> s \<noteq> []))"

lemma ReadFull_append: "length xs = n \<Longrightarrow> ReadFull n \<lparr>rd_bytes = xs @ ys, rd_end = e\<rparr> = (Inr xs, \<lparr>rd_bytes = ys, rd_end = e\<rparr>)"
  by (simp add: ReadFull_def)

lemma frame_size:
  assumes "length bytes \<le> maxFrameSize"
  shows "unat (word_of_nat (length bytes) :: 32 word) = length bytes"
    "\<not> word_of_nat maxFrameSize < (word_of_nat (length bytes) :: 32 word)"
    "bytes \<noteq> [] \<Longrightarrow> (word_of_nat (length bytes) :: 32 word) \<noteq> 0"
proof -
  show 1: "unat (word_of_nat (length bytes) :: 32 word) = length bytes"
    using assms by (simp add: unat_of_nat maxFrameSize_def)
  show "\<not> word_of_nat maxFrameSize < (word_of_nat (length bytes) :: 32 word)"
    using 1 assms by (simp add: word_less_nat_alt maxFrameSize_def)
  show "(word_of_nat (length bytes) :: 32 word) \<noteq> 0" if "bytes \<noteq> []"
  proof
    assume "(word_of_nat (length bytes) :: 32 word) = 0"
    then show False using 1 that by simp
  qed
qed

lemma Receive_frame:
  assumes "length bytes \<le> maxFrameSize" and "bytes \<noteq> []"
  shows "Receive mc \<lparr>rd_bytes = frame bytes @ rest, rd_end = e\<rparr> = (accept_frame mc bytes, \<lparr>rd_bytes = rest, rd_end = e\<rparr>)"
  using frame_size [OF assms(1)] assms(2) by (simp add: Receive_def frame_def ReadFull_append Let_def)

lemma accept_sent:
  assumes "framing_ok mc js" and "js_encode js p = Some payload" and "mc_encode mc (new_message kind rid payload) = Some bytes"
    and "knownKind kind"
  shows "accept_frame mc bytes = Inr (new_message kind rid payload)"
proof -
  have "mc_decode mc bytes = Some (new_message kind rid payload)" "payload \<noteq> []"
    using assms(1-3) by (auto simp: framing_ok_def)
  then show ?thesis using assms(4) by (simp add: accept_frame_def new_message_def)
qed

lemma Receive_torn:
  assumes "n < length (frame bytes)" and "length bytes \<le> maxFrameSize" and "bytes \<noteq> []"
  shows "\<exists>err r'. Receive mc \<lparr>rd_bytes = take n (frame bytes), rd_end = io_EOF\<rparr> = (Inl err, r') \<and> (is_EOF err \<longleftrightarrow> n = 0 \<or> n = 4)"
proof (cases "n < 4")
  case True
  then show ?thesis
    using assms
    by (auto simp: Receive_def ReadFull_def frame_def wrapf_def io_EOF_def ErrUnexpectedEOF_def take_Cons' PutUint32_def)
next
  case False
  then have "take n (frame bytes) = PutUint32 (word_of_nat (length bytes)) @ take (n - 4) bytes"
    by (simp add: frame_def)
  then show ?thesis
    using assms False frame_size [OF assms(2)]
    by (cases "n = 4") (auto simp: Receive_def ReadFull_append Let_def ReadFull_def wrapf_def io_EOF_def ErrUnexpectedEOF_def frame_def)
qed


section \<open>Sessions of messages\<close>

text \<open>Sending one request after the other, up to the first that fails, and receiving \<open>n\<close> messages.\<close>

fun send_all :: "message_codec \<Rightarrow> string json \<Rightarrow> (msg_kind \<times> 64 word \<times> payload) list \<Rightarrow> wire \<Rightarrow> go_error option \<times> wire" where
  "send_all mc js [] w = (None, w)"
| "send_all mc js ((kind, rid, p) # qs) w =
     (case Send mc js kind rid p w of
        (Some e, w') \<Rightarrow> (Some e, w')
      | (None, w') \<Rightarrow> send_all mc js qs w')"

fun receive_many :: "message_codec \<Rightarrow> nat \<Rightarrow> reader \<Rightarrow> (go_error + string message) list \<times> reader" where
  "receive_many mc 0 r = ([], r)"
| "receive_many mc (Suc n) r =
     (case Receive mc r of (m, r1) \<Rightarrow> (case receive_many mc n r1 of (ms, r2) \<Rightarrow> (m # ms, r2)))"

definition as_message :: "string json \<Rightarrow> msg_kind \<times> 64 word \<times> payload \<Rightarrow> string message" where
  "as_message js = (\<lambda>(kind, rid, p). new_message kind rid (the (js_encode js p)))"

lemma send_receive_all:
  assumes "framing_ok mc js"
  shows "send_all mc js qs w = (None, w') \<Longrightarrow> \<exists>sent. wi_bytes w' = wi_bytes w @ sent \<and>
    (\<forall>rest e. receive_many mc (length qs) \<lparr>rd_bytes = sent @ rest, rd_end = e\<rparr> =
       (map (\<lambda>q. Inr (as_message js q)) qs, \<lparr>rd_bytes = rest, rd_end = e\<rparr>))"
proof (induction qs arbitrary: w)
  case (Cons q qs)
  obtain kind rid p where q: "q = (kind, rid, p)" by (metis prod.collapse)
  obtain w1 where w1: "Send mc js kind rid p w = (None, w1)" "send_all mc js qs w1 = (None, w')"
    using Cons.prems q by (auto split: prod.splits option.splits)
  obtain payload bytes where b: "js_encode js p = Some payload" "mc_encode mc (new_message kind rid payload) = Some bytes"
      "length bytes \<le> maxFrameSize" "knownKind kind" "wi_bytes w1 = wi_bytes w @ frame bytes"
    using Send_Some [OF w1(1)] by blast
  obtain sent where s: "wi_bytes w' = wi_bytes w1 @ sent" "\<And>rest e. receive_many mc (length qs) \<lparr>rd_bytes = sent @ rest, rd_end = e\<rparr> =
       (map (\<lambda>q. Inr (as_message js q)) qs, \<lparr>rd_bytes = rest, rd_end = e\<rparr>)"
    using Cons.IH [OF w1(2)] by blast
  have "bytes \<noteq> []" using assms b(2) by (auto simp: framing_ok_def)
  then have "receive_many mc (length (q # qs)) \<lparr>rd_bytes = (frame bytes @ sent) @ rest, rd_end = e\<rparr> =
      (map (\<lambda>q. Inr (as_message js q)) (q # qs), \<lparr>rd_bytes = rest, rd_end = e\<rparr>)" for rest e
    using Receive_frame [OF b(3)] accept_sent [OF assms b(1,2,4)] s(2) b(1) q by (simp add: as_message_def)
  then show ?case using s(1) b(5) by (metis append.assoc)
qed simp

text \<open>
  C39: The protocol's framing is exact.  If one side sends any sequence of messages successfully, through a
  connection that may accept each write only in part, then the other side receives precisely these
  messages, in order, and nothing of what follows them is consumed; if the connection is cut anywhere
  inside a frame, receiving it fails instead of producing a message.
\<close>

theorem frames_exact:
  assumes "framing_ok mc js" and "send_all mc js qs w = (None, w')"
  shows "\<exists>sent. wi_bytes w' = wi_bytes w @ sent \<and>
    (\<forall>rest e. receive_many mc (length qs) \<lparr>rd_bytes = sent @ rest, rd_end = e\<rparr> =
       (map (\<lambda>q. Inr (as_message js q)) qs, \<lparr>rd_bytes = rest, rd_end = e\<rparr>)) \<and>
    (length qs = 1 \<longrightarrow> (\<forall>n < length sent. \<exists>err r'.
       Receive mc \<lparr>rd_bytes = take n sent, rd_end = io_EOF\<rparr> = (Inl err, r') \<and> (is_EOF err \<longleftrightarrow> n = 0 \<or> n = 4)))"
proof -
  obtain sent where s: "wi_bytes w' = wi_bytes w @ sent" "\<forall>rest e. receive_many mc (length qs) \<lparr>rd_bytes = sent @ rest, rd_end = e\<rparr> =
       (map (\<lambda>q. Inr (as_message js q)) qs, \<lparr>rd_bytes = rest, rd_end = e\<rparr>)"
    using send_receive_all [OF assms] by blast
  have "\<exists>err r'. Receive mc \<lparr>rd_bytes = take n sent, rd_end = io_EOF\<rparr> = (Inl err, r') \<and> (is_EOF err \<longleftrightarrow> n = 0 \<or> n = 4)"
    if one: "length qs = 1" and n: "n < length sent" for n
  proof -
    obtain kind rid p where q: "qs = [(kind, rid, p)]" using one by (metis One_nat_def length_0_conv length_Suc_conv prod.collapse)
    then have "Send mc js kind rid p w = (None, w')" using assms(2) by (auto split: prod.splits option.splits)
    then obtain payload bytes where b: "mc_encode mc (new_message kind rid payload) = Some bytes"
        "length bytes \<le> maxFrameSize" "wi_bytes w' = wi_bytes w @ frame bytes"
      using Send_Some by blast
    then have "bytes \<noteq> []" "sent = frame bytes" using assms(1) s(1) by (auto simp: framing_ok_def)
    then show ?thesis using Receive_torn [OF _ b(2)] n by simp
  qed
  then show ?thesis using s by blast
qed

text \<open>A codec for messages without a request number, and a connection that takes three bytes, one byte, then the rest.\<close>

definition colon_codec :: message_codec where
  "colon_codec =
     \<lparr>mc_encode = (\<lambda>m. if mg_Version m = 3 \<and> mg_RequestID m = 0 \<and> CHR '':'' \<notin> set (mg_Kind m)
        then Some (mg_Kind m @ '':'' @ mg_Payload m) else None),
      mc_decode = (\<lambda>s. case index_of (CHR '':'') s of
        None \<Rightarrow> None
      | Some i \<Rightarrow> Some \<lparr>mg_Version = 3, mg_Kind = take i s, mg_RequestID = 0, mg_Payload = drop (Suc i) s\<rparr>)\<rparr>"

definition quote_json :: "string json" where
  "quote_json =
     \<lparr>js_encode = (\<lambda>p. case p of Commit d \<Rightarrow> Some (''c'' @ d) | Running d \<Rightarrow> Some (''r'' @ d) | _ \<Rightarrow> None),
      js_bootstrap = (\<lambda>_. None), js_prepared = (\<lambda>_. None), js_commit = (\<lambda>s. Some (drop 1 s)),
      js_running = (\<lambda>s. Some (drop 1 s)), js_reload = (\<lambda>s. (\<lparr>rl_ReloadRequestID = s, rl_Config = [], rl_ConfigDigest = [], rl_InterfaceDNS = []\<rparr>, None)), js_reload_result = (\<lambda>_. None),
      js_shutdown = (\<lambda>_. None), js_stopped = (\<lambda>_. None), js_fatal = (\<lambda>_. None)\<rparr>"

definition slow_wire :: wire where
  "slow_wire = \<lparr>wi_bytes = [], wi_plan = [(3, None), (1, None)]\<rparr>"

lemma colon_codec_ok: "framing_ok colon_codec quote_json"
proof -
  have "index_of (CHR '':'') (k @ CHR '':'' # p) = Some (length k)" if "CHR '':'' \<notin> set k" for k p
  proof -
    have "takeWhile (\<lambda>x. x \<noteq> CHR '':'') (k @ CHR '':'' # p) = k" using that by (induction k) auto
    then show ?thesis by (simp add: index_of_def)
  qed
  then show ?thesis by (auto simp: framing_ok_def colon_codec_def quote_json_def split: if_splits payload.splits)
qed

lemma sample_messages:
  "map (\<lambda>q. Inr (as_message quote_json q)) [(KindCommit, 0, Commit ''d''), (KindRunning, 0, Running ''d'')] =
     [Inr (new_message KindCommit 0 ''cd''), Inr (new_message KindRunning 0 ''rd'')]"
  by (simp add: as_message_def quote_json_def)

theorem frames_exact_witness:
  "\<exists>sent. wi_bytes (snd (send_all colon_codec quote_json [(KindCommit, 0, Commit ''d''), (KindRunning, 0, Running ''d'')] slow_wire)) = sent \<and>
     receive_many colon_codec 2 \<lparr>rd_bytes = sent, rd_end = io_EOF\<rparr> =
       ([Inr (new_message KindCommit 0 ''cd''), Inr (new_message KindRunning 0 ''rd'')], \<lparr>rd_bytes = [], rd_end = io_EOF\<rparr>)"
proof -
  let ?qs = "[(KindCommit, 0 :: 64 word, Commit ''d''), (KindRunning, 0, Running ''d'')]"
  have "fst (send_all colon_codec quote_json ?qs slow_wire) = None" by code_simp
  then obtain w' where w': "send_all colon_codec quote_json ?qs slow_wire = (None, w')" by (metis prod.collapse)
  obtain sent where "wi_bytes w' = wi_bytes slow_wire @ sent"
    and "receive_many colon_codec (length ?qs) \<lparr>rd_bytes = sent @ [], rd_end = io_EOF\<rparr> =
       (map (\<lambda>q. Inr (as_message quote_json q)) ?qs, \<lparr>rd_bytes = [], rd_end = io_EOF\<rparr>)"
    using frames_exact [OF colon_codec_ok w'] by blast
  then have "wi_bytes w' = sent" "receive_many colon_codec 2 \<lparr>rd_bytes = sent, rd_end = io_EOF\<rparr> =
      ([Inr (new_message KindCommit 0 ''cd''), Inr (new_message KindRunning 0 ''rd'')], \<lparr>rd_bytes = [], rd_end = io_EOF\<rparr>)"
    unfolding sample_messages by (simp_all add: slow_wire_def numeral_2_eq_2)
  then show ?thesis using w' by simp
qed

end
