(* ===== verification/Privsep_Session.thy ===== *)
theory Privsep_Session
  imports Privsep_Protocol
begin

text \<open>
  The two ends of the protocol between supervisor and worker: the handshakes of
  \<open>internal/privsep/handshake.go\<close>, the worker's session \<open>ServeWorker\<close> (\<open>session.go\<close>) and the supervisor's
  \<open>SupervisorSession\<close> (\<open>supervisor.go\<close>), and the system the two make with a connection in each direction.

  \<open>Privsep_Framing\<close> shows that the byte streams carry messages; here a connection is a queue of them.
  An operation that sends takes the outcome of the write, one that receives takes what arrived.  A write that
  fails leaves nothing on the connection: a partly written frame, which \<open>Receive\<close> at the other end refuses, is
  the subject of \<open>Privsep_Framing\<close>.
\<close>

section \<open>Sending\<close>

definition post ::
  "'j json \<Rightarrow> go_error option \<Rightarrow> msg_kind \<Rightarrow> 64 word \<Rightarrow> payload \<Rightarrow> 'j message list \<Rightarrow>
   go_error option \<times> 'j message list" where
  "post js written kind requestID p out =
     (if \<not> knownKind kind then (Some (Opaque ''unknown privilege-separation message kind''), out)
      else case js_encode js p of
          None \<Rightarrow> (Some (Opaque ''encode payload''), out)
        | Some payload \<Rightarrow>
            (case written of
               Some e \<Rightarrow> (Some (wrapf ''write message'' e), out)
             | None \<Rightarrow> (None, out @ [new_message kind requestID payload])))"


section \<open>The supervisor's handshake\<close>

datatype sup_phase = supervisorInitial | supervisorBootstrapped | supervisorPrepared | supervisorCommitted
  | supervisorRunning

record sup_handshake =
  sh_state :: sup_phase
  sh_digest :: string

definition NewSupervisorHandshake :: sup_handshake where
  "NewSupervisorHandshake = \<lparr>sh_state = supervisorInitial, sh_digest = []\<rparr>"

definition sh_Bootstrap ::
  "'j json \<Rightarrow> (string \<Rightarrow> string) \<Rightarrow> go_error option \<Rightarrow> bootstrap \<Rightarrow> sup_handshake \<Rightarrow> 'j message list \<Rightarrow>
   go_error option \<times> sup_handshake \<times> 'j message list" where
  "sh_Bootstrap js sha written b h out =
     (if sh_state h \<noteq> supervisorInitial then (Some (Opaque ''cannot bootstrap''), h, out)
      else case Bootstrap_Validate sha b of
          Some e \<Rightarrow> (Some e, h, out)
        | None \<Rightarrow>
            (case post js written KindBootstrap 0 (Bootstrap b) out of
               (Some e, out') \<Rightarrow> (Some e, h, out')
             | (None, out') \<Rightarrow> (None, \<lparr>sh_state = supervisorBootstrapped, sh_digest = bs_ConfigDigest b\<rparr>, out')))"

definition sh_AwaitPrepared ::
  "'j json \<Rightarrow> go_error + 'j message \<Rightarrow> sup_handshake \<Rightarrow> (go_error + prepared) \<times> sup_handshake" where
  "sh_AwaitPrepared js incoming h =
     (if sh_state h \<noteq> supervisorBootstrapped then (Inl (Opaque ''cannot await prepared''), h)
      else case ReceiveKind js KindPrepared (js_prepared js) incoming of
          Inl e \<Rightarrow> (Inl e, h)
        | Inr (p, _) \<Rightarrow>
            (case Prepared_Validate p of
               Some e \<Rightarrow> (Inl e, h)
             | None \<Rightarrow> (Inr p, h\<lparr>sh_state := supervisorPrepared\<rparr>)))"

definition sh_Commit ::
  "'j json \<Rightarrow> go_error option \<Rightarrow> sup_handshake \<Rightarrow> 'j message list \<Rightarrow> go_error option \<times> sup_handshake \<times> 'j message list" where
  "sh_Commit js written h out =
     (if sh_state h \<noteq> supervisorPrepared then (Some (Opaque ''cannot commit''), h, out)
      else case post js written KindCommit 0 (Commit (sh_digest h)) out of
          (Some e, out') \<Rightarrow> (Some e, h, out')
        | (None, out') \<Rightarrow> (None, h\<lparr>sh_state := supervisorCommitted\<rparr>, out'))"

definition sh_AwaitRunning ::
  "'j json \<Rightarrow> go_error + 'j message \<Rightarrow> sup_handshake \<Rightarrow> (go_error + string) \<times> sup_handshake" where
  "sh_AwaitRunning js incoming h =
     (if sh_state h \<noteq> supervisorCommitted then (Inl (Opaque ''cannot await running''), h)
      else case ReceiveKind js KindRunning (js_running js) incoming of
          Inl e \<Rightarrow> (Inl e, h)
        | Inr (d, _) \<Rightarrow>
            if d \<noteq> sh_digest h then (Inl (Opaque ''worker running digest mismatch''), h)
            else (Inr d, h\<lparr>sh_state := supervisorRunning\<rparr>))"


section \<open>The worker's handshake\<close>

datatype worker_phase = workerInitial | workerBootstrapped | workerPrepared | workerCommitted | workerRunning

record worker_handshake =
  wh_state :: worker_phase
  wh_digest :: string

definition NewWorkerHandshake :: worker_handshake where
  "NewWorkerHandshake = \<lparr>wh_state = workerInitial, wh_digest = []\<rparr>"

definition wh_AwaitBootstrap ::
  "'j json \<Rightarrow> (string \<Rightarrow> string) \<Rightarrow> go_error + 'j message \<Rightarrow> worker_handshake \<Rightarrow>
   (go_error + bootstrap) \<times> worker_handshake" where
  "wh_AwaitBootstrap js sha incoming h =
     (if wh_state h \<noteq> workerInitial then (Inl (Opaque ''cannot await bootstrap''), h)
      else case ReceiveKind js KindBootstrap (js_bootstrap js) incoming of
          Inl e \<Rightarrow> (Inl e, h)
        | Inr (b, _) \<Rightarrow>
            (case Bootstrap_Validate sha b of
               Some e \<Rightarrow> (Inl e, h)
             | None \<Rightarrow> (Inr b, \<lparr>wh_state = workerBootstrapped, wh_digest = bs_ConfigDigest b\<rparr>)))"

definition wh_Prepared ::
  "'j json \<Rightarrow> go_error option \<Rightarrow> prepared \<Rightarrow> worker_handshake \<Rightarrow> 'j message list \<Rightarrow>
   go_error option \<times> worker_handshake \<times> 'j message list" where
  "wh_Prepared js written p h out =
     (if wh_state h \<noteq> workerBootstrapped then (Some (Opaque ''cannot report prepared''), h, out)
      else case Prepared_Validate p of
          Some e \<Rightarrow> (Some e, h, out)
        | None \<Rightarrow>
            (case post js written KindPrepared 0 (Prepared p) out of
               (Some e, out') \<Rightarrow> (Some e, h, out')
             | (None, out') \<Rightarrow> (None, h\<lparr>wh_state := workerPrepared\<rparr>, out')))"

definition wh_AwaitCommit ::
  "'j json \<Rightarrow> go_error + 'j message \<Rightarrow> worker_handshake \<Rightarrow> (go_error + string) \<times> worker_handshake" where
  "wh_AwaitCommit js incoming h =
     (if wh_state h \<noteq> workerPrepared then (Inl (Opaque ''cannot await commit''), h)
      else case ReceiveKind js KindCommit (js_commit js) incoming of
          Inl e \<Rightarrow> (Inl e, h)
        | Inr (d, _) \<Rightarrow>
            if d \<noteq> wh_digest h then (Inl (Opaque ''supervisor commit digest mismatch''), h)
            else (Inr d, h\<lparr>wh_state := workerCommitted\<rparr>))"

definition wh_Running ::
  "'j json \<Rightarrow> go_error option \<Rightarrow> worker_handshake \<Rightarrow> 'j message list \<Rightarrow>
   go_error option \<times> worker_handshake \<times> 'j message list" where
  "wh_Running js written h out =
     (if wh_state h \<noteq> workerCommitted then (Some (Opaque ''cannot report running''), h, out)
      else case post js written KindRunning 0 (Running (wh_digest h)) out of
          (Some e, out') \<Rightarrow> (Some e, h, out')
        | (None, out') \<Rightarrow> (None, h\<lparr>wh_state := workerRunning\<rparr>, out'))"


section \<open>The worker\<close>

text \<open>\<open>WorkerRuntime\<close>, on a state \<open>'r\<close> of the application.\<close>

record 'r worker_runtime =
  rt_Prepare :: "bootstrap \<Rightarrow> 'r \<Rightarrow> go_error option \<times> 'r"
  rt_Commit :: "'r \<Rightarrow> go_error option \<times> 'r"
  rt_Reload :: "reload_request \<Rightarrow> 'r \<Rightarrow> go_error option \<times> 'r"
  rt_Close :: "'r \<Rightarrow> go_error option \<times> 'r"

text \<open>A worker process: its identity, its handshake and the result of \<open>ServeWorker\<close> once that has returned.\<close>

record worker =
  wk_self :: prepared
  wk_handshake :: worker_handshake
  wk_ended :: "go_error option option"

type_synonym ('j, 'r) worker_state = "worker \<times> 'r \<times> 'j message list"

text \<open>Returning from \<open>ServeWorker\<close>, which closes the runtime, and returning after a \<open>Fatal\<close> message.\<close>

definition worker_return :: "'r worker_runtime \<Rightarrow> go_error list \<Rightarrow> ('j, 'r) worker_state \<Rightarrow> ('j, 'r) worker_state" where
  "worker_return rt failures = (\<lambda>(w, r, out).
     case rt_Close rt r of (e, r') \<Rightarrow> (w\<lparr>wk_ended := Some (join_failures (failures @ opt_failure e))\<rparr>, r', out))"

definition worker_fatal ::
  "'j json \<Rightarrow> 'r worker_runtime \<Rightarrow> go_error option \<Rightarrow> go_error \<Rightarrow> ('j, 'r) worker_state \<Rightarrow> ('j, 'r) worker_state" where
  "worker_fatal js rt written failure = (\<lambda>(w, r, out).
     worker_return rt [failure] (w, r, snd (post js written KindFatal 0 (Fatal (error_text failure)) out)))"

text \<open>
  A step makes at most two writes, its answer and a \<open>Fatal\<close> message when the answer could not be written or
  anything else of the step failed; each has an outcome of its own.
\<close>

type_synonym write_outcomes = "go_error option \<times> go_error option"

definition worker_bootstrap ::
  "'j json \<Rightarrow> (string \<Rightarrow> string) \<Rightarrow> 'r worker_runtime \<Rightarrow> write_outcomes \<Rightarrow> go_error + 'j message \<Rightarrow>
   ('j, 'r) worker_state \<Rightarrow> ('j, 'r) worker_state" where
  "worker_bootstrap js sha rt written incoming = (\<lambda>(w, r, out).
     case wh_AwaitBootstrap js sha incoming (wk_handshake w) of
       (Inl e, h) \<Rightarrow> worker_fatal js rt (snd written) e (w, r, out)
     | (Inr b, h) \<Rightarrow>
         (case rt_Prepare rt b r of
            (Some e, r') \<Rightarrow>
              worker_fatal js rt (snd written) (wrapf ''prepare worker runtime'' e) (w\<lparr>wk_handshake := h\<rparr>, r', out)
          | (None, r') \<Rightarrow>
              (case wh_Prepared js (fst written) (wk_self w) h out of
                 (Some e, h', out') \<Rightarrow> worker_fatal js rt (snd written) e (w\<lparr>wk_handshake := h'\<rparr>, r', out')
               | (None, h', out') \<Rightarrow> (w\<lparr>wk_handshake := h'\<rparr>, r', out'))))"

definition worker_commit ::
  "'j json \<Rightarrow> 'r worker_runtime \<Rightarrow> write_outcomes \<Rightarrow> go_error + 'j message \<Rightarrow>
   ('j, 'r) worker_state \<Rightarrow> ('j, 'r) worker_state" where
  "worker_commit js rt written incoming = (\<lambda>(w, r, out).
     case wh_AwaitCommit js incoming (wk_handshake w) of
       (Inl e, h) \<Rightarrow> worker_fatal js rt (snd written) e (w, r, out)
     | (Inr d, h) \<Rightarrow>
         (case rt_Commit rt r of
            (Some e, r') \<Rightarrow>
              worker_fatal js rt (snd written) (wrapf ''commit worker runtime'' e) (w\<lparr>wk_handshake := h\<rparr>, r', out)
          | (None, r') \<Rightarrow>
              (case wh_Running js (fst written) h out of
                 (Some e, h', out') \<Rightarrow> worker_fatal js rt (snd written) e (w\<lparr>wk_handshake := h'\<rparr>, r', out')
               | (None, h', out') \<Rightarrow> (w\<lparr>wk_handshake := h'\<rparr>, r', out'))))"

definition reload_answer :: "reload_request \<Rightarrow> go_error option \<Rightarrow> reload_result" where
  "reload_answer q failure =
     (case failure of
        None \<Rightarrow> \<lparr>rr_ReloadRequestID = rl_ReloadRequestID q, rr_ConfigDigest = rl_ConfigDigest q, rr_Error = None\<rparr>
      | Some e \<Rightarrow>
          (let typed = (if as_typed e = None
             then Wrap CodeReloadRejected ''service.reload'' ''worker rejected configuration reload'' (Some e) else e)
           in \<lparr>rr_ReloadRequestID = rl_ReloadRequestID q, rr_ConfigDigest = [], rr_Error = Some (InfoOf typed)\<rparr>))"

definition worker_reload ::
  "'j json \<Rightarrow> (string \<Rightarrow> string) \<Rightarrow> 'r worker_runtime \<Rightarrow> go_error option \<Rightarrow> 'j message \<Rightarrow>
   ('j, 'r) worker_state \<Rightarrow> ('j, 'r) worker_state" where
  "worker_reload js sha rt written m = (\<lambda>(w, r, out).
     if mg_RequestID m = 0 then worker_fatal js rt written (Opaque ''reload request ID must be non-zero'') (w, r, out)
     else
       (let (q, decodeErr) = js_reload js (mg_Payload m);
            checked = (case decodeErr of Some e \<Rightarrow> Some e | None \<Rightarrow> Reload_Validate sha q);
            (failure, r') = (case checked of Some e \<Rightarrow> (Some e, r) | None \<Rightarrow> rt_Reload rt q r)
        in case post js written KindReloadResult (mg_RequestID m) (ReloadResult (reload_answer q failure)) out of
             (Some e, out') \<Rightarrow> worker_return rt [e] (w, r', out')
           | (None, out') \<Rightarrow> (w, r', out')))"

definition worker_shutdown ::
  "'j json \<Rightarrow> 'r worker_runtime \<Rightarrow> go_error option \<Rightarrow> 'j message \<Rightarrow>
   ('j, 'r) worker_state \<Rightarrow> ('j, 'r) worker_state" where
  "worker_shutdown js rt written m = (\<lambda>(w, r, out).
     case js_shutdown js (mg_Payload m) of
       None \<Rightarrow> worker_fatal js rt written (Opaque ''decode payload'') (w, r, out)
     | Some _ \<Rightarrow>
         (case rt_Close rt r of
            (closeErr, r') \<Rightarrow>
              (case post js written KindStopped (mg_RequestID m)
                  (Stopped (case closeErr of None \<Rightarrow> [] | Some e \<Rightarrow> error_text e)) out of
                 (sendErr, out') \<Rightarrow>
                   (let result = (case sendErr of
                          None \<Rightarrow> closeErr
                        | Some e \<Rightarrow> join_failures (opt_failure closeErr @ [e]))
                    in (w\<lparr>wk_ended := Some (join_failures (opt_failure result @ opt_failure closeErr))\<rparr>, r', out')))))"

definition worker_serve ::
  "'j json \<Rightarrow> (string \<Rightarrow> string) \<Rightarrow> 'r worker_runtime \<Rightarrow> go_error option \<Rightarrow> go_error + 'j message \<Rightarrow>
   ('j, 'r) worker_state \<Rightarrow> ('j, 'r) worker_state" where
  "worker_serve js sha rt written incoming s =
     (case incoming of
        Inl e \<Rightarrow> worker_return rt [wrapf ''receive supervisor command'' e] s
      | Inr m \<Rightarrow>
          if mg_Kind m = KindReload then worker_reload js sha rt written m s
          else if mg_Kind m = KindShutdown then worker_shutdown js rt written m s
          else worker_fatal js rt written (Opaque ''received unsupported worker command'') s)"

text \<open>
  What \<open>ServeWorker\<close> does from one receive to the next; between them the handshake is initial, prepared or
  running.
\<close>

definition worker_step ::
  "'j json \<Rightarrow> (string \<Rightarrow> string) \<Rightarrow> 'r worker_runtime \<Rightarrow> write_outcomes \<Rightarrow> go_error + 'j message \<Rightarrow>
   ('j, 'r) worker_state \<Rightarrow> ('j, 'r) worker_state" where
  "worker_step js sha rt written incoming s =
     (case wh_state (wk_handshake (fst s)) of
        workerInitial \<Rightarrow> worker_bootstrap js sha rt written incoming s
      | workerPrepared \<Rightarrow> worker_commit js rt written incoming s
      | workerRunning \<Rightarrow> worker_serve js sha rt (fst written) incoming s
      | _ \<Rightarrow> s)"

text \<open>While it serves, the worker also stops if its context ends or the runtime does.\<close>

datatype worker_stop = Cancelled | ContextFailed go_error | RuntimeDone "go_error option"

definition worker_stopped ::
  "'j json \<Rightarrow> 'r worker_runtime \<Rightarrow> go_error option \<Rightarrow> worker_stop \<Rightarrow> ('j, 'r) worker_state \<Rightarrow> ('j, 'r) worker_state" where
  "worker_stopped js rt written why s =
     (case why of
        Cancelled \<Rightarrow> worker_return rt [] s
      | ContextFailed e \<Rightarrow> worker_return rt [e] s
      | RuntimeDone e \<Rightarrow>
          worker_fatal js rt written
            (case e of None \<Rightarrow> Opaque ''worker runtime stopped unexpectedly'' | Some x \<Rightarrow> x) s)"


section \<open>The supervisor\<close>

record session =
  se_expectedPID :: int
  se_UID :: "32 word"
  se_GID :: "32 word"
  se_requestID :: "64 word"
  se_bootstrapped :: bool
  se_prepared :: bool
  se_running :: bool
  se_closed :: bool

definition NewSupervisorSession :: "int \<Rightarrow> 32 word \<Rightarrow> 32 word \<Rightarrow> go_error + session" where
  "NewSupervisorSession pid uid gid =
     (if pid \<le> 0 then Inl (Opaque ''expected worker PID must be positive'')
      else if uid = 0 \<or> gid = 0 then Inl (Opaque ''expected worker identity must be non-root'')
      else Inr \<lparr>se_expectedPID = pid, se_UID = uid, se_GID = gid, se_requestID = 0, se_bootstrapped = False,
             se_prepared = False, se_running = False, se_closed = False\<rparr>)"

text \<open>
  The call in progress, which holds \<open>protocolMutex\<close>, with what it will compare the answer to.  Each
  operation is a part up to the end of its \<open>Send\<close> and a part that takes the answer.
\<close>

datatype call = AwaitPrepared | AwaitRunning string | AwaitReload "64 word" reload_request | AwaitStopped "64 word"

datatype begun = Returned "go_error option" | Waiting call

definition nextRequest :: "session \<Rightarrow> (go_error + 64 word) \<times> session" where
  "nextRequest s =
     (if \<not> se_running s \<or> se_closed s then (Inl (Opaque ''supervisor session is not running''), s)
      else
        (let s' = s\<lparr>se_requestID := se_requestID s + 1\<rparr>
         in if se_requestID s' = 0 then (Inl (Opaque ''supervisor request ID exhausted''), s')
            else (Inr (se_requestID s'), s')))"

definition send_call ::
  "'j json \<Rightarrow> go_error option \<Rightarrow> msg_kind \<Rightarrow> 64 word \<Rightarrow> payload \<Rightarrow> string \<Rightarrow> call \<Rightarrow> session \<Rightarrow> 'j message list \<Rightarrow>
   begun \<times> session \<times> 'j message list" where
  "send_call js written kind requestID p m c s out =
     (case post js written kind requestID p out of
        (Some e, out') \<Rightarrow> (Returned (Some (wrapf m e)), s, out')
      | (None, out') \<Rightarrow> (Waiting c, s, out'))"

definition se_Bootstrap ::
  "'j json \<Rightarrow> (string \<Rightarrow> string) \<Rightarrow> go_error option \<Rightarrow> bootstrap \<Rightarrow> session \<Rightarrow> 'j message list \<Rightarrow>
   begun \<times> session \<times> 'j message list" where
  "se_Bootstrap js sha written b s out =
     (case Bootstrap_Validate sha b of
        Some e \<Rightarrow> (Returned (Some e), s, out)
      | None \<Rightarrow>
          if se_bootstrapped s \<or> se_closed s
          then (Returned (Some (Opaque ''supervisor session cannot bootstrap in its current state'')), s, out)
          else send_call js written KindBootstrap 0 (Bootstrap b) ''send worker bootstrap'' AwaitPrepared
                 (s\<lparr>se_bootstrapped := True\<rparr>) out)"

definition se_Commit ::
  "'j json \<Rightarrow> go_error option \<Rightarrow> string \<Rightarrow> session \<Rightarrow> 'j message list \<Rightarrow> begun \<times> session \<times> 'j message list" where
  "se_Commit js written digest s out =
     (if \<not> se_prepared s \<or> se_running s \<or> se_closed s
      then (Returned (Some (Opaque ''supervisor session cannot commit in its current state'')), s, out)
      else case validateDigest digest of
          Some e \<Rightarrow> (Returned (Some e), s, out)
        | None \<Rightarrow> send_call js written KindCommit 0 (Commit digest) ''send worker commit'' (AwaitRunning digest) s out)"

definition se_Reload ::
  "'j json \<Rightarrow> (string \<Rightarrow> string) \<Rightarrow> go_error option \<Rightarrow> reload_request \<Rightarrow> session \<Rightarrow> 'j message list \<Rightarrow>
   begun \<times> session \<times> 'j message list" where
  "se_Reload js sha written q s out =
     (case Reload_Validate sha q of
        Some e \<Rightarrow> (Returned (Some e), s, out)
      | None \<Rightarrow>
          (case nextRequest s of
             (Inl e, s') \<Rightarrow> (Returned (Some e), s', out)
           | (Inr n, s') \<Rightarrow> send_call js written KindReload n (Reload q) ''send worker reload'' (AwaitReload n q) s' out))"

definition se_Shutdown ::
  "'j json \<Rightarrow> go_error option \<Rightarrow> string \<Rightarrow> session \<Rightarrow> 'j message list \<Rightarrow> begun \<times> session \<times> 'j message list" where
  "se_Shutdown js written reason s out =
     (if se_closed s then (Returned None, s, out)
      else case nextRequest s of
          (Inl e, s') \<Rightarrow> (Returned (Some e), s', out)
        | (Inr n, s') \<Rightarrow>
            send_call js written KindShutdown n (Shutdown reason) ''send worker shutdown'' (AwaitStopped n) s' out)"

text \<open>What ends a wait, and the branches of \<open>await\<close> and \<open>awaitShutdown\<close>, which agree on what arrives.\<close>

datatype 'j wakeup = Incoming "go_error + 'j message" | ProcessExited "go_error option" | ContextDone go_error

datatype 'j awaited = StillWaiting | AwaitFailed go_error | Answer "'j message" | ExitedCleanly

definition staleReloadResult :: "'j message \<Rightarrow> 64 word \<Rightarrow> bool" where
  "staleReloadResult m requestID =
     (mg_Kind m = KindReloadResult \<and> mg_RequestID m \<noteq> 0 \<and> mg_RequestID m < requestID)"

definition await_item :: "'j json \<Rightarrow> msg_kind \<Rightarrow> 64 word \<Rightarrow> go_error + 'j message \<Rightarrow> 'j awaited" where
  "await_item js want requestID item =
     (case item of
        Inl e \<Rightarrow> AwaitFailed e
      | Inr m \<Rightarrow>
          if mg_Kind m = KindFatal then
            (case js_fatal js (mg_Payload m) of
               None \<Rightarrow> AwaitFailed (Opaque ''decode payload'')
             | Some t \<Rightarrow>
                 AwaitFailed (Opaque (if t = [] then ''worker reported an unspecified fatal error'' else t)))
          else if staleReloadResult m requestID then StillWaiting
          else if mg_Kind m \<noteq> want then AwaitFailed (Opaque ''received another message'')
          else if mg_RequestID m \<noteq> requestID then AwaitFailed (Opaque ''received another request ID'')
          else Answer m)"

definition await :: "'j json \<Rightarrow> msg_kind \<Rightarrow> 64 word \<Rightarrow> 'j wakeup \<Rightarrow> 'j awaited" where
  "await js want requestID w =
     (case w of
        Incoming item \<Rightarrow> await_item js want requestID item
      | ProcessExited None \<Rightarrow> AwaitFailed (Opaque ''worker exited unexpectedly'')
      | ProcessExited (Some e) \<Rightarrow> AwaitFailed (wrapf ''worker exited unexpectedly'' e)
      | ContextDone e \<Rightarrow> AwaitFailed e)"

definition awaitShutdown :: "'j json \<Rightarrow> 64 word \<Rightarrow> 'j wakeup \<Rightarrow> 'j awaited" where
  "awaitShutdown js requestID w =
     (case w of
        Incoming item \<Rightarrow> await_item js KindStopped requestID item
      | ProcessExited None \<Rightarrow> ExitedCleanly
      | ProcessExited (Some e) \<Rightarrow> AwaitFailed (wrapf ''worker exited during shutdown'' e)
      | ContextDone e \<Rightarrow> AwaitFailed e)"

text \<open>The second parts: \<open>None\<close> keeps waiting, \<open>Some\<close> returns.\<close>

definition end_Bootstrap :: "'j json \<Rightarrow> session \<Rightarrow> 'j message \<Rightarrow> go_error option \<times> session" where
  "end_Bootstrap js s m =
     (case js_prepared js (mg_Payload m) of
        None \<Rightarrow> (Some (Opaque ''decode payload''), s)
      | Some p \<Rightarrow>
          (case Prepared_Validate p of
             Some e \<Rightarrow> (Some e, s)
           | None \<Rightarrow>
               if pr_PID p \<noteq> se_expectedPID s \<or> pr_UID p \<noteq> se_UID s \<or> pr_GID p \<noteq> se_GID s
               then (Some (Opaque ''worker prepared identity mismatch''), s)
               else (None, s\<lparr>se_prepared := True\<rparr>)))"

definition end_Commit :: "'j json \<Rightarrow> string \<Rightarrow> session \<Rightarrow> 'j message \<Rightarrow> go_error option \<times> session" where
  "end_Commit js digest s m =
     (case js_running js (mg_Payload m) of
        None \<Rightarrow> (Some (Opaque ''decode payload''), s)
      | Some d \<Rightarrow>
          if d \<noteq> digest then (Some (Opaque ''worker running digest mismatch''), s)
          else (None, s\<lparr>se_running := True\<rparr>))"

definition end_Reload :: "'j json \<Rightarrow> reload_request \<Rightarrow> session \<Rightarrow> 'j message \<Rightarrow> go_error option \<times> session" where
  "end_Reload js q s m =
     (case js_reload_result js (mg_Payload m) of
        None \<Rightarrow> (Some (Opaque ''decode payload''), s)
      | Some r \<Rightarrow>
          (case ReloadResult_Validate r of
             Some e \<Rightarrow> (Some e, s)
           | None \<Rightarrow>
               if rr_ReloadRequestID r \<noteq> rl_ReloadRequestID q
               then (Some (WithDetails (Wrap CodeReloadRequestMismatch ''service.reload''
                 ''worker reload request ID does not match the reload request'' (Some (Opaque (rr_ReloadRequestID r))))
                 [(''reload_request_id'', DetailString (rl_ReloadRequestID q))]), s)
               else case rr_Error r of
                   Some i \<Rightarrow> (Some (FromInfo i), s)
                 | None \<Rightarrow>
                     if rr_ConfigDigest r \<noteq> rl_ConfigDigest q
                     then (Some (WithDetails (Wrap CodeReloadDigestMismatch ''service.reload''
                       ''worker activated an unexpected configuration digest'' (Some (Opaque (rr_ConfigDigest r))))
                       [(''expected_config_digest'', DetailString (rl_ConfigDigest q)),
                        (''actual_config_digest'', DetailString (rr_ConfigDigest r)),
                        (''reload_request_id'', DetailString (rl_ReloadRequestID q))]), s)
                     else (None, s)))"

definition shut :: "session \<Rightarrow> session" where
  "shut s = s\<lparr>se_closed := True, se_running := False\<rparr>"

definition end_Shutdown :: "'j json \<Rightarrow> session \<Rightarrow> 'j message \<Rightarrow> go_error option \<times> session" where
  "end_Shutdown js s m =
     (case js_stopped js (mg_Payload m) of
        None \<Rightarrow> (Some (Opaque ''decode payload''), shut s)
      | Some t \<Rightarrow> (if t = [] then None else Some (Opaque t), shut s))"

definition end_call :: "'j json \<Rightarrow> call \<Rightarrow> session \<Rightarrow> 'j wakeup \<Rightarrow> (go_error option \<times> session) option" where
  "end_call js c s w =
     (let (awaited, context, answer) =
        (case c of
           AwaitPrepared \<Rightarrow> (await js KindPrepared 0 w, ''await worker prepared'', end_Bootstrap js)
         | AwaitRunning d \<Rightarrow> (await js KindRunning 0 w, ''await worker running'', end_Commit js d)
         | AwaitReload n q \<Rightarrow> (await js KindReloadResult n w, ''await worker reload result'', end_Reload js q)
         | AwaitStopped n \<Rightarrow> (awaitShutdown js n w, ''await worker stopped'', end_Shutdown js))
      in case awaited of
           StillWaiting \<Rightarrow> None
         | AwaitFailed e \<Rightarrow> Some (Some (wrapf context e), s)
         | Answer m \<Rightarrow> Some (answer s m)
         | ExitedCleanly \<Rightarrow> Some (None, shut s))"

end
