(* ===== verification/Privsep_System.thy ===== *)
theory Privsep_System
  imports Privsep_Session
begin

text \<open>
  Supervisor and worker together: a step relation over the two ends of \<open>Privsep_Session\<close>, a queue of messages
  in each direction and everything that can interfere: writes that fail, calls abandoned because their
  context ends, a worker whose runtime fails or which is cancelled, a connection that breaks.
\<close>

record ('j, 'r) net =
  nt_session :: session
  nt_call :: "call option"                     \<comment> \<open>the call of the supervisor in progress\<close>
  nt_last :: "(call \<times> go_error option) option" \<comment> \<open>the last call that waited, and its result\<close>
  nt_worker :: worker
  nt_runtime :: 'r
  nt_down :: "'j message list"                 \<comment> \<open>to the worker\<close>
  nt_up :: "(go_error + 'j message) list"      \<comment> \<open>what the supervisor's \<open>receive\<close> will deliver\<close>
  nt_requests :: nat                           \<comment> \<open>how many requests have been numbered\<close>

abbreviation alive :: "('j, 'r) net \<Rightarrow> bool" where
  "alive n \<equiv> wk_ended (nt_worker n) = None"

text \<open>A call of the supervisor: it returns at once, or it has sent its request and waits.\<close>

definition begin_call :: "begun \<times> session \<times> 'j message list \<Rightarrow> ('j, 'r) net \<Rightarrow> ('j, 'r) net" where
  "begin_call res n =
     (case res of (b, s, out) \<Rightarrow>
        n\<lparr>nt_session := s, nt_down := nt_down n @ out, nt_last := None,
          nt_call := (case b of Returned _ \<Rightarrow> None | Waiting c \<Rightarrow> Some c)\<rparr>)"

definition wake :: "'j json \<Rightarrow> call \<Rightarrow> 'j wakeup \<Rightarrow> ('j, 'r) net \<Rightarrow> ('j, 'r) net" where
  "wake js c w n =
     (case end_call js c (nt_session n) w of
        None \<Rightarrow> n
      | Some (e, s) \<Rightarrow> n\<lparr>nt_session := s, nt_call := None, nt_last := Some (c, e)\<rparr>)"

text \<open>The error the supervisor's \<open>receive\<close> reports once the worker's end of the connection is closed.\<close>

definition control_closed :: go_error where
  "control_closed = Opaque ''worker control channel closed''"

definition after_worker :: "('j, 'r) worker_state \<Rightarrow> ('j, 'r) net \<Rightarrow> ('j, 'r) net" where
  "after_worker = (\<lambda>(w, r, out) n.
     n\<lparr>nt_worker := w, nt_runtime := r,
       nt_up := nt_up n @ map Inr out @ (if wk_ended w = None then [] else [Inl control_closed])\<rparr>)"

text \<open>The steps that deliver what has been sent.\<close>

inductive deliver :: "'j json \<Rightarrow> (string \<Rightarrow> string) \<Rightarrow> 'r worker_runtime \<Rightarrow> ('j, 'r) net \<Rightarrow> ('j, 'r) net \<Rightarrow> bool"
  for js sha rt where
  to_supervisor:
    "nt_call n = Some c \<Longrightarrow> nt_up n = item # rest \<Longrightarrow> deliver js sha rt n (wake js c (Incoming item) (n\<lparr>nt_up := rest\<rparr>))"
| process_exit:
    "nt_call n = Some c \<Longrightarrow> wk_ended (nt_worker n) = Some res \<Longrightarrow> (e = None \<longleftrightarrow> res = None) \<Longrightarrow>
     deliver js sha rt n (wake js c (ProcessExited e) n)"
| to_worker:
    "alive n \<Longrightarrow> nt_down n = m # rest \<Longrightarrow>
     deliver js sha rt n
       (after_worker (worker_step js sha rt written (Inr m) (nt_worker n, nt_runtime n, [])) (n\<lparr>nt_down := rest\<rparr>))"

inductive net_step :: "'j json \<Rightarrow> (string \<Rightarrow> string) \<Rightarrow> 'r worker_runtime \<Rightarrow> ('j, 'r) net \<Rightarrow> ('j, 'r) net \<Rightarrow> bool"
  for js sha rt where
  delivery: "deliver js sha rt n n' \<Longrightarrow> net_step js sha rt n n'"
| call_bootstrap:
    "nt_call n = None \<Longrightarrow> net_step js sha rt n (begin_call (se_Bootstrap js sha written b (nt_session n) []) n)"
| call_commit:
    "nt_call n = None \<Longrightarrow> net_step js sha rt n (begin_call (se_Commit js written digest (nt_session n) []) n)"
| call_reload:
    "nt_call n = None \<Longrightarrow> net_step js sha rt n
       (begin_call (se_Reload js sha written q (nt_session n) []) (n\<lparr>nt_requests := Suc (nt_requests n)\<rparr>))"
| call_shutdown:
    "nt_call n = None \<Longrightarrow> net_step js sha rt n
       (begin_call (se_Shutdown js written reason (nt_session n) []) (n\<lparr>nt_requests := Suc (nt_requests n)\<rparr>))"
| abandon:
    "nt_call n = Some c \<Longrightarrow> net_step js sha rt n (wake js c (ContextDone e) n)"
| connection_lost:
    "alive n \<Longrightarrow> net_step js sha rt n
       (after_worker (worker_step js sha rt written (Inl e) (nt_worker n, nt_runtime n, [])) n)"
| worker_stops:
    "alive n \<Longrightarrow> wh_state (wk_handshake (nt_worker n)) = workerRunning \<Longrightarrow>
     net_step js sha rt n (after_worker (worker_stopped js rt written why (nt_worker n, nt_runtime n, [])) n)"

definition net_start :: "session \<Rightarrow> prepared \<Rightarrow> 'r \<Rightarrow> ('j, 'r) net" where
  "net_start s self r =
     \<lparr>nt_session = s, nt_call = None, nt_last = None,
      nt_worker = \<lparr>wk_self = self, wk_handshake = NewWorkerHandshake, wk_ended = None\<rparr>, nt_runtime = r,
      nt_down = [], nt_up = [], nt_requests = 0\<rparr>"

text \<open>A freshly started worker process \<open>self\<close>, supervised by a session that expects an identity.\<close>

inductive net_reach ::
  "'j json \<Rightarrow> (string \<Rightarrow> string) \<Rightarrow> 'r worker_runtime \<Rightarrow> int \<Rightarrow> 32 word \<Rightarrow> 32 word \<Rightarrow> prepared \<Rightarrow> 'r \<Rightarrow> ('j, 'r) net \<Rightarrow> bool"
  for js sha rt pid uid gid self r where
  net_init: "NewSupervisorSession pid uid gid = Inr s \<Longrightarrow> net_reach js sha rt pid uid gid self r (net_start s self r)"
| net_next: "net_reach js sha rt pid uid gid self r n \<Longrightarrow> net_step js sha rt n n' \<Longrightarrow> net_reach js sha rt pid uid gid self r n'"


section \<open>The calls on the runtime\<close>

text \<open>A runtime together with the list of calls made on it and their results.\<close>

datatype rt_call = CalledPrepare bootstrap "go_error option" | CalledCommit "go_error option"
  | CalledReload reload_request "go_error option" | CalledClose "go_error option"

definition logged :: "(go_error option \<Rightarrow> rt_call) \<Rightarrow> ('r \<Rightarrow> go_error option \<times> 'r) \<Rightarrow> 'r \<times> rt_call list \<Rightarrow>
    go_error option \<times> 'r \<times> rt_call list" where
  "logged c f = (\<lambda>(r, log). case f r of (e, r') \<Rightarrow> (e, r', log @ [c e]))"

definition logging :: "'r worker_runtime \<Rightarrow> ('r \<times> rt_call list) worker_runtime" where
  "logging rt =
     \<lparr>rt_Prepare = (\<lambda>b. logged (CalledPrepare b) (rt_Prepare rt b)), rt_Commit = logged CalledCommit (rt_Commit rt),
      rt_Reload = (\<lambda>q. logged (CalledReload q) (rt_Reload rt q)), rt_Close = logged CalledClose (rt_Close rt)\<rparr>"

text \<open>The configuration the runtime works with: the last one it accepted.\<close>

fun accepted :: "rt_call \<Rightarrow> string option" where
  "accepted (CalledPrepare b None) = Some (bs_Config b)"
| "accepted (CalledReload q None) = Some (rl_Config q)"
| "accepted _ = None"

definition active_config :: "rt_call list \<Rightarrow> string option" where
  "active_config log = (case List.map_filter accepted (rev log) of [] \<Rightarrow> None | c # _ \<Rightarrow> Some c)"

end
