(* ===== verification/Privsep_Invariant.thy ===== *)
theory Privsep_Invariant
  imports Privsep_System
begin

text \<open>
  What every step of the system of supervisor and worker does, by cases, and the two invariants that follow:
  the order of start-up, and the matching of answers to requests.
\<close>

text \<open>What \<open>encoding/json\<close> promises for the payloads: decoding undoes encoding.\<close>

definition json_ok :: "'j json \<Rightarrow> bool" where
  "json_ok js =
     (\<forall>p j. js_encode js p = Some j \<longrightarrow>
        (case p of
           Bootstrap b \<Rightarrow> js_bootstrap js j = Some b
         | Prepared x \<Rightarrow> js_prepared js j = Some x
         | Commit d \<Rightarrow> js_commit js j = Some d
         | Running d \<Rightarrow> js_running js j = Some d
         | Reload q \<Rightarrow> js_reload js j = (q, None)
         | ReloadResult a \<Rightarrow> js_reload_result js j = Some a
         | Shutdown t \<Rightarrow> js_shutdown js j = Some t
         | Stopped t \<Rightarrow> js_stopped js j = Some t
         | Fatal t \<Rightarrow> js_fatal js j = Some t))"

lemma json_okD:
  assumes "json_ok js"
  shows "js_encode js (Prepared x) = Some j \<Longrightarrow> js_prepared js j = Some x"
    "js_encode js (Running d) = Some j \<Longrightarrow> js_running js j = Some d"
    "js_encode js (Reload q) = Some j \<Longrightarrow> js_reload js j = (q, None)"
    "js_encode js (ReloadResult a) = Some j \<Longrightarrow> js_reload_result js j = Some a"
proof -
  note ok = assms [unfolded json_ok_def, rule_format]
  show "js_encode js (Prepared x) = Some j \<Longrightarrow> js_prepared js j = Some x"
    "js_encode js (Running d) = Some j \<Longrightarrow> js_running js j = Some d"
    "js_encode js (Reload q) = Some j \<Longrightarrow> js_reload js j = (q, None)"
    "js_encode js (ReloadResult a) = Some j \<Longrightarrow> js_reload_result js j = Some a"
    using ok [of "Prepared x" j] ok [of "Running d" j] ok [of "Reload q" j] ok [of "ReloadResult a" j] by simp_all
qed

lemma kind_neq [simp]:
  "KindBootstrap \<noteq> KindPrepared" "KindBootstrap \<noteq> KindCommit" "KindBootstrap \<noteq> KindRunning"
  "KindBootstrap \<noteq> KindReload" "KindBootstrap \<noteq> KindReloadResult" "KindBootstrap \<noteq> KindShutdown"
  "KindBootstrap \<noteq> KindStopped" "KindBootstrap \<noteq> KindFatal" "KindPrepared \<noteq> KindBootstrap"
  "KindPrepared \<noteq> KindCommit" "KindPrepared \<noteq> KindRunning" "KindPrepared \<noteq> KindReload"
  "KindPrepared \<noteq> KindReloadResult" "KindPrepared \<noteq> KindShutdown" "KindPrepared \<noteq> KindStopped"
  "KindPrepared \<noteq> KindFatal" "KindCommit \<noteq> KindBootstrap" "KindCommit \<noteq> KindPrepared"
  "KindCommit \<noteq> KindRunning" "KindCommit \<noteq> KindReload" "KindCommit \<noteq> KindReloadResult"
  "KindCommit \<noteq> KindShutdown" "KindCommit \<noteq> KindStopped" "KindCommit \<noteq> KindFatal"
  "KindRunning \<noteq> KindBootstrap" "KindRunning \<noteq> KindPrepared" "KindRunning \<noteq> KindCommit"
  "KindRunning \<noteq> KindReload" "KindRunning \<noteq> KindReloadResult" "KindRunning \<noteq> KindShutdown"
  "KindRunning \<noteq> KindStopped" "KindRunning \<noteq> KindFatal" "KindReload \<noteq> KindBootstrap"
  "KindReload \<noteq> KindPrepared" "KindReload \<noteq> KindCommit" "KindReload \<noteq> KindRunning"
  "KindReload \<noteq> KindReloadResult" "KindReload \<noteq> KindShutdown" "KindReload \<noteq> KindStopped"
  "KindReload \<noteq> KindFatal" "KindReloadResult \<noteq> KindBootstrap" "KindReloadResult \<noteq> KindPrepared"
  "KindReloadResult \<noteq> KindCommit" "KindReloadResult \<noteq> KindRunning" "KindReloadResult \<noteq> KindReload"
  "KindReloadResult \<noteq> KindShutdown" "KindReloadResult \<noteq> KindStopped" "KindReloadResult \<noteq> KindFatal"
  "KindShutdown \<noteq> KindBootstrap" "KindShutdown \<noteq> KindPrepared" "KindShutdown \<noteq> KindCommit"
  "KindShutdown \<noteq> KindRunning" "KindShutdown \<noteq> KindReload" "KindShutdown \<noteq> KindReloadResult"
  "KindShutdown \<noteq> KindStopped" "KindShutdown \<noteq> KindFatal" "KindStopped \<noteq> KindBootstrap"
  "KindStopped \<noteq> KindPrepared" "KindStopped \<noteq> KindCommit" "KindStopped \<noteq> KindRunning"
  "KindStopped \<noteq> KindReload" "KindStopped \<noteq> KindReloadResult" "KindStopped \<noteq> KindShutdown"
  "KindStopped \<noteq> KindFatal" "KindFatal \<noteq> KindBootstrap" "KindFatal \<noteq> KindPrepared"
  "KindFatal \<noteq> KindCommit" "KindFatal \<noteq> KindRunning" "KindFatal \<noteq> KindReload"
  "KindFatal \<noteq> KindReloadResult" "KindFatal \<noteq> KindShutdown" "KindFatal \<noteq> KindStopped"
  by (simp_all add: kind_defs)


section \<open>The worker\<close>

lemma postE:
  assumes "post js written kind rid p out = (e, out')"
  obtains (failed) e' where "e = Some e'" "out' = out"
    | (sent) j where "e = None" "js_encode js p = Some j" "out' = out @ [new_message kind rid j]"
  using assms by (auto simp: post_def split: if_splits option.splits)

lemma logging_sel:
  "rt_Prepare (logging rt) b (r, log) = (case rt_Prepare rt b r of (e, r') \<Rightarrow> (e, r', log @ [CalledPrepare b e]))"
  "rt_Commit (logging rt) (r, log) = (case rt_Commit rt r of (e, r') \<Rightarrow> (e, r', log @ [CalledCommit e]))"
  "rt_Reload (logging rt) q (r, log) = (case rt_Reload rt q r of (e, r') \<Rightarrow> (e, r', log @ [CalledReload q e]))"
  "rt_Close (logging rt) (r, log) = (case rt_Close rt r of (e, r') \<Rightarrow> (e, r', log @ [CalledClose e]))"
  by (simp_all add: logging_def logged_def)

text \<open>At most one message, which says nothing about the state of the worker.\<close>

definition farewell :: "64 word \<Rightarrow> 'j message list \<Rightarrow> bool" where
  "farewell rid out =
     (length out \<le> 1 \<and> (\<forall>m \<in> set out. mg_Kind m \<in> {KindFatal, KindStopped} \<and> mg_RequestID m \<in> {0, rid}))"

lemma worker_return_effect:
  "worker_return (logging rt) fs (w, (r, log), out) = (w', (r', log'), out') \<Longrightarrow>
   wk_ended w' \<noteq> None \<and> wk_self w' = wk_self w \<and> (\<exists>e. log' = log @ [CalledClose e]) \<and> out' = out"
  by (auto simp: worker_return_def logging_sel split: prod.splits)

lemma worker_fatal_effect:
  assumes "worker_fatal js (logging rt) written e (w, (r, log), []) = (w', (r', log'), out)"
  shows "wk_ended w' \<noteq> None \<and> wk_self w' = wk_self w \<and> (\<exists>e. log' = log @ [CalledClose e]) \<and> farewell rid out"
proof -
  obtain x out1 where p: "post js written KindFatal 0 (Fatal (error_text e)) [] = (x, out1)" by (metis prod.collapse)
  have "farewell rid out1" by (rule postE [OF p]) (auto simp: farewell_def new_message_def)
  then show ?thesis using assms(1) p worker_return_effect unfolding worker_fatal_def by fastforce
qed

text \<open>
  One step of a worker that is alive ends it, or is one of the three answers.  \<open>rid\<close> is the number of the
  message received, if there is one.
\<close>

definition item_rid :: "go_error + 'j message \<Rightarrow> 64 word" where
  "item_rid item = (case item of Inl _ \<Rightarrow> 0 | Inr m \<Rightarrow> mg_RequestID m)"

definition item_is :: "msg_kind \<Rightarrow> go_error + 'j message \<Rightarrow> bool" where
  "item_is kind item = (case item of Inl _ \<Rightarrow> False | Inr m \<Rightarrow> mg_Kind m = kind)"

lemma ReceiveKind_item: "ReceiveKind js want decode item = Inr (x, rid) \<Longrightarrow> item_is want item"
  by (auto simp: ReceiveKind_def item_is_def split: sum.splits if_splits option.splits)

lemma worker_bootstrap_effect:
  assumes "json_ok js" and "wh_state (wk_handshake w) = workerInitial" and "wk_ended w = None"
    and "worker_bootstrap js sha (logging rt) written item (w, (r, log), []) = (w', (r', log'), out)"
  shows "wk_self w' = wk_self w \<and>
    ((wk_ended w' \<noteq> None \<and> farewell 0 out \<and>
        (\<exists>new. log' = log @ new \<and> (\<forall>e. CalledCommit e \<notin> set new) \<and> (item_is KindBootstrap item \<or> (\<exists>e. new = [CalledClose e])))) \<or>
     (wk_ended w' = None \<and> item_is KindBootstrap item \<and> wh_state (wk_handshake w') = workerPrepared \<and>
        (\<exists>b j. log' = log @ [CalledPrepare b None] \<and> wh_digest (wk_handshake w') = bs_ConfigDigest b \<and>
           out = [new_message KindPrepared 0 j] \<and> js_prepared js j = Some (wk_self w))))"
proof (cases "fst (wh_AwaitBootstrap js sha item (wk_handshake w))")
  case (Inl e)
  then have "worker_fatal js (logging rt) (snd written) e (w, (r, log), []) = (w', (r', log'), out)"
    using assms(4) by (auto simp: worker_bootstrap_def split: prod.splits)
  from worker_fatal_effect [OF this, of 0] show ?thesis by (auto simp: farewell_def)
next
  case (Inr b)
  then obtain h where h: "wh_AwaitBootstrap js sha item (wk_handshake w) = (Inr b, h)" by (metis prod.collapse)
  then have st: "item_is KindBootstrap item" "wh_digest h = bs_ConfigDigest b" "wh_state h = workerBootstrapped"
    using ReceiveKind_item by (auto simp: wh_AwaitBootstrap_def split: if_splits sum.splits option.splits prod.splits)
  obtain e r1 where p: "rt_Prepare rt b r = (e, r1)" by (metis prod.collapse)
  show ?thesis
  proof (cases e)
    case (Some x)
    then have "worker_fatal js (logging rt) (snd written) (wrapf ''prepare worker runtime'' x)
        (w\<lparr>wk_handshake := h\<rparr>, (r1, log @ [CalledPrepare b e]), []) = (w', (r', log'), out)"
      using assms(4) h p by (simp add: worker_bootstrap_def logging_sel)
    from worker_fatal_effect [OF this, of 0] st show ?thesis by (auto simp: farewell_def)
  next
    case None
    obtain e2 h2 out2 where q: "wh_Prepared js (fst written) (wk_self w) h [] = (e2, h2, out2)" by (metis prod.collapse)
    show ?thesis
    proof (cases e2)
      case (Some x)
      then have "out2 = []" using q
        by (auto simp: wh_Prepared_def post_def split: if_splits option.splits)
      moreover have "worker_fatal js (logging rt) (snd written) x (w\<lparr>wk_handshake := h2\<rparr>, (r1, log @ [CalledPrepare b None]), out2) =
          (w', (r', log'), out)"
        using assms(4) h p q None Some by (simp add: worker_bootstrap_def logging_sel)
      ultimately show ?thesis using worker_fatal_effect [of js rt "snd written" x _ _ _ w' r' log' out 0] st
        by (fastforce simp: farewell_def)
    next
      case None
      then have "wh_state h2 = workerPrepared" "wh_digest h2 = bs_ConfigDigest b"
        and j: "\<exists>j. js_encode js (Prepared (wk_self w)) = Some j \<and> out2 = [new_message KindPrepared 0 j]"
        using q st by (auto simp: wh_Prepared_def post_def split: if_splits option.splits)
      moreover have "w' = w\<lparr>wk_handshake := h2\<rparr>" "log' = log @ [CalledPrepare b None]" "out = out2"
        using assms(4) h p q \<open>e = None\<close> None by (simp_all add: worker_bootstrap_def logging_sel)
      ultimately show ?thesis using st assms(3) json_okD(1) [OF assms(1)] by auto
    qed
  qed
qed

lemma worker_commit_effect:
  assumes "json_ok js" and "wh_state (wk_handshake w) = workerPrepared" and "wk_ended w = None"
    and "worker_commit js (logging rt) written item (w, (r, log), []) = (w', (r', log'), out)"
  shows "wk_self w' = wk_self w \<and>
    ((wk_ended w' \<noteq> None \<and> farewell 0 out \<and>
        (\<exists>new. log' = log @ new \<and> (item_is KindCommit item \<or> (\<exists>e. new = [CalledClose e])))) \<or>
     (wk_ended w' = None \<and> item_is KindCommit item \<and> wh_state (wk_handshake w') = workerRunning \<and>
        wh_digest (wk_handshake w') = wh_digest (wk_handshake w) \<and> log' = log @ [CalledCommit None] \<and>
        (\<exists>j. out = [new_message KindRunning 0 j] \<and> js_running js j = Some (wh_digest (wk_handshake w)))))"
proof (cases "fst (wh_AwaitCommit js item (wk_handshake w))")
  case (Inl e)
  then have "worker_fatal js (logging rt) (snd written) e (w, (r, log), []) = (w', (r', log'), out)"
    using assms(4) by (auto simp: worker_commit_def split: prod.splits)
  from worker_fatal_effect [OF this, of 0] show ?thesis by (auto simp: farewell_def)
next
  case (Inr d)
  then obtain h where h: "wh_AwaitCommit js item (wk_handshake w) = (Inr d, h)" by (metis prod.collapse)
  then have st: "item_is KindCommit item" "wh_digest h = wh_digest (wk_handshake w)" "wh_state h = workerCommitted"
    using ReceiveKind_item by (auto simp: wh_AwaitCommit_def split: if_splits sum.splits option.splits prod.splits)
  obtain e r1 where p: "rt_Commit rt r = (e, r1)" by (metis prod.collapse)
  show ?thesis
  proof (cases e)
    case (Some x)
    then have "worker_fatal js (logging rt) (snd written) (wrapf ''commit worker runtime'' x)
        (w\<lparr>wk_handshake := h\<rparr>, (r1, log @ [CalledCommit e]), []) = (w', (r', log'), out)"
      using assms(4) h p by (simp add: worker_commit_def logging_sel)
    from worker_fatal_effect [OF this, of 0] st show ?thesis by (auto simp: farewell_def)
  next
    case None
    obtain e2 h2 out2 where q: "wh_Running js (fst written) h [] = (e2, h2, out2)" by (metis prod.collapse)
    show ?thesis
    proof (cases e2)
      case (Some x)
      then have "out2 = []" using q by (auto simp: wh_Running_def post_def split: if_splits option.splits)
      moreover have "worker_fatal js (logging rt) (snd written) x (w\<lparr>wk_handshake := h2\<rparr>, (r1, log @ [CalledCommit None]), out2) =
          (w', (r', log'), out)"
        using assms(4) h p q None Some by (simp add: worker_commit_def logging_sel)
      ultimately show ?thesis using worker_fatal_effect [of js rt "snd written" x _ _ _ w' r' log' out 0] st
        by (fastforce simp: farewell_def)
    next
      case None
      then have "wh_state h2 = workerRunning" "wh_digest h2 = wh_digest (wk_handshake w)"
        and j: "\<exists>j. js_encode js (Running (wh_digest h)) = Some j \<and> out2 = [new_message KindRunning 0 j]"
        using q st by (auto simp: wh_Running_def post_def split: if_splits option.splits)
      moreover have "w' = w\<lparr>wk_handshake := h2\<rparr>" "log' = log @ [CalledCommit None]" "out = out2"
        using assms(4) h p q \<open>e = None\<close> None by (simp_all add: worker_commit_def logging_sel)
      ultimately show ?thesis using st assms(3) json_okD(2) [OF assms(1)] by auto
    qed
  qed
qed

lemma worker_reload_effect:
  assumes "json_ok js" and "wk_ended w = None"
    and "worker_reload js sha (logging rt) written m (w, (r, log), []) = (w', (r', log'), out)"
  shows "wk_self w' = wk_self w \<and>
    ((wk_ended w' \<noteq> None \<and> farewell 0 out \<and> (\<exists>new. log' = log @ new \<and> (\<forall>e. CalledCommit e \<notin> set new))) \<or>
     (w' = w \<and> mg_RequestID m \<noteq> 0 \<and>
        (\<exists>q de f j new. js_reload js (mg_Payload m) = (q, de) \<and> log' = log @ new \<and> (\<forall>e. CalledCommit e \<notin> set new) \<and>
           out = [new_message KindReloadResult (mg_RequestID m) j] \<and> js_reload_result js j = Some (reload_answer q f) \<and>
           (f = None \<longrightarrow> new = [CalledReload q None]))))"
proof (cases "mg_RequestID m = 0")
  case True
  then have "worker_fatal js (logging rt) written (Opaque ''reload request ID must be non-zero'') (w, (r, log), []) =
      (w', (r', log'), out)"
    using assms(3) by (simp add: worker_reload_def)
  from worker_fatal_effect [OF this, of 0] show ?thesis by (auto simp: farewell_def)
next
  case False
  obtain q de where q: "js_reload js (mg_Payload m) = (q, de)" by (metis prod.collapse)
  define checked where "checked = (case de of Some e \<Rightarrow> Some e | None \<Rightarrow> Reload_Validate sha q)"
  obtain f r1 log1 where f: "(case checked of Some e \<Rightarrow> (Some e, r, log) | None \<Rightarrow> rt_Reload (logging rt) q (r, log)) = (f, r1, log1)"
    by (metis prod.collapse)
  then have new: "\<exists>new. log1 = log @ new \<and> (\<forall>e. CalledCommit e \<notin> set new) \<and> (f = None \<longrightarrow> new = [CalledReload q None])"
    by (auto simp: logging_sel split: option.splits prod.splits)
  obtain e out1 where o: "post js written KindReloadResult (mg_RequestID m) (ReloadResult (reload_answer q f)) [] = (e, out1)"
    by (metis prod.collapse)
  show ?thesis
  proof (rule postE [OF o])
    fix e' assume e: "e = Some e'" "out1 = []"
    then have "worker_return (logging rt) [e'] (w, (r1, log1), out1) = (w', (r', log'), out)"
      using assms(3) False q f o by (simp add: worker_reload_def Let_def checked_def)
    from worker_return_effect [OF this] new e show ?thesis by (auto simp: farewell_def)
  next
    fix j assume j: "e = None" "js_encode js (ReloadResult (reload_answer q f)) = Some j"
      "out1 = [] @ [new_message KindReloadResult (mg_RequestID m) j]"
    then have "(w, (r1, log1), out1) = (w', (r', log'), out)"
      using assms(3) False q f o by (simp add: worker_reload_def Let_def checked_def)
    moreover obtain new where "log1 = log @ new" "\<forall>e. CalledCommit e \<notin> set new" "f = None \<longrightarrow> new = [CalledReload q None]"
      using new by blast
    ultimately show ?thesis
      using j(3) False q json_okD(4) [OF assms(1) j(2)]
      by (intro conjI disjI2 exI [of _ q] exI [of _ de] exI [of _ f] exI [of _ j] exI [of _ new]) auto
  qed
qed

lemma worker_shutdown_effect:
  assumes "wk_ended w = None" and "worker_shutdown js (logging rt) written m (w, (r, log), []) = (w', (r', log'), out)"
  shows "wk_self w' = wk_self w \<and> wk_ended w' \<noteq> None \<and> farewell (mg_RequestID m) out \<and> (\<exists>e. log' = log @ [CalledClose e])"
proof (cases "js_shutdown js (mg_Payload m)")
  case None
  then have "worker_fatal js (logging rt) written (Opaque ''decode payload'') (w, (r, log), []) = (w', (r', log'), out)"
    using assms(2) by (simp add: worker_shutdown_def)
  from worker_fatal_effect [OF this, of "mg_RequestID m"] show ?thesis by (auto simp: farewell_def)
next
  case (Some t)
  obtain ce r1 where c: "rt_Close rt r = (ce, r1)" by (metis prod.collapse)
  obtain e out1 where o: "post js written KindStopped (mg_RequestID m)
      (Stopped (case ce of None \<Rightarrow> [] | Some x \<Rightarrow> error_text x)) [] = (e, out1)" by (metis prod.collapse)
  have "farewell (mg_RequestID m) out1" by (rule postE [OF o]) (auto simp: farewell_def new_message_def)
  then show ?thesis using assms Some c o by (auto simp: worker_shutdown_def logging_sel Let_def)
qed

lemma farewell_0: "farewell 0 out \<Longrightarrow> farewell rid out"
  by (auto simp: farewell_def)

definition receiving :: "worker \<Rightarrow> bool" where
  "receiving w = (wh_state (wk_handshake w) \<in> {workerInitial, workerPrepared, workerRunning})"

lemma worker_step_cases:
  assumes "json_ok js" and "wk_ended w = None" and "receiving w"
    and "worker_step js sha (logging rt) written item (w, (r, log), []) = (w', (r', log'), out)"
  obtains
    (ended) new where "wk_ended w' \<noteq> None" "wk_self w' = wk_self w" "farewell (item_rid item) out" "log' = log @ new"
      "\<And>e. CalledCommit e \<in> set new \<Longrightarrow> item_is KindCommit item" "(\<exists>m. item = Inr m) \<or> (\<exists>e. new = [CalledClose e])"
  | (prepared) m b j where "item = Inr m" "mg_Kind m = KindBootstrap" "wk_ended w' = None" "wk_self w' = wk_self w"
      "wh_state (wk_handshake w) = workerInitial" "wh_state (wk_handshake w') = workerPrepared"
      "log' = log @ [CalledPrepare b None]" "wh_digest (wk_handshake w') = bs_ConfigDigest b"
      "out = [new_message KindPrepared 0 j]" "js_prepared js j = Some (wk_self w)"
  | (committed) m j where "item = Inr m" "mg_Kind m = KindCommit" "wk_ended w' = None" "wk_self w' = wk_self w"
      "wh_state (wk_handshake w) = workerPrepared" "wh_state (wk_handshake w') = workerRunning"
      "log' = log @ [CalledCommit None]" "wh_digest (wk_handshake w') = wh_digest (wk_handshake w)"
      "out = [new_message KindRunning 0 j]" "js_running js j = Some (wh_digest (wk_handshake w))"
  | (reloaded) m q de f j new where "item = Inr m" "mg_Kind m = KindReload" "w' = w" "mg_RequestID m \<noteq> 0"
      "wh_state (wk_handshake w) = workerRunning" "js_reload js (mg_Payload m) = (q, de)" "log' = log @ new"
      "\<And>e. CalledCommit e \<notin> set new" "out = [new_message KindReloadResult (mg_RequestID m) j]"
      "js_reload_result js j = Some (reload_answer q f)" "f = None \<Longrightarrow> new = [CalledReload q None]"
proof -
  consider (initial) "wh_state (wk_handshake w) = workerInitial" | (prep) "wh_state (wk_handshake w) = workerPrepared"
    | (running) "wh_state (wk_handshake w) = workerRunning"
    using assms(3) by (auto simp: receiving_def)
  then show thesis
  proof cases
    case initial
    then have "worker_bootstrap js sha (logging rt) written item (w, (r, log), []) = (w', (r', log'), out)"
      using assms(4) by (simp add: worker_step_def)
    from worker_bootstrap_effect [OF assms(1) initial assms(2) this] initial that(1,2) show ?thesis
      by (auto simp: item_is_def farewell_0 split: sum.splits)
  next
    case prep
    then have "worker_commit js (logging rt) written item (w, (r, log), []) = (w', (r', log'), out)"
      using assms(4) by (simp add: worker_step_def)
    from worker_commit_effect [OF assms(1) prep assms(2) this] prep that(1,3) show ?thesis
      by (fastforce simp: item_is_def farewell_0 split: sum.splits)
  next
    case running
    then have s: "worker_serve js sha (logging rt) (fst written) item (w, (r, log), []) = (w', (r', log'), out)"
      using assms(4) by (simp add: worker_step_def)
    show ?thesis
    proof (cases item)
      case (Inl e)
      then have "worker_return (logging rt) [wrapf ''receive supervisor command'' e] (w, (r, log), []) = (w', (r', log'), out)"
        using s by (simp add: worker_serve_def)
      from worker_return_effect [OF this] that(1) show ?thesis by (auto simp: farewell_def)
    next
      case (Inr m)
      consider (reload) "mg_Kind m = KindReload" | (shutdown) "mg_Kind m = KindShutdown"
        | (other) "mg_Kind m \<noteq> KindReload" "mg_Kind m \<noteq> KindShutdown" by blast
      then show ?thesis
      proof cases
        case reload
        then have "worker_reload js sha (logging rt) (fst written) m (w, (r, log), []) = (w', (r', log'), out)"
          using s Inr by (simp add: worker_serve_def)
        from worker_reload_effect [OF assms(1,2) this] show ?thesis
        proof (elim conjE disjE exE, goal_cases)
          case (1 new)
          then show ?case using that(1) [of new] Inr by (simp add: farewell_0)
        next
          case (2 q de f j new)
          then show ?case using that(4) [of m q de new j f] Inr reload running by simp
        qed
      next
        case shutdown
        then have "worker_shutdown js (logging rt) (fst written) m (w, (r, log), []) = (w', (r', log'), out)"
          using s Inr by (simp add: worker_serve_def)
        from worker_shutdown_effect [OF assms(2) this] that(1) Inr show ?thesis by (auto simp: item_rid_def)
      next
        case other
        then have "worker_fatal js (logging rt) (fst written) (Opaque ''received unsupported worker command'') (w, (r, log), []) =
            (w', (r', log'), out)"
          using s Inr by (simp add: worker_serve_def)
        from worker_fatal_effect [OF this, of 0] that(1) Inr show ?thesis by (auto simp: farewell_def)
      qed
    qed
  qed
qed

lemma worker_stopped_effect:
  assumes "worker_stopped js (logging rt) written why (w, (r, log), []) = (w', (r', log'), out)"
  shows "wk_ended w' \<noteq> None \<and> wk_self w' = wk_self w \<and> farewell 0 out \<and> (\<exists>e. log' = log @ [CalledClose e])"
  using assms
  by (cases why) (auto simp: worker_stopped_def farewell_def dest!: worker_return_effect worker_fatal_effect [where rid = 0])


section \<open>The supervisor\<close>

text \<open>How a call begins: it returns at once, or it leaves one request.\<close>

lemma send_call_cases:
  "send_call js written kind rid p m c s [] = (b, s', out) \<Longrightarrow>
   s' = s \<and> ((\<exists>e. b = Returned e \<and> out = []) \<or>
     (b = Waiting c \<and> (\<exists>j. js_encode js p = Some j \<and> out = [new_message kind rid j])))"
  by (auto simp: send_call_def post_def split: if_splits option.splits)

lemma nextRequest_cases:
  "nextRequest s = (res, s') \<Longrightarrow>
   ((\<exists>e. res = Inl e) \<and> (s' = s \<or> s' = s\<lparr>se_requestID := se_requestID s + 1\<rparr>)) \<or>
   (res = Inr (se_requestID s + 1) \<and> s' = s\<lparr>se_requestID := se_requestID s + 1\<rparr> \<and> se_requestID s + 1 \<noteq> 0)"
  by (auto simp: nextRequest_def Let_def split: if_splits)

lemma se_Bootstrap_cases:
  assumes "se_Bootstrap js sha written b s [] = (res, s', out)"
  shows "((\<exists>e. res = Returned e) \<and> (s' = s \<or> s' = s\<lparr>se_bootstrapped := True\<rparr>) \<and> out = []) \<or>
    (res = Waiting AwaitPrepared \<and> s' = s\<lparr>se_bootstrapped := True\<rparr> \<and> (\<exists>j. out = [new_message KindBootstrap 0 j]))"
  using assms by (auto simp: se_Bootstrap_def dest!: send_call_cases split: if_splits option.splits)

lemma se_Commit_cases:
  assumes "se_Commit js written d s [] = (res, s', out)"
  shows "s' = s \<and> (((\<exists>e. res = Returned e) \<and> out = []) \<or>
    (res = Waiting (AwaitRunning d) \<and> se_prepared s \<and> (\<exists>j. out = [new_message KindCommit 0 j])))"
  using assms by (auto simp: se_Commit_def dest!: send_call_cases split: if_splits option.splits)

lemma se_Reload_cases:
  assumes "se_Reload js sha written q s [] = (res, s', out)"
  shows "((\<exists>e. res = Returned e) \<and> (s' = s \<or> s' = s\<lparr>se_requestID := se_requestID s + 1\<rparr>) \<and> out = []) \<or>
    (res = Waiting (AwaitReload (se_requestID s + 1) q) \<and> s' = s\<lparr>se_requestID := se_requestID s + 1\<rparr> \<and>
     se_requestID s + 1 \<noteq> 0 \<and> (\<exists>j. js_encode js (Reload q) = Some j \<and> out = [new_message KindReload (se_requestID s + 1) j]))"
proof (cases "Reload_Validate sha q")
  case None
  obtain r1 s1 where n: "nextRequest s = (r1, s1)" by (metis prod.collapse)
  show ?thesis
    using assms None n nextRequest_cases [OF n]
    by (cases r1) (auto simp: se_Reload_def dest!: send_call_cases)
qed (use assms in \<open>auto simp: se_Reload_def\<close>)

lemma se_Shutdown_cases:
  assumes "se_Shutdown js written t s [] = (res, s', out)"
  shows "((\<exists>e. res = Returned e) \<and> (s' = s \<or> s' = s\<lparr>se_requestID := se_requestID s + 1\<rparr>) \<and> out = []) \<or>
    (res = Waiting (AwaitStopped (se_requestID s + 1)) \<and> s' = s\<lparr>se_requestID := se_requestID s + 1\<rparr> \<and>
     se_requestID s + 1 \<noteq> 0 \<and> (\<exists>j. out = [new_message KindShutdown (se_requestID s + 1) j]))"
proof (cases "se_closed s")
  case False
  obtain r1 s1 where n: "nextRequest s = (r1, s1)" by (metis prod.collapse)
  show ?thesis
    using assms False n nextRequest_cases [OF n]
    by (cases r1) (auto simp: se_Shutdown_def dest!: send_call_cases)
qed (use assms in \<open>auto simp: se_Shutdown_def\<close>)

text \<open>How a call ends.\<close>

lemma await_Answer:
  assumes "await js want rid w = Answer m"
  shows "w = Incoming (Inr m) \<and> mg_Kind m = want \<and> mg_RequestID m = rid"
  using assms by (auto simp: await_def await_item_def split: wakeup.splits sum.splits option.splits if_splits)

lemma await_not_clean: "await js want rid w \<noteq> ExitedCleanly"
  by (auto simp: await_def await_item_def split: wakeup.splits sum.splits option.splits if_splits)

lemma end_callE:
  assumes "end_call js c s w = Some (e, s')"
  obtains (failed) x where "e = Some x" "s' = s"
    | (prepared) m p where "c = AwaitPrepared" "w = Incoming (Inr m)" "mg_Kind m = KindPrepared" "e = None"
        "js_prepared js (mg_Payload m) = Some p" "s' = s\<lparr>se_prepared := True\<rparr>"
        "pr_PID p = se_expectedPID s" "pr_UID p = se_UID s" "pr_GID p = se_GID s"
    | (running) m d where "c = AwaitRunning d" "w = Incoming (Inr m)" "mg_Kind m = KindRunning" "e = None"
        "js_running js (mg_Payload m) = Some d" "s' = s\<lparr>se_running := True\<rparr>"
    | (reloaded) m n q a where "c = AwaitReload n q" "w = Incoming (Inr m)" "mg_Kind m = KindReloadResult" "e = None"
        "mg_RequestID m = n" "js_reload_result js (mg_Payload m) = Some a" "rr_Error a = None" "s' = s"
    | (shutting) n where "c = AwaitStopped n" "s' = shut s"
proof (cases c)
  case AwaitPrepared
  then show thesis
    using assms that(1) await_Answer [of js KindPrepared 0 w] await_not_clean [of js KindPrepared 0 w]
    by (auto simp: end_call_def end_Bootstrap_def split: awaited.splits option.splits if_splits intro: that(2) that(1) [OF sym])
next
  case (AwaitRunning d)
  then show thesis
    using assms that(1) await_Answer [of js KindRunning 0 w] await_not_clean [of js KindRunning 0 w]
    by (auto simp: end_call_def end_Commit_def split: awaited.splits option.splits if_splits intro: that(3))
next
  case (AwaitReload n q)
  then show thesis
    using assms that(1) await_Answer [of js KindReloadResult n w] await_not_clean [of js KindReloadResult n w]
    by (auto simp: end_call_def end_Reload_def split: awaited.splits option.splits if_splits intro: that(4) that(1) [OF sym])
next
  case (AwaitStopped n)
  then show thesis
    using assms that(1,5) by (auto simp: end_call_def end_Shutdown_def split: awaited.splits option.splits)
qed

end
