(* ===== verification/Privsep_Startup.thy ===== *)
theory Privsep_Startup
  imports Privsep_Invariant
begin

text \<open>
  The order of start-up: host settings are changed only for a worker of the expected identity that has
  prepared itself, and the service is running only if the worker has committed the configuration.
\<close>

abbreviation calls :: "('j, 'r \<times> rt_call list) net \<Rightarrow> rt_call list" where
  "calls n \<equiv> snd (nt_runtime n)"

definition did_prepare :: "string \<Rightarrow> rt_call list \<Rightarrow> bool" where
  "did_prepare digest log = (\<exists>b. CalledPrepare b None \<in> set log \<and> bs_ConfigDigest b = digest)"

text \<open>What a message from the worker tells about it.\<close>

definition truthful :: "'j json \<Rightarrow> prepared \<Rightarrow> rt_call list \<Rightarrow> 'j message \<Rightarrow> bool" where
  "truthful js self log m =
     ((mg_Kind m = KindPrepared \<longrightarrow> js_prepared js (mg_Payload m) = Some self \<and> (\<exists>d. did_prepare d log)) \<and>
      (mg_Kind m = KindRunning \<longrightarrow> CalledCommit None \<in> set log \<and>
         (\<exists>d. js_running js (mg_Payload m) = Some d \<and> did_prepare d log)))"

text \<open>What the worker's own state says.\<close>

definition worker_ok :: "worker \<Rightarrow> rt_call list \<Rightarrow> bool" where
  "worker_ok w log =
     (wk_ended w = None \<longrightarrow> receiving w \<and>
        (wh_state (wk_handshake w) \<noteq> workerInitial \<longrightarrow> did_prepare (wh_digest (wk_handshake w)) log))"

definition session_ok :: "prepared \<Rightarrow> session \<Rightarrow> rt_call list \<Rightarrow> bool" where
  "session_ok self s log =
     ((se_prepared s \<longrightarrow> pr_PID self = se_expectedPID s \<and> pr_UID self = se_UID s \<and> pr_GID self = se_GID s \<and>
         (\<exists>d. did_prepare d log)) \<and>
      (se_running s \<longrightarrow> CalledCommit None \<in> set log))"

definition start_inv :: "'j json \<Rightarrow> int \<Rightarrow> 32 word \<Rightarrow> 32 word \<Rightarrow> prepared \<Rightarrow> ('j, 'r \<times> rt_call list) net \<Rightarrow> bool" where
  "start_inv js pid uid gid self n =
     (se_expectedPID (nt_session n) = pid \<and> se_UID (nt_session n) = uid \<and> se_GID (nt_session n) = gid \<and>
      wk_self (nt_worker n) = self \<and> worker_ok (nt_worker n) (calls n) \<and> session_ok self (nt_session n) (calls n) \<and>
      ((\<exists>m \<in> set (nt_down n). mg_Kind m = KindCommit) \<or> (\<exists>e. CalledCommit e \<in> set (calls n)) \<longrightarrow> se_prepared (nt_session n)) \<and>
      (\<forall>m. Inr m \<in> set (nt_up n) \<longrightarrow> truthful js self (calls n) m) \<and>
      (\<forall>d. nt_last n = Some (AwaitRunning d, None) \<longrightarrow> did_prepare d (calls n)))"

lemma did_prepare_append: "did_prepare d log \<Longrightarrow> did_prepare d (log @ new)"
  by (auto simp: did_prepare_def)

lemma truthful_append: "truthful js self log m \<Longrightarrow> truthful js self (log @ new) m"
  by (auto simp: truthful_def intro: did_prepare_append)

lemma session_ok_append: "session_ok self s log \<Longrightarrow> session_ok self s (log @ new)"
  by (auto simp: session_ok_def intro: did_prepare_append)

lemma farewell_truthful: "farewell rid out \<Longrightarrow> m \<in> set out \<Longrightarrow> truthful js self log m"
  by (auto simp: farewell_def truthful_def)


section \<open>Preservation\<close>

lemma begin_start_inv:
  assumes "start_inv js pid uid gid self n" and "\<forall>m \<in> set out. mg_Kind m = KindCommit \<longrightarrow> se_prepared s'"
    and "se_expectedPID s' = pid" "se_UID s' = uid" "se_GID s' = gid" "se_prepared s' = se_prepared (nt_session n)"
    "se_running s' = se_running (nt_session n)"
  shows "start_inv js pid uid gid self (begin_call (b, s', out) n)"
  using assms by (auto simp: start_inv_def begin_call_def session_ok_def)

lemma requests_start_inv [simp]:
  "start_inv js pid uid gid self (n\<lparr>nt_requests := k\<rparr>) = start_inv js pid uid gid self n"
  by (simp add: start_inv_def)

lemma wake_start_inv:
  assumes "start_inv js pid uid gid self n" and "\<And>m. w = Incoming (Inr m) \<Longrightarrow> truthful js self (calls n) m"
  shows "start_inv js pid uid gid self (wake js c w n)"
proof (cases "end_call js c (nt_session n) w")
  case None
  then show ?thesis using assms(1) by (simp add: wake_def)
next
  case (Some res)
  obtain e s' where res: "res = (e, s')" by (cases res)
  have "start_inv js pid uid gid self (n\<lparr>nt_session := s', nt_call := None, nt_last := Some (c, e)\<rparr>)"
    using Some unfolding res
  proof (cases rule: end_callE)
    case failed
    then show ?thesis using assms(1) by (auto simp: start_inv_def)
  next
    case (prepared m p)
    then have "truthful js self (calls n) m" using assms(2) by simp
    then show ?thesis using prepared assms(1) by (auto simp: start_inv_def truthful_def session_ok_def)
  next
    case (running m d)
    then have "truthful js self (calls n) m" using assms(2) by simp
    then show ?thesis using running assms(1) by (auto simp: start_inv_def truthful_def session_ok_def)
  next
    case reloaded
    then show ?thesis using assms(1) by (auto simp: start_inv_def)
  next
    case shutting
    then show ?thesis using assms(1) by (auto simp: start_inv_def session_ok_def shut_def)
  qed
  then show ?thesis using Some res by (simp add: wake_def)
qed

lemma after_worker_start_inv:
  assumes inv: "start_inv js pid uid gid self n"
    and "wk_self w = self" "worker_ok w (calls n @ new)"
    and "\<And>e. CalledCommit e \<in> set new \<Longrightarrow> se_prepared (nt_session n)"
    and "\<And>m. m \<in> set out \<Longrightarrow> truthful js self (calls n @ new) m"
  shows "start_inv js pid uid gid self (after_worker (w, (r, calls n @ new), out) n)"
  using assms
  by (auto simp: start_inv_def after_worker_def intro: truthful_append session_ok_append did_prepare_append)

lemma worker_step_start_inv:
  assumes ok: "json_ok js" and inv: "start_inv js pid uid gid self n" and alive: "alive n"
    and commit: "\<And>m. item = Inr m \<Longrightarrow> mg_Kind m = KindCommit \<Longrightarrow> se_prepared (nt_session n)"
  shows "start_inv js pid uid gid self
    (after_worker (worker_step js sha (logging rt) written item (nt_worker n, nt_runtime n, [])) n)"
proof -
  let ?w = "nt_worker n"
  obtain w' r' log' out where s: "worker_step js sha (logging rt) written item (?w, (fst (nt_runtime n), calls n), []) = (w', (r', log'), out)"
    by (metis prod.collapse)
  have rec: "receiving ?w" and self: "wk_self ?w = self" using inv alive by (simp_all add: start_inv_def worker_ok_def)
  have "start_inv js pid uid gid self (after_worker (w', (r', log'), out) n)"
    using ok alive rec s
  proof (cases rule: worker_step_cases)
    case (ended new)
    then show ?thesis unfolding ended(4)
      using self commit by (intro after_worker_start_inv [OF inv]) (auto simp: worker_ok_def item_is_def intro: farewell_truthful split: sum.splits)
  next
    case (prepared m b j)
    then show ?thesis unfolding prepared(7)
      using self by (intro after_worker_start_inv [OF inv]) (auto simp: worker_ok_def receiving_def did_prepare_def truthful_def new_message_def)
  next
    case (committed m j)
    have "did_prepare (wh_digest (wk_handshake ?w)) (calls n)"
      using inv alive committed(5) by (simp add: start_inv_def worker_ok_def)
    then show ?thesis unfolding committed(7)
      using self committed commit
      by (intro after_worker_start_inv [OF inv])
        (auto simp: worker_ok_def receiving_def truthful_def new_message_def intro: did_prepare_append)
  next
    case (reloaded m q de f j new)
    have "did_prepare (wh_digest (wk_handshake ?w)) (calls n)"
      using inv alive reloaded(5) by (simp add: start_inv_def worker_ok_def)
    then show ?thesis unfolding reloaded(7)
      using self reloaded rec
      by (intro after_worker_start_inv [OF inv]) (auto simp: worker_ok_def truthful_def new_message_def intro: did_prepare_append)
  qed
  then show ?thesis using s by simp
qed

lemma drop_start_inv:
  assumes "start_inv js pid uid gid self n"
  shows "nt_up n = item # rest \<Longrightarrow> start_inv js pid uid gid self (n\<lparr>nt_up := rest\<rparr>)"
    "nt_down n = m # rest' \<Longrightarrow> start_inv js pid uid gid self (n\<lparr>nt_down := rest'\<rparr>)"
  using assms by (auto simp: start_inv_def)

lemma deliver_start_inv:
  assumes "json_ok js" and "deliver js sha (logging rt) n n'" and "start_inv js pid uid gid self n"
  shows "start_inv js pid uid gid self n'"
  using assms(2)
proof cases
  case (to_supervisor c item rest)
  then show ?thesis
    using wake_start_inv [OF drop_start_inv(1) [OF assms(3)], of item rest "Incoming item"] assms(3)
    by (auto simp: start_inv_def)
next
  case (process_exit c res e)
  then show ?thesis using wake_start_inv [OF assms(3), of "ProcessExited e"] by simp
next
  case (to_worker m rest written)
  have "se_prepared (nt_session n)" if "mg_Kind m = KindCommit"
    using that assms(3) to_worker(3) by (auto simp: start_inv_def)
  then show ?thesis
    using worker_step_start_inv [OF assms(1) drop_start_inv(2) [OF assms(3) to_worker(3)], of "Inr m" sha rt written] to_worker
    by simp
qed

lemma step_start_inv:
  assumes "json_ok js" and "net_step js sha (logging rt) n n'" and inv: "start_inv js pid uid gid self n"
  shows "start_inv js pid uid gid self n'"
proof -
  have ids: "se_expectedPID (nt_session n) = pid" "se_UID (nt_session n) = uid" "se_GID (nt_session n) = gid"
    using inv by (simp_all add: start_inv_def)
  show ?thesis using assms(2)
  proof cases
    case delivery
    then show ?thesis using deliver_start_inv [OF assms(1) _ inv] by blast
  next
    case (call_bootstrap written b)
    obtain res s' out where x: "se_Bootstrap js sha written b (nt_session n) [] = (res, s', out)" by (metis prod.collapse)
    show ?thesis unfolding call_bootstrap(1) x
      using se_Bootstrap_cases [OF x] ids by (intro begin_start_inv) (auto simp: new_message_def inv)
  next
    case (call_commit written d)
    obtain res s' out where x: "se_Commit js written d (nt_session n) [] = (res, s', out)" by (metis prod.collapse)
    show ?thesis unfolding call_commit(1) x
      using se_Commit_cases [OF x] ids by (intro begin_start_inv) (auto simp: new_message_def inv)
  next
    case (call_reload written q)
    obtain res s' out where x: "se_Reload js sha written q (nt_session n) [] = (res, s', out)" by (metis prod.collapse)
    show ?thesis unfolding call_reload(1) x
      using se_Reload_cases [OF x] ids by (intro begin_start_inv) (auto simp: new_message_def inv)
  next
    case (call_shutdown written t)
    obtain res s' out where x: "se_Shutdown js written t (nt_session n) [] = (res, s', out)" by (metis prod.collapse)
    show ?thesis unfolding call_shutdown(1) x
      using se_Shutdown_cases [OF x] ids by (intro begin_start_inv) (auto simp: new_message_def inv)
  next
    case (abandon c e)
    then show ?thesis using wake_start_inv [OF inv, of "ContextDone e"] by simp
  next
    case (connection_lost written e)
    then show ?thesis using worker_step_start_inv [OF assms(1) inv, of "Inl e" sha rt written] by simp
  next
    case (worker_stops written why)
    obtain w' r' log' out where s: "worker_stopped js (logging rt) written why (nt_worker n, (fst (nt_runtime n), calls n), []) = (w', (r', log'), out)"
      by (metis prod.collapse)
    then obtain e where e: "log' = calls n @ [CalledClose e]" "wk_ended w' \<noteq> None" "wk_self w' = wk_self (nt_worker n)" "farewell 0 out"
      using worker_stopped_effect [OF s] by blast
    have "start_inv js pid uid gid self (after_worker (w', (r', log'), out) n)"
      unfolding e(1) using e inv
      by (intro after_worker_start_inv [OF inv]) (auto simp: worker_ok_def start_inv_def intro: farewell_truthful)
    then show ?thesis using s worker_stops by simp
  qed
qed

lemma reach_start_inv:
  assumes "net_reach js sha (logging rt) pid uid gid self (r, []) n" and "json_ok js"
  shows "start_inv js pid uid gid self n \<and> 0 < pid \<and> uid \<noteq> 0 \<and> gid \<noteq> 0"
  using assms
proof (induction rule: net_reach.induct)
  case (net_init s)
  then show ?case
    by (auto simp: NewSupervisorSession_def net_start_def start_inv_def worker_ok_def session_ok_def receiving_def NewWorkerHandshake_def
        split: if_splits)
next
  case (net_next n n')
  then show ?case using step_start_inv by blast
qed

end
