(* ===== verification/Privsep_Requests.thy ===== *)
theory Privsep_Requests
  imports Privsep_Startup
begin

text \<open>
  Answers match requests: a reload that reports success has taken effect, also after calls that were
  abandoned while their request was under way, and a call that waits is always answered.
\<close>

section \<open>The invariant\<close>

fun call_rid :: "call \<Rightarrow> 64 word" where
  "call_rid (AwaitReload r q) = r"
| "call_rid (AwaitStopped r) = r"
| "call_rid _ = 0"

text \<open>An answer that reports success is given once the configuration is the active one.\<close>

definition answered :: "'j json \<Rightarrow> rt_call list \<Rightarrow> reload_request \<Rightarrow> 'j message \<Rightarrow> bool" where
  "answered js log q m =
     (\<forall>a. js_reload_result js (mg_Payload m) = Some a \<and> rr_Error a = None \<longrightarrow> active_config log = Some (rl_Config q))"

text \<open>The reload in progress is the last request under way, or it has been handled.\<close>

definition pending ::
  "'j json \<Rightarrow> rt_call list \<Rightarrow> 64 word \<Rightarrow> reload_request \<Rightarrow> 'j message list \<Rightarrow> (go_error + 'j message) list \<Rightarrow> bool" where
  "pending js log r q down up =
     ((\<exists>pre j. down = pre @ [new_message KindReload r j] \<and> js_reload js j = (q, None) \<and>
         (\<forall>m \<in> set pre. mg_RequestID m < r) \<and> (\<forall>m. Inr m \<in> set up \<longrightarrow> mg_RequestID m < r)) \<or>
      (down = [] \<and> (\<forall>m. Inr m \<in> set up \<longrightarrow> mg_RequestID m = r \<longrightarrow> mg_Kind m = KindReloadResult \<longrightarrow> answered js log q m)))"

text \<open>A worker that is alive has the request before it or has answered it.\<close>

definition answerable :: "call \<Rightarrow> 'j message list \<Rightarrow> (go_error + 'j message) list \<Rightarrow> bool" where
  "answerable c down up =
     (if down \<noteq> [] then mg_RequestID (last down) = call_rid c
      else up \<noteq> [] \<and> (\<exists>m. last up = Inr m \<and> mg_RequestID m = call_rid c))"

definition call_inv :: "'j json \<Rightarrow> ('j, 'r \<times> rt_call list) net \<Rightarrow> call \<Rightarrow> bool" where
  "call_inv js n c =
     ((alive n \<longrightarrow> answerable c (nt_down n) (nt_up n)) \<and>
      (\<forall>r q. c = AwaitReload r q \<longrightarrow>
         r = se_requestID (nt_session n) \<and> r \<noteq> 0 \<and> pending js (calls n) r q (nt_down n) (nt_up n)))"

definition req_inv :: "'j json \<Rightarrow> ('j, 'r \<times> rt_call list) net \<Rightarrow> bool" where
  "req_inv js n =
     (unat (se_requestID (nt_session n)) \<le> nt_requests n \<and>
      (\<forall>m \<in> set (nt_down n). mg_RequestID m \<le> se_requestID (nt_session n) \<and>
         (mg_Kind m \<in> {KindBootstrap, KindCommit} \<longrightarrow> mg_RequestID m = 0)) \<and>
      (\<forall>m. Inr m \<in> set (nt_up n) \<longrightarrow> mg_RequestID m \<le> se_requestID (nt_session n)) \<and>
      (\<forall>c. nt_call n = Some c \<longrightarrow> call_inv js n c) \<and>
      (\<forall>r q. nt_last n = Some (AwaitReload r q, None) \<longrightarrow> nt_down n = [] \<and> active_config (calls n) = Some (rl_Config q)) \<and>
      (nt_call n \<noteq> None \<longrightarrow> nt_last n = None))"

lemma active_snoc [simp]:
  "active_config (log @ [CalledReload q None]) = Some (rl_Config q)"
  "active_config (log @ [CalledClose e]) = active_config log"
  by (simp_all add: active_config_def map_filter_simps)

lemma word_Suc: "unat x < k \<Longrightarrow> k < 2 ^ 64 \<Longrightarrow> x < x + (1 :: 64 word) \<and> unat (x + 1) = Suc (unat x)"
proof -
  assume "unat x < k" "k < 2 ^ 64"
  then have "Suc (unat x) < 2 ^ 64" by simp
  then have "unat (x + 1) = Suc (unat x)" by (simp add: unat_word_ariths)
  then show ?thesis by (simp add: word_less_nat_alt)
qed


section \<open>Calls\<close>

lemma begin_returned_inv:
  assumes "req_inv js n" and "s' = nt_session n \<or> se_requestID s' = se_requestID (nt_session n) \<or>
      se_requestID s' = se_requestID (nt_session n) + 1 \<and> unat (se_requestID (nt_session n)) < k \<and> k < 2 ^ 64"
    and "nt_requests n \<le> k" and "se_requestID s' = se_requestID (nt_session n) \<or> nt_requests n < k"
  shows "req_inv js (begin_call (Returned e, s', []) (n\<lparr>nt_requests := k\<rparr>))"
proof -
  have le: "se_requestID (nt_session n) \<le> se_requestID s'" "unat (se_requestID s') \<le> k"
    using assms word_Suc [of "se_requestID (nt_session n)" k] by (auto simp: req_inv_def)
  then show ?thesis using assms(1) by (fastforce simp: req_inv_def begin_call_def)
qed

lemma begin_first_inv:
  assumes "req_inv js n" and "se_requestID s' = se_requestID (nt_session n)" and "call_rid c = 0"
    and "\<forall>r q. c \<noteq> AwaitReload r q" and "kind \<in> {KindBootstrap, KindCommit}"
  shows "req_inv js (begin_call (Waiting c, s', [new_message kind 0 j]) n)"
  using assms by (auto simp: req_inv_def begin_call_def call_inv_def answerable_def new_message_def)

lemma begin_request_inv:
  assumes inv: "req_inv js n" and k: "nt_requests n < k" "k < 2 ^ 64"
    and s': "s' = (nt_session n)\<lparr>se_requestID := se_requestID (nt_session n) + 1\<rparr>"
    and c: "c = AwaitReload (se_requestID (nt_session n) + 1) q \<and> kind = KindReload \<and> js_reload js j = (q, None) \<or>
       c = AwaitStopped (se_requestID (nt_session n) + 1) \<and> kind = KindShutdown"
  shows "req_inv js (begin_call (Waiting c, s', [new_message kind (se_requestID (nt_session n) + 1) j]) (n\<lparr>nt_requests := k\<rparr>))"
proof -
  let ?id = "se_requestID (nt_session n)"
  have id: "?id < ?id + 1" "unat (?id + 1) = Suc (unat ?id)" "unat ?id \<le> nt_requests n"
    using word_Suc [of ?id k] inv k by (auto simp: req_inv_def)
  then have ne: "?id + 1 \<noteq> 0" by (metis word_not_simps(1))
  have down: "mg_RequestID m < ?id + 1" if "m \<in> set (nt_down n)" for m
    using that inv by (intro order.strict_trans1 [OF _ id(1)]) (auto simp: req_inv_def)
  have up: "mg_RequestID m < ?id + 1" if "Inr m \<in> set (nt_up n)" for m
    using that inv by (intro order.strict_trans1 [OF _ id(1)]) (auto simp: req_inv_def)
  have "pending js (calls n) (?id + 1) q (nt_down n @ [new_message KindReload (?id + 1) j]) (nt_up n)" if "js_reload js j = (q, None)"
    using down up that by (auto simp: pending_def)
  then show ?thesis
    using inv k id ne c s' down up
    by (auto simp: req_inv_def begin_call_def call_inv_def answerable_def new_message_def less_imp_le)
qed

text \<open>A call that returns leaves the queues as they are.\<close>

lemma return_inv:
  assumes "req_inv js n" and "end_call js c (nt_session n) w = Some (e, s')"
    and "\<And>r q. c = AwaitReload r q \<Longrightarrow> e = None \<Longrightarrow> nt_down n = [] \<and> active_config (calls n) = Some (rl_Config q)"
  shows "req_inv js (n\<lparr>nt_session := s', nt_call := None, nt_last := Some (c, e)\<rparr>)"
proof -
  have "se_requestID s' = se_requestID (nt_session n)" using assms(2) by (cases rule: end_callE) (auto simp: shut_def)
  then show ?thesis using assms(1,3) by (auto simp: req_inv_def)
qed

lemma wake_aside_inv:
  assumes "req_inv js n" and "\<And>item. w \<noteq> Incoming item"
  shows "req_inv js (wake js c w n)"
proof (cases "end_call js c (nt_session n) w")
  case None
  then show ?thesis using assms(1) by (simp add: wake_def)
next
  case (Some res)
  then obtain e s' where res: "end_call js c (nt_session n) w = Some (e, s')" by (cases res) auto
  have "e \<noteq> None" if "c = AwaitReload r q" for r q
    using res that assms(2) by (cases rule: end_callE) auto
  then show ?thesis using return_inv [OF assms(1) res] res by (auto simp: wake_def)
qed

lemma still_waiting:
  assumes "end_call js c s (Incoming item) = None"
  shows "\<exists>m. item = Inr m \<and> mg_RequestID m < call_rid c"
  using assms
  by (cases c) (auto simp: end_call_def await_def awaitShutdown_def await_item_def staleReloadResult_def Let_def
      split: sum.splits if_splits option.splits awaited.splits)

lemma pendingE:
  assumes "pending js log r q down up"
  obtains (under_way) pre j where "down = pre @ [new_message KindReload r j]" "js_reload js j = (q, None)"
      "\<And>m. m \<in> set pre \<Longrightarrow> mg_RequestID m < r" "\<And>m. Inr m \<in> set up \<Longrightarrow> mg_RequestID m < r"
    | (handled) "down = []" "\<And>m. Inr m \<in> set up \<Longrightarrow> mg_RequestID m = r \<Longrightarrow> mg_Kind m = KindReloadResult \<Longrightarrow> answered js log q m"
  using assms unfolding pending_def by blast

lemma pendingI:
  "js_reload js j = (q, None) \<Longrightarrow> (\<And>m. m \<in> set pre \<Longrightarrow> mg_RequestID m < r) \<Longrightarrow> (\<And>m. Inr m \<in> set up \<Longrightarrow> mg_RequestID m < r) \<Longrightarrow>
   pending js log r q (pre @ [new_message KindReload r j]) up"
  "(\<And>m. Inr m \<in> set up \<Longrightarrow> mg_RequestID m = r \<Longrightarrow> mg_Kind m = KindReloadResult \<Longrightarrow> answered js log q m) \<Longrightarrow>
   pending js log r q [] up"
  unfolding pending_def by blast+

lemma pending_subset: "pending js log r q down up \<Longrightarrow> set up' \<subseteq> set up \<Longrightarrow> pending js log r q down up'"
  unfolding pending_def by blast

lemma wake_incoming_inv:
  assumes inv: "req_inv js n" and c: "nt_call n = Some c" and up: "nt_up n = item # rest"
  shows "req_inv js (wake js c (Incoming item) (n\<lparr>nt_up := rest\<rparr>))"
proof -
  have ci: "call_inv js n c" using inv c by (simp add: req_inv_def)
  show ?thesis
  proof (cases "end_call js c (nt_session n) (Incoming item)")
    case None
    then obtain m where m: "item = Inr m" "mg_RequestID m < call_rid c" using still_waiting by blast
    then have "answerable c (nt_down n) rest" if "answerable c (nt_down n) (nt_up n)"
      using that up by (auto simp: answerable_def split: if_splits)
    then have "call_inv js (n\<lparr>nt_up := rest\<rparr>) c"
      using ci pending_subset [of js "calls n" _ _ "nt_down n" "nt_up n" rest] up by (auto simp: call_inv_def)
    then show ?thesis using None inv c up by (auto simp: wake_def req_inv_def)
  next
    case (Some res)
    then obtain e s' where res: "end_call js c (nt_session n) (Incoming item) = Some (e, s')" by (cases res) auto
    have idle: "req_inv js (n\<lparr>nt_up := rest, nt_call := None\<rparr>)" using inv up by (auto simp: req_inv_def)
    have "nt_down n = [] \<and> active_config (calls n) = Some (rl_Config q)" if "c = AwaitReload r q" "e = None" for r q
      using res
    proof (cases rule: end_callE)
      case (reloaded m n' q' a)
      then have "mg_RequestID m = r" "item = Inr m" "pending js (calls n) r q (nt_down n) (nt_up n)"
        using that ci by (auto simp: call_inv_def)
      then show ?thesis using reloaded up by (auto simp: pending_def answered_def)
    qed (use that in auto)
    then have "req_inv js ((n\<lparr>nt_up := rest, nt_call := None\<rparr>)\<lparr>nt_session := s', nt_call := None, nt_last := Some (c, e)\<rparr>)"
      using return_inv [OF idle, of c "Incoming item" e s'] res by auto
    then show ?thesis using res by (simp add: wake_def)
  qed
qed


section \<open>Worker steps\<close>

text \<open>A worker that ends without being asked to: nothing but its farewell arrives.\<close>

lemma silent_end_inv:
  assumes inv: "req_inv js n" and "wk_ended w \<noteq> None" and "farewell 0 out"
  shows "req_inv js (after_worker (w, (r, calls n @ [CalledClose e]), out) n)"
proof -
  have out: "mg_RequestID m = 0 \<and> mg_Kind m \<noteq> KindReloadResult" if "m \<in> set out" for m
    using that assms(3) by (auto simp: farewell_def)
  have "pending js (calls n @ [CalledClose e]) rid q (nt_down n) (nt_up n @ map Inr out @ [Inl control_closed])"
    if "pending js (calls n) rid q (nt_down n) (nt_up n)" "rid \<noteq> 0" for rid q
    using that(1)
  proof (cases rule: pendingE)
    case (under_way pre j)
    show ?thesis unfolding under_way(1)
      using under_way out that(2) by (intro pendingI(1)) (auto simp: word_gt_0)
  next
    case handled
    show ?thesis unfolding handled(1)
      using handled out by (intro pendingI(2)) (auto simp: answered_def)
  qed
  then show ?thesis using inv assms(2) out by (auto simp: req_inv_def call_inv_def after_worker_def)
qed

text \<open>One message handled: its answers carry its number.\<close>

lemma handled_inv:
  assumes inv: "req_inv js n" and down: "nt_down n = m # rest"
    and out: "\<And>m'. m' \<in> set out \<Longrightarrow> mg_RequestID m' \<in> {0, mg_RequestID m}"
    and alive: "wk_ended w = None \<Longrightarrow> out \<noteq> [] \<and> mg_RequestID (last out) = mg_RequestID m"
    and answer: "\<And>m' q. m' \<in> set out \<Longrightarrow> mg_Kind m = KindReload \<Longrightarrow> js_reload js (mg_Payload m) = (q, None) \<Longrightarrow>
      mg_Kind m' = KindReloadResult \<Longrightarrow> answered js (calls n @ new) q m'"
    and was_alive: "alive n"
  shows "req_inv js (after_worker (w, (r, calls n @ new), out) (n\<lparr>nt_down := rest\<rparr>))"
proof -
  have last: "nt_last n \<noteq> Some (AwaitReload rid q, None)" for rid q using inv down by (auto simp: req_inv_def)
  have le: "mg_RequestID m \<le> se_requestID (nt_session n)" using inv down by (simp add: req_inv_def)
  let ?up = "nt_up n @ map Inr out @ (if wk_ended w = None then [] else [Inl control_closed])"
  have pend: "pending js (calls n @ new) rid q rest ?up" if "pending js (calls n) rid q (nt_down n) (nt_up n)" "rid \<noteq> 0" for rid q
  proof -
    from that(1) show ?thesis
    proof (cases rule: pendingE)
      case p: (under_way pre j)
      show ?thesis
      proof (cases pre)
        case Nil
        then have eq: "rest = []" "m = new_message KindReload rid j" using p(1) down by auto
        show ?thesis unfolding eq(1)
          using p(2,4) answer eq(2) by (intro pendingI(2)) (auto simp: new_message_def split: if_splits)
      next
        case (Cons a pre')
        then have eq: "rest = pre' @ [new_message KindReload rid j]" and m: "mg_RequestID m < rid" using p(1,3) down by auto
        have "mg_RequestID m' < rid" if "m' \<in> set out" for m' using out [OF that] m \<open>rid \<noteq> 0\<close> by (auto simp: word_gt_0)
        then show ?thesis unfolding eq using p Cons by (intro pendingI(1)) (auto split: if_splits)
      qed
    qed (use down in simp)
  qed
  have "answerable c rest ?up" if "answerable c (nt_down n) (nt_up n)" "wk_ended w = None" for c
    using that alive down by (auto simp: answerable_def last_map)
  then have "call_inv js (after_worker (w, (r, calls n @ new), out) (n\<lparr>nt_down := rest\<rparr>)) c" if "call_inv js n c" for c
    using that pend was_alive by (auto simp: call_inv_def after_worker_def)
  moreover have "mg_RequestID m' \<le> se_requestID (nt_session n)" if "m' \<in> set out" for m' using out [OF that] le by auto
  ultimately show ?thesis
    using inv down last by (auto simp: req_inv_def after_worker_def)
qed

lemma worker_message_inv:
  assumes ok: "json_ok js" and inv: "req_inv js n" and alive: "alive n" and rec: "receiving (nt_worker n)"
    and down: "nt_down n = m # rest"
  shows "req_inv js (after_worker (worker_step js sha (logging rt) written (Inr m) (nt_worker n, nt_runtime n, [])) (n\<lparr>nt_down := rest\<rparr>))"
    "length (snd (snd (worker_step js sha (logging rt) written (Inr m) (nt_worker n, nt_runtime n, [])))) \<le> 1"
proof -
  obtain w r log out where s: "worker_step js sha (logging rt) written (Inr m) (nt_worker n, (fst (nt_runtime n), calls n), []) = (w, (r, log), out)"
    by (metis prod.collapse)
  have first: "mg_Kind m \<in> {KindBootstrap, KindCommit} \<Longrightarrow> mg_RequestID m = 0" using inv down by (auto simp: req_inv_def)
  have "req_inv js (after_worker (w, (r, log), out) (n\<lparr>nt_down := rest\<rparr>)) \<and> length out \<le> 1"
    using ok alive rec s
  proof (cases rule: worker_step_cases)
    case (ended new)
    then show ?thesis unfolding ended(4)
      by (intro conjI handled_inv [OF inv down _ _ _ alive]) (auto simp: farewell_def item_rid_def)
  next
    case (prepared m' b j)
    then show ?thesis unfolding prepared(7)
      using first by (intro conjI handled_inv [OF inv down _ _ _ alive]) (auto simp: new_message_def)
  next
    case (committed m' j)
    then show ?thesis unfolding committed(7)
      using first by (intro conjI handled_inv [OF inv down _ _ _ alive]) (auto simp: new_message_def)
  next
    case (reloaded m' q de f j new)
    have "answered js (calls n @ new) q' (new_message KindReloadResult (mg_RequestID m) j)"
      if "js_reload js (mg_Payload m) = (q', None)" for q'
      using reloaded that by (cases f) (auto simp: answered_def reload_answer_def new_message_def Let_def)
    then show ?thesis unfolding reloaded(7)
      using reloaded by (intro conjI handled_inv [OF inv down _ _ _ alive]) (auto simp: new_message_def)
  qed
  then show "req_inv js (after_worker (worker_step js sha (logging rt) written (Inr m) (nt_worker n, nt_runtime n, [])) (n\<lparr>nt_down := rest\<rparr>))"
    "length (snd (snd (worker_step js sha (logging rt) written (Inr m) (nt_worker n, nt_runtime n, [])))) \<le> 1"
    using s by simp_all
qed

lemma worker_lost_inv:
  assumes ok: "json_ok js" and inv: "req_inv js n" and alive: "alive n" and rec: "receiving (nt_worker n)"
  shows "req_inv js (after_worker (worker_step js sha (logging rt) written (Inl x) (nt_worker n, nt_runtime n, [])) n)"
proof -
  obtain w r log out where s: "worker_step js sha (logging rt) written (Inl x) (nt_worker n, (fst (nt_runtime n), calls n), []) = (w, (r, log), out)"
    by (metis prod.collapse)
  have "req_inv js (after_worker (w, (r, log), out) n)"
    using ok alive rec s
  proof (cases rule: worker_step_cases)
    case (ended new)
    then obtain e where "new = [CalledClose e]" by blast
    then show ?thesis unfolding ended(4) using ended silent_end_inv [OF inv] by (simp add: item_rid_def)
  qed simp_all
  then show ?thesis using s by simp
qed


section \<open>Reachable states\<close>

lemma deliver_req_inv:
  assumes "json_ok js" and "deliver js sha (logging rt) n n'" and "start_inv js pid uid gid self n" and "req_inv js n"
  shows "req_inv js n'"
  using assms(2)
proof cases
  case (to_supervisor c item rest)
  then show ?thesis using wake_incoming_inv [OF assms(4)] by simp
next
  case (process_exit c res e)
  then show ?thesis using wake_aside_inv [OF assms(4)] by simp
next
  case (to_worker m rest written)
  then show ?thesis
    using worker_message_inv(1) [OF assms(1,4)] assms(3) by (simp add: start_inv_def worker_ok_def)
qed

lemma step_requests: "net_step js sha rt n n' \<Longrightarrow> nt_requests n \<le> nt_requests n'"
  by (induction rule: net_step.induct)
    (auto simp: begin_call_def wake_def after_worker_def elim!: deliver.cases split: prod.splits option.splits)

lemma step_req_inv:
  assumes "json_ok js" and "net_step js sha (logging rt) n n'" and si: "start_inv js pid uid gid self n"
    and inv: "req_inv js n" and bound: "nt_requests n' < 2 ^ 64"
  shows "req_inv js n'"
  using assms(2)
proof cases
  case delivery
  then show ?thesis using deliver_req_inv assms by blast
next
  case (call_bootstrap written b)
  obtain res s' out where x: "se_Bootstrap js sha written b (nt_session n) [] = (res, s', out)" by (metis prod.collapse)
  show ?thesis unfolding call_bootstrap(1) x
    using se_Bootstrap_cases [OF x] inv begin_returned_inv [OF inv, of s' "nt_requests n"]
      begin_first_inv [OF inv, of s' AwaitPrepared] by auto
next
  case (call_commit written d)
  obtain res s' out where x: "se_Commit js written d (nt_session n) [] = (res, s', out)" by (metis prod.collapse)
  show ?thesis unfolding call_commit(1) x
    using se_Commit_cases [OF x] inv begin_returned_inv [OF inv, of s' "nt_requests n"]
      begin_first_inv [OF inv, of s' "AwaitRunning d"] by auto
next
  case (call_reload written q)
  obtain res s' out where x: "se_Reload js sha written q (nt_session n) [] = (res, s', out)" by (metis prod.collapse)
  have k: "Suc (nt_requests n) < 2 ^ 64" using bound call_reload(1) x by (simp add: begin_call_def split: prod.splits)
  have "unat (se_requestID (nt_session n)) < Suc (nt_requests n)" using inv by (auto simp: req_inv_def)
  then show ?thesis unfolding call_reload(1) x
    using se_Reload_cases [OF x] k begin_returned_inv [OF inv, of s' "Suc (nt_requests n)"] json_okD(3) [OF assms(1)]
      begin_request_inv [OF inv _ k, of s'] by auto
next
  case (call_shutdown written t)
  obtain res s' out where x: "se_Shutdown js written t (nt_session n) [] = (res, s', out)" by (metis prod.collapse)
  have k: "Suc (nt_requests n) < 2 ^ 64" using bound call_shutdown(1) x by (simp add: begin_call_def split: prod.splits)
  have "unat (se_requestID (nt_session n)) < Suc (nt_requests n)" using inv by (auto simp: req_inv_def)
  then show ?thesis unfolding call_shutdown(1) x
    using se_Shutdown_cases [OF x] k begin_returned_inv [OF inv, of s' "Suc (nt_requests n)"]
      begin_request_inv [OF inv _ k, of s'] by auto
next
  case (abandon c e)
  then show ?thesis using wake_aside_inv [OF inv] by simp
next
  case (connection_lost written e)
  then show ?thesis using worker_lost_inv [OF assms(1) inv] si by (simp add: start_inv_def worker_ok_def)
next
  case (worker_stops written why)
  obtain w' r' log' out where s: "worker_stopped js (logging rt) written why (nt_worker n, (fst (nt_runtime n), calls n), []) = (w', (r', log'), out)"
    by (metis prod.collapse)
  then obtain e where e: "log' = calls n @ [CalledClose e]" "wk_ended w' \<noteq> None" "farewell 0 out"
    using worker_stopped_effect [OF s] by blast
  have "req_inv js (after_worker (w', (r', log'), out) n)" unfolding e(1) using silent_end_inv [OF inv e(2,3)] .
  then show ?thesis using s worker_stops by simp
qed

lemma reach_req_inv:
  assumes "net_reach js sha (logging rt) pid uid gid self (r, []) n" and "json_ok js" and "nt_requests n < 2 ^ 64"
  shows "req_inv js n"
  using assms
proof (induction rule: net_reach.induct)
  case (net_init s)
  then show ?case by (auto simp: NewSupervisorSession_def net_start_def req_inv_def split: if_splits)
next
  case (net_next n n')
  then have "req_inv js n" using step_requests [of js sha "logging rt" n n'] by linarith
  then show ?case
    using step_req_inv [OF net_next.prems(1) net_next.hyps(2)] reach_start_inv [OF net_next.hyps(1) net_next.prems(1)] net_next.prems(2)
    by blast
qed

section \<open>Every call returns\<close>

definition in_flight :: "('j, 'r) net \<Rightarrow> nat" where
  "in_flight n = 3 * length (nt_down n) + length (nt_up n) + (if nt_call n = None then 0 else 1)"

lemma exit_ends_call: "end_call js c s (ProcessExited e) \<noteq> None"
  by (cases c; cases e) (auto simp: end_call_def await_def awaitShutdown_def)

lemma wake_queues:
  "nt_down (wake js c w n) = nt_down n" "nt_up (wake js c w n) = nt_up n" "nt_call (wake js c w n) \<in> {None, nt_call n}"
  by (auto simp: wake_def split: option.splits)

lemma deliver_in_flight:
  assumes "json_ok js" and "deliver js sha (logging rt) n n'" and "start_inv js pid uid gid self n" and "req_inv js n"
  shows "in_flight n' < in_flight n"
  using assms(2)
proof cases
  case (to_supervisor c item rest)
  then show ?thesis using wake_queues [of js c "Incoming item" "n\<lparr>nt_up := rest\<rparr>"] by (auto simp: in_flight_def)
next
  case (process_exit c res e)
  then show ?thesis
    using wake_queues [of js c "ProcessExited e" n] exit_ends_call [of js c "nt_session n" e]
    by (auto simp: in_flight_def wake_def)
next
  case (to_worker m rest written)
  let ?res = "worker_step js sha (logging rt) written (Inr m) (nt_worker n, nt_runtime n, [])"
  have "length (snd (snd ?res)) \<le> 1"
    using worker_message_inv(2) [OF assms(1,4) to_worker(2) _ to_worker(3)] assms(3) to_worker(2)
    by (simp add: start_inv_def worker_ok_def)
  then show ?thesis unfolding to_worker(1) using to_worker(3)
    by (cases ?res) (auto simp: in_flight_def after_worker_def)
qed

lemma deliver_enabled:
  assumes "start_inv js pid uid gid self n" and "req_inv js n" and "nt_call n = Some c"
  shows "\<exists>n'. deliver js sha rt n n'"
proof (cases "wk_ended (nt_worker n)")
  case (Some res)
  then show ?thesis using deliver.process_exit [OF assms(3) Some, of res] by blast
next
  case None
  then have "answerable c (nt_down n) (nt_up n)" using assms(2,3) by (auto simp: req_inv_def call_inv_def)
  then show ?thesis
    using None deliver.to_worker [of n] deliver.to_supervisor [OF assms(3)]
    by (cases "nt_down n"; cases "nt_up n") (fastforce simp: answerable_def)+
qed

lemma deliver_reach:
  assumes "(deliver js sha (logging rt) ^^ k) n n'" and "net_reach js sha (logging rt) pid uid gid self (r, []) n"
    and "json_ok js" and "nt_requests n < 2 ^ 64"
  shows "net_reach js sha (logging rt) pid uid gid self (r, []) n' \<and> nt_requests n' < 2 ^ 64 \<and> in_flight n' + k \<le> in_flight n"
  using assms(1)
proof (induction k arbitrary: n')
  case (Suc k)
  then obtain n1 where n1: "(deliver js sha (logging rt) ^^ k) n n1" "deliver js sha (logging rt) n1 n'" by auto
  note IH = Suc.IH [OF n1(1)]
  have "nt_requests n' = nt_requests n1"
    using n1(2) by cases (auto simp: wake_def after_worker_def split: option.splits prod.splits)
  moreover have "in_flight n' < in_flight n1"
    using deliver_in_flight [OF assms(3) n1(2), of pid uid gid self] reach_start_inv [OF conjunct1 [OF IH] assms(3)]
      reach_req_inv [OF conjunct1 [OF IH] assms(3)] IH by simp
  ultimately show ?case using IH net_next [OF _ delivery [OF n1(2)]] by auto
qed (use assms in simp)

end
