(* ===== verification/Privsep_Properties.thy ===== *)
theory Privsep_Properties
  imports Privsep_Requests
begin

text \<open>
  What the supervisor can rely on: the order of start-up, the effect of a reload, and that no call hangs.
  The examples run the two ends of the protocol against each other.
\<close>

section \<open>An executable schedule\<close>

datatype move = Bootstraps bootstrap | Commits string | Reloads reload_request | Abandons go_error | WorkerReads | SupervisorReads

fun do_move :: "'j json \<Rightarrow> (string \<Rightarrow> string) \<Rightarrow> 'r worker_runtime \<Rightarrow> ('j, 'r) net \<Rightarrow> move \<Rightarrow> ('j, 'r) net option" where
  "do_move js sha rt n (Bootstraps b) =
     (if nt_call n = None then Some (begin_call (se_Bootstrap js sha None b (nt_session n) []) n) else None)"
| "do_move js sha rt n (Commits d) =
     (if nt_call n = None then Some (begin_call (se_Commit js None d (nt_session n) []) n) else None)"
| "do_move js sha rt n (Reloads q) =
     (if nt_call n = None
      then Some (begin_call (se_Reload js sha None q (nt_session n) []) (n\<lparr>nt_requests := Suc (nt_requests n)\<rparr>)) else None)"
| "do_move js sha rt n (Abandons e) = map_option (\<lambda>c. wake js c (ContextDone e) n) (nt_call n)"
| "do_move js sha rt n WorkerReads =
     (case nt_down n of
        [] \<Rightarrow> None
      | m # rest \<Rightarrow>
          if alive n
          then Some (after_worker (worker_step js sha rt (None, None) (Inr m) (nt_worker n, nt_runtime n, [])) (n\<lparr>nt_down := rest\<rparr>))
          else None)"
| "do_move js sha rt n SupervisorReads =
     (case (nt_call n, nt_up n) of
        (Some c, item # rest) \<Rightarrow> Some (wake js c (Incoming item) (n\<lparr>nt_up := rest\<rparr>))
      | _ \<Rightarrow> None)"

fun do_moves :: "'j json \<Rightarrow> (string \<Rightarrow> string) \<Rightarrow> 'r worker_runtime \<Rightarrow> ('j, 'r) net \<Rightarrow> move list \<Rightarrow> ('j, 'r) net option" where
  "do_moves js sha rt n [] = Some n"
| "do_moves js sha rt n (m # ms) = Option.bind (do_move js sha rt n m) (\<lambda>n'. do_moves js sha rt n' ms)"

lemma do_move_step: "do_move js sha rt n m = Some n' \<Longrightarrow> net_step js sha rt n n'"
  by (cases m)
    (auto intro: net_step.intros deliver.intros split: if_splits list.splits option.splits)

lemma supervisor_reads: "do_move js sha rt n SupervisorReads = Some n' \<Longrightarrow> deliver js sha rt n n'"
  by (auto intro: deliver.intros split: list.splits option.splits)

lemma do_moves_reach:
  "do_moves js sha rt n ms = Some n' \<Longrightarrow> net_reach js sha rt pid uid gid self r n \<Longrightarrow> net_reach js sha rt pid uid gid self r n'"
proof (induction ms arbitrary: n)
  case (Cons m ms)
  then obtain n1 where "do_move js sha rt n m = Some n1" "do_moves js sha rt n1 ms = Some n'" by (auto simp: bind_eq_Some_conv)
  then show ?case using Cons.IH net_next [OF Cons.prems(2) do_move_step] by blast
qed simp

text \<open>Payloads that are their own encoding, and a runtime that accepts everything.\<close>

definition plain_json :: "payload json" where
  "plain_json =
     \<lparr>js_encode = Some,
      js_bootstrap = (\<lambda>j. case j of Bootstrap b \<Rightarrow> Some b | _ \<Rightarrow> None),
      js_prepared = (\<lambda>j. case j of Prepared x \<Rightarrow> Some x | _ \<Rightarrow> None),
      js_commit = (\<lambda>j. case j of Commit d \<Rightarrow> Some d | _ \<Rightarrow> None),
      js_running = (\<lambda>j. case j of Running d \<Rightarrow> Some d | _ \<Rightarrow> None),
      js_reload = (\<lambda>j. case j of Reload q \<Rightarrow> (q, None)
        | _ \<Rightarrow> (\<lparr>rl_ReloadRequestID = [], rl_Config = [], rl_ConfigDigest = [], rl_InterfaceDNS = []\<rparr>, Some (Opaque ''json''))),
      js_reload_result = (\<lambda>j. case j of ReloadResult a \<Rightarrow> Some a | _ \<Rightarrow> None),
      js_shutdown = (\<lambda>j. case j of Shutdown t \<Rightarrow> Some t | _ \<Rightarrow> None),
      js_stopped = (\<lambda>j. case j of Stopped t \<Rightarrow> Some t | _ \<Rightarrow> None),
      js_fatal = (\<lambda>j. case j of Fatal t \<Rightarrow> Some t | _ \<Rightarrow> None)\<rparr>"

lemma plain_json_ok: "json_ok plain_json"
  by (auto simp: json_ok_def plain_json_def split: payload.splits)

definition easy_runtime :: "unit worker_runtime" where
  "easy_runtime = \<lparr>rt_Prepare = (\<lambda>_ r. (None, r)), rt_Commit = (\<lambda>r. (None, r)), rt_Reload = (\<lambda>_ r. (None, r)),
     rt_Close = (\<lambda>r. (None, r))\<rparr>"

definition zero_sha :: "string \<Rightarrow> string" where
  "zero_sha _ = replicate 64 (CHR ''0'')"

definition zero_digest :: string where
  "zero_digest = ''sha256:'' @ replicate 64 (CHR ''0'')"

definition sample_boot :: bootstrap where
  "sample_boot = \<lparr>bs_Config = ''a'', bs_ConfigDigest = zero_digest, bs_TUNName = ''utun4'', bs_DNSListen = ''127.0.0.1:53'',
     bs_StatusSocket = ''/var/run/s'', bs_IPv6Enabled = False, bs_IPv6FallbackReason = [], bs_InterfaceDNS = []\<rparr>"

definition sample_reload :: "string \<Rightarrow> reload_request" where
  "sample_reload text = \<lparr>rl_ReloadRequestID = replicate 32 (CHR ''1''), rl_Config = text, rl_ConfigDigest = zero_digest,
     rl_InterfaceDNS = []\<rparr>"

definition sample_self :: prepared where
  "sample_self = \<lparr>pr_PID = 70, pr_UID = 501, pr_GID = 502\<rparr>"

definition sample_session :: session where
  "sample_session = \<lparr>se_expectedPID = 70, se_UID = 501, se_GID = 502, se_requestID = 0, se_bootstrapped = False,
     se_prepared = False, se_running = False, se_closed = False\<rparr>"

text \<open>Start-up, a reload abandoned before the worker has seen it, and a second one, up to its last delivery or to the end.\<close>

definition sample_moves :: "move list" where
  "sample_moves =
     [Bootstraps sample_boot, WorkerReads, SupervisorReads, Commits zero_digest, WorkerReads, SupervisorReads,
      Reloads (sample_reload ''b''), Abandons (Opaque ''context deadline exceeded''), Reloads (sample_reload ''c''),
      WorkerReads, WorkerReads, SupervisorReads]"

abbreviation sample_run :: "move list \<Rightarrow> (payload, unit \<times> rt_call list) net option" where
  "sample_run ms \<equiv> do_moves plain_json zero_sha (logging easy_runtime) (net_start sample_session sample_self ((), [])) ms"

definition sample_waiting :: "(payload, unit \<times> rt_call list) net" where
  "sample_waiting = the (sample_run sample_moves)"

definition sample_reloaded :: "(payload, unit \<times> rt_call list) net" where
  "sample_reloaded = the (sample_run (sample_moves @ [SupervisorReads]))"

lemma sample_runs: "sample_run sample_moves \<noteq> None" "sample_run (sample_moves @ [SupervisorReads]) \<noteq> None"
  by code_simp+

lemma sample_reach:
  "net_reach plain_json zero_sha (logging easy_runtime) 70 501 502 sample_self ((), []) sample_waiting"
  "net_reach plain_json zero_sha (logging easy_runtime) 70 501 502 sample_self ((), []) sample_reloaded"
proof -
  have "NewSupervisorSession 70 501 502 = Inr sample_session" by (simp add: NewSupervisorSession_def sample_session_def)
  note start = net_init [OF this, of plain_json zero_sha "logging easy_runtime" sample_self "((), [])"]
  show
    "net_reach plain_json zero_sha (logging easy_runtime) 70 501 502 sample_self ((), []) sample_waiting"
    "net_reach plain_json zero_sha (logging easy_runtime) 70 501 502 sample_self ((), []) sample_reloaded"
    using sample_runs do_moves_reach [OF _ start] by (auto simp: sample_waiting_def sample_reloaded_def)
qed

lemma sample_facts:
  "nt_last sample_reloaded = Some (AwaitReload 2 (sample_reload ''c''), None)" "nt_requests sample_reloaded = 2"
  "se_running (nt_session sample_reloaded)" "nt_requests sample_waiting = 2" "nt_call sample_waiting \<noteq> None"
  "nt_call sample_reloaded = None" "nt_down sample_reloaded = []" "in_flight sample_waiting = 2"
  by code_simp+


section \<open>Properties\<close>

text \<open>
  C5: The supervisor opens the host only to a worker it knows.  In every reachable state of supervisor and
  worker, whatever fails and in whatever order: the worker has been told to commit only if it had reported
  itself prepared with exactly the expected process and the expected, unprivileged user and group, after
  preparing its runtime successfully; the session counts as running only if the worker's runtime has
  committed; and a commit that succeeded for a digest was for the configuration the worker had prepared.
\<close>

theorem startup_ordered:
  assumes "json_ok js" and "net_reach js sha (logging rt) pid uid gid self (r, []) n"
  shows "(CalledCommit e \<in> set (calls n) \<longrightarrow> se_prepared (nt_session n)) \<and>
    (se_prepared (nt_session n) \<longrightarrow>
       self = \<lparr>pr_PID = pid, pr_UID = uid, pr_GID = gid\<rparr> \<and> 0 < pid \<and> uid \<noteq> 0 \<and> gid \<noteq> 0 \<and> (\<exists>b. CalledPrepare b None \<in> set (calls n))) \<and>
    (se_running (nt_session n) \<longrightarrow> CalledCommit None \<in> set (calls n)) \<and>
    (nt_last n = Some (AwaitRunning d, None) \<longrightarrow> (\<exists>b. CalledPrepare b None \<in> set (calls n) \<and> bs_ConfigDigest b = d))"
  using reach_start_inv [OF assms(2,1)]
  by (auto simp: start_inv_def session_ok_def did_prepare_def)

theorem startup_ordered_witness:
  "se_running (nt_session sample_reloaded) \<and> CalledCommit None \<in> set (calls sample_reloaded) \<and>
   (\<exists>b. CalledPrepare b None \<in> set (calls sample_reloaded))"
  using startup_ordered [OF plain_json_ok sample_reach(2)] sample_facts(3) by blast

text \<open>
  C4: A reload that reports success has taken effect.  Whatever calls were made and abandoned before, with
  their requests and answers still under way, when \<open>Reload\<close> returns without an error the configuration of
  exactly this request is the one the worker's runtime accepted last, and no other request is on its way
  to the worker; this stays so until the supervisor makes its next call.
\<close>

theorem reload_takes_effect:
  assumes "json_ok js" and "net_reach js sha (logging rt) pid uid gid self (r, []) n" and "nt_requests n < 2 ^ 64"
    and "nt_last n = Some (AwaitReload k q, None)"
  shows "active_config (calls n) = Some (rl_Config q) \<and> nt_down n = []"
  using reach_req_inv [OF assms(2,1,3)] assms(4) by (simp add: req_inv_def)


theorem reload_takes_effect_witness:
  "nt_last sample_reloaded = Some (AwaitReload 2 (sample_reload ''c''), None) \<and>
   active_config (calls sample_reloaded) = Some ''c''"
  using reload_takes_effect [OF plain_json_ok sample_reach(2) _ sample_facts(1)] sample_facts(1,2)
  by (simp add: sample_reload_def)

text \<open>
  C12: No call of the supervisor hangs on a lost answer.  From every reachable state, however the messages
  under way, the end of the worker process and its last messages are delivered, delivery ends after a
  number of steps fixed by that state, and when nothing is left to deliver no call is waiting any more.
\<close>

theorem calls_return:
  assumes "json_ok js" and "net_reach js sha (logging rt) pid uid gid self (r, []) n" and "nt_requests n < 2 ^ 64"
    and "(deliver js sha (logging rt) ^^ k) n n'"
  shows "k \<le> in_flight n \<and> ((\<nexists>n''. deliver js sha (logging rt) n' n'') \<longrightarrow> nt_call n' = None)"
proof -
  note d = deliver_reach [OF assms(4,2,1,3)]
  have "start_inv js pid uid gid self n'" "req_inv js n'" using d reach_start_inv [OF conjunct1 [OF d] assms(1)] reach_req_inv [OF conjunct1 [OF d] assms(1)] by simp_all
  then show ?thesis using deliver_enabled [of js pid uid gid self n' _ sha "logging rt"] d by (cases "nt_call n'") auto
qed

theorem calls_return_witness:
  "nt_call sample_waiting \<noteq> None \<and> (\<exists>n. deliver plain_json zero_sha (logging easy_runtime) sample_waiting n \<and> nt_call n = None)"
proof -
  have "do_move plain_json zero_sha (logging easy_runtime) sample_waiting SupervisorReads = Some sample_reloaded"
    by code_simp
  then have d: "deliver plain_json zero_sha (logging easy_runtime) sample_waiting sample_reloaded"
    by (rule supervisor_reads)
  moreover have "\<nexists>n. deliver plain_json zero_sha (logging easy_runtime) sample_reloaded n"
    using sample_facts(6,7) by (auto elim: deliver.cases)
  ultimately show ?thesis
    using calls_return [OF plain_json_ok sample_reach(1), of 1 sample_reloaded] sample_facts(4,5) by auto
qed

end
