(* ===== verification/Privsep_Handoff.thy ===== *)
theory Privsep_Handoff
  imports Privsep_Session
begin

text \<open>
  \<open>internal/privsep/identity.go\<close>, \<open>process_darwin.go\<close> and \<open>resources_darwin.go\<close>: whom the worker runs as, and
  how the descriptors it works with get from the supervisor into the worker.
\<close>

section \<open>Identity\<close>

definition ProductionUser :: string where "ProductionUser = ''_tun-proxy''"
definition ProductionGroup :: string where "ProductionGroup = ''_tun-proxy''"
definition ProductionHome :: string where "ProductionHome = ''/var/empty''"

text \<open>What the account directory returns: \<open>user.User\<close> and \<open>user.Group\<close>.\<close>

record account =
  ac_Username :: string
  ac_Uid :: string
  ac_Gid :: string
  ac_HomeDir :: string

record group =
  gr_Name :: string
  gr_Gid :: string

record identity =
  id_User :: string
  id_Group :: string
  id_UID :: "32 word"
  id_GID :: "32 word"
  id_Home :: string

definition parseID :: "string \<Rightarrow> go_error + 32 word" where
  "parseID raw =
     (case parse_uint 4294967296 raw of
        None \<Rightarrow> Inl (Opaque ''invalid worker ID'')
      | Some n \<Rightarrow> Inr (word_of_nat n))"

definition identity_failures :: "identity \<Rightarrow> 32 word \<Rightarrow> go_error list" where
  "identity_failures i groupGID =
     failure_if (id_User i \<noteq> ProductionUser) ''worker user resolved as another'' @
     failure_if (id_Group i \<noteq> ProductionGroup) ''worker group resolved as another'' @
     failure_if (id_UID i = 0 \<or> id_GID i = 0) ''worker identity must be non-root'' @
     failure_if (id_GID i \<noteq> groupGID) ''worker primary GID does not match dedicated group GID'' @
     failure_if (id_Home i \<noteq> ProductionHome) ''worker home mismatch''"

definition ResolveProductionIdentity ::
  "(string \<Rightarrow> go_error + account) \<Rightarrow> (string \<Rightarrow> go_error + group) \<Rightarrow> go_error + identity" where
  "ResolveProductionIdentity lookupUser lookupGroup =
     bindE (case lookupUser ProductionUser of Inl e \<Rightarrow> Inl (wrapf ''lookup dedicated worker user'' e) | Inr a \<Rightarrow> Inr a) (\<lambda>a.
     bindE (case lookupGroup ProductionGroup of Inl e \<Rightarrow> Inl (wrapf ''lookup dedicated worker group'' e) | Inr g \<Rightarrow> Inr g) (\<lambda>g.
     bindE (parseID (ac_Uid a)) (\<lambda>uid.
     bindE (parseID (ac_Gid a)) (\<lambda>primaryGID.
     bindE (parseID (gr_Gid g)) (\<lambda>groupGID.
       let i = \<lparr>id_User = ac_Username a, id_Group = gr_Name g, id_UID = uid, id_GID = primaryGID, id_Home = ac_HomeDir a\<rparr>
       in case join_failures (identity_failures i groupGID) of Some e \<Rightarrow> Inl e | None \<Rightarrow> Inr i)))))"

definition NormalizeCredentialID :: "int \<Rightarrow> 32 word" where
  "NormalizeCredentialID v = word_of_int v"

definition ValidateCurrentIdentity :: "int \<Rightarrow> int \<Rightarrow> go_error + int list \<Rightarrow> identity \<Rightarrow> go_error option" where
  "ValidateCurrentIdentity euid egid groups i =
     (case groups of
        Inl e \<Rightarrow> Some (wrapf ''read worker supplementary groups'' e)
      | Inr gs \<Rightarrow>
          if NormalizeCredentialID euid \<noteq> id_UID i \<or> NormalizeCredentialID egid \<noteq> id_GID i
          then Some (Opaque ''worker credential mismatch'')
          else if length gs \<noteq> 1 \<or> NormalizeCredentialID (hd gs) \<noteq> id_GID i
          then Some (Opaque ''worker supplementary groups mismatch'')
          else None)"


section \<open>Descriptors\<close>

text \<open>
  What a descriptor refers to, and the handles a process holds on it: an \<open>os.File\<close>, or a \<open>net\<close> object made from
  one, which has a descriptor of its own.
\<close>

datatype endpoint = TunDevice | UDPDNS | TCPDNS | ParentEnd | ChildEnd

datatype handle = AsFile endpoint | AsNet endpoint

definition close_handle :: "handle \<Rightarrow> handle list \<Rightarrow> handle list" where
  "close_handle h s = remove1 h s"

text \<open>
  \<open>net.FileConn\<close>, \<open>net.FilePacketConn\<close> or \<open>net.FileListener\<close> on a file, and the close of the file right after;
  \<open>made\<close> and \<open>closed\<close> are the outcomes.
\<close>

definition net_from_file ::
  "go_error option \<Rightarrow> go_error option \<Rightarrow> endpoint \<Rightarrow> handle list \<Rightarrow> go_error option \<times> handle list" where
  "net_from_file made closed x s =
     (let s1 = (if made = None then AsNet x # s else s);
          s2 = close_handle (AsFile x) s1
      in case made of
           Some e \<Rightarrow> (Some (wrapf ''open descriptor'' e), s2)
         | None \<Rightarrow>
             (case closed of
                Some e \<Rightarrow> (Some (wrapf ''close original descriptor'' e), close_handle (AsNet x) s2)
              | None \<Rightarrow> (None, s2)))"

definition openControlFile ::
  "go_error option \<Rightarrow> go_error option \<Rightarrow> endpoint option \<Rightarrow> handle list \<Rightarrow> go_error option \<times> handle list" where
  "openControlFile made closed file s =
     (case file of
        None \<Rightarrow> (Some (Opaque ''open control connection: nil file''), s)
      | Some x \<Rightarrow> net_from_file made closed x s)"

definition close_file :: "endpoint option \<Rightarrow> handle list \<Rightarrow> handle list" where
  "close_file file s = (case file of None \<Rightarrow> s | Some x \<Rightarrow> close_handle (AsFile x) s)"

record dns_outcomes =
  do_udp :: "go_error option"
  do_udp_close :: "go_error option"
  do_tcp :: "go_error option"
  do_tcp_close :: "go_error option"

definition openDNSFiles ::
  "dns_outcomes \<Rightarrow> endpoint option \<Rightarrow> endpoint option \<Rightarrow> handle list \<Rightarrow> go_error option \<times> handle list" where
  "openDNSFiles d udpFile tcpFile s =
     (case udpFile of
        None \<Rightarrow> (Some (Opaque ''missing inherited UDP DNS descriptor''), close_file tcpFile s)
      | Some u \<Rightarrow>
          (case net_from_file (do_udp d) (do_udp_close d) u s of
             (Some e, s1) \<Rightarrow> (Some e, close_file tcpFile s1)
           | (None, s1) \<Rightarrow>
               (case tcpFile of
                  None \<Rightarrow> (Some (Opaque ''missing inherited TCP DNS descriptor''), close_handle (AsNet u) s1)
                | Some t \<Rightarrow>
                    (case net_from_file (do_tcp d) (do_tcp_close d) t s1 of
                       (Some e, s2) \<Rightarrow> (Some e, close_handle (AsNet u) s2)
                     | (None, s2) \<Rightarrow> (None, s2)))))"

text \<open>
  \<open>tun.OpenFile\<close> (\<open>internal/tun/device_darwin.go\<close>): the device takes the file over; \<open>native\<close> and \<open>name\<close> are the
  outcomes of making the device and of reading its name.
\<close>

definition openFileWithFactory ::
  "go_error option \<Rightarrow> go_error option \<Rightarrow> endpoint option \<Rightarrow> handle list \<Rightarrow> go_error option \<times> handle list" where
  "openFileWithFactory native name file s =
     (case file of
        None \<Rightarrow> (Some (Opaque ''open inherited utun: nil file''), s)
      | Some x \<Rightarrow>
          (case native of
             Some e \<Rightarrow> (Some (wrapf ''open inherited utun'' e), close_handle (AsFile x) s)
           | None \<Rightarrow>
               (case name of
                  Some e \<Rightarrow> (Some (wrapf ''read inherited utun name'' e), close_handle (AsFile x) s)
                | None \<Rightarrow> (None, s))))"

text \<open>The descriptors a process inherits, by number.\<close>

type_synonym fd_table = "nat \<Rightarrow> endpoint option"

definition ControlFD :: nat where "ControlFD = 3"
definition TUNFD :: nat where "TUNFD = 4"
definition UDPDNSFD :: nat where "UDPDNSFD = 5"
definition TCPDNSFD :: nat where "TCPDNSFD = 6"

record worker_resources =
  wr_Control :: endpoint
  wr_Device :: endpoint
  wr_UDP :: endpoint
  wr_TCP :: endpoint

record open_outcomes =
  oo_control :: "go_error option"
  oo_control_close :: "go_error option"
  oo_native :: "go_error option"
  oo_name :: "go_error option"
  oo_dns :: dns_outcomes

definition OpenInheritedResources ::
  "open_outcomes \<Rightarrow> fd_table \<Rightarrow> handle list \<Rightarrow> (go_error + worker_resources) \<times> handle list" where
  "OpenInheritedResources oc fds s =
     (case openControlFile (oo_control oc) (oo_control_close oc) (fds ControlFD) s of
        (Some e, s1) \<Rightarrow> (Inl e, s1)
      | (None, s1) \<Rightarrow>
          (case openFileWithFactory (oo_native oc) (oo_name oc) (fds TUNFD) s1 of
             (Some e, s2) \<Rightarrow> (Inl e, close_handle (AsNet (the (fds ControlFD))) s2)
           | (None, s2) \<Rightarrow>
               (case openDNSFiles (oo_dns oc) (fds UDPDNSFD) (fds TCPDNSFD) s2 of
                  (Some e, s3) \<Rightarrow>
                    (Inl e, close_handle (AsNet (the (fds ControlFD))) (close_handle (AsFile (the (fds TUNFD))) s3))
                | (None, s3) \<Rightarrow>
                    (Inr \<lparr>wr_Control = the (fds ControlFD), wr_Device = the (fds TUNFD), wr_UDP = the (fds UDPDNSFD),
                       wr_TCP = the (fds TCPDNSFD)\<rparr>, s3))))"

definition resources_Close :: "worker_resources \<Rightarrow> handle list \<Rightarrow> handle list" where
  "resources_Close r s =
     close_handle (AsNet (wr_Control r)) (close_handle (AsFile (wr_Device r))
       (close_handle (AsNet (wr_TCP r)) (close_handle (AsNet (wr_UDP r)) s)))"


section \<open>Handing over\<close>

record handoff =
  ho_Control :: "endpoint option"
  ho_extra :: "endpoint list"
  ho_owned :: "endpoint list"

record handoff_outcomes =
  hx_socketpair :: "go_error option"
  hx_control :: "go_error option"
  hx_control_close :: "go_error option"
  hx_udp :: "go_error option"
  hx_tcp :: "go_error option"

definition PrepareHandoff ::
  "handoff_outcomes \<Rightarrow> bool \<Rightarrow> bool \<Rightarrow> handle list \<Rightarrow> (go_error + handoff) \<times> handle list" where
  "PrepareHandoff oc tunFile dnsListeners s =
     (if \<not> tunFile then (Inl (Opaque ''prepare worker handoff: nil TUN file''), s)
      else if \<not> dnsListeners then (Inl (Opaque ''prepare worker handoff: both DNS listeners are required''), s)
      else case hx_socketpair oc of
          Some e \<Rightarrow> (Inl (wrapf ''create private worker control socketpair'' e), s)
        | None \<Rightarrow>
            (case openControlFile (hx_control oc) (hx_control_close oc) (Some ParentEnd) (AsFile ParentEnd # AsFile ChildEnd # s) of
               (Some e, s1) \<Rightarrow> (Inl e, close_handle (AsFile ChildEnd) s1)
             | (None, s1) \<Rightarrow>
                 (case hx_udp oc of
                    Some e \<Rightarrow>
                      (Inl (wrapf ''duplicate UDP DNS descriptor'' e),
                       close_handle (AsNet ParentEnd) (close_handle (AsFile ChildEnd) s1))
                  | None \<Rightarrow>
                      (case hx_tcp oc of
                         Some e \<Rightarrow>
                           (Inl (wrapf ''duplicate TCP DNS descriptor'' e),
                            close_handle (AsNet ParentEnd) (close_handle (AsFile ChildEnd)
                              (close_handle (AsFile UDPDNS) (AsFile UDPDNS # s1))))
                       | None \<Rightarrow>
                           (Inr \<lparr>ho_Control = Some ParentEnd, ho_extra = [ChildEnd, TunDevice, UDPDNS, TCPDNS],
                              ho_owned = [ChildEnd, UDPDNS, TCPDNS]\<rparr>,
                            AsFile TCPDNS # AsFile UDPDNS # s1)))))"

definition CloseChildFiles :: "handoff \<Rightarrow> handle list \<Rightarrow> handoff \<times> handle list" where
  "CloseChildFiles h s =
     (h\<lparr>ho_owned := [], ho_extra := []\<rparr>, foldl (\<lambda>s x. close_handle (AsFile x) s) s (ho_owned h))"

definition handoff_Close :: "handoff \<Rightarrow> handle list \<Rightarrow> handoff \<times> handle list" where
  "handoff_Close h s =
     (case CloseChildFiles h s of
        (h1, s1) \<Rightarrow>
          (h1\<lparr>ho_Control := None\<rparr>, case ho_Control h1 of None \<Rightarrow> s1 | Some x \<Rightarrow> close_handle (AsNet x) s1))"

record worker_cmd =
  wc_Executable :: string
  wc_Args :: "string list"
  wc_Dir :: string
  wc_Env :: "string list"
  wc_ExtraFiles :: "endpoint list"
  wc_Uid :: "32 word"
  wc_Gid :: "32 word"
  wc_Groups :: "32 word list"

definition WorkerCommand :: "string \<Rightarrow> identity \<Rightarrow> handoff \<Rightarrow> go_error + worker_cmd" where
  "WorkerCommand executable i h =
     (if \<not> clean_absolute_path executable then Inl (Opaque ''worker executable must be a clean absolute path'')
      else if id_User i \<noteq> ProductionUser \<or> id_Group i \<noteq> ProductionGroup \<or> id_Home i \<noteq> ProductionHome \<or> id_UID i = 0 \<or> id_GID i = 0
      then Inl (Opaque ''unsafe production worker identity'')
      else if ho_Control h = None \<or> length (ho_extra h) \<noteq> 4 then Inl (Opaque ''complete worker descriptor handoff is required'')
      else Inr \<lparr>wc_Executable = executable, wc_Args = [''_service-worker''], wc_Dir = ProductionHome,
             wc_Env = [''PATH=/usr/bin:/bin:/usr/sbin:/sbin'', ''LC_ALL=C'', ''LANG=C''],
             wc_ExtraFiles = ho_extra h, wc_Uid = id_UID i, wc_Gid = id_GID i, wc_Groups = [id_GID i]\<rparr>)"

text \<open>\<open>exec.Cmd\<close> gives the child \<open>ExtraFiles[i]\<close> as descriptor \<open>3 + i\<close>.\<close>

definition inherited :: "worker_cmd \<Rightarrow> fd_table" where
  "inherited c n = (if 3 \<le> n \<and> n - 3 < length (wc_ExtraFiles c) then Some (wc_ExtraFiles c ! (n - 3)) else None)"


section \<open>Properties\<close>

lemma resolved_identity:
  assumes "ResolveProductionIdentity lu lg = Inr i"
  shows "id_User i = ProductionUser" "id_Group i = ProductionGroup" "id_Home i = ProductionHome" "id_UID i \<noteq> 0" "id_GID i \<noteq> 0"
  using assms
  by (auto simp: ResolveProductionIdentity_def bindE_Inr_iff Let_def join_failures_def identity_failures_def failure_if_def
      split: option.splits if_splits)

lemma prepared_handoff:
  assumes "PrepareHandoff oc tf dl s = (Inr h, s')"
  shows "h = \<lparr>ho_Control = Some ParentEnd, ho_extra = [ChildEnd, TunDevice, UDPDNS, TCPDNS], ho_owned = [ChildEnd, UDPDNS, TCPDNS]\<rparr>"
    "s' = [AsFile TCPDNS, AsFile UDPDNS, AsNet ParentEnd, AsFile ChildEnd] @ s"
  using assms
  by (auto simp: PrepareHandoff_def openControlFile_def net_from_file_def close_handle_def Let_def split: if_splits option.splits)

lemma failed_handoff: "PrepareHandoff oc tf dl s = (Inl e, s') \<Longrightarrow> s' = s"
  by (auto simp: PrepareHandoff_def openControlFile_def net_from_file_def close_handle_def Let_def split: if_splits option.splits)

text \<open>
  What a worker holds after opening what it inherited: on success one handle per resource; when the DNS
  sockets cannot be opened nothing; but what comes after a control connection or a device that cannot
  be opened is never looked at and stays open.
\<close>

definition control_fails :: "open_outcomes \<Rightarrow> bool" where
  "control_fails oc = (oo_control oc \<noteq> None \<or> oo_control_close oc \<noteq> None)"

definition device_fails :: "open_outcomes \<Rightarrow> bool" where
  "device_fails oc = (oo_native oc \<noteq> None \<or> oo_name oc \<noteq> None)"

definition dns_fails :: "open_outcomes \<Rightarrow> bool" where
  "dns_fails oc = (do_udp (oo_dns oc) \<noteq> None \<or> do_udp_close (oo_dns oc) \<noteq> None \<or>
     do_tcp (oo_dns oc) \<noteq> None \<or> do_tcp_close (oo_dns oc) \<noteq> None)"

lemma worker_opens:
  assumes "OpenInheritedResources oc fds [AsFile ChildEnd, AsFile TunDevice, AsFile UDPDNS, AsFile TCPDNS] = (opened, held)"
    and "fds ControlFD = Some ChildEnd" "fds TUNFD = Some TunDevice" "fds UDPDNSFD = Some UDPDNS" "fds TCPDNSFD = Some TCPDNS"
  shows "(\<exists>r. opened = Inr r) \<longleftrightarrow> \<not> control_fails oc \<and> \<not> device_fails oc \<and> \<not> dns_fails oc"
    "opened = Inr r \<Longrightarrow> r = \<lparr>wr_Control = ChildEnd, wr_Device = TunDevice, wr_UDP = UDPDNS, wr_TCP = TCPDNS\<rparr> \<and>
       held = [AsNet TCPDNS, AsNet UDPDNS, AsNet ChildEnd, AsFile TunDevice]"
    "opened = Inl e \<Longrightarrow> held =
       (if control_fails oc then [AsFile TunDevice, AsFile UDPDNS, AsFile TCPDNS]
        else if device_fails oc then [AsFile UDPDNS, AsFile TCPDNS] else [])"
  using assms
  by (auto simp: OpenInheritedResources_def openControlFile_def openFileWithFactory_def openDNSFiles_def net_from_file_def
      close_handle_def close_file_def control_fails_def device_fails_def dns_fails_def Let_def
      split: option.splits prod.splits if_splits)

text \<open>
  C13: The worker gets exactly its four descriptors and no privilege.  Once the identity has resolved:
  if preparing the hand-over fails, everything the supervisor opened for it is closed again; if it
  succeeds, the supervisor keeps only its own end of the control connection after the start and nothing
  after closing the hand-over, and a command is built exactly for a clean absolute path, of a worker
  that runs as a user and group other than root with no further group.  That worker opens its
  resources exactly when none of the calls fails; then its control connection, device and DNS listeners
  are the ones handed over, it holds nothing else, and closing its resources leaves nothing open.  If a
  call does fail, a failed control connection leaves the device and both DNS sockets open, a failed
  device the DNS sockets, and a failed DNS socket nothing.
\<close>

theorem handoff_exact:
  assumes "ResolveProductionIdentity lookupUser lookupGroup = Inr i" and "PrepareHandoff oc tf dl s = (res, s')"
  shows "case res of
      Inl e \<Rightarrow> s' = s
    | Inr h \<Rightarrow>
        snd (CloseChildFiles h s') = AsNet ParentEnd # s \<and> snd (handoff_Close h s') = s \<and>
        (\<forall>executable. (\<exists>c. WorkerCommand executable i h = Inr c) \<longleftrightarrow> clean_absolute_path executable) \<and>
        (\<forall>executable c. WorkerCommand executable i h = Inr c \<longrightarrow>
           wc_Uid c \<noteq> 0 \<and> wc_Gid c \<noteq> 0 \<and> wc_Groups c = [wc_Gid c] \<and>
           (\<forall>oc'. case OpenInheritedResources oc' (inherited c) (map AsFile (wc_ExtraFiles c)) of
                (Inr r, held) \<Rightarrow>
                  \<not> control_fails oc' \<and> \<not> device_fails oc' \<and> \<not> dns_fails oc' \<and>
                  r = \<lparr>wr_Control = ChildEnd, wr_Device = TunDevice, wr_UDP = UDPDNS, wr_TCP = TCPDNS\<rparr> \<and>
                  held = [AsNet TCPDNS, AsNet UDPDNS, AsNet ChildEnd, AsFile TunDevice] \<and> resources_Close r held = []
              | (Inl e, held) \<Rightarrow>
                  if control_fails oc' then held = [AsFile TunDevice, AsFile UDPDNS, AsFile TCPDNS]
                  else if device_fails oc' then held = [AsFile UDPDNS, AsFile TCPDNS]
                  else dns_fails oc' \<and> held = []))"
proof (cases res)
  case (Inl e)
  then show ?thesis using failed_handoff assms(2) by simp
next
  case (Inr h)
  note h = prepared_handoff [OF assms(2) [unfolded Inr]]
  note i = resolved_identity [OF assms(1)]
  have "snd (CloseChildFiles h s') = AsNet ParentEnd # s" "snd (handoff_Close h s') = s"
    unfolding h by (simp_all add: CloseChildFiles_def handoff_Close_def close_handle_def)
  moreover have "(\<exists>c. WorkerCommand executable i h = Inr c) \<longleftrightarrow> clean_absolute_path executable" for executable
    using i h(1) by (simp add: WorkerCommand_def)
  moreover have "wc_Uid c \<noteq> 0 \<and> wc_Gid c \<noteq> 0 \<and> wc_Groups c = [wc_Gid c] \<and> wc_ExtraFiles c = [ChildEnd, TunDevice, UDPDNS, TCPDNS]"
    if "WorkerCommand executable i h = Inr c" for executable c
    using that i h(1) by (auto simp: WorkerCommand_def split: if_splits)
  moreover have "case OpenInheritedResources oc' (inherited c) (map AsFile (wc_ExtraFiles c)) of
      (Inr r, held) \<Rightarrow>
        \<not> control_fails oc' \<and> \<not> device_fails oc' \<and> \<not> dns_fails oc' \<and>
        r = \<lparr>wr_Control = ChildEnd, wr_Device = TunDevice, wr_UDP = UDPDNS, wr_TCP = TCPDNS\<rparr> \<and>
        held = [AsNet TCPDNS, AsNet UDPDNS, AsNet ChildEnd, AsFile TunDevice] \<and> resources_Close r held = []
    | (Inl e, held) \<Rightarrow>
        if control_fails oc' then held = [AsFile TunDevice, AsFile UDPDNS, AsFile TCPDNS]
        else if device_fails oc' then held = [AsFile UDPDNS, AsFile TCPDNS]
        else dns_fails oc' \<and> held = []" (is "?opens oc' c")
    if c: "wc_ExtraFiles c = [ChildEnd, TunDevice, UDPDNS, TCPDNS]" for oc' c
  proof (cases "OpenInheritedResources oc' (inherited c) (map AsFile (wc_ExtraFiles c))")
    case (Pair opened held)
    have "inherited c ControlFD = Some ChildEnd" "inherited c TUNFD = Some TunDevice" "inherited c UDPDNSFD = Some UDPDNS"
      "inherited c TCPDNSFD = Some TCPDNS"
      using c by (simp_all add: inherited_def ControlFD_def TUNFD_def UDPDNSFD_def TCPDNSFD_def)
    note o = worker_opens [OF _ this, of oc' opened held]
    show ?thesis using o Pair c by (cases opened) (auto simp: resources_Close_def close_handle_def)
  qed
  ultimately show ?thesis using Inr by simp
qed

definition fine_dns :: dns_outcomes where
  "fine_dns = \<lparr>do_udp = None, do_udp_close = None, do_tcp = None, do_tcp_close = None\<rparr>"

definition fine_open :: open_outcomes where
  "fine_open = \<lparr>oo_control = None, oo_control_close = None, oo_native = None, oo_name = None, oo_dns = fine_dns\<rparr>"

definition fine_handoff :: handoff_outcomes where
  "fine_handoff = \<lparr>hx_socketpair = None, hx_control = None, hx_control_close = None, hx_udp = None, hx_tcp = None\<rparr>"

definition sample_account :: "string \<Rightarrow> go_error + account" where
  "sample_account name = Inr \<lparr>ac_Username = name, ac_Uid = ''401'', ac_Gid = ''402'', ac_HomeDir = ''/var/empty''\<rparr>"

definition sample_group :: "string \<Rightarrow> go_error + group" where
  "sample_group name = Inr \<lparr>gr_Name = name, gr_Gid = ''402''\<rparr>"

definition sample_identity :: identity where
  "sample_identity = \<lparr>id_User = ''_tun-proxy'', id_Group = ''_tun-proxy'', id_UID = 401, id_GID = 402, id_Home = ''/var/empty''\<rparr>"

definition sample_handoff :: handoff where
  "sample_handoff = \<lparr>ho_Control = Some ParentEnd, ho_extra = [ChildEnd, TunDevice, UDPDNS, TCPDNS], ho_owned = [ChildEnd, UDPDNS, TCPDNS]\<rparr>"

definition sample_command :: worker_cmd where
  "sample_command = (case WorkerCommand ''/usr/local/bin/tun-proxy'' sample_identity sample_handoff of Inr c \<Rightarrow> c)"

lemma sample_handoff_facts:
  "ResolveProductionIdentity sample_account sample_group = Inr sample_identity"
  "PrepareHandoff fine_handoff True True [AsFile TunDevice] =
     (Inr sample_handoff, [AsFile TCPDNS, AsFile UDPDNS, AsNet ParentEnd, AsFile ChildEnd, AsFile TunDevice])"
  "WorkerCommand ''/usr/local/bin/tun-proxy'' sample_identity sample_handoff = Inr sample_command"
  by code_simp+

theorem handoff_exact_witness:
  "wc_Uid sample_command \<noteq> 0 \<and> wc_Groups sample_command = [wc_Gid sample_command] \<and>
   resources_Close \<lparr>wr_Control = ChildEnd, wr_Device = TunDevice, wr_UDP = UDPDNS, wr_TCP = TCPDNS\<rparr>
     (snd (OpenInheritedResources fine_open (inherited sample_command) (map AsFile (wc_ExtraFiles sample_command)))) = [] \<and>
   snd (OpenInheritedResources (fine_open\<lparr>oo_control := Some (Opaque ''bad file descriptor'')\<rparr>) (inherited sample_command)
     (map AsFile (wc_ExtraFiles sample_command))) = [AsFile TunDevice, AsFile UDPDNS, AsFile TCPDNS]"
proof -
  let ?bad = "fine_open\<lparr>oo_control := Some (Opaque ''bad file descriptor'')\<rparr>"
  have f: "control_fails ?bad" "\<not> control_fails fine_open" "\<not> device_fails fine_open" "\<not> dns_fails fine_open" by code_simp+
  note w = handoff_exact [OF sample_handoff_facts(1,2), simplified sum.case, THEN conjunct2, THEN conjunct2, THEN conjunct2, rule_format,
      OF sample_handoff_facts(3)]
  note o = w [THEN conjunct2, THEN conjunct2, THEN conjunct2, THEN spec]
  obtain r held where good: "OpenInheritedResources fine_open (inherited sample_command) (map AsFile (wc_ExtraFiles sample_command)) = (r, held)"
    by fastforce
  obtain r' held' where bad: "OpenInheritedResources ?bad (inherited sample_command) (map AsFile (wc_ExtraFiles sample_command)) = (r', held')"
    by fastforce
  have "held' = [AsFile TunDevice, AsFile UDPDNS, AsFile TCPDNS]"
    using o [of ?bad] f(1) unfolding bad by (cases r') simp_all
  moreover have "resources_Close \<lparr>wr_Control = ChildEnd, wr_Device = TunDevice, wr_UDP = UDPDNS, wr_TCP = TCPDNS\<rparr> held = []"
    using o [of fine_open] f(2-4) unfolding good by (cases r) auto
  ultimately show ?thesis using w good bad by simp
qed

end
