(* ===== verification/Spec2Isabelle.thy ===== *)
theory Spec2Isabelle
  imports Fakeip_Properties Rules Config_Properties Resolver_Properties Session_Properties Fakedns_Properties Fakeip_Persistence_Properties System_DNS_Properties App_Properties
    App_Capture_Replan Apperror_Properties Privsep_Framing Privsep_Properties Privsep_Handoff
begin

text \<open>
  \<^bold>\<open>tun-proxy\<close>: a transparent proxy for macOS that routes every flow by the domain it is for.

  \<^bold>\<open>The program.\<close>  Applications ask the local DNS server (\<open>internal/fakedns\<close>) for a name.  If the rule
  engine (\<open>internal/rules\<close>) selects the name, the server answers with an address of a Fake IP pool
  (\<open>internal/fakeip\<close>), otherwise it forwards the query.  Packets to a Fake IP reach the user-space
  network stack through a tun device; each new flow becomes a call of a session handler
  (\<open>internal/session\<close>), which maps the address back to the domain, decides the outbound by the rules,
  resolves the domain through that outbound only (\<open>internal/resolver\<close>), dials (\<open>internal/outbound\<close>),
  falls back along the configured edges when the environment failed, and relays.  The mappings live in
  a write-ahead journal and a snapshot, so that they survive a restart.  All of it is built from one
  validated configuration (\<open>internal/config\<close>).

  Around this core the program takes over the host: it adds routes to its device and makes itself the
  resolver of the network services (\<open>internal/system\<close>), keeping a recovery record so that a later start
  or \<open>cleanup\<close> can undo what a dead process left (\<open>internal/app\<close>).  As a service it is split in two: a
  privileged supervisor owns the host settings, a worker without privilege runs the core, and the two
  speak a framed protocol over a socket pair (\<open>internal/privsep\<close>) whose errors are typed values
  (\<open>internal/apperror\<close>).

  \<^bold>\<open>Conventions.\<close>  Go integers that can wrap are words, times and durations are integers (Go's nanosecond
  counts, which the configuration bounds), strings are lists of bytes as characters, Go maps are
  association lists with distinct keys (\<open>gomap\<close>), errors are values of a sum type with the error on the
  left.  What is not written in the repository enters as an argument: the clock, random bytes, the
  JSON and YAML codecs, one exchange with one DNS server, dialers and sockets, the outcome of every
  system call.  An argument is constrained only by hypotheses a theorem states, and each theorem that
  has some is followed by a witness on concrete functions.

  \<^bold>\<open>Theories.\<close>
  \<^item> \<open>Prelude\<close>: Go maps with the locale \<open>go_dict\<close> of the laws their clients use, string functions of
    \<open>strings\<close>, sums.  \<open>Netip\<close>, \<open>Netip_Text\<close>: \<open>net/netip\<close> addresses and prefixes of both families at
    their width, ordering, textual form and its round trip.  \<open>Netip_Prefix\<close>: the round trip of prefixes, which
    the comparison of routes by their text rests on.  \<open>Duration\<close>: \<open>time.ParseDuration\<close>.
  \<^item> \<open>Domainname\<close> (\<open>domainname/domain.go\<close>): \<open>normalize\<close>, exclusion patterns.  Normalisation is
    idempotent, patterns match label-wise.
  \<^item> \<open>Config_Model\<close>, \<open>Config_Compile\<close> (\<open>config/config.go\<close>, \<open>config/reload.go\<close>): the decoded document, the
    runtime configuration, \<open>compile\<close> with all its parts, the reload check.  \<open>Chain\<close>, \<open>Config_Fallback\<close>:
    the depth-first search \<open>validateFallbacks\<close> accepts exactly the closed acyclic graphs, proved once
    in the locale \<open>fallback_search\<close> and interpreted for the configuration and for the session routes.
    \<open>Config_Properties\<close>: what an accepted configuration guarantees the other components.
  \<^item> \<open>Rules\<close> (\<open>rules/engine.go\<close>): construction of the engine, candidates before resolution, the match
    against resolved addresses, the Fake IP decision; each equals a first-match specification.
  \<^item> \<open>Fakeip_Pool\<close> (\<open>fakeip/pool.go\<close>): the pool with its two indexes over a store of entries, one
    function per critical section.  \<open>Fakeip_Invariant\<close>: the invariant every section keeps.
    \<open>Fakeip_System\<close>: all interleavings of the sections as a step relation, with the owner of
    \<open>persistenceMutex\<close> and the entries held by flows.  \<open>Fakeip_Restore\<close>: restoring a snapshot and a
    journal refines abstract updates of a map.  \<open>Fakeip_Alloc\<close>: \<open>GetOrAllocate\<close> as one call.
    \<open>Fakeip_Lifetime\<close>: what it answers holds through any sections of the mapping lifetime.
    \<open>Fakeip_Properties\<close>: uniqueness, stability, exact exhaustion, exact reference counts.
  \<^item> \<open>Fakeip_Persistence\<close> (\<open>fakeip/persistence.go\<close>): the snapshot and journal files as what \<open>Lstat\<close> and
    reading find, appending with rollback, checkpoints, opening with quarantine, clearing.
    \<open>Fakeip_Journal\<close>: torn and rolled-back appends.  \<open>Fakeip_Replay\<close>, \<open>Fakeip_Recovery\<close>: the partial map
    the two files stand for and how each file operation changes it.  \<open>Fakeip_Durable\<close>: pool and disk
    together under every interleaving.  \<open>Fakeip_Persistence_Properties\<close>: mappings survive a restart.
  \<^item> \<open>Outbound\<close> (\<open>outbound/errors.go\<close>, \<open>outbound/dial_darwin.go\<close>): error classes and dialers.
    \<open>Resolver\<close> (\<open>resolver/upstream.go\<close>, \<open>resolver/lookup.go\<close>): upstream selection, CNAME chains, cache;
    \<open>Resolver_Properties\<close> proves the lookup against any upstream (locale \<open>upstream\<close>).
  \<^item> \<open>Session\<close> (\<open>session/decision.go\<close>, \<open>session/routes_darwin.go\<close>, the connect loops of \<open>tcp.go\<close> and
    \<open>udp.go\<close>), \<open>Session_Handle\<close> (the handlers, the counters, the UDP registry).  A flow carries the
    trace of its lookups, dials and closes.  \<open>Session_Flow\<close>: the invariant of traces, proved for both
    protocols through the locales \<open>matcher\<close> and \<open>connector\<close>.  \<open>Session_Properties\<close>: DNS isolation,
    justified fallbacks, accounting, the registry's counts.
  \<^item> \<open>Fakedns\<close> (\<open>fakedns/server.go\<close>): construction, the query handler, policy reload, starting with
    rollback.  \<open>Fakedns_Properties\<close>: answers of both families lead back to the domain however the pool is
    used in between, the policy (stated over patterns and rules) separates pool and upstream, every query is
    answered and counted once.
  \<^item> \<open>System_Command\<close>, \<open>System_State\<close>, \<open>System_DNS\<close>, \<open>System_Route\<close> (\<open>system/command.go\<close>, \<open>state.go\<close>,
    \<open>transaction.go\<close>, \<open>dns_darwin.go\<close>, \<open>interface_dns_darwin.go\<close>, \<open>route_darwin.go\<close>, \<open>tun_darwin.go\<close>): the
    recovery record and its atomic replacement, the parsers of the commands' output, and every change of
    DNS servers and routes.  A command is an argument \<open>'h \<Rightarrow> string \<Rightarrow> string list \<Rightarrow> ...\<close> on a host \<open>'h\<close>.
    \<open>System_DNS_Properties\<close> and \<open>Host_Contract\<close> state what \<open>networksetup\<close> and \<open>route\<close> are relied on for
    (\<open>contract\<close>: an arbitrary view of the host, changed only by the commands that name it) and show that
    a restore undoes a takeover and touches only what the program itself set.
  \<^item> \<open>App_Host\<close> (\<open>app/run_darwin.go\<close>, \<open>routes_darwin.go\<close>, \<open>cleanup_darwin.go\<close>): \<open>Run\<close>, its \<open>finish\<close> and
    \<open>CleanupWithStatusOwners\<close> as far as they touch the host and the record; the other components enter by
    the outcome of their calls.  \<open>App_Recovery\<close>: the invariant that the record covers the host at every
    moment.  \<open>App_Properties\<close>: the program never strands the host, wherever it dies.
  \<^item> \<open>App_Capture\<close> (\<open>app/default_routes_darwin.go\<close>, \<open>app/effective_dns_darwin.go\<close>): the DNS servers in use and
    the plan of routes that captures the default route; the two route lookups are arguments.
    \<open>App_Capture_Invariant\<close>: the invariant of the maps the planner fills.  \<open>App_Capture_Properties\<close>: every
    upstream server and gateway keeps its physical route, and every planned route is one the program
    accepts.  \<open>App_Capture_Replan\<close>: the second proof after the installation, when it confirms the plan, and
    that it aborts the start when a lease names other servers than the file.
  \<^item> \<open>Apperror\<close> (\<open>apperror/codes.go\<close>, \<open>error.go\<close>, \<open>envelope.go\<close>), \<open>Apperror_Properties\<close>: typed errors, their
    bounded transport form, its validation; an error survives any number of process boundaries.
  \<^item> \<open>Privsep_Protocol\<close> (\<open>privsep/protocol.go\<close>): messages, validation, framing on bytes; \<open>Privsep_Framing\<close>:
    frames are received as sent.  \<open>Privsep_Session\<close> (\<open>handshake.go\<close>, \<open>session.go\<close>, \<open>supervisor.go\<close>): both
    ends, a call of the supervisor being split where it waits.  \<open>Privsep_System\<close>: all interleavings of
    calls, deliveries, abandoned calls and the death of the worker as a step relation.
    \<open>Privsep_Invariant\<close>, \<open>Privsep_Startup\<close>, \<open>Privsep_Requests\<close>: its invariants.  \<open>Privsep_Properties\<close>:
    ordered start-up, effective reloads, no call hangs.  \<open>Privsep_Handoff\<close> (\<open>identity.go\<close>,
    \<open>process_darwin.go\<close>, \<open>resources_darwin.go\<close>): the worker's identity and, for every outcome of every call,
    the descriptors each side holds.

  \<^bold>\<open>Bounds.\<close>  The resolve and connect loops of a session have fuel \<open>Suc (length routes)\<close>.  The routes
  were accepted by \<open>validateFallbacks\<close>, so a chain of fallbacks visits each route at most once; the
  theorems on flows show that a result is returned, not only that a returned result is right.  All other
  recursions have a termination proof.  The theorems on answered calls of the supervisor speak of fewer
  than \<open>2 ^ 64\<close> requests, where \<open>nextRequest\<close> itself refuses to go on.

  \<^bold>\<open>Durability.\<close>  The restart theorem speaks of runs from an opened persistence through any interleaving
  of critical sections and file operations.  It assumes that the codecs read back what they wrote
  (\<open>codec_ok\<close>), that the clock does not go backwards, and that a failed append was rolled back and a
  failed checkpoint failed before its rename or reached the disk.  The last assumption is needed: a
  checkpoint whose rename succeeded and whose directory sync failed makes the program append under an
  epoch that the next start ignores, which is a theorem here as well.

  \<^bold>\<open>Host.\<close>  The theorems on the host assume \<open>contract\<close>: reading a service's servers or a route reports
  what the host has, a command that fails to add or delete may or may not have done so, and nothing else
  changes what the program recorded.  A crash is a point from which every command and every write fails.

  \<^bold>\<open>Abstractions.\<close>  A call that reads the clock several times sees one value, except where steps interleave.
  A failed write of a frame leaves nothing on the connection.  The reference count of a mapping is a
  64-bit word, and a flow acquires only while it cannot wrap.  A panic that a constructor excludes is an
  error value.  \<open>Run\<close> begins where it may first change the host.

  \<^bold>\<open>Not modelled.\<close>  The copy loops of the relays, the glue to the gVisor stack and the packet pump:
  their substance is I/O and a third-party stack, and the session handlers take their outcome as an
  argument.  Launch services, process attribution, status presentation and the command line mostly format
  data and call the system.
\<close>

end
